(* ===== verification/Go_Prelude.thy ===== *)
theory Go_Prelude
  imports Main "HOL-Library.AList" "HOL-Library.Char_ord" "HOL-Library.List_Lexorder"
    "HOL-Library.Multiset" "HOL-Library.Code_Target_Nat"
begin

text \<open>
  The shared base of the development: the parts of the Go language and of its standard
  library that the controller uses, as HOL functions.

  \<^item> Strings are byte strings (\<^typ>\<open>string\<close>). Go compares strings byte by byte, which is
    the lexicographic order of \<^verbatim>\<open>HOL-Library.List_Lexorder\<close> over \<^verbatim>\<open>HOL-Library.Char_ord\<close>.
    Case conversion is modelled on the ASCII letters.
  \<^item> A Go map is an association list with distinct keys (\<open>gomap\<close>); reading is \<^const>\<open>map_of\<close>,
    writing and deleting are \<^const>\<open>AList.update\<close> and \<^const>\<open>AList.delete\<close>. The order of the list
    is one order in which a \<^verbatim>\<open>range\<close> loop may visit the map, so a statement about every list is a
    statement about every iteration order. A Go set (\<^verbatim>\<open>map[K]struct{}\<close>) is a list without
    duplicates.
  \<^item> An error return is \<open>Inl\<close> of a sum type, a result is \<open>Inr\<close>.
\<close>

named_theorems go_simps \<open>equations of the Go library functions, for evaluation\<close>
named_theorems gomap_simps \<open>what reading a map returns after each map operation\<close>

type_synonym ('k, 'v) gomap = "('k \<times> 'v) list"

subsection \<open>Strings\<close>

definition HasPrefix :: "string \<Rightarrow> string \<Rightarrow> bool" where
  "HasPrefix s p \<longleftrightarrow> take (length p) s = p"

definition HasSuffix :: "string \<Rightarrow> string \<Rightarrow> bool" where
  "HasSuffix s x \<longleftrightarrow> length x \<le> length s \<and> drop (length s - length x) s = x"

definition TrimPrefix :: "string \<Rightarrow> string \<Rightarrow> string" where
  "TrimPrefix s p = (if HasPrefix s p then drop (length p) s else s)"

definition TrimSuffix :: "string \<Rightarrow> string \<Rightarrow> string" where
  "TrimSuffix s x = (if HasSuffix s x then take (length s - length x) s else s)"

definition lower_char :: "char \<Rightarrow> char" where
  "lower_char c = (let n = (of_char c :: nat) in if 65 \<le> n \<and> n \<le> 90 then char_of (n + 32) else c)"

definition upper_char :: "char \<Rightarrow> char" where
  "upper_char c = (let n = (of_char c :: nat) in if 97 \<le> n \<and> n \<le> 122 then char_of (n - 32) else c)"

definition ToLower :: "string \<Rightarrow> string" where
  "ToLower s = map lower_char s"

definition ToUpper :: "string \<Rightarrow> string" where
  "ToUpper s = map upper_char s"

text \<open>\<^verbatim>\<open>strings.Cut(s, sep)\<close> for a one-byte separator: before, after, found.\<close>

fun Cut :: "string \<Rightarrow> char \<Rightarrow> string \<times> string \<times> bool" where
  "Cut [] c = ([], [], False)"
| "Cut (x # xs) c =
     (if x = c then ([], xs, True)
      else (case Cut xs c of (a, b, f) \<Rightarrow> (x # a, b, f)))"

text \<open>\<^verbatim>\<open>strings.Split(s, sep)\<close> for a one-byte separator: always at least one part.\<close>

fun Split :: "string \<Rightarrow> char \<Rightarrow> string list" where
  "Split [] c = [[]]"
| "Split (x # xs) c =
     (if x = c then [] # Split xs c
      else (case Split xs c of [] \<Rightarrow> [[x]] | p # ps \<Rightarrow> (x # p) # ps))"

definition Contains :: "string \<Rightarrow> string \<Rightarrow> bool" where
  "Contains s x \<longleftrightarrow> list_ex (\<lambda>i. HasPrefix (drop i s) x) [0..<Suc (length s)]"

fun Join :: "string list \<Rightarrow> string \<Rightarrow> string" where
  "Join [] sep = []"
| "Join [x] sep = x"
| "Join (x # y # xs) sep = x @ sep @ Join (y # xs) sep"

definition is_space :: "char \<Rightarrow> bool" where
  "is_space c \<longleftrightarrow> (of_char c :: nat) \<in> {9, 10, 11, 12, 13, 32}"

definition TrimSpace :: "string \<Rightarrow> string" where
  "TrimSpace s = rev (dropWhile is_space (rev (dropWhile is_space s)))"

text \<open>\<^verbatim>\<open>fmt.Sprint\<close> and \<^verbatim>\<open>%d\<close> of an integer.\<close>

fun show_nat :: "nat \<Rightarrow> string" where
  "show_nat n = (if n < 10 then [char_of (48 + n)] else show_nat (n div 10) @ [char_of (48 + n mod 10)])"

declare show_nat.simps [simp del]

definition show_int :: "int \<Rightarrow> string" where
  "show_int i = (if i < 0 then ''-'' @ show_nat (nat (- i)) else show_nat (nat i))"

text \<open>A pointer to a string that a protobuf getter reads: nil gives the empty string.\<close>

definition deref_str :: "string option \<Rightarrow> string" where
  "deref_str p = (case p of None \<Rightarrow> [] | Some s \<Rightarrow> s)"

text \<open>Reading an absent key of a \<^verbatim>\<open>map[string]string\<close> gives the empty string.\<close>

definition mget_str :: "(string, string) gomap \<Rightarrow> string \<Rightarrow> string" where
  "mget_str m k = deref_str (map_of m k)"

subsection \<open>Maps\<close>

definition wf_map :: "('k, 'v) gomap \<Rightarrow> bool" where
  "wf_map m \<longleftrightarrow> distinct (map fst m)"

text \<open>Merging \<open>src\<close> into \<open>dst\<close>: \<^verbatim>\<open>for k, v := range src { dst[k] = v }\<close>.\<close>

fun mmerge :: "('k, 'v) gomap \<Rightarrow> ('k, 'v) gomap \<Rightarrow> ('k, 'v) gomap" where
  "mmerge dst [] = dst"
| "mmerge dst ((k, v) # src) = mmerge (AList.update k v dst) src"

text \<open>Two listings of one Go map: the same entries, possibly visited in another order.\<close>

definition same_map :: "('k, 'v) gomap \<Rightarrow> ('k, 'v) gomap \<Rightarrow> bool" where
  "same_map m m' \<longleftrightarrow> wf_map m \<and> wf_map m' \<and> map_of m = map_of m'"

text \<open>
  The order in which a \<^verbatim>\<open>range\<close> loop visits a map that the code has built: \<open>p n\<close> lists the positions of the \<open>n\<close>
  entries. Go leaves it open, so lemmas assume only that it is a permutation.
\<close>

definition visit :: "(nat \<Rightarrow> nat list) \<Rightarrow> 'a list \<Rightarrow> 'a list" where
  "visit p xs = map (\<lambda>i. xs ! i) (p (length xs))"

definition permuting :: "(nat \<Rightarrow> nat list) \<Rightarrow> bool" where
  "permuting p \<longleftrightarrow> (\<forall>n. mset (p n) = mset [0..<n])"

subsection \<open>Errors\<close>

text \<open>Sequencing of fallible steps: the first error is returned.\<close>

definition ebind :: "'e + 'a \<Rightarrow> ('a \<Rightarrow> 'e + 'b) \<Rightarrow> 'e + 'b" where
  "ebind r f = (case r of Inl e \<Rightarrow> Inl e | Inr x \<Rightarrow> f x)"

text \<open>A loop whose body may fail: \<^verbatim>\<open>for _, x := range xs { s, err = f(s, x); if err != nil { return err } }\<close>.\<close>

fun efold :: "('s \<Rightarrow> 'a \<Rightarrow> 'e + 's) \<Rightarrow> 's \<Rightarrow> 'a list \<Rightarrow> 'e + 's" where
  "efold f s [] = Inr s"
| "efold f s (x # xs) = ebind (f s x) (\<lambda>s'. efold f s' xs)"

text \<open>A loop that collects one result per element.\<close>

fun emap :: "('a \<Rightarrow> 'e + 'b) \<Rightarrow> 'a list \<Rightarrow> 'e + 'b list" where
  "emap f [] = Inr []"
| "emap f (x # xs) = ebind (f x) (\<lambda>y. ebind (emap f xs) (\<lambda>ys. Inr (y # ys)))"

subsection \<open>Lemmas on strings\<close>

lemma HasPrefix_iff: "HasPrefix s p \<longleftrightarrow> (\<exists>r. s = p @ r)"
  unfolding HasPrefix_def by (metis append_eq_conv_conj append_take_drop_id)

lemma HasPrefix_append [simp]: "HasPrefix (p @ r) p"
  by (simp add: HasPrefix_def)

lemma HasSuffix_iff: "HasSuffix s x \<longleftrightarrow> (\<exists>r. s = r @ x)"
  unfolding HasSuffix_def by (metis append_eq_conv_conj append_take_drop_id diff_add_inverse2 le_add2 length_append)

lemma HasSuffix_append [simp]: "HasSuffix (r @ x) x"
  by (simp add: HasSuffix_def)

lemma HasSuffix_refl [simp]: "HasSuffix s s"
  by (simp add: HasSuffix_def)

lemma TrimPrefix_append [simp]: "TrimPrefix (p @ r) p = r"
  by (simp add: TrimPrefix_def)

lemma lower_char_idem [simp]: "lower_char (lower_char c) = lower_char c"
  by (auto simp: lower_char_def Let_def)

lemma ToLower_idem [simp]: "ToLower (ToLower s) = ToLower s"
  by (simp add: ToLower_def)

lemma Cut_correct:
  "Cut s c = (a, b, f) \<Longrightarrow> c \<notin> set a \<and> (if f then s = a @ c # b else s = a \<and> b = [])"
  by (induction s arbitrary: a b f) (auto split: if_splits prod.splits)

lemma Cut_found: "c \<notin> set a \<Longrightarrow> Cut (a @ c # b) c = (a, b, True)"
  by (induction a) auto

lemma Cut_not_found: "c \<notin> set s \<Longrightarrow> Cut s c = (s, [], False)"
  by (induction s) auto

lemma Split_nonempty [simp]: "Split s c \<noteq> []"
  by (cases s) (auto split: list.splits)

lemma Split_no_sep: "c \<notin> set s \<Longrightarrow> Split s c = [s]"
  by (induction s) auto

lemma Split_one_sep: "c \<notin> set a \<Longrightarrow> Split (a @ c # b) c = a # Split b c"
  by (induction a) auto

lemma Split_parts_no_sep: "p \<in> set (Split s c) \<Longrightarrow> c \<notin> set p"
  by (induction s arbitrary: p) (auto split: if_splits list.splits)

lemma Split_length: "length (Split s c) = Suc (count_list s c)"
  by (induction s) (auto split: list.splits)

lemma Split_singleton: "Split s c = [p] \<longleftrightarrow> s = p \<and> c \<notin> set s"
proof
  assume h: "Split s c = [p]"
  have "count_list s c = 0" using h Split_length [of s c] by simp
  then have "c \<notin> set s" by (simp add: count_list_0_iff)
  then show "s = p \<and> c \<notin> set s" using h Split_no_sep by fastforce
qed (auto simp: Split_no_sep)

lemma Split_pair: "Split s c = [p, q] \<longleftrightarrow> s = p @ c # q \<and> c \<notin> set p \<and> c \<notin> set q"
proof
  assume h: "Split s c = [p, q]"
  have "count_list s c \<noteq> 0" using h Split_length [of s c] by simp
  then have "c \<in> set s" by (simp add: count_list_0_iff)
  then obtain a b where s: "s = a @ c # b" and na: "c \<notin> set a"
    by (meson split_list_first)
  then have "a # Split b c = [p, q]" using h by (simp add: Split_one_sep)
  then show "s = p @ c # q \<and> c \<notin> set p \<and> c \<notin> set q" using s na by (auto simp: Split_singleton)
qed (simp add: Split_one_sep Split_no_sep)

subsection \<open>Lemmas on maps\<close>

lemma map_of_update [gomap_simps]: "map_of (AList.update k v m) = (map_of m)(k \<mapsto> v)"
  by (rule update_conv')

lemma map_of_delete [gomap_simps]: "map_of (AList.delete k m) = (map_of m)(k := None)"
  by (rule delete_conv')

lemma ran_update: "ran (map_of (AList.update k v m)) \<subseteq> insert v (ran (map_of m))"
  by (auto simp: gomap_simps ran_def split: if_splits)

lemma ran_delete: "ran (map_of (AList.delete k m)) \<subseteq> ran (map_of m)"
  by (auto simp: gomap_simps ran_def split: if_splits)

lemma wf_map_Nil [simp]: "wf_map []"
  by (simp add: wf_map_def)

lemma wf_map_update [simp]: "wf_map m \<Longrightarrow> wf_map (AList.update k v m)"
  by (simp add: wf_map_def distinct_update)

lemma wf_map_delete [simp]: "wf_map m \<Longrightarrow> wf_map (AList.delete k m)"
  by (simp add: wf_map_def distinct_delete)

lemma wf_map_filter [simp]: "wf_map m \<Longrightarrow> wf_map (filter P m)"
  by (simp add: wf_map_def distinct_map_filter)

lemma wf_map_in_set: "wf_map m \<Longrightarrow> (k, v) \<in> set m \<longleftrightarrow> map_of m k = Some v"
  by (simp add: wf_map_def)

lemma wf_map_distinct: "wf_map m \<Longrightarrow> distinct m"
  by (simp add: wf_map_def distinct_map)

lemma same_map_set: "same_map m m' \<Longrightarrow> set m = set m'"
  unfolding same_map_def wf_map_def by (metis map_of_eqI map_of_inject_set)

lemma same_map_mset: "same_map m m' \<Longrightarrow> mset m = mset m'"
  using same_map_set [of m m'] wf_map_distinct [of m] wf_map_distinct [of m']
  by (simp add: same_map_def set_eq_iff_mset_eq_distinct)

lemma same_mapI: "wf_map m \<Longrightarrow> mset m = mset m' \<Longrightarrow> same_map m m'"
proof -
  assume wf: "wf_map m" and eq: "mset m = mset m'"
  then have "wf_map m'" unfolding wf_map_def by (metis mset_eq_imp_distinct_iff mset_map)
  then show ?thesis
    using wf mset_eq_setD [OF eq] unfolding same_map_def wf_map_def by (simp add: map_of_inject_set)
qed

lemma map_of_filter_key:
  "wf_map m \<Longrightarrow> map_of (filter (\<lambda>(k, v). P k v) m) k =
     (case map_of m k of None \<Rightarrow> None | Some v \<Rightarrow> if P k v then Some v else None)"
proof (induction m)
  case (Cons kv m)
  then show ?case
    by (cases kv) (auto simp: wf_map_def split: option.splits dest: map_of_SomeD intro: rev_image_eqI)
qed simp

lemma wf_map_mmerge [simp]: "wf_map dst \<Longrightarrow> wf_map (mmerge dst src)"
  by (induction dst src rule: mmerge.induct) auto

lemma map_of_mmerge: "wf_map src \<Longrightarrow> map_of (mmerge dst src) = map_of dst ++ map_of src"
proof (induction dst src rule: mmerge.induct)
  case (2 dst k v src)
  then have "map_of src k = None" by (simp add: wf_map_def map_of_eq_None_iff)
  with "2" show ?case
    by (auto simp: wf_map_def gomap_simps fun_eq_iff map_add_def split: option.splits)
qed simp

lemma union_subset_trans: "A \<union> S \<subseteq> R \<union> L \<Longrightarrow> R \<union> U \<subseteq> T \<union> M \<Longrightarrow> A \<union> (S \<union> U) \<subseteq> T \<union> (L \<union> M)"
  by blast

lemma mset_visit: "permuting p \<Longrightarrow> mset (visit p xs) = mset xs"
proof -
  assume "permuting p"
  then have "mset (visit p xs) = mset (map (\<lambda>i. xs ! i) [0..<length xs])"
    by (simp add: visit_def permuting_def del: mset_map flip: mset_map) (simp add: mset_map)
  then show ?thesis by (simp add: map_nth)
qed

lemma set_visit [simp]: "permuting p \<Longrightarrow> set (visit p xs) = set xs"
  using mset_visit [of p xs] mset_eq_setD by blast

lemma visit_Nil_iff [simp]: "permuting p \<Longrightarrow> visit p xs = [] \<longleftrightarrow> xs = []"
  using mset_visit [of p xs] by auto

lemma visit_Nil [simp]: "permuting p \<Longrightarrow> visit p [] = []"
  by simp

subsection \<open>Lemmas on errors\<close>

lemma ebind_Inr_iff: "ebind r f = Inr y \<longleftrightarrow> (\<exists>x. r = Inr x \<and> f x = Inr y)"
  by (auto simp: ebind_def split: sum.splits)

lemma ebind_Inl_iff: "ebind r f = Inl e \<longleftrightarrow> r = Inl e \<or> (\<exists>x. r = Inr x \<and> f x = Inl e)"
  by (auto simp: ebind_def split: sum.splits)

lemma ebind_simps [simp]: "ebind (Inl e) f = Inl e" "ebind (Inr x) f = f x"
  by (simp_all add: ebind_def)

text \<open>Wrapping an error with \<^verbatim>\<open>fmt.Errorf\<close> does not change success.\<close>

lemma wrap_Inr_iff [simp]: "(case r of Inl e \<Rightarrow> Inl (f e) | Inr x \<Rightarrow> Inr x) = Inr y \<longleftrightarrow> r = Inr y"
  by (cases r) auto

lemma emap_Inr_length: "emap f xs = Inr ys \<Longrightarrow> length ys = length xs"
  by (induction xs arbitrary: ys) (auto simp: ebind_Inr_iff)

lemma emap_Inr_nth: "emap f xs = Inr ys \<Longrightarrow> i < length xs \<Longrightarrow> f (xs ! i) = Inr (ys ! i)"
  by (induction xs arbitrary: ys i) (auto simp: ebind_Inr_iff nth_Cons split: nat.splits)

lemma emap_Inr_set: "emap f xs = Inr ys \<Longrightarrow> y \<in> set ys \<longleftrightarrow> (\<exists>x \<in> set xs. f x = Inr y)"
  by (induction xs arbitrary: ys) (auto simp: ebind_Inr_iff)

lemma emap_total: "(\<And>x. x \<in> set xs \<Longrightarrow> \<exists>y. f x = Inr y) \<Longrightarrow> \<exists>ys. emap f xs = Inr ys"
  by (induction xs) (auto simp: ebind_def split: sum.splits, metis sum.distinct(1))

lemma efold_invariant:
  assumes "efold f s xs = Inr s'" and "P s"
    and "\<And>s x s'. P s \<Longrightarrow> x \<in> set xs \<Longrightarrow> f s x = Inr s' \<Longrightarrow> P s'"
  shows "P s'"
  using assms
proof (induction xs arbitrary: s)
  case (Cons x xs)
  from Cons.prems(1) obtain t where t: "f s x = Inr t" "efold f t xs = Inr s'"
    by (auto simp: ebind_Inr_iff)
  have "P t" by (rule Cons.prems(3) [OF Cons.prems(2) _ t(1)]) simp
  then show ?case
    by (rule Cons.IH [OF t(2)]) (rule Cons.prems(3), simp_all)
qed simp

lemma efold_append: "efold f s (xs @ ys) = ebind (efold f s xs) (\<lambda>s'. efold f s' ys)"
  by (induction xs arbitrary: s) (auto simp: ebind_def split: sum.splits)

text \<open>A loop whose steps succeed or fail whatever the state is.\<close>

lemma not_isl_iff: "\<not> isl r \<longleftrightarrow> (\<exists>x. r = Inr x)"
  by (cases r) auto

lemma isl_ebind: "isl (ebind r f) \<longleftrightarrow> (case r of Inl _ \<Rightarrow> True | Inr x \<Rightarrow> isl (f x))"
  by (simp split: sum.split)

lemma efold_ok_iff:
  assumes "\<And>x s. x \<in> set xs \<Longrightarrow> \<not> isl (f s x) \<longleftrightarrow> P x"
  shows "\<not> isl (efold f s xs) \<longleftrightarrow> (\<forall>x \<in> set xs. P x)"
  using assms
proof (induction xs arbitrary: s)
  case (Cons x xs)
  have "\<not> isl (efold f s1 xs) \<longleftrightarrow> (\<forall>x \<in> set xs. P x)" for s1 by (rule Cons.IH) (simp add: Cons.prems)
  moreover have "\<not> isl (f s x) \<longleftrightarrow> P x" using Cons.prems by simp
  ultimately show ?case by (auto simp: isl_ebind split: sum.splits)
qed simp

lemma emap_ok_iff: "\<not> isl (emap f xs) \<longleftrightarrow> (\<forall>x \<in> set xs. \<not> isl (f x))"
  by (induction xs) (auto simp: isl_ebind split: sum.splits)

lemma efold_Inl: "efold f s xs = Inl e \<Longrightarrow> \<exists>s' x. x \<in> set xs \<and> f s' x = Inl e"
  by (induction xs arbitrary: s) (force simp: ebind_Inl_iff)+

lemma emap_Inl: "emap f xs = Inl e \<Longrightarrow> \<exists>x \<in> set xs. f x = Inl e"
  by (induction xs) (auto simp: ebind_Inl_iff)

end
