(* ===== verification/Name_Index.thy ===== *)
theory Name_Index
  imports Go_Prelude
begin

text \<open>
  \<^verbatim>\<open>internal/certificate/nameindex.go\<close>: an index of DNS names by suffix and prefix, with exact and
  wildcard lookups. The locale \<open>name_index_spec\<close> is its contract: what a lookup returns is given by
  the names stored under each key and a matching relation on names.
\<close>

record 'k name_index =
  suffixes :: "(string, (string, 'k list) gomap) gomap"
  keys :: "('k, string list) gomap"

definition NewNameIndex :: "'k name_index" where
  "NewNameIndex = \<lparr>suffixes = [], keys = []\<rparr>"

definition splitName :: "string \<Rightarrow> string \<times> string" where
  "splitName name =
     (let name = ToLower (TrimSuffix name ''.'') in
      case Cut name (CHR ''.'') of
        (prefix, suffix, found) \<Rightarrow> if \<not> found then (name, []) else (prefix, suffix))"

definition ni_Get :: "'k name_index \<Rightarrow> 'k \<Rightarrow> string list" where
  "ni_Get idx key = (case map_of (keys idx) key of None \<Rightarrow> [] | Some ns \<Rightarrow> ns)"

definition ni_Keys :: "'k name_index \<Rightarrow> 'k list" where
  "ni_Keys idx = map fst (keys idx)"

definition ni_Names :: "'k name_index \<Rightarrow> string list" where
  "ni_Names idx = foldl (\<lambda>m (k, names). foldl (\<lambda>m n. List.insert n m) m names) [] (keys idx)"

text \<open>One iteration of the loop of \<^verbatim>\<open>Remove\<close>: drop the key under one name, and empty maps with it.\<close>

definition unindex_name ::
  "'k \<Rightarrow> (string, (string, 'k list) gomap) gomap \<Rightarrow> string \<Rightarrow> (string, (string, 'k list) gomap) gomap" where
  "unindex_name key sfx name =
     (case splitName name of (prefix, suffix) \<Rightarrow>
        (case map_of sfx suffix of
           None \<Rightarrow> sfx
         | Some prefixes \<Rightarrow>
             (case map_of prefixes prefix of
                None \<Rightarrow> sfx
              | Some ks \<Rightarrow>
                  (let ks' = removeAll key ks;
                       prefixes' = (if ks' = [] then AList.delete prefix prefixes
                                    else AList.update prefix ks' prefixes)
                   in if prefixes' = [] then AList.delete suffix sfx
                      else AList.update suffix prefixes' sfx))))"

definition ni_Remove :: "'k name_index \<Rightarrow> 'k \<Rightarrow> 'k name_index" where
  "ni_Remove idx key =
     idx\<lparr>suffixes := foldl (unindex_name key) (suffixes idx) (ni_Get idx key),
         keys := AList.delete key (keys idx)\<rparr>"

text \<open>One iteration of the loop of \<^verbatim>\<open>Add\<close>: make the missing maps and enter the key.\<close>

definition index_name ::
  "'k \<Rightarrow> (string, (string, 'k list) gomap) gomap \<Rightarrow> string \<Rightarrow> (string, (string, 'k list) gomap) gomap" where
  "index_name key sfx name =
     (case splitName name of (prefix, suffix) \<Rightarrow>
        (let prefixes = (case map_of sfx suffix of None \<Rightarrow> [] | Some ps \<Rightarrow> ps);
             ks = (case map_of prefixes prefix of None \<Rightarrow> [] | Some ks \<Rightarrow> ks)
         in AList.update suffix (AList.update prefix (List.insert key ks) prefixes) sfx))"

definition ni_Add :: "'k name_index \<Rightarrow> 'k \<Rightarrow> string list \<Rightarrow> 'k name_index" where
  "ni_Add idx key names =
     (let idx' = ni_Remove idx key in
      idx'\<lparr>keys := AList.update key names (keys idx'),
           suffixes := foldl (index_name key) (suffixes idx') names\<rparr>)"

definition collect_keys :: "'k list \<Rightarrow> 'k list \<Rightarrow> 'k list" where
  "collect_keys allKeys ks = foldl (\<lambda>acc k. List.insert k acc) allKeys ks"

definition ni_Lookup :: "'k name_index \<Rightarrow> string \<Rightarrow> bool \<Rightarrow> 'k list" where
  "ni_Lookup idx name allowWildcard =
     (case splitName name of (prefix, suffix) \<Rightarrow>
        (case map_of (suffixes idx) suffix of
           None \<Rightarrow> []
         | Some prefixes \<Rightarrow>
             if prefix = ''*'' \<and> allowWildcard
             then foldl (\<lambda>acc (p, ks). collect_keys acc ks) [] prefixes
             else let exact = (case map_of prefixes prefix of None \<Rightarrow> [] | Some ks \<Rightarrow> collect_keys [] ks)
                  in (case map_of prefixes ''*'' of None \<Rightarrow> exact | Some ks \<Rightarrow> collect_keys exact ks)))"

subsection \<open>Specification\<close>

text \<open>
  \<open>name_matches w q n\<close>: the stored name \<open>n\<close> answers the query \<open>q\<close>. Both have the same suffix, and the
  first labels agree, or the stored one is a wildcard, or the query is one and \<open>w\<close> allows it.
\<close>

definition name_matches :: "bool \<Rightarrow> string \<Rightarrow> string \<Rightarrow> bool" where
  "name_matches w q n \<longleftrightarrow>
     snd (splitName q) = snd (splitName n) \<and>
     (fst (splitName n) = fst (splitName q) \<or> fst (splitName n) = ''*'' \<and> \<not> (fst (splitName q) = ''*'' \<and> w) \<or>
      fst (splitName q) = ''*'' \<and> w)"

text \<open>The keys filed under a prefix and a suffix.\<close>

definition ni_at :: "(string, (string, 'k list) gomap) gomap \<Rightarrow> string \<Rightarrow> string \<Rightarrow> 'k set" where
  "ni_at sfx p s =
     (case map_of sfx s of None \<Rightarrow> {} | Some ps \<Rightarrow> (case map_of ps p of None \<Rightarrow> {} | Some ks \<Rightarrow> set ks))"

definition wf_prefixes :: "(string, 'k list) gomap \<Rightarrow> bool" where
  "wf_prefixes ps \<longleftrightarrow> wf_map ps \<and> ps \<noteq> [] \<and> (\<forall>ks \<in> ran (map_of ps). ks \<noteq> [])"

definition wf_suffixes :: "(string, (string, 'k list) gomap) gomap \<Rightarrow> bool" where
  "wf_suffixes sfx \<longleftrightarrow> wf_map sfx \<and> (\<forall>ps \<in> ran (map_of sfx). wf_prefixes ps)"

definition ni_inv :: "'k name_index \<Rightarrow> bool" where
  "ni_inv idx \<longleftrightarrow> wf_map (keys idx) \<and> wf_suffixes (suffixes idx) \<and>
     (\<forall>p s k. k \<in> ni_at (suffixes idx) p s \<longleftrightarrow> (p, s) \<in> splitName ` set (ni_Get idx k))"

locale name_index_spec =
  fixes empty :: 'i
    and add :: "'i \<Rightarrow> 'k \<Rightarrow> string list \<Rightarrow> 'i"
    and remove :: "'i \<Rightarrow> 'k \<Rightarrow> 'i"
    and get :: "'i \<Rightarrow> 'k \<Rightarrow> string list"
    and lookup :: "'i \<Rightarrow> string \<Rightarrow> bool \<Rightarrow> 'k list"
    and invar :: "'i \<Rightarrow> bool"
  assumes invar_empty: "invar empty"
    and invar_add: "invar i \<Longrightarrow> invar (add i k ns)"
    and invar_remove: "invar i \<Longrightarrow> invar (remove i k)"
    and get_empty: "get empty k = []"
    and get_add: "get (add i k ns) k' = (if k' = k then ns else get i k')"
    and get_remove: "get (remove i k) k' = (if k' = k then [] else get i k')"
    and lookup_iff: "invar i \<Longrightarrow> k \<in> set (lookup i q w) \<longleftrightarrow> (\<exists>n \<in> set (get i k). name_matches w q n)"
begin

text \<open>All names of the index, and whether some name of the index answers a query.\<close>

definition all_names :: "'i \<Rightarrow> string set" where
  "all_names i = (\<Union>k. set (get i k))"

lemma lookup_empty_iff: "invar i \<Longrightarrow> lookup i q w = [] \<longleftrightarrow> (\<forall>n \<in> all_names i. \<not> name_matches w q n)"
proof -
  assume i: "invar i"
  have "lookup i q w = [] \<longleftrightarrow> (\<forall>k. k \<notin> set (lookup i q w))"
    by (metis empty_iff empty_set list.set_intros(1) neq_Nil_conv)
  then show ?thesis using lookup_iff [OF i, of _ q w] by (auto simp: all_names_def)
qed

text \<open>Replacing the names of a key: an empty list of names removes the key.\<close>

lemma get_replace:
  "get (if ns = [] then remove i k else add i k ns) k' = (if k' = k then ns else get i k')"
  by (simp add: get_add get_remove)

lemma invar_replace: "invar i \<Longrightarrow> invar (if ns = [] then remove i k else add i k ns)"
  by (simp add: invar_add invar_remove)

text \<open>A query changes from answered to unanswered or back only through a name that the replacement
  adds or removes.\<close>

lemma replace_answer_change:
  assumes "invar i"
    and i': "i' = (if ns = [] then remove i k else add i k ns)"
    and "(lookup i q w = []) \<noteq> (lookup i' q w = [])"
  shows "\<exists>n \<in> (set (get i k) - set ns) \<union> (set ns - set (get i k)). name_matches w q n"
proof (rule ccontr)
  assume none: "\<not> ?thesis"
  have inv': "invar i'" unfolding i' by (rule invar_replace [OF assms(1)])
  have same: "(\<exists>n \<in> set (get i' k'). name_matches w q n) = (\<exists>n \<in> set (get i k'). name_matches w q n)" for k'
    using none unfolding i' get_replace by (cases "k' = k") auto
  have "(\<forall>n \<in> all_names i. \<not> name_matches w q n) = (\<forall>n \<in> all_names i'. \<not> name_matches w q n)"
    using same by (auto simp: all_names_def)
  then show False
    using assms(3) unfolding lookup_empty_iff [OF assms(1)] lookup_empty_iff [OF inv'] by simp
qed

end

subsection \<open>Lemmas on the nested maps\<close>

lemma set_collect_keys [simp]: "set (collect_keys acc ks) = set acc \<union> set ks"
  unfolding collect_keys_def by (induction ks arbitrary: acc) auto

lemma set_collect_all: "set (foldl (\<lambda>acc (p, ks). collect_keys acc ks) acc ps) = set acc \<union> (\<Union>(p, ks) \<in> set ps. set ks)"
  by (induction ps arbitrary: acc) auto

lemma wf_suffixes_lookup: "wf_suffixes sfx \<Longrightarrow> map_of sfx s = Some ps \<Longrightarrow> wf_prefixes ps"
  by (meson ranI wf_suffixes_def)

lemma wf_suffixes_update: "wf_suffixes sfx \<Longrightarrow> wf_prefixes ps \<Longrightarrow> wf_suffixes (AList.update s ps sfx)"
  unfolding wf_suffixes_def using ran_update [of s ps sfx] by fastforce

lemma wf_suffixes_delete: "wf_suffixes sfx \<Longrightarrow> wf_suffixes (AList.delete s sfx)"
  unfolding wf_suffixes_def using ran_delete [of s sfx] by auto

lemma wf_prefixes_update: "wf_map ps \<Longrightarrow> (\<forall>ks \<in> ran (map_of ps). ks \<noteq> []) \<Longrightarrow> ks \<noteq> [] \<Longrightarrow> wf_prefixes (AList.update p ks ps)"
proof -
  assume h: "wf_map ps" "\<forall>ks \<in> ran (map_of ps). ks \<noteq> []" "ks \<noteq> []"
  have "map_of (AList.update p ks ps) p = Some ks" by (simp add: gomap_simps)
  then have "AList.update p ks ps \<noteq> []" by auto
  then show ?thesis
    using h ran_update [of p ks ps] unfolding wf_prefixes_def by fastforce
qed

lemma wf_prefixes_delete:
  "wf_prefixes ps \<Longrightarrow> AList.delete p ps \<noteq> [] \<Longrightarrow> wf_prefixes (AList.delete p ps)"
  unfolding wf_prefixes_def using ran_delete [of p ps] by auto

text \<open>Reading the nested map after a change of one of its inner maps.\<close>

lemma ni_at_update:
  "ni_at (AList.update s ps sfx) p' s' =
     (if s' = s then (case map_of ps p' of None \<Rightarrow> {} | Some ks \<Rightarrow> set ks) else ni_at sfx p' s')"
  by (simp add: ni_at_def gomap_simps)

lemma ni_at_delete: "ni_at (AList.delete s sfx) p' s' = (if s' = s then {} else ni_at sfx p' s')"
  by (simp add: ni_at_def gomap_simps)

lemma ni_at_index_name:
  "ni_at (index_name key sfx name) p s = ni_at sfx p s \<union> (if splitName name = (p, s) then {key} else {})"
proof (cases "splitName name")
  case (Pair p0 s0)
  define ps where "ps = (case map_of sfx s0 of None \<Rightarrow> [] | Some ps \<Rightarrow> ps)"
  define ks where "ks = (case map_of ps p0 of None \<Rightarrow> [] | Some ks \<Rightarrow> ks)"
  have old: "ni_at sfx p' s0 = (case map_of ps p' of None \<Rightarrow> {} | Some ks \<Rightarrow> set ks)" for p'
    by (simp add: ni_at_def ps_def split: option.split)
  have ks: "set ks = ni_at sfx p0 s0"
    by (simp add: old ks_def split: option.split)
  have "index_name key sfx name = AList.update s0 (AList.update p0 (List.insert key ks) ps) sfx"
    by (simp add: index_name_def Pair Let_def ps_def ks_def)
  then show ?thesis
    using ks by (auto simp: Pair ni_at_update map_of_update old split: if_splits)
qed

lemma wf_index_name: "wf_suffixes sfx \<Longrightarrow> wf_suffixes (index_name key sfx name)"
proof (cases "splitName name")
  case (Pair p0 s0)
  assume wf: "wf_suffixes sfx"
  let ?ps = "case map_of sfx s0 of None \<Rightarrow> [] | Some ps \<Rightarrow> ps"
  have "wf_map ?ps \<and> (\<forall>ks \<in> ran (map_of ?ps). ks \<noteq> [])"
    using wf_suffixes_lookup [OF wf, of s0] by (simp add: wf_prefixes_def split: option.split)
  then have "wf_prefixes (AList.update p0 (List.insert key ks) ?ps)" for ks
    by (intro wf_prefixes_update) (auto simp: List.insert_def)
  then show ?thesis
    by (simp add: index_name_def Pair Let_def wf_suffixes_update [OF wf])
qed

lemma ni_at_unindex_name:
  "ni_at (unindex_name key sfx name) p s = ni_at sfx p s - (if splitName name = (p, s) then {key} else {})"
proof (cases "splitName name")
  case (Pair p0 s0)
  show ?thesis
  proof (cases "map_of sfx s0")
    case None
    then show ?thesis by (auto simp: unindex_name_def Pair ni_at_def)
  next
    case ps: (Some ps)
    show ?thesis
    proof (cases "map_of ps p0")
      case None
      with ps show ?thesis by (auto simp: unindex_name_def Pair ni_at_def)
    next
      case ks: (Some ks)
      let ?ks = "removeAll key ks"
      let ?ps = "if ?ks = [] then AList.delete p0 ps else AList.update p0 ?ks ps"
      have inner: "(case map_of ?ps p' of None \<Rightarrow> {} | Some ks \<Rightarrow> set ks) =
          ni_at sfx p' s0 - (if p' = p0 then {key} else {})" for p'
        using ks ps by (simp add: ni_at_def gomap_simps flip: set_empty)
      have "ni_at (unindex_name key sfx name) p s =
          (if s = s0 then (case map_of ?ps p of None \<Rightarrow> {} | Some ks \<Rightarrow> set ks) else ni_at sfx p s)"
        using ps ks by (simp add: unindex_name_def Pair Let_def ni_at_update ni_at_delete)
      then show ?thesis by (simp add: inner Pair)
    qed
  qed
qed

lemma wf_unindex_name: "wf_suffixes sfx \<Longrightarrow> wf_suffixes (unindex_name key sfx name)"
proof -
  assume wf: "wf_suffixes sfx"
  obtain p0 s0 where sp: "splitName name = (p0, s0)" by fastforce
  show ?thesis
  proof (cases "map_of sfx s0")
    case None
    then show ?thesis by (simp add: unindex_name_def sp wf)
  next
    case ps: (Some ps)
    note wfp = wf_suffixes_lookup [OF wf ps]
    then have parts: "wf_map ps" "\<forall>ks \<in> ran (map_of ps). ks \<noteq> []"
      by (simp_all add: wf_prefixes_def)
    show ?thesis
    proof (cases "map_of ps p0")
      case None
      then show ?thesis by (simp add: unindex_name_def sp ps wf)
    next
      case (Some ks)
      let ?ps = "if removeAll key ks = [] then AList.delete p0 ps else AList.update p0 (removeAll key ks) ps"
      have "wf_prefixes ?ps" if "?ps \<noteq> []"
        using that wf_prefixes_delete [OF wfp, of p0] wf_prefixes_update [OF parts, of "removeAll key ks" p0]
        by (simp split: if_splits)
      moreover have "unindex_name key sfx name = (if ?ps = [] then AList.delete s0 sfx else AList.update s0 ?ps sfx)"
        by (simp add: unindex_name_def sp ps Some Let_def)
      ultimately show ?thesis
        by (metis wf_suffixes_delete [OF wf] wf_suffixes_update [OF wf])
    qed
  qed
qed

lemma ni_at_index_names:
  "ni_at (foldl (index_name key) sfx names) p s =
     ni_at sfx p s \<union> (if (p, s) \<in> splitName ` set names then {key} else {})"
  by (induction names arbitrary: sfx) (auto simp: ni_at_index_name)

lemma ni_at_unindex_names:
  "ni_at (foldl (unindex_name key) sfx names) p s =
     ni_at sfx p s - (if (p, s) \<in> splitName ` set names then {key} else {})"
  by (induction names arbitrary: sfx) (auto simp: ni_at_unindex_name)

lemma wf_index_names: "wf_suffixes sfx \<Longrightarrow> wf_suffixes (foldl (index_name key) sfx names)"
  by (induction names arbitrary: sfx) (auto intro: wf_index_name)

lemma wf_unindex_names: "wf_suffixes sfx \<Longrightarrow> wf_suffixes (foldl (unindex_name key) sfx names)"
  by (induction names arbitrary: sfx) (auto intro: wf_unindex_name)

subsection \<open>The index satisfies the contract\<close>

lemma ni_Get_Remove: "ni_Get (ni_Remove idx k) k' = (if k' = k then [] else ni_Get idx k')"
  by (simp add: ni_Get_def ni_Remove_def gomap_simps)

lemma ni_Get_Add: "ni_Get (ni_Add idx k ns) k' = (if k' = k then ns else ni_Get idx k')"
  using ni_Get_Remove [of idx k k'] by (simp add: ni_Get_def ni_Add_def Let_def gomap_simps)

lemma ni_inv_Remove:
  assumes "ni_inv idx"
  shows "ni_inv (ni_Remove idx k)"
proof -
  have at: "k' \<in> ni_at (suffixes (ni_Remove idx k)) p s \<longleftrightarrow>
      k' \<in> ni_at (suffixes idx) p s \<and> \<not> (k' = k \<and> (p, s) \<in> splitName ` set (ni_Get idx k))" for p s k'
    by (auto simp: ni_Remove_def ni_at_unindex_names)
  have "wf_map (keys idx)" "wf_suffixes (suffixes idx)"
    and all: "k' \<in> ni_at (suffixes idx) p s \<longleftrightarrow> (p, s) \<in> splitName ` set (ni_Get idx k')" for p s k'
    using assms by (simp_all only: ni_inv_def)
  then have "wf_map (keys (ni_Remove idx k))" "wf_suffixes (suffixes (ni_Remove idx k))"
    by (simp_all add: ni_Remove_def wf_unindex_names wf_map_delete)
  then show ?thesis
    unfolding ni_inv_def at ni_Get_Remove all by simp
qed

lemma ni_inv_Add:
  assumes "ni_inv idx"
  shows "ni_inv (ni_Add idx k ns)"
proof -
  have rem: "ni_inv (ni_Remove idx k)" by (rule ni_inv_Remove [OF assms])
  have at: "k' \<in> ni_at (suffixes (ni_Add idx k ns)) p s \<longleftrightarrow>
      k' \<in> ni_at (suffixes (ni_Remove idx k)) p s \<or> k' = k \<and> (p, s) \<in> splitName ` set ns" for p s k'
    by (auto simp: ni_Add_def Let_def ni_at_index_names)
  have "wf_map (keys (ni_Remove idx k))" "wf_suffixes (suffixes (ni_Remove idx k))"
    and all: "k' \<in> ni_at (suffixes (ni_Remove idx k)) p s \<longleftrightarrow>
      (p, s) \<in> splitName ` set (ni_Get (ni_Remove idx k) k')" for p s k'
    using rem by (simp_all only: ni_inv_def)
  then have "wf_map (keys (ni_Add idx k ns))" "wf_suffixes (suffixes (ni_Add idx k ns))"
    by (simp_all add: ni_Add_def Let_def wf_index_names wf_map_update)
  then show ?thesis
    unfolding ni_inv_def at ni_Get_Add all ni_Get_Remove by simp
qed

lemma ni_Lookup_at:
  assumes "ni_inv idx"
  shows "set (ni_Lookup idx q w) =
    (case splitName q of (p, s) \<Rightarrow>
       if p = ''*'' \<and> w then (\<Union>p'. ni_at (suffixes idx) p' s)
       else ni_at (suffixes idx) p s \<union> ni_at (suffixes idx) ''*'' s)"
proof -
  obtain p s where sp: "splitName q = (p, s)" by fastforce
  show ?thesis
  proof (cases "map_of (suffixes idx) s")
    case None
    then show ?thesis by (simp add: ni_Lookup_def sp ni_at_def)
  next
    case (Some ps)
    then have wf: "wf_map ps"
      using assms wf_suffixes_lookup unfolding ni_inv_def wf_prefixes_def by blast
    have all: "(\<Union>(p, ks) \<in> set ps. set ks) = (\<Union>p'. case map_of ps p' of None \<Rightarrow> {} | Some ks \<Rightarrow> set ks)"
      using wf_map_in_set [OF wf] by (fastforce split: option.splits)
    show ?thesis
      using Some by (auto simp: ni_Lookup_def sp ni_at_def set_collect_all all Let_def split: option.splits)
  qed
qed

lemma splitName_image:
  "(p, s) \<in> splitName ` A \<longleftrightarrow> (\<exists>n \<in> A. fst (splitName n) = p \<and> snd (splitName n) = s)"
  unfolding image_iff prod_eq_iff by auto

interpretation ni: name_index_spec NewNameIndex ni_Add ni_Remove ni_Get ni_Lookup ni_inv
proof unfold_locales
  show "ni_inv NewNameIndex"
    by (simp add: ni_inv_def NewNameIndex_def wf_suffixes_def ni_at_def ni_Get_def)
  show "ni_Get NewNameIndex k = []" for k
    by (simp add: NewNameIndex_def ni_Get_def)
  fix i :: "'a name_index" and k k' ns
  show "ni_Get (ni_Add i k ns) k' = (if k' = k then ns else ni_Get i k')" by (rule ni_Get_Add)
  show "ni_Get (ni_Remove i k) k' = (if k' = k then [] else ni_Get i k')" by (rule ni_Get_Remove)
  assume inv: "ni_inv i"
  show "ni_inv (ni_Add i k ns)" by (rule ni_inv_Add [OF inv])
  show "ni_inv (ni_Remove i k)" by (rule ni_inv_Remove [OF inv])
  fix q w
  obtain p s where sp: "splitName q = (p, s)" by fastforce
  have at: "k \<in> ni_at (suffixes i) p' s' \<longleftrightarrow>
      (\<exists>n \<in> set (ni_Get i k). fst (splitName n) = p' \<and> snd (splitName n) = s')" for p' s'
    using inv by (simp only: ni_inv_def splitName_image)
  show "k \<in> set (ni_Lookup i q w) \<longleftrightarrow> (\<exists>n \<in> set (ni_Get i k). name_matches w q n)"
    unfolding ni_Lookup_at [OF inv] sp name_matches_def
    by (cases "p = ''*'' \<and> w") (auto simp: at)
qed

lemma set_ni_Names:
  assumes "ni_inv idx"
  shows "set (ni_Names idx) = (\<Union>k. set (ni_Get idx k))"
proof -
  have ins: "set (foldl (\<lambda>m n. List.insert n m) acc ns) = set acc \<union> set ns" for acc and ns :: "string list"
    by (induction ns arbitrary: acc) auto
  have "set (foldl (\<lambda>m (k, names). foldl (\<lambda>m n. List.insert n m) m names) acc ks) =
      set acc \<union> (\<Union>(k, ns) \<in> set ks. set ns)" for acc and ks :: "('a \<times> string list) list"
    by (induction ks arbitrary: acc) (auto simp: ins)
  then have "set (ni_Names idx) = (\<Union>(k, ns) \<in> set (keys idx). set ns)" by (simp add: ni_Names_def)
  also have "\<dots> = (\<Union>k. set (ni_Get idx k))"
  proof -
    have "wf_map (keys idx)" using assms by (simp only: ni_inv_def)
    note mem = wf_map_in_set [OF this]
    have "x \<in> (\<Union>(k, ns) \<in> set (keys idx). set ns) \<longleftrightarrow> (\<exists>k ns. map_of (keys idx) k = Some ns \<and> x \<in> set ns)" for x
      by (force simp: mem)
    moreover have "x \<in> set (ni_Get idx k) \<longleftrightarrow> (\<exists>ns. map_of (keys idx) k = Some ns \<and> x \<in> set ns)" for x k
      by (cases "map_of (keys idx) k") (auto simp: ni_Get_def)
    ultimately show ?thesis unfolding set_eq_iff UN_iff by simp
  qed
  finally show ?thesis .
qed

subsection \<open>Properties\<close>

text \<open>A lookup returns exactly the keys that have a name matching the query: the same suffix and
  the same first label, or a stored wildcard, or, when allowed, a wildcard query; for every
  index reachable by additions and removals.\<close>

theorem ni_Lookup_spec:
  assumes "ni_inv idx"
  shows "k \<in> set (ni_Lookup idx q w) \<longleftrightarrow> (\<exists>n \<in> set (ni_Get idx k). name_matches w q n)"
  by (rule ni.lookup_iff [OF assms])

definition ex_index :: "nat name_index" where
  "ex_index = ni_Add (ni_Add NewNameIndex 1 [''*.example.com'']) 2 [''www.example.com'', ''b.example.org'']"

lemma ex_index_inv: "ni_inv ex_index"
  by (simp add: ex_index_def ni.invar_add ni.invar_empty)

theorem ni_Lookup_spec_witness:
  "ni_inv ex_index \<and> 1 \<in> set (ni_Lookup ex_index ''WWW.example.com.'' False) \<and>
   (1 \<in> set (ni_Lookup ex_index ''WWW.example.com.'' False) \<longleftrightarrow>
     (\<exists>n \<in> set (ni_Get ex_index 1). name_matches False ''WWW.example.com.'' n))"
proof -
  have "1 \<in> set (ni_Lookup ex_index ''WWW.example.com.'' False)" by code_simp
  then show ?thesis using ex_index_inv ni_Lookup_spec [OF ex_index_inv] by blast
qed

text \<open>The index keeps no residue: adding replaces all the names of the key, removing forgets
  them, no other key changes, and an index in which every key was removed is empty again.\<close>

theorem ni_Remove_no_residue:
  assumes "ni_inv idx"
  shows "ni_inv (ni_Remove idx k) \<and> ni_Get (ni_Remove idx k) k = [] \<and>
    (\<forall>k'. k' \<noteq> k \<longrightarrow> ni_Get (ni_Remove idx k) k' = ni_Get idx k') \<and>
    (keys (ni_Remove idx k) = [] \<longrightarrow> suffixes (ni_Remove idx k) = [])"
proof -
  have inv: "ni_inv (ni_Remove idx k)" by (rule ni_inv_Remove [OF assms])
  have "suffixes (ni_Remove idx k) = []" if none: "keys (ni_Remove idx k) = []"
  proof (rule ccontr)
    assume "suffixes (ni_Remove idx k) \<noteq> []"
    then obtain s ps where ps: "map_of (suffixes (ni_Remove idx k)) s = Some ps"
      by (metis list.set_intros(1) list.exhaust surj_pair weak_map_of_SomeI)
    then have wf: "wf_prefixes ps" using inv wf_suffixes_lookup by (auto simp: ni_inv_def)
    then obtain p ks where ks: "map_of ps p = Some ks"
      unfolding wf_prefixes_def by (metis list.set_intros(1) list.exhaust surj_pair weak_map_of_SomeI)
    then have "ks \<noteq> []" using wf ranI [of "map_of ps" p ks] by (simp add: wf_prefixes_def)
    then obtain k' where "k' \<in> ni_at (suffixes (ni_Remove idx k)) p s"
      using ps ks by (cases ks) (auto simp: ni_at_def)
    then have "ni_Get (ni_Remove idx k) k' \<noteq> []" using inv by (auto simp: ni_inv_def)
    then show False using none by (simp add: ni_Get_def)
  qed
  then show ?thesis using inv by (simp add: ni_Get_Remove)
qed

theorem ni_Remove_no_residue_witness:
  "suffixes (ni_Remove (ni_Add NewNameIndex (1::nat) [''a.example.com'']) 1) = []"
proof -
  have inv: "ni_inv (ni_Add NewNameIndex (1::nat) [''a.example.com''])"
    by (simp add: ni.invar_add ni.invar_empty)
  have "keys (ni_Remove (ni_Add NewNameIndex (1::nat) [''a.example.com'']) 1) = []" by code_simp
  then show ?thesis using ni_Remove_no_residue [OF inv, of 1] by blast
qed

end
