(* ===== verification/Cert_Matcher.thy ===== *)
theory Cert_Matcher
  imports Name_Index
begin

text \<open>
  \<^verbatim>\<open>internal/certificate/matcher.go\<close>: keeps, over a stream of updates, the set of route host names that
  no certificate covers. The set is maintained incrementally, by re-checking only the names an
  update adds or removes; the theorems show that it always equals the set computed from scratch.
  The proofs use the name index only through its contract (the interpretation \<open>ni\<close>).
\<close>

record 'k matcher =
  certificates :: "'k name_index"
  routes :: "'k name_index"
  missing :: "string list"

definition NewMatcher :: "'k matcher" where
  "NewMatcher = \<lparr>certificates = NewNameIndex, routes = NewNameIndex, missing = []\<rparr>"

definition MissingNames :: "'k matcher \<Rightarrow> string list" where
  "MissingNames m = missing m"

text \<open>The inner body of \<^verbatim>\<open>check\<close>, for one name of a matching route.\<close>

definition check_route_name :: "'k matcher \<Rightarrow> string \<Rightarrow> 'k matcher" where
  "check_route_name m n =
     (if ni_Lookup (certificates m) n False = []
      then m\<lparr>missing := List.insert n (missing m)\<rparr>
      else m\<lparr>missing := removeAll n (missing m)\<rparr>)"

definition check :: "'k matcher \<Rightarrow> string \<Rightarrow> 'k matcher" where
  "check m name =
     (let m1 = m\<lparr>missing := removeAll name (missing m)\<rparr> in
      foldl (\<lambda>m route. foldl check_route_name m (ni_Get (routes m) route)) m1 (ni_Lookup (routes m1) name True))"

definition normalizeNames :: "string list \<Rightarrow> string list" where
  "normalizeNames names = map (\<lambda>n. ToLower (TrimSuffix n ''.'')) names"

text \<open>\<^verbatim>\<open>set.From(prev).Difference(set.From(next))\<close>.\<close>

definition Difference :: "string list \<Rightarrow> string list \<Rightarrow> string list" where
  "Difference prev nxt = filter (\<lambda>n. n \<notin> set nxt) (remdups prev)"

definition update_certificates :: "'k matcher \<Rightarrow> 'k \<Rightarrow> string list \<Rightarrow> 'k matcher" where
  "update_certificates m key names =
     (let prev = ni_Get (certificates m) key;
          m1 = m\<lparr>certificates := (if names = [] then ni_Remove (certificates m) key
                                  else ni_Add (certificates m) key names)\<rparr>;
          m2 = foldl check m1 (Difference prev names)
      in foldl check m2 (Difference names prev))"

definition update_routes :: "'k matcher \<Rightarrow> 'k \<Rightarrow> string list \<Rightarrow> 'k matcher" where
  "update_routes m key names =
     (let prev = ni_Get (routes m) key;
          m1 = m\<lparr>routes := (if names = [] then ni_Remove (routes m) key
                            else ni_Add (routes m) key names)\<rparr>;
          m2 = foldl check m1 (Difference prev names)
      in foldl check m2 (Difference names prev))"

definition Update :: "'k matcher \<Rightarrow> 'k \<Rightarrow> string list \<Rightarrow> string list \<Rightarrow> 'k matcher" where
  "Update m key certificateNames routeNames =
     (let certificateNames' = normalizeNames certificateNames;
          routeNames' = normalizeNames routeNames
      in update_routes (update_certificates m key certificateNames') key routeNames')"

subsection \<open>Specification\<close>

text \<open>The missing names computed from scratch: route names that no certificate name matches.\<close>

definition uncovered :: "'k name_index \<Rightarrow> 'k name_index \<Rightarrow> string set" where
  "uncovered certs rts =
     {n \<in> set (ni_Names rts). \<forall>c \<in> set (ni_Names certs). \<not> name_matches False n c}"

definition matcher_inv :: "'k matcher \<Rightarrow> bool" where
  "matcher_inv m \<longleftrightarrow> ni_inv (certificates m) \<and> ni_inv (routes m) \<and>
     set (missing m) = uncovered (certificates m) (routes m)"

text \<open>The names that \<open>check\<close> evaluates for a query.\<close>

definition checked_names :: "'k name_index \<Rightarrow> string \<Rightarrow> string set" where
  "checked_names rts name = (\<Union>k \<in> set (ni_Lookup rts name True). set (ni_Get rts k))"

lemma uncovered_iff:
  assumes "ni_inv certs" "ni_inv rts"
  shows "n \<in> uncovered certs rts \<longleftrightarrow> n \<in> set (ni_Names rts) \<and> ni_Lookup certs n False = []"
  unfolding uncovered_def set_ni_Names [OF assms(1)]
  using ni.lookup_empty_iff [OF assms(1), of n False] by (simp add: ni.all_names_def)

lemma checked_names_subset: "ni_inv rts \<Longrightarrow> checked_names rts name \<subseteq> set (ni_Names rts)"
  by (auto simp: checked_names_def set_ni_Names)

lemma checked_names_I:
  assumes "ni_inv rts" "n \<in> set (ni_Names rts)" "name_matches True q n"
  shows "n \<in> checked_names rts q"
proof -
  obtain k where k: "n \<in> set (ni_Get rts k)" using assms by (auto simp: set_ni_Names)
  then have "k \<in> set (ni_Lookup rts q True)" using assms by (auto simp: ni.lookup_iff)
  with k show ?thesis by (auto simp: checked_names_def)
qed

lemma name_matches_refl: "name_matches w n n"
  by (auto simp: name_matches_def)

text \<open>A certificate name that matches a route name finds it again as a wildcard query.\<close>

lemma name_matches_converse: "name_matches False n c \<Longrightarrow> name_matches True c n"
  by (auto simp: name_matches_def)

subsection \<open>What \<open>check\<close> does to the missing names\<close>

lemma foldl_check_route_name:
  "certificates (foldl check_route_name m ns) = certificates m \<and>
   routes (foldl check_route_name m ns) = routes m \<and>
   set (missing (foldl check_route_name m ns)) =
     {n. if n \<in> set ns then ni_Lookup (certificates m) n False = [] else n \<in> set (missing m)}"
  by (induction ns arbitrary: m) (auto simp: check_route_name_def)

lemma foldl_check_routes:
  "certificates (foldl (\<lambda>m route. foldl check_route_name m (ni_Get (routes m) route)) m ks) = certificates m \<and>
   routes (foldl (\<lambda>m route. foldl check_route_name m (ni_Get (routes m) route)) m ks) = routes m \<and>
   set (missing (foldl (\<lambda>m route. foldl check_route_name m (ni_Get (routes m) route)) m ks)) =
     {n. if n \<in> (\<Union>k \<in> set ks. set (ni_Get (routes m) k))
         then ni_Lookup (certificates m) n False = [] else n \<in> set (missing m)}"
  by (induction ks arbitrary: m) (auto simp: foldl_check_route_name)

lemma check_frame [simp]:
  "certificates (check m name) = certificates m" "routes (check m name) = routes m"
  by (simp_all add: check_def Let_def foldl_check_routes)

lemma check_missing:
  assumes "ni_inv (certificates m)" "ni_inv (routes m)"
  shows "n \<in> set (missing (check m c)) \<longleftrightarrow>
    (if n = c \<or> n \<in> checked_names (routes m) c
     then n \<in> uncovered (certificates m) (routes m) else n \<in> set (missing m))"
proof -
  have "n \<in> set (missing (check m c)) \<longleftrightarrow>
      (if n \<in> checked_names (routes m) c then ni_Lookup (certificates m) n False = []
       else n \<in> set (missing m) \<and> n \<noteq> c)"
    by (auto simp: check_def Let_def foldl_check_routes checked_names_def)
  moreover have "c \<in> set (ni_Names (routes m)) \<Longrightarrow> c \<in> checked_names (routes m) c"
    by (rule checked_names_I [OF assms(2) _ name_matches_refl])
  ultimately show ?thesis
    using checked_names_subset [OF assms(2), of c] uncovered_iff [OF assms, of n] by auto
qed

lemma foldl_check:
  assumes "ni_inv (certificates m)" "ni_inv (routes m)"
  shows "certificates (foldl check m cs) = certificates m \<and> routes (foldl check m cs) = routes m \<and>
    (n \<in> set (missing (foldl check m cs)) \<longleftrightarrow>
      (if \<exists>c \<in> set cs. n = c \<or> n \<in> checked_names (routes m) c
       then n \<in> uncovered (certificates m) (routes m) else n \<in> set (missing m)))"
  using assms
proof (induction cs arbitrary: m)
  case (Cons c cs)
  show ?case
    using Cons.IH [of "check m c"] Cons.prems check_missing [OF Cons.prems, of n c] by auto
qed simp

text \<open>Checking every name for which the answer may be stale restores the invariant.\<close>

lemma recheck:
  assumes "ni_inv (certificates m)" "ni_inv (routes m)"
    and "\<And>n. (n \<in> set (missing m)) \<noteq> (n \<in> uncovered (certificates m) (routes m)) \<Longrightarrow>
      \<exists>c \<in> set ds \<union> set ds'. n = c \<or> n \<in> checked_names (routes m) c"
  shows "matcher_inv (foldl check (foldl check m ds) ds')"
    and "certificates (foldl check (foldl check m ds) ds') = certificates m"
    and "routes (foldl check (foldl check m ds) ds') = routes m"
proof -
  have "n \<in> set (missing (foldl check m (ds @ ds'))) \<longleftrightarrow> n \<in> uncovered (certificates m) (routes m)" for n
    using foldl_check [OF assms(1,2), where cs = "ds @ ds'" and n = n] assms(3) [of n] by auto
  then show "matcher_inv (foldl check (foldl check m ds) ds')"
    using assms(1,2) foldl_check [OF assms(1,2), where cs = "ds @ ds'"] by (auto simp: matcher_inv_def)
qed (use foldl_check [OF assms(1,2), where cs = "ds @ ds'"] in auto)

lemma set_Difference [simp]: "set (Difference prev nxt) = set prev - set nxt"
  by (auto simp: Difference_def)

lemma update_certificates_inv:
  assumes "matcher_inv m"
  shows "matcher_inv (update_certificates m key names)"
    and "ni_Get (certificates (update_certificates m key names)) k =
      (if k = key then names else ni_Get (certificates m) k)"
    and "routes (update_certificates m key names) = routes m"
proof -
  define certs where "certs = (if names = [] then ni_Remove (certificates m) key else ni_Add (certificates m) key names)"
  let ?m = "m\<lparr>certificates := certs\<rparr>" and ?prev = "ni_Get (certificates m) key"
  have inv: "ni_inv (certificates m)" "ni_inv (routes m)"
    and mis: "set (missing m) = uncovered (certificates m) (routes m)"
    using assms by (simp_all add: matcher_inv_def)
  have inv': "ni_inv certs" unfolding certs_def by (rule ni.invar_replace [OF inv(1)])
  have stale: "\<exists>c \<in> set (Difference ?prev names) \<union> set (Difference names ?prev). n = c \<or> n \<in> checked_names (routes m) c"
    if "(n \<in> set (missing m)) \<noteq> (n \<in> uncovered certs (routes m))" for n
  proof -
    have n: "n \<in> set (ni_Names (routes m))"
      and change: "(ni_Lookup (certificates m) n False = []) \<noteq> (ni_Lookup certs n False = [])"
      using that unfolding mis uncovered_iff [OF inv] uncovered_iff [OF inv' inv(2)] by auto
    obtain c where "c \<in> (set ?prev - set names) \<union> (set names - set ?prev)" "name_matches False n c"
      using ni.replace_answer_change [OF inv(1) certs_def change] by blast
    then show ?thesis
      using checked_names_I [OF inv(2) n name_matches_converse] by auto
  qed
  have def: "update_certificates m key names = foldl check (foldl check ?m (Difference ?prev names)) (Difference names ?prev)"
    by (simp add: update_certificates_def Let_def certs_def)
  note r = recheck [where m = ?m and ds = "Difference ?prev names" and ds' = "Difference names ?prev"]
  show "matcher_inv (update_certificates m key names)" unfolding def by (rule r) (use inv inv' stale in auto)
  show "ni_Get (certificates (update_certificates m key names)) k = (if k = key then names else ni_Get (certificates m) k)"
    unfolding def by (subst r(2)) (use inv inv' stale in \<open>auto simp: certs_def ni.get_add ni.get_remove\<close>)
  show "routes (update_certificates m key names) = routes m"
    unfolding def by (subst r(3)) (use inv inv' stale in auto)
qed

lemma update_routes_inv:
  assumes "matcher_inv m"
  shows "matcher_inv (update_routes m key names)"
    and "ni_Get (routes (update_routes m key names)) k = (if k = key then names else ni_Get (routes m) k)"
    and "certificates (update_routes m key names) = certificates m"
proof -
  define rts where "rts = (if names = [] then ni_Remove (routes m) key else ni_Add (routes m) key names)"
  let ?m = "m\<lparr>routes := rts\<rparr>" and ?prev = "ni_Get (routes m) key"
  have inv: "ni_inv (certificates m)" "ni_inv (routes m)"
    and mis: "set (missing m) = uncovered (certificates m) (routes m)"
    using assms by (simp_all add: matcher_inv_def)
  have inv': "ni_inv rts" unfolding rts_def by (rule ni.invar_replace [OF inv(2)])
  have get: "ni_Get rts k = (if k = key then names else ni_Get (routes m) k)" for k
    by (auto simp: rts_def ni.get_add ni.get_remove)
  have stale: "\<exists>c \<in> set (Difference ?prev names) \<union> set (Difference names ?prev). n = c \<or> n \<in> checked_names rts c"
    if "(n \<in> set (missing m)) \<noteq> (n \<in> uncovered (certificates m) rts)" for n
  proof -
    have "(n \<in> set (ni_Names (routes m))) \<noteq> (n \<in> set (ni_Names rts))"
      using that unfolding mis uncovered_iff [OF inv] uncovered_iff [OF inv(1) inv'] by auto
    then have "n \<in> (set ?prev - set names) \<union> (set names - set ?prev)"
      unfolding set_ni_Names [OF inv(2)] set_ni_Names [OF inv'] get by (auto split: if_splits)
    then show ?thesis by auto
  qed
  have def: "update_routes m key names = foldl check (foldl check ?m (Difference ?prev names)) (Difference names ?prev)"
    by (simp add: update_routes_def Let_def rts_def)
  note r = recheck [where m = ?m and ds = "Difference ?prev names" and ds' = "Difference names ?prev"]
  show "matcher_inv (update_routes m key names)" unfolding def by (rule r) (use inv inv' stale in auto)
  show "ni_Get (routes (update_routes m key names)) k = (if k = key then names else ni_Get (routes m) k)"
    unfolding def by (subst r(3)) (use inv inv' stale in \<open>auto simp: get\<close>)
  show "certificates (update_routes m key names) = certificates m"
    unfolding def by (subst r(2)) (use inv inv' stale in auto)
qed

lemma Update_inv:
  assumes "matcher_inv m"
  shows "matcher_inv (Update m key cns rns)"
    and "ni_Get (certificates (Update m key cns rns)) k =
      (if k = key then normalizeNames cns else ni_Get (certificates m) k)"
    and "ni_Get (routes (Update m key cns rns)) k =
      (if k = key then normalizeNames rns else ni_Get (routes m) k)"
  using update_certificates_inv [OF assms, of key "normalizeNames cns"]
    update_routes_inv [OF update_certificates_inv(1) [OF assms], of key "normalizeNames cns" key "normalizeNames rns"]
  by (simp_all add: Update_def Let_def)

lemma NewMatcher_inv: "matcher_inv NewMatcher"
  by (simp add: matcher_inv_def NewMatcher_def ni.invar_empty uncovered_def set_ni_Names ni.get_empty)

subsection \<open>Properties\<close>

text \<open>One update replaces the certificate and route names of its key, and the incrementally
  maintained missing names remain exactly the route names that no certificate name matches.\<close>

theorem Update_missing_exact:
  assumes "matcher_inv m"
  shows "matcher_inv (Update m key cns rns) \<and>
    set (MissingNames (Update m key cns rns)) =
      {n \<in> (\<Union>k. set (if k = key then normalizeNames rns else ni_Get (routes m) k)).
         \<forall>c \<in> (\<Union>k. set (if k = key then normalizeNames cns else ni_Get (certificates m) k)).
           \<not> name_matches False n c}"
proof -
  note u = Update_inv [OF assms, of key cns rns]
  have "ni_inv (certificates (Update m key cns rns))" "ni_inv (routes (Update m key cns rns))"
    using u(1) by (simp_all add: matcher_inv_def)
  then show ?thesis
    using u(1) by (simp add: matcher_inv_def MissingNames_def uncovered_def set_ni_Names u(2,3))
qed

definition ex_matcher :: "nat matcher" where
  "ex_matcher = Update (Update NewMatcher 1 [''*.example.com''] []) 2 [] [''A.example.com'', ''b.example.org'']"

lemma ex_matcher_inv: "matcher_inv ex_matcher"
  unfolding ex_matcher_def by (intro Update_inv(1) NewMatcher_inv)

theorem Update_missing_exact_witness:
  "MissingNames ex_matcher = [''b.example.org''] \<and>
   matcher_inv (Update ex_matcher 1 [''b.example.org.''] []) \<and>
   MissingNames (Update ex_matcher 1 [''b.example.org.''] []) = [''a.example.com'']"
proof -
  have "MissingNames ex_matcher = [''b.example.org'']" by code_simp
  moreover have "MissingNames (Update ex_matcher 1 [''b.example.org.''] []) = [''a.example.com'']" by code_simp
  ultimately show ?thesis
    using Update_missing_exact [OF ex_matcher_inv, of 1 "[''b.example.org.'']" "[]"] by blast
qed

text \<open>The abstract matcher: the certificate and route names of each key, as its last update gave them.\<close>

definition spec_update ::
  "('k \<Rightarrow> string list \<times> string list) \<Rightarrow> 'k \<times> string list \<times> string list \<Rightarrow> ('k \<Rightarrow> string list \<times> string list)" where
  "spec_update f u = (case u of (key, cns, rns) \<Rightarrow> f(key := (normalizeNames cns, normalizeNames rns)))"

definition matcher_abs :: "'k matcher \<Rightarrow> 'k \<Rightarrow> string list \<times> string list" where
  "matcher_abs m k = (ni_Get (certificates m) k, ni_Get (routes m) k)"

definition run_updates :: "'k matcher \<Rightarrow> ('k \<times> string list \<times> string list) list \<Rightarrow> 'k matcher" where
  "run_updates m us = foldl (\<lambda>m (key, cns, rns). Update m key cns rns) m us"

lemma matcher_abs_Update:
  "matcher_inv m \<Longrightarrow> matcher_abs (Update m key cns rns) = spec_update (matcher_abs m) (key, cns, rns)"
  by (auto simp: matcher_abs_def spec_update_def Update_inv)

lemma run_updates_sim:
  "matcher_inv m \<Longrightarrow> matcher_inv (run_updates m us) \<and>
     matcher_abs (run_updates m us) = foldl spec_update (matcher_abs m) us"
  unfolding run_updates_def
  by (induction us arbitrary: m) (auto simp: matcher_abs_Update Update_inv(1))

text \<open>After any sequence of updates, from a new matcher, the missing names are those computed
  from scratch from the last update of each key; so their set depends neither on the order of
  updates of different keys nor on superseded updates.\<close>

theorem matcher_history:
  fixes us :: "('k \<times> string list \<times> string list) list"
  shows "n \<in> set (MissingNames (run_updates NewMatcher us)) \<longleftrightarrow>
     (\<exists>k. n \<in> set (snd (foldl spec_update (\<lambda>_. ([], [])) us k))) \<and>
     (\<nexists>k c. c \<in> set (fst (foldl spec_update (\<lambda>_. ([], [])) us k)) \<and> name_matches False n c)"
proof -
  let ?m = "run_updates NewMatcher us"
  have "matcher_abs (NewMatcher :: 'k matcher) = (\<lambda>_. ([], []))"
    by (auto simp: matcher_abs_def NewMatcher_def ni.get_empty)
  then have inv: "matcher_inv ?m" and tbl: "foldl spec_update (\<lambda>_. ([], [])) us = matcher_abs ?m"
    using run_updates_sim [OF NewMatcher_inv, of us] by simp_all
  then have "ni_inv (certificates ?m)" "ni_inv (routes ?m)"
    and "set (missing ?m) = uncovered (certificates ?m) (routes ?m)"
    by (simp_all add: matcher_inv_def)
  then show ?thesis
    unfolding tbl MissingNames_def matcher_abs_def by (auto simp: uncovered_def set_ni_Names)
qed

end
