(* ===== verification/Go_Json.thy ===== *)
theory Go_Json
  imports Go_Prelude
begin

text \<open>
  The part of Go's \<^verbatim>\<open>encoding/json\<close> that \<^verbatim>\<open>pomerium/route_list.go\<close> uses: \<^verbatim>\<open>json.Marshal\<close> of a struct of
  strings and \<^verbatim>\<open>json.Unmarshal\<close> into it, on byte strings with their UTF-8 structure. The round trip
  lemma \<open>unquote_escape\<close> is what makes route ids usable as map keys.
\<close>

type_synonym byte_string = string

abbreviation byte :: "char \<Rightarrow> nat" where
  "byte c \<equiv> of_char c"

definition bytes :: "nat list \<Rightarrow> string" where
  "bytes ns = map char_of ns"

definition quote_char :: char where "quote_char = CHR 0x22"
definition backslash :: char where "backslash = CHR 0x5C"

subsection \<open>UTF-8\<close>

definition is_cont :: "nat \<Rightarrow> bool" where
  "is_cont b \<longleftrightarrow> 128 \<le> b \<and> b \<le> 191"

text \<open>The number of bytes of the well-formed UTF-8 sequence at the front of a string, if there is one
  (\<^verbatim>\<open>utf8.DecodeRune\<close> returns a size of 1 and the error rune otherwise).\<close>

fun rune_tail :: "nat \<Rightarrow> nat list \<Rightarrow> nat option" where
  "rune_tail b0 (b1 # b2 # b3 # _) =
     (if 194 \<le> b0 \<and> b0 \<le> 223 \<and> is_cont b1 then Some 2
      else if 224 \<le> b0 \<and> b0 \<le> 239 \<and> is_cont b1 \<and> is_cont b2 \<and> (b0 = 224 \<longrightarrow> 160 \<le> b1) \<and> (b0 = 237 \<longrightarrow> b1 \<le> 159)
      then Some 3
      else if 240 \<le> b0 \<and> b0 \<le> 244 \<and> is_cont b1 \<and> is_cont b2 \<and> is_cont b3 \<and> (b0 = 240 \<longrightarrow> 144 \<le> b1) \<and> (b0 = 244 \<longrightarrow> b1 \<le> 143)
      then Some 4 else None)"
| "rune_tail b0 [b1, b2] =
     (if 194 \<le> b0 \<and> b0 \<le> 223 \<and> is_cont b1 then Some 2
      else if 224 \<le> b0 \<and> b0 \<le> 239 \<and> is_cont b1 \<and> is_cont b2 \<and> (b0 = 224 \<longrightarrow> 160 \<le> b1) \<and> (b0 = 237 \<longrightarrow> b1 \<le> 159)
      then Some 3 else None)"
| "rune_tail b0 [b1] = (if 194 \<le> b0 \<and> b0 \<le> 223 \<and> is_cont b1 then Some 2 else None)"
| "rune_tail b0 [] = None"

definition rune_len :: "string \<Rightarrow> nat option" where
  "rune_len s =
     (case s of [] \<Rightarrow> None
      | c # cs \<Rightarrow> if byte c < 128 then Some 1 else rune_tail (byte c) (map byte cs))"

lemma rune_tail_bounds: "rune_tail b bs = Some n \<Longrightarrow> 2 \<le> n \<and> n \<le> Suc (length bs)"
  by (induction b bs rule: rune_tail.induct) (auto split: if_splits)

lemma rune_len_bounds: "rune_len s = Some n \<Longrightarrow> 0 < n \<and> n \<le> length s"
  by (fastforce simp: rune_len_def split: list.splits if_splits dest: rune_tail_bounds)

function valid_utf8 :: "string \<Rightarrow> bool" where
  "valid_utf8 s =
     (if s = [] then True
      else case rune_len s of None \<Rightarrow> False | Some n \<Rightarrow> valid_utf8 (drop n s))"
  by pat_completeness auto
termination
  by (relation "measure length") (auto dest: rune_len_bounds)

declare valid_utf8.simps [simp del]

text \<open>The UTF-8 encoding of a code point below \<open>0x110000\<close>.\<close>

definition encode_rune :: "nat \<Rightarrow> string" where
  "encode_rune r =
     (if r < 128 then bytes [r]
      else if r < 2048 then bytes [192 + r div 64, 128 + r mod 64]
      else if r < 65536 then bytes [224 + r div 4096, 128 + (r div 64) mod 64, 128 + r mod 64]
      else bytes [240 + r div 262144, 128 + (r div 4096) mod 64, 128 + (r div 64) mod 64, 128 + r mod 64])"

definition rune_error :: string where
  "rune_error = encode_rune 65533"

subsection \<open>Encoding strings\<close>

definition hex_digit :: "nat \<Rightarrow> char" where
  "hex_digit n = (if n < 10 then char_of (48 + n) else char_of (87 + n))"

text \<open>A byte below 128 inside a JSON string; Go also escapes the HTML characters.\<close>

definition escape_ascii :: "char \<Rightarrow> string" where
  "escape_ascii c =
     (let b = byte c in
      if b = 34 \<or> b = 92 then [backslash, c]
      else if b = 8 then [backslash, CHR ''b'']
      else if b = 12 then [backslash, CHR ''f'']
      else if b = 10 then [backslash, CHR ''n'']
      else if b = 13 then [backslash, CHR ''r'']
      else if b = 9 then [backslash, CHR ''t'']
      else if b < 32 \<or> b = 60 \<or> b = 62 \<or> b = 38
      then [backslash, CHR ''u'', CHR ''0'', CHR ''0'', hex_digit (b div 16), hex_digit (b mod 16)]
      else [c])"

definition escape_multi :: "string \<Rightarrow> string" where
  "escape_multi seq =
     (if seq = bytes [226, 128, 168] then backslash # ''u2028''
      else if seq = bytes [226, 128, 169] then backslash # ''u2029''
      else seq)"

function escape :: "string \<Rightarrow> string" where
  "escape s =
     (case s of [] \<Rightarrow> []
      | c # cs \<Rightarrow>
          if byte c < 128 then escape_ascii c @ escape cs
          else (case rune_len s of
                  None \<Rightarrow> backslash # ''ufffd'' @ escape cs
                | Some n \<Rightarrow> escape_multi (take n s) @ escape (drop n s)))"
  by pat_completeness auto
termination
  by (relation "measure length") (auto dest: rune_len_bounds)

declare escape.simps [simp del]

definition quote :: "string \<Rightarrow> string" where
  "quote s = quote_char # escape s @ [quote_char]"

subsection \<open>Decoding strings\<close>

definition hex_value :: "char \<Rightarrow> nat option" where
  "hex_value c =
     (let b = byte c in
      if 48 \<le> b \<and> b \<le> 57 then Some (b - 48)
      else if 97 \<le> b \<and> b \<le> 102 then Some (b - 87)
      else if 65 \<le> b \<and> b \<le> 70 then Some (b - 55)
      else None)"

fun hex4 :: "string \<Rightarrow> (nat \<times> string) option" where
  "hex4 (a # b # c # d # rest) =
     (case (hex_value a, hex_value b, hex_value c, hex_value d) of
        (Some w, Some x, Some y, Some z) \<Rightarrow> Some (4096 * w + 256 * x + 16 * y + z, rest)
      | _ \<Rightarrow> None)"
| "hex4 _ = None"

text \<open>The code unit after a \<^verbatim>\<open>\u\<close> escape: a surrogate is combined with a following low surrogate escape,
  and replaced by the error rune when there is none (\<^verbatim>\<open>utf16.DecodeRune\<close>).\<close>

definition surrogate_pair :: "nat \<Rightarrow> string \<Rightarrow> (nat \<times> string) option" where
  "surrogate_pair r s =
     (case s of
        b # u # rest \<Rightarrow>
          if b = backslash \<and> u = CHR ''u'' then
            (case hex4 rest of
               None \<Rightarrow> None
             | Some (r2, rest') \<Rightarrow>
                 if 55296 \<le> r \<and> r < 56320 \<and> 56320 \<le> r2 \<and> r2 < 57344
                 then Some (65536 + (r - 55296) * 1024 + (r2 - 56320), rest') else None)
          else None
      | _ \<Rightarrow> None)"

definition unescape_unit :: "nat \<Rightarrow> string \<Rightarrow> string \<times> string" where
  "unescape_unit r s =
     (if 55296 \<le> r \<and> r < 57344
      then (case surrogate_pair r s of Some (r', rest) \<Rightarrow> (encode_rune r', rest) | None \<Rightarrow> (rune_error, s))
      else (encode_rune r, s))"

definition simple_escape :: "char \<Rightarrow> char option" where
  "simple_escape e =
     (if e = quote_char \<or> e = backslash \<or> e = CHR ''/'' then Some e
      else if e = CHR ''b'' then Some (CHR 0x08)
      else if e = CHR ''f'' then Some (CHR 0x0C)
      else if e = CHR ''n'' then Some (CHR 0x0A)
      else if e = CHR ''r'' then Some (CHR 0x0D)
      else if e = CHR ''t'' then Some (CHR 0x09)
      else None)"

definition prepend :: "string \<Rightarrow> (string \<times> string) option \<Rightarrow> (string \<times> string) option" where
  "prepend p r = map_option (\<lambda>(s, rest). (p @ s, rest)) r"

lemma hex4_length: "hex4 s = Some (r, rest) \<Longrightarrow> length rest < length s"
  by (induction s rule: hex4.induct) (auto split: option.splits)

lemma unescape_unit_length: "unescape_unit r s = (p, rest) \<Longrightarrow> length rest \<le> length s"
  by (auto simp: unescape_unit_def surrogate_pair_def split: if_splits option.splits list.splits
      dest!: hex4_length)

lemma hex4_unit_length: "hex4 s = Some (r, rest) \<Longrightarrow> length (snd (unescape_unit r rest)) < length s"
  using hex4_length [of s r rest] unescape_unit_length [of r rest] by (metis le_less_trans prod.collapse)

text \<open>The rest of a string literal after its opening quote, decoded.\<close>

function unquote :: "string \<Rightarrow> (string \<times> string) option" where
  "unquote s =
     (case s of [] \<Rightarrow> None
      | c # cs \<Rightarrow>
          if c = quote_char then Some ([], cs)
          else if c = backslash then
            (case cs of [] \<Rightarrow> None
             | e # rest \<Rightarrow>
                 (case simple_escape e of
                    Some d \<Rightarrow> prepend [d] (unquote rest)
                  | None \<Rightarrow>
                      if e = CHR ''u'' then
                        (case hex4 rest of None \<Rightarrow> None
                         | Some (r, rest') \<Rightarrow>
                             prepend (fst (unescape_unit r rest')) (unquote (snd (unescape_unit r rest'))))
                      else None))
          else if byte c < 32 then None
          else if byte c < 128 then prepend [c] (unquote cs)
          else (case rune_len s of
                  None \<Rightarrow> prepend rune_error (unquote cs)
                | Some n \<Rightarrow> prepend (take n s) (unquote (drop n s))))"
  by pat_completeness auto
termination
  by (relation "measure length") (auto dest: rune_len_bounds hex4_unit_length)

declare unquote.simps [simp del]

subsection \<open>Strings survive encoding and decoding\<close>

lemma rune_tail_take:
  assumes "rune_tail b bs = Some n"
  shows "rune_tail b (take (n - 1) bs @ us) = Some n"
proof -
  consider "us = []" | x where "us = [x]" | x y where "us = [x, y]" | x y z zs where "us = x # y # z # zs"
    by (metis list.exhaust)
  then show ?thesis
    using assms
    by cases (induction b bs rule: rune_tail.induct; auto split: if_splits)+
qed

lemma rune_len_take:
  assumes "rune_len s = Some n"
  shows "rune_len (take n s @ t) = Some n"
proof (cases s)
  case Nil
  then show ?thesis using assms by (simp add: rune_len_def)
next
  case (Cons c cs)
  show ?thesis
  proof (cases "byte c < 128")
    case True
    then show ?thesis using assms Cons by (auto simp: rune_len_def)
  next
    case False
    then have tl: "rune_tail (byte c) (map byte cs) = Some n" using assms Cons by (simp add: rune_len_def)
    then obtain m where "n = Suc m" using rune_tail_bounds by (metis Suc_le_D numeral_2_eq_2)
    then show ?thesis
      using rune_tail_take [OF tl, of "map byte t"] False Cons by (simp add: rune_len_def take_map)
  qed
qed

lemma hex_value_digit: "n < 16 \<Longrightarrow> hex_value (hex_digit n) = Some n"
  by (auto simp: hex_value_def hex_digit_def Let_def)

lemma special_bytes: "byte quote_char = 34" "byte backslash = 92"
  by (simp_all add: quote_char_def backslash_def)

lemma char_of_special:
  "char_of (34::nat) = CHR 0x22" "char_of (92::nat) = CHR 0x5C" "char_of (8::nat) = CHR 0x08"
  "char_of (12::nat) = CHR 0x0C" "char_of (10::nat) = CHR 0x0A" "char_of (13::nat) = CHR 0x0D"
  "char_of (9::nat) = CHR 0x09"
  by (simp_all add: char_of_def bit_0)

lemma unquote_simple:
  "simple_escape e = Some d \<Longrightarrow> unquote (backslash # e # t) = prepend [d] (unquote t)"
  by (subst unquote.simps) (simp add: quote_char_def backslash_def)

lemma unquote_unit:
  assumes "hex4 t = Some (r, t')" "\<not> (55296 \<le> r \<and> r < 57344)"
  shows "unquote (backslash # CHR ''u'' # t) = prepend (encode_rune r) (unquote t')"
proof -
  have "unescape_unit r t' = (encode_rune r, t')" using assms(2) by (auto simp: unescape_unit_def)
  moreover have "simple_escape (CHR ''u'') = None"
    by (simp add: simple_escape_def quote_char_def backslash_def)
  ultimately show ?thesis
    using assms(1) by (subst unquote.simps) (simp add: quote_char_def backslash_def)
qed

lemma unquote_plain:
  "c \<noteq> quote_char \<Longrightarrow> c \<noteq> backslash \<Longrightarrow> 32 \<le> byte c \<Longrightarrow> byte c < 128 \<Longrightarrow>
     unquote (c # t) = prepend [c] (unquote t)"
  by (subst unquote.simps) simp

lemma escape_ascii_short:
  assumes "byte c \<in> {34, 92, 8, 12, 10, 13, 9}"
  shows "\<exists>e. escape_ascii c = [backslash, e] \<and> simple_escape e = Some c"
proof -
  have "c \<in> char_of ` {34 :: nat, 92, 8, 12, 10, 13, 9}"
    using assms by (metis char_of_char imageI)
  then have "c \<in> {CHR 0x22, CHR 0x5C, CHR 0x08, CHR 0x0C, CHR 0x0A, CHR 0x0D, CHR 0x09}"
    by (simp only: image_insert image_empty char_of_special)
  then show ?thesis
    by (elim insertE emptyE; clarify)
      (simp_all add: escape_ascii_def simple_escape_def quote_char_def backslash_def)
qed

lemma unquote_ascii:
  assumes "byte c < 128"
  shows "unquote (escape_ascii c @ t) = prepend [c] (unquote t)"
proof -
  let ?b = "byte c"
  consider (short) "?b \<in> {34, 92, 8, 12, 10, 13, 9}"
    | (unit) "?b \<notin> {34, 92, 8, 12, 10, 13, 9}" "?b < 32 \<or> ?b = 60 \<or> ?b = 62 \<or> ?b = 38"
    | (plain) "?b \<notin> {34, 92, 8, 12, 10, 13, 9}" "\<not> (?b < 32 \<or> ?b = 60 \<or> ?b = 62 \<or> ?b = 38)"
    by blast
  then show ?thesis
  proof cases
    case short
    then show ?thesis using escape_ascii_short unquote_simple by fastforce
  next
    case unit
    have "hex4 (CHR ''0'' # CHR ''0'' # hex_digit (?b div 16) # hex_digit (?b mod 16) # t) = Some (?b, t)"
      using assms hex_value_digit [of "?b div 16"] hex_value_digit [of "?b mod 16"]
      by (simp add: hex_value_def)
    moreover have "encode_rune ?b = [c]" using assms by (simp add: encode_rune_def bytes_def)
    moreover have "escape_ascii c = [backslash, CHR ''u'', CHR ''0'', CHR ''0'', hex_digit (?b div 16), hex_digit (?b mod 16)]"
      using unit unfolding escape_ascii_def Let_def by auto
    ultimately show ?thesis using assms by (simp add: unquote_unit)
  next
    case plain
    then have "c \<noteq> quote_char" "c \<noteq> backslash" using special_bytes by auto
    moreover have "escape_ascii c = [c]" using plain by (simp add: escape_ascii_def Let_def)
    ultimately show ?thesis using assms plain by (simp add: unquote_plain)
  qed
qed

lemma unquote_multi:
  assumes "rune_len s = Some n" "s \<noteq> []" "128 \<le> byte (hd s)"
  shows "unquote (escape_multi (take n s) @ t) = prepend (take n s) (unquote t)"
proof -
  have unit: "unquote (backslash # ''u'' @ h @ t) = prepend (encode_rune r) (unquote t)"
    if "hex4 (h @ t) = Some (r, t)" "\<not> (55296 \<le> r \<and> r < 57344)" for h r
    using unquote_unit [OF that] by simp
  obtain m where n: "n = Suc m" using rune_len_bounds [OF assms(1)] gr0_conv_Suc by blast
  let ?s = "take n s @ t"
  obtain c cs where s: "?s = c # cs" "c = hd s" using assms(2) n by (cases s) auto
  have "c \<noteq> quote_char" "c \<noteq> backslash" "\<not> byte c < 32" "\<not> byte c < 128"
    using assms(3) s(2) special_bytes by auto
  moreover have "n = length (take n s)" using rune_len_bounds [OF assms(1)] by simp
  moreover have "take n (c # cs) = take n s" "drop n (c # cs) = t"
    using s(1) calculation(5) by (metis append_eq_conv_conj)+
  ultimately have copy: "unquote ?s = prepend (take n s) (unquote t)"
    using rune_len_take [OF assms(1), of t] unfolding s(1)
    by (subst unquote.simps) simp
  show ?thesis
    using copy unit [of "''2028''" 8232] unit [of "''2029''" 8233]
    by (simp add: escape_multi_def hex_value_def encode_rune_def)
qed

lemma unquote_escape:
  "valid_utf8 s \<Longrightarrow> unquote (escape s @ quote_char # rest) = Some (s, rest)"
proof (induction s rule: escape.induct)
  case (1 s)
  show ?case
  proof (cases s)
    case Nil
    then show ?thesis by (simp add: escape.simps [of "[]"] unquote.simps [of "quote_char # rest"])
  next
    case (Cons c cs)
    obtain n where n: "rune_len s = Some n" and v: "valid_utf8 (drop n s)"
      using "1.prems" Cons by (subst (asm) valid_utf8.simps) (auto split: option.splits)
    show ?thesis
    proof (cases "byte c < 128")
      case True
      then have "n = 1" using n Cons by (simp add: rune_len_def)
      with True show ?thesis
        using "1.IH"(1) [OF Cons True] v Cons
        by (simp add: escape.simps [of "c # cs"] unquote_ascii prepend_def)
    next
      case False
      then show ?thesis
        using "1.IH"(3) [OF Cons False n] v n unquote_multi [OF n] Cons
        by (simp add: escape.simps [of "c # cs"] prepend_def)
    qed
  qed
qed

subsection \<open>Values\<close>

datatype jval = JNull | JBool bool | JNum string | JStr string | JArr "jval list" | JObj "(string \<times> jval) list"

definition skip_ws :: "string \<Rightarrow> string" where
  "skip_ws s = dropWhile (\<lambda>c. byte c \<in> {9, 10, 13, 32}) s"

text \<open>The rest of the input after the given character, if the input starts with it.\<close>

definition expect :: "char \<Rightarrow> string \<Rightarrow> string option" where
  "expect c s = (case s of [] \<Rightarrow> None | x # rest \<Rightarrow> if x = c then Some rest else None)"

definition is_digit :: "char \<Rightarrow> bool" where
  "is_digit c \<longleftrightarrow> 48 \<le> byte c \<and> byte c \<le> 57"

text \<open>The parts of a number literal: integer part without leading zeros, fraction, exponent.\<close>

definition take_digits :: "string \<Rightarrow> (string \<times> string) option" where
  "take_digits s = (if takeWhile is_digit s = [] then None else Some (takeWhile is_digit s, dropWhile is_digit s))"

definition number_int :: "string \<Rightarrow> (string \<times> string) option" where
  "number_int s = (case expect (CHR ''0'') s of Some rest \<Rightarrow> Some (''0'', rest) | None \<Rightarrow> take_digits s)"

definition number_frac :: "string \<Rightarrow> (string \<times> string) option" where
  "number_frac s =
     (case expect (CHR ''.'') s of Some rest \<Rightarrow> prepend ''.'' (take_digits rest) | None \<Rightarrow> Some ([], s))"

definition number_exp :: "string \<Rightarrow> (string \<times> string) option" where
  "number_exp s =
     (case s of [] \<Rightarrow> Some ([], s)
      | c # rest \<Rightarrow>
          if c = CHR ''e'' \<or> c = CHR ''E'' then
            (case rest of [] \<Rightarrow> None
             | g # rest' \<Rightarrow>
                 if g = CHR ''+'' \<or> g = CHR ''-'' then prepend [c, g] (take_digits rest')
                 else prepend [c] (take_digits rest))
          else Some ([], s))"

definition number_unsigned :: "string \<Rightarrow> (string \<times> string) option" where
  "number_unsigned s =
     (case number_int s of None \<Rightarrow> None
      | Some (i, s1) \<Rightarrow>
          (case number_frac s1 of None \<Rightarrow> None
           | Some (fr, s2) \<Rightarrow> prepend (i @ fr) (number_exp s2)))"

definition parse_number :: "string \<Rightarrow> (string \<times> string) option" where
  "parse_number s =
     (case expect (CHR ''-'') s of Some rest \<Rightarrow> prepend ''-'' (number_unsigned rest) | None \<Rightarrow> number_unsigned s)"

text \<open>A literal, a number or a string.\<close>

definition parse_scalar :: "string \<Rightarrow> (jval \<times> string) option" where
  "parse_scalar s =
     (if HasPrefix s ''null'' then Some (JNull, drop 4 s)
      else if HasPrefix s ''true'' then Some (JBool True, drop 4 s)
      else if HasPrefix s ''false'' then Some (JBool False, drop 5 s)
      else case expect quote_char s of
             Some rest \<Rightarrow> map_option (\<lambda>(v, r). (JStr v, r)) (unquote rest)
           | None \<Rightarrow> map_option (\<lambda>(v, r). (JNum v, r)) (parse_number s))"

text \<open>Recursive descent with fuel; \<open>d\<close> is the nesting depth, which Go limits to 10000.\<close>

definition max_depth :: int where "max_depth = 10000"

fun parse_value :: "nat \<Rightarrow> int \<Rightarrow> string \<Rightarrow> (jval \<times> string) option"
  and parse_members :: "nat \<Rightarrow> int \<Rightarrow> string \<Rightarrow> ((string \<times> jval) list \<times> string) option"
  and parse_elems :: "nat \<Rightarrow> int \<Rightarrow> string \<Rightarrow> (jval list \<times> string) option" where
  "parse_value 0 d s = None"
| "parse_value (Suc f) d s =
     (case expect (CHR ''{'') (skip_ws s) of
        Some cs \<Rightarrow>
          (if d \<ge> max_depth then None
           else case expect (CHR ''}'') (skip_ws cs) of
                  Some rest \<Rightarrow> Some (JObj [], rest)
                | None \<Rightarrow> map_option (\<lambda>(ms, r). (JObj ms, r)) (parse_members f (d + 1) cs))
      | None \<Rightarrow>
          (case expect (CHR ''['') (skip_ws s) of
             Some cs \<Rightarrow>
               (if d \<ge> max_depth then None
                else case expect (CHR '']'') (skip_ws cs) of
                       Some rest \<Rightarrow> Some (JArr [], rest)
                     | None \<Rightarrow> map_option (\<lambda>(vs, r). (JArr vs, r)) (parse_elems f (d + 1) cs))
           | None \<Rightarrow> parse_scalar (skip_ws s)))"
| "parse_members 0 d s = None"
| "parse_members (Suc f) d s =
     (case expect quote_char (skip_ws s) of None \<Rightarrow> None
      | Some cs \<Rightarrow>
          (case unquote cs of None \<Rightarrow> None
           | Some (k, s1) \<Rightarrow>
               (case expect (CHR '':'') (skip_ws s1) of None \<Rightarrow> None
                | Some s2 \<Rightarrow>
                    (case parse_value f d s2 of None \<Rightarrow> None
                     | Some (v, s3) \<Rightarrow>
                         (case expect (CHR '','') (skip_ws s3) of
                            Some s4 \<Rightarrow> map_option (\<lambda>(ms, r). ((k, v) # ms, r)) (parse_members f d s4)
                          | None \<Rightarrow> map_option (\<lambda>r. ([(k, v)], r)) (expect (CHR ''}'') (skip_ws s3)))))))"
| "parse_elems 0 d s = None"
| "parse_elems (Suc f) d s =
     (case parse_value f d s of None \<Rightarrow> None
      | Some (v, s1) \<Rightarrow>
          (case expect (CHR '','') (skip_ws s1) of
             Some s2 \<Rightarrow> map_option (\<lambda>(vs, r). (v # vs, r)) (parse_elems f d s2)
           | None \<Rightarrow> map_option (\<lambda>r. ([v], r)) (expect (CHR '']'') (skip_ws s1))))"

definition json_fuel :: "string \<Rightarrow> nat" where
  "json_fuel s = Suc (2 * length s)"

definition json_parse :: "string \<Rightarrow> jval option" where
  "json_parse s =
     (case parse_value (json_fuel s) 0 s of
        None \<Rightarrow> None
      | Some (v, rest) \<Rightarrow> if skip_ws rest = [] then Some v else None)"

subsection \<open>The fuel is enough\<close>

lemma length_skip_ws: "length (skip_ws s) \<le> length s"
  by (simp add: skip_ws_def length_dropWhile_le)

lemma expect_length: "expect c s = Some r \<Longrightarrow> length r < length s"
  by (auto simp: expect_def split: list.splits if_splits)

lemma expect_skip_length: "expect c (skip_ws s) = Some r \<Longrightarrow> length r < length s"
  using expect_length length_skip_ws by (meson le_trans less_le_trans)

lemma prepend_Some: "prepend p r = Some (v, t) \<longleftrightarrow> (\<exists>v'. r = Some (v', t) \<and> v = p @ v')"
  by (cases r) (auto simp: prepend_def)

lemma unquote_length: "unquote s = Some (v, r) \<Longrightarrow> length r < length s"
proof (induction s arbitrary: v rule: unquote.induct)
  case (1 s)
  note IH = "1.IH"
  show ?case
  proof (cases s)
    case Nil
    then show ?thesis using "1.prems" by (simp add: unquote.simps)
  next
    case (Cons c cs)
    have e: "unquote (c # cs) = Some (v, r)" using "1.prems" Cons by simp
    show ?thesis
      using e IH [OF Cons] Cons
      by (subst (asm) unquote.simps)
        (fastforce simp: prepend_Some split: if_splits option.splits list.splits
          dest: rune_len_bounds hex4_unit_length)
  qed
qed

lemma take_digits_length:
  assumes "take_digits s = Some (ds, r)"
  shows "length r < length s"
proof -
  have "s \<noteq> []" "is_digit (hd s)" "r = dropWhile is_digit s"
    using assms by (cases s; auto simp: take_digits_def split: if_splits)+
  then show ?thesis using length_dropWhile_le [of is_digit "tl s"] by (cases s) auto
qed

lemma number_int_length: "number_int s = Some (i, r) \<Longrightarrow> length r < length s"
  by (auto simp: number_int_def split: option.splits dest: expect_length take_digits_length)

lemma number_frac_length: "number_frac s = Some (i, r) \<Longrightarrow> length r \<le> length s"
  by (auto simp: number_frac_def prepend_Some split: option.splits dest!: expect_length take_digits_length)

lemma number_exp_length: "number_exp s = Some (i, r) \<Longrightarrow> length r \<le> length s"
  by (auto simp: number_exp_def prepend_Some split: list.splits if_splits dest!: take_digits_length)

lemma number_unsigned_length: "number_unsigned s = Some (i, r) \<Longrightarrow> length r < length s"
  by (fastforce simp: number_unsigned_def prepend_Some split: option.splits
      dest: number_int_length number_frac_length number_exp_length)

lemma parse_number_length: "parse_number s = Some (i, r) \<Longrightarrow> length r < length s"
  by (auto simp: parse_number_def prepend_Some split: option.splits dest!: expect_length number_unsigned_length)

lemma parse_scalar_length: "parse_scalar s = Some (v, r) \<Longrightarrow> length r < length s"
  by (fastforce simp: parse_scalar_def HasPrefix_iff split: if_splits option.splits
      dest: expect_length unquote_length parse_number_length)

lemmas json_lengths = expect_skip_length unquote_length parse_scalar_length

lemma parse_lengths:
  "parse_value f d s = Some (v, r) \<Longrightarrow> length r < length s"
  "parse_members f d s = Some (ms, r) \<Longrightarrow> length r < length s"
  "parse_elems f d s = Some (vs, r) \<Longrightarrow> length r < length s"
proof (induction f d s and f d s and f d s arbitrary: v r and ms r and vs r
    rule: parse_value_parse_members_parse_elems.induct)
  case (2 f d s)
  have "length r < length s" if "parse_scalar (skip_ws s) = Some (v, r)"
    using parse_scalar_length [OF that] length_skip_ws [of s] by simp
  with 2 show ?case
    by (fastforce split: option.splits if_splits dest: expect_skip_length)
next
  case (4 f d s)
  then show ?case
    by (fastforce split: option.splits if_splits dest: expect_skip_length unquote_length)
next
  case (6 f d s)
  then show ?case
    by (fastforce split: option.splits if_splits dest: expect_skip_length)
qed auto

text \<open>More fuel than twice the length of the input never changes the result.\<close>

lemma parse_fuel:
  "2 * length s < f \<Longrightarrow> parse_value (Suc f) d s = parse_value f d s"
  "2 * length s + 1 < f \<Longrightarrow> parse_members (Suc f) d s = parse_members f d s"
  "2 * length s + 1 < f \<Longrightarrow> parse_elems (Suc f) d s = parse_elems f d s"
proof (induction f d s and f d s and f d s rule: parse_value_parse_members_parse_elems.induct)
  case (2 f d s)
  have "parse_members (Suc f) (d + 1) cs = parse_members f (d + 1) cs"
    if "expect (CHR ''{'') (skip_ws s) = Some cs" "\<not> d \<ge> max_depth" "expect (CHR ''}'') (skip_ws cs) = None" for cs
    using 2(2) [OF that] 2(3) expect_skip_length [OF that(1)] by simp
  moreover have "parse_elems (Suc f) (d + 1) cs = parse_elems f (d + 1) cs"
    if "expect (CHR ''{'') (skip_ws s) = None" "expect (CHR ''['') (skip_ws s) = Some cs"
      "\<not> d \<ge> max_depth" "expect (CHR '']'') (skip_ws cs) = None" for cs
    using 2(1) [OF that] 2(3) expect_skip_length [OF that(2)] by simp
  ultimately show ?case
    unfolding parse_value.simps
    by (cases "expect (CHR ''{'') (skip_ws s)"; cases "expect (CHR ''['') (skip_ws s)")
      (auto split: option.split simp del: parse_value.simps parse_members.simps parse_elems.simps)
next
  case (4 f d s)
  have val: "parse_value (Suc f) d s2 = parse_value f d s2"
    if "expect quote_char (skip_ws s) = Some cs" "unquote cs = Some (k, s1)" "expect (CHR '':'') (skip_ws s1) = Some s2"
    for cs k s1 s2
    using 4(1) [OF that(1,2) refl that(3)] 4(3) that by (fastforce dest: expect_skip_length unquote_length)
  moreover have "parse_members (Suc f) d s4 = parse_members f d s4"
    if "expect quote_char (skip_ws s) = Some cs" "unquote cs = Some (k, s1)" "expect (CHR '':'') (skip_ws s1) = Some s2"
      "parse_value f d s2 = Some (v, s3)" "expect (CHR '','') (skip_ws s3) = Some s4"
    for cs k s1 s2 v s3 s4
    using 4(2) [OF that(1,2) refl that(3,4) refl that(5)] 4(3) that
    by (fastforce dest: expect_skip_length unquote_length parse_lengths(1))
  ultimately show ?case
    unfolding parse_members.simps(2) [of _ d s]
    by (auto split: option.split simp del: parse_value.simps parse_members.simps)
next
  case (6 f d s)
  have val: "parse_value (Suc f) d s = parse_value f d s" using 6(1,3) by simp
  moreover have "parse_elems (Suc f) d s2 = parse_elems f d s2"
    if "parse_value f d s = Some (v, s1)" "expect (CHR '','') (skip_ws s1) = Some s2" for v s1 s2
    using 6(2) [OF that(1) refl that(2)] 6(3) that by (fastforce dest: expect_skip_length parse_lengths(1))
  ultimately show ?case
    unfolding parse_elems.simps(2) [of _ d s]
    by (auto split: option.split simp del: parse_value.simps parse_elems.simps)
qed auto

lemma json_fuel_enough: "json_fuel s \<le> f \<Longrightarrow> parse_value f d s = parse_value (json_fuel s) d s"
  by (induction f rule: dec_induct) (auto simp: json_fuel_def parse_fuel(1) simp del: parse_value.simps)

end
