(* ===== verification/Go_Sort.thy ===== *)
theory Go_Sort
  imports Go_Prelude
begin

text \<open>
  Sorting as Go's \<^verbatim>\<open>sort\<close> and \<^verbatim>\<open>slices\<close> packages do it: the caller gives a \<^verbatim>\<open>Less\<close> function. The executable
  \<open>sort_by\<close> is the insertion sort that Go runs on short inputs. The library does not promise stability,
  so what the development uses is the contract: the result is a sorted permutation, and there is only
  one when \<^verbatim>\<open>Less\<close> tells distinct elements apart. The locale \<open>less_order\<close> is the law a \<^verbatim>\<open>Less\<close> has to satisfy.
\<close>

fun insert_by :: "('a \<Rightarrow> 'a \<Rightarrow> bool) \<Rightarrow> 'a \<Rightarrow> 'a list \<Rightarrow> 'a list" where
  "insert_by lt x [] = [x]"
| "insert_by lt x (y # ys) = (if lt x y then x # y # ys else y # insert_by lt x ys)"

definition sort_by :: "('a \<Rightarrow> 'a \<Rightarrow> bool) \<Rightarrow> 'a list \<Rightarrow> 'a list" where
  "sort_by lt xs = foldl (\<lambda>acc x. insert_by lt x acc) [] xs"

definition sorted_by :: "('a \<Rightarrow> 'a \<Rightarrow> bool) \<Rightarrow> 'a list \<Rightarrow> bool" where
  "sorted_by lt xs \<longleftrightarrow> sorted_wrt (\<lambda>a b. \<not> lt b a) xs"

lemma mset_insert_by [simp]: "mset (insert_by lt x ys) = add_mset x (mset ys)"
  by (induction ys) auto

lemma mset_sort_by [simp]: "mset (sort_by lt xs) = mset xs"
proof -
  have "mset (foldl (\<lambda>acc x. insert_by lt x acc) acc xs) = mset acc + mset xs" for acc
    by (induction xs arbitrary: acc) auto
  then show ?thesis by (simp add: sort_by_def)
qed

lemma set_sort_by [simp]: "set (sort_by lt xs) = set xs"
  by (metis mset_sort_by set_mset_mset)

lemma length_sort_by [simp]: "length (sort_by lt xs) = length xs"
  by (metis mset_sort_by size_mset)

lemma distinct_sort_by [simp]: "distinct (sort_by lt xs) = distinct xs"
  by (metis mset_eq_imp_distinct_iff mset_sort_by)

locale less_order =
  fixes lt :: "'a \<Rightarrow> 'a \<Rightarrow> bool"
  assumes asym: "lt a b \<Longrightarrow> \<not> lt b a"
    and le_trans: "\<not> lt b a \<Longrightarrow> \<not> lt c b \<Longrightarrow> \<not> lt c a"
begin

lemma irrefl: "\<not> lt a a"
  using asym by blast

lemma less_trans: "lt a b \<Longrightarrow> lt b c \<Longrightarrow> lt a c"
  using asym le_trans by blast

lemma sorted_insert_by: "sorted_by lt ys \<Longrightarrow> sorted_by lt (insert_by lt x ys)"
proof (induction ys)
  case (Cons y ys)
  have mem: "z \<in> set (insert_by lt x ys) \<longleftrightarrow> z = x \<or> z \<in> set ys" for z
    by (metis mset_insert_by set_mset_add_mset_insert set_mset_mset insert_iff)
  show ?case
  proof (cases "lt x y")
    case True
    then have "\<not> lt y x" by (rule asym)
    moreover have "\<not> lt z x" if "z \<in> set ys" for z
      using Cons.prems that \<open>\<not> lt y x\<close> le_trans unfolding sorted_by_def by auto
    ultimately show ?thesis using Cons.prems True by (auto simp: sorted_by_def)
  next
    case False
    then show ?thesis using Cons by (auto simp: sorted_by_def mem)
  qed
qed (simp add: sorted_by_def)

lemma sorted_sort_by: "sorted_by lt (sort_by lt xs)"
proof -
  have "sorted_by lt acc \<Longrightarrow> sorted_by lt (foldl (\<lambda>acc x. insert_by lt x acc) acc xs)" for acc
    by (induction xs arbitrary: acc) (auto simp: sorted_insert_by)
  then show ?thesis unfolding sort_by_def by (simp add: sorted_by_def)
qed

text \<open>The elements of a list are told apart by the order.\<close>

definition discriminates :: "'a set \<Rightarrow> bool" where
  "discriminates A \<longleftrightarrow> (\<forall>a \<in> A. \<forall>b \<in> A. a \<noteq> b \<longrightarrow> lt a b \<or> lt b a)"

lemma sorted_unique:
  "sorted_by lt xs \<Longrightarrow> sorted_by lt ys \<Longrightarrow> mset xs = mset ys \<Longrightarrow> discriminates (set xs) \<Longrightarrow> xs = ys"
proof (induction xs arbitrary: ys)
  case (Cons x xs)
  from Cons.prems(3) obtain y zs where ys: "ys = y # zs" by (cases ys) auto
  have mem: "y \<in> set (x # xs)" "x \<in> set ys"
    using Cons.prems(3) ys by (metis list.set_intros(1) set_mset_mset)+
  have "y = x"
  proof (rule ccontr)
    assume ne: "y \<noteq> x"
    then have "lt x y \<or> lt y x" using Cons.prems(4) mem by (auto simp: discriminates_def)
    moreover have "\<not> lt y x" using mem(1) ne Cons.prems(1) by (auto simp: sorted_by_def)
    moreover have "\<not> lt x y" using mem(2) ne Cons.prems(2) ys by (auto simp: sorted_by_def)
    ultimately show False by blast
  qed
  moreover have "discriminates (set xs)" using Cons.prems(4) by (auto simp: discriminates_def)
  ultimately show ?case
    using Cons.IH [of zs] Cons.prems(1-3) ys by (auto simp: sorted_by_def)
qed simp

text \<open>Whatever algorithm sorts the elements, in whatever order they come, the result is the same.\<close>

lemma sort_by_unique:
  "discriminates (set xs) \<Longrightarrow> sorted_by lt ys \<Longrightarrow> mset ys = mset xs \<Longrightarrow> ys = sort_by lt xs"
  using sorted_unique [of "sort_by lt xs" ys] sorted_sort_by by (metis mset_sort_by set_sort_by)

lemma sort_by_cong: "discriminates (set xs) \<Longrightarrow> mset xs = mset ys \<Longrightarrow> sort_by lt xs = sort_by lt ys"
  using sort_by_unique [of xs "sort_by lt ys"] sorted_sort_by by simp

lemma sort_by_idem: "discriminates (set xs) \<Longrightarrow> sort_by lt (sort_by lt xs) = sort_by lt xs"
  by (rule sort_by_cong) simp_all

end

subsection \<open>Orders built from keys\<close>

definition by_key :: "('a \<Rightarrow> 'k::linorder) \<Rightarrow> 'a \<Rightarrow> 'a \<Rightarrow> bool" where
  "by_key f a b \<longleftrightarrow> f a < f b"

definition by_key_desc :: "('a \<Rightarrow> 'k::linorder) \<Rightarrow> 'a \<Rightarrow> 'a \<Rightarrow> bool" where
  "by_key_desc f a b \<longleftrightarrow> f a > f b"

definition then_by :: "('a \<Rightarrow> 'a \<Rightarrow> bool) \<Rightarrow> ('a \<Rightarrow> 'a \<Rightarrow> bool) \<Rightarrow> 'a \<Rightarrow> 'a \<Rightarrow> bool" where
  "then_by l1 l2 a b \<longleftrightarrow> l1 a b \<or> \<not> l1 b a \<and> l2 a b"

lemma less_order_by_key: "less_order (by_key f)"
  by unfold_locales (auto simp: by_key_def)

lemma less_order_by_key_desc: "less_order (by_key_desc f)"
  by unfold_locales (auto simp: by_key_desc_def)

lemma less_order_then_by:
  assumes "less_order l1" "less_order l2"
  shows "less_order (then_by l1 l2)"
proof -
  note o1 = less_order.asym [OF assms(1)] less_order.le_trans [OF assms(1)]
  note o2 = less_order.asym [OF assms(2)] less_order.le_trans [OF assms(2)]
  show ?thesis
    by unfold_locales (unfold then_by_def, (metis o1 o2)+)
qed

text \<open>\<^verbatim>\<open>sort.Strings\<close> and \<^verbatim>\<open>slices.Sorted\<close> of strings.\<close>

definition sort_Strings :: "string list \<Rightarrow> string list" where
  "sort_Strings xs = sort_by (<) xs"

interpretation str: less_order "(<) :: string \<Rightarrow> string \<Rightarrow> bool"
  by unfold_locales auto

lemma str_discriminates: "str.discriminates A"
  by (auto simp: str.discriminates_def)

lemma sort_Strings_cong: "mset xs = mset ys \<Longrightarrow> sort_Strings xs = sort_Strings ys"
  unfolding sort_Strings_def by (rule str.sort_by_cong [OF str_discriminates])

lemma set_sort_Strings [simp]: "set (sort_Strings xs) = set xs"
  by (simp add: sort_Strings_def)

lemma sorted_sort_Strings: "sorted (sort_Strings xs)"
proof -
  have "sorted_wrt (\<lambda>a b. \<not> b < a) (sort_Strings xs)"
    using str.sorted_sort_by [of xs] by (simp only: sorted_by_def sort_Strings_def)
  then show ?thesis by (simp add: not_less)
qed

end
