(* ===== verification/Pb_Types.thy ===== *)
theory Pb_Types
  imports Go_Prelude "HOL-Library.Word"
begin

text \<open>
  The messages of Pomerium's configuration protocol (\<^verbatim>\<open>pkg/grpc/config\<close>, generated outside this repository)
  with the fields that the controller reads or writes. An optional scalar and a message pointer are an
  \<open>option\<close>, a plain string field has the empty string as its default, a map field is a \<open>gomap\<close>. The fields
  that only the generated JSON decoder sets are kept together in an opaque \<open>r_other\<close>.
\<close>

datatype auth_style = AuthStyleInParams | AuthStyleInHeader

record oauth2_endpoint =
  oe_AuthUrl :: string
  oe_TokenUrl :: string
  oe_AuthStyle :: "auth_style option"

record upstream_oauth2 =
  uo_ClientId :: string
  uo_ClientSecret :: string
  uo_AuthorizationUrlParams :: "(string, string) gomap"
  uo_Oauth2Endpoint :: "oauth2_endpoint option"
  uo_Scopes :: "string list"

record mcp_server =
  ms_MaxRequestBytes :: "32 word option"
  ms_UpstreamOauth2 :: "upstream_oauth2 option"
  ms_Path :: "string option"
  ms_AuthorizationServerUrl :: "string option"

datatype mcp_mode = ModeServer mcp_server | ModeClient

record upstream_tunnel =
  ut_SshPolicy :: "string option"

record route_redirect =
  rr_SchemeRedirect :: "string option"
  rr_HostRedirect :: "string option"
  rr_ResponseCode :: "32 word option"
  rr_PortRedirect :: "32 word option"

record direct_response =
  dr_Status :: "32 word"
  dr_Body :: string

record pb_policy =
  p_Name :: "string option"
  p_AllowedUsers :: "string list"
  p_AllowedDomains :: "string list"
  p_AllowedIdpClaims :: "(string, string list) gomap"
  p_SourcePpl :: "string option"
  p_Rego :: "string list"

record pb_route =
  r_Id :: "string option"
  r_Name :: "string option"
  r_StatName :: "string option"
  r_From :: string
  r_To :: "string list"
  r_LoadBalancingWeights :: "32 word list"
  r_Prefix :: string
  r_Path :: string
  r_Regex :: string
  r_Redirect :: "route_redirect option"
  r_Response :: "direct_response option"
  r_AllowPublicUnauthenticatedAccess :: bool
  r_AllowAnyAuthenticatedUser :: bool
  r_PreserveHostHeader :: bool
  r_TlsServerName :: string
  r_TlsCustomCa :: string
  r_TlsClientCert :: string
  r_TlsClientKey :: string
  r_TlsDownstreamClientCa :: string
  r_SetRequestHeaders :: "(string, string) gomap"
  r_SetResponseHeaders :: "(string, string) gomap"
  r_RemoveRequestHeaders :: "string list"
  r_KubernetesServiceAccountToken :: string
  r_IdpClientId :: "string option"
  r_IdpClientSecret :: "string option"
  r_Mcp :: "mcp_mode option option"
  r_UpstreamTunnel :: "upstream_tunnel option"
  r_Policies :: "pb_policy list"
  r_other :: "(string, string) gomap"

text \<open>
  \<open>r_Mcp\<close>: the outer option is the \<^verbatim>\<open>Mcp\<close> pointer, the inner one its \<^verbatim>\<open>Mode\<close>.
\<close>

definition new_route :: pb_route where
  "new_route = \<lparr>r_Id = None, r_Name = None, r_StatName = None, r_From = [], r_To = [],
     r_LoadBalancingWeights = [], r_Prefix = [], r_Path = [], r_Regex = [], r_Redirect = None,
     r_Response = None, r_AllowPublicUnauthenticatedAccess = False, r_AllowAnyAuthenticatedUser = False,
     r_PreserveHostHeader = False, r_TlsServerName = [], r_TlsCustomCa = [], r_TlsClientCert = [],
     r_TlsClientKey = [], r_TlsDownstreamClientCa = [], r_SetRequestHeaders = [], r_SetResponseHeaders = [],
     r_RemoveRequestHeaders = [], r_KubernetesServiceAccountToken = [], r_IdpClientId = None,
     r_IdpClientSecret = None, r_Mcp = None, r_UpstreamTunnel = None, r_Policies = [], r_other = []\<rparr>"

definition new_policy :: pb_policy where
  "new_policy = \<lparr>p_Name = None, p_AllowedUsers = [], p_AllowedDomains = [], p_AllowedIdpClaims = [],
     p_SourcePpl = None, p_Rego = []\<rparr>"

definition new_oauth2_endpoint :: oauth2_endpoint where
  "new_oauth2_endpoint = \<lparr>oe_AuthUrl = [], oe_TokenUrl = [], oe_AuthStyle = None\<rparr>"

definition new_upstream_oauth2 :: upstream_oauth2 where
  "new_upstream_oauth2 = \<lparr>uo_ClientId = [], uo_ClientSecret = [], uo_AuthorizationUrlParams = [],
     uo_Oauth2Endpoint = None, uo_Scopes = []\<rparr>"

definition new_mcp_server :: mcp_server where
  "new_mcp_server = \<lparr>ms_MaxRequestBytes = None, ms_UpstreamOauth2 = None, ms_Path = None,
     ms_AuthorizationServerUrl = None\<rparr>"

definition new_upstream_tunnel :: upstream_tunnel where
  "new_upstream_tunnel = \<lparr>ut_SshPolicy = None\<rparr>"

record settings_certificate =
  sc_Id :: string
  sc_CertBytes :: string
  sc_KeyBytes :: string

text \<open>
  The settings message has one flat list of fields; here those that one function writes are grouped in one
  record. Durations are numbers of nanoseconds. A parsed floating point number is one of the special values or a
  finite number \<open>F_fin m e\<close>, which is \<open>m \<sqdot> 2\<^sup>e\<close>.
\<close>

datatype float64 = F_NaN | F_NegInf | F_PosInf | F_fin int int

datatype codec_type = CodecAuto | CodecHTTP1 | CodecHTTP2 | CodecHTTP3
datatype bearer_token_format = BearerUnknown | BearerDefault | BearerIdpAccessToken | BearerIdpIdentityToken
datatype mtls_enforcement = PolicyWithDefaultDeny | PolicyMode | RejectConnection
datatype san_type = SanEmail | SanDNS | SanURI | SanIPAddress | SanUserPrincipalName
datatype escaped_slashes_action = SlashesKeepUnchanged | SlashesRejectRequest | SlashesUnescapeAndRedirect | SlashesUnescapeAndForward
datatype underscores_action = UnderscoresAllow | UnderscoresRejectRequest | UnderscoresDropHeader

record cookie_settings =
  ck_Name :: "string option"
  ck_Domain :: "string option"
  ck_HttpOnly :: "bool option"
  ck_Expire :: "int option"
  ck_SameSite :: "string option"

record timeout_settings =
  to_Idle :: "int option"
  to_Read :: "int option"
  to_Write :: "int option"

record otel_settings =
  ot_TracesExporter :: "string option"
  ot_Endpoint :: "string option"
  ot_SamplerArg :: "float64 option"
  ot_ResourceAttributes :: "string list"
  ot_LogLevel :: "string option"
  ot_Protocol :: "string option"
  ot_Headers :: "string list"
  ot_Timeout :: "int option"
  ot_BspScheduleDelay :: "int option"
  ot_BspMaxExportBatchSize :: "int option"

record idp_settings =
  id_Provider :: "string option"
  id_ProviderUrl :: "string option"
  id_Scopes :: "string list"
  id_ClientId :: "string option"
  id_ClientSecret :: "string option"
  id_RequestParams :: "(string, string) gomap"

record mtls_settings =
  mt_Ca :: "string option"
  mt_Crl :: "string option"
  mt_Enforcement :: "mtls_enforcement option"
  mt_MatchSubjectAltNames :: "(san_type \<times> string) list"
  mt_MaxVerifyDepth :: "32 word option"

record circuit_breaker_thresholds =
  cb_MaxConnections :: "32 word option"
  cb_MaxPendingRequests :: "32 word option"
  cb_MaxRequests :: "32 word option"
  cb_MaxRetries :: "32 word option"
  cb_MaxConnectionPools :: "32 word option"

record dns_settings =
  dn_LookupFamily :: "string option"
  dn_FailureRefreshRate :: "int option"
  dn_QueryTimeout :: "int option"
  dn_QueryTries :: "32 word option"
  dn_RefreshRate :: "int option"
  dn_UdpMaxQueries :: "32 word option"
  dn_UseTcp :: "bool option"

record ssh_settings =
  sh_HostKeys :: "string list option"
  sh_UserCaKey :: "string option"

record misc_settings =
  mi_SetResponseHeaders :: "(string, string) gomap"
  mi_ProgrammaticRedirectDomainWhitelist :: "string list"
  mi_McpAllowedClientIdDomains :: "string list"
  mi_McpAllowedAsMetadataDomains :: "string list"
  mi_UseProxyProtocol :: "bool option"
  mi_CodecType :: "codec_type option"
  mi_AccessLogFields :: "string list option"
  mi_AuthorizeLogFields :: "string list option"
  mi_PassIdentityHeaders :: "bool option"
  mi_BearerTokenFormat :: "bearer_token_format option"
  mi_IdpAccessTokenAllowedAudiences :: "string list option"
  mi_AllowUpgrades :: "string list option"
  mi_EnvoyDynamicExtensions :: "string list option"

record normalization_settings =
  no_NormalizePath :: "bool option"
  no_MergeSlashes :: "bool option"
  no_PathWithEscapedSlashesAction :: "escaped_slashes_action option"
  no_HeadersWithUnderscoresAction :: "underscores_action option"

record pb_settings =
  st_Certificates :: "settings_certificate list"
  st_CertificateAuthority :: "string option"
  st_AuthenticateServiceUrl :: "string option"
  st_JwtClaimsHeaders :: "(string, string) gomap"
  st_Cookie :: cookie_settings
  st_Timeouts :: timeout_settings
  st_Otel :: otel_settings
  st_Idp :: idp_settings
  st_DownstreamMtls :: "mtls_settings option"
  st_CircuitBreakerThresholds :: "circuit_breaker_thresholds option"
  st_Dns :: dns_settings
  st_Ssh :: ssh_settings
  st_Misc :: misc_settings
  st_Normalization :: normalization_settings

definition new_dns :: dns_settings where
  "new_dns = \<lparr>dn_LookupFamily = None, dn_FailureRefreshRate = None, dn_QueryTimeout = None, dn_QueryTries = None,
     dn_RefreshRate = None, dn_UdpMaxQueries = None, dn_UseTcp = None\<rparr>"

definition new_mtls :: mtls_settings where
  "new_mtls = \<lparr>mt_Ca = None, mt_Crl = None, mt_Enforcement = None, mt_MatchSubjectAltNames = [], mt_MaxVerifyDepth = None\<rparr>"

definition new_settings :: pb_settings where
  "new_settings = \<lparr>st_Certificates = [], st_CertificateAuthority = None, st_AuthenticateServiceUrl = None,
     st_JwtClaimsHeaders = [],
     st_Cookie = \<lparr>ck_Name = None, ck_Domain = None, ck_HttpOnly = None, ck_Expire = None, ck_SameSite = None\<rparr>,
     st_Timeouts = \<lparr>to_Idle = None, to_Read = None, to_Write = None\<rparr>,
     st_Otel = \<lparr>ot_TracesExporter = None, ot_Endpoint = None, ot_SamplerArg = None, ot_ResourceAttributes = [],
       ot_LogLevel = None, ot_Protocol = None, ot_Headers = [], ot_Timeout = None, ot_BspScheduleDelay = None,
       ot_BspMaxExportBatchSize = None\<rparr>,
     st_Idp = \<lparr>id_Provider = None, id_ProviderUrl = None, id_Scopes = [], id_ClientId = None, id_ClientSecret = None,
       id_RequestParams = []\<rparr>,
     st_DownstreamMtls = None, st_CircuitBreakerThresholds = None, st_Dns = new_dns,
     st_Ssh = \<lparr>sh_HostKeys = None, sh_UserCaKey = None\<rparr>,
     st_Misc = \<lparr>mi_SetResponseHeaders = [], mi_ProgrammaticRedirectDomainWhitelist = [], mi_McpAllowedClientIdDomains = [],
       mi_McpAllowedAsMetadataDomains = [], mi_UseProxyProtocol = None, mi_CodecType = None, mi_AccessLogFields = None,
       mi_AuthorizeLogFields = None, mi_PassIdentityHeaders = None, mi_BearerTokenFormat = None,
       mi_IdpAccessTokenAllowedAudiences = None, mi_AllowUpgrades = None, mi_EnvoyDynamicExtensions = None\<rparr>,
     st_Normalization = \<lparr>no_NormalizePath = None, no_MergeSlashes = None, no_PathWithEscapedSlashesAction = None,
       no_HeadersWithUnderscoresAction = None\<rparr>\<rparr>"

record pb_config =
  cfg_Routes :: "pb_route list"
  cfg_Settings :: "pb_settings option"

definition new_config :: pb_config where
  "new_config = \<lparr>cfg_Routes = [], cfg_Settings = None\<rparr>"

definition GetId :: "pb_route \<Rightarrow> string" where
  "GetId r = deref_str (r_Id r)"

end
