(* ===== verification/Util.thy ===== *)
theory Util
  imports Go_Prelude
begin

text \<open>
  The \<^verbatim>\<open>util\<close> package: parsing of namespaced names (\<^verbatim>\<open>util/namespaced_name.go\<close>), merging of
  plain and secret maps (\<^verbatim>\<open>util/merge_map.go\<close>), annotations (\<^verbatim>\<open>util/object.go\<close>) and the
  warnings collector kept in a context (\<^verbatim>\<open>util/bin.go\<close>).
\<close>

subsection \<open>Namespaced names\<close>

datatype namespaced_name = NamespacedName (Namespace: string) (Name: string)

datatype nn_error =
    ErrInvalidNamespacedNameFormat
  | ErrNamespaceExpected
  | ErrEmptyName
  | ErrTooManyOptions
  | ErrNamespaceMismatch string string
  | ErrClusterScopeExpected

type_synonym nn_option = "namespaced_name \<Rightarrow> nn_error + namespaced_name"

text \<open>\<^verbatim>\<open>types.NamespacedName.String\<close>.\<close>

definition nn_string :: "namespaced_name \<Rightarrow> string" where
  "nn_string n = Namespace n @ ''/'' @ Name n"

definition WithNamespaceExpected :: nn_option where
  "WithNamespaceExpected n = (if Namespace n = [] then Inl ErrNamespaceExpected else Inr n)"

definition WithDefaultNamespace :: "string \<Rightarrow> nn_option" where
  "WithDefaultNamespace ns n =
     (if ns = [] then Inl ErrNamespaceExpected
      else if Namespace n = [] then Inr (NamespacedName ns (Name n))
      else Inr n)"

definition WithMustNamespace :: "string \<Rightarrow> nn_option" where
  "WithMustNamespace ns n =
     (if ns = [] then Inl ErrNamespaceExpected
      else if Namespace n = [] then Inr (NamespacedName ns (Name n))
      else if Namespace n \<noteq> ns then Inl (ErrNamespaceMismatch ns (Namespace n))
      else Inr n)"

definition WithClusterScope :: nn_option where
  "WithClusterScope n = (if Namespace n \<noteq> [] then Inl ErrClusterScopeExpected else Inr n)"

definition ParseNamespacedName :: "string \<Rightarrow> nn_option list \<Rightarrow> nn_error + namespaced_name" where
  "ParseNamespacedName name options =
     (if length options > 1 then Inl ErrTooManyOptions
      else let opts = (if options = [] then [WithNamespaceExpected] else options) in
      if name = [] then Inl ErrEmptyName
      else ebind
        (case Split name (CHR ''/'') of
           [a] \<Rightarrow> Inr (NamespacedName [] a)
         | [a, b] \<Rightarrow> Inr (NamespacedName a b)
         | _ \<Rightarrow> Inl ErrInvalidNamespacedNameFormat)
        (\<lambda>dst. ebind (efold (\<lambda>d opt. opt d) dst opts)
          (\<lambda>dst'. if Name dst' = [] then Inl ErrInvalidNamespacedNameFormat else Inr dst')))"

subsection \<open>Merging a map and secret data\<close>

text \<open>Secret values are byte slices, converted to strings unchanged; the error names the key.\<close>

definition MergeMaps :: "(string, string) gomap \<Rightarrow> (string, string) gomap \<Rightarrow> string + (string, string) gomap" where
  "MergeMaps first second =
     efold (\<lambda>dst (key, data). if map_of first key \<noteq> None then Inl key else Inr (AList.update key data dst))
       (mmerge [] first) second"

subsection \<open>Annotations\<close>

text \<open>A nil annotations map is \<open>None\<close>; setting an annotation makes a map when there is none.\<close>

definition SetAnnotation :: "(string, string) gomap option \<Rightarrow> string \<Rightarrow> string \<Rightarrow> (string, string) gomap option" where
  "SetAnnotation m key val = Some (AList.update key val (case m of None \<Rightarrow> [] | Some m' \<Rightarrow> m'))"

subsection \<open>The collector kept in a context\<close>

text \<open>
  The value of a context under the collector's key: \<open>None\<close> when \<^verbatim>\<open>WithBin\<close> was not called,
  \<open>Some es\<close> with the entries added so far.
\<close>

type_synonym 'a bin_ctx = "'a list option"

definition WithBin :: "'a bin_ctx \<Rightarrow> 'a bin_ctx" where
  "WithBin ctx = (case ctx of Some es \<Rightarrow> Some es | None \<Rightarrow> Some [])"

definition bin_Add :: "'a bin_ctx \<Rightarrow> 'a list \<Rightarrow> 'a bin_ctx" where
  "bin_Add ctx entries = (case ctx of None \<Rightarrow> None | Some es \<Rightarrow> Some (es @ entries))"

definition bin_Get :: "'a bin_ctx \<Rightarrow> 'a list" where
  "bin_Get ctx = (case ctx of None \<Rightarrow> [] | Some es \<Rightarrow> es)"

subsection \<open>Lemmas\<close>

lemmas nn_option_defs =
  WithNamespaceExpected_def WithDefaultNamespace_def WithMustNamespace_def WithClusterScope_def

text \<open>What the splitting step alone accepts: a string with at most one slash.\<close>

lemma split_name_cases:
  obtains (one) "CHR ''/'' \<notin> set s" "Split s (CHR ''/'') = [s]"
  | (two) a b where "s = a @ CHR ''/'' # b" "CHR ''/'' \<notin> set a" "CHR ''/'' \<notin> set b" "Split s (CHR ''/'') = [a, b]"
  | (more) x y z zs where "Split s (CHR ''/'') = x # y # z # zs"
proof (cases "Split s (CHR ''/'')")
  case Nil then show ?thesis by simp
next
  case (Cons x xs)
  show ?thesis
  proof (cases xs)
    case Nil with Cons show ?thesis using one Split_singleton [of s "CHR ''/''" x] by auto
  next
    case 2: (Cons y ys)
    show ?thesis
    proof (cases ys)
      case Nil with Cons 2 show ?thesis using two Split_pair [of s "CHR ''/''" x y] by auto
    next
      case (Cons z zs) with \<open>Split s (CHR ''/'') = x # xs\<close> 2 show ?thesis using more by auto
    qed
  qed
qed

lemma ParseNamespacedName_option:
  assumes "ParseNamespacedName s [opt] = Inr n"
  obtains d where "opt d = Inr n" "Name n \<noteq> []"
    "(CHR ''/'' \<notin> set s \<and> d = (NamespacedName [] s)) \<or>
     (\<exists>a b. s = a @ CHR ''/'' # b \<and> CHR ''/'' \<notin> set a \<and> CHR ''/'' \<notin> set b \<and> d = (NamespacedName a b))"
  using assms
  by (cases rule: split_name_cases [of s])
    (auto simp: ParseNamespacedName_def ebind_Inr_iff split: if_splits)

lemma ParseNamespacedName_default:
  "ParseNamespacedName s [] = ParseNamespacedName s [WithNamespaceExpected]"
  by (simp add: ParseNamespacedName_def)

lemma MergeMaps_loop:
  assumes "wf_map second"
  shows "efold (\<lambda>dst (key, data). if map_of first key \<noteq> None then Inl key else Inr (AList.update key data dst)) dst second =
    (case find (\<lambda>(k, v). map_of first k \<noteq> None) second of
       Some (k, v) \<Rightarrow> Inl k | None \<Rightarrow> Inr (mmerge dst second))"
  using assms by (induction second arbitrary: dst) (auto simp: wf_map_def split: option.split)

subsection \<open>Properties\<close>

text \<open>\<^verbatim>\<open>ParseNamespacedName\<close> without options accepts exactly the strings \<open>namespace/name\<close>
  whose two parts are non-empty and free of slashes, and returns those parts; so it inverts
  \<^verbatim>\<open>NamespacedName.String\<close> on every well-formed name.\<close>

theorem ParseNamespacedName_iff:
  "ParseNamespacedName s [] = Inr n \<longleftrightarrow>
     s = nn_string n \<and> Namespace n \<noteq> [] \<and> Name n \<noteq> [] \<and>
     CHR ''/'' \<notin> set (Namespace n) \<and> CHR ''/'' \<notin> set (Name n)"
proof
  assume h: "ParseNamespacedName s [] = Inr n"
  show "s = nn_string n \<and> Namespace n \<noteq> [] \<and> Name n \<noteq> [] \<and>
     CHR ''/'' \<notin> set (Namespace n) \<and> CHR ''/'' \<notin> set (Name n)"
    using h [unfolded ParseNamespacedName_default]
    by (rule ParseNamespacedName_option) (auto simp: nn_option_defs nn_string_def split: if_splits)
next
  assume h: "s = nn_string n \<and> Namespace n \<noteq> [] \<and> Name n \<noteq> [] \<and>
     CHR ''/'' \<notin> set (Namespace n) \<and> CHR ''/'' \<notin> set (Name n)"
  then have "Split s (CHR ''/'') = [Namespace n, Name n]"
    by (simp add: nn_string_def Split_pair)
  with h show "ParseNamespacedName s [] = Inr n"
    by (auto simp: ParseNamespacedName_def nn_option_defs nn_string_def)
qed

text \<open>The namespace a successful parse returns is the one its option allows: the required
  namespace for \<^verbatim>\<open>WithMustNamespace\<close>, none for \<^verbatim>\<open>WithClusterScope\<close>, and never an empty one for
  \<^verbatim>\<open>WithDefaultNamespace\<close>; more than one option is always refused.\<close>

theorem ParseNamespacedName_options:
  "(ParseNamespacedName s [WithMustNamespace ns] = Inr n \<longrightarrow> Namespace n = ns \<and> Name n \<noteq> []) \<and>
   (ParseNamespacedName s [WithClusterScope] = Inr n \<longrightarrow> Namespace n = [] \<and> Name n \<noteq> []) \<and>
   (ParseNamespacedName s [WithDefaultNamespace ns] = Inr n \<longrightarrow>
      Namespace n \<noteq> [] \<and> Name n \<noteq> [] \<and> (CHR ''/'' \<in> set s \<or> Namespace n = ns)) \<and>
   ParseNamespacedName s (o1 # o2 # os) = Inl ErrTooManyOptions"
  by (intro conjI impI; (elim ParseNamespacedName_option)?)
    (auto simp: nn_option_defs ParseNamespacedName_def split: if_splits)

theorem ParseNamespacedName_options_witness:
  "Namespace (NamespacedName ''ns'' ''a'') = ''ns'' \<and>
   ParseNamespacedName ''a'' [WithMustNamespace ''ns''] = Inr (NamespacedName ''ns'' ''a'')"
proof -
  have h: "ParseNamespacedName ''a'' [WithMustNamespace ''ns''] = Inr (NamespacedName ''ns'' ''a'')"
    by (simp add: ParseNamespacedName_def WithMustNamespace_def)
  show ?thesis
    using h ParseNamespacedName_options [of "''a''" "''ns''" "(NamespacedName ''ns'' ''a'')"] by blast
qed

text \<open>\<^verbatim>\<open>MergeMaps\<close> fails exactly when the secret repeats a key of the plain map, and
  otherwise returns the union of both maps; so no plain rule is ever overridden by a secret.\<close>

theorem MergeMaps_spec:
  assumes "wf_map first" and "wf_map second"
  shows "(dom (map_of first) \<inter> dom (map_of second) = {} \<longrightarrow>
      (\<exists>dst. MergeMaps first second = Inr dst \<and> map_of dst = map_of first ++ map_of second)) \<and>
    (dom (map_of first) \<inter> dom (map_of second) \<noteq> {} \<longrightarrow>
      (\<exists>k. MergeMaps first second = Inl k \<and> k \<in> dom (map_of first) \<inter> dom (map_of second)))"
proof -
  let ?hit = "find (\<lambda>(k, v). map_of first k \<noteq> None) second"
  have run: "MergeMaps first second =
      (case ?hit of Some (k, v) \<Rightarrow> Inl k | None \<Rightarrow> Inr (mmerge (mmerge [] first) second))"
    unfolding MergeMaps_def by (rule MergeMaps_loop [OF assms(2)])
  have merged: "map_of (mmerge (mmerge [] first) second) = map_of first ++ map_of second"
    using assms by (simp add: map_of_mmerge)
  show ?thesis
  proof (cases ?hit)
    case None
    then have "dom (map_of first) \<inter> dom (map_of second) = {}"
      by (fastforce simp: find_None_iff dest: map_of_SomeD)
    with None run merged show ?thesis by simp
  next
    case (Some kv)
    obtain k v where kv: "kv = (k, v)" by (cases kv)
    with Some have "(k, v) \<in> set second" and "map_of first k \<noteq> None"
      by (auto simp: find_Some_iff in_set_conv_nth)
    then have "k \<in> dom (map_of first) \<inter> dom (map_of second)"
      using assms(2) by (auto simp: wf_map_in_set)
    with Some kv run show ?thesis by auto
  qed
qed

theorem MergeMaps_spec_witness:
  "wf_map [(''a'', ''1'')] \<and> wf_map [(''b'', ''2'')] \<and>
   (\<exists>dst. MergeMaps [(''a'', ''1'')] [(''b'', ''2'')] = Inr dst \<and>
      map_of dst = map_of [(''a'', ''1'')] ++ map_of [(''b'', ''2'')])"
proof -
  have w: "wf_map [(''a'', ''1'')]" "wf_map [(''b'', ''2'')]" by (simp_all add: wf_map_def)
  have d: "dom (map_of [(''a'', ''1'')]) \<inter> dom (map_of [(''b'', ''2'')]) = {}" by simp
  show ?thesis using w d MergeMaps_spec [OF w] by blast
qed

lemma bin_Get_Add [simp]: "bin_Get (bin_Add (WithBin ctx) es) = bin_Get ctx @ es"
  by (auto simp: bin_Get_def bin_Add_def WithBin_def split: option.splits)

lemma bin_Add_without_bin: "bin_Get (bin_Add None es) = []"
  by (simp add: bin_Get_def bin_Add_def)

lemma WithBin_idem [simp]: "WithBin (WithBin ctx) = WithBin ctx"
  by (auto simp: WithBin_def split: option.splits)

lemma SetAnnotation_lookup:
  "SetAnnotation m k v = Some m' \<Longrightarrow> map_of m' = (case m of None \<Rightarrow> Map.empty | Some a \<Rightarrow> map_of a)(k \<mapsto> v)"
  by (auto simp: SetAnnotation_def gomap_simps split: option.splits)

end
