(* ===== verification/K8s_Types.thy ===== *)
theory K8s_Types
  imports Util
begin

text \<open>
  The Kubernetes objects the controller reads, with the fields its code uses: object metadata,
  Secrets, Services, Endpoints, Ingresses and IngressClasses. A pointer field is an \<open>option\<close>;
  integers such as ports are unbounded, because the code never computes with them.
\<close>

record object_meta =
  om_kind :: string
  om_group :: string
  om_name :: string
  om_namespace :: string
  om_uid :: string
  om_generation :: int
  om_labels :: "(string, string) gomap"
  om_annotations :: "(string, string) gomap"
  om_finalizers :: "string list"
  om_deletion :: "string option"

definition GetNamespacedName :: "object_meta \<Rightarrow> namespaced_name" where
  "GetNamespacedName m = NamespacedName (om_namespace m) (om_name m)"

definition new_meta :: "string \<Rightarrow> string \<Rightarrow> string \<Rightarrow> object_meta" where
  "new_meta kind ns name = \<lparr>om_kind = kind, om_group = [], om_name = name, om_namespace = ns, om_uid = [],
     om_generation = 0, om_labels = [], om_annotations = [], om_finalizers = [], om_deletion = None\<rparr>"

subsection \<open>Secrets\<close>

record secret =
  sec_meta :: object_meta
  sec_type :: string
  sec_data :: "(string, string) gomap"

definition SecretTypeTLS :: string where "SecretTypeTLS = ''kubernetes.io/tls''"
definition SecretTypeOpaque :: string where "SecretTypeOpaque = ''Opaque''"
definition SecretTypeServiceAccountToken :: string where
  "SecretTypeServiceAccountToken = ''kubernetes.io/service-account-token''"
definition SecretTypeSSHAuth :: string where "SecretTypeSSHAuth = ''kubernetes.io/ssh-auth''"
definition TLSCertKey :: string where "TLSCertKey = ''tls.crt''"
definition TLSPrivateKeyKey :: string where "TLSPrivateKeyKey = ''tls.key''"

text \<open>Reading an absent key of a \<^verbatim>\<open>map[string][]byte\<close> gives nil, the empty byte string.\<close>

definition secret_get :: "secret \<Rightarrow> string \<Rightarrow> string" where
  "secret_get s k = mget_str (sec_data s) k"

subsection \<open>Services and endpoints\<close>

record int_or_string =
  ios_is_int :: bool
  IntVal :: int
  StrVal :: string

record service_port =
  sp_name :: string
  sp_port :: int
  sp_target :: int_or_string

record port_status =
  pst_Port :: int
  pst_Protocol :: string
  pst_Error :: "string option"

record lb_ingress =
  lb_ip :: string
  lb_hostname :: string
  lb_ports :: "port_status list"

record service =
  svc_meta :: object_meta
  svc_type :: string
  svc_external_name :: string
  svc_cluster_ip :: string
  svc_ports :: "service_port list"
  svc_lb :: "lb_ingress list"

definition ServiceTypeExternalName :: string where "ServiceTypeExternalName = ''ExternalName''"
definition ServiceTypeLoadBalancer :: string where "ServiceTypeLoadBalancer = ''LoadBalancer''"
definition ServiceTypeNodePort :: string where "ServiceTypeNodePort = ''NodePort''"

record endpoint_port =
  ep_name :: string
  ep_port :: int

record endpoint_subset =
  es_addresses :: "string list"
  es_ports :: "endpoint_port list"

record endpoints =
  eps_subsets :: "endpoint_subset list"

subsection \<open>Ingresses\<close>

datatype path_type = PathTypeExact | PathTypePrefix | PathTypeImplementationSpecific | PathTypeOther string

record backend_port =
  bp_name :: string
  bp_number :: int

record service_backend =
  sb_name :: string
  sb_port :: backend_port

record http_ingress_path =
  ip_path :: string
  ip_type :: "path_type option"
  ip_service :: "service_backend option"

record ingress_rule =
  ir_host :: string
  ir_http :: "http_ingress_path list option"

record ingress_tls =
  it_hosts :: "string list"
  it_secret :: string

record ingress =
  ing_meta :: object_meta
  ing_class :: "string option"
  ing_default_backend :: "service_backend option option"
  ing_rules :: "ingress_rule list"
  ing_tls :: "ingress_tls list"

record ingress_class =
  icl_meta :: object_meta
  icl_controller :: string

text \<open>
  \<open>ing_default_backend\<close>: the outer option is the \<^verbatim>\<open>DefaultBackend\<close> pointer, the inner one its
  \<^verbatim>\<open>Service\<close> pointer.
\<close>

end
