(* ===== verification/Route_List.thy ===== *)
theory Route_List
  imports Go_Json Go_Sort Pb_Types K8s_Types
begin

text \<open>
  \<^verbatim>\<open>pomerium/route_list.go\<close>, \<^verbatim>\<open>pomerium/routes.go\<close> and \<^verbatim>\<open>pomerium/deterministic.go\<close>: the route list of the
  configuration. Envoy takes the first route that matches, so the order is part of the meaning:
  \<open>Less\<close> puts exact paths before prefixes and longer prefixes first. Routes of one ingress are
  replaced as a group, through a map keyed by the JSON-encoded route id.
\<close>

datatype routeID = RouteID (ID_Name: string) (ID_Namespace: string) (ID_Host: string) (ID_Path: string)

datatype route_error =
    ErrDecodeRouteID string
  | ErrDuplicateRoute routeID

type_synonym routeMap = "(routeID, pb_route) gomap"

subsection \<open>Route ids as JSON\<close>

definition json_member :: "string \<Rightarrow> string \<Rightarrow> string" where
  "json_member k v = quote k @ '':'' @ quote v"

definition Marshal :: "routeID \<Rightarrow> string" where
  "Marshal r = ''{'' @ json_member ''n'' (ID_Name r) @ '','' @ json_member ''ns'' (ID_Namespace r) @ '','' @
     json_member ''h'' (ID_Host r) @ '','' @ json_member ''p'' (ID_Path r) @ ''}''"

text \<open>The decoder matches the name of a field exactly, or else up to Unicode simple folding. Besides the
  ASCII letters, the folding of the field names involves only the long s (\<open>U+017F\<close>).\<close>

fun fold_name :: "string \<Rightarrow> string" where
  "fold_name (a # b # cs) =
     (if of_char a = (197::nat) \<and> of_char b = (191::nat) then CHR ''S'' # fold_name cs
      else upper_char a # fold_name (b # cs))"
| "fold_name [a] = [upper_char a]"
| "fold_name [] = []"

definition field_of :: "string \<Rightarrow> string option" where
  "field_of k =
     (if k \<in> {''n'', ''ns'', ''h'', ''p''} then Some k
      else List.find (\<lambda>f. fold_name f = fold_name k) [''n'', ''ns'', ''h'', ''p''])"

definition set_field :: "routeID \<Rightarrow> string \<Rightarrow> string \<Rightarrow> routeID" where
  "set_field r f v =
     (case r of RouteID n ns h p \<Rightarrow>
        if f = ''n'' then RouteID v ns h p
        else if f = ''ns'' then RouteID n v h p
        else if f = ''h'' then RouteID n ns v p
        else RouteID n ns h v)"

text \<open>Storing one member: unknown keys are skipped, null leaves the field, other kinds are type errors.\<close>

definition decode_member :: "routeID \<Rightarrow> string \<times> jval \<Rightarrow> unit + routeID" where
  "decode_member r m =
     (case m of (k, v) \<Rightarrow>
        (case field_of k of None \<Rightarrow> Inr r
         | Some f \<Rightarrow> (case v of JStr s \<Rightarrow> Inr (set_field r f s) | JNull \<Rightarrow> Inr r | _ \<Rightarrow> Inl ())))"

definition Unmarshal :: "string \<Rightarrow> unit + routeID" where
  "Unmarshal txt =
     (case json_parse txt of
        Some (JObj ms) \<Rightarrow> efold decode_member (RouteID [] [] [] []) ms
      | Some JNull \<Rightarrow> Inr (RouteID [] [] [] [])
      | _ \<Rightarrow> Inl ())"

subsection \<open>Order of routes\<close>

definition Less :: "pb_route \<Rightarrow> pb_route \<Rightarrow> bool" where
  "Less a b =
     (if r_From a < r_From b then True
      else if r_From a > r_From b then False
      else if r_Path a < r_Path b then False
      else if r_Path a > r_Path b then True
      else if r_Regex a < r_Regex b then False
      else if r_Regex a > r_Regex b then True
      else if r_Prefix a < r_Prefix b then False
      else if r_Prefix a > r_Prefix b then True
      else if GetId a < GetId b then True
      else if GetId a > GetId b then False
      else False)"

definition routes_Sort :: "pb_route list \<Rightarrow> pb_route list" where
  "routes_Sort rs = sort_by Less rs"

subsection \<open>Route maps\<close>

definition toMap_step :: "routeMap \<Rightarrow> pb_route \<Rightarrow> route_error + routeMap" where
  "toMap_step m r =
     (case Unmarshal (GetId r) of
        Inl _ \<Rightarrow> Inl (ErrDecodeRouteID (GetId r))
      | Inr key \<Rightarrow>
          (if map_of m key \<noteq> None then Inl (ErrDuplicateRoute key)
           else Inr (AList.update key r m)))"

definition toMap :: "pb_route list \<Rightarrow> route_error + routeMap" where
  "toMap rs = efold toMap_step [] rs"

definition removeName :: "routeMap \<Rightarrow> namespaced_name \<Rightarrow> routeMap" where
  "removeName rm name = filter (\<lambda>(k, r). \<not> (ID_Name k = Name name \<and> ID_Namespace k = Namespace name)) rm"

definition toList :: "routeMap \<Rightarrow> pb_route list" where
  "toList rm = sort_by Less (map snd rm)"

definition merge :: "routeMap \<Rightarrow> routeMap \<Rightarrow> routeMap" where
  "merge rm src = mmerge rm src"

definition mergeRoutes :: "pb_config \<Rightarrow> pb_route list \<Rightarrow> namespaced_name \<Rightarrow> route_error + pb_config" where
  "mergeRoutes dst src name =
     ebind (toMap src) (\<lambda>srcMap.
     ebind (toMap (cfg_Routes dst)) (\<lambda>dstMap.
       Inr (dst\<lparr>cfg_Routes := toList (merge (removeName dstMap name) srcMap)\<rparr>)))"

definition deleteRoutes :: "pb_config \<Rightarrow> namespaced_name \<Rightarrow> route_error + pb_config" where
  "deleteRoutes cfg name =
     ebind (toMap (cfg_Routes cfg)) (\<lambda>rm. Inr (cfg\<lparr>cfg_Routes := toList (removeName rm name)\<rparr>))"

definition cert_id_less :: "settings_certificate \<Rightarrow> settings_certificate \<Rightarrow> bool" where
  "cert_id_less = by_key sc_Id"

definition ensureDeterministicConfigOrder :: "pb_config \<Rightarrow> pb_config" where
  "ensureDeterministicConfigOrder cfg =
     (let cfg1 = cfg\<lparr>cfg_Routes := routes_Sort (cfg_Routes cfg)\<rparr> in
      case cfg_Settings cfg1 of
        None \<Rightarrow> cfg1
      | Some s \<Rightarrow>
          if length (st_Certificates s) > 0
          then cfg1\<lparr>cfg_Settings := Some (s\<lparr>st_Certificates := sort_by cert_id_less (st_Certificates s)\<rparr>)\<rparr>
          else cfg1)"

subsection \<open>Ids survive encoding and decoding\<close>

lemma quote_append: "quote s @ t = quote_char # escape s @ quote_char # t"
  by (simp add: quote_def)

lemma skip_ws_quote: "skip_ws (quote_char # t) = quote_char # t"
  by (simp add: skip_ws_def quote_char_def)

lemma parse_string:
  assumes "valid_utf8 v"
  shows "parse_value (Suc f) d (quote v @ t) = Some (JStr v, t)"
proof -
  let ?s = "quote_char # escape v @ quote_char # t"
  have "expect (CHR ''{'') ?s = None" "expect (CHR ''['') ?s = None"
    by (simp_all add: expect_def quote_char_def)
  moreover have "\<not> HasPrefix ?s ''null''" "\<not> HasPrefix ?s ''true''" "\<not> HasPrefix ?s ''false''"
    by (simp_all add: HasPrefix_iff quote_char_def)
  moreover have "expect quote_char ?s = Some (escape v @ quote_char # t)" by (simp add: expect_def)
  ultimately show ?thesis
    by (simp add: quote_append skip_ws_quote parse_scalar_def unquote_escape [OF assms])
qed

lemma parse_member:
  assumes "valid_utf8 k" "valid_utf8 v"
  shows "parse_members (Suc (Suc f)) d (json_member k v @ t) =
    (case expect (CHR '','') (skip_ws t) of
       Some t' \<Rightarrow> map_option (\<lambda>(ms, r). ((k, JStr v) # ms, r)) (parse_members (Suc f) d t')
     | None \<Rightarrow> map_option (\<lambda>r. ([(k, JStr v)], r)) (expect (CHR ''}'') (skip_ws t)))"
proof -
  have "expect quote_char (skip_ws (json_member k v @ t)) = Some (escape k @ quote_char # CHR '':'' # quote v @ t)"
    by (simp add: json_member_def quote_append skip_ws_quote expect_def)
  moreover have "expect (CHR '':'') (skip_ws (CHR '':'' # quote v @ t)) = Some (quote v @ t)"
    by (simp add: skip_ws_def expect_def)
  ultimately show ?thesis
    unfolding parse_members.simps(2) [of "Suc f"]
    by (simp add: unquote_escape [OF assms(1)] parse_string [OF assms(2)] del: parse_members.simps parse_value.simps)
qed

lemma Unmarshal_Marshal:
  assumes "valid_utf8 (ID_Name r)" "valid_utf8 (ID_Namespace r)" "valid_utf8 (ID_Host r)" "valid_utf8 (ID_Path r)"
  shows "Unmarshal (Marshal r) = Inr r"
proof -
  have keys: "valid_utf8 ''n''" "valid_utf8 ''ns''" "valid_utf8 ''h''" "valid_utf8 ''p''" by code_simp+
  have skip: "skip_ws (CHR '','' # t) = CHR '','' # t" "skip_ws (CHR ''}'' # t) = CHR ''}'' # t"
    "skip_ws (CHR ''{'' # t) = CHR ''{'' # t" "skip_ws [] = []" for t
    by (simp_all add: skip_ws_def)
  have exp: "expect c (c # t) = Some t" "expect (CHR '','') (CHR ''}'' # t) = None"
    "expect (CHR ''}'') (skip_ws (json_member k v @ t)) = None" for c t k v
    by (simp_all add: expect_def json_member_def quote_append skip_ws_quote quote_char_def [symmetric])
      (simp add: quote_char_def)
  have "5 \<le> length (Marshal r)" by (simp add: Marshal_def json_member_def quote_def)
  then have "json_fuel (Marshal r) \<ge> 6" by (simp add: json_fuel_def)
  then obtain f where "json_fuel (Marshal r) = 6 + f" using le_Suc_ex by blast
  then have fuel: "json_fuel (Marshal r) = Suc (Suc (Suc (Suc (Suc (Suc f)))))" by simp
  have "json_parse (Marshal r) =
      Some (JObj [(''n'', JStr (ID_Name r)), (''ns'', JStr (ID_Namespace r)), (''h'', JStr (ID_Host r)), (''p'', JStr (ID_Path r))])"
    unfolding json_parse_def fuel parse_value.simps(2)
    by (simp add: Marshal_def skip exp max_depth_def parse_member assms keys del: parse_members.simps parse_value.simps)
  then show ?thesis
    by (cases r) (simp add: Unmarshal_def decode_member_def field_of_def set_field_def ebind_def)
qed

subsection \<open>\<open>Less\<close> is an order, and ids tell routes apart\<close>

lemma Less_then_by:
  "Less = then_by (by_key r_From) (then_by (by_key_desc r_Path) (then_by (by_key_desc r_Regex)
     (then_by (by_key_desc r_Prefix) (by_key GetId))))"
  by (intro ext) (auto simp: Less_def then_by_def by_key_def by_key_desc_def)

interpretation ro: less_order Less
  unfolding Less_then_by
  by (intro less_order_then_by less_order_by_key less_order_by_key_desc)

lemma Less_total: "GetId a \<noteq> GetId b \<Longrightarrow> Less a b \<or> Less b a"
  by (auto simp: Less_def)

lemma discriminates_ids: "inj_on GetId A \<Longrightarrow> ro.discriminates A"
  unfolding ro.discriminates_def inj_on_def using Less_total by blast

subsection \<open>Route maps as lists of routes with distinct keys\<close>

definition route_key :: "pb_route \<Rightarrow> routeID option" where
  "route_key r = (case Unmarshal (GetId r) of Inl _ \<Rightarrow> None | Inr k \<Rightarrow> Some k)"

definition routes_ok :: "pb_route list \<Rightarrow> bool" where
  "routes_ok rs \<longleftrightarrow> (\<forall>r \<in> set rs. route_key r \<noteq> None) \<and> distinct (map route_key rs)"

definition keyed :: "pb_route list \<Rightarrow> routeMap" where
  "keyed rs = map (\<lambda>r. (the (route_key r), r)) rs"

definition owned_by :: "namespaced_name \<Rightarrow> pb_route \<Rightarrow> bool" where
  "owned_by name r \<longleftrightarrow>
     (case route_key r of None \<Rightarrow> False | Some k \<Rightarrow> ID_Name k = Name name \<and> ID_Namespace k = Namespace name)"

lemma map_snd_keyed [simp]: "map snd (keyed rs) = rs"
  by (simp add: keyed_def comp_def)

lemma keyed_append: "keyed (xs @ ys) = keyed xs @ keyed ys"
  by (simp add: keyed_def)

lemma keyed_filter: "filter (\<lambda>(k, r). P r) (keyed rs) = keyed (filter P rs)"
  by (simp add: keyed_def filter_map comp_def)

lemma route_key_Some: "route_key r = Some k \<longleftrightarrow> Unmarshal (GetId r) = Inr k"
  by (auto simp: route_key_def split: sum.splits)

lemma inj_GetId: "distinct (map route_key rs) \<Longrightarrow> inj_on GetId (set rs)"
  by (metis (mono_tags, lifting) distinct_map inj_on_def route_key_def)

lemma discriminates_ok: "routes_ok rs \<Longrightarrow> ro.discriminates (set rs)"
  unfolding routes_ok_def by (simp add: discriminates_ids inj_GetId)

lemma wf_keyed: "routes_ok rs \<Longrightarrow> wf_map (keyed rs)"
proof -
  assume ok: "routes_ok rs"
  then have "map route_key rs = map Some (map fst (keyed rs))" by (auto simp: keyed_def routes_ok_def)
  then show ?thesis using ok unfolding wf_map_def routes_ok_def by (metis distinct_map)
qed

lemma in_keyed: "routes_ok rs \<Longrightarrow> (k, r) \<in> set (keyed rs) \<Longrightarrow> route_key r = Some k"
  by (auto simp: keyed_def routes_ok_def)

lemma update_new_key: "map_of m k = None \<Longrightarrow> AList.update k v m = m @ [(k, v)]"
  by (induction m) (auto split: if_splits)

lemma toMap_acc:
  assumes "routes_ok acc"
  shows "efold toMap_step (keyed acc) rs = Inr m \<longleftrightarrow> routes_ok (acc @ rs) \<and> m = keyed (acc @ rs)"
  using assms
proof (induction rs arbitrary: acc)
  case (Cons r rs)
  show ?case
  proof (cases "Unmarshal (GetId r)")
    case (Inl e)
    then have "route_key r = None" by (simp add: route_key_def)
    with Inl show ?thesis by (auto simp: toMap_step_def routes_ok_def)
  next
    case (Inr k)
    then have k: "route_key r = Some k" by (simp add: route_key_def)
    have "map_of (keyed acc) k = None \<longleftrightarrow> route_key r \<notin> set (map route_key acc)"
    proof -
      have "k = the (route_key x) \<longleftrightarrow> route_key r = route_key x" if "x \<in> set acc" for x
        using that Cons.prems k by (auto simp: routes_ok_def)
      then show ?thesis by (auto simp: keyed_def map_of_eq_None_iff image_iff)
    qed
    moreover have "keyed (acc @ [r]) = keyed acc @ [(k, r)]" by (simp add: keyed_def k)
    moreover have "routes_ok (acc @ [r]) \<longleftrightarrow> route_key r \<notin> set (map route_key acc)"
      using Cons.prems k by (auto simp: routes_ok_def)
    ultimately show ?thesis
      using Cons.IH [of "acc @ [r]"] Inr
      by (auto simp: toMap_step_def update_new_key routes_ok_def)
  qed
qed auto

lemma toMap_iff: "toMap rs = Inr m \<longleftrightarrow> routes_ok rs \<and> m = keyed rs"
  using toMap_acc [of "[]" rs m] by (simp add: toMap_def keyed_def routes_ok_def)

lemma toMap_ok [simp]: "routes_ok rs \<Longrightarrow> toMap rs = Inr (keyed rs)"
  by (simp add: toMap_iff)

lemma toMap_bad: "\<not> routes_ok rs \<Longrightarrow> \<exists>e. toMap rs = Inl e"
  by (cases "toMap rs") (auto simp: toMap_iff)

lemma removeName_keyed:
  assumes "routes_ok rs"
  shows "removeName (keyed rs) name = keyed (filter (\<lambda>r. \<not> owned_by name r) rs)"
proof -
  have "removeName (keyed rs) name = filter (\<lambda>(k, r). \<not> owned_by name r) (keyed rs)"
    unfolding removeName_def
    by (rule filter_cong) (use assms in \<open>auto simp: keyed_def owned_by_def routes_ok_def\<close>)
  then show ?thesis by (simp add: keyed_filter)
qed

lemma routes_ok_filter: "routes_ok rs \<Longrightarrow> routes_ok (filter P rs)"
  by (auto simp: routes_ok_def distinct_map_filter)

lemma routes_ok_perm: "mset rs = mset rs' \<Longrightarrow> routes_ok rs = routes_ok rs'"
proof -
  assume eq: "mset rs = mset rs'"
  then have "mset (map route_key rs) = mset (map route_key rs')" by simp
  then have "distinct (map route_key rs) = distinct (map route_key rs')" by (rule mset_eq_imp_distinct_iff)
  then show ?thesis using mset_eq_setD [OF eq] by (simp add: routes_ok_def)
qed

text \<open>The routes that survive when the routes \<open>src\<close> of the ingress \<open>name\<close> replace its old ones.\<close>

definition kept :: "namespaced_name \<Rightarrow> pb_route list \<Rightarrow> pb_route list \<Rightarrow> pb_route list" where
  "kept name src dst = filter (\<lambda>r. \<not> owned_by name r \<and> route_key r \<notin> set (map route_key src)) dst"

lemma routes_ok_merge: "routes_ok dst \<Longrightarrow> routes_ok src \<Longrightarrow> routes_ok (kept name src dst @ src)"
  by (auto simp: routes_ok_def kept_def distinct_map_filter)

lemma merge_keyed:
  assumes "routes_ok dst" "routes_ok src"
  shows "mset (map snd (merge (removeName (keyed dst) name) (keyed src))) = mset (kept name src dst @ src)"
proof -
  let ?d = "filter (\<lambda>r. \<not> owned_by name r) dst"
  have wf: "wf_map (keyed ?d)" "wf_map (keyed src)"
    using assms by (simp_all add: wf_keyed routes_ok_filter)
  have none: "map_of (keyed src) k = None \<longleftrightarrow> Some k \<notin> set (map route_key src)" for k
  proof -
    have "k = the (route_key x) \<longleftrightarrow> Some k = route_key x" if "x \<in> set src" for x
      using that assms(2) by (auto simp: routes_ok_def)
    then show ?thesis by (auto simp: keyed_def map_of_eq_None_iff image_iff)
  qed
  have "keyed (kept name src dst) = filter (\<lambda>(k, r). map_of (keyed src) k = None) (keyed ?d)"
  proof -
    have "keyed (kept name src dst) = filter (\<lambda>(k, r). route_key r \<notin> set (map route_key src)) (keyed ?d)"
      by (simp add: keyed_filter kept_def conj_commute)
    also have "\<dots> = filter (\<lambda>(k, r). map_of (keyed src) k = None) (keyed ?d)"
      by (rule filter_cong [OF refl])
        (use in_keyed [OF routes_ok_filter [OF assms(1)]] in \<open>fastforce simp: none\<close>)
    finally show ?thesis .
  qed
  then have left: "map_of (keyed (kept name src dst)) k =
      (if map_of (keyed src) k = None then map_of (keyed ?d) k else None)" for k
    by (simp add: map_of_filter_key [OF wf(1)] split: option.split)
  have "same_map (mmerge (keyed ?d) (keyed src)) (keyed (kept name src dst @ src))"
    unfolding same_map_def
    using wf wf_keyed [OF routes_ok_merge [OF assms, of name]]
    by (auto simp: map_of_mmerge keyed_append map_add_def fun_eq_iff left split: option.split)
  from same_map_mset [OF this] show ?thesis
    unfolding merge_def removeName_keyed [OF assms(1)] by (metis map_snd_keyed mset_map)
qed

lemma mergeRoutes_ok:
  assumes "routes_ok (cfg_Routes dst)" "routes_ok src"
  shows "mergeRoutes dst src name = Inr (dst\<lparr>cfg_Routes := routes_Sort (kept name src (cfg_Routes dst) @ src)\<rparr>)"
proof -
  let ?m = "map snd (merge (removeName (keyed (cfg_Routes dst)) name) (keyed src))"
  have m: "mset ?m = mset (kept name src (cfg_Routes dst) @ src)" by (rule merge_keyed [OF assms])
  then have "routes_ok ?m" using routes_ok_merge [OF assms] routes_ok_perm by blast
  then have "sort_by Less ?m = sort_by Less (kept name src (cfg_Routes dst) @ src)"
    using m by (intro ro.sort_by_cong discriminates_ok)
  then show ?thesis using assms by (simp add: mergeRoutes_def toList_def routes_Sort_def)
qed

lemma deleteRoutes_ok:
  "routes_ok (cfg_Routes cfg) \<Longrightarrow>
     deleteRoutes cfg name = Inr (cfg\<lparr>cfg_Routes := routes_Sort (filter (\<lambda>r. \<not> owned_by name r) (cfg_Routes cfg))\<rparr>)"
  by (simp add: deleteRoutes_def removeName_keyed toList_def routes_Sort_def)

lemma set_routes_Sort [simp]: "set (routes_Sort rs) = set rs"
  by (simp add: routes_Sort_def)

lemma routes_ok_Sort [simp]: "routes_ok (routes_Sort rs) = routes_ok rs"
  by (rule routes_ok_perm) (simp add: routes_Sort_def)

lemma routes_Sort_cong: "mset xs = mset ys \<Longrightarrow> routes_ok xs \<Longrightarrow> routes_Sort xs = routes_Sort ys"
  unfolding routes_Sort_def by (intro ro.sort_by_cong discriminates_ok)

subsection \<open>First match is the most specific match\<close>

text \<open>How Envoy matches the path of a request against one route, with the regular expression engine as a
  parameter: the exact path if there is one, else the regular expression, else the prefix.\<close>

definition path_matches :: "(string \<Rightarrow> string \<Rightarrow> bool) \<Rightarrow> pb_route \<Rightarrow> string \<Rightarrow> bool" where
  "path_matches re r path \<longleftrightarrow>
     (if r_Path r \<noteq> [] then path = r_Path r
      else if r_Regex r \<noteq> [] then re (r_Regex r) path
      else HasPrefix path (r_Prefix r))"

definition as_specific :: "pb_route \<Rightarrow> pb_route \<Rightarrow> bool" where
  "as_specific a b \<longleftrightarrow>
     r_Path a \<noteq> [] \<or>
     r_Path b = [] \<and> (r_Regex a \<noteq> [] \<or> r_Regex b = [] \<and> length (r_Prefix b) \<le> length (r_Prefix a))"

lemma Nil_least: "\<not> (s :: string) < []"
  by simp

lemma strict_prefix_less: "(t :: string) \<noteq> [] \<Longrightarrow> s < s @ t"
  by (induction s) (auto simp: neq_Nil_conv)

lemma not_less_as_specific:
  assumes "\<not> Less b a" "r_From a = r_From b" "path_matches re a path" "path_matches re b path"
  shows "as_specific a b"
proof (cases "r_Path a = []")
  case True
  then have pb: "r_Path b = []" using assms(1,2) by (cases "r_Path b") (auto simp: Less_def)
  show ?thesis
  proof (cases "r_Regex a = []")
    case regex: True
    then have rb: "r_Regex b = []" using assms(1,2) True pb by (cases "r_Regex b") (auto simp: Less_def)
    have "\<not> r_Prefix b > r_Prefix a" using assms(1,2) True pb regex rb by (simp add: Less_def split: if_splits)
    moreover have "HasPrefix path (r_Prefix a)" "HasPrefix path (r_Prefix b)"
      using assms(3,4) True pb regex rb by (simp_all add: path_matches_def)
    then obtain x y where xy: "path = r_Prefix a @ x" "path = r_Prefix b @ y"
      unfolding HasPrefix_iff by blast
    then obtain t where "r_Prefix b = r_Prefix a @ t \<or> r_Prefix a = r_Prefix b @ t"
      using append_eq_append_conv2 [of "r_Prefix a" x "r_Prefix b" y] by metis
    ultimately have "length (r_Prefix b) \<le> length (r_Prefix a)"
      using strict_prefix_less [of t "r_Prefix a"] by (cases "t = []") auto
    then show ?thesis using pb rb by (simp add: as_specific_def)
  qed (simp add: as_specific_def pb)
qed (simp add: as_specific_def)

lemma find_sorted_first:
  "sorted_by lt xs \<Longrightarrow> List.find P xs = Some a \<Longrightarrow> b \<in> set xs \<Longrightarrow> P b \<Longrightarrow> b = a \<or> \<not> lt b a"
  by (induction xs) (auto simp: sorted_by_def split: if_splits)

subsection \<open>Properties\<close>

text \<open>C4: in the sorted route list, the first route of a host that matches a path is at least as specific
  as every other matching route of the host: an exact path wins over a regular expression, that over a
  prefix, and among prefixes the longest one wins.\<close>

theorem routes_Sort_first_match:
  assumes "List.find (\<lambda>r. r_From r = from \<and> path_matches re r path) (routes_Sort rs) = Some a"
    and "b \<in> set rs" "r_From b = from" "path_matches re b path"
  shows "a \<in> set rs \<and> as_specific a b"
proof -
  have a: "a \<in> set (routes_Sort rs)" "r_From a = from" "path_matches re a path"
    using assms(1) by (auto simp: find_Some_iff simp del: set_routes_Sort)
  have "b = a \<or> \<not> Less b a"
    using find_sorted_first [OF ro.sorted_sort_by [of rs]] assms by (fastforce simp: routes_Sort_def)
  then have "as_specific a b"
    using not_less_as_specific [of b a re path] assms a ro.irrefl by metis
  then show ?thesis using a(1) by (simp add: routes_Sort_def)
qed

definition ex_route :: "string \<Rightarrow> string \<Rightarrow> string \<Rightarrow> string \<Rightarrow> pb_route" where
  "ex_route name host path prefix =
     new_route\<lparr>r_Id := Some (Marshal (RouteID name ''ns'' host (path @ prefix))), r_From := ''https://'' @ host,
       r_Path := path, r_Prefix := prefix\<rparr>"

definition ex_routes :: "pb_route list" where
  "ex_routes = [ex_route ''a'' ''h'' [] ''/'', ex_route ''b'' ''h'' [] ''/api'', ex_route ''c'' ''h'' ''/api/v1'' []]"

theorem routes_Sort_first_match_witness:
  "as_specific (ex_route ''b'' ''h'' [] ''/api'') (ex_route ''a'' ''h'' [] ''/'')"
proof -
  have "List.find (\<lambda>r. r_From r = ''https://h'' \<and> path_matches (\<lambda>_ _. False) r ''/api/v2'') (routes_Sort ex_routes) =
      Some (ex_route ''b'' ''h'' [] ''/api'')"
    by code_simp
  moreover have "ex_route ''a'' ''h'' [] ''/'' \<in> set ex_routes" by (simp add: ex_routes_def)
  moreover have "r_From (ex_route ''a'' ''h'' [] ''/'') = ''https://h''" by code_simp
  moreover have "path_matches (\<lambda>_ _. False) (ex_route ''a'' ''h'' [] ''/'') ''/api/v2''" by code_simp
  ultimately show ?thesis using routes_Sort_first_match by blast
qed

text \<open>Merging the routes of an ingress fails exactly when the ids of the new or of the current routes
  do not decode to distinct route ids; otherwise the result holds the new routes and exactly those old
  routes that neither belong to the ingress nor share an id with a new route, in sorted order.\<close>

theorem mergeRoutes_spec:
  "(case mergeRoutes dst src name of
      Inl _ \<Rightarrow> \<not> (routes_ok src \<and> routes_ok (cfg_Routes dst))
    | Inr cfg \<Rightarrow>
        routes_ok src \<and> routes_ok (cfg_Routes dst) \<and> routes_ok (cfg_Routes cfg) \<and>
        cfg_Settings cfg = cfg_Settings dst \<and> sorted_by Less (cfg_Routes cfg) \<and>
        set (cfg_Routes cfg) = set src \<union>
          {r \<in> set (cfg_Routes dst). \<not> owned_by name r \<and> route_key r \<notin> route_key ` set src})"
proof (cases "routes_ok src \<and> routes_ok (cfg_Routes dst)")
  case True
  then show ?thesis
    using mergeRoutes_ok [of dst src name] routes_ok_merge [of "cfg_Routes dst" src name]
    by (auto simp: routes_Sort_def [symmetric] kept_def ro.sorted_sort_by)
      (auto simp: routes_Sort_def ro.sorted_sort_by)
next
  case False
  then have "\<exists>e. mergeRoutes dst src name = Inl e"
    using toMap_bad [of src] toMap_bad [of "cfg_Routes dst"] unfolding mergeRoutes_def
    by (cases "toMap src"; cases "toMap (cfg_Routes dst)") auto
  with False show ?thesis by auto
qed

text \<open>The sorted route list does not depend on the order in which Go visits a route map nor on the
  sorting algorithm: two listings of one map, keyed by the ids of their routes, and every sorted
  permutation of the routes give the same list.\<close>

theorem toList_deterministic:
  assumes "same_map rm rm'" and "\<forall>(k, r) \<in> set rm. Unmarshal (GetId r) = Inr k"
    and "sorted_by Less rs" "mset rs = mset (map snd rm')"
  shows "toList rm = toList rm' \<and> rs = toList rm"
proof -
  have "wf_map rm" using assms(1) by (simp add: same_map_def)
  have key: "map route_key (map snd rm) = map Some (map fst rm)"
    using assms(2) by (auto simp: route_key_Some)
  have "distinct (map Some (map fst rm))" using \<open>wf_map rm\<close> by (simp add: wf_map_def distinct_map inj_on_def)
  then have d: "ro.discriminates (set (map snd rm))"
    using key by (metis discriminates_ids inj_GetId)
  have m: "mset (map snd rm) = mset (map snd rm')" using same_map_mset [OF assms(1)] by simp
  have "toList rm = toList rm'" unfolding toList_def using d m by (rule ro.sort_by_cong)
  moreover have "rs = toList rm" unfolding toList_def
    by (rule ro.sort_by_unique [OF d assms(3)]) (simp only: assms(4) m)
  ultimately show ?thesis by simp
qed

theorem toList_deterministic_witness:
  "toList (keyed ex_routes) = toList (rev (keyed ex_routes))"
proof -
  have "routes_ok ex_routes" unfolding routes_ok_def by code_simp
  then have wf: "wf_map (keyed ex_routes)" by (rule wf_keyed)
  then have same: "same_map (keyed ex_routes) (rev (keyed ex_routes))"
    by (rule same_mapI) simp
  have "\<forall>(k, r) \<in> set (keyed ex_routes). Unmarshal (GetId r) = Inr k"
    using in_keyed [OF \<open>routes_ok ex_routes\<close>] route_key_Some by blast
  then show ?thesis
    using toList_deterministic [OF same _ ro.sorted_sort_by mset_sort_by] by blast
qed

lemma mset_routes_Sort [simp]: "mset (routes_Sort xs) = mset xs"
  by (simp add: routes_Sort_def)

lemma owned_by_unique: "owned_by n r \<Longrightarrow> owned_by n' r \<Longrightarrow> n = n'"
  by (cases n; cases n') (auto simp: owned_by_def split: option.splits)

lemma kept_owned:
  "\<forall>r \<in> set src. owned_by name r \<Longrightarrow> kept name src dst = filter (\<lambda>r. \<not> owned_by name r) dst"
  unfolding kept_def by (intro filter_cong) (auto simp: owned_by_def split: option.splits)

lemma mergeRoutes_owned:
  assumes "routes_ok (cfg_Routes dst)" "routes_ok src" "\<forall>r \<in> set src. owned_by name r"
  shows "mergeRoutes dst src name =
      Inr (dst\<lparr>cfg_Routes := routes_Sort (filter (\<lambda>r. \<not> owned_by name r) (cfg_Routes dst) @ src)\<rparr>)"
    and "routes_ok (filter (\<lambda>r. \<not> owned_by name r) (cfg_Routes dst) @ src)"
  using mergeRoutes_ok [OF assms(1,2), of name] routes_ok_merge [OF assms(1,2), of name] kept_owned [OF assms(3)]
  by simp_all

text \<open>The configuration does not depend on the order in which two different ingresses are merged.\<close>

theorem mergeRoutes_commute:
  assumes "routes_ok (cfg_Routes dst)" "routes_ok srcA" "routes_ok srcB"
    and "\<forall>r \<in> set srcA. owned_by nA r" "\<forall>r \<in> set srcB. owned_by nB r" "nA \<noteq> nB"
  shows "\<exists>cfg. ebind (mergeRoutes dst srcA nA) (\<lambda>c. mergeRoutes c srcB nB) = Inr cfg \<and>
    ebind (mergeRoutes dst srcB nB) (\<lambda>c. mergeRoutes c srcA nA) = Inr cfg"
proof -
  let ?A = "filter (\<lambda>r. \<not> owned_by nA r) (cfg_Routes dst) @ srcA"
  let ?B = "filter (\<lambda>r. \<not> owned_by nB r) (cfg_Routes dst) @ srcB"
  let ?cA = "dst\<lparr>cfg_Routes := routes_Sort ?A\<rparr>" and ?cB = "dst\<lparr>cfg_Routes := routes_Sort ?B\<rparr>"
  note mA = mergeRoutes_owned [OF assms(1,2,4)] and mB = mergeRoutes_owned [OF assms(1,3,5)]
  have "routes_ok (cfg_Routes ?cA)" "routes_ok (cfg_Routes ?cB)" using mA(2) mB(2) by simp_all
  note mAB = mergeRoutes_owned [OF this(1) assms(3,5)] and mBA = mergeRoutes_owned [OF this(2) assms(2,4)]
  have "filter (\<lambda>r. \<not> owned_by nB r) srcA = srcA" "filter (\<lambda>r. \<not> owned_by nA r) srcB = srcB"
    using assms(4-6) owned_by_unique by (fastforce intro: filter_True)+
  then have f: "filter_mset (\<lambda>r. \<not> owned_by nB r) (mset srcA) = mset srcA"
    "filter_mset (\<lambda>r. \<not> owned_by nA r) (mset srcB) = mset srcB"
    by (metis mset_filter)+
  have "mset (filter (\<lambda>r. \<not> owned_by nB r) (routes_Sort ?A) @ srcB) =
      mset (filter (\<lambda>r. \<not> owned_by nA r) (routes_Sort ?B) @ srcA)"
    by (simp add: f filter_filter_mset conj_commute)
  then have "routes_Sort (filter (\<lambda>r. \<not> owned_by nB r) (routes_Sort ?A) @ srcB) =
      routes_Sort (filter (\<lambda>r. \<not> owned_by nA r) (routes_Sort ?B) @ srcA)"
    using mAB(2) by (intro routes_Sort_cong) simp_all
  then show ?thesis using mA(1) mB(1) mAB(1) mBA(1) by simp
qed

definition ex_config :: pb_config where
  "ex_config = new_config\<lparr>cfg_Routes := ex_routes\<rparr>"

lemma ex_ok: "routes_ok (cfg_Routes ex_config)" "routes_ok [ex_route ''b'' ''h'' [] ''/new'']"
  "routes_ok [ex_route ''d'' ''x'' [] ''/'']"
  unfolding routes_ok_def by code_simp+

lemma ex_owned: "\<forall>r \<in> set [ex_route ''b'' ''h'' [] ''/new'']. owned_by (NamespacedName ''ns'' ''b'') r"
  "\<forall>r \<in> set [ex_route ''d'' ''x'' [] ''/'']. owned_by (NamespacedName ''ns'' ''d'') r"
  by code_simp+

theorem mergeRoutes_commute_witness:
  "\<exists>cfg. ebind (mergeRoutes ex_config [ex_route ''b'' ''h'' [] ''/new''] (NamespacedName ''ns'' ''b''))
      (\<lambda>c. mergeRoutes c [ex_route ''d'' ''x'' [] ''/''] (NamespacedName ''ns'' ''d'')) = Inr cfg \<and>
    ebind (mergeRoutes ex_config [ex_route ''d'' ''x'' [] ''/''] (NamespacedName ''ns'' ''d''))
      (\<lambda>c. mergeRoutes c [ex_route ''b'' ''h'' [] ''/new''] (NamespacedName ''ns'' ''b'')) = Inr cfg"
  using mergeRoutes_commute [OF ex_ok ex_owned] by simp

lemma delete_after_merge:
  assumes "routes_ok (cfg_Routes dst)" "routes_ok src" "\<forall>r \<in> set src. owned_by name r"
  shows "ebind (mergeRoutes dst src name) (\<lambda>c. deleteRoutes c name) = deleteRoutes dst name \<and>
    deleteRoutes dst name =
      Inr (dst\<lparr>cfg_Routes := routes_Sort (filter (\<lambda>r. \<not> owned_by name r) (cfg_Routes dst))\<rparr>)"
proof -
  let ?A = "filter (\<lambda>r. \<not> owned_by name r) (cfg_Routes dst) @ src"
  note m = mergeRoutes_owned [OF assms]
  have "filter (\<lambda>r. \<not> owned_by name r) src = []" using assms(3) by (simp add: filter_empty_conv)
  then have "filter_mset (\<lambda>r. \<not> owned_by name r) (mset src) = {#}" by (metis mset.simps(1) mset_filter)
  then have "mset (filter (\<lambda>r. \<not> owned_by name r) (routes_Sort ?A)) =
      mset (filter (\<lambda>r. \<not> owned_by name r) (cfg_Routes dst))"
    by (simp add: filter_filter_mset)
  then have "routes_Sort (filter (\<lambda>r. \<not> owned_by name r) (routes_Sort ?A)) =
      routes_Sort (filter (\<lambda>r. \<not> owned_by name r) (cfg_Routes dst))"
    using m(2) by (intro routes_Sort_cong) (simp_all add: routes_ok_filter)
  then show ?thesis using m deleteRoutes_ok assms(1) by simp
qed

text \<open>Deleting an ingress after merging it leaves what deleting it before would have left: every trace
  of its routes is gone and no other route is affected.\<close>

theorem deleteRoutes_after_merge:
  assumes "routes_ok (cfg_Routes dst)" "routes_ok src" "\<forall>r \<in> set src. owned_by name r"
  shows "ebind (mergeRoutes dst src name) (\<lambda>c. deleteRoutes c name) = deleteRoutes dst name \<and>
    deleteRoutes dst name =
      Inr (dst\<lparr>cfg_Routes := routes_Sort (filter (\<lambda>r. \<not> owned_by name r) (cfg_Routes dst))\<rparr>)"
  by (rule delete_after_merge [OF assms])

theorem deleteRoutes_after_merge_witness:
  "ebind (mergeRoutes ex_config [ex_route ''b'' ''h'' [] ''/new''] (NamespacedName ''ns'' ''b''))
     (\<lambda>c. deleteRoutes c (NamespacedName ''ns'' ''b'')) = deleteRoutes ex_config (NamespacedName ''ns'' ''b'')"
  using deleteRoutes_after_merge [OF ex_ok(1,2) ex_owned(1)] by blast

text \<open>C20: a route id survives its JSON encoding: decoding the marshalled text gives the id back, whatever
  quotes, control, HTML or multi-byte characters its fields hold, as long as they are valid UTF-8; so
  different ids have different texts.\<close>

theorem routeID_round_trip:
  assumes "\<forall>s \<in> {ID_Name r, ID_Namespace r, ID_Host r, ID_Path r}. valid_utf8 s"
  shows "Unmarshal (Marshal r) = Inr r"
  using assms Unmarshal_Marshal by simp

theorem routeID_round_trip_witness:
  "Unmarshal (Marshal (RouteID ''a'' ''ns'' ''*.b'' (''/x<>&'' @ bytes [34, 92, 10, 226, 128, 168, 195, 169]))) =
     Inr (RouteID ''a'' ''ns'' ''*.b'' (''/x<>&'' @ bytes [34, 92, 10, 226, 128, 168, 195, 169]))"
proof -
  have "valid_utf8 ''a''" "valid_utf8 ''ns''" "valid_utf8 ''*.b''"
    "valid_utf8 (''/x<>&'' @ bytes [34, 92, 10, 226, 128, 168, 195, 169])"
    by code_simp+
  then show ?thesis by (intro routeID_round_trip) simp
qed

end
