(* ===== verification/Cert_Map.thy ===== *)
theory Cert_Map
  imports Route_List
begin

text \<open>
  \<^verbatim>\<open>pomerium/cert_map.go\<close> and \<^verbatim>\<open>pomerium/certs.go\<close>: which certificates of the configuration its routes need.
  The code shares one \<^verbatim>\<open>certRef\<close> between all the domains of a certificate and marks it in place; the
  model keeps the references in a store (a list, a reference is its index) and maps domains to indices.
  The decoders of \<^verbatim>\<open>encoding/pem\<close>, \<^verbatim>\<open>crypto/x509\<close> and \<^verbatim>\<open>net/url\<close> are the record \<open>cert_env\<close>.
\<close>

record x509_cert =
  DNSNames :: "string list"
  NotAfter :: int
  ServerAuth :: bool

record pem_block =
  pem_Type :: string
  pem_Headers :: "(string, string) gomap"
  pem_Bytes :: string

record cert_env =
  env_pem_decode :: "string \<Rightarrow> (pem_block \<times> string) option"
  env_x509_parse :: "string \<Rightarrow> x509_cert option"
  env_url_hostname :: "string \<Rightarrow> string option"

datatype cert_error =
    ErrNoCertBlock
  | ErrBlockType string
  | ErrX509
  | ErrParseFrom string
  | ErrParseAuthenticateURL string

datatype domainKey = DomainKey (dk_Host: string) (dk_Domain: string)

definition parseDomainKey :: "string \<Rightarrow> domainKey" where
  "parseDomainKey dnsName =
     (case Cut dnsName (CHR ''.'') of (h, d, found) \<Rightarrow> if \<not> found then DomainKey dnsName [] else DomainKey h d)"

record certRef =
  inUse :: bool
  cr_data :: settings_certificate
  cr_cert :: x509_cert

record domainMap =
  dm_keys :: "(domainKey, nat) gomap"
  dm_refs :: "certRef list"

definition parseCert :: "cert_env \<Rightarrow> settings_certificate \<Rightarrow> cert_error + x509_cert" where
  "parseCert C cert =
     (case env_pem_decode C (sc_CertBytes cert) of
        None \<Rightarrow> Inl ErrNoCertBlock
      | Some (block, _) \<Rightarrow>
          if pem_Type block \<noteq> ''CERTIFICATE'' then Inl (ErrBlockType (pem_Type block))
          else (case env_x509_parse C (pem_Bytes block) of None \<Rightarrow> Inl ErrX509 | Some crt \<Rightarrow> Inr crt))"

definition addIfNewer :: "certRef list \<Rightarrow> nat \<Rightarrow> (domainKey, nat) gomap \<Rightarrow> domainKey \<Rightarrow> (domainKey, nat) gomap" where
  "addIfNewer refs i m key =
     (case map_of m key of
        None \<Rightarrow> AList.update key i m
      | Some cur \<Rightarrow>
          if NotAfter (cr_cert (refs ! cur)) < NotAfter (cr_cert (refs ! i)) then AList.update key i m else m)"

definition dm_add :: "domainMap \<Rightarrow> settings_certificate \<Rightarrow> x509_cert \<Rightarrow> domainMap" where
  "dm_add dm data cert =
     (let refs = dm_refs dm @ [\<lparr>inUse = False, cr_data = data, cr_cert = cert\<rparr>] in
      \<lparr>dm_keys = foldl (addIfNewer refs (length (dm_refs dm))) (dm_keys dm) (map parseDomainKey (DNSNames cert)),
       dm_refs = refs\<rparr>)"

definition toDomainMap :: "cert_env \<Rightarrow> settings_certificate list \<Rightarrow> cert_error + domainMap" where
  "toDomainMap C certs =
     efold (\<lambda>dm cert. ebind (parseCert C cert) (\<lambda>crt. Inr (dm_add dm cert crt))) \<lparr>dm_keys = [], dm_refs = []\<rparr> certs"

definition mark :: "domainMap \<Rightarrow> nat \<Rightarrow> domainMap" where
  "mark dm i = dm\<lparr>dm_refs := (dm_refs dm)[i := (dm_refs dm ! i)\<lparr>inUse := True\<rparr>]\<rparr>"

definition markInUse :: "domainMap \<Rightarrow> string \<Rightarrow> domainMap" where
  "markInUse dm dnsName =
     (let key = parseDomainKey dnsName in
      case map_of (dm_keys dm) key of
        Some i \<Rightarrow> mark dm i
      | None \<Rightarrow>
          (case map_of (dm_keys dm) (DomainKey ''*'' (dk_Domain key)) of
             Some i \<Rightarrow> mark dm i
           | None \<Rightarrow> dm))"

definition byCert_Less :: "settings_certificate \<Rightarrow> settings_certificate \<Rightarrow> bool" where
  "byCert_Less = by_key sc_CertBytes"

definition getCertsInUse :: "domainMap \<Rightarrow> settings_certificate list" where
  "getCertsInUse dm =
     sort_by byCert_Less
       (map (\<lambda>i. cr_data (dm_refs dm ! i)) (filter (\<lambda>i. inUse (dm_refs dm ! i)) (remdups (map snd (dm_keys dm)))))"

subsection \<open>The certificates of a configuration\<close>

definition addTLSCert :: "pb_settings \<Rightarrow> secret \<Rightarrow> pb_settings" where
  "addTLSCert s secret =
     s\<lparr>st_Certificates := st_Certificates s @
        [\<lparr>sc_Id = [], sc_CertBytes = secret_get secret TLSCertKey, sc_KeyBytes = secret_get secret TLSPrivateKeyKey\<rparr>]\<rparr>"

definition addCerts :: "pb_config \<Rightarrow> (namespaced_name, secret) gomap \<Rightarrow> pb_config" where
  "addCerts cfg secrets =
     (let s0 = (case cfg_Settings cfg of None \<Rightarrow> new_settings | Some s \<Rightarrow> s) in
      cfg\<lparr>cfg_Settings := Some (foldl (\<lambda>s (n, secret). if sec_type secret \<noteq> SecretTypeTLS then s else addTLSCert s secret)
        s0 secrets)\<rparr>)"

definition getAllDomains :: "cert_env \<Rightarrow> pb_config \<Rightarrow> cert_error + string list" where
  "getAllDomains C cfg =
     ebind (efold (\<lambda>domains r.
              case env_url_hostname C (r_From r) of
                None \<Rightarrow> Inl (ErrParseFrom (r_From r))
              | Some h \<Rightarrow> Inr (List.insert h domains)) [] (cfg_Routes cfg))
       (\<lambda>domains.
         case cfg_Settings cfg of
           None \<Rightarrow> Inr domains
         | Some s \<Rightarrow>
             (case st_AuthenticateServiceUrl s of
                None \<Rightarrow> Inr domains
              | Some u \<Rightarrow>
                  (case env_url_hostname C u of
                     None \<Rightarrow> Inl (ErrParseAuthenticateURL u)
                   | Some h \<Rightarrow> Inr (List.insert h domains))))"

definition removeUnusedCerts :: "cert_env \<Rightarrow> pb_config \<Rightarrow> cert_error + pb_config" where
  "removeUnusedCerts C cfg =
     (case cfg_Settings cfg of
        None \<Rightarrow> Inr cfg
      | Some s \<Rightarrow>
          ebind (toDomainMap C (st_Certificates s)) (\<lambda>dm.
          ebind (getAllDomains C cfg) (\<lambda>domains.
            Inr (cfg\<lparr>cfg_Settings := Some (s\<lparr>st_Certificates := getCertsInUse (foldl markInUse dm domains)\<rparr>)\<rparr>))))"

subsection \<open>The domain map holds the newest certificate of each name\<close>

definition has_key :: "certRef \<Rightarrow> domainKey \<Rightarrow> bool" where
  "has_key ref k \<longleftrightarrow> k \<in> parseDomainKey ` set (DNSNames (cr_cert ref))"

definition newest :: "(domainKey, nat) gomap \<Rightarrow> certRef list \<Rightarrow> bool" where
  "newest m refs \<longleftrightarrow> wf_map m \<and>
     (\<forall>k. case map_of m k of
            None \<Rightarrow> \<forall>ref \<in> set refs. \<not> has_key ref k
          | Some j \<Rightarrow> j < length refs \<and> has_key (refs ! j) k \<and>
              (\<forall>ref \<in> set refs. has_key ref k \<longrightarrow> NotAfter (cr_cert ref) \<le> NotAfter (cr_cert (refs ! j))))"

text \<open>The map while the names \<open>ks\<close> of the last reference have been added.\<close>

definition newest_upto :: "(domainKey, nat) gomap \<Rightarrow> certRef list \<Rightarrow> certRef \<Rightarrow> domainKey set \<Rightarrow> bool" where
  "newest_upto m refs ref ks \<longleftrightarrow> wf_map m \<and>
     (\<forall>k. case map_of m k of
            None \<Rightarrow> k \<notin> ks \<and> (\<forall>r \<in> set refs. \<not> has_key r k)
          | Some j \<Rightarrow>
              (j < length refs \<and> has_key (refs ! j) k \<or> j = length refs \<and> k \<in> ks) \<and>
              (\<forall>r \<in> set refs. has_key r k \<longrightarrow> NotAfter (cr_cert r) \<le> NotAfter (cr_cert ((refs @ [ref]) ! j))) \<and>
              (k \<in> ks \<longrightarrow> NotAfter (cr_cert ref) \<le> NotAfter (cr_cert ((refs @ [ref]) ! j))))"

lemma addIfNewer_upto:
  assumes "newest_upto m refs ref ks"
  shows "newest_upto (addIfNewer (refs @ [ref]) (length refs) m key) refs ref (insert key ks)"
proof -
  have wf: "wf_map (addIfNewer (refs @ [ref]) (length refs) m key)"
    using assms by (auto simp: newest_upto_def addIfNewer_def split: option.splits)
  have k: "case map_of m k of
            None \<Rightarrow> k \<notin> ks \<and> (\<forall>r \<in> set refs. \<not> has_key r k)
          | Some j \<Rightarrow>
              (j < length refs \<and> has_key (refs ! j) k \<or> j = length refs \<and> k \<in> ks) \<and>
              (\<forall>r \<in> set refs. has_key r k \<longrightarrow> NotAfter (cr_cert r) \<le> NotAfter (cr_cert ((refs @ [ref]) ! j))) \<and>
              (k \<in> ks \<longrightarrow> NotAfter (cr_cert ref) \<le> NotAfter (cr_cert ((refs @ [ref]) ! j)))" for k
    using assms by (simp only: newest_upto_def)
  show ?thesis
    unfolding newest_upto_def
  proof (intro conjI allI wf)
    fix k'
    show "case map_of (addIfNewer (refs @ [ref]) (length refs) m key) k' of
            None \<Rightarrow> k' \<notin> insert key ks \<and> (\<forall>r \<in> set refs. \<not> has_key r k')
          | Some j \<Rightarrow>
              (j < length refs \<and> has_key (refs ! j) k' \<or> j = length refs \<and> k' \<in> insert key ks) \<and>
              (\<forall>r \<in> set refs. has_key r k' \<longrightarrow> NotAfter (cr_cert r) \<le> NotAfter (cr_cert ((refs @ [ref]) ! j))) \<and>
              (k' \<in> insert key ks \<longrightarrow> NotAfter (cr_cert ref) \<le> NotAfter (cr_cert ((refs @ [ref]) ! j)))"
      using k [of k'] k [of key]
      by (cases "k' = key"; cases "map_of m key"; cases "map_of m k'")
        (force simp: addIfNewer_def gomap_simps)+
  qed
qed

lemma foldl_addIfNewer:
  "newest_upto m refs ref ks \<Longrightarrow>
     newest_upto (foldl (addIfNewer (refs @ [ref]) (length refs)) m names) refs ref (ks \<union> set names)"
proof (induction names arbitrary: m ks)
  case (Cons n names)
  from Cons.IH [OF addIfNewer_upto [OF Cons.prems, of n]] show ?case by simp
qed simp

lemma newest_upto_start: "newest m refs \<Longrightarrow> newest_upto m refs ref {}"
  unfolding newest_def newest_upto_def
proof (elim conjE, intro conjI allI)
  fix k
  assume "\<forall>k. case map_of m k of None \<Rightarrow> \<forall>ref \<in> set refs. \<not> has_key ref k
    | Some j \<Rightarrow> j < length refs \<and> has_key (refs ! j) k \<and>
        (\<forall>ref \<in> set refs. has_key ref k \<longrightarrow> NotAfter (cr_cert ref) \<le> NotAfter (cr_cert (refs ! j)))"
  from spec [OF this, of k] show "case map_of m k of
            None \<Rightarrow> k \<notin> {} \<and> (\<forall>r \<in> set refs. \<not> has_key r k)
          | Some j \<Rightarrow>
              (j < length refs \<and> has_key (refs ! j) k \<or> j = length refs \<and> k \<in> {}) \<and>
              (\<forall>r \<in> set refs. has_key r k \<longrightarrow> NotAfter (cr_cert r) \<le> NotAfter (cr_cert ((refs @ [ref]) ! j))) \<and>
              (k \<in> {} \<longrightarrow> NotAfter (cr_cert ref) \<le> NotAfter (cr_cert ((refs @ [ref]) ! j)))"
    by (cases "map_of m k") (auto simp: nth_append)
qed

lemma newest_upto_end:
  assumes "newest_upto m refs ref (parseDomainKey ` set (DNSNames (cr_cert ref)))"
  shows "newest m (refs @ [ref])"
  unfolding newest_def
proof (intro conjI allI)
  show "wf_map m" using assms by (simp add: newest_upto_def)
  fix k
  have "case map_of m k of
            None \<Rightarrow> \<not> has_key ref k \<and> (\<forall>r \<in> set refs. \<not> has_key r k)
          | Some j \<Rightarrow>
              (j < length refs \<and> has_key (refs ! j) k \<or> j = length refs \<and> has_key ref k) \<and>
              (\<forall>r \<in> set refs. has_key r k \<longrightarrow> NotAfter (cr_cert r) \<le> NotAfter (cr_cert ((refs @ [ref]) ! j))) \<and>
              (has_key ref k \<longrightarrow> NotAfter (cr_cert ref) \<le> NotAfter (cr_cert ((refs @ [ref]) ! j)))"
    using assms by (simp only: newest_upto_def has_key_def)
  then show "case map_of m k of None \<Rightarrow> \<forall>r \<in> set (refs @ [ref]). \<not> has_key r k
    | Some j \<Rightarrow> j < length (refs @ [ref]) \<and> has_key ((refs @ [ref]) ! j) k \<and>
        (\<forall>r \<in> set (refs @ [ref]). has_key r k \<longrightarrow> NotAfter (cr_cert r) \<le> NotAfter (cr_cert ((refs @ [ref]) ! j)))"
    by (cases "map_of m k") (auto simp: nth_append)
qed

lemma dm_add_newest:
  assumes "newest (dm_keys dm) (dm_refs dm)"
  shows "newest (dm_keys (dm_add dm data cert)) (dm_refs (dm_add dm data cert))"
  using newest_upto_end [of _ "dm_refs dm" "\<lparr>inUse = False, cr_data = data, cr_cert = cert\<rparr>"]
    foldl_addIfNewer [OF newest_upto_start [OF assms], of "\<lparr>inUse = False, cr_data = data, cr_cert = cert\<rparr>" "map parseDomainKey (DNSNames cert)"]
  by (simp add: dm_add_def Let_def)

text \<open>The references of the map, one for each certificate.\<close>

definition refs_for :: "cert_env \<Rightarrow> settings_certificate list \<Rightarrow> certRef list \<Rightarrow> bool" where
  "refs_for C certs refs \<longleftrightarrow>
     list_all2 (\<lambda>c ref. cr_data ref = c \<and> parseCert C c = Inr (cr_cert ref)) certs refs"

lemma toDomainMap_newest:
  assumes "toDomainMap C certs = Inr dm"
  shows "newest (dm_keys dm) (dm_refs dm) \<and> refs_for C certs (dm_refs dm) \<and> (\<forall>ref \<in> set (dm_refs dm). \<not> inUse ref)"
proof -
  have "efold (\<lambda>dm cert. ebind (parseCert C cert) (\<lambda>crt. Inr (dm_add dm cert crt))) dm0 certs = Inr dm \<Longrightarrow>
      newest (dm_keys dm0) (dm_refs dm0) \<Longrightarrow> refs_for C done (dm_refs dm0) \<Longrightarrow> (\<forall>ref \<in> set (dm_refs dm0). \<not> inUse ref) \<Longrightarrow>
      newest (dm_keys dm) (dm_refs dm) \<and> refs_for C (done @ certs) (dm_refs dm) \<and> (\<forall>ref \<in> set (dm_refs dm). \<not> inUse ref)" for dm0 "done"
  proof (induction certs arbitrary: dm0 "done")
    case (Cons c certs)
    obtain crt where p: "parseCert C c = Inr crt"
      and r: "efold (\<lambda>dm cert. ebind (parseCert C cert) (\<lambda>crt. Inr (dm_add dm cert crt))) (dm_add dm0 c crt) certs = Inr dm"
      using Cons.prems(1) by (auto simp: ebind_Inr_iff)
    have refs: "dm_refs (dm_add dm0 c crt) = dm_refs dm0 @ [\<lparr>inUse = False, cr_data = c, cr_cert = crt\<rparr>]"
      by (simp add: dm_add_def Let_def)
    have "refs_for C (done @ [c]) (dm_refs (dm_add dm0 c crt))"
      using Cons.prems(3) p by (simp add: refs_for_def refs list_all2_appendI)
    from Cons.IH [OF r dm_add_newest [OF Cons.prems(2)] this] Cons.prems(4) show ?case by (simp add: refs)
  qed simp
  from this [of "\<lparr>dm_keys = [], dm_refs = []\<rparr>" "[]"] assms show ?thesis
    by (simp add: toDomainMap_def newest_def refs_for_def)
qed

subsection \<open>Marking\<close>

text \<open>The reference that serves a domain: its own entry, else the wildcard entry of its parent.\<close>

definition serving :: "(domainKey, nat) gomap \<Rightarrow> string \<Rightarrow> nat option" where
  "serving m d =
     (case map_of m (parseDomainKey d) of
        Some i \<Rightarrow> Some i
      | None \<Rightarrow> map_of m (DomainKey ''*'' (dk_Domain (parseDomainKey d))))"

lemma markInUse_serving: "markInUse dm d = (case serving (dm_keys dm) d of None \<Rightarrow> dm | Some i \<Rightarrow> mark dm i)"
  by (simp add: markInUse_def serving_def Let_def split: option.split)

lemma mark_simps:
  "dm_keys (mark dm i) = dm_keys dm" "length (dm_refs (mark dm i)) = length (dm_refs dm)"
  "j < length (dm_refs dm) \<Longrightarrow> cr_data (dm_refs (mark dm i) ! j) = cr_data (dm_refs dm ! j)"
  "j < length (dm_refs dm) \<Longrightarrow> inUse (dm_refs (mark dm i) ! j) \<longleftrightarrow> j = i \<or> inUse (dm_refs dm ! j)"
  by (cases "i < length (dm_refs dm)"; auto simp: mark_def nth_list_update list_update_beyond)+

lemma foldl_markInUse:
  "dm_keys (foldl markInUse dm ds) = dm_keys dm \<and> length (dm_refs (foldl markInUse dm ds)) = length (dm_refs dm) \<and>
   (\<forall>j < length (dm_refs dm). cr_data (dm_refs (foldl markInUse dm ds) ! j) = cr_data (dm_refs dm ! j) \<and>
      (inUse (dm_refs (foldl markInUse dm ds) ! j) \<longleftrightarrow> inUse (dm_refs dm ! j) \<or> (\<exists>d \<in> set ds. serving (dm_keys dm) d = Some j)))"
proof (induction ds arbitrary: dm)
  case (Cons d ds)
  show ?case
    using Cons.IH [of "markInUse dm d"]
    by (cases "serving (dm_keys dm) d") (auto simp: markInUse_serving mark_simps)
qed simp

interpretation cb: less_order byCert_Less
  unfolding byCert_Less_def by (rule less_order_by_key)

lemma removeUnusedCerts_result:
  assumes "removeUnusedCerts C cfg = Inr cfg'" "cfg_Settings cfg = Some s"
  shows "\<exists>dm ds. toDomainMap C (st_Certificates s) = Inr dm \<and> getAllDomains C cfg = Inr ds \<and>
    (\<exists>kept. cfg' = cfg\<lparr>cfg_Settings := Some (s\<lparr>st_Certificates := kept\<rparr>)\<rparr> \<and> sorted_by byCert_Less kept \<and>
      set kept = {cr_data (dm_refs dm ! i) | i d. d \<in> set ds \<and> serving (dm_keys dm) d = Some i})"
proof -
  obtain dm ds where dm: "toDomainMap C (st_Certificates s) = Inr dm" and ds: "getAllDomains C cfg = Inr ds"
    and cfg': "cfg' = cfg\<lparr>cfg_Settings := Some (s\<lparr>st_Certificates := getCertsInUse (foldl markInUse dm ds)\<rparr>)\<rparr>"
    using assms by (auto simp: removeUnusedCerts_def ebind_Inr_iff)
  note new = toDomainMap_newest [OF dm] and fm = foldl_markInUse [of dm ds]
  let ?dm = "foldl markInUse dm ds"
  have wf: "wf_map (dm_keys dm)" using new by (simp add: newest_def)
  have bound: "i < length (dm_refs dm)" if "map_of (dm_keys dm) k = Some i" for k i
  proof -
    have "case map_of (dm_keys dm) k of None \<Rightarrow> True | Some j \<Rightarrow> j < length (dm_refs dm)"
      using new by (simp add: newest_def split: option.splits)
    then show ?thesis using that by simp
  qed
  have idx: "i \<in> set (map snd (dm_keys dm)) \<longleftrightarrow> (\<exists>k. map_of (dm_keys dm) k = Some i)" for i
    using wf_map_in_set [OF wf] by force
  have srv: "i \<in> set (map snd (dm_keys dm))" if "serving (dm_keys dm) d = Some i" for d i
    using that unfolding idx serving_def by (auto split: option.splits)
  have use: "inUse (dm_refs ?dm ! i) \<longleftrightarrow> (\<exists>d \<in> set ds. serving (dm_keys dm) d = Some i)"
    "cr_data (dm_refs ?dm ! i) = cr_data (dm_refs dm ! i)" if "i \<in> set (map snd (dm_keys dm))" for i
    using that fm bound new idx by (metis nth_mem)+
  have "set (getCertsInUse ?dm) = {cr_data (dm_refs dm ! i) | i d. d \<in> set ds \<and> serving (dm_keys dm) d = Some i}"
  proof -
    let ?I = "set (map snd (dm_keys dm))"
    have "set (getCertsInUse ?dm) = (\<lambda>i. cr_data (dm_refs ?dm ! i)) ` {i \<in> ?I. inUse (dm_refs ?dm ! i)}"
      using fm by (simp add: getCertsInUse_def)
    also have "\<dots> = (\<lambda>i. cr_data (dm_refs dm ! i)) ` {i \<in> ?I. \<exists>d \<in> set ds. serving (dm_keys dm) d = Some i}"
      by (rule image_cong) (use use in blast)+
    also have "\<dots> = {cr_data (dm_refs dm ! i) | i d. d \<in> set ds \<and> serving (dm_keys dm) d = Some i}"
      using srv by blast
    finally show ?thesis .
  qed
  moreover have "sorted_by byCert_Less (getCertsInUse ?dm)"
    by (simp add: getCertsInUse_def cb.sorted_sort_by)
  ultimately show ?thesis using dm ds cfg' by blast
qed

subsection \<open>Properties\<close>

definition cert_has :: "cert_env \<Rightarrow> settings_certificate \<Rightarrow> domainKey \<Rightarrow> bool" where
  "cert_has C c k =
     (case parseCert C c of Inl _ \<Rightarrow> False | Inr crt \<Rightarrow> k \<in> parseDomainKey ` set (DNSNames crt))"

definition expiry :: "cert_env \<Rightarrow> settings_certificate \<Rightarrow> int" where
  "expiry C c = (case parseCert C c of Inl _ \<Rightarrow> 0 | Inr crt \<Rightarrow> NotAfter crt)"

definition wildcard :: "string \<Rightarrow> domainKey" where
  "wildcard d = DomainKey ''*'' (dk_Domain (parseDomainKey d))"

lemma refs_for_cert:
  assumes "refs_for C certs refs" "i < length refs"
  shows "cr_data (refs ! i) \<in> set certs \<and> has_key (refs ! i) k = cert_has C (cr_data (refs ! i)) k \<and>
    NotAfter (cr_cert (refs ! i)) = expiry C (cr_data (refs ! i))"
  using assms by (auto simp: refs_for_def list_all2_conv_all_nth has_key_def cert_has_def expiry_def)

lemma refs_for_mem: "refs_for C certs refs \<Longrightarrow> c \<in> set certs \<Longrightarrow> \<exists>i < length refs. cr_data (refs ! i) = c"
  by (auto simp: refs_for_def list_all2_conv_all_nth in_set_conv_nth)

text \<open>The entry of a key names the newest of the certificates that have it.\<close>

lemma newest_entry:
  assumes "newest m refs" "refs_for C certs refs"
  shows "map_of m k = None \<Longrightarrow> c \<in> set certs \<Longrightarrow> \<not> cert_has C c k"
    and "map_of m k = Some j \<Longrightarrow> j < length refs \<and> cert_has C (cr_data (refs ! j)) k \<and>
      (\<forall>c \<in> set certs. cert_has C c k \<longrightarrow> expiry C c \<le> expiry C (cr_data (refs ! j)))"
proof -
  have e: "case map_of m k of
            None \<Rightarrow> \<forall>ref \<in> set refs. \<not> has_key ref k
          | Some j \<Rightarrow> j < length refs \<and> has_key (refs ! j) k \<and>
              (\<forall>ref \<in> set refs. has_key ref k \<longrightarrow> NotAfter (cr_cert ref) \<le> NotAfter (cr_cert (refs ! j)))"
    using assms(1) by (simp only: newest_def)
  show "\<not> cert_has C c k" if "map_of m k = None" "c \<in> set certs"
    using e that refs_for_mem [OF assms(2) that(2)] refs_for_cert [OF assms(2)] by (metis nth_mem option.simps(4))
  show "j < length refs \<and> cert_has C (cr_data (refs ! j)) k \<and>
      (\<forall>c \<in> set certs. cert_has C c k \<longrightarrow> expiry C c \<le> expiry C (cr_data (refs ! j)))" if "map_of m k = Some j"
  proof -
    have j: "j < length refs" "has_key (refs ! j) k"
      "\<forall>ref \<in> set refs. has_key ref k \<longrightarrow> NotAfter (cr_cert ref) \<le> NotAfter (cr_cert (refs ! j))"
      using e that by simp_all
    moreover have "expiry C c \<le> expiry C (cr_data (refs ! j))" if c: "c \<in> set certs" "cert_has C c k" for c
    proof -
      obtain i where "i < length refs" "cr_data (refs ! i) = c" using refs_for_mem [OF assms(2) c(1)] by blast
      then show ?thesis using j refs_for_cert [OF assms(2)] c(2) by (metis nth_mem)
    qed
    ultimately show ?thesis using refs_for_cert [OF assms(2) j(1)] by blast
  qed
qed

text \<open>C7: removing unused certificates keeps what the routes need and nothing else: for every domain of a
  route, a certificate for that very name is kept that expires no sooner than any other such
  certificate; when none has the name, the same holds for the wildcard of its parent; every kept
  certificate was there before and serves some domain, and the list is sorted.\<close>

theorem removeUnusedCerts_spec:
  assumes "removeUnusedCerts C cfg = Inr cfg'" "cfg_Settings cfg = Some s" "getAllDomains C cfg = Inr ds"
  shows "\<exists>kept. cfg' = cfg\<lparr>cfg_Settings := Some (s\<lparr>st_Certificates := kept\<rparr>)\<rparr> \<and> sorted_by byCert_Less kept \<and>
    set kept \<subseteq> set (st_Certificates s) \<and>
    (\<forall>k \<in> set kept. \<exists>d \<in> set ds. cert_has C k (parseDomainKey d) \<or> cert_has C k (wildcard d)) \<and>
    (\<forall>d \<in> set ds. \<forall>c \<in> set (st_Certificates s). cert_has C c (parseDomainKey d) \<longrightarrow>
      (\<exists>k \<in> set kept. cert_has C k (parseDomainKey d) \<and> expiry C c \<le> expiry C k)) \<and>
    (\<forall>d \<in> set ds. \<forall>c \<in> set (st_Certificates s). cert_has C c (wildcard d) \<longrightarrow>
      (\<exists>k \<in> set (st_Certificates s). cert_has C k (parseDomainKey d)) \<or>
      (\<exists>k \<in> set kept. cert_has C k (wildcard d) \<and> expiry C c \<le> expiry C k))"
proof -
  obtain dm kept where dm: "toDomainMap C (st_Certificates s) = Inr dm"
    and kept: "cfg' = cfg\<lparr>cfg_Settings := Some (s\<lparr>st_Certificates := kept\<rparr>)\<rparr>" "sorted_by byCert_Less kept"
      "set kept = {cr_data (dm_refs dm ! i) | i d. d \<in> set ds \<and> serving (dm_keys dm) d = Some i}"
    using removeUnusedCerts_result [OF assms(1,2)] assms(3) by auto
  have new: "newest (dm_keys dm) (dm_refs dm)" and refs: "refs_for C (st_Certificates s) (dm_refs dm)"
    using toDomainMap_newest [OF dm] by blast+
  note none = newest_entry(1) [OF new refs] and some = newest_entry(2) [OF new refs]
  have srv: "i < length (dm_refs dm) \<and> (cert_has C (cr_data (dm_refs dm ! i)) (parseDomainKey d) \<or> cert_has C (cr_data (dm_refs dm ! i)) (wildcard d))"
    if "serving (dm_keys dm) d = Some i" for d i
    using that some unfolding serving_def wildcard_def by (auto split: option.splits)
  have "set kept \<subseteq> set (st_Certificates s)"
    using kept(3) srv refs_for_cert [OF refs] by auto
  moreover have "\<forall>k \<in> set kept. \<exists>d \<in> set ds. cert_has C k (parseDomainKey d) \<or> cert_has C k (wildcard d)"
    using kept(3) srv by auto
  moreover have "\<exists>k \<in> set kept. cert_has C k (parseDomainKey d) \<and> expiry C c \<le> expiry C k"
    if h: "d \<in> set ds" "c \<in> set (st_Certificates s)" "cert_has C c (parseDomainKey d)" for d c
  proof -
    obtain i where i: "map_of (dm_keys dm) (parseDomainKey d) = Some i" using none h(2,3) by fastforce
    then have "serving (dm_keys dm) d = Some i" by (simp add: serving_def)
    then have "cr_data (dm_refs dm ! i) \<in> set kept" using kept(3) h(1) by blast
    then show ?thesis using some [OF i] h by blast
  qed
  moreover have "\<exists>k \<in> set kept. cert_has C k (wildcard d) \<and> expiry C c \<le> expiry C k"
    if h: "d \<in> set ds" "c \<in> set (st_Certificates s)" "cert_has C c (wildcard d)"
      "\<not> (\<exists>k \<in> set (st_Certificates s). cert_has C k (parseDomainKey d))" for d c
  proof -
    have "map_of (dm_keys dm) (parseDomainKey d) = None"
      using some h(4) refs_for_cert [OF refs] by (metis option.exhaust)
    moreover obtain i where i: "map_of (dm_keys dm) (wildcard d) = Some i" using none h(2,3) by fastforce
    ultimately have "serving (dm_keys dm) d = Some i" by (simp add: serving_def wildcard_def)
    then have "cr_data (dm_refs dm ! i) \<in> set kept" using kept(3) h(1) by blast
    then show ?thesis using some [OF i] h by blast
  qed
  ultimately show ?thesis using kept(1,2) by blast
qed

definition ex_cert_env :: cert_env where
  "ex_cert_env = \<lparr>env_pem_decode = (\<lambda>s. Some (\<lparr>pem_Type = ''CERTIFICATE'', pem_Headers = [], pem_Bytes = s\<rparr>, [])),
     env_x509_parse = (\<lambda>s. Some \<lparr>DNSNames = [drop 1 s], NotAfter = int (of_char (hd s)), ServerAuth = True\<rparr>),
     env_url_hostname = (\<lambda>u. Some (TrimPrefix u ''https://''))\<rparr>"

definition ex_cert :: "string \<Rightarrow> settings_certificate" where
  "ex_cert s = \<lparr>sc_Id = [], sc_CertBytes = s, sc_KeyBytes = []\<rparr>"

definition ex_cert_config :: pb_config where
  "ex_cert_config = \<lparr>cfg_Routes = [ex_route ''a'' ''a.b'' [] ''/''],
     cfg_Settings = Some (new_settings\<lparr>st_Certificates := map ex_cert [''1a.b'', ''2a.b'', ''3*.b'', ''4c.d'']\<rparr>)\<rparr>"

theorem removeUnusedCerts_spec_witness:
  "\<exists>cfg' k. removeUnusedCerts ex_cert_env ex_cert_config = Inr cfg' \<and> k \<in> set (map ex_cert [''1a.b'', ''2a.b'', ''3*.b'', ''4c.d'']) \<and>
     cert_has ex_cert_env k (DomainKey ''a'' ''b'') \<and> expiry ex_cert_env (ex_cert ''2a.b'') \<le> expiry ex_cert_env k"
proof -
  have "(case removeUnusedCerts ex_cert_env ex_cert_config of Inr _ \<Rightarrow> True | Inl _ \<Rightarrow> False)" by code_simp
  then obtain cfg' where cfg': "removeUnusedCerts ex_cert_env ex_cert_config = Inr cfg'" by (auto split: sum.splits)
  have ds: "getAllDomains ex_cert_env ex_cert_config = Inr [''a.b'']" by code_simp
  have st: "cfg_Settings ex_cert_config =
      Some (new_settings\<lparr>st_Certificates := map ex_cert [''1a.b'', ''2a.b'', ''3*.b'', ''4c.d'']\<rparr>)"
    by (simp add: ex_cert_config_def)
  have key: "parseDomainKey ''a.b'' = DomainKey ''a'' ''b''" by code_simp
  have "cert_has ex_cert_env (ex_cert ''2a.b'') (DomainKey ''a'' ''b'')" by code_simp
  then show ?thesis
    using removeUnusedCerts_spec [OF cfg' st ds] cfg' by (fastforce simp: key)
qed

end
