(* ===== verification/Cert_Names.thy ===== *)
theory Cert_Names
  imports Cert_Map Go_Sort
begin

text \<open>
  \<^verbatim>\<open>internal/certificate/convert.go\<close>: the host names that certificates cover and the host names that routes need.
  A PEM file is decoded block by block until no block is left. The decoder is a parameter, so the loop has fuel: one
  round per byte and one more, which is enough because a decoded block leaves less input (\<open>pem_progress\<close>).
\<close>

record names_env = cert_env +
  ne_url_scheme :: "string \<Rightarrow> string"
  ne_is_addr :: "string \<Rightarrow> bool"

text \<open>\<open>env_url_hostname\<close> and \<open>ne_url_scheme\<close> are the host name and the scheme of a URL that \<^verbatim>\<open>url.Parse\<close> accepts,
  \<open>ne_is_addr\<close> holds of the strings that \<^verbatim>\<open>netip.ParseAddr\<close> accepts.\<close>

definition is_server_block :: "pem_block \<Rightarrow> bool" where
  "is_server_block block \<longleftrightarrow> pem_Type block = ''CERTIFICATE'' \<and> pem_Headers block = []"

fun server_certs_loop :: "('a) cert_env_scheme \<Rightarrow> nat \<Rightarrow> string \<Rightarrow> x509_cert list" where
  "server_certs_loop C 0 data = []"
| "server_certs_loop C (Suc n) data =
     (case env_pem_decode C data of
        None \<Rightarrow> []
      | Some (block, rest) \<Rightarrow>
          if \<not> is_server_block block then server_certs_loop C n rest
          else (case env_x509_parse C (pem_Bytes block) of
                  None \<Rightarrow> server_certs_loop C n rest
                | Some cert \<Rightarrow>
                    if \<not> ServerAuth cert then server_certs_loop C n rest
                    else cert # server_certs_loop C n rest))"

definition IterateServerCertificatesFromPEM :: "('a) cert_env_scheme \<Rightarrow> string \<Rightarrow> x509_cert list" where
  "IterateServerCertificatesFromPEM C data = server_certs_loop C (Suc (length data)) data"

text \<open>The closure \<^verbatim>\<open>addCertificatesFromPEM\<close>.\<close>

definition addCertificatesFromPEM :: "('a) cert_env_scheme \<Rightarrow> string list \<Rightarrow> string \<Rightarrow> string list" where
  "addCertificatesFromPEM C names data =
     foldl (\<lambda>names c. foldl (\<lambda>names n. if n \<noteq> [] then List.insert n names else names) names (DNSNames c))
       names (IterateServerCertificatesFromPEM C data)"

definition add_route_name :: "('a) names_env_scheme \<Rightarrow> string list \<Rightarrow> pb_route \<Rightarrow> string list" where
  "add_route_name C names r =
     (case env_url_hostname C (r_From r) of
        None \<Rightarrow> names
      | Some hostname \<Rightarrow>
          if ne_is_addr C hostname then names
          else if \<not> Contains (ne_url_scheme C (r_From r)) ''https'' then names
          else if Contains hostname ''*'' \<or> hostname = [] then names
          else List.insert hostname names)"

definition GetNamesFromConfig ::
  "('a) names_env_scheme \<Rightarrow> string list \<Rightarrow> pb_route list \<Rightarrow> pb_settings list \<Rightarrow> string list \<times> string list" where
  "GetNamesFromConfig C keyPairs routes settings =
     (let certs = foldl (addCertificatesFromPEM C) [] keyPairs;
          certs' = foldl (\<lambda>names s. foldl (addCertificatesFromPEM C) names (map sc_CertBytes (st_Certificates s))) certs settings
      in (sort_Strings certs', sort_Strings (foldl (add_route_name C) [] routes)))"

subsection \<open>Specification\<close>

definition pem_progress :: "('a) cert_env_scheme \<Rightarrow> bool" where
  "pem_progress C \<longleftrightarrow> (\<forall>data block rest. env_pem_decode C data = Some (block, rest) \<longrightarrow> length rest < length data)"

text \<open>The blocks of a PEM file, however many there are.\<close>

inductive pem_blocks :: "('a) cert_env_scheme \<Rightarrow> string \<Rightarrow> pem_block list \<Rightarrow> bool" for C where
  no_block: "env_pem_decode C data = None \<Longrightarrow> pem_blocks C data []"
| block: "env_pem_decode C data = Some (b, rest) \<Longrightarrow> pem_blocks C rest bs \<Longrightarrow> pem_blocks C data (b # bs)"

definition server_cert :: "('a) cert_env_scheme \<Rightarrow> pem_block \<Rightarrow> x509_cert option" where
  "server_cert C b =
     (if is_server_block b
      then (case env_x509_parse C (pem_Bytes b) of Some c \<Rightarrow> if ServerAuth c then Some c else None | None \<Rightarrow> None)
      else None)"

text \<open>The host name a route needs a certificate for.\<close>

definition needs_certificate :: "('a) names_env_scheme \<Rightarrow> pb_route \<Rightarrow> string \<Rightarrow> bool" where
  "needs_certificate C r h \<longleftrightarrow> env_url_hostname C (r_From r) = Some h \<and> h \<noteq> [] \<and> \<not> ne_is_addr C h \<and>
     \<not> Contains h ''*'' \<and> Contains (ne_url_scheme C (r_From r)) ''https''"

subsection \<open>The decoding loop\<close>

lemma pem_blocks_total: "pem_progress C \<Longrightarrow> \<exists>bs. pem_blocks C data bs"
proof (induction data rule: length_induct)
  case (1 data)
  show ?case
  proof (cases "env_pem_decode C data")
    case None
    then show ?thesis by (blast intro: pem_blocks.no_block)
  next
    case (Some p)
    then obtain b rest where p: "env_pem_decode C data = Some (b, rest)" by (cases p) auto
    then have "length rest < length data" using 1(2) unfolding pem_progress_def by blast
    then obtain bs where "pem_blocks C rest bs" using 1 by blast
    then show ?thesis using p by (blast intro: pem_blocks.block)
  qed
qed

lemma pem_blocks_loop:
  "pem_blocks C data bs \<Longrightarrow> pem_progress C \<Longrightarrow> length data < n \<Longrightarrow>
   server_certs_loop C n data = List.map_filter (server_cert C) bs"
proof (induction arbitrary: n rule: pem_blocks.induct)
  case (no_block data)
  then show ?case by (cases n) (simp_all add: List.map_filter_def)
next
  case (block data b rest bs)
  from block.prems(2) obtain m where n: "n = Suc m" by (cases n) auto
  have "length rest < length data" using block unfolding pem_progress_def by blast
  then have "server_certs_loop C m rest = List.map_filter (server_cert C) bs"
    using block n by simp
  then show ?case
    using block.hyps(1) n by (simp add: server_cert_def [of C b] List.map_filter_simps split: option.split)
qed

lemma set_add_names:
  "set (foldl (\<lambda>names n. if n \<noteq> [] then List.insert n names else names) names ns) = set names \<union> {n \<in> set ns. n \<noteq> []}"
  by (induction ns arbitrary: names) auto

lemma distinct_add_names:
  "distinct names \<Longrightarrow> distinct (foldl (\<lambda>names n. if n \<noteq> [] then List.insert n names else names) names ns)"
  by (induction ns arbitrary: names) auto

lemma set_addCertificatesFromPEM:
  "set (addCertificatesFromPEM C names data) =
     set names \<union> {n. n \<noteq> [] \<and> (\<exists>c \<in> set (IterateServerCertificatesFromPEM C data). n \<in> set (DNSNames c))}"
proof -
  have "set (foldl (\<lambda>names c. foldl (\<lambda>names n. if n \<noteq> [] then List.insert n names else names) names (DNSNames c)) names cs) =
      set names \<union> {n. n \<noteq> [] \<and> (\<exists>c \<in> set cs. n \<in> set (DNSNames c))}" for cs
    by (induction cs arbitrary: names) (auto simp: set_add_names)
  then show ?thesis by (simp add: addCertificatesFromPEM_def)
qed

lemma set_add_pems:
  "set (foldl (addCertificatesFromPEM C) names ds) =
     set names \<union> {n. n \<noteq> [] \<and> (\<exists>d \<in> set ds. \<exists>c \<in> set (IterateServerCertificatesFromPEM C d). n \<in> set (DNSNames c))}"
  by (induction ds arbitrary: names) (auto simp: set_addCertificatesFromPEM)

lemma set_add_routes:
  "set (foldl (add_route_name C) names rs) = set names \<union> {h. \<exists>r \<in> set rs. needs_certificate C r h}"
  by (induction rs arbitrary: names) (auto simp: add_route_name_def needs_certificate_def split: option.split)

text \<open>The PEM data of key pairs and settings.\<close>

definition pem_data :: "string list \<Rightarrow> pb_settings list \<Rightarrow> string set" where
  "pem_data keyPairs settings = set keyPairs \<union> (\<Union>s \<in> set settings. sc_CertBytes ` set (st_Certificates s))"

lemma set_add_settings:
  "set (foldl (\<lambda>names s. foldl (addCertificatesFromPEM C) names (map sc_CertBytes (st_Certificates s))) names ss) =
     set names \<union> {n. n \<noteq> [] \<and> (\<exists>d \<in> pem_data [] ss. \<exists>c \<in> set (IterateServerCertificatesFromPEM C d). n \<in> set (DNSNames c))}"
  by (induction ss arbitrary: names) (auto simp: set_add_pems pem_data_def)

lemma GetNamesFromConfig_sets:
  "set (fst (GetNamesFromConfig C kps rs ss)) =
     {n. n \<noteq> [] \<and> (\<exists>d \<in> pem_data kps ss. \<exists>c \<in> set (IterateServerCertificatesFromPEM C d). n \<in> set (DNSNames c))}"
  "set (snd (GetNamesFromConfig C kps rs ss)) = {h. \<exists>r \<in> set rs. needs_certificate C r h}"
  by (auto simp: GetNamesFromConfig_def Let_def set_add_settings set_add_pems set_add_routes pem_data_def)

subsection \<open>Properties\<close>

text \<open>The names of a configuration: every PEM file is read to its end, the certificate names are the
  non-empty DNS names of the server certificates among all of its blocks, and the route names are the host names of
  the secure routes, without addresses and wildcards; both lists are sorted.\<close>

theorem GetNamesFromConfig_spec:
  assumes "pem_progress C"
  shows "sorted (fst (GetNamesFromConfig C kps rs ss)) \<and> sorted (snd (GetNamesFromConfig C kps rs ss)) \<and>
    (\<forall>data. \<exists>bs. pem_blocks C data bs) \<and>
    (\<forall>n. n \<in> set (fst (GetNamesFromConfig C kps rs ss)) \<longleftrightarrow> n \<noteq> [] \<and>
       (\<exists>data bs b c. data \<in> pem_data kps ss \<and> pem_blocks C data bs \<and> b \<in> set bs \<and> server_cert C b = Some c \<and>
          n \<in> set (DNSNames c))) \<and>
    (\<forall>h. h \<in> set (snd (GetNamesFromConfig C kps rs ss)) \<longleftrightarrow> (\<exists>r \<in> set rs. needs_certificate C r h))"
proof -
  have it: "IterateServerCertificatesFromPEM C data = List.map_filter (server_cert C) bs" if "pem_blocks C data bs" for data bs
    unfolding IterateServerCertificatesFromPEM_def by (rule pem_blocks_loop [OF that assms]) simp
  have cert: "c \<in> set (IterateServerCertificatesFromPEM C data) \<longleftrightarrow>
      (\<exists>bs b. pem_blocks C data bs \<and> b \<in> set bs \<and> server_cert C b = Some c)" for data c
  proof -
    obtain bs where bs: "pem_blocks C data bs" using pem_blocks_total [OF assms] by blast
    have "c \<in> set (List.map_filter (server_cert C) bs') \<longleftrightarrow> (\<exists>b \<in> set bs'. server_cert C b = Some c)" for bs'
      by (induction bs') (auto simp: List.map_filter_simps split: option.splits)
    then show ?thesis using it bs by metis
  qed
  have "sorted (fst (GetNamesFromConfig C kps rs ss))" "sorted (snd (GetNamesFromConfig C kps rs ss))"
    by (simp_all add: GetNamesFromConfig_def Let_def sorted_sort_Strings)
  moreover have "n \<in> set (fst (GetNamesFromConfig C kps rs ss)) \<longleftrightarrow> n \<noteq> [] \<and>
       (\<exists>data bs b c. data \<in> pem_data kps ss \<and> pem_blocks C data bs \<and> b \<in> set bs \<and> server_cert C b = Some c \<and>
          n \<in> set (DNSNames c))" for n
    unfolding GetNamesFromConfig_sets(1) Bex_def cert mem_Collect_eq by blast
  ultimately show ?thesis
    using pem_blocks_total [OF assms] by (simp add: GetNamesFromConfig_sets(2))
qed

text \<open>A decoder for examples: a block is one line, \<open>+\<close> for a server certificate of the rest of the line and \<open>-\<close> for
  another block; a URL is a scheme, a colon and a host.\<close>

definition ex_names_env :: names_env where
  "ex_names_env = \<lparr>
     env_pem_decode = (\<lambda>d. if d = [] then None
       else case Cut d (CHR '';'') of (line, rest, _) \<Rightarrow>
         Some (\<lparr>pem_Type = (if HasPrefix line ''+'' then ''CERTIFICATE'' else ''PRIVATE KEY''), pem_Headers = [], pem_Bytes = drop 1 line\<rparr>, rest)),
     env_x509_parse = (\<lambda>b. if b = [] then None else Some \<lparr>DNSNames = [b], NotAfter = 0, ServerAuth = True\<rparr>),
     env_url_hostname = (\<lambda>u. case Cut u (CHR '':'') of (_, h, found) \<Rightarrow> if found \<or> u = [] then Some h else None),
     ne_url_scheme = (\<lambda>u. fst (Cut u (CHR '':''))),
     ne_is_addr = (\<lambda>h. h = ''127.0.0.1'')\<rparr>"

lemma Cut_shorter: "d \<noteq> [] \<Longrightarrow> Cut d c = (a, b, f) \<Longrightarrow> length b < length d"
  by (induction d arbitrary: a b f) (auto split: if_splits prod.splits, fastforce+)

lemma ex_names_env_progress: "pem_progress ex_names_env"
  unfolding pem_progress_def ex_names_env_def by (auto split: if_splits prod.splits dest: Cut_shorter)

theorem GetNamesFromConfig_spec_witness:
  "pem_progress ex_names_env \<and>
   GetNamesFromConfig ex_names_env [''-key;+b.example.com;+;+a.example.com'']
     [new_route\<lparr>r_From := ''https:x.example.com''\<rparr>, new_route\<lparr>r_From := ''http:y''\<rparr>,
      new_route\<lparr>r_From := ''https:*.z''\<rparr>, new_route\<lparr>r_From := ''https:127.0.0.1''\<rparr>] [] =
     ([''a.example.com'', ''b.example.com''], [''x.example.com'']) \<and>
   sorted (fst (GetNamesFromConfig ex_names_env [''-key;+b.example.com;+;+a.example.com''] [] []))"
proof -
  have "GetNamesFromConfig ex_names_env [''-key;+b.example.com;+;+a.example.com'']
     [new_route\<lparr>r_From := ''https:x.example.com''\<rparr>, new_route\<lparr>r_From := ''http:y''\<rparr>,
      new_route\<lparr>r_From := ''https:*.z''\<rparr>, new_route\<lparr>r_From := ''https:127.0.0.1''\<rparr>] [] =
     ([''a.example.com'', ''b.example.com''], [''x.example.com''])" by code_simp
  then show ?thesis using GetNamesFromConfig_spec [OF ex_names_env_progress] ex_names_env_progress by blast
qed

end
