(* ===== verification/Operation.thy ===== *)
theory Operation
  imports Go_Prelude
begin

text \<open>
  \<^verbatim>\<open>controllers/certificate/operation.go\<close>: a long-running function that can be stopped, monitored and started again.
  Each start makes a new context and a new wait group; the store \<open>op_runs\<close> keeps them all, because the goroutine of
  a replaced start goes on until it notices that its context is cancelled. The step relation interleaves the calls
  with the goroutines; the theorem says that a replaced run can no longer influence what the operation reports.
\<close>

text \<open>A start registers the run under the lock and launches the goroutine after it has released the lock; a wait
  group that has not been launched yet does not block \<^verbatim>\<open>Wait\<close>.\<close>

datatype 'e run_state = Registered | Executing | Finished "'e option"

record 'e op_run =
  run_cancelled :: bool
  run_state :: "'e run_state"

record 'e operation =
  op_cancel :: "nat option"
  op_wg :: "nat option"
  op_runs :: "'e op_run list"

definition NewOperation :: "'e operation" where
  "NewOperation = \<lparr>op_cancel = None, op_wg = None, op_runs = []\<rparr>"

text \<open>\<^verbatim>\<open>wg.err.Load()\<close>: nil until the goroutine has stored the result of the function.\<close>

definition err_Load :: "'e operation \<Rightarrow> nat \<Rightarrow> 'e option option" where
  "err_Load x i = (case run_state (op_runs x ! i) of Finished e \<Rightarrow> Some e | _ \<Rightarrow> None)"

definition op_Active :: "'e operation \<Rightarrow> bool" where
  "op_Active x = (case op_wg x of None \<Rightarrow> False | Some i \<Rightarrow> err_Load x i = None)"

definition op_Error :: "'e operation \<Rightarrow> 'e option" where
  "op_Error x =
     (case op_wg x of
        None \<Rightarrow> None
      | Some i \<Rightarrow> (case err_Load x i of None \<Rightarrow> None | Some e \<Rightarrow> e))"

definition cancel_run :: "nat \<Rightarrow> 'e operation \<Rightarrow> 'e operation" where
  "cancel_run i x = x\<lparr>op_runs := (op_runs x)[i := (op_runs x ! i)\<lparr>run_cancelled := True\<rparr>]\<rparr>"

definition cancel_current :: "'e operation \<Rightarrow> 'e operation" where
  "cancel_current x = (case op_cancel x of None \<Rightarrow> x | Some i \<Rightarrow> cancel_run i x)"

definition op_Reset :: "'e operation \<Rightarrow> 'e operation" where
  "op_Reset x = (cancel_current x)\<lparr>op_cancel := None, op_wg := None\<rparr>"

text \<open>The two halves of \<^verbatim>\<open>Start\<close>.\<close>

definition op_register :: "'e operation \<Rightarrow> 'e operation" where
  "op_register x =
     (let y = cancel_current x; i = length (op_runs y) in
      y\<lparr>op_cancel := Some i, op_wg := Some i, op_runs := op_runs y @ [\<lparr>run_cancelled = False, run_state = Registered\<rparr>]\<rparr>)"

definition op_set_state :: "nat \<Rightarrow> 'e run_state \<Rightarrow> 'e operation \<Rightarrow> 'e operation" where
  "op_set_state i r x = x\<lparr>op_runs := (op_runs x)[i := (op_runs x ! i)\<lparr>run_state := r\<rparr>]\<rparr>"

definition op_Start :: "'e operation \<Rightarrow> 'e operation" where
  "op_Start x = op_set_state (length (op_runs x)) Executing (op_register x)"

definition op_StopNow :: "'e operation \<Rightarrow> 'e operation" where
  "op_StopNow x = cancel_current x"

text \<open>\<^verbatim>\<open>Wait\<close>, and the second half of \<^verbatim>\<open>Stop\<close>: \<open>None\<close> while the call blocks.\<close>

definition op_Wait :: "'e operation \<Rightarrow> nat option \<Rightarrow> 'e option option" where
  "op_Wait x wg =
     (case wg of
        None \<Rightarrow> Some None
      | Some i \<Rightarrow> (case run_state (op_runs x ! i) of Registered \<Rightarrow> Some None | Executing \<Rightarrow> None | Finished e \<Rightarrow> Some e))"

text \<open>\<^verbatim>\<open>Run\<close> of a function that returns \<open>e\<close>.\<close>

definition op_Run :: "'e option \<Rightarrow> 'e operation \<Rightarrow> 'e operation \<times> 'e option option" where
  "op_Run e x =
     (let y = op_set_state (length (op_runs x)) (Finished e) (op_Start x) in (y, op_Wait y (op_wg y)))"

text \<open>\<^verbatim>\<open>Stop\<close> cancels the current run and returns the wait group it then waits for.\<close>

definition op_Stop :: "'e operation \<Rightarrow> 'e operation \<times> nat option" where
  "op_Stop x = (cancel_current x, op_wg x)"

subsection \<open>Steps\<close>

inductive op_step :: "'e operation \<Rightarrow> 'e operation \<Rightarrow> bool" where
  register: "op_step x (op_register x)"
| launch: "i < length (op_runs x) \<Longrightarrow> run_state (op_runs x ! i) = Registered \<Longrightarrow> op_step x (op_set_state i Executing x)"
| finish: "i < length (op_runs x) \<Longrightarrow> run_state (op_runs x ! i) = Executing \<Longrightarrow> op_step x (op_set_state i (Finished e) x)"
| reset: "op_step x (op_Reset x)"
| stop_now: "op_step x (op_StopNow x)"
| stop: "op_step x (fst (op_Stop x))"

inductive_cases op_stepE: "op_step x y"

inductive op_reachable :: "'e operation \<Rightarrow> bool" where
  init: "op_reachable NewOperation"
| step: "op_reachable x \<Longrightarrow> op_step x y \<Longrightarrow> op_reachable y"

definition op_inv :: "'e operation \<Rightarrow> bool" where
  "op_inv x \<longleftrightarrow> op_cancel x = op_wg x \<and> (\<forall>i. op_wg x = Some i \<longrightarrow> Suc i = length (op_runs x)) \<and>
     (\<forall>i < length (op_runs x). op_wg x \<noteq> Some i \<longrightarrow> run_cancelled (op_runs x ! i))"

text \<open>A run is live when its function has not returned and was not told to.\<close>

definition live :: "'e operation \<Rightarrow> nat \<Rightarrow> bool" where
  "live x i \<longleftrightarrow> i < length (op_runs x) \<and> \<not> run_cancelled (op_runs x ! i) \<and> (\<forall>e. run_state (op_runs x ! i) \<noteq> Finished e)"

lemma cancel_simps [simp]:
  "op_cancel (cancel_run i x) = op_cancel x" "op_wg (cancel_run i x) = op_wg x"
  "length (op_runs (cancel_run i x)) = length (op_runs x)"
  "op_cancel (cancel_current x) = op_cancel x" "op_wg (cancel_current x) = op_wg x"
  "length (op_runs (cancel_current x)) = length (op_runs x)"
  "op_cancel (op_set_state i r x) = op_cancel x" "op_wg (op_set_state i r x) = op_wg x"
  "length (op_runs (op_set_state i r x)) = length (op_runs x)"
  by (simp_all add: cancel_run_def cancel_current_def op_set_state_def split: option.split)

lemma op_inv_cancelled: "op_inv x \<Longrightarrow> i < length (op_runs x) \<Longrightarrow> run_cancelled (op_runs (cancel_current x) ! i)"
  by (auto simp: op_inv_def cancel_current_def cancel_run_def nth_list_update split: option.splits)

lemma run_cancelled_set_state:
  "i < length (op_runs x) \<Longrightarrow> run_cancelled (op_runs (op_set_state j r x) ! i) = run_cancelled (op_runs x ! i)"
  by (cases "i = j") (simp_all add: op_set_state_def)

lemma op_inv_step: "op_step x y \<Longrightarrow> op_inv x \<Longrightarrow> op_inv y"
proof (induction rule: op_step.induct)
  case (register x)
  then show ?case
    using op_inv_cancelled [of x] by (auto simp: op_inv_def op_register_def Let_def nth_append)
next
  case (launch i x)
  then show ?case by (auto simp: op_inv_def run_cancelled_set_state)
next
  case (finish i x e)
  then show ?case by (auto simp: op_inv_def run_cancelled_set_state)
next
  case (reset x)
  then show ?case using op_inv_cancelled [of x] by (auto simp: op_inv_def op_Reset_def)
next
  case (stop_now x)
  then show ?case using op_inv_cancelled [of x] by (auto simp: op_inv_def op_StopNow_def)
next
  case (stop x)
  then show ?case using op_inv_cancelled [of x] by (auto simp: op_inv_def op_Stop_def)
qed

lemma op_inv_reachable: "op_reachable x \<Longrightarrow> op_inv x"
proof (induction rule: op_reachable.induct)
  case init
  show ?case by (simp add: op_inv_def NewOperation_def)
qed (rule op_inv_step)

lemma op_reachable_Start: "op_reachable x \<Longrightarrow> op_reachable (op_Start x)"
  unfolding op_Start_def
  by (rule op_reachable.step [OF op_reachable.step [OF _ op_step.register] op_step.launch])
    (simp_all add: op_register_def Let_def nth_append)

lemma op_Start_current:
  "op_wg (op_Start x) = Some (length (op_runs x))"
  "length (op_runs (op_Start x)) = Suc (length (op_runs x))"
  "run_state (op_runs (op_Start x) ! length (op_runs x)) = Executing"
  "op_cancel (op_Start x) = Some (length (op_runs x))"
  by (simp_all add: op_Start_def op_register_def Let_def op_set_state_def nth_append)

lemma op_Run_result: "snd (op_Run e x) = Some e"
  by (simp add: op_Run_def Let_def op_Wait_def op_Start_current) (simp add: op_set_state_def op_Start_current)

text \<open>C32: At any time at most one run is live, and it is the one the operation watches; whatever the goroutine of a
  replaced, reset or stopped run returns, and whenever it does, leaves \<^verbatim>\<open>Active\<close> and \<^verbatim>\<open>Error\<close> as they are.\<close>

theorem operation_one_live:
  assumes "op_reachable x"
  shows "(\<forall>i. live x i \<longrightarrow> op_wg x = Some i) \<and>
    (\<forall>i e. op_wg x \<noteq> Some i \<longrightarrow>
       op_Active (op_set_state i (Finished e) x) = op_Active x \<and> op_Error (op_set_state i (Finished e) x) = op_Error x)"
proof -
  have "op_wg x = Some i" if "live x i" for i
    using op_inv_reachable [OF assms] that by (auto simp: op_inv_def live_def)
  moreover have "op_Active (op_set_state i (Finished e) x) = op_Active x \<and> op_Error (op_set_state i (Finished e) x) = op_Error x"
    if "op_wg x \<noteq> Some i" for i e
    using that by (auto simp: op_Active_def op_Error_def err_Load_def op_set_state_def split: option.split)
  ultimately show ?thesis by blast
qed

lemma started_reachable: "op_reachable (op_Start (op_Start NewOperation))"
  by (intro op_reachable_Start op_reachable.init)

theorem operation_one_live_witness:
  "op_reachable (op_Start (op_Start NewOperation) :: string operation) \<and>
   live (op_Start (op_Start NewOperation) :: string operation) 1 \<and>
   op_wg (op_Start (op_Start NewOperation) :: string operation) = Some 1 \<and>
   op_Active (op_set_state 0 (Finished (Some ''canceled'')) (op_Start (op_Start NewOperation)))"
proof -
  let ?x = "op_Start (op_Start NewOperation) :: string operation"
  have l: "live ?x 1"
    by (simp add: live_def op_Start_def op_register_def Let_def op_set_state_def cancel_current_def cancel_run_def NewOperation_def)
  have w: "op_wg ?x = Some 1" by code_simp
  have a: "op_Active ?x" by code_simp
  have "op_Active (op_set_state 0 (Finished (Some ''canceled'')) ?x) = op_Active ?x"
    by (rule operation_one_live [OF started_reachable, THEN conjunct2, rule_format, THEN conjunct1]) (simp add: w)
  with a have "op_Active (op_set_state 0 (Finished (Some ''canceled'')) ?x)" by simp
  with l w started_reachable show ?thesis by blast
qed

text \<open>A call of \<^verbatim>\<open>Wait\<close> or \<^verbatim>\<open>Stop\<close> that comes between the two halves of a start returns nil at once.\<close>

theorem wait_before_launch:
  "op_Wait (op_register (NewOperation :: string operation)) (op_wg (op_register (NewOperation :: string operation))) = Some None \<and>
   op_Active (op_register (NewOperation :: string operation))"
  by code_simp

end
