(* ===== verification/Cert_Collector.thy ===== *)
theory Cert_Collector
  imports Cert_Matcher Cert_Names Operation "HOL-Library.Word"
begin

text \<open>
  \<^verbatim>\<open>controllers/certificate/databroker.go\<close>: collects from the databroker which host names need a certificate. Five
  goroutines read the records of five types and feed one matcher under a lock, so the updates of the goroutines come
  in some interleaving: the schedule is an argument (\<open>interleave\<close>). A stream of the databroker is the list of the
  messages it delivers and how it ends.
\<close>

subsection \<open>Records and streams\<close>

datatype record_kind = KeyPairRecords | RouteRecords | SettingsRecords | ConfigRecords | VersionedConfigRecords

definition all_kinds :: "record_kind list" where
  "all_kinds = [KeyPairRecords, RouteRecords, SettingsRecords, ConfigRecords, VersionedConfigRecords]"

datatype recordKey = RecordKey (rk_Type: string) (rk_ID: string)

text \<open>The messages, as far as the collector reads them; of a key pair that is the certificate.\<close>

datatype message =
    KeyPairMsg string
  | RouteMsg pb_route
  | SettingsMsg pb_settings
  | ConfigMsg pb_config
  | VersionedConfigMsg "pb_config option"

text \<open>A record: \<open>dr_Data\<close> is \<open>None\<close> when the data cannot be decoded.\<close>

record db_record =
  dr_Type :: string
  dr_Id :: string
  dr_Version :: "64 word"
  dr_DeletedAt :: "int option"
  dr_Data :: "message option"

definition dataBrokerConfigRecordID :: string where
  "dataBrokerConfigRecordID = ''pomerium-certificate-controller-config''"

definition kind_of :: "message \<Rightarrow> record_kind" where
  "kind_of m = (case m of KeyPairMsg _ \<Rightarrow> KeyPairRecords | RouteMsg _ \<Rightarrow> RouteRecords | SettingsMsg _ \<Rightarrow> SettingsRecords
     | ConfigMsg _ \<Rightarrow> ConfigRecords | VersionedConfigMsg _ \<Rightarrow> VersionedConfigRecords)"

text \<open>\<^verbatim>\<open>UnmarshalTo\<close> fails on data of another type.\<close>

definition UnmarshalTo :: "record_kind \<Rightarrow> message option \<Rightarrow> message option" where
  "UnmarshalTo k data = (case data of None \<Rightarrow> None | Some m \<Rightarrow> if kind_of m = k then Some m else None)"

definition empty_message :: "record_kind \<Rightarrow> message" where
  "empty_message k = (case k of KeyPairRecords \<Rightarrow> KeyPairMsg [] | RouteRecords \<Rightarrow> RouteMsg new_route
     | SettingsRecords \<Rightarrow> SettingsMsg new_settings | ConfigRecords \<Rightarrow> ConfigMsg new_config
     | VersionedConfigRecords \<Rightarrow> VersionedConfigMsg None)"

datatype db_status = DbNotFound | DbAborted | DbOther string

datatype stream_end = StreamEOF | StreamError db_status

datatype latest_response = LatestRecord db_record | LatestVersions "64 word" "64 word" | LatestOther

datatype sync_response = SyncRecord db_record | SyncOther

type_synonym 'm stream = "db_status + 'm list \<times> stream_end"

datatype collect_error =
    ErrSyncLatest record_kind db_status
  | ErrRecvLatest record_kind db_status
  | ErrSync record_kind db_status
  | ErrSyncAborted record_kind
  | ErrRecv record_kind db_status
  | ErrUnexpectedEOF record_kind

record collector_env =
  co_names :: names_env
  co_type_url :: "record_kind \<Rightarrow> string"
  co_stop_error :: collect_error

text \<open>\<open>co_type_url\<close> is \<^verbatim>\<open>grpcutil.GetTypeURL\<close>; \<open>co_stop_error\<close> is what the background synchronisation returns when its
  context is cancelled.\<close>

subsection \<open>Names of a record\<close>

definition removeEmpty :: "'a option list \<Rightarrow> 'a list" where
  "removeEmpty s = List.map_filter id s"

definition message_names :: "collector_env \<Rightarrow> message \<Rightarrow> string list \<times> string list" where
  "message_names E m =
     (case m of
        KeyPairMsg cert \<Rightarrow> GetNamesFromConfig (co_names E) (removeEmpty [Some cert]) [] []
      | RouteMsg route \<Rightarrow> GetNamesFromConfig (co_names E) [] (removeEmpty [Some route]) []
      | SettingsMsg settings \<Rightarrow> GetNamesFromConfig (co_names E) [] [] (removeEmpty [Some settings])
      | ConfigMsg config \<Rightarrow>
          GetNamesFromConfig (co_names E) [] (cfg_Routes config) (removeEmpty [cfg_Settings config])
      | VersionedConfigMsg v \<Rightarrow>
          GetNamesFromConfig (co_names E) [] (case v of None \<Rightarrow> [] | Some config \<Rightarrow> cfg_Routes config)
            (removeEmpty [case v of None \<Rightarrow> None | Some config \<Rightarrow> cfg_Settings config]))"

text \<open>What a goroutine does: update the matcher with the names of a record, and return.\<close>

datatype event =
    EvUpdate recordKey "string list" "string list"
  | EvDone record_kind "collect_error + 64 word \<times> 64 word"

text \<open>The callback of a goroutine; the configuration that the controller itself writes is ignored.\<close>

definition record_event :: "collector_env \<Rightarrow> record_kind \<Rightarrow> db_record \<Rightarrow> message \<Rightarrow> event list" where
  "record_event E k r m =
     (if k = ConfigRecords \<and> dr_Id r = dataBrokerConfigRecordID then []
      else case message_names E m of (certificateNames, routeNames) \<Rightarrow>
        [EvUpdate (RecordKey (dr_Type r) (dr_Id r)) certificateNames routeNames])"

subsection \<open>Reading the streams\<close>

fun latest_loop ::
  "collector_env \<Rightarrow> record_kind \<Rightarrow> 64 word \<times> 64 word \<Rightarrow> latest_response list \<Rightarrow> stream_end \<Rightarrow> event list" where
  "latest_loop E k v [] fin =
     [EvDone k (case fin of StreamEOF \<Rightarrow> Inr v | StreamError e \<Rightarrow> Inl (ErrRecvLatest k e))]"
| "latest_loop E k v (LatestRecord r # ms) fin =
     (case UnmarshalTo k (dr_Data r) of None \<Rightarrow> [] | Some m \<Rightarrow> record_event E k r m) @ latest_loop E k v ms fin"
| "latest_loop E k v (LatestVersions s r # ms) fin = latest_loop E k (s, r) ms fin"
| "latest_loop E k v (LatestOther # ms) fin = latest_loop E k v ms fin"

definition syncLatestRecords :: "collector_env \<Rightarrow> record_kind \<Rightarrow> latest_response stream \<Rightarrow> event list" where
  "syncLatestRecords E k res =
     (case res of
        Inl e \<Rightarrow> [EvDone k (Inl (ErrSyncLatest k e))]
      | Inr (ms, fin) \<Rightarrow> latest_loop E k (0, 0) ms fin)"

fun sync_loop :: "collector_env \<Rightarrow> record_kind \<Rightarrow> sync_response list \<Rightarrow> stream_end \<Rightarrow> event list" where
  "sync_loop E k [] fin =
     [EvDone k (Inl (case fin of
        StreamEOF \<Rightarrow> ErrUnexpectedEOF k
      | StreamError e \<Rightarrow> if e = DbAborted then ErrSyncAborted k else ErrRecv k e))]"
| "sync_loop E k (SyncRecord r # ms) fin =
     (case (if dr_DeletedAt r = None then UnmarshalTo k (dr_Data r) else Some (empty_message k)) of
        None \<Rightarrow> []
      | Some m \<Rightarrow> record_event E k r m) @ sync_loop E k ms fin"
| "sync_loop E k (SyncOther # ms) fin = sync_loop E k ms fin"

definition syncRecords :: "collector_env \<Rightarrow> record_kind \<Rightarrow> sync_response stream \<Rightarrow> event list" where
  "syncRecords E k res =
     (case res of
        Inl e \<Rightarrow> [EvDone k (Inl (ErrSync k e))]
      | Inr (ms, fin) \<Rightarrow> sync_loop E k ms fin)"

text \<open>The goroutine of position \<open>i\<close> runs next; when the schedule ends the rest follows in order.\<close>

fun interleave :: "nat list \<Rightarrow> 'a list list \<Rightarrow> 'a list" where
  "interleave [] qs = concat qs"
| "interleave (i # is) qs =
     (if i < length qs \<and> qs ! i \<noteq> [] then hd (qs ! i) # interleave is (qs[i := tl (qs ! i)]) else interleave is qs)"

subsection \<open>The collector\<close>

record collector =
  dc_operation :: "collect_error operation"
  dc_versions :: "record_kind \<Rightarrow> 64 word \<times> 64 word"
  dc_matcher :: "recordKey matcher option"

definition newDataBrokerCollector :: collector where
  "newDataBrokerCollector = \<lparr>dc_operation = NewOperation, dc_versions = (\<lambda>_. (0, 0)), dc_matcher = None\<rparr>"

text \<open>\<^verbatim>\<open>errgroup.Wait\<close> returns the first error of the goroutines.\<close>

definition first_error :: "collect_error option \<Rightarrow> collect_error \<Rightarrow> collect_error option" where
  "first_error err e = (case err of None \<Rightarrow> Some e | Some e' \<Rightarrow> Some e')"

definition init_event :: "collector \<times> collect_error option \<Rightarrow> event \<Rightarrow> collector \<times> collect_error option" where
  "init_event s ev =
     (case (s, ev) of
        ((c, err), EvUpdate key cns rns) \<Rightarrow> (c\<lparr>dc_matcher := map_option (\<lambda>m. Update m key cns rns) (dc_matcher c)\<rparr>, err)
      | ((c, err), EvDone k (Inl e)) \<Rightarrow> (c\<lparr>dc_versions := (dc_versions c)(k := (0, 0))\<rparr>, first_error err e)
      | ((c, err), EvDone k (Inr v)) \<Rightarrow> (c\<lparr>dc_versions := (dc_versions c)(k := v)\<rparr>, err))"

definition coll_init ::
  "collector_env \<Rightarrow> nat list \<Rightarrow> (record_kind \<Rightarrow> latest_response stream) \<Rightarrow> collector \<Rightarrow> collector \<times> collect_error option" where
  "coll_init E sched latest c =
     foldl init_event (c\<lparr>dc_matcher := Some NewMatcher\<rparr>, None)
       (interleave sched (map (\<lambda>k. syncLatestRecords E k (latest k)) all_kinds))"

text \<open>The background synchronisation also patches the status of the settings resource after each update, which
  triggers a reconciliation; the patches are counted, and their errors are only logged.\<close>

definition sync_event ::
  "collector \<times> nat \<times> collect_error option \<Rightarrow> event \<Rightarrow> collector \<times> nat \<times> collect_error option" where
  "sync_event s ev =
     (case (s, ev) of
        ((c, n, err), EvUpdate key cns rns) \<Rightarrow>
          (c\<lparr>dc_matcher := map_option (\<lambda>m. Update m key cns rns) (dc_matcher c)\<rparr>, Suc n, err)
      | ((c, n, err), EvDone k (Inl e)) \<Rightarrow> (c, n, first_error err e)
      | ((c, n, err), EvDone k (Inr v)) \<Rightarrow> (c, n, err))"

definition coll_sync ::
  "collector_env \<Rightarrow> nat list \<Rightarrow> (record_kind \<Rightarrow> 64 word \<times> 64 word \<Rightarrow> sync_response stream) \<Rightarrow> collector \<Rightarrow>
   collector \<times> nat \<times> collect_error option" where
  "coll_sync E sched streams c =
     foldl sync_event (c, 0, None)
       (interleave sched (map (\<lambda>k. syncRecords E k (streams k (dc_versions c k))) all_kinds))"

definition coll_MissingNames :: "collector \<Rightarrow> string list" where
  "coll_MissingNames c = (case dc_matcher c of None \<Rightarrow> [] | Some m \<Rightarrow> MissingNames m)"

definition coll_Stop :: "collector_env \<Rightarrow> collector \<Rightarrow> collector" where
  "coll_Stop E c =
     (case op_Stop (dc_operation c) of
        (x, None) \<Rightarrow> c\<lparr>dc_operation := x\<rparr>
      | (x, Some i) \<Rightarrow>
          c\<lparr>dc_operation := (if op_Wait x (Some i) = None then op_set_state i (Finished (Some (co_stop_error E))) x else x)\<rparr>)"

text \<open>\<^verbatim>\<open>Start(c.init)\<close> followed by \<^verbatim>\<open>Wait\<close>.\<close>

definition run_init ::
  "collector_env \<Rightarrow> nat list \<Rightarrow> (record_kind \<Rightarrow> latest_response stream) \<Rightarrow> collector \<Rightarrow> collector \<times> collect_error option" where
  "run_init E sched latest c =
     (let x = op_Start (dc_operation c) in
      case coll_init E sched latest (c\<lparr>dc_operation := x\<rparr>) of
        (c', err) \<Rightarrow> (c'\<lparr>dc_operation := op_set_state (length (op_runs (dc_operation c))) (Finished err) x\<rparr>, err))"

definition coll_Sync ::
  "collector_env \<Rightarrow> nat list \<Rightarrow> (record_kind \<Rightarrow> latest_response stream) \<Rightarrow> collector \<Rightarrow> collector \<times> collect_error option" where
  "coll_Sync E sched latest c =
     (case op_Error (dc_operation c) of
        Some e \<Rightarrow> (c\<lparr>dc_operation := op_Reset (dc_operation c), dc_matcher := None\<rparr>, Some e)
      | None \<Rightarrow>
          (case (if dc_matcher c = None then run_init E sched latest c else (c, None)) of
             (c1, Some e) \<Rightarrow> (c1\<lparr>dc_operation := op_Reset (dc_operation c1)\<rparr>, Some e)
           | (c1, None) \<Rightarrow>
               (if \<not> op_Active (dc_operation c1) then c1\<lparr>dc_operation := op_Start (dc_operation c1)\<rparr> else c1, None)))"

text \<open>The background run of a collector ends with an error.\<close>

definition coll_background_ends :: "collect_error \<Rightarrow> collector \<Rightarrow> collector" where
  "coll_background_ends e c =
     (case op_wg (dc_operation c) of
        None \<Rightarrow> c
      | Some i \<Rightarrow> c\<lparr>dc_operation := op_set_state i (Finished (Some e)) (dc_operation c)\<rparr>)"

subsection \<open>Interleavings\<close>

lemma mset_concat_update:
  assumes "i < length qs" "qs ! i = x # xs"
  shows "mset (concat qs) = add_mset x (mset (concat (qs[i := xs])))"
proof -
  have "qs = take i qs @ (x # xs) # drop (Suc i) qs" using id_take_nth_drop [OF assms(1)] assms(2) by simp
  moreover have "qs[i := xs] = take i qs @ xs # drop (Suc i) qs" by (rule upd_conv_take_nth_drop [OF assms(1)])
  ultimately show ?thesis
    by (metis (no_types, lifting) add_mset_add_single append_Cons concat.simps(2) concat_append mset.simps(2) mset_append
        union_mset_add_mset_left union_mset_add_mset_right)
qed

text \<open>Whatever the schedule, every event of every goroutine happens exactly once.\<close>

lemma mset_interleave: "mset (interleave sched qs) = mset (concat qs)"
proof (induction sched qs rule: interleave.induct)
  case (2 i "is" qs)
  show ?case
  proof (cases "i < length qs \<and> qs ! i \<noteq> []")
    case True
    then obtain x xs where x: "qs ! i = x # xs" by (cases "qs ! i") auto
    show ?thesis using True x 2(1) mset_concat_update [of i qs x xs] by simp
  next
    case False
    then show ?thesis using 2(2) by auto
  qed
qed simp

lemma set_interleave [simp]: "set (interleave sched qs) = (\<Union>q \<in> set qs. set q)"
  using arg_cong [OF mset_interleave [of sched qs], of set_mset] by simp

subsection \<open>The updates of a run\<close>

definition event_update :: "event \<Rightarrow> (recordKey \<times> string list \<times> string list) option" where
  "event_update ev = (case ev of EvUpdate key cns rns \<Rightarrow> Some (key, cns, rns) | EvDone _ _ \<Rightarrow> None)"

definition updates :: "event list \<Rightarrow> (recordKey \<times> string list \<times> string list) list" where
  "updates es = List.map_filter event_update es"

lemma updates_simps [simp]:
  "updates [] = []" "updates (EvUpdate key cns rns # es) = (key, cns, rns) # updates es"
  "updates (EvDone k r # es) = updates es" "updates (es @ es') = updates es @ updates es'"
  by (simp_all add: updates_def List.map_filter_def event_update_def)

lemma mset_updates: "mset es = mset es' \<Longrightarrow> mset (updates es) = mset (updates es')"
  by (metis (no_types, lifting) List.map_filter_def mset_filter mset_map updates_def)

lemma run_updates_simps [simp]:
  "run_updates m [] = m" "run_updates m ((key, cns, rns) # us) = run_updates (Update m key cns rns) us"
  by (simp_all add: run_updates_def)

lemma init_events:
  assumes "dc_matcher c = Some m"
  shows "dc_matcher (fst (foldl init_event (c, err) es)) = Some (run_updates m (updates es)) \<and>
    (snd (foldl init_event (c, err) es) = None \<longleftrightarrow> err = None \<and> (\<forall>k e. EvDone k (Inl e) \<notin> set es))"
  using assms
proof (induction es arbitrary: c err m)
  case (Cons ev es)
  show ?case
  proof (cases ev)
    case (EvUpdate key cns rns)
    then show ?thesis using Cons.IH [of "c\<lparr>dc_matcher := Some (Update m key cns rns)\<rparr>"] Cons.prems by (simp add: init_event_def)
  next
    case (EvDone k r)
    then show ?thesis
      using Cons.IH [of "c\<lparr>dc_versions := (dc_versions c)(k := (0, 0))\<rparr>" m] Cons.IH [of "c\<lparr>dc_versions := (dc_versions c)(k := projr r)\<rparr>" m]
        Cons.prems
      by (cases r) (auto simp: init_event_def first_error_def split: option.splits)
  qed
qed simp

lemma sync_events:
  assumes "dc_matcher c = Some m"
  shows "dc_matcher (fst (foldl sync_event (c, n, err) es)) = Some (run_updates m (updates es)) \<and>
    fst (snd (foldl sync_event (c, n, err) es)) = n + length (updates es) \<and>
    (snd (snd (foldl sync_event (c, n, err) es)) = None \<longleftrightarrow> err = None \<and> (\<forall>k e. EvDone k (Inl e) \<notin> set es))"
  using assms
proof (induction es arbitrary: c n err m)
  case (Cons ev es)
  show ?case
  proof (cases ev)
    case (EvUpdate key cns rns)
    then show ?thesis using Cons.IH [of "c\<lparr>dc_matcher := Some (Update m key cns rns)\<rparr>"] Cons.prems by (simp add: sync_event_def)
  next
    case (EvDone k r)
    then show ?thesis
      using Cons.IH [of c m] Cons.prems by (cases r) (auto simp: sync_event_def first_error_def split: option.splits)
  qed
qed simp

subsection \<open>What the first synchronisation collects\<close>

fun collected :: "record_kind \<Rightarrow> latest_response list \<Rightarrow> (db_record \<times> message) list" where
  "collected k [] = []"
| "collected k (LatestRecord r # ms) =
     (case UnmarshalTo k (dr_Data r) of
        Some m \<Rightarrow> if k = ConfigRecords \<and> dr_Id r = dataBrokerConfigRecordID then collected k ms else (r, m) # collected k ms
      | None \<Rightarrow> collected k ms)"
| "collected k (_ # ms) = collected k ms"

definition record_update :: "collector_env \<Rightarrow> db_record \<times> message \<Rightarrow> recordKey \<times> string list \<times> string list" where
  "record_update E x = (RecordKey (dr_Type (fst x)) (dr_Id (fst x)), message_names E (snd x))"

lemma updates_latest: "updates (latest_loop E k v ms fin) = map (record_update E) (collected k ms)"
  by (induction E k v ms fin rule: latest_loop.induct)
    (auto simp: record_event_def record_update_def split: option.split prod.split)

lemma latest_errors: "EvDone j (Inl e) \<in> set (latest_loop E k v ms fin) \<longleftrightarrow> j = k \<and> (\<exists>s. fin = StreamError s \<and> e = ErrRecvLatest k s)"
  by (induction E k v ms fin rule: latest_loop.induct)
    (auto simp: record_event_def split: option.splits prod.splits stream_end.splits if_splits)

lemma sync_loop_error: "\<exists>e. EvDone k (Inl e) \<in> set (sync_loop E k ms fin)"
  by (induction E k ms fin rule: sync_loop.induct) auto

text \<open>The records of a stream have the requested type and different ids.\<close>

definition latest_ids :: "latest_response list \<Rightarrow> string list" where
  "latest_ids ms = List.map_filter (\<lambda>m. case m of LatestRecord r \<Rightarrow> Some (dr_Id r) | _ \<Rightarrow> None) ms"

definition latest_ok :: "collector_env \<Rightarrow> record_kind \<Rightarrow> latest_response list \<Rightarrow> bool" where
  "latest_ok E k ms \<longleftrightarrow> distinct (latest_ids ms) \<and> (\<forall>r. LatestRecord r \<in> set ms \<longrightarrow> dr_Type r = co_type_url E k)"

lemma latest_ids_simps [simp]:
  "latest_ids [] = []" "latest_ids (LatestRecord r # ms) = dr_Id r # latest_ids ms"
  "latest_ids (LatestVersions s t # ms) = latest_ids ms" "latest_ids (LatestOther # ms) = latest_ids ms"
  by (simp_all add: latest_ids_def List.map_filter_def)

lemma collected_in: "x \<in> set (collected k ms) \<Longrightarrow> LatestRecord (fst x) \<in> set ms \<and> dr_Id (fst x) \<in> set (latest_ids ms)"
  by (induction k ms rule: collected.induct) (auto split: option.splits if_splits)

lemma distinct_collected: "distinct (latest_ids ms) \<Longrightarrow> distinct (map (\<lambda>x. dr_Id (fst x)) (collected k ms))"
  by (induction k ms rule: collected.induct) (auto split: option.splits dest: collected_in)

lemma distinct_update_keys:
  assumes "latest_ok E k ms"
  shows "distinct (map (\<lambda>x. fst (record_update E x)) (collected k ms))"
    and "\<And>x. x \<in> set (collected k ms) \<Longrightarrow> rk_Type (fst (record_update E x)) = co_type_url E k"
proof -
  have "distinct (map rk_ID (map (\<lambda>x. fst (record_update E x)) (collected k ms)))"
    using distinct_collected [of ms k] assms by (simp add: latest_ok_def record_update_def comp_def)
  then show "distinct (map (\<lambda>x. fst (record_update E x)) (collected k ms))" by (simp add: distinct_map inj_on_def)
  show "\<And>x. x \<in> set (collected k ms) \<Longrightarrow> rk_Type (fst (record_update E x)) = co_type_url E k"
    using assms collected_in [of _ k ms] by (auto simp: latest_ok_def record_update_def)
qed

text \<open>Updates of different keys: the state is read off the list.\<close>

lemma spec_updates_distinct:
  "distinct (map fst us) \<Longrightarrow>
   foldl spec_update f us k = (case map_of us k of Some (c, r) \<Rightarrow> (normalizeNames c, normalizeNames r) | None \<Rightarrow> f k)"
proof (induction us arbitrary: f)
  case (Cons u us)
  obtain key c r where u: "u = (key, c, r)" by (cases u)
  have "map_of us key = None" using Cons.prems u by (simp add: map_of_eq_None_iff)
  then show ?case using Cons u by (auto simp: spec_update_def split: option.split)
qed simp

lemma ex_spec_updates:
  assumes "distinct (map fst us)" "\<not> P ([], [])"
  shows "(\<exists>k. P (foldl spec_update (\<lambda>_. ([], [])) us k)) \<longleftrightarrow>
    (\<exists>key c r. (key, c, r) \<in> set us \<and> P (normalizeNames c, normalizeNames r))"
proof
  assume "\<exists>k. P (foldl spec_update (\<lambda>_. ([], [])) us k)"
  then obtain k where "P (case map_of us k of Some (c, r) \<Rightarrow> (normalizeNames c, normalizeNames r) | None \<Rightarrow> ([], []))"
    unfolding spec_updates_distinct [OF assms(1)] by blast
  then show "\<exists>key c r. (key, c, r) \<in> set us \<and> P (normalizeNames c, normalizeNames r)"
    using assms(2) by (auto split: option.splits dest!: map_of_SomeD)
next
  assume "\<exists>key c r. (key, c, r) \<in> set us \<and> P (normalizeNames c, normalizeNames r)"
  then obtain key c r where u: "(key, c, r) \<in> set us" "P (normalizeNames c, normalizeNames r)" by blast
  then have "map_of us key = Some (c, r)" using assms(1) by simp
  with u(2) show "\<exists>k. P (foldl spec_update (\<lambda>_. ([], [])) us k)"
    unfolding spec_updates_distinct [OF assms(1)] by (intro exI [of _ key]) simp
qed

lemma missing_of_updates:
  assumes "distinct (map fst us)"
  shows "n \<in> set (MissingNames (run_updates NewMatcher us)) \<longleftrightarrow>
    (\<exists>key c r. (key, c, r) \<in> set us \<and> n \<in> set (normalizeNames r)) \<and>
    \<not> (\<exists>key c r d. (key, c, r) \<in> set us \<and> d \<in> set (normalizeNames c) \<and> name_matches False n d)"
  using ex_spec_updates [OF assms, of "\<lambda>x. n \<in> set (snd x)"]
    ex_spec_updates [OF assms, of "\<lambda>x. \<exists>d. d \<in> set (fst x) \<and> name_matches False n d"]
  unfolding matcher_history [of n us] by auto

subsection \<open>The first synchronisation\<close>

text \<open>The names a record contributes, as the matcher keeps them.\<close>

definition covers :: "collector_env \<Rightarrow> message \<Rightarrow> string \<Rightarrow> bool" where
  "covers E m n \<longleftrightarrow> (\<exists>d \<in> set (normalizeNames (fst (message_names E m))). name_matches False n d)"

definition needs :: "collector_env \<Rightarrow> message \<Rightarrow> string \<Rightarrow> bool" where
  "needs E m n \<longleftrightarrow> n \<in> set (normalizeNames (snd (message_names E m)))"

definition in_databroker :: "(record_kind \<Rightarrow> latest_response list) \<Rightarrow> message \<Rightarrow> bool" where
  "in_databroker ms m \<longleftrightarrow> (\<exists>k r. (r, m) \<in> set (collected k (ms k)))"

lemma all_kinds_complete: "k \<in> set all_kinds"
  by (cases k) (simp_all add: all_kinds_def)

lemma distinct_concat_kinds:
  assumes "distinct ks" "\<And>k. k \<in> set ks \<Longrightarrow> distinct (f k)"
    and "\<And>j k x. j \<in> set ks \<Longrightarrow> k \<in> set ks \<Longrightarrow> x \<in> set (f j) \<Longrightarrow> x \<in> set (f k) \<Longrightarrow> j = k"
  shows "distinct (concat (map f ks))"
  using assms
proof (induction ks)
  case (Cons k ks)
  have "distinct (concat (map f ks))" by (rule Cons.IH) (use Cons.prems in auto)
  moreover have "x \<notin> set (f j)" if "x \<in> set (f k)" "j \<in> set ks" for x j
    using Cons.prems(1) Cons.prems(3) [of k j x] that by auto
  ultimately show ?case using Cons.prems(2) by auto
qed simp

lemma updates_concat: "updates (concat ess) = concat (map updates ess)"
  by (induction ess) auto

text \<open>C31: When every stream can be read to its end, the first synchronisation succeeds, and then, however the five
  goroutines are scheduled, the missing names are exactly the host names that a route of the databroker needs and no
  certificate of the databroker covers; the configuration of the controller itself does not count.\<close>

theorem init_missing_exact:
  assumes "inj (co_type_url E)"
    and "\<And>k. latest k = Inr (ms k, StreamEOF)"
    and "\<And>k. latest_ok E k (ms k)"
  shows "\<exists>c' m. coll_init E sched latest c = (c', None) \<and> dc_matcher c' = Some m \<and>
    (\<forall>n. n \<in> set (MissingNames m) \<longleftrightarrow>
       (\<exists>x. in_databroker ms x \<and> needs E x n) \<and> \<not> (\<exists>x. in_databroker ms x \<and> covers E x n))"
proof -
  define es where "es = interleave sched (map (\<lambda>k. syncLatestRecords E k (latest k)) all_kinds)"
  let ?us = "\<lambda>k. map (record_update E) (collected k (ms k))"
  have "mset (updates es) = mset (concat (map ?us all_kinds))"
    unfolding es_def mset_updates [OF mset_interleave]
    by (simp add: updates_concat comp_def syncLatestRecords_def assms(2) updates_latest)
  then have us: "mset (updates es) = mset (concat (map ?us all_kinds))" .
  have "distinct (concat (map (\<lambda>k. map fst (?us k)) all_kinds))"
  proof (rule distinct_concat_kinds)
    show "distinct all_kinds" by (simp add: all_kinds_def)
  next
    fix k show "distinct (map fst (?us k))" using distinct_update_keys(1) [OF assms(3)] by (simp add: comp_def)
  next
    fix j k x
    assume "x \<in> set (map fst (?us j))" "x \<in> set (map fst (?us k))"
    then have "rk_Type x = co_type_url E j" "rk_Type x = co_type_url E k"
      using distinct_update_keys(2) [OF assms(3)] by auto
    then show "j = k" using assms(1) by (simp add: inj_eq)
  qed
  moreover have "mset (map fst (updates es)) = mset (concat (map (\<lambda>k. map fst (?us k)) all_kinds))"
    using arg_cong [OF us, of "image_mset fst"] by (simp add: map_concat comp_def flip: mset_map)
  ultimately have d: "distinct (map fst (updates es))" by (metis mset_eq_imp_distinct_iff)
  have mem: "(key, c, r) \<in> set (updates es) \<longleftrightarrow>
      (\<exists>k x. x \<in> set (collected k (ms k)) \<and> (key, c, r) = record_update E x)" for key c r
    using arg_cong [OF us, of set_mset] all_kinds_complete by auto
  obtain c' err where run: "foldl init_event (c\<lparr>dc_matcher := Some NewMatcher\<rparr>, None) es = (c', err)" by fastforce
  have "err = None" "dc_matcher c' = Some (run_updates NewMatcher (updates es))"
    using init_events [of "c\<lparr>dc_matcher := Some NewMatcher\<rparr>" NewMatcher None es] run
    by (auto simp: es_def syncLatestRecords_def assms(2) latest_errors)
  moreover have "n \<in> set (MissingNames (run_updates NewMatcher (updates es))) \<longleftrightarrow>
       (\<exists>x. in_databroker ms x \<and> needs E x n) \<and> \<not> (\<exists>x. in_databroker ms x \<and> covers E x n)" for n
  proof -
    have ex: "(\<exists>key c r. (key, c, r) \<in> set (updates es) \<and> Q c r) \<longleftrightarrow>
        (\<exists>x. in_databroker ms x \<and> Q (fst (message_names E x)) (snd (message_names E x)))" for Q
      unfolding mem in_databroker_def record_update_def by (auto simp: prod_eq_iff) blast+
    have "(\<exists>key c r. (key, c, r) \<in> set (updates es) \<and> n \<in> set (normalizeNames r)) \<longleftrightarrow> (\<exists>x. in_databroker ms x \<and> needs E x n)"
      using ex [of "\<lambda>_ r. n \<in> set (normalizeNames r)"] by (simp add: needs_def)
    moreover have "(\<exists>key c r d. (key, c, r) \<in> set (updates es) \<and> d \<in> set (normalizeNames c) \<and> name_matches False n d) \<longleftrightarrow>
        (\<exists>x. in_databroker ms x \<and> covers E x n)"
      using ex [of "\<lambda>c _. \<exists>d. d \<in> set (normalizeNames c) \<and> name_matches False n d"] by (simp add: covers_def Bex_def)
    ultimately show ?thesis unfolding missing_of_updates [OF d] by simp
  qed
  ultimately show ?thesis using run by (auto simp: coll_init_def es_def)
qed

definition ex_collector_env :: collector_env where
  "ex_collector_env = \<lparr>co_names = ex_names_env,
     co_type_url = (\<lambda>k. case k of KeyPairRecords \<Rightarrow> ''KeyPair'' | RouteRecords \<Rightarrow> ''Route'' | SettingsRecords \<Rightarrow> ''Settings''
       | ConfigRecords \<Rightarrow> ''Config'' | VersionedConfigRecords \<Rightarrow> ''VersionedConfig''),
     co_stop_error = ErrRecv RouteRecords (DbOther ''context canceled'')\<rparr>"

definition ex_record :: "record_kind \<Rightarrow> string \<Rightarrow> message \<Rightarrow> latest_response" where
  "ex_record k i m = LatestRecord \<lparr>dr_Type = co_type_url ex_collector_env k, dr_Id = i, dr_Version = 1, dr_DeletedAt = None, dr_Data = Some m\<rparr>"

definition ex_route :: "string \<Rightarrow> pb_route" where
  "ex_route h = new_route\<lparr>r_From := ''https:'' @ h\<rparr>"

definition ex_own_config :: pb_config where
  "ex_own_config = new_config\<lparr>cfg_Routes := [ex_route ''own.example.com'']\<rparr>"

definition ex_latest :: "record_kind \<Rightarrow> latest_response list" where
  "ex_latest k =
     (case k of
        KeyPairRecords \<Rightarrow> [ex_record k ''1'' (KeyPairMsg ''+a.example.com''), LatestVersions 7 1]
      | RouteRecords \<Rightarrow> [ex_record k ''1'' (RouteMsg (ex_route ''b.example.com'')), ex_record k ''2'' (RouteMsg (ex_route ''a.example.com''))]
      | ConfigRecords \<Rightarrow> [ex_record k dataBrokerConfigRecordID (ConfigMsg ex_own_config), LatestOther]
      | _ \<Rightarrow> [])"

definition ex_collector :: collector where
  "ex_collector = fst (coll_init ex_collector_env [1, 0, 1, 3, 0] (\<lambda>k. Inr (ex_latest k, StreamEOF)) newDataBrokerCollector)"

lemma ex_collector_env_inj: "inj (co_type_url ex_collector_env)"
  by (auto simp: inj_def ex_collector_env_def split: record_kind.splits)

lemma ex_latest_ok: "latest_ok ex_collector_env k (ex_latest k)"
  by (cases k) (auto simp: latest_ok_def ex_latest_def ex_record_def)

theorem init_missing_exact_witness:
  "inj (co_type_url ex_collector_env) \<and> (\<forall>k. latest_ok ex_collector_env k (ex_latest k)) \<and>
   map_option MissingNames (dc_matcher ex_collector) = Some [''b.example.com''] \<and>
   (\<exists>x. in_databroker ex_latest x \<and> needs ex_collector_env x ''b.example.com'')"
proof -
  have m: "map_option MissingNames (dc_matcher ex_collector) = Some [''b.example.com'']" by code_simp
  obtain c' n where n: "coll_init ex_collector_env [1, 0, 1, 3, 0] (\<lambda>k. Inr (ex_latest k, StreamEOF)) newDataBrokerCollector = (c', None)"
      "dc_matcher c' = Some n"
      "\<And>h. h \<in> set (MissingNames n) \<longleftrightarrow> (\<exists>x. in_databroker ex_latest x \<and> needs ex_collector_env x h) \<and>
         \<not> (\<exists>x. in_databroker ex_latest x \<and> covers ex_collector_env x h)"
    using init_missing_exact [OF ex_collector_env_inj, of "\<lambda>k. Inr (ex_latest k, StreamEOF)" ex_latest "[1, 0, 1, 3, 0]" newDataBrokerCollector]
      ex_latest_ok by auto
  then have "''b.example.com'' \<in> set (MissingNames n)" using m by (simp add: ex_collector_def)
  then show ?thesis using n(3) m ex_collector_env_inj ex_latest_ok by blast
qed

subsection \<open>Failures and restarts\<close>

lemma coll_init_matcher: "dc_matcher (fst (coll_init E sched latest c)) \<noteq> None"
  using init_events [of "c\<lparr>dc_matcher := Some NewMatcher\<rparr>" NewMatcher] by (simp add: coll_init_def)

lemma run_init_matcher: "run_init E sched latest c = (c', err) \<Longrightarrow> dc_matcher c' \<noteq> None"
  using coll_init_matcher [of E sched latest "c\<lparr>dc_operation := op_Start (dc_operation c)\<rparr>"]
  by (auto simp: run_init_def Let_def split: prod.splits)

lemma after_reset [simp]: "op_Error (op_Reset x) = None" "\<not> op_Active (op_Reset x)"
  by (simp_all add: op_Error_def op_Active_def op_Reset_def)

lemma after_start [simp]: "op_Active (op_Start x)" "op_Error (op_Start x) = None"
  by (simp_all add: op_Active_def op_Error_def op_Start_current err_Load_def)

text \<open>After a synchronisation without an error there is a matcher, and the background synchronisation is active.\<close>

lemma coll_Sync_ready:
  "coll_Sync E sched latest c = (c', None) \<Longrightarrow> dc_matcher c' \<noteq> None \<and> op_Active (dc_operation c')"
  using run_init_matcher [of E sched latest c]
  by (auto simp: coll_Sync_def split: option.splits prod.splits if_splits)

lemma coll_Sync_running:
  "op_Active (dc_operation c) \<Longrightarrow> dc_matcher c = Some m \<Longrightarrow> coll_Sync E sched latest c = (c, None)"
  by (auto simp: coll_Sync_def op_Active_def op_Error_def split: option.splits)

text \<open>The background synchronisation applies the updates it receives, each with a patch of the settings status, and
  can only end with an error.\<close>

theorem background_never_succeeds:
  assumes "dc_matcher c = Some m"
  shows "\<exists>us e c'. coll_sync E sched streams c = (c', length us, Some e) \<and> dc_matcher c' = Some (run_updates m us)"
proof -
  define es where "es = interleave sched (map (\<lambda>k. syncRecords E k (streams k (dc_versions c k))) all_kinds)"
  obtain c' n err where run: "foldl sync_event (c, 0, None) es = (c', n, err)" by (metis prod_cases3)
  have "\<exists>e. EvDone KeyPairRecords (Inl e) \<in> set (syncRecords E KeyPairRecords (streams KeyPairRecords (dc_versions c KeyPairRecords)))"
    using sync_loop_error by (auto simp: syncRecords_def split: sum.split)
  then have "\<exists>e. EvDone KeyPairRecords (Inl e) \<in> set es" by (auto simp: es_def all_kinds_def)
  then have "err \<noteq> None" "dc_matcher c' = Some (run_updates m (updates es))" "n = length (updates es)"
    using sync_events [OF assms, of 0 None es] run by auto
  then show ?thesis using run by (auto simp: coll_sync_def es_def)
qed

text \<open>The call after such an error reports it and forgets everything, and the one after that starts from the beginning.\<close>

lemma background_error_reported:
  assumes "op_wg (dc_operation c) = Some i" "i < length (op_runs (dc_operation c))"
  shows "\<exists>c'. coll_Sync E sched latest (coll_background_ends e c) = (c', Some e) \<and> dc_matcher c' = None \<and>
    op_Error (dc_operation c') = None"
proof -
  have "op_Error (dc_operation (coll_background_ends e c)) = Some e"
    using assms by (simp add: coll_background_ends_def op_Error_def err_Load_def op_set_state_def)
  then show ?thesis by (simp add: coll_Sync_def)
qed

text \<open>When the first synchronisation fails, it is not tried again: the matcher with whatever has been read so
  far stays, and the next call reports success with it.\<close>

theorem failed_init_not_retried:
  assumes "dc_matcher c = None" "op_Error (dc_operation c) = None" "coll_Sync E sched latest c = (c', Some e)"
  shows "\<exists>m. dc_matcher c' = Some m \<and>
    (\<forall>sched' latest'. \<exists>c''. coll_Sync E sched' latest' c' = (c'', None) \<and> dc_matcher c'' = Some m)"
proof -
  obtain c1 where r: "run_init E sched latest c = (c1, Some e)" and c': "c' = c1\<lparr>dc_operation := op_Reset (dc_operation c1)\<rparr>"
    using assms by (auto simp: coll_Sync_def split: prod.splits option.splits)
  obtain m where "dc_matcher c1 = Some m" using run_init_matcher [OF r] by auto
  then show ?thesis using c' by (auto simp: coll_Sync_def)
qed

text \<open>Stopping the collector leaves the error of the cancelled run behind, which the next call reports.\<close>

theorem sync_after_stop_fails:
  assumes "op_wg (dc_operation c) = Some i" "op_cancel (dc_operation c) = Some i" "i < length (op_runs (dc_operation c))"
    and "run_state (op_runs (dc_operation c) ! i) = Executing"
  shows "snd (coll_Sync E sched latest (coll_Stop E c)) = Some (co_stop_error E)"
  using assms
  by (auto simp: coll_Sync_def coll_Stop_def op_Stop_def cancel_current_def cancel_run_def op_Wait_def op_Error_def err_Load_def
      op_set_state_def)

end
