(* ===== verification/Ingress_Config.thy ===== *)
theory Ingress_Config
  imports K8s_Types
begin

text \<open>
  \<^verbatim>\<open>model/ingress_config.go\<close>: an ingress with the objects it depends on, its boolean annotations, service
  ports by name, the checks of SSH and storage secrets, and the copy that reconcilers work on.
\<close>

subsection \<open>Annotation names\<close>

definition TLSCustomCASecret :: string where "TLSCustomCASecret = ''tls_custom_ca_secret''"
definition TLSClientSecret :: string where "TLSClientSecret = ''tls_client_secret''"
definition TLSDownstreamClientCASecret :: string where "TLSDownstreamClientCASecret = ''tls_downstream_client_ca_secret''"
definition SecureUpstream :: string where "SecureUpstream = ''secure_upstream''"
definition PathRegex :: string where "PathRegex = ''path_regex''"
definition UseServiceProxyKey :: string where "UseServiceProxyKey = ''service_proxy_upstream''"
definition SSHUpstream :: string where "SSHUpstream = ''ssh_upstream''"
definition TCPUpstream :: string where "TCPUpstream = ''tcp_upstream''"
definition UDPUpstream :: string where "UDPUpstream = ''udp_upstream''"
definition SubtleAllowEmptyHost :: string where "SubtleAllowEmptyHost = ''subtle_allow_empty_host''"
definition KubernetesServiceAccountTokenSecret :: string where
  "KubernetesServiceAccountTokenSecret = ''kubernetes_service_account_token_secret''"
definition KubernetesServiceAccountTokenSecretKey :: string where "KubernetesServiceAccountTokenSecretKey = ''token''"
definition SetRequestHeadersSecret :: string where "SetRequestHeadersSecret = ''set_request_headers_secret''"
definition SetResponseHeadersSecret :: string where "SetResponseHeadersSecret = ''set_response_headers_secret''"
definition StorageConnectionStringKey :: string where "StorageConnectionStringKey = ''connection''"
definition CAKey :: string where "CAKey = ''ca.crt''"
definition MCPServerKey :: string where "MCPServerKey = ''mcp_server''"
definition MCPClientKey :: string where "MCPClientKey = ''mcp_client''"
definition MCPServerMaxRequestBytes :: string where "MCPServerMaxRequestBytes = ''mcp_server_max_request_bytes''"
definition MCPServerUpstreamOAuth2AuthorizationURLParams :: string where
  "MCPServerUpstreamOAuth2AuthorizationURLParams = ''mcp_server_upstream_oauth2_authorization_url_params''"
definition MCPServerUpstreamOAuth2Secret :: string where "MCPServerUpstreamOAuth2Secret = ''mcp_server_upstream_oauth2_secret''"
definition MCPServerUpstreamOAuth2AuthURL :: string where "MCPServerUpstreamOAuth2AuthURL = ''mcp_server_upstream_oauth2_auth_url''"
definition MCPServerUpstreamOAuth2TokenURL :: string where "MCPServerUpstreamOAuth2TokenURL = ''mcp_server_upstream_oauth2_token_url''"
definition MCPServerUpstreamOAuth2Scopes :: string where "MCPServerUpstreamOAuth2Scopes = ''mcp_server_upstream_oauth2_scopes''"
definition MCPServerPath :: string where "MCPServerPath = ''mcp_server_path''"
definition MCPServerAuthorizationServerURL :: string where "MCPServerAuthorizationServerURL = ''mcp_server_authorization_server_url''"
definition MCPServerUpstreamOAuth2AuthStyle :: string where "MCPServerUpstreamOAuth2AuthStyle = ''mcp_server_upstream_oauth2_auth_style''"
definition ClientIDKey :: string where "ClientIDKey = ''client_id''"
definition ClientSecretKey :: string where "ClientSecretKey = ''client_secret''"
definition IdentityProviderSecret :: string where "IdentityProviderSecret = ''identity_provider_secret''"
definition UpstreamTunnelKey :: string where "UpstreamTunnelKey = ''upstream_tunnel''"
definition UpstreamTunnelSSHPolicy :: string where "UpstreamTunnelSSHPolicy = ''upstream_tunnel_ssh_policy''"

lemmas annotation_names = TLSCustomCASecret_def TLSClientSecret_def TLSDownstreamClientCASecret_def
  SecureUpstream_def PathRegex_def UseServiceProxyKey_def SSHUpstream_def TCPUpstream_def UDPUpstream_def
  SubtleAllowEmptyHost_def KubernetesServiceAccountTokenSecret_def SetRequestHeadersSecret_def
  SetResponseHeadersSecret_def MCPServerKey_def MCPClientKey_def MCPServerMaxRequestBytes_def
  MCPServerUpstreamOAuth2AuthorizationURLParams_def MCPServerUpstreamOAuth2Secret_def
  MCPServerUpstreamOAuth2AuthURL_def MCPServerUpstreamOAuth2TokenURL_def MCPServerUpstreamOAuth2Scopes_def
  MCPServerPath_def MCPServerAuthorizationServerURL_def MCPServerUpstreamOAuth2AuthStyle_def
  IdentityProviderSecret_def UpstreamTunnelKey_def UpstreamTunnelSSHPolicy_def

subsection \<open>Secrets of the settings\<close>

datatype secret_error =
    ErrSecretType namespaced_name string string
  | ErrStorageSecretMandatory
  | ErrSecretKey namespaced_name string

record SSHSecrets =
  HostKeys :: "secret list"
  UserCAKey :: "secret option"

definition check_type :: "string \<Rightarrow> secret \<Rightarrow> secret_error + unit" where
  "check_type t s =
     (if sec_type s \<noteq> t then Inl (ErrSecretType (GetNamespacedName (sec_meta s)) t (sec_type s)) else Inr ())"

definition ssh_Validate :: "SSHSecrets \<Rightarrow> secret_error + unit" where
  "ssh_Validate s =
     ebind (efold (\<lambda>_ hk. check_type SecretTypeSSHAuth hk) () (HostKeys s)) (\<lambda>_.
       case UserCAKey s of None \<Rightarrow> Inr () | Some uk \<Rightarrow> check_type SecretTypeSSHAuth uk)"

record StorageSecrets =
  ss_Secret :: "secret option"
  ss_TLS :: "secret option"
  ss_CA :: "secret option"

definition check_key :: "string \<Rightarrow> secret \<Rightarrow> secret_error + unit" where
  "check_key k s =
     (if map_of (sec_data s) k = None then Inl (ErrSecretKey (GetNamespacedName (sec_meta s)) k) else Inr ())"

definition storage_Validate :: "StorageSecrets \<Rightarrow> secret_error + unit" where
  "storage_Validate s =
     ebind (case ss_Secret s of
              None \<Rightarrow> Inl ErrStorageSecretMandatory
            | Some sec \<Rightarrow> check_key StorageConnectionStringKey sec) (\<lambda>_.
     ebind (case ss_TLS s of None \<Rightarrow> Inr () | Some sec \<Rightarrow> check_type SecretTypeTLS sec) (\<lambda>_.
       case ss_CA s of None \<Rightarrow> Inr () | Some sec \<Rightarrow> check_key CAKey sec))"

subsection \<open>Ingress configuration\<close>

record ingress_config =
  AnnotationPrefix :: string
  ic_Ingress :: ingress
  ic_Endpoints :: "(namespaced_name, endpoints) gomap"
  ic_Secrets :: "(namespaced_name, secret) gomap"
  ic_Services :: "(namespaced_name, service) gomap"

abbreviation ic_meta :: "ingress_config \<Rightarrow> object_meta" where
  "ic_meta ic \<equiv> ing_meta (ic_Ingress ic)"

definition IsAnnotationSet :: "ingress_config \<Rightarrow> string \<Rightarrow> bool" where
  "IsAnnotationSet ic name \<longleftrightarrow>
     ToLower (mget_str (om_annotations (ic_meta ic)) (AnnotationPrefix ic @ ''/'' @ name)) = ''true''"

definition IsSecureUpstream :: "ingress_config \<Rightarrow> bool" where
  "IsSecureUpstream ic = IsAnnotationSet ic SecureUpstream"

definition IsSSHUpstream :: "ingress_config \<Rightarrow> bool" where
  "IsSSHUpstream ic = IsAnnotationSet ic SSHUpstream"

definition IsTCPUpstream :: "ingress_config \<Rightarrow> bool" where
  "IsTCPUpstream ic = IsAnnotationSet ic TCPUpstream"

definition IsUDPUpstream :: "ingress_config \<Rightarrow> bool" where
  "IsUDPUpstream ic = IsAnnotationSet ic UDPUpstream"

definition IsPathRegex :: "ingress_config \<Rightarrow> bool" where
  "IsPathRegex ic = IsAnnotationSet ic PathRegex"

definition UseServiceProxy :: "ingress_config \<Rightarrow> bool" where
  "UseServiceProxy ic = IsAnnotationSet ic UseServiceProxyKey"

definition ic_GetNamespacedName :: "ingress_config \<Rightarrow> string \<Rightarrow> namespaced_name" where
  "ic_GetNamespacedName ic name = NamespacedName (om_namespace (ic_meta ic)) name"

definition GetIngressNamespacedName :: "ingress_config \<Rightarrow> namespaced_name" where
  "GetIngressNamespacedName ic = NamespacedName (om_namespace (ic_meta ic)) (om_name (ic_meta ic))"

datatype port_error =
    ErrServiceNotFetched namespaced_name
  | ErrPortNotFound string namespaced_name

definition GetServicePortByName :: "ingress_config \<Rightarrow> namespaced_name \<Rightarrow> string \<Rightarrow> port_error + int" where
  "GetServicePortByName ic name port =
     (case map_of (ic_Services ic) name of
        None \<Rightarrow> Inl (ErrServiceNotFetched name)
      | Some svc \<Rightarrow>
          (case List.find (\<lambda>sp. sp_name sp = port) (svc_ports svc) of
             Some sp \<Rightarrow> Inr (sp_port sp)
           | None \<Rightarrow> Inl (ErrPortNotFound port name)))"

definition httpSolverLabel :: string where
  "httpSolverLabel = ''acme.cert-manager.io/http01-solver''"

definition IsHTTP01Solver :: "ingress \<Rightarrow> bool" where
  "IsHTTP01Solver ing \<longleftrightarrow> ToLower (mget_str (om_labels (ing_meta ing)) httpSolverLabel) = ''true''"

text \<open>\<^verbatim>\<open>Clone\<close>: the endpoints map is made but not filled.\<close>

definition ic_Clone :: "ingress_config \<Rightarrow> ingress_config" where
  "ic_Clone ic =
     \<lparr>AnnotationPrefix = AnnotationPrefix ic, ic_Ingress = ic_Ingress ic, ic_Endpoints = [],
      ic_Secrets = mmerge [] (ic_Secrets ic), ic_Services = mmerge [] (ic_Services ic)\<rparr>"

subsection \<open>Lemmas and properties\<close>

lemma check_type_Inr: "check_type t s = Inr () \<longleftrightarrow> sec_type s = t"
  by (simp add: check_type_def)

lemma check_key_Inr: "check_key k s = Inr () \<longleftrightarrow> k \<in> dom (map_of (sec_data s))"
  by (auto simp: check_key_def dom_def)

lemma efold_check_Inr: "efold (\<lambda>_. f) () xs = Inr () \<longleftrightarrow> (\<forall>x \<in> set xs. f x = Inr ())"
  by (induction xs) (auto simp: ebind_Inr_iff)

text \<open>The secrets of the settings pass validation exactly when every SSH key has the SSH type, the
  storage secret is given with its connection string, the storage TLS secret has the TLS type and the
  storage CA secret has its certificate.\<close>

theorem secrets_Validate_iff:
  "(ssh_Validate s = Inr () \<longleftrightarrow>
      (\<forall>k \<in> set (HostKeys s) \<union> set_option (UserCAKey s). sec_type k = SecretTypeSSHAuth)) \<and>
   (storage_Validate t = Inr () \<longleftrightarrow>
      (\<exists>sec. ss_Secret t = Some sec \<and> StorageConnectionStringKey \<in> dom (map_of (sec_data sec))) \<and>
      (\<forall>sec \<in> set_option (ss_TLS t). sec_type sec = SecretTypeTLS) \<and>
      (\<forall>sec \<in> set_option (ss_CA t). CAKey \<in> dom (map_of (sec_data sec))))"
  unfolding ssh_Validate_def storage_Validate_def
  by (auto simp: ebind_Inr_iff check_type_Inr check_key_Inr efold_check_Inr split: option.splits)

definition ex_tls_secret :: secret where
  "ex_tls_secret = \<lparr>sec_meta = new_meta ''Secret'' ''ns'' ''tls'', sec_type = SecretTypeTLS,
     sec_data = [(TLSCertKey, ''cert''), (TLSPrivateKeyKey, ''key''), (StorageConnectionStringKey, ''c'')]\<rparr>"

theorem secrets_Validate_iff_witness:
  "storage_Validate \<lparr>ss_Secret = Some ex_tls_secret, ss_TLS = Some ex_tls_secret, ss_CA = None\<rparr> = Inr () \<and>
   ssh_Validate \<lparr>HostKeys = [ex_tls_secret], UserCAKey = None\<rparr> \<noteq> Inr ()"
  using secrets_Validate_iff [of "\<lparr>HostKeys = [ex_tls_secret], UserCAKey = None\<rparr>"
      "\<lparr>ss_Secret = Some ex_tls_secret, ss_TLS = Some ex_tls_secret, ss_CA = None\<rparr>"]
  by (simp add: ex_tls_secret_def SecretTypeTLS_def SecretTypeSSHAuth_def dom_def
      StorageConnectionStringKey_def TLSCertKey_def TLSPrivateKeyKey_def)

text \<open>A clone agrees with the ingress configuration on the annotations, the ingress, the secrets and the
  services, but has no endpoints.\<close>

theorem ic_Clone_drops_endpoints:
  assumes "wf_map (ic_Secrets ic)" "wf_map (ic_Services ic)"
  shows "AnnotationPrefix (ic_Clone ic) = AnnotationPrefix ic \<and> ic_Ingress (ic_Clone ic) = ic_Ingress ic \<and>
    map_of (ic_Secrets (ic_Clone ic)) = map_of (ic_Secrets ic) \<and>
    map_of (ic_Services (ic_Clone ic)) = map_of (ic_Services ic) \<and>
    map_of (ic_Endpoints (ic_Clone ic)) = Map.empty"
  using assms by (simp add: ic_Clone_def map_of_mmerge)

definition ex_ingress_obj :: ingress where
  "ex_ingress_obj =
     \<lparr>ing_meta = (new_meta ''Ingress'' ''ns'' ''web'')\<lparr>om_annotations := [(''p/secure_upstream'', ''True'')]\<rparr>,
      ing_class = None, ing_default_backend = None,
      ing_rules = [\<lparr>ir_host = ''a.example.com'',
        ir_http = Some [\<lparr>ip_path = ''/'', ip_type = Some PathTypePrefix,
          ip_service = Some \<lparr>sb_name = ''svc'', sb_port = \<lparr>bp_name = ''http'', bp_number = 0\<rparr>\<rparr>\<rparr>]\<rparr>],
      ing_tls = []\<rparr>"

definition ex_svc :: service where
  "ex_svc = \<lparr>svc_meta = new_meta ''Service'' ''ns'' ''svc'', svc_type = ''ClusterIP'', svc_external_name = [],
     svc_cluster_ip = ''10.0.0.1'',
     svc_ports = [\<lparr>sp_name = ''http'', sp_port = 80, sp_target = \<lparr>ios_is_int = True, IntVal = 8080, StrVal = []\<rparr>\<rparr>],
     svc_lb = []\<rparr>"

definition ex_ic :: ingress_config where
  "ex_ic = \<lparr>AnnotationPrefix = ''p'', ic_Ingress = ex_ingress_obj,
     ic_Endpoints = [(NamespacedName ''ns'' ''svc'', \<lparr>eps_subsets = [\<lparr>es_addresses = [''10.1.0.2'', ''10.1.0.1''],
       es_ports = [\<lparr>ep_name = ''http'', ep_port = 8080\<rparr>, \<lparr>ep_name = ''metrics'', ep_port = 9090\<rparr>]\<rparr>]\<rparr>)],
     ic_Secrets = [(NamespacedName ''ns'' ''tls'', ex_tls_secret)],
     ic_Services = [(NamespacedName ''ns'' ''svc'', ex_svc)]\<rparr>"

theorem ic_Clone_drops_endpoints_witness:
  "ic_Endpoints ex_ic \<noteq> [] \<and> map_of (ic_Endpoints (ic_Clone ex_ic)) = Map.empty"
proof -
  have "wf_map (ic_Secrets ex_ic)" "wf_map (ic_Services ex_ic)" by (simp_all add: ex_ic_def wf_map_def)
  then show ?thesis using ic_Clone_drops_endpoints [of ex_ic] by (simp add: ex_ic_def)
qed

end
