(* ===== verification/Registry.thy ===== *)
theory Registry
  imports Util
begin

text \<open>
  The dependency registry of \<^verbatim>\<open>model/registry.go\<close>: an undirected graph between Kubernetes
  objects, kept as a map from a key to the set of its neighbours, and the client of
  \<^verbatim>\<open>controllers/deps\<close> that records every object it reads. The contract the controllers rely on
  is the locale \<open>dep_registry\<close>, interpreted on the map at the end of the theory.
\<close>

datatype key = Key (Kind: string) (KeyName: namespaced_name)

type_synonym registry_items = "(key, key list) gomap"

definition neighbours :: "registry_items \<Rightarrow> key \<Rightarrow> key list" where
  "neighbours r x = (case map_of r x of None \<Rightarrow> [] | Some rx \<Rightarrow> rx)"

definition NewRegistry :: registry_items where
  "NewRegistry = []"

definition key_string :: "key \<Rightarrow> string" where
  "key_string k = Kind k @ '':'' @ Namespace (KeyName k) @ ''/'' @ Name (KeyName k)"

definition items_add :: "registry_items \<Rightarrow> key \<Rightarrow> key \<Rightarrow> registry_items" where
  "items_add r x y = AList.update x (List.insert y (neighbours r x)) r"

definition items_del :: "registry_items \<Rightarrow> key \<Rightarrow> key \<Rightarrow> registry_items" where
  "items_del r x y =
     (let rx = removeAll y (neighbours r x)
      in if rx = [] then AList.delete x r else AList.update x rx r)"

definition registry_Add :: "registry_items \<Rightarrow> key \<Rightarrow> key \<Rightarrow> registry_items" where
  "registry_Add r x y = (if x = y then r else items_add (items_add r x y) y x)"

definition Deps :: "registry_items \<Rightarrow> key \<Rightarrow> key list" where
  "Deps r x = neighbours r x"

definition DepsOfKind :: "registry_items \<Rightarrow> key \<Rightarrow> string \<Rightarrow> key list" where
  "DepsOfKind r x kind = filter (\<lambda>k. Kind k = kind) (neighbours r x)"

text \<open>The loop ranges over the neighbours of \<open>x\<close> and removes the edge in both directions.\<close>

definition DeleteCascade :: "registry_items \<Rightarrow> key \<Rightarrow> registry_items" where
  "DeleteCascade r x = foldl (\<lambda>r k. items_del (items_del r x k) k x) r (neighbours r x)"

subsection \<open>The tracking client\<close>

text \<open>
  \<^verbatim>\<open>deps.trackingClient\<close>: a read adds an edge from the client's key to the object read, then
  asks the wrapped client. The kind of the object read is a parameter (\<^verbatim>\<open>apiutil.GVKForObject\<close>
  on the scheme, \<open>None\<close> when the type is not registered); \<open>get\<close> is the wrapped client.
\<close>

datatype 'e track_error = GVKNotRegistered | NoKindAvailable | GetError 'e

definition makeKey :: "string option \<Rightarrow> namespaced_name \<Rightarrow> 'e track_error + key" where
  "makeKey gvk_kind name =
     (case gvk_kind of
        None \<Rightarrow> Inl GVKNotRegistered
      | Some kind \<Rightarrow> if kind = [] then Inl NoKindAvailable
                    else Inr (Key kind name))"

definition tracking_Get ::
  "(string \<Rightarrow> namespaced_name \<Rightarrow> 'e + 'o) \<Rightarrow> key \<Rightarrow> registry_items \<Rightarrow> string option \<Rightarrow> namespaced_name
     \<Rightarrow> registry_items \<times> ('e track_error + 'o)" where
  "tracking_Get get self r gvk_kind name =
     (case makeKey gvk_kind name of
        Inl e \<Rightarrow> (r, Inl e)
      | Inr dep \<Rightarrow>
          (registry_Add r self dep,
           (case get (Kind dep) name of Inl e \<Rightarrow> Inl (GetError e) | Inr obj \<Rightarrow> Inr obj)))"

text \<open>\<^verbatim>\<open>deps.GetDependantMapFunc\<close>: the requests a changed object triggers.\<close>

definition GetDependantMapFunc :: "registry_items \<Rightarrow> string \<Rightarrow> namespaced_name \<Rightarrow> namespaced_name list" where
  "GetDependantMapFunc r kind objname =
     map KeyName (Deps r (Key kind objname))"

subsection \<open>Invariant\<close>

text \<open>Entries: distinct keys, no empty and no repeated neighbours.\<close>

definition reg_entries :: "registry_items \<Rightarrow> bool" where
  "reg_entries r \<longleftrightarrow> wf_map r \<and> (\<forall>rx \<in> ran (map_of r). rx \<noteq> [] \<and> distinct rx)"

text \<open>The graph has no self edges and is symmetric.\<close>

definition reg_inv :: "registry_items \<Rightarrow> bool" where
  "reg_inv r \<longleftrightarrow> reg_entries r \<and>
     (\<forall>x. x \<notin> set (neighbours r x)) \<and>
     (\<forall>x y. y \<in> set (neighbours r x) \<longleftrightarrow> x \<in> set (neighbours r y))"

subsection \<open>The contract of a registry\<close>

locale dep_registry =
  fixes empty :: 'r
    and add :: "'r \<Rightarrow> 'k \<Rightarrow> 'k \<Rightarrow> 'r"
    and deps :: "'r \<Rightarrow> 'k \<Rightarrow> 'k list"
    and delete :: "'r \<Rightarrow> 'k \<Rightarrow> 'r"
    and invar :: "'r \<Rightarrow> bool"
  assumes invar_empty: "invar empty"
    and invar_add: "invar r \<Longrightarrow> invar (add r x y)"
    and invar_delete: "invar r \<Longrightarrow> invar (delete r x)"
    and deps_empty: "deps empty x = []"
    and deps_distinct: "invar r \<Longrightarrow> distinct (deps r x)"
    and deps_irrefl: "invar r \<Longrightarrow> x \<notin> set (deps r x)"
    and deps_sym: "invar r \<Longrightarrow> y \<in> set (deps r x) \<Longrightarrow> x \<in> set (deps r y)"
    and deps_add: "invar r \<Longrightarrow>
      set (deps (add r x y) z) =
        set (deps r z) \<union> (if x \<noteq> y \<and> z = x then {y} else {}) \<union> (if x \<noteq> y \<and> z = y then {x} else {})"
    and deps_delete: "invar r \<Longrightarrow>
      set (deps (delete r x) z) = (if z = x then {} else set (deps r z) - {x})"
begin

text \<open>A client reads the objects \<open>ds\<close> on behalf of \<open>k\<close>: one edge per read.\<close>

lemma invar_adds: "invar r \<Longrightarrow> invar (foldl (\<lambda>r d. add r k d) r ds)"
  by (induction ds arbitrary: r) (auto intro: invar_add)

lemma deps_adds_self:
  "invar r \<Longrightarrow> set (deps (foldl (\<lambda>r d. add r k d) r ds) k) = set (deps r k) \<union> (set ds - {k})"
  by (induction ds arbitrary: r) (auto simp: invar_add deps_add)

lemma deps_adds_other:
  "invar r \<Longrightarrow> z \<noteq> k \<Longrightarrow>
     set (deps (foldl (\<lambda>r d. add r k d) r ds) z) = set (deps r z) \<union> (if z \<in> set ds then {k} else {})"
  by (induction ds arbitrary: r) (auto simp: invar_add deps_add)

text \<open>
  A reconciliation forgets the old edges of \<open>k\<close> and then reads \<open>ds\<close>: afterwards the
  neighbours of \<open>k\<close> are exactly the objects read.
\<close>

lemma refetch_self:
  "invar r \<Longrightarrow> set (deps (foldl (\<lambda>r d. add r k d) (delete r k) ds) k) = set ds - {k}"
  by (simp add: deps_adds_self invar_delete deps_delete)

lemma refetch_other:
  "invar r \<Longrightarrow> z \<noteq> k \<Longrightarrow>
     set (deps (foldl (\<lambda>r d. add r k d) (delete r k) ds) z) =
       (set (deps r z) - {k}) \<union> (if z \<in> set ds then {k} else {})"
  by (simp add: deps_adds_other invar_delete deps_delete)

end

subsection \<open>The map satisfies the contract\<close>

lemma neighbours_update:
  "neighbours (AList.update x ys r) z = (if z = x then ys else neighbours r z)"
  by (simp add: neighbours_def gomap_simps)

lemma neighbours_delete: "neighbours (AList.delete x r) z = (if z = x then [] else neighbours r z)"
  by (simp add: neighbours_def gomap_simps)

lemma neighbours_add:
  "neighbours (items_add r x y) z = (if z = x then List.insert y (neighbours r x) else neighbours r z)"
  by (simp add: items_add_def neighbours_update)

lemma neighbours_del:
  "neighbours (items_del r x y) z = (if z = x then removeAll y (neighbours r x) else neighbours r z)"
  by (simp add: items_del_def Let_def neighbours_update neighbours_delete)

lemmas neighbours_simps = neighbours_update neighbours_delete neighbours_add neighbours_del

text \<open>Each edge operation keeps the entries well formed.\<close>

lemma distinct_neighbours: "reg_entries r \<Longrightarrow> distinct (neighbours r x)"
  unfolding reg_entries_def neighbours_def
  by (cases "map_of r x") (simp, metis option.simps(5) ranI)

lemma reg_entries_update:
  "reg_entries r \<Longrightarrow> ys \<noteq> [] \<Longrightarrow> distinct ys \<Longrightarrow> reg_entries (AList.update x ys r)"
  unfolding reg_entries_def using ran_update [of x ys r] by fastforce

lemma reg_entries_delete: "reg_entries r \<Longrightarrow> reg_entries (AList.delete x r)"
  unfolding reg_entries_def using ran_delete [of x r] by auto

lemma reg_entries_add: "reg_entries r \<Longrightarrow> reg_entries (items_add r x y)"
  unfolding items_add_def
  by (rule reg_entries_update) (auto simp: distinct_neighbours List.insert_def)

lemma reg_entries_del: "reg_entries r \<Longrightarrow> reg_entries (items_del r x y)"
  by (simp add: items_del_def Let_def reg_entries_delete reg_entries_update distinct_neighbours distinct_removeAll)

lemma registry_Add_neighbours:
  "set (neighbours (registry_Add r x y) z) =
     set (neighbours r z) \<union> (if x \<noteq> y \<and> z = x then {y} else {}) \<union> (if x \<noteq> y \<and> z = y then {x} else {})"
  by (auto simp: registry_Add_def neighbours_simps)

lemma reg_inv_Add: "reg_inv r \<Longrightarrow> reg_inv (registry_Add r x y)"
  unfolding reg_inv_def registry_Add_neighbours
  by (auto simp: registry_Add_def reg_entries_add)

text \<open>The cascade loop over any list of neighbours.\<close>

lemma cascade_neighbours:
  "x \<notin> set ks \<Longrightarrow>
   set (neighbours (foldl (\<lambda>r k. items_del (items_del r x k) k x) r ks) z) =
     (if z = x then set (neighbours r x) - set ks
      else if z \<in> set ks then set (neighbours r z) - {x} else set (neighbours r z))"
  by (induction ks arbitrary: r) (auto simp: neighbours_simps)

lemma cascade_entries:
  "reg_entries r \<Longrightarrow> reg_entries (foldl (\<lambda>r k. items_del (items_del r x k) k x) r ks)"
  by (induction ks arbitrary: r) (auto intro: reg_entries_del)

lemma DeleteCascade_neighbours:
  assumes "reg_inv r"
  shows "set (neighbours (DeleteCascade r x) z) = (if z = x then {} else set (neighbours r z) - {x})"
proof -
  from assms have "x \<notin> set (neighbours r x)"
    and sym: "\<And>x y. y \<in> set (neighbours r x) \<longleftrightarrow> x \<in> set (neighbours r y)"
    by (auto simp: reg_inv_def)
  then show ?thesis
    using sym [of z x] unfolding DeleteCascade_def by (subst cascade_neighbours) auto
qed

lemma reg_inv_DeleteCascade:
  assumes "reg_inv r"
  shows "reg_inv (DeleteCascade r x)"
proof -
  have "reg_entries (DeleteCascade r x)"
    using assms unfolding DeleteCascade_def reg_inv_def by (simp add: cascade_entries)
  then show ?thesis
    using assms unfolding reg_inv_def DeleteCascade_neighbours [OF assms] by auto
qed

interpretation reg: dep_registry NewRegistry registry_Add Deps DeleteCascade reg_inv
proof unfold_locales
  show "reg_inv NewRegistry"
    by (simp add: reg_inv_def reg_entries_def NewRegistry_def neighbours_def)
  fix r x y z
  show "Deps NewRegistry x = []"
    by (simp add: Deps_def NewRegistry_def neighbours_def)
  assume r: "reg_inv r"
  show "reg_inv (registry_Add r x y)" using r by (rule reg_inv_Add)
  show "reg_inv (DeleteCascade r x)" using r by (rule reg_inv_DeleteCascade)
  show "distinct (Deps r x)"
    using r by (simp add: Deps_def reg_inv_def distinct_neighbours)
  show "x \<notin> set (Deps r x)" using r by (simp add: Deps_def reg_inv_def)
  show "set (Deps (registry_Add r x y) z) =
      set (Deps r z) \<union> (if x \<noteq> y \<and> z = x then {y} else {}) \<union> (if x \<noteq> y \<and> z = y then {x} else {})"
    unfolding Deps_def by (rule registry_Add_neighbours)
  show "set (Deps (DeleteCascade r x) z) = (if z = x then {} else set (Deps r z) - {x})"
    unfolding Deps_def by (rule DeleteCascade_neighbours [OF r])
  show "y \<in> set (Deps r x) \<Longrightarrow> x \<in> set (Deps r y)"
    using r by (auto simp: Deps_def reg_inv_def)
qed

subsection \<open>Properties\<close>

text \<open>Deleting a key removes it from every neighbour list and nothing else: the key has no
  dependencies left, every other key keeps exactly its other dependencies, and the registry
  invariant (symmetry, no self edges, no empty entries) still holds.\<close>

theorem DeleteCascade_spec:
  assumes "reg_inv r"
  shows "Deps (DeleteCascade r x) x = [] \<and>
    (\<forall>z. z \<noteq> x \<longrightarrow> set (Deps (DeleteCascade r x) z) = set (Deps r z) - {x}) \<and>
    reg_inv (DeleteCascade r x)"
proof (intro conjI allI impI)
  show "Deps (DeleteCascade r x) x = []" using reg.deps_delete [OF assms, of x x] by simp
qed (simp_all add: reg.deps_delete reg.invar_delete assms)

text \<open>A registry in which an ingress depends on a secret and a service.\<close>

definition ex_ingress :: key where
  "ex_ingress = (Key ''Ingress'' (NamespacedName ''ns'' ''web''))"

definition ex_secret :: key where
  "ex_secret = (Key ''Secret'' (NamespacedName ''ns'' ''tls''))"

definition ex_service :: key where
  "ex_service = (Key ''Service'' (NamespacedName ''ns'' ''svc''))"

definition ex_registry :: registry_items where
  "ex_registry = registry_Add (registry_Add NewRegistry ex_ingress ex_secret) ex_ingress ex_service"

lemma ex_registry_inv: "reg_inv ex_registry"
  by (simp add: ex_registry_def reg.invar_add reg.invar_empty)

theorem DeleteCascade_spec_witness:
  "reg_inv ex_registry \<and> Deps (DeleteCascade ex_registry ex_ingress) ex_ingress = [] \<and>
   reg_inv (DeleteCascade ex_registry ex_ingress)"
  using ex_registry_inv DeleteCascade_spec [OF ex_registry_inv, of ex_ingress] by blast

text \<open>A reconciliation that forgets the dependencies of an object and then reads others
  through the tracking client leaves exactly the objects read as its dependencies, found or not,
  so that a later change of any of them maps back to a request for the object; edges between other
  objects do not change.\<close>

theorem refetch_dependencies:
  assumes "reg_inv r" and "k \<notin> set ds"
  shows "set (Deps (foldl (\<lambda>r d. registry_Add r k d) (DeleteCascade r k) ds) k) = set ds \<and>
    (\<forall>d \<in> set ds. KeyName k \<in> set (GetDependantMapFunc (foldl (\<lambda>r d. registry_Add r k d) (DeleteCascade r k) ds)
        (Kind d) (KeyName d))) \<and>
    (\<forall>x y. x \<noteq> k \<and> y \<noteq> k \<longrightarrow>
      (y \<in> set (Deps (foldl (\<lambda>r d. registry_Add r k d) (DeleteCascade r k) ds) x) \<longleftrightarrow> y \<in> set (Deps r x)))"
proof -
  let ?r = "foldl (\<lambda>r d. registry_Add r k d) (DeleteCascade r k) ds"
  have other: "\<And>z. z \<noteq> k \<Longrightarrow> set (Deps ?r z) = (set (Deps r z) - {k}) \<union> (if z \<in> set ds then {k} else {})"
    by (rule reg.refetch_other [OF assms(1)])
  have "KeyName k \<in> set (GetDependantMapFunc ?r (Kind d) (KeyName d))" if "d \<in> set ds" for d
  proof -
    have "d \<noteq> k" using that assms(2) by auto
    then have "k \<in> set (Deps ?r d)" using other that by simp
    then show ?thesis by (auto simp: GetDependantMapFunc_def)
  qed
  then show ?thesis
    using reg.refetch_self [OF assms(1), of k ds] other assms(2) by auto
qed

theorem refetch_dependencies_witness:
  "reg_inv ex_registry \<and>
   set (Deps (foldl (\<lambda>r d. registry_Add r ex_ingress d) (DeleteCascade ex_registry ex_ingress) [ex_service]) ex_ingress)
     = {ex_service}"
proof -
  have "ex_ingress \<notin> set [ex_service]" by (simp add: ex_ingress_def ex_service_def)
  from refetch_dependencies [OF ex_registry_inv this] show ?thesis using ex_registry_inv by simp
qed

text \<open>A read through the tracking client registers the edge before it asks the wrapped client,
  so an object that is not found is a dependency too; a read of an unregistered type changes
  nothing.\<close>

theorem tracking_Get_registers:
  "(kind \<noteq> [] \<and> reg_inv r \<and> self \<noteq> (Key kind name) \<longrightarrow>
     self \<in> set (Deps (fst (tracking_Get get self r (Some kind) name)) (Key kind name)) \<and>
     reg_inv (fst (tracking_Get get self r (Some kind) name)) \<and>
     snd (tracking_Get get self r (Some kind) name) =
       (case get kind name of Inl e \<Rightarrow> Inl (GetError e) | Inr obj \<Rightarrow> Inr obj)) \<and>
   tracking_Get get self r None name = (r, Inl GVKNotRegistered)"
  by (auto simp: tracking_Get_def makeKey_def reg.deps_add reg.invar_add)

theorem tracking_Get_registers_witness:
  "ex_ingress \<in> set (Deps (fst (tracking_Get (\<lambda>_ _. Inl ''not found'' :: string + unit) ex_ingress NewRegistry
      (Some ''Secret'') (NamespacedName ''ns'' ''tls'')))
      (Key ''Secret'' (NamespacedName ''ns'' ''tls'')))"
proof -
  have "''Secret'' \<noteq> ([] :: string) \<and> reg_inv NewRegistry \<and>
      ex_ingress \<noteq> (Key ''Secret'' (NamespacedName ''ns'' ''tls''))"
    by (simp add: reg.invar_empty ex_ingress_def)
  then show ?thesis
    using tracking_Get_registers [of "''Secret''" NewRegistry ex_ingress "(NamespacedName ''ns'' ''tls'')"
        "\<lambda>_ _. Inl ''not found'' :: string + unit"] by blast
qed

end
