(* ===== verification/Api_Client.thy ===== *)
theory Api_Client
  imports Ingress_Config Registry
begin

text \<open>
  Reading from the API server: the snapshot of the cluster a reconciliation sees is an argument, a read can fail,
  and a read through the tracking client of \<^verbatim>\<open>controllers/deps\<close> also changes the registry. An \<open>action\<close> changes a
  state and fails or returns a value; \<open>tracks self K m\<close> says that an action reads the objects \<open>K\<close> for the object
  \<open>self\<close>.
\<close>

subsection \<open>Actions\<close>

type_synonym ('s, 'e, 'a) action = "'s \<Rightarrow> 's \<times> ('e + 'a)"

definition act_return :: "'a \<Rightarrow> ('s, 'e, 'a) action" where
  "act_return x s = (s, Inr x)"

definition act_fail :: "'e \<Rightarrow> ('s, 'e, 'a) action" where
  "act_fail e s = (s, Inl e)"

definition act_bind :: "('s, 'e, 'a) action \<Rightarrow> ('a \<Rightarrow> ('s, 'e, 'b) action) \<Rightarrow> ('s, 'e, 'b) action" where
  "act_bind m f s = (case m s of (s', Inl e) \<Rightarrow> (s', Inl e) | (s', Inr x) \<Rightarrow> f x s')"

text \<open>A loop with an accumulator that stops at the first failure.\<close>

fun act_fold :: "('acc \<Rightarrow> 'x \<Rightarrow> ('s, 'e, 'acc) action) \<Rightarrow> 'acc \<Rightarrow> 'x list \<Rightarrow> ('s, 'e, 'acc) action" where
  "act_fold f acc [] = act_return acc"
| "act_fold f acc (x # xs) = act_bind (f acc x) (\<lambda>acc'. act_fold f acc' xs)"

lemma act_bind_Inr:
  "snd (act_bind m f s) = Inr y \<longleftrightarrow> (\<exists>x. snd (m s) = Inr x \<and> snd (f x (fst (m s))) = Inr y)"
  by (auto simp: act_bind_def split: prod.splits sum.splits)

lemma act_bind_Inl:
  "snd (act_bind m f s) = Inl e \<longleftrightarrow> snd (m s) = Inl e \<or> (\<exists>x. snd (m s) = Inr x \<and> snd (f x (fst (m s))) = Inl e)"
  by (auto simp: act_bind_def split: prod.splits sum.splits)

lemma act_bind_InrE:
  assumes "act_bind m f s = (s', Inr y)"
  obtains x t where "m s = (t, Inr x)" "f x t = (s', Inr y)"
  using assms by (auto simp: act_bind_def split: prod.splits sum.splits)

lemma fst_act_bind:
  "fst (act_bind m f s) = (case snd (m s) of Inl _ \<Rightarrow> fst (m s) | Inr x \<Rightarrow> fst (f x (fst (m s))))"
  by (simp add: act_bind_def split: prod.splits sum.splits)

lemma snd_act_bind:
  "snd (act_bind m f s) = (case snd (m s) of Inl e \<Rightarrow> Inl e | Inr x \<Rightarrow> snd (f x (fst (m s))))"
  by (simp add: act_bind_def split: prod.splits sum.splits)

lemma act_simps [simp]:
  "snd (act_return x s) = Inr x" "fst (act_return x s) = s" "snd (act_fail e s) = Inl e" "fst (act_fail e s) = s"
  by (simp_all add: act_return_def act_fail_def)

subsection \<open>The API server\<close>

text \<open>A read fails because the object is missing, with another status of the server, or in the client
  (the connection, the cache, a deadline).\<close>

datatype api_error = NotFound | StatusError string | ClientError string

definition IsNotFound :: "api_error \<Rightarrow> bool" where
  "IsNotFound e \<longleftrightarrow> e = NotFound"

text \<open>\<^verbatim>\<open>errors.As(err, &status)\<close> with an \<^verbatim>\<open>apierrors.APIStatus\<close>.\<close>

definition is_api_status :: "api_error \<Rightarrow> bool" where
  "is_api_status e = (case e of ClientError _ \<Rightarrow> False | _ \<Rightarrow> True)"

record api_server =
  as_ingress :: "namespaced_name \<Rightarrow> api_error + ingress"
  as_ingresses :: "api_error + ingress list"
  as_classes :: "api_error + ingress_class list"
  as_secret :: "namespaced_name \<Rightarrow> api_error + secret"
  as_service :: "namespaced_name \<Rightarrow> api_error + service"
  as_endpoints :: "namespaced_name \<Rightarrow> api_error + endpoints"
  as_update_status :: "namespaced_name \<Rightarrow> api_error option"

text \<open>The kinds under which the scheme knows the types.\<close>

definition SecretKind :: string where "SecretKind = ''Secret''"
definition ServiceKind :: string where "ServiceKind = ''Service''"
definition EndpointsKind :: string where "EndpointsKind = ''Endpoints''"
definition IngressKind :: string where "IngressKind = ''Ingress''"
definition PomeriumKind :: string where "PomeriumKind = ''Pomerium''"

lemmas kind_defs = SecretKind_def ServiceKind_def EndpointsKind_def IngressKind_def PomeriumKind_def

datatype fetch_error =
    ErrGetObject key "api_error track_error"
  | ErrNoBackendService string string
  | ErrDefaultBackendNil
  | ErrParseName string nn_error
  | ErrSecrets secret_error
  | ErrNoStorage

type_synonym 'a tracked = "(registry_items, fetch_error, 'a) action"

definition tracked_Get :: "key \<Rightarrow> string \<Rightarrow> (namespaced_name \<Rightarrow> api_error + 'o) \<Rightarrow> namespaced_name \<Rightarrow> 'o tracked" where
  "tracked_Get self kind get name r =
     (case tracking_Get (\<lambda>_. get) self r (Some kind) name of
        (r', Inl e) \<Rightarrow> (r', Inl (ErrGetObject (Key kind name) e))
      | (r', Inr x) \<Rightarrow> (r', Inr x))"

subsection \<open>What an action reads\<close>

definition register_all :: "key \<Rightarrow> registry_items \<Rightarrow> key list \<Rightarrow> registry_items" where
  "register_all self r ds = foldl (\<lambda>r d. registry_Add r self d) r ds"

definition tracks :: "key \<Rightarrow> key set \<Rightarrow> 'a tracked \<Rightarrow> bool" where
  "tracks self K m \<longleftrightarrow>
     (\<forall>r. \<exists>ds. fst (m r) = register_all self r ds \<and> set ds \<subseteq> K \<and>
        (\<forall>x. snd (m r) = Inr x \<longrightarrow> set ds = K) \<and>
        (\<forall>k e. snd (m r) = Inl (ErrGetObject k e) \<longrightarrow> k \<in> set ds))"

definition is_get_error :: "fetch_error \<Rightarrow> bool" where
  "is_get_error e = (case e of ErrGetObject _ _ \<Rightarrow> True | _ \<Rightarrow> False)"

lemma register_all_append: "register_all self r (ds @ ds') = register_all self (register_all self r ds) ds'"
  by (simp add: register_all_def)

lemma register_all_Nil [simp]: "register_all self r [] = r"
  by (simp add: register_all_def)

lemma register_all_Cons: "register_all self r (d # ds) = register_all self (registry_Add r self d) ds"
  by (simp add: register_all_def)

lemma tracksD:
  assumes "tracks self K m"
  shows "\<exists>ds. fst (m r) = register_all self r ds \<and> set ds \<subseteq> K \<and> (\<forall>x. snd (m r) = Inr x \<longrightarrow> set ds = K) \<and>
    (\<forall>k e. snd (m r) = Inl (ErrGetObject k e) \<longrightarrow> k \<in> set ds)"
  using assms unfolding tracks_def by blast

lemma tracks_return [simp]: "tracks self {} (act_return x)"
  unfolding tracks_def by (auto intro!: exI [of _ "[]"])

lemma tracks_fail: "\<not> is_get_error e \<Longrightarrow> tracks self K (act_fail e)"
  unfolding tracks_def by (auto simp: is_get_error_def intro!: exI [of _ "[]"])

lemma tracks_get: "kind \<noteq> [] \<Longrightarrow> tracks self {Key kind name} (tracked_Get self kind get name)"
  unfolding tracks_def
  by (auto simp: tracked_Get_def tracking_Get_def makeKey_def register_all_def split: sum.split
      intro!: exI [of _ "[Key kind name]"])

lemma tracked_Get_result:
  "kind \<noteq> [] \<Longrightarrow> snd (tracked_Get self kind get name r) =
     (case get name of Inl e \<Rightarrow> Inl (ErrGetObject (Key kind name) (GetError e)) | Inr x \<Rightarrow> Inr x)"
  by (simp add: tracked_Get_def tracking_Get_def makeKey_def split: sum.split)

lemma tracks_bind:
  assumes m: "tracks self K m" and f: "\<And>x r. snd (m r) = Inr x \<Longrightarrow> tracks self K' (f x)"
  shows "tracks self (K \<union> K') (act_bind m f)"
  unfolding tracks_def
proof
  fix r
  obtain ds where ds: "fst (m r) = register_all self r ds" "set ds \<subseteq> K"
    "\<And>x. snd (m r) = Inr x \<Longrightarrow> set ds = K" "\<And>k e. snd (m r) = Inl (ErrGetObject k e) \<Longrightarrow> k \<in> set ds"
    using tracksD [OF m, of r] by auto
  show "\<exists>ds. fst (act_bind m f r) = register_all self r ds \<and> set ds \<subseteq> K \<union> K' \<and>
      (\<forall>x. snd (act_bind m f r) = Inr x \<longrightarrow> set ds = K \<union> K') \<and>
      (\<forall>k e. snd (act_bind m f r) = Inl (ErrGetObject k e) \<longrightarrow> k \<in> set ds)"
  proof (cases "snd (m r)")
    case (Inl e)
    then show ?thesis using ds by (intro exI [of _ ds]) (auto simp: act_bind_Inr act_bind_Inl fst_act_bind)
  next
    case (Inr x)
    obtain ds' where ds': "fst (f x (fst (m r))) = register_all self (fst (m r)) ds'" "set ds' \<subseteq> K'"
      "\<And>y. snd (f x (fst (m r))) = Inr y \<Longrightarrow> set ds' = K'"
      "\<And>k e. snd (f x (fst (m r))) = Inl (ErrGetObject k e) \<Longrightarrow> k \<in> set ds'"
      using tracksD [OF f [OF Inr], of "fst (m r)"] by auto
    show ?thesis
      using ds ds' Inr
      by (intro exI [of _ "ds @ ds'"]) (auto simp: act_bind_Inr act_bind_Inl fst_act_bind register_all_append)
  qed
qed

lemma tracks_bind_eq:
  assumes "tracks self K m" "\<And>x r. snd (m r) = Inr x \<Longrightarrow> tracks self K' (f x)" "L = K \<union> K'"
  shows "tracks self L (act_bind m f)"
  unfolding assms(3) by (rule tracks_bind [OF assms(1,2)])

lemma tracks_then:
  assumes "tracks self K m" "\<And>x. tracks self {} (f x)"
  shows "tracks self K (act_bind m f)"
  using tracks_bind [OF assms(1), of "{}" f] assms(2) by simp

lemma tracks_fold:
  assumes "\<And>acc x. x \<in> set xs \<Longrightarrow> tracks self (K x) (f acc x)"
  shows "tracks self (\<Union>x \<in> set xs. K x) (act_fold f acc xs)"
  using assms
proof (induction xs arbitrary: acc)
  case (Cons x xs)
  then show ?case by (auto intro!: tracks_bind)
qed simp

text \<open>Failures that do not change the registry, and reads whose failure is ignored.\<close>

definition act_lift :: "'e + 'a \<Rightarrow> ('s, 'e, 'a) action" where
  "act_lift r s = (s, r)"

definition act_try :: "('s, 'e, 'a) action \<Rightarrow> ('s, 'e, 'a option) action" where
  "act_try m s = (case m s of (s', Inl e) \<Rightarrow> (s', Inr None) | (s', Inr x) \<Rightarrow> (s', Inr (Some x)))"

lemma tracks_lift: "(\<And>e. r = Inl e \<Longrightarrow> \<not> is_get_error e) \<Longrightarrow> tracks self {} (act_lift r)"
  unfolding tracks_def act_lift_def by (auto simp: is_get_error_def intro!: exI [of _ "[]"])

lemma snd_act_lift [simp]: "snd (act_lift r s) = r"
  by (simp add: act_lift_def)

lemma tracks_try_get: "kind \<noteq> [] \<Longrightarrow> tracks self {Key kind name} (act_try (tracked_Get self kind get name))"
  unfolding tracks_def
  by (auto simp: act_try_def tracked_Get_def tracking_Get_def makeKey_def register_all_def split: sum.split
      intro!: exI [of _ "[Key kind name]"])

text \<open>After a cascade deletion and an action, the dependencies of the object are what it read, the object that
  made it fail is one of them, and edges between other objects are unchanged.\<close>

lemma tracks_refetch:
  assumes "tracks self K m" "self \<notin> K" "reg_inv r"
  shows "reg_inv (fst (m (DeleteCascade r self))) \<and>
    set (Deps (fst (m (DeleteCascade r self))) self) \<subseteq> K \<and>
    (\<forall>x. snd (m (DeleteCascade r self)) = Inr x \<longrightarrow> set (Deps (fst (m (DeleteCascade r self))) self) = K) \<and>
    (\<forall>k e. snd (m (DeleteCascade r self)) = Inl (ErrGetObject k e) \<longrightarrow>
       k \<in> set (Deps (fst (m (DeleteCascade r self))) self)) \<and>
    (\<forall>x y. x \<noteq> self \<and> y \<noteq> self \<longrightarrow>
       (y \<in> set (Deps (fst (m (DeleteCascade r self))) x) \<longleftrightarrow> y \<in> set (Deps r x)))"
proof -
  obtain ds where ds: "fst (m (DeleteCascade r self)) = register_all self (DeleteCascade r self) ds" "set ds \<subseteq> K"
    "\<And>x. snd (m (DeleteCascade r self)) = Inr x \<Longrightarrow> set ds = K"
    "\<And>k e. snd (m (DeleteCascade r self)) = Inl (ErrGetObject k e) \<Longrightarrow> k \<in> set ds"
    using tracksD [OF assms(1), of "DeleteCascade r self"] by auto
  have self: "set (Deps (register_all self (DeleteCascade r self) ds) self) = set ds"
    using reg.refetch_self [OF assms(3), of self ds] ds(2) assms(2) by (auto simp: register_all_def)
  have other: "set (Deps (register_all self (DeleteCascade r self) ds) z) = (set (Deps r z) - {self}) \<union> (if z \<in> set ds then {self} else {})"
    if "z \<noteq> self" for z
    using reg.refetch_other [OF assms(3) that, of ds] by (simp add: register_all_def)
  have "reg_inv (register_all self (DeleteCascade r self) ds)"
    unfolding register_all_def by (intro reg.invar_adds reg.invar_delete assms(3))
  then show ?thesis using self other ds by auto
qed

end
