(* ===== verification/Policy_Language.thy ===== *)
theory Policy_Language
  imports Go_Prelude
begin

text \<open>
  \<^verbatim>\<open>internal/policy/policy.go\<close>: a policy in Pomerium's policy language is turned into rego, which must parse as
  a module, with a package clause put in front when the generated text has none. The generator of
  Pomerium and the parser of Open Policy Agent are the functions of \<open>policy_env\<close>; the parser returns its error
  message, or nothing on success.
\<close>

record policy_env =
  pe_generate_rego :: "string \<Rightarrow> string + string"
  pe_parse_module :: "string \<Rightarrow> string option"

datatype policy_error = ErrParsePolicy string | ErrPolicyInternal string

definition rego_package_header :: string where
  "rego_package_header = ''package pomerium.policy'' @ [char_of (10::nat), char_of (10::nat)]"

definition policy_Parse :: "policy_env \<Rightarrow> string \<Rightarrow> policy_error + string option \<times> string list" where
  "policy_Parse P src =
     (case pe_generate_rego P src of
        Inl m \<Rightarrow> Inl (ErrParsePolicy m)
      | Inr regoSrc \<Rightarrow>
          let err = (case pe_parse_module P regoSrc of
                       Some m \<Rightarrow> if Contains m ''package expected''
                                 then pe_parse_module P (rego_package_header @ regoSrc) else Some m
                     | None \<Rightarrow> None)
          in case err of
               Some m \<Rightarrow> Inl (ErrPolicyInternal m)
             | None \<Rightarrow> Inr (Some src, [regoSrc]))"

text \<open>A parsed policy keeps its source and carries exactly one rego text, which parses, alone or as a
  member of the policy package.\<close>

lemma policy_Parse_Inr:
  assumes "policy_Parse P src = Inr (ppl, rego)"
  obtains regoSrc where "pe_generate_rego P src = Inr regoSrc" "ppl = Some src" "rego = [regoSrc]"
    "pe_parse_module P regoSrc = None \<or> pe_parse_module P (rego_package_header @ regoSrc) = None"
  using assms by (auto simp: policy_Parse_def Let_def split: sum.splits option.splits if_splits)

definition ex_policy_env :: policy_env where
  "ex_policy_env = \<lparr>pe_generate_rego = (\<lambda>s. if s = [] then Inl ''empty'' else Inr (''rego '' @ s)), pe_parse_module = (\<lambda>_. None)\<rparr>"

end
