(* ===== verification/Ingress_Annotations.thy ===== *)
theory Ingress_Annotations
  imports Ingress_Config Pb_Types Policy_Language
begin

text \<open>
  \<^verbatim>\<open>pomerium/ingress_annotations.go\<close>: how the annotations of an ingress become fields of the route
  template. The decoders of other packages (\<^verbatim>\<open>protojson\<close>, \<^verbatim>\<open>yaml\<close>, the policy language) are the
  functions of the record \<open>ann_env\<close>, an argument of every definition that uses them.
\<close>

record ann_env =
  env_unmarshal_route :: "pb_route \<Rightarrow> (string, string) gomap \<Rightarrow> string + pb_route"
  env_unmarshal_policy :: "pb_policy \<Rightarrow> (string, string) gomap \<Rightarrow> string + pb_policy"
  env_policy :: policy_env
  env_yaml_map :: "(string, string) gomap \<Rightarrow> string \<Rightarrow> string + (string, string) gomap"

datatype ann_error =
    ErrUnsupported string
  | ErrUnknownAnnotation string
  | ErrUnmarshal string
  | ErrSecretNotFetched string string
  | ErrNoData string
  | ErrSecretWrongType string string string
  | ErrSecretMissingKey string string
  | ErrHeaderConflict string string
  | ErrMCPClientConflict
  | ErrMCPServerAndClient
  | ErrFlagValue string string
  | ErrMaxRequestBytes string
  | ErrURLParams string
  | ErrAuthStyle string
  | ErrPolicy policy_error

subsection \<open>Sorting annotations into groups\<close>

definition baseAnnotations :: "string list" where
  "baseAnnotations =
     [''allow_any_authenticated_user'', ''allow_public_unauthenticated_access'', ''allow_spdy'', ''allow_upgrades'',
      ''allow_websockets'', ''bearer_token_format'', ''circuit_breaker_thresholds'', ''cors_allow_preflight'',
      ''depends_on'', ''description'', ''enable_google_cloud_serverless_authentication'', ''health_checks'',
      ''healthy_panic_threshold'', ''host_path_regex_rewrite_pattern'', ''host_path_regex_rewrite_substitution'',
      ''host_rewrite_header'', ''host_rewrite'', ''idle_timeout'', ''idp_access_token_allowed_audiences'',
      ''load_balancing_policy'', ''logo_url'', ''name'', ''outlier_detection'', ''pass_identity_headers'',
      ''prefix_rewrite'', ''preserve_host_header'', ''regex_rewrite_pattern'', ''regex_rewrite_substitution'',
      ''remove_request_headers'', ''rewrite_response_headers'', ''set_request_headers'', ''set_response_headers'',
      ''timeout'', ''tls_server_name'', ''tls_skip_verify'']"

definition policyAnnotations :: "string list" where
  "policyAnnotations = [''allowed_domains'', ''allowed_idp_claims'', ''allowed_users'', ''policy'']"

definition tlsAnnotations :: "string list" where
  "tlsAnnotations = [TLSClientSecret, TLSCustomCASecret, TLSDownstreamClientCASecret]"

definition secretAnnotations :: "string list" where
  "secretAnnotations = [KubernetesServiceAccountTokenSecret, SetRequestHeadersSecret, SetResponseHeadersSecret,
     MCPServerUpstreamOAuth2Secret, IdentityProviderSecret]"

definition mcpServerAnnotations :: "string list" where
  "mcpServerAnnotations = [MCPServerKey, MCPServerMaxRequestBytes, MCPServerUpstreamOAuth2AuthorizationURLParams,
     MCPServerUpstreamOAuth2TokenURL, MCPServerUpstreamOAuth2AuthURL, MCPServerUpstreamOAuth2Scopes,
     MCPServerUpstreamOAuth2AuthStyle, MCPServerPath, MCPServerAuthorizationServerURL]"

definition mcpClientAnnotations :: "string list" where
  "mcpClientAnnotations = [MCPClientKey]"

definition upstreamTunnelAnnotations :: "string list" where
  "upstreamTunnelAnnotations = [UpstreamTunnelKey, UpstreamTunnelSSHPolicy]"

definition handledElsewhere :: "string list" where
  "handledElsewhere = [PathRegex, SecureUpstream, SSHUpstream, TCPUpstream, UDPUpstream, UseServiceProxyKey,
     SubtleAllowEmptyHost]"

definition unsupported :: "(string, string) gomap" where
  "unsupported = [(''allowed_groups'', ''https://docs.pomerium.com/docs/overview/upgrading#idp-directory-sync'')]"

record ann_keys =
  kv_Base :: "(string, string) gomap"
  kv_Policy :: "(string, string) gomap"
  kv_TLS :: "(string, string) gomap"
  kv_Etc :: "(string, string) gomap"
  kv_Secret :: "(string, string) gomap"
  kv_MCPServer :: "(string, string) gomap"
  kv_MCPClient :: "(string, string) gomap"
  kv_UpstreamTunnel :: "(string, string) gomap"

definition new_keys :: ann_keys where
  "new_keys = \<lparr>kv_Base = [], kv_Policy = [], kv_TLS = [], kv_Etc = [], kv_Secret = [], kv_MCPServer = [],
     kv_MCPClient = [], kv_UpstreamTunnel = []\<rparr>"

text \<open>The table of groups and the first one that knows the key, as the inner loop tries them.\<close>

definition file_annotation :: "ann_keys \<Rightarrow> string \<Rightarrow> string \<Rightarrow> ann_keys option" where
  "file_annotation kv k v =
     (if k \<in> set baseAnnotations then Some (kv\<lparr>kv_Base := AList.update k v (kv_Base kv)\<rparr>)
      else if k \<in> set policyAnnotations then Some (kv\<lparr>kv_Policy := AList.update k v (kv_Policy kv)\<rparr>)
      else if k \<in> set tlsAnnotations then Some (kv\<lparr>kv_TLS := AList.update k v (kv_TLS kv)\<rparr>)
      else if k \<in> set secretAnnotations then Some (kv\<lparr>kv_Secret := AList.update k v (kv_Secret kv)\<rparr>)
      else if k \<in> set mcpServerAnnotations then Some (kv\<lparr>kv_MCPServer := AList.update k v (kv_MCPServer kv)\<rparr>)
      else if k \<in> set mcpClientAnnotations then Some (kv\<lparr>kv_MCPClient := AList.update k v (kv_MCPClient kv)\<rparr>)
      else if k \<in> set upstreamTunnelAnnotations
           then Some (kv\<lparr>kv_UpstreamTunnel := AList.update k v (kv_UpstreamTunnel kv)\<rparr>)
      else if k \<in> set handledElsewhere then Some (kv\<lparr>kv_Etc := AList.update k v (kv_Etc kv)\<rparr>)
      else None)"

definition removeKeyPrefix_step :: "string \<Rightarrow> ann_keys \<Rightarrow> string \<times> string \<Rightarrow> ann_error + ann_keys" where
  "removeKeyPrefix_step prefix kv e =
     (case e of (k, v) \<Rightarrow>
        if \<not> HasPrefix k prefix then Inr kv
        else let k' = TrimPrefix k prefix in
          if map_of unsupported k' \<noteq> None then Inl (ErrUnsupported k')
          else case file_annotation kv k' v of None \<Rightarrow> Inl (ErrUnknownAnnotation k') | Some kv' \<Rightarrow> Inr kv')"

definition removeKeyPrefix :: "(string, string) gomap \<Rightarrow> string \<Rightarrow> ann_error + ann_keys" where
  "removeKeyPrefix src prefix = efold (removeKeyPrefix_step (prefix @ ''/'')) new_keys src"

subsection \<open>Base64\<close>

definition b64_char :: "nat \<Rightarrow> char" where
  "b64_char n = (''ABCDEFGHIJKLMNOPQRSTUVWXYZabcdefghijklmnopqrstuvwxyz0123456789+/'' ! n)"

fun EncodeToString :: "string \<Rightarrow> string" where
  "EncodeToString (a # b # c # rest) =
     (let x = of_char a * 65536 + of_char b * 256 + of_char c in
      [b64_char (x div 262144), b64_char (x div 4096 mod 64), b64_char (x div 64 mod 64), b64_char (x mod 64)]
        @ EncodeToString rest)"
| "EncodeToString [a, b] =
     (let x = of_char a * 65536 + of_char b * 256 in
      [b64_char (x div 262144), b64_char (x div 4096 mod 64), b64_char (x div 64 mod 64), CHR ''=''])"
| "EncodeToString [a] =
     (let x = of_char a * 65536 in [b64_char (x div 262144), b64_char (x div 4096 mod 64), CHR ''='', CHR ''=''])"
| "EncodeToString [] = []"

definition b64 :: "secret \<Rightarrow> string \<Rightarrow> string \<Rightarrow> ann_error + string" where
  "b64 secret annotation key =
     (let data = secret_get secret key in
      if length data = 0 then Inl (ErrNoData annotation) else Inr (EncodeToString data))"

subsection \<open>TLS and secret annotations\<close>

definition applyTLS_step ::
  "(namespaced_name, secret) gomap \<Rightarrow> string \<Rightarrow> pb_route \<Rightarrow> string \<times> string \<Rightarrow> ann_error + pb_route" where
  "applyTLS_step secrets namespace r e =
     (case e of (k, name) \<Rightarrow>
        (case map_of secrets (NamespacedName namespace name) of
           None \<Rightarrow> Inl (ErrSecretNotFetched k name)
         | Some secret \<Rightarrow>
             if k = TLSCustomCASecret then
               ebind (b64 secret k CAKey) (\<lambda>d. Inr (r\<lparr>r_TlsCustomCa := d\<rparr>))
             else if k = TLSClientSecret then
               ebind (b64 secret k TLSCertKey) (\<lambda>c.
               ebind (b64 secret k TLSPrivateKeyKey) (\<lambda>p. Inr (r\<lparr>r_TlsClientCert := c, r_TlsClientKey := p\<rparr>)))
             else if k = TLSDownstreamClientCASecret then
               ebind (b64 secret k CAKey) (\<lambda>d. Inr (r\<lparr>r_TlsDownstreamClientCa := d\<rparr>))
             else Inl (ErrUnknownAnnotation k)))"

definition applyTLSAnnotations ::
  "pb_route \<Rightarrow> (string, string) gomap \<Rightarrow> (namespaced_name, secret) gomap \<Rightarrow> string \<Rightarrow> ann_error + pb_route" where
  "applyTLSAnnotations r kvs secrets namespace = efold (applyTLS_step secrets namespace) r kvs"

text \<open>The table of secret handlers: the expected secret type and what each does with the data.\<close>

definition handler_type :: "string \<Rightarrow> string option" where
  "handler_type key =
     (if key = KubernetesServiceAccountTokenSecret then Some SecretTypeServiceAccountToken
      else if key \<in> {SetRequestHeadersSecret, SetResponseHeadersSecret, MCPServerUpstreamOAuth2Secret, IdentityProviderSecret}
      then Some SecretTypeOpaque else None)"

definition apply_token :: "pb_route \<Rightarrow> (string, string) gomap \<Rightarrow> ann_error + pb_route" where
  "apply_token r data =
     (case map_of data KubernetesServiceAccountTokenSecretKey of
        None \<Rightarrow> Inl (ErrSecretMissingKey KubernetesServiceAccountTokenSecret KubernetesServiceAccountTokenSecretKey)
      | Some token \<Rightarrow> Inr (r\<lparr>r_KubernetesServiceAccountToken := token\<rparr>))"

definition merge_headers :: "string \<Rightarrow> (string, string) gomap \<Rightarrow> (string, string) gomap \<Rightarrow> ann_error + (string, string) gomap" where
  "merge_headers key hdrs data =
     (case MergeMaps hdrs data of Inl k \<Rightarrow> Inl (ErrHeaderConflict key k) | Inr dst \<Rightarrow> Inr dst)"

definition oauth2_of :: "mcp_server \<Rightarrow> upstream_oauth2" where
  "oauth2_of s = (case ms_UpstreamOauth2 s of None \<Rightarrow> new_upstream_oauth2 | Some o2 \<Rightarrow> o2)"

definition apply_oauth2_secret :: "pb_route \<Rightarrow> (string, string) gomap \<Rightarrow> ann_error + pb_route" where
  "apply_oauth2_secret r data =
     (let clientID = map_of data ClientIDKey; clientSecret = map_of data ClientSecretKey in
      if clientID = None \<and> clientSecret = None
      then Inl (ErrSecretMissingKey MCPServerUpstreamOAuth2Secret ClientIDKey)
      else ebind
        (case r_Mcp r of
           None \<Rightarrow> Inr new_mcp_server
         | Some None \<Rightarrow> Inr new_mcp_server
         | Some (Some ModeClient) \<Rightarrow> Inl ErrMCPClientConflict
         | Some (Some (ModeServer s)) \<Rightarrow> Inr s)
        (\<lambda>server.
          let o0 = oauth2_of server;
              o1 = (case clientID of None \<Rightarrow> o0 | Some i \<Rightarrow> o0\<lparr>uo_ClientId := i\<rparr>);
              o2 = (case clientSecret of None \<Rightarrow> o1 | Some s \<Rightarrow> o1\<lparr>uo_ClientSecret := s\<rparr>)
          in Inr (r\<lparr>r_Mcp := Some (Some (ModeServer (server\<lparr>ms_UpstreamOauth2 := Some o2\<rparr>)))\<rparr>)))"

definition apply_idp_secret :: "pb_route \<Rightarrow> (string, string) gomap \<Rightarrow> ann_error + pb_route" where
  "apply_idp_secret r data =
     (let r1 = (case map_of data ClientIDKey of None \<Rightarrow> r | Some i \<Rightarrow> r\<lparr>r_IdpClientId := Some i\<rparr>);
          r2 = (case map_of data ClientSecretKey of None \<Rightarrow> r1 | Some s \<Rightarrow> r1\<lparr>r_IdpClientSecret := Some s\<rparr>)
      in Inr r2)"

definition handler_apply :: "string \<Rightarrow> pb_route \<Rightarrow> (string, string) gomap \<Rightarrow> ann_error + pb_route" where
  "handler_apply key r data =
     (if key = KubernetesServiceAccountTokenSecret then apply_token r data
      else if key = SetRequestHeadersSecret then
        ebind (merge_headers key (r_SetRequestHeaders r) data) (\<lambda>dst. Inr (r\<lparr>r_SetRequestHeaders := dst\<rparr>))
      else if key = SetResponseHeadersSecret then
        ebind (merge_headers key (r_SetResponseHeaders r) data) (\<lambda>dst. Inr (r\<lparr>r_SetResponseHeaders := dst\<rparr>))
      else if key = MCPServerUpstreamOAuth2Secret then apply_oauth2_secret r data
      else apply_idp_secret r data)"

definition applySecret_step ::
  "(namespaced_name, secret) gomap \<Rightarrow> string \<Rightarrow> pb_route \<Rightarrow> string \<times> string \<Rightarrow> ann_error + pb_route" where
  "applySecret_step secrets namespace r e =
     (case e of (key, secretName) \<Rightarrow>
        (case handler_type key of
           None \<Rightarrow> Inl (ErrUnknownAnnotation key)
         | Some expectedType \<Rightarrow>
             (case map_of secrets (NamespacedName namespace secretName) of
                None \<Rightarrow> Inl (ErrSecretNotFetched key secretName)
              | Some secret \<Rightarrow>
                  if sec_type secret \<noteq> expectedType then Inl (ErrSecretWrongType key expectedType (sec_type secret))
                  else handler_apply key r (sec_data secret))))"

definition applySecretAnnotations ::
  "pb_route \<Rightarrow> (string, string) gomap \<Rightarrow> (namespaced_name, secret) gomap \<Rightarrow> string \<Rightarrow> ann_error + pb_route" where
  "applySecretAnnotations r annotations secrets namespace = efold (applySecret_step secrets namespace) r annotations"

subsection \<open>MCP and tunnel annotations\<close>

text \<open>\<^verbatim>\<open>strconv.ParseUint(v, 10, 32)\<close>: digits only, and the value fits 32 bits.\<close>

definition decimal :: "string \<Rightarrow> nat option" where
  "decimal v =
     (if v \<noteq> [] \<and> list_all (\<lambda>c. 48 \<le> (of_char c :: nat) \<and> (of_char c :: nat) \<le> 57) v
      then Some (foldl (\<lambda>a c. 10 * a + (of_char c - 48)) 0 v) else None)"

definition ParseUint32 :: "string \<Rightarrow> 32 word option" where
  "ParseUint32 v = (case decimal v of None \<Rightarrow> None | Some n \<Rightarrow> if n < 2 ^ 32 then Some (of_nat n) else None)"

definition endpoint_of :: "upstream_oauth2 \<Rightarrow> oauth2_endpoint" where
  "endpoint_of u = (case uo_Oauth2Endpoint u of None \<Rightarrow> new_oauth2_endpoint | Some e \<Rightarrow> e)"

definition set_oauth2 :: "mcp_server \<Rightarrow> (upstream_oauth2 \<Rightarrow> upstream_oauth2) \<Rightarrow> mcp_server" where
  "set_oauth2 sc f = sc\<lparr>ms_UpstreamOauth2 := Some (f (oauth2_of sc))\<rparr>"

definition set_endpoint :: "mcp_server \<Rightarrow> (oauth2_endpoint \<Rightarrow> oauth2_endpoint) \<Rightarrow> mcp_server" where
  "set_endpoint sc f = set_oauth2 sc (\<lambda>u. u\<lparr>uo_Oauth2Endpoint := Some (f (endpoint_of u))\<rparr>)"

definition mcp_server_step :: "ann_env \<Rightarrow> mcp_server \<Rightarrow> string \<times> string \<Rightarrow> ann_error + mcp_server" where
  "mcp_server_step E sc e =
     (case e of (k, v) \<Rightarrow>
        if v = [] \<and> k \<noteq> MCPServerKey then Inr sc
        else if k = MCPServerKey then
          (if v \<noteq> [] \<and> v \<noteq> ''true'' then Inl (ErrFlagValue k v) else Inr sc)
        else if k = MCPServerMaxRequestBytes then
          (case ParseUint32 v of
             None \<Rightarrow> Inl (ErrMaxRequestBytes v)
           | Some n \<Rightarrow> Inr (sc\<lparr>ms_MaxRequestBytes := Some n\<rparr>))
        else if k = MCPServerUpstreamOAuth2AuthorizationURLParams then
          (case env_yaml_map E (uo_AuthorizationUrlParams (oauth2_of sc)) v of
             Inl m \<Rightarrow> Inl (ErrURLParams m)
           | Inr ps \<Rightarrow> Inr (set_oauth2 sc (\<lambda>u. u\<lparr>uo_AuthorizationUrlParams := ps\<rparr>)))
        else if k = MCPServerUpstreamOAuth2AuthURL then Inr (set_endpoint sc (\<lambda>p. p\<lparr>oe_AuthUrl := v\<rparr>))
        else if k = MCPServerUpstreamOAuth2TokenURL then Inr (set_endpoint sc (\<lambda>p. p\<lparr>oe_TokenUrl := v\<rparr>))
        else if k = MCPServerUpstreamOAuth2Scopes then
          Inr (set_oauth2 sc (\<lambda>u. u\<lparr>uo_Scopes := map TrimSpace (Split v (CHR '',''))\<rparr>))
        else if k = MCPServerPath then Inr (sc\<lparr>ms_Path := Some v\<rparr>)
        else if k = MCPServerAuthorizationServerURL then Inr (sc\<lparr>ms_AuthorizationServerUrl := Some v\<rparr>)
        else if k = MCPServerUpstreamOAuth2AuthStyle then
          (if v = ''in_params'' then Inr (set_endpoint sc (\<lambda>p. p\<lparr>oe_AuthStyle := Some AuthStyleInParams\<rparr>))
           else if v = ''in_header'' then Inr (set_endpoint sc (\<lambda>p. p\<lparr>oe_AuthStyle := Some AuthStyleInHeader\<rparr>))
           else Inl (ErrAuthStyle v))
        else Inl (ErrUnknownAnnotation k))"

definition applyMCPServerAnnotations :: "ann_env \<Rightarrow> pb_route \<Rightarrow> (string, string) gomap \<Rightarrow> ann_error + pb_route" where
  "applyMCPServerAnnotations E r kvs =
     ebind (efold (mcp_server_step E)
              (case r_Mcp r of Some (Some (ModeServer s)) \<Rightarrow> s | _ \<Rightarrow> new_mcp_server) kvs)
       (\<lambda>sc. case r_Mcp r of
               Some (Some ModeClient) \<Rightarrow> Inl ErrMCPClientConflict
             | _ \<Rightarrow> Inr (r\<lparr>r_Mcp := Some (Some (ModeServer sc))\<rparr>))"

definition mcp_client_step :: "unit \<Rightarrow> string \<times> string \<Rightarrow> ann_error + unit" where
  "mcp_client_step u e =
     (case e of (k, v) \<Rightarrow>
        if k = MCPClientKey then (if v \<noteq> [] \<and> v \<noteq> ''true'' then Inl (ErrFlagValue k v) else Inr ())
        else Inl (ErrUnknownAnnotation k))"

definition applyMCPClientAnnotations :: "pb_route \<Rightarrow> (string, string) gomap \<Rightarrow> ann_error + pb_route" where
  "applyMCPClientAnnotations r kvs =
     ebind (efold mcp_client_step () kvs) (\<lambda>_. Inr (r\<lparr>r_Mcp := Some (Some ModeClient)\<rparr>))"

definition applyMCPAnnotations ::
  "ann_env \<Rightarrow> pb_route \<Rightarrow> (string, string) gomap \<Rightarrow> (string, string) gomap \<Rightarrow> ann_error + pb_route" where
  "applyMCPAnnotations E r serverKVs clientKVs =
     (if length serverKVs > 0 \<and> length clientKVs > 0 then Inl ErrMCPServerAndClient
      else if length serverKVs > 0 then applyMCPServerAnnotations E r serverKVs
      else if length clientKVs > 0 then applyMCPClientAnnotations r clientKVs
      else Inr (r\<lparr>r_Mcp := None\<rparr>))"

definition tunnel_of :: "pb_route \<Rightarrow> upstream_tunnel" where
  "tunnel_of r = (case r_UpstreamTunnel r of None \<Rightarrow> new_upstream_tunnel | Some t \<Rightarrow> t)"

definition applyUpstream_step :: "pb_route \<Rightarrow> string \<times> string \<Rightarrow> ann_error + pb_route" where
  "applyUpstream_step r e =
     (case e of (k, v) \<Rightarrow>
        if k = UpstreamTunnelKey then Inr (r\<lparr>r_UpstreamTunnel := Some (tunnel_of r)\<rparr>)
        else if k = UpstreamTunnelSSHPolicy then
          Inr (r\<lparr>r_UpstreamTunnel := Some ((tunnel_of r)\<lparr>ut_SshPolicy := Some v\<rparr>)\<rparr>)
        else Inl (ErrUnknownAnnotation k))"

definition applyUpstreamAnnotations :: "pb_route \<Rightarrow> (string, string) gomap \<Rightarrow> ann_error + pb_route" where
  "applyUpstreamAnnotations r kvs = efold applyUpstream_step r kvs"

subsection \<open>All annotations\<close>

definition unmarshalPolicyAnnotations :: "ann_env \<Rightarrow> pb_policy \<Rightarrow> (string, string) gomap \<Rightarrow> ann_error + pb_policy" where
  "unmarshalPolicyAnnotations E p kvs =
     (case env_unmarshal_policy E p (AList.delete ''policy'' kvs) of
        Inl m \<Rightarrow> Inl (ErrUnmarshal m)
      | Inr p1 \<Rightarrow>
          (case map_of kvs ''policy'' of
             None \<Rightarrow> Inr p1
           | Some ppl \<Rightarrow>
               (case policy_Parse (env_policy E) ppl of
                  Inl m \<Rightarrow> Inl (ErrPolicy m)
                | Inr (src, rego) \<Rightarrow> Inr (p1\<lparr>p_SourcePpl := src, p_Rego := rego\<rparr>))))"

definition applyAnnotations :: "ann_env \<Rightarrow> pb_route \<Rightarrow> ingress_config \<Rightarrow> ann_error + pb_route" where
  "applyAnnotations E r ic =
     ebind (removeKeyPrefix (om_annotations (ic_meta ic)) (AnnotationPrefix ic)) (\<lambda>kv.
     ebind (case env_unmarshal_route E r (kv_Base kv) of Inl m \<Rightarrow> Inl (ErrUnmarshal m) | Inr r' \<Rightarrow> Inr r') (\<lambda>r1.
     ebind (applyTLSAnnotations r1 (kv_TLS kv) (ic_Secrets ic) (om_namespace (ic_meta ic))) (\<lambda>r2.
     ebind (applySecretAnnotations r2 (kv_Secret kv) (ic_Secrets ic) (om_namespace (ic_meta ic))) (\<lambda>r3.
     ebind (applyMCPAnnotations E r3 (kv_MCPServer kv) (kv_MCPClient kv)) (\<lambda>r4.
     ebind (applyUpstreamAnnotations r4 (kv_UpstreamTunnel kv)) (\<lambda>r5.
     ebind (unmarshalPolicyAnnotations E new_policy (kv_Policy kv)) (\<lambda>p.
       Inr (r5\<lparr>r_Policies := [p]\<rparr>))))))))"

subsection \<open>Lemmas\<close>

text \<open>The groups, and the group of a key; they do not overlap.\<close>

definition known_keys :: "string list" where
  "known_keys = baseAnnotations @ policyAnnotations @ tlsAnnotations @ secretAnnotations @ mcpServerAnnotations @
     mcpClientAnnotations @ upstreamTunnelAnnotations @ handledElsewhere"

lemma distinct_known_keys: "distinct known_keys"
  unfolding known_keys_def by code_simp

lemma unsupported_not_known: "map_of unsupported k \<noteq> None \<Longrightarrow> k \<notin> set known_keys"
proof -
  assume "map_of unsupported k \<noteq> None"
  then have "k = ''allowed_groups''" by (simp add: unsupported_def split: if_splits)
  moreover have "''allowed_groups'' \<notin> set known_keys" by code_simp
  ultimately show ?thesis by simp
qed

definition groups :: "(string list \<times> (ann_keys \<Rightarrow> (string, string) gomap)) list" where
  "groups = [(baseAnnotations, kv_Base), (policyAnnotations, kv_Policy), (tlsAnnotations, kv_TLS),
     (secretAnnotations, kv_Secret), (mcpServerAnnotations, kv_MCPServer), (mcpClientAnnotations, kv_MCPClient),
     (upstreamTunnelAnnotations, kv_UpstreamTunnel), (handledElsewhere, kv_Etc)]"

lemma groups_disjoint:
  "k \<in> set baseAnnotations \<Longrightarrow> k \<notin> set (policyAnnotations @ tlsAnnotations @ secretAnnotations @ mcpServerAnnotations @ mcpClientAnnotations @ upstreamTunnelAnnotations @ handledElsewhere)"
  "k \<in> set policyAnnotations \<Longrightarrow> k \<notin> set (tlsAnnotations @ secretAnnotations @ mcpServerAnnotations @ mcpClientAnnotations @ upstreamTunnelAnnotations @ handledElsewhere)"
  "k \<in> set tlsAnnotations \<Longrightarrow> k \<notin> set (secretAnnotations @ mcpServerAnnotations @ mcpClientAnnotations @ upstreamTunnelAnnotations @ handledElsewhere)"
  "k \<in> set secretAnnotations \<Longrightarrow> k \<notin> set (mcpServerAnnotations @ mcpClientAnnotations @ upstreamTunnelAnnotations @ handledElsewhere)"
  "k \<in> set mcpServerAnnotations \<Longrightarrow> k \<notin> set (mcpClientAnnotations @ upstreamTunnelAnnotations @ handledElsewhere)"
  "k \<in> set mcpClientAnnotations \<Longrightarrow> k \<notin> set (upstreamTunnelAnnotations @ handledElsewhere)"
  "k \<in> set upstreamTunnelAnnotations \<Longrightarrow> k \<notin> set handledElsewhere"
  using distinct_known_keys unfolding known_keys_def by (auto simp only: distinct_append set_append)

lemma file_annotation_None: "file_annotation kv k v = None \<longleftrightarrow> k \<notin> set known_keys"
  by (simp add: file_annotation_def known_keys_def)

lemma file_annotation_groups:
  assumes "file_annotation kv k v = Some kv'" "(G, sel) \<in> set groups"
  shows "sel kv' = (if k \<in> set G then AList.update k v (sel kv) else sel kv)"
proof -
  have "k \<in> set known_keys" using assms(1) file_annotation_None by (metis option.distinct(1))
  then show ?thesis
    using assms groups_disjoint [of k] unfolding groups_def file_annotation_def known_keys_def
    by (simp split: if_splits) (elim disjE conjE; hypsubst; simp)+
qed

lemma removeKeyPrefix_loop:
  assumes "efold (removeKeyPrefix_step p) kv src = Inr kv'" "wf_map src" "(G, sel) \<in> set groups"
  shows "map_of (sel kv') k =
    (if k \<in> set G \<and> map_of src (p @ k) \<noteq> None then map_of src (p @ k) else map_of (sel kv) k)"
  using assms
proof (induction src arbitrary: kv)
  case (Cons e src)
  obtain a v where e: "e = (a, v)" by fastforce
  obtain kv1 where s: "removeKeyPrefix_step p kv e = Inr kv1" and r: "efold (removeKeyPrefix_step p) kv1 src = Inr kv'"
    using Cons.prems(1) by (auto simp: ebind_Inr_iff)
  have wf: "wf_map src" "map_of src a = None"
    using Cons.prems(2) by (auto simp: wf_map_def e map_of_eq_None_iff)
  note IH = Cons.IH [OF r wf(1) Cons.prems(3)]
  show ?case
  proof (cases "HasPrefix a p")
    case False
    then have "p @ k \<noteq> a" by auto
    moreover have "kv1 = kv" using s False by (simp add: removeKeyPrefix_step_def e)
    ultimately show ?thesis using IH by (auto simp: e split: if_splits)
  next
    case True
    then obtain k' where a: "a = p @ k'" by (auto simp: HasPrefix_iff)
    then have "file_annotation kv k' v = Some kv1"
      using s by (auto simp: removeKeyPrefix_step_def e TrimPrefix_def Let_def split: if_splits option.splits)
    from file_annotation_groups [OF this Cons.prems(3)] show ?thesis
      using IH wf(2) by (auto simp: e a gomap_simps)
  qed
qed simp

lemma removeKeyPrefix_loop_error:
  assumes "wf_map src"
  shows "(\<exists>kv'. efold (removeKeyPrefix_step p) kv src = Inr kv') \<longleftrightarrow>
    (\<forall>k. map_of src (p @ k) \<noteq> None \<longrightarrow> k \<in> set known_keys)"
  using assms
proof (induction src arbitrary: kv)
  case (Cons e src)
  obtain a v where e: "e = (a, v)" by fastforce
  have wf: "wf_map src" using Cons.prems by (simp add: wf_map_def)
  show ?case
  proof (cases "HasPrefix a p")
    case False
    then have "removeKeyPrefix_step p kv e = Inr kv" "\<And>k. p @ k \<noteq> a"
      by (auto simp: removeKeyPrefix_step_def e)
    then show ?thesis using Cons.IH [OF wf] by (simp add: e)
  next
    case True
    then obtain k' where a: "a = p @ k'" by (auto simp: HasPrefix_iff)
    then have step: "removeKeyPrefix_step p kv e =
        (if map_of unsupported k' \<noteq> None then Inl (ErrUnsupported k')
         else case file_annotation kv k' v of None \<Rightarrow> Inl (ErrUnknownAnnotation k') | Some kv' \<Rightarrow> Inr kv')"
      by (simp add: removeKeyPrefix_step_def e TrimPrefix_def)
    show ?thesis
    proof (cases "k' \<in> set known_keys")
      case True
      then have "map_of unsupported k' = None" using unsupported_not_known [of k'] by blast
      then obtain kv1 where "removeKeyPrefix_step p kv e = Inr kv1"
        using True file_annotation_None [of kv k' v] by (cases "file_annotation kv k' v") (auto simp: step)
      then show ?thesis using Cons.IH [OF wf, of kv1] True by (auto simp: e a)
    next
      case False
      then obtain err where "removeKeyPrefix_step p kv e = Inl err"
        using file_annotation_None [of kv k' v] by (cases "map_of unsupported k' = None") (auto simp: step)
      moreover have "map_of (e # src) (p @ k') \<noteq> None" by (simp add: e a)
      ultimately show ?thesis using False by (metis ebind_simps(1) efold.simps(2) sum.distinct(1))
    qed
  qed
qed simp

lemma removeKeyPrefix_groups:
  assumes "removeKeyPrefix src prefix = Inr kv" "wf_map src" "(G, sel) \<in> set groups"
  shows "map_of (sel kv) k = (if k \<in> set G then map_of src (prefix @ ''/'' @ k) else None)"
proof -
  have "map_of (sel new_keys) k = None" using assms(3) by (auto simp: groups_def new_keys_def)
  then show ?thesis
    using removeKeyPrefix_loop [OF assms(1) [unfolded removeKeyPrefix_def] assms(2,3), of k] by auto
qed

subsection \<open>Properties\<close>

text \<open>Sorting the annotations succeeds exactly when every annotation under the prefix is known; then
  each group holds exactly the annotations of its kind, and annotations without the prefix are ignored.\<close>

theorem removeKeyPrefix_spec:
  assumes "wf_map src"
  shows "((\<exists>kv. removeKeyPrefix src prefix = Inr kv) \<longleftrightarrow>
      (\<forall>k. map_of src (prefix @ ''/'' @ k) \<noteq> None \<longrightarrow> k \<in> set known_keys)) \<and>
    (\<forall>kv. removeKeyPrefix src prefix = Inr kv \<longrightarrow>
      (\<forall>(G, sel) \<in> set groups. \<forall>k. map_of (sel kv) k = (if k \<in> set G then map_of src (prefix @ ''/'' @ k) else None)))"
  using removeKeyPrefix_loop_error [OF assms, of "prefix @ ''/''" new_keys]
    removeKeyPrefix_groups [OF _ assms, of prefix]
  by (fastforce simp: removeKeyPrefix_def)

definition ex_annotations :: "(string, string) gomap" where
  "ex_annotations = [(''p/timeout'', ''5s''), (''other/x'', ''1''), (''p/mcp_server_upstream_oauth2_secret'', ''oauth'')]"

theorem removeKeyPrefix_spec_witness:
  "wf_map ex_annotations \<and> (\<exists>kv. removeKeyPrefix ex_annotations ''p'' = Inr kv \<and> kv_Base kv = [(''timeout'', ''5s'')]) \<and>
   (\<nexists>kv. removeKeyPrefix ((''p/foo'', ''x'') # ex_annotations) ''p'' = Inr kv)"
proof -
  have wf: "wf_map ex_annotations" "wf_map ((''p/foo'', ''x'') # ex_annotations)"
    by (simp_all add: wf_map_def ex_annotations_def)
  have "map_of ((''p/foo'', ''x'') # ex_annotations) (''p'' @ ''/'' @ ''foo'') \<noteq> None" by simp
  moreover have "''foo'' \<notin> set known_keys" by code_simp
  ultimately have "\<nexists>kv. removeKeyPrefix ((''p/foo'', ''x'') # ex_annotations) ''p'' = Inr kv"
    using removeKeyPrefix_spec [OF wf(2), of "''p''"] by blast
  moreover have "\<exists>kv. removeKeyPrefix ex_annotations ''p'' = Inr kv \<and> kv_Base kv = [(''timeout'', ''5s'')]"
  proof -
    have "(case removeKeyPrefix ex_annotations ''p'' of Inr kv \<Rightarrow> kv_Base kv = [(''timeout'', ''5s'')] | _ \<Rightarrow> False)"
      by code_simp
    then show ?thesis by (auto split: sum.splits)
  qed
  ultimately show ?thesis using wf by blast
qed

lemma map_of_None_Nil: "(\<And>k. map_of m k = None) \<Longrightarrow> m = []"
  by (metis map_of_eq_empty_iff ext)

lemma applyUpstream_Mcp: "applyUpstreamAnnotations r kvs = Inr r' \<Longrightarrow> r_Mcp r' = r_Mcp r"
  unfolding applyUpstreamAnnotations_def
  by (erule efold_invariant [where P = "\<lambda>x. r_Mcp x = r_Mcp r"])
    (auto simp: applyUpstream_step_def split: if_splits prod.splits)

text \<open>The MCP part of the final route is the one \<open>applyMCPAnnotations\<close> leaves.\<close>

lemma applyAnnotations_Mcp:
  assumes "applyAnnotations E r ic = Inr r'"
  shows "\<exists>kv r3 r4. removeKeyPrefix (om_annotations (ic_meta ic)) (AnnotationPrefix ic) = Inr kv \<and>
    applyMCPAnnotations E r3 (kv_MCPServer kv) (kv_MCPClient kv) = Inr r4 \<and> r_Mcp r' = r_Mcp r4"
  using assms applyUpstream_Mcp unfolding applyAnnotations_def by (fastforce simp: ebind_Inr_iff)

text \<open>A route is an MCP route only through an MCP server or MCP client annotation: without any of them
  the result has no MCP configuration, so an upstream OAuth2 secret given on its own has no effect.\<close>

theorem oauth2_secret_alone_dropped:
  assumes "wf_map (om_annotations (ic_meta ic))"
    and "\<forall>k \<in> set mcpServerAnnotations \<union> set mcpClientAnnotations.
      map_of (om_annotations (ic_meta ic)) (AnnotationPrefix ic @ ''/'' @ k) = None"
    and "applyAnnotations E r ic = Inr r'"
  shows "r_Mcp r' = None"
proof -
  obtain kv r3 r4 where kv: "removeKeyPrefix (om_annotations (ic_meta ic)) (AnnotationPrefix ic) = Inr kv"
    and mcp: "applyMCPAnnotations E r3 (kv_MCPServer kv) (kv_MCPClient kv) = Inr r4" "r_Mcp r' = r_Mcp r4"
    using applyAnnotations_Mcp [OF assms(3)] by blast
  have "kv_MCPServer kv = []" "kv_MCPClient kv = []"
    using removeKeyPrefix_groups [OF kv assms(1), of mcpServerAnnotations kv_MCPServer]
      removeKeyPrefix_groups [OF kv assms(1), of mcpClientAnnotations kv_MCPClient] assms(2)
    by (auto simp: groups_def intro!: map_of_None_Nil)
  then have "r4 = r3\<lparr>r_Mcp := None\<rparr>" using mcp(1) by (simp add: applyMCPAnnotations_def)
  then show ?thesis using mcp(2) by simp
qed

definition ex_env :: ann_env where
  "ex_env = \<lparr>env_unmarshal_route = (\<lambda>r kvs. Inr (r\<lparr>r_other := kvs\<rparr>)), env_unmarshal_policy = (\<lambda>p kvs. Inr p),
     env_policy = ex_policy_env, env_yaml_map = (\<lambda>m s. Inr m)\<rparr>"

definition ex_oauth_ic :: ingress_config where
  "ex_oauth_ic = ex_ic\<lparr>ic_Ingress := (ic_Ingress ex_ic)\<lparr>ing_meta := (ic_meta ex_ic)\<lparr>om_annotations := ex_annotations\<rparr>\<rparr>,
     ic_Secrets := [(NamespacedName ''ns'' ''oauth'', \<lparr>sec_meta = new_meta ''Secret'' ''ns'' ''oauth'',
       sec_type = SecretTypeOpaque, sec_data = [(ClientIDKey, ''id'')]\<rparr>)]\<rparr>"

theorem oauth2_secret_alone_dropped_witness:
  "\<exists>r'. applyAnnotations ex_env new_route ex_oauth_ic = Inr r' \<and> r_Mcp r' = None"
proof -
  have "\<exists>r'. applyAnnotations ex_env new_route ex_oauth_ic = Inr r'"
  proof -
    have "(case applyAnnotations ex_env new_route ex_oauth_ic of Inr _ \<Rightarrow> True | Inl _ \<Rightarrow> False)" by code_simp
    then show ?thesis by (auto split: sum.splits)
  qed
  moreover have "wf_map (om_annotations (ic_meta ex_oauth_ic))"
    by (simp add: wf_map_def ex_oauth_ic_def ex_annotations_def)
  moreover have "\<forall>k \<in> set mcpServerAnnotations \<union> set mcpClientAnnotations.
      map_of (om_annotations (ic_meta ex_oauth_ic)) (AnnotationPrefix ex_oauth_ic @ ''/'' @ k) = None"
    by code_simp
  ultimately show ?thesis using oauth2_secret_alone_dropped by blast
qed

subsubsection \<open>TLS annotations\<close>

text \<open>The value a TLS annotation puts into a field: the encoded key of the referenced secret, or the old
  value when the annotation is absent.\<close>

definition tls_value ::
  "(string, string) gomap \<Rightarrow> (namespaced_name, secret) gomap \<Rightarrow> string \<Rightarrow> string \<Rightarrow> string \<Rightarrow> string \<Rightarrow> string" where
  "tls_value kvs secrets ns ann key old =
     (case map_of kvs ann of None \<Rightarrow> old
      | Some name \<Rightarrow>
          (case map_of secrets (NamespacedName ns name) of None \<Rightarrow> old
           | Some secret \<Rightarrow> EncodeToString (secret_get secret key)))"

definition tls_result ::
  "pb_route \<Rightarrow> (string, string) gomap \<Rightarrow> (namespaced_name, secret) gomap \<Rightarrow> string \<Rightarrow> pb_route" where
  "tls_result r kvs secrets ns =
     r\<lparr>r_TlsCustomCa := tls_value kvs secrets ns TLSCustomCASecret CAKey (r_TlsCustomCa r),
       r_TlsClientCert := tls_value kvs secrets ns TLSClientSecret TLSCertKey (r_TlsClientCert r),
       r_TlsClientKey := tls_value kvs secrets ns TLSClientSecret TLSPrivateKeyKey (r_TlsClientKey r),
       r_TlsDownstreamClientCa := tls_value kvs secrets ns TLSDownstreamClientCASecret CAKey (r_TlsDownstreamClientCa r)\<rparr>"

text \<open>An annotation that can be applied: its secret was fetched and every key it needs holds data.\<close>

definition tls_ok :: "(namespaced_name, secret) gomap \<Rightarrow> string \<Rightarrow> string \<times> string \<Rightarrow> bool" where
  "tls_ok secrets ns e =
     (case e of (k, name) \<Rightarrow>
        (case map_of secrets (NamespacedName ns name) of None \<Rightarrow> False
         | Some secret \<Rightarrow>
             if k = TLSCustomCASecret \<or> k = TLSDownstreamClientCASecret then secret_get secret CAKey \<noteq> []
             else k = TLSClientSecret \<and> secret_get secret TLSCertKey \<noteq> [] \<and> secret_get secret TLSPrivateKeyKey \<noteq> []))"

lemma tls_names_distinct:
  "TLSCustomCASecret \<noteq> TLSClientSecret" "TLSCustomCASecret \<noteq> TLSDownstreamClientCASecret"
  "TLSClientSecret \<noteq> TLSDownstreamClientCASecret"
  by (simp_all add: annotation_names)

lemma applyTLS_step_iff:
  "(\<exists>r'. applyTLS_step secrets ns r e = Inr r') \<longleftrightarrow> tls_ok secrets ns e"
  using tls_names_distinct
  by (cases e) (auto simp: applyTLS_step_def tls_ok_def b64_def Let_def split: option.splits if_splits)

lemma applyTLS_step_result:
  assumes "applyTLS_step secrets ns r (k, name) = Inr r'" "map_of kvs k = None"
  shows "tls_result r' kvs secrets ns = tls_result r ((k, name) # kvs) secrets ns"
  using assms tls_names_distinct
  by (auto simp: applyTLS_step_def tls_result_def tls_value_def b64_def Let_def split: option.splits if_splits)

lemma applyTLS_loop:
  "wf_map kvs \<Longrightarrow> efold (applyTLS_step secrets ns) r kvs = Inr r' \<Longrightarrow>
     (\<forall>e \<in> set kvs. tls_ok secrets ns e) \<and> r' = tls_result r kvs secrets ns"
proof (induction kvs arbitrary: r)
  case (Cons e kvs)
  obtain k name where e: "e = (k, name)" by fastforce
  obtain r1 where s: "applyTLS_step secrets ns r (k, name) = Inr r1" and l: "efold (applyTLS_step secrets ns) r1 kvs = Inr r'"
    using Cons.prems(2) by (auto simp: ebind_Inr_iff e)
  have wf: "wf_map kvs" "map_of kvs k = None"
    using Cons.prems(1) by (auto simp: wf_map_def e map_of_eq_None_iff)
  then show ?case
    using Cons.IH [OF wf(1) l] applyTLS_step_result [OF s wf(2)] applyTLS_step_iff [of secrets ns r e] s by (auto simp: e)
qed (simp add: tls_result_def tls_value_def)

lemma applyTLS_total:
  "(\<forall>e \<in> set kvs. tls_ok secrets ns e) \<Longrightarrow> \<exists>r'. efold (applyTLS_step secrets ns) r kvs = Inr r'"
proof (induction kvs arbitrary: r)
  case (Cons e kvs)
  then obtain r1 where "applyTLS_step secrets ns r e = Inr r1" using applyTLS_step_iff [of secrets ns r e] by auto
  then show ?case using Cons.IH [of r1] Cons.prems by simp
qed simp

text \<open>The TLS annotations are applied exactly when each names a fetched secret that holds the keys it
  needs; then the four TLS fields hold the Base64 of those keys, everything else is unchanged, and the
  result does not depend on the order in which the annotations are visited.\<close>

theorem applyTLSAnnotations_spec:
  assumes "wf_map kvs"
  shows "applyTLSAnnotations r kvs secrets ns = Inr r' \<longleftrightarrow>
    (\<forall>e \<in> set kvs. tls_ok secrets ns e) \<and> r' = tls_result r kvs secrets ns"
  using applyTLS_loop [OF assms, of secrets ns r] applyTLS_total [of kvs secrets ns r]
  unfolding applyTLSAnnotations_def by auto

theorem applyTLSAnnotations_spec_witness:
  "applyTLSAnnotations new_route [(TLSClientSecret, ''tls'')] (ic_Secrets ex_ic) ''ns'' =
     Inr (new_route\<lparr>r_TlsClientCert := ''Y2VydA=='', r_TlsClientKey := ''a2V5''\<rparr>)"
proof -
  have "wf_map [(TLSClientSecret, ''tls'')]" by (simp add: wf_map_def)
  moreover have "\<forall>e \<in> set [(TLSClientSecret, ''tls'')]. tls_ok (ic_Secrets ex_ic) ''ns'' e" by code_simp
  moreover have "tls_value [(TLSClientSecret, ''tls'')] (ic_Secrets ex_ic) ''ns'' TLSClientSecret TLSCertKey [] = ''Y2VydA==''"
    "tls_value [(TLSClientSecret, ''tls'')] (ic_Secrets ex_ic) ''ns'' TLSClientSecret TLSPrivateKeyKey [] = ''a2V5''"
    by (simp_all add: tls_value_def ex_ic_def ex_tls_secret_def secret_get_def mget_str_def deref_str_def
        TLSCertKey_def TLSPrivateKeyKey_def b64_char_def)
  then have "tls_result new_route [(TLSClientSecret, ''tls'')] (ic_Secrets ex_ic) ''ns'' =
      new_route\<lparr>r_TlsClientCert := ''Y2VydA=='', r_TlsClientKey := ''a2V5''\<rparr>"
    using tls_names_distinct by (simp add: tls_result_def new_route_def tls_value_def [of _ _ _ TLSCustomCASecret]
        tls_value_def [of _ _ _ TLSDownstreamClientCASecret])
  ultimately show ?thesis using applyTLSAnnotations_spec by simp
qed

subsubsection \<open>Header secrets and numbers\<close>

lemma MergeMaps_extends:
  assumes "MergeMaps first second = Inr dst" "wf_map first" "wf_map second"
  shows "map_of first \<subseteq>\<^sub>m map_of dst \<and> wf_map dst"
proof -
  have dst: "dst = mmerge (mmerge [] first) second"
    and none: "List.find (\<lambda>(k, v). map_of first k \<noteq> None) second = None"
    using assms(1) unfolding MergeMaps_def MergeMaps_loop [OF assms(3)] by (auto split: option.splits)
  have "map_of second k = None" if "map_of first k \<noteq> None" for k
  proof (rule ccontr)
    assume "map_of second k \<noteq> None"
    then obtain v where "(k, v) \<in> set second" using map_of_SomeD by fastforce
    then show False using none that by (auto simp: find_None_iff)
  qed
  then show ?thesis
    using assms(2,3) by (auto simp: dst map_of_mmerge map_le_def map_add_def dom_def split: option.split)
qed

definition secrets_wf :: "(namespaced_name, secret) gomap \<Rightarrow> bool" where
  "secrets_wf secrets \<longleftrightarrow> (\<forall>(n, s) \<in> set secrets. wf_map (sec_data s))"

lemma apply_oauth2_secret_headers:
  "apply_oauth2_secret r data = Inr r' \<Longrightarrow>
     r_SetRequestHeaders r' = r_SetRequestHeaders r \<and> r_SetResponseHeaders r' = r_SetResponseHeaders r"
  by (auto simp: apply_oauth2_secret_def Let_def ebind_Inr_iff split: if_splits option.splits)

lemma handler_apply_headers:
  assumes "handler_apply k r data = Inr r'" "wf_map (r_SetRequestHeaders r)" "wf_map (r_SetResponseHeaders r)" "wf_map data"
  shows "map_of (r_SetRequestHeaders r) \<subseteq>\<^sub>m map_of (r_SetRequestHeaders r') \<and> wf_map (r_SetRequestHeaders r') \<and>
    map_of (r_SetResponseHeaders r) \<subseteq>\<^sub>m map_of (r_SetResponseHeaders r') \<and> wf_map (r_SetResponseHeaders r')"
  using assms MergeMaps_extends apply_oauth2_secret_headers [of r data r']
  by (auto simp: handler_apply_def merge_headers_def apply_token_def apply_idp_secret_def Let_def ebind_Inr_iff
      split: if_splits option.splits sum.splits)

text \<open>Secrets only add headers: whatever header secrets an ingress references, every request or
  response header set by a plain annotation keeps its value.\<close>

theorem secret_headers_never_override:
  assumes "applySecretAnnotations r kvs secrets ns = Inr r'" "secrets_wf secrets"
    and "wf_map (r_SetRequestHeaders r)" "wf_map (r_SetResponseHeaders r)"
  shows "map_of (r_SetRequestHeaders r) \<subseteq>\<^sub>m map_of (r_SetRequestHeaders r') \<and>
    map_of (r_SetResponseHeaders r) \<subseteq>\<^sub>m map_of (r_SetResponseHeaders r')"
proof -
  let ?P = "\<lambda>x. map_of (r_SetRequestHeaders r) \<subseteq>\<^sub>m map_of (r_SetRequestHeaders x) \<and> wf_map (r_SetRequestHeaders x) \<and>
    map_of (r_SetResponseHeaders r) \<subseteq>\<^sub>m map_of (r_SetResponseHeaders x) \<and> wf_map (r_SetResponseHeaders x)"
  have "?P r'"
    using assms(1) unfolding applySecretAnnotations_def
  proof (rule efold_invariant [where P = ?P])
    show "?P r" using assms by simp
    fix s e s'
    assume P: "?P s" and "applySecret_step secrets ns s e = Inr s'"
    then obtain k n sec where "handler_apply k s (sec_data sec) = Inr s'" "map_of secrets n = Some sec"
      by (auto simp: applySecret_step_def split: prod.splits option.splits if_splits)
    moreover from this(2) have "wf_map (sec_data sec)"
      using assms(2) map_of_SomeD by (fastforce simp: secrets_wf_def)
    ultimately show "?P s'" using handler_apply_headers P map_le_trans by meson
  qed
  then show ?thesis by blast
qed

theorem secret_headers_never_override_witness:
  "\<exists>r'. applySecretAnnotations (new_route\<lparr>r_SetRequestHeaders := [(''A'', ''1'')]\<rparr>) [(SetRequestHeadersSecret, ''h'')]
       [(NamespacedName ''ns'' ''h'', \<lparr>sec_meta = new_meta ''Secret'' ''ns'' ''h'', sec_type = SecretTypeOpaque, sec_data = [(''B'', ''2'')]\<rparr>)]
       ''ns'' = Inr r' \<and> [''A'' \<mapsto> ''1''] \<subseteq>\<^sub>m map_of (r_SetRequestHeaders r')"
proof -
  let ?r = "new_route\<lparr>r_SetRequestHeaders := [(''A'', ''1'')]\<rparr>" and ?k = "[(SetRequestHeadersSecret, ''h'')]"
    and ?s = "[(NamespacedName ''ns'' ''h'', \<lparr>sec_meta = new_meta ''Secret'' ''ns'' ''h'', sec_type = SecretTypeOpaque, sec_data = [(''B'', ''2'')]\<rparr>)]"
  have "(case applySecretAnnotations ?r ?k ?s ''ns'' of Inr _ \<Rightarrow> True | Inl _ \<Rightarrow> False)" by code_simp
  then obtain r' where r': "applySecretAnnotations ?r ?k ?s ''ns'' = Inr r'" by (auto split: sum.splits)
  have "secrets_wf ?s" "wf_map (r_SetRequestHeaders ?r)" "wf_map (r_SetResponseHeaders ?r)"
    by (simp_all add: secrets_wf_def wf_map_def new_route_def)
  from secret_headers_never_override [OF r' this] r' show ?thesis by auto
qed

lemma decimal_snoc:
  assumes "decimal v = Some n" "d < 10"
  shows "decimal (v @ [char_of (48 + d)]) = Some (10 * n + d)"
proof -
  have "of_char (char_of (48 + d) :: char) = 48 + d" using assms(2) by simp
  then show ?thesis using assms by (auto simp: decimal_def split: if_splits)
qed

lemma decimal_show_nat: "decimal (show_nat n) = Some n"
proof (induction n rule: show_nat.induct)
  case (1 n)
  show ?case
  proof (cases "n < 10")
    case True
    then have "of_char (char_of (48 + n) :: char) = 48 + n" by simp
    with True show ?thesis by (subst show_nat.simps) (simp add: decimal_def)
  next
    case False
    then have "decimal (show_nat (n div 10) @ [char_of (48 + n mod 10)]) = Some (10 * (n div 10) + n mod 10)"
      using decimal_snoc [OF "1.IH"] by simp
    then show ?thesis using False by (subst show_nat.simps) simp
  qed
qed


lemma char_of_digits:
  "char_of (48::nat) = CHR ''0''" "char_of (49::nat) = CHR ''1''" "char_of (50::nat) = CHR ''2''"
  "char_of (51::nat) = CHR ''3''" "char_of (52::nat) = CHR ''4''" "char_of (53::nat) = CHR ''5''"
  "char_of (54::nat) = CHR ''6''" "char_of (55::nat) = CHR ''7''" "char_of (56::nat) = CHR ''8''"
  "char_of (57::nat) = CHR ''9''"
  by (simp_all add: char_of_def bit_0)


subsubsection \<open>Access flags\<close>

text \<open>The access flags come from the decoded base annotations; no other annotation changes them.\<close>

definition access_flags :: "pb_route \<Rightarrow> bool \<times> bool" where
  "access_flags r = (r_AllowPublicUnauthenticatedAccess r, r_AllowAnyAuthenticatedUser r)"

lemma applyTLS_flags: "applyTLSAnnotations r kvs secrets ns = Inr r' \<Longrightarrow> access_flags r' = access_flags r"
  unfolding applyTLSAnnotations_def
  by (erule efold_invariant [where P = "\<lambda>x. access_flags x = access_flags r"])
    (auto simp: applyTLS_step_def access_flags_def ebind_Inr_iff split: if_splits prod.splits option.splits)

lemma handler_apply_flags: "handler_apply k r data = Inr r' \<Longrightarrow> access_flags r' = access_flags r"
  by (auto simp: handler_apply_def apply_token_def apply_oauth2_secret_def apply_idp_secret_def access_flags_def Let_def
      ebind_Inr_iff split: if_splits option.splits)

lemma applySecret_flags: "applySecretAnnotations r kvs secrets ns = Inr r' \<Longrightarrow> access_flags r' = access_flags r"
  unfolding applySecretAnnotations_def
  by (erule efold_invariant [where P = "\<lambda>x. access_flags x = access_flags r"])
    (auto simp: applySecret_step_def split: if_splits prod.splits option.splits dest: handler_apply_flags)

lemma applyMCP_flags: "applyMCPAnnotations E r s c = Inr r' \<Longrightarrow> access_flags r' = access_flags r"
  by (auto simp: applyMCPAnnotations_def applyMCPServerAnnotations_def applyMCPClientAnnotations_def access_flags_def
      ebind_Inr_iff split: if_splits option.splits mcp_mode.splits)

lemma applyUpstream_flags: "applyUpstreamAnnotations r kvs = Inr r' \<Longrightarrow> access_flags r' = access_flags r"
  unfolding applyUpstreamAnnotations_def
  by (erule efold_invariant [where P = "\<lambda>x. access_flags x = access_flags r"])
    (auto simp: applyUpstream_step_def access_flags_def split: if_splits prod.splits)

lemmas flags_frame = applyTLS_flags applySecret_flags applyMCP_flags applyUpstream_flags

lemma applyAnnotations_access:
  assumes "applyAnnotations E r ic = Inr r'"
  shows "\<exists>kv r1 p. removeKeyPrefix (om_annotations (ic_meta ic)) (AnnotationPrefix ic) = Inr kv \<and>
    env_unmarshal_route E r (kv_Base kv) = Inr r1 \<and> access_flags r' = access_flags r1 \<and>
    unmarshalPolicyAnnotations E new_policy (kv_Policy kv) = Inr p \<and> r_Policies r' = [p]"
proof -
  obtain kv r1 r2 r3 r4 r5 p where kv: "removeKeyPrefix (om_annotations (ic_meta ic)) (AnnotationPrefix ic) = Inr kv"
    and r1: "(case env_unmarshal_route E r (kv_Base kv) of Inl m \<Rightarrow> Inl (ErrUnmarshal m) | Inr r' \<Rightarrow> Inr r') = Inr r1"
    and steps: "applyTLSAnnotations r1 (kv_TLS kv) (ic_Secrets ic) (om_namespace (ic_meta ic)) = Inr r2"
      "applySecretAnnotations r2 (kv_Secret kv) (ic_Secrets ic) (om_namespace (ic_meta ic)) = Inr r3"
      "applyMCPAnnotations E r3 (kv_MCPServer kv) (kv_MCPClient kv) = Inr r4"
      "applyUpstreamAnnotations r4 (kv_UpstreamTunnel kv) = Inr r5"
    and p: "unmarshalPolicyAnnotations E new_policy (kv_Policy kv) = Inr p" "r' = r5\<lparr>r_Policies := [p]\<rparr>"
    using assms unfolding applyAnnotations_def ebind_Inr_iff by blast
  have "access_flags r5 = access_flags r1" using flags_frame steps by metis
  then have "access_flags r' = access_flags r1" by (simp add: p(2) access_flags_def)
  moreover have "env_unmarshal_route E r (kv_Base kv) = Inr r1" using r1 by (auto split: sum.splits)
  ultimately show ?thesis using kv p by auto
qed

end
