(* ===== verification/Go_Url.thy ===== *)
theory Go_Url
  imports Go_Prelude
begin

text \<open>
  The parts of \<^verbatim>\<open>net/url\<close> and \<^verbatim>\<open>net\<close> that build route addresses: \<^verbatim>\<open>URL.String\<close> for a URL with a scheme and a
  host, and \<^verbatim>\<open>JoinHostPort\<close>.
\<close>

definition is_alnum :: "char \<Rightarrow> bool" where
  "is_alnum c \<longleftrightarrow> (let n = (of_char c :: nat) in
     48 \<le> n \<and> n \<le> 57 \<or> 65 \<le> n \<and> n \<le> 90 \<or> 97 \<le> n \<and> n \<le> 122)"

text \<open>The characters that a host keeps unescaped: the unreserved ones and those the host mode allows
  (the last two are the single and the double quote).\<close>

definition host_safe :: "char list" where
  "host_safe = ''-_.~!$&()*+,;=:[]<>'' @ [char_of (39::nat), char_of (34::nat)]"

definition hex_upper :: "nat \<Rightarrow> char" where
  "hex_upper n = (if n < 10 then char_of (48 + n) else char_of (55 + n))"

definition escape_host :: "string \<Rightarrow> string" where
  "escape_host h = concat (map (\<lambda>c.
     if is_alnum c \<or> c \<in> set host_safe then [c]
     else [CHR ''%'', hex_upper (of_char c div 16), hex_upper (of_char c mod 16)]) h)"

definition URL_String :: "string \<Rightarrow> string \<Rightarrow> string" where
  "URL_String scheme host =
     scheme @ '':'' @ (if host = [] then [] else ''//'' @ escape_host host)"

definition JoinHostPort :: "string \<Rightarrow> string \<Rightarrow> string" where
  "JoinHostPort host port =
     (if CHR '':'' \<in> set host then ''['' @ host @ '']:'' @ port else host @ '':'' @ port)"

lemma escape_host_safe: "\<forall>c \<in> set h. is_alnum c \<or> c \<in> set host_safe \<Longrightarrow> escape_host h = h"
  by (induction h) (auto simp: escape_host_def)

lemma URL_String_scheme: "URL_String s h = URL_String s' h' \<Longrightarrow> CHR '':'' \<notin> set s \<Longrightarrow> CHR '':'' \<notin> set s' \<Longrightarrow> s = s'"
  unfolding URL_String_def
proof (induction s arbitrary: s')
  case Nil
  then show ?case by (cases s') auto
next
  case (Cons c s)
  then show ?case by (cases s') auto
qed

end
