(* ===== verification/Ingress_To_Route.thy ===== *)
theory Ingress_To_Route
  imports Ingress_Annotations Route_List Go_Url
begin

text \<open>
  \<^verbatim>\<open>pomerium/ingress_to_route.go\<close>: the translation of an ingress into routes, one for each path of each rule
  and one for the default backend. The slug library is the argument \<open>slug\<close>, the annotation decoders are
  the \<open>ann_env\<close> argument \<open>E\<close>.
\<close>

datatype ing_error =
    ErrAnnotations ann_error
  | ErrTLSSpecs nat
  | ErrTLSHosts nat
  | ErrRouteCount nat
  | ErrEmptyHost
  | ErrRulesHTTP
  | ErrPathTypeRequired
  | ErrUpstreamPathType string
  | ErrUpstreamPath string string
  | ErrUnknownPathType string
  | ErrServiceRequired
  | ErrPort port_error
  | ErrServiceMissing namespaced_name
  | ErrRoutes route_error
  | ErrPolicyFromProto

subsection \<open>Backends\<close>

definition getServiceFromPath ::
  "http_ingress_path \<Rightarrow> ingress_config \<Rightarrow> ing_error + (service_backend \<times> service \<times> int)" where
  "getServiceFromPath p ic =
     (case ip_service p of
        None \<Rightarrow> Inl ErrServiceRequired
      | Some backend \<Rightarrow>
          (let serviceName = ic_GetNamespacedName ic (sb_name backend) in
           ebind (if bp_name (sb_port backend) \<noteq> []
                  then (case GetServicePortByName ic serviceName (bp_name (sb_port backend)) of
                          Inl e \<Rightarrow> Inl (ErrPort e) | Inr port \<Rightarrow> Inr port)
                  else Inr (bp_number (sb_port backend)))
             (\<lambda>port.
               case map_of (ic_Services ic) serviceName of
                 None \<Rightarrow> Inl (ErrServiceMissing serviceName)
               | Some service \<Rightarrow> Inr (backend, service, port))))"

text \<open>The matcher of endpoint ports is nil (\<open>None\<close>) when the service has no port with the number.\<close>

definition getEndpointPortMatcher :: "backend_port \<Rightarrow> service_port list \<Rightarrow> (endpoint_port \<Rightarrow> bool) option" where
  "getEndpointPortMatcher bp sps =
     (if bp_name bp \<noteq> [] then Some (\<lambda>port. ep_name port = bp_name bp)
      else (case List.find (\<lambda>sp. bp_number bp = sp_port sp) sps of
              Some sp \<Rightarrow> Some (\<lambda>port. ep_port port = IntVal (sp_target sp))
            | None \<Rightarrow> None))"

definition host_port :: "string \<Rightarrow> int \<Rightarrow> string" where
  "host_port h p = h @ '':'' @ show_int p"

definition getEndpointsURLs :: "backend_port \<Rightarrow> service_port list \<Rightarrow> endpoint_subset list \<Rightarrow> string list" where
  "getEndpointsURLs bp sps subsets =
     (case getEndpointPortMatcher bp sps of
        None \<Rightarrow> []
      | Some portMatch \<Rightarrow>
          concat (map (\<lambda>subset. concat (map (\<lambda>ip.
            map (\<lambda>port. host_port ip (ep_port port)) (filter portMatch (es_ports subset)))
            (es_addresses subset))) subsets))"

definition svc_dns :: "string \<Rightarrow> string \<Rightarrow> string" where
  "svc_dns name ns = name @ ''.'' @ ns @ ''.svc.cluster.local''"

definition getPathServiceHosts ::
  "pb_route \<Rightarrow> http_ingress_path \<Rightarrow> ingress_config \<Rightarrow> ing_error + (pb_route \<times> string list)" where
  "getPathServiceHosts r p ic =
     ebind (getServiceFromPath p ic) (\<lambda>(backend, service, port).
       let ns = om_namespace (ic_meta ic); dns = svc_dns (sb_name backend) ns in
       if svc_type service = ServiceTypeExternalName then Inr (r, [host_port (svc_external_name service) port])
       else if UseServiceProxy ic then Inr (r, [host_port dns port])
       else let hosts = (case map_of (ic_Endpoints ic) (ic_GetNamespacedName ic (sb_name backend)) of
                           None \<Rightarrow> []
                         | Some eps \<Rightarrow> getEndpointsURLs (sb_port backend) (svc_ports service) (eps_subsets eps))
            in if hosts = [] then Inr (r, [host_port dns port])
               else if IsSecureUpstream ic \<and> r_TlsServerName r = []
                    then Inr (r\<lparr>r_TlsServerName := dns\<rparr>, hosts)
                    else Inr (r, hosts))"

definition getUpstreamScheme :: "ingress_config \<Rightarrow> string" where
  "getUpstreamScheme ic =
     (if IsSSHUpstream ic then ''ssh''
      else if IsTCPUpstream ic then ''tcp''
      else if IsUDPUpstream ic then ''udp''
      else if IsSecureUpstream ic then ''https''
      else ''http'')"

definition setServiceURLs :: "pb_route \<Rightarrow> http_ingress_path \<Rightarrow> ingress_config \<Rightarrow> ing_error + pb_route" where
  "setServiceURLs r p ic =
     ebind (getPathServiceHosts r p ic) (\<lambda>(r1, hosts).
       let urls = map (URL_String (getUpstreamScheme ic)) hosts in
       Inr (r1\<lparr>r_To := sort_Strings urls\<rparr>))"

subsection \<open>Matching\<close>

definition tunnel_path :: "string \<Rightarrow> path_type \<Rightarrow> string \<Rightarrow> pb_route \<Rightarrow> ing_error + pb_route" where
  "tunnel_path kind t path r =
     (if t \<noteq> PathTypeImplementationSpecific then Inl (ErrUpstreamPathType kind)
      else if path \<noteq> [] then Inl (ErrUpstreamPath kind path)
      else Inr r)"

definition setRoutePath :: "pb_route \<Rightarrow> http_ingress_path \<Rightarrow> ingress_config \<Rightarrow> ing_error + pb_route" where
  "setRoutePath r p ic =
     (case ip_type p of
        None \<Rightarrow> Inl ErrPathTypeRequired
      | Some t \<Rightarrow>
          if IsSSHUpstream ic then tunnel_path ''ssh'' t (ip_path p) r
          else if IsTCPUpstream ic then tunnel_path ''tcp'' t (ip_path p) r
          else if IsUDPUpstream ic then tunnel_path ''udp'' t (ip_path p) r
          else (case t of
                  PathTypeImplementationSpecific \<Rightarrow>
                    if IsPathRegex ic then Inr (r\<lparr>r_Regex := ip_path p\<rparr>) else Inr (r\<lparr>r_Prefix := ip_path p\<rparr>)
                | PathTypeExact \<Rightarrow> Inr (r\<lparr>r_Path := ip_path p\<rparr>)
                | PathTypePrefix \<Rightarrow> Inr (r\<lparr>r_Prefix := ip_path p\<rparr>)
                | PathTypeOther s \<Rightarrow> Inl (ErrUnknownPathType s)))"

definition add_port :: "bool \<Rightarrow> string \<Rightarrow> http_ingress_path \<Rightarrow> ingress_config \<Rightarrow> string \<times> string \<Rightarrow> ing_error + string \<times> string" where
  "add_port on scheme p ic u =
     (if on then ebind (getServiceFromPath p ic) (\<lambda>(_, _, port). Inr (scheme, JoinHostPort (snd u) (show_int port)))
      else Inr u)"

definition setRouteFrom :: "pb_route \<Rightarrow> string \<Rightarrow> http_ingress_path \<Rightarrow> ingress_config \<Rightarrow> ing_error + pb_route" where
  "setRouteFrom r host p ic =
     (let u0 = (if IsSSHUpstream ic then ''ssh'' else ''https'', host) in
      ebind (add_port (IsTCPUpstream ic) ''tcp+https'' p ic u0) (\<lambda>u1.
      ebind (add_port (IsUDPUpstream ic) ''udp+https'' p ic u1) (\<lambda>u2.
        Inr (r\<lparr>r_From := URL_String (fst u2) (snd u2)\<rparr>))))"

definition setRouteNameID :: "(string \<Rightarrow> string) \<Rightarrow> pb_route \<Rightarrow> namespaced_name \<Rightarrow> string \<Rightarrow> string \<Rightarrow> pb_route" where
  "setRouteNameID slug r name host path =
     (let r1 = r\<lparr>r_Id := Some (Marshal (RouteID (Name name) (Namespace name) host path))\<rparr>;
          slugName = slug (Namespace name @ '' '' @ Name name @ '' '' @ host);
          pathSlug = slug path;
          slugName' = (if pathSlug \<noteq> [] then slugName @ ''-'' @ pathSlug else slugName);
          r2 = (if deref_str (r_Name r1) = [] then r1\<lparr>r_Name := Some slugName'\<rparr> else r1)
      in r2\<lparr>r_StatName := Some slugName'\<rparr>)"

definition pathToRoute ::
  "(string \<Rightarrow> string) \<Rightarrow> pb_route \<Rightarrow> string \<Rightarrow> http_ingress_path \<Rightarrow> ingress_config \<Rightarrow> ing_error + pb_route" where
  "pathToRoute slug r host p ic =
     ebind (setRouteFrom r host p ic) (\<lambda>r1.
     ebind (setRoutePath r1 p ic) (\<lambda>r2.
       setServiceURLs (setRouteNameID slug r2 (ic_GetNamespacedName ic (om_name (ic_meta ic))) host (ip_path p)) p ic))"

subsection \<open>Rules\<close>

definition ruleToRoute ::
  "(string \<Rightarrow> string) \<Rightarrow> ingress_rule \<Rightarrow> pb_route \<Rightarrow> ingress_config \<Rightarrow> ing_error + pb_route list" where
  "ruleToRoute slug rule tmpl ic =
     ebind (if ir_host rule = []
            then (if IsAnnotationSet ic SubtleAllowEmptyHost then Inr ''*'' else Inl ErrEmptyHost)
            else Inr (ir_host rule)) (\<lambda>host.
       case ir_http rule of
         None \<Rightarrow> Inl ErrRulesHTTP
       | Some paths \<Rightarrow> emap (\<lambda>p. pathToRoute slug tmpl host p ic) paths)"

definition deriveHostFromTLS :: "ingress_tls list \<Rightarrow> ing_error + string" where
  "deriveHostFromTLS tls =
     (case tls of
        [t] \<Rightarrow> (case it_hosts t of [h] \<Rightarrow> Inr h | hs \<Rightarrow> Inl (ErrTLSHosts (length hs)))
      | _ \<Rightarrow> Inl (ErrTLSSpecs (length tls)))"

definition defaultBackend ::
  "(string \<Rightarrow> string) \<Rightarrow> pb_route \<Rightarrow> ingress_config \<Rightarrow> service_backend option \<Rightarrow> ing_error + pb_route" where
  "defaultBackend slug tmpl ic backend =
     ebind (deriveHostFromTLS (ing_tls (ic_Ingress ic))) (\<lambda>host.
     ebind (ruleToRoute slug
              \<lparr>ir_host = host,
               ir_http = Some [\<lparr>ip_path = ''/'', ip_type = Some PathTypePrefix, ip_service = backend\<rparr>]\<rparr> tmpl ic)
       (\<lambda>routes. if length routes \<noteq> 1 then Inl (ErrRouteCount (length routes)) else Inr (hd routes)))"

definition route_template :: "ann_env \<Rightarrow> ingress_config \<Rightarrow> ing_error + pb_route" where
  "route_template E ic =
     (if IsHTTP01Solver (ic_Ingress ic)
      then Inr (new_route\<lparr>r_AllowPublicUnauthenticatedAccess := True, r_PreserveHostHeader := True\<rparr>)
      else (case applyAnnotations E new_route ic of Inl e \<Rightarrow> Inl (ErrAnnotations e) | Inr t \<Rightarrow> Inr t))"

definition ingressToRoutes :: "ann_env \<Rightarrow> (string \<Rightarrow> string) \<Rightarrow> ingress_config \<Rightarrow> ing_error + pb_route list" where
  "ingressToRoutes E slug ic =
     ebind (route_template E ic) (\<lambda>tmpl.
     ebind (case ing_default_backend (ic_Ingress ic) of
              None \<Rightarrow> Inr []
            | Some backend \<Rightarrow> ebind (defaultBackend slug tmpl ic backend) (\<lambda>r. Inr [r])) (\<lambda>routes.
       efold (\<lambda>routes rule. ebind (ruleToRoute slug rule tmpl ic) (\<lambda>rs. Inr (routes @ rs)))
         routes (ing_rules (ic_Ingress ic))))"

text \<open>The exported variant converts each route with a constructor of another package.\<close>

definition IngressToRoutes ::
  "(pb_route \<Rightarrow> 'p option) \<Rightarrow> ann_env \<Rightarrow> (string \<Rightarrow> string) \<Rightarrow> ingress_config \<Rightarrow> ing_error + 'p list" where
  "IngressToRoutes newPolicyFromProto E slug ic =
     ebind (ingressToRoutes E slug ic) (\<lambda>pbRoutes.
       emap (\<lambda>r. case newPolicyFromProto r of None \<Rightarrow> Inl ErrPolicyFromProto | Some p \<Rightarrow> Inr p) pbRoutes)"

definition upsertRoutes ::
  "ann_env \<Rightarrow> (string \<Rightarrow> string) \<Rightarrow> pb_config \<Rightarrow> ingress_config \<Rightarrow> ing_error + pb_config" where
  "upsertRoutes E slug cfg ic =
     ebind (ingressToRoutes E slug ic) (\<lambda>ingRoutes.
       case mergeRoutes cfg ingRoutes (NamespacedName (om_namespace (ic_meta ic)) (om_name (ic_meta ic))) of
         Inl e \<Rightarrow> Inl (ErrRoutes e)
       | Inr cfg' \<Rightarrow> Inr cfg')"

subsection \<open>What each setter changes\<close>

text \<open>Access control of a route: the part that no setter below touches.\<close>

definition access :: "pb_route \<Rightarrow> bool \<times> bool \<times> pb_policy list" where
  "access r = (r_AllowPublicUnauthenticatedAccess r, r_AllowAnyAuthenticatedUser r, r_Policies r)"

lemma setRouteFrom_frame: "setRouteFrom r host p ic = Inr r' \<Longrightarrow> \<exists>f. r' = r\<lparr>r_From := f\<rparr>"
  by (auto simp: setRouteFrom_def Let_def ebind_Inr_iff)

lemma tunnel_path_frame: "tunnel_path kind t path r = Inr r' \<Longrightarrow> r' = r"
  by (simp add: tunnel_path_def split: if_splits)

lemma setRoutePath_frame:
  "setRoutePath r p ic = Inr r' \<Longrightarrow> \<exists>a b c. r' = r\<lparr>r_Prefix := a, r_Path := b, r_Regex := c\<rparr>"
proof -
  assume "setRoutePath r p ic = Inr r'"
  then consider "r' = r" | "r' = r\<lparr>r_Regex := ip_path p\<rparr>" | "r' = r\<lparr>r_Prefix := ip_path p\<rparr>" | "r' = r\<lparr>r_Path := ip_path p\<rparr>"
    by (auto simp: setRoutePath_def split: option.splits if_splits path_type.splits dest: tunnel_path_frame)
  then show ?thesis
  proof cases
    case 1
    then show ?thesis by (intro exI [of _ "r_Prefix r"] exI [of _ "r_Path r"] exI [of _ "r_Regex r"]) simp
  next
    case 2
    then show ?thesis by (intro exI [of _ "r_Prefix r"] exI [of _ "r_Path r"] exI [of _ "ip_path p"]) simp
  next
    case 3
    then show ?thesis by (intro exI [of _ "ip_path p"] exI [of _ "r_Path r"] exI [of _ "r_Regex r"]) simp
  next
    case 4
    then show ?thesis by (intro exI [of _ "r_Prefix r"] exI [of _ "ip_path p"] exI [of _ "r_Regex r"]) simp
  qed
qed

lemma setRouteNameID_fields:
  "r_Id (setRouteNameID slug r name host path) = Some (Marshal (RouteID (Name name) (Namespace name) host path))"
  "access (setRouteNameID slug r name host path) = access r"
  "r_From (setRouteNameID slug r name host path) = r_From r"
  "r_Path (setRouteNameID slug r name host path) = r_Path r"
  "r_Prefix (setRouteNameID slug r name host path) = r_Prefix r"
  "r_Regex (setRouteNameID slug r name host path) = r_Regex r"
  by (simp_all add: setRouteNameID_def Let_def access_def)

lemma getPathServiceHosts_frame:
  "getPathServiceHosts r p ic = Inr (r', hosts) \<Longrightarrow> (\<exists>n. r' = r\<lparr>r_TlsServerName := n\<rparr>) \<and> hosts \<noteq> []"
proof -
  assume "getPathServiceHosts r p ic = Inr (r', hosts)"
  then have "r' = r \<or> (\<exists>n. r' = r\<lparr>r_TlsServerName := n\<rparr>)" "hosts \<noteq> []"
    by (auto simp: getPathServiceHosts_def Let_def ebind_Inr_iff split: if_splits prod.splits)
  moreover have "r = r\<lparr>r_TlsServerName := r_TlsServerName r\<rparr>" by simp
  ultimately show ?thesis by metis
qed

lemma setServiceURLs_frame:
  assumes "setServiceURLs r p ic = Inr r'"
  shows "\<exists>n hosts. hosts \<noteq> [] \<and>
    r' = r\<lparr>r_TlsServerName := n, r_To := sort_Strings (map (URL_String (getUpstreamScheme ic)) hosts)\<rparr>"
proof -
  obtain r1 hosts where h: "getPathServiceHosts r p ic = Inr (r1, hosts)"
    and r': "r' = r1\<lparr>r_To := sort_Strings (map (URL_String (getUpstreamScheme ic)) hosts)\<rparr>"
    using assms by (auto simp: setServiceURLs_def Let_def ebind_Inr_iff)
  then show ?thesis using getPathServiceHosts_frame [OF h] by auto
qed

text \<open>What \<open>pathToRoute\<close> guarantees of its result.\<close>

definition well_routed :: "ingress_config \<Rightarrow> pb_route \<Rightarrow> string \<times> string \<Rightarrow> pb_route \<Rightarrow> bool" where
  "well_routed ic tmpl hp r \<longleftrightarrow>
     r_Id r = Some (Marshal (RouteID (om_name (ic_meta ic)) (om_namespace (ic_meta ic)) (fst hp) (snd hp))) \<and>
     access r = access tmpl \<and> r_To r \<noteq> [] \<and> sorted (r_To r) \<and>
     (\<forall>u \<in> set (r_To r). \<exists>h. u = URL_String (getUpstreamScheme ic) h)"

lemma pathToRoute_well_routed:
  assumes "pathToRoute slug tmpl host p ic = Inr r"
  shows "well_routed ic tmpl (host, ip_path p) r"
proof -
  obtain r1 r2 where 1: "setRouteFrom tmpl host p ic = Inr r1" and 2: "setRoutePath r1 p ic = Inr r2"
    and 3: "setServiceURLs (setRouteNameID slug r2 (ic_GetNamespacedName ic (om_name (ic_meta ic))) host (ip_path p)) p ic = Inr r"
    using assms by (auto simp: pathToRoute_def ebind_Inr_iff)
  have acc: "access r2 = access tmpl"
    using setRouteFrom_frame [OF 1] setRoutePath_frame [OF 2] by (auto simp: access_def)
  obtain n hosts where "hosts \<noteq> []"
    and r: "r = (setRouteNameID slug r2 (ic_GetNamespacedName ic (om_name (ic_meta ic))) host (ip_path p))
      \<lparr>r_TlsServerName := n, r_To := sort_Strings (map (URL_String (getUpstreamScheme ic)) hosts)\<rparr>"
    using setServiceURLs_frame [OF 3] by blast
  have "r_Id r = Some (Marshal (RouteID (om_name (ic_meta ic)) (om_namespace (ic_meta ic)) host (ip_path p)))"
    by (simp add: r setRouteNameID_fields ic_GetNamespacedName_def)
  moreover have "access r = access tmpl"
    using acc setRouteNameID_fields(2) [of slug r2] by (simp add: r access_def)
  moreover have "r_To r \<noteq> []" "sorted (r_To r)" "\<forall>u \<in> set (r_To r). \<exists>h. u = URL_String (getUpstreamScheme ic) h"
    using \<open>hosts \<noteq> []\<close> set_sort_Strings [of "map (URL_String (getUpstreamScheme ic)) hosts"]
    by (auto simp: r sorted_sort_Strings simp del: set_sort_Strings)
  ultimately show ?thesis by (simp add: well_routed_def)
qed

subsection \<open>All paths of an ingress\<close>

definition rule_host :: "ingress_config \<Rightarrow> string \<Rightarrow> string" where
  "rule_host ic h = (if h = [] \<and> IsAnnotationSet ic SubtleAllowEmptyHost then ''*'' else h)"

definition rule_paths :: "ingress_config \<Rightarrow> ingress_rule \<Rightarrow> (string \<times> string) list" where
  "rule_paths ic rule =
     (case ir_http rule of None \<Rightarrow> []
      | Some ps \<Rightarrow> map (\<lambda>p. (rule_host ic (ir_host rule), ip_path p)) ps)"

definition default_paths :: "ingress_config \<Rightarrow> (string \<times> string) list" where
  "default_paths ic =
     (case ing_default_backend (ic_Ingress ic) of None \<Rightarrow> []
      | Some _ \<Rightarrow>
          (case deriveHostFromTLS (ing_tls (ic_Ingress ic)) of Inl _ \<Rightarrow> [] | Inr h \<Rightarrow> [(rule_host ic h, ''/'')]))"

definition ingress_paths :: "ingress_config \<Rightarrow> (string \<times> string) list" where
  "ingress_paths ic = default_paths ic @ concat (map (rule_paths ic) (ing_rules (ic_Ingress ic)))"

lemma emap_list_all2: "emap f xs = Inr ys \<longleftrightarrow> list_all2 (\<lambda>x y. f x = Inr y) xs ys"
  by (induction xs arbitrary: ys) (auto simp: ebind_Inr_iff list_all2_Cons1)

lemma ruleToRoute_well_routed:
  assumes "ruleToRoute slug rule tmpl ic = Inr rs"
  shows "list_all2 (well_routed ic tmpl) (rule_paths ic rule) rs"
proof -
  obtain ps where ps: "ir_http rule = Some ps"
    and m: "emap (\<lambda>p. pathToRoute slug tmpl (rule_host ic (ir_host rule)) p ic) ps = Inr rs"
    using assms by (auto simp: ruleToRoute_def ebind_Inr_iff rule_host_def split: if_splits option.splits)
  have "list_all2 (\<lambda>p. well_routed ic tmpl (rule_host ic (ir_host rule), ip_path p)) ps rs"
    using m unfolding emap_list_all2 by (rule list_all2_mono) (rule pathToRoute_well_routed)
  then show ?thesis by (simp add: rule_paths_def ps list_all2_map1)
qed

lemma defaultBackend_well_routed:
  assumes "defaultBackend slug tmpl ic backend = Inr r"
  shows "\<exists>h. deriveHostFromTLS (ing_tls (ic_Ingress ic)) = Inr h \<and> well_routed ic tmpl (rule_host ic h, ''/'') r"
proof -
  obtain h rs where h: "deriveHostFromTLS (ing_tls (ic_Ingress ic)) = Inr h"
    and rs: "ruleToRoute slug \<lparr>ir_host = h, ir_http = Some [\<lparr>ip_path = ''/'', ip_type = Some PathTypePrefix, ip_service = backend\<rparr>]\<rparr> tmpl ic = Inr rs"
    and r: "length rs = 1" "r = hd rs"
    using assms by (auto simp: defaultBackend_def ebind_Inr_iff split: if_splits)
  from ruleToRoute_well_routed [OF rs] r show ?thesis
    by (cases rs) (auto simp: h rule_paths_def)
qed

lemma rules_well_routed:
  assumes "efold (\<lambda>routes rule. ebind (ruleToRoute slug rule tmpl ic) (\<lambda>rs. Inr (routes @ rs))) acc rules = Inr rs"
    and "list_all2 (well_routed ic tmpl) hps acc"
  shows "list_all2 (well_routed ic tmpl) (hps @ concat (map (rule_paths ic) rules)) rs"
  using assms
proof (induction rules arbitrary: acc hps)
  case (Cons rule rules)
  obtain rs1 where 1: "ruleToRoute slug rule tmpl ic = Inr rs1"
    and 2: "efold (\<lambda>routes rule. ebind (ruleToRoute slug rule tmpl ic) (\<lambda>rs. Inr (routes @ rs))) (acc @ rs1) rules = Inr rs"
    using Cons.prems(1) by (auto simp: ebind_Inr_iff)
  have "list_all2 (well_routed ic tmpl) (hps @ rule_paths ic rule) (acc @ rs1)"
    using Cons.prems(2) ruleToRoute_well_routed [OF 1] by (rule list_all2_appendI)
  from Cons.IH [OF 2 this] show ?case by simp
qed simp

lemma ingressToRoutes_well_routed:
  assumes "ingressToRoutes E slug ic = Inr rs"
  shows "\<exists>tmpl. route_template E ic = Inr tmpl \<and> list_all2 (well_routed ic tmpl) (ingress_paths ic) rs"
proof -
  obtain tmpl acc where t: "route_template E ic = Inr tmpl"
    and acc: "(case ing_default_backend (ic_Ingress ic) of None \<Rightarrow> Inr []
      | Some backend \<Rightarrow> ebind (defaultBackend slug tmpl ic backend) (\<lambda>r. Inr [r])) = Inr acc"
    and rs: "efold (\<lambda>routes rule. ebind (ruleToRoute slug rule tmpl ic) (\<lambda>rs. Inr (routes @ rs))) acc (ing_rules (ic_Ingress ic)) = Inr rs"
    using assms by (auto simp: ingressToRoutes_def ebind_Inr_iff)
  have "list_all2 (well_routed ic tmpl) (default_paths ic) acc"
    using acc defaultBackend_well_routed [of slug tmpl ic]
    by (fastforce simp: default_paths_def ebind_Inr_iff split: option.splits)
  from rules_well_routed [OF rs this] t show ?thesis by (auto simp: ingress_paths_def)
qed

subsection \<open>Keys of the routes of an ingress\<close>

abbreviation ic_name :: "ingress_config \<Rightarrow> namespaced_name" where
  "ic_name ic \<equiv> NamespacedName (om_namespace (ic_meta ic)) (om_name (ic_meta ic))"

definition utf8_ingress :: "ingress_config \<Rightarrow> bool" where
  "utf8_ingress ic \<longleftrightarrow> valid_utf8 (om_name (ic_meta ic)) \<and> valid_utf8 (om_namespace (ic_meta ic)) \<and>
     (\<forall>(h, p) \<in> set (ingress_paths ic). valid_utf8 h \<and> valid_utf8 p)"

definition path_key :: "ingress_config \<Rightarrow> string \<times> string \<Rightarrow> routeID" where
  "path_key ic hp = RouteID (om_name (ic_meta ic)) (om_namespace (ic_meta ic)) (fst hp) (snd hp)"

lemma well_routed_key:
  assumes "well_routed ic tmpl hp r" "utf8_ingress ic" "hp \<in> set (ingress_paths ic)"
  shows "route_key r = Some (path_key ic hp)"
proof -
  have "GetId r = Marshal (path_key ic hp)"
    using assms(1) by (simp add: well_routed_def GetId_def deref_str_def path_key_def)
  moreover have "Unmarshal (Marshal (path_key ic hp)) = Inr (path_key ic hp)"
    using assms(2,3) by (intro Unmarshal_Marshal) (auto simp: utf8_ingress_def path_key_def)
  ultimately show ?thesis by (simp add: route_key_Some)
qed

lemma ingress_keys:
  assumes "ingressToRoutes E slug ic = Inr rs" "utf8_ingress ic"
  shows "map route_key rs = map (Some \<circ> path_key ic) (ingress_paths ic)"
proof -
  obtain tmpl where l: "list_all2 (well_routed ic tmpl) (ingress_paths ic) rs"
    using ingressToRoutes_well_routed [OF assms(1)] by blast
  then have "list_all2 (\<lambda>hp r. route_key r = Some (path_key ic hp)) (ingress_paths ic) rs"
    by (rule list.rel_mono_strong) (use well_routed_key assms(2) in blast)
  then show ?thesis by (induction rule: list_all2_induct) simp_all
qed

lemma inj_path_key: "inj (path_key ic)"
  by (auto simp: inj_def path_key_def)

lemma ingress_routes_ok:
  assumes "ingressToRoutes E slug ic = Inr rs" "utf8_ingress ic"
  shows "routes_ok rs \<longleftrightarrow> distinct (ingress_paths ic)" and "\<forall>r \<in> set rs. owned_by (ic_name ic) r"
proof -
  note k = ingress_keys [OF assms]
  have in_k: "route_key r \<in> set (map (Some \<circ> path_key ic) (ingress_paths ic))" if "r \<in> set rs" for r
    using that k by (metis image_eqI list.set_map)
  have "inj_on (Some \<circ> path_key ic) (set (ingress_paths ic))"
    by (rule inj_on_subset [OF _ subset_UNIV]) (simp add: inj_path_key inj_compose)
  then have "distinct (map route_key rs) \<longleftrightarrow> distinct (ingress_paths ic)"
    unfolding k by (simp add: distinct_map)
  then show "routes_ok rs \<longleftrightarrow> distinct (ingress_paths ic)"
    using in_k unfolding routes_ok_def by fastforce
  show "\<forall>r \<in> set rs. owned_by (ic_name ic) r"
    using in_k by (fastforce simp: owned_by_def path_key_def)
qed

subsection \<open>Properties\<close>

text \<open>C6: a translated ingress has exactly one route for each of its paths, in order, the default backend
  first; each route carries the id of its ingress, host and path, the access control of the template,
  and a sorted, non-empty list of upstream addresses of the right scheme.\<close>

theorem ingressToRoutes_spec:
  assumes "ingressToRoutes E slug ic = Inr rs"
  shows "\<exists>tmpl. route_template E ic = Inr tmpl \<and> list_all2 (well_routed ic tmpl) (ingress_paths ic) rs"
  by (rule ingressToRoutes_well_routed [OF assms])

definition ex_plain_ic :: ingress_config where
  "ex_plain_ic = ex_ic\<lparr>ic_Ingress := ex_ingress_obj\<lparr>ing_meta := new_meta ''Ingress'' ''ns'' ''web''\<rparr>\<rparr>"

lemma ex_plain_routes: "\<exists>rs. ingressToRoutes ex_env id ex_plain_ic = Inr rs \<and> map r_To rs = [[''http://10.1.0.1:8080'', ''http://10.1.0.2:8080'']]"
proof -
  have "(case ingressToRoutes ex_env id ex_plain_ic of
      Inr rs \<Rightarrow> map r_To rs = [[''http://10.1.0.1:8080'', ''http://10.1.0.2:8080'']] | Inl _ \<Rightarrow> False)"
    by code_simp
  then show ?thesis by (auto split: sum.splits)
qed

theorem ingressToRoutes_spec_witness:
  "\<exists>rs tmpl. ingressToRoutes ex_env id ex_plain_ic = Inr rs \<and> length rs = 1 \<and>
     list_all2 (well_routed ex_plain_ic tmpl) (ingress_paths ex_plain_ic) rs"
proof -
  obtain rs where rs: "ingressToRoutes ex_env id ex_plain_ic = Inr rs \<and>
    map r_To rs = [[''http://10.1.0.1:8080'', ''http://10.1.0.2:8080'']]" using ex_plain_routes ..
  have "length (map r_To rs) = 1" unfolding conjunct2 [OF rs] by simp
  then have "length rs = 1" by simp
  then show ?thesis using ingressToRoutes_spec [OF conjunct1 [OF rs]] conjunct1 [OF rs] by blast
qed

lemma upsertRoutes_ok_iff:
  assumes "ingressToRoutes E slug ic = Inr rs" "utf8_ingress ic" "routes_ok (cfg_Routes cfg)"
  shows "(\<exists>cfg'. upsertRoutes E slug cfg ic = Inr cfg') \<longleftrightarrow> distinct (ingress_paths ic)"
proof -
  have ok: "routes_ok rs \<longleftrightarrow> distinct (ingress_paths ic)" using ingress_routes_ok(1) assms by blast
  show ?thesis
  proof (cases "routes_ok rs")
    case True
    then show ?thesis
      using ok mergeRoutes_ok [OF assms(3) True] by (auto simp: upsertRoutes_def assms(1))
  next
    case False
    then obtain e where "toMap rs = Inl e" using toMap_bad by blast
    then show ?thesis using ok False by (simp add: upsertRoutes_def assms(1) mergeRoutes_def)
  qed
qed

text \<open>Merging a translated ingress into a well-formed configuration succeeds exactly when no two of its
  paths have the same host and path, whatever their path types are.\<close>

theorem upsertRoutes_iff:
  assumes "ingressToRoutes E slug ic = Inr rs" "utf8_ingress ic" "routes_ok (cfg_Routes cfg)"
  shows "(\<exists>cfg'. upsertRoutes E slug cfg ic = Inr cfg') \<longleftrightarrow> distinct (ingress_paths ic)"
  by (rule upsertRoutes_ok_iff [OF assms])

definition ex_both_types :: ingress_config where
  "ex_both_types = ex_plain_ic\<lparr>ic_Ingress := (ic_Ingress ex_plain_ic)\<lparr>ing_rules :=
     [\<lparr>ir_host = ''a.example.com'', ir_http = Some (map (\<lambda>t. \<lparr>ip_path = ''/x'', ip_type = Some t,
         ip_service = Some \<lparr>sb_name = ''svc'', sb_port = \<lparr>bp_name = [], bp_number = 80\<rparr>\<rparr>\<rparr>)
         [PathTypeExact, PathTypePrefix])\<rparr>]\<rparr>\<rparr>"

theorem upsertRoutes_iff_witness:
  "(\<exists>rs. ingressToRoutes ex_env id ex_both_types = Inr rs) \<and>
   \<not> (\<exists>cfg'. upsertRoutes ex_env id new_config ex_both_types = Inr cfg')"
proof -
  have "(case ingressToRoutes ex_env id ex_both_types of Inr _ \<Rightarrow> True | Inl _ \<Rightarrow> False)" by code_simp
  then obtain rs where rs: "ingressToRoutes ex_env id ex_both_types = Inr rs" by (auto split: sum.splits)
  have "utf8_ingress ex_both_types" unfolding utf8_ingress_def by code_simp
  moreover have "routes_ok (cfg_Routes new_config)" by (simp add: routes_ok_def new_config_def)
  moreover have "\<not> distinct (ingress_paths ex_both_types)" by code_simp
  ultimately show ?thesis using upsertRoutes_iff [OF rs] rs by blast
qed

lemma upsert_then_delete:
  assumes "ingressToRoutes E slug ic = Inr rs" "utf8_ingress ic" "distinct (ingress_paths ic)" "routes_ok (cfg_Routes cfg)"
  shows "\<exists>cfg'. upsertRoutes E slug cfg ic = Inr cfg' \<and> routes_ok (cfg_Routes cfg') \<and> cfg_Settings cfg' = cfg_Settings cfg \<and>
    {r \<in> set (cfg_Routes cfg'). owned_by (ic_name ic) r} = set rs \<and>
    {r \<in> set (cfg_Routes cfg'). \<not> owned_by (ic_name ic) r} = {r \<in> set (cfg_Routes cfg). \<not> owned_by (ic_name ic) r} \<and>
    deleteRoutes cfg' (ic_name ic) = deleteRoutes cfg (ic_name ic)"
proof -
  have ok: "routes_ok rs" and own: "\<forall>r \<in> set rs. owned_by (ic_name ic) r"
    using ingress_routes_ok [OF assms(1,2)] assms(3) by blast+
  note m = mergeRoutes_owned [OF assms(4) ok own]
  let ?cfg = "cfg\<lparr>cfg_Routes := routes_Sort (filter (\<lambda>r. \<not> owned_by (ic_name ic) r) (cfg_Routes cfg) @ rs)\<rparr>"
  have "deleteRoutes ?cfg (ic_name ic) = deleteRoutes cfg (ic_name ic)"
    using delete_after_merge [OF assms(4) ok own] m(1) by simp
  then show ?thesis
    using m own by (intro exI [of _ ?cfg]) (simp add: upsertRoutes_def assms(1), auto simp: routes_Sort_def)
qed

text \<open>After an ingress was merged, the configuration holds exactly its current routes under its name and
  every route of other ingresses unchanged; deleting the ingress later removes all of them and nothing
  else.\<close>

theorem upsertRoutes_delete:
  assumes "ingressToRoutes E slug ic = Inr rs" "utf8_ingress ic" "distinct (ingress_paths ic)" "routes_ok (cfg_Routes cfg)"
  shows "\<exists>cfg'. upsertRoutes E slug cfg ic = Inr cfg' \<and> routes_ok (cfg_Routes cfg') \<and> cfg_Settings cfg' = cfg_Settings cfg \<and>
    {r \<in> set (cfg_Routes cfg'). owned_by (ic_name ic) r} = set rs \<and>
    {r \<in> set (cfg_Routes cfg'). \<not> owned_by (ic_name ic) r} = {r \<in> set (cfg_Routes cfg). \<not> owned_by (ic_name ic) r} \<and>
    deleteRoutes cfg' (ic_name ic) = deleteRoutes cfg (ic_name ic)"
  by (rule upsert_then_delete [OF assms])

theorem upsertRoutes_delete_witness:
  "\<exists>cfg'. upsertRoutes ex_env id ex_config ex_plain_ic = Inr cfg' \<and>
     deleteRoutes cfg' (ic_name ex_plain_ic) = deleteRoutes ex_config (ic_name ex_plain_ic)"
proof -
  obtain rs where rs: "ingressToRoutes ex_env id ex_plain_ic = Inr rs" using ex_plain_routes by blast
  have "utf8_ingress ex_plain_ic" unfolding utf8_ingress_def by code_simp
  moreover have "distinct (ingress_paths ex_plain_ic)" by code_simp
  ultimately show ?thesis using upsertRoutes_delete [OF rs _ _ ex_ok(1)] by blast
qed

text \<open>C5: no route is opened by accident: every route of an ACME challenge solver is public and carries no
  policy; every route of any other ingress has the access flags that its decoded base annotations give
  and exactly the one policy of its policy annotations.\<close>

theorem ingressToRoutes_access:
  assumes "ingressToRoutes E slug ic = Inr rs" "r \<in> set rs"
  shows "if IsHTTP01Solver (ic_Ingress ic)
    then r_AllowPublicUnauthenticatedAccess r \<and> \<not> r_AllowAnyAuthenticatedUser r \<and> r_Policies r = []
    else \<exists>kv r1 p. removeKeyPrefix (om_annotations (ic_meta ic)) (AnnotationPrefix ic) = Inr kv \<and>
      env_unmarshal_route E new_route (kv_Base kv) = Inr r1 \<and> access_flags r = access_flags r1 \<and>
      unmarshalPolicyAnnotations E new_policy (kv_Policy kv) = Inr p \<and> r_Policies r = [p]"
proof -
  obtain tmpl hp where t: "route_template E ic = Inr tmpl" and w: "well_routed ic tmpl hp r"
    using ingressToRoutes_well_routed [OF assms(1)] assms(2) by (metis in_set_conv_nth list_all2_conv_all_nth)
  have acc: "access_flags r = access_flags tmpl" "r_Policies r = r_Policies tmpl"
    using w by (simp_all add: well_routed_def access_def access_flags_def)
  show ?thesis
  proof (cases "IsHTTP01Solver (ic_Ingress ic)")
    case True
    then have "tmpl = new_route\<lparr>r_AllowPublicUnauthenticatedAccess := True, r_PreserveHostHeader := True\<rparr>"
      using t by (simp add: route_template_def)
    then show ?thesis using acc True by (simp add: access_flags_def new_route_def)
  next
    case False
    then have "applyAnnotations E new_route ic = Inr tmpl"
      using t by (auto simp: route_template_def split: sum.splits)
    from applyAnnotations_access [OF this] show ?thesis using False unfolding acc by simp
  qed
qed

theorem ingressToRoutes_access_witness:
  "\<exists>rs. ingressToRoutes ex_env id ex_plain_ic = Inr rs \<and>
     (\<forall>r \<in> set rs. \<not> r_AllowPublicUnauthenticatedAccess r \<and> length (r_Policies r) = 1)"
proof -
  obtain rs where rs: "ingressToRoutes ex_env id ex_plain_ic = Inr rs \<and>
    map r_To rs = [[''http://10.1.0.1:8080'', ''http://10.1.0.2:8080'']]" using ex_plain_routes ..
  have ns: "\<not> IsHTTP01Solver (ic_Ingress ex_plain_ic)" by code_simp
  have "\<not> r_AllowPublicUnauthenticatedAccess r \<and> length (r_Policies r) = 1" if "r \<in> set rs" for r
    using ingressToRoutes_access [OF conjunct1 [OF rs] that] ns
    by (auto simp: ex_env_def access_flags_def new_route_def)
  then show ?thesis using conjunct1 [OF rs] by blast
qed

lemma endpoint_hosts:
  "set (concat (map (\<lambda>subset. concat (map (\<lambda>ip.
     map (\<lambda>port. host_port ip (ep_port port)) (filter m (es_ports subset))) (es_addresses subset))) subsets)) =
   {host_port ip (ep_port port) | sub ip port.
      sub \<in> set subsets \<and> ip \<in> set (es_addresses sub) \<and> port \<in> set (es_ports sub) \<and> m port}"
  by fastforce

text \<open>The upstream addresses found in the endpoints are exactly the addresses of all subsets with those
  ports that match: by name when the ingress names the port, else by the target port number of the
  service port with the given number. A target port given by name has no number, so then no endpoint
  with a proper port matches and the cluster DNS name is used.\<close>

theorem getEndpointsURLs_spec:
  "set (getEndpointsURLs bp sps subsets) =
     {host_port ip (ep_port port) | sub ip port. sub \<in> set subsets \<and> ip \<in> set (es_addresses sub) \<and> port \<in> set (es_ports sub) \<and>
        (if bp_name bp \<noteq> [] then ep_name port = bp_name bp
         else \<exists>sp. List.find (\<lambda>sp. bp_number bp = sp_port sp) sps = Some sp \<and> ep_port port = IntVal (sp_target sp))} \<and>
   (bp_name bp = [] \<longrightarrow> (\<forall>sp \<in> set sps. bp_number bp = sp_port sp \<longrightarrow> IntVal (sp_target sp) = 0) \<longrightarrow>
      (\<forall>sub \<in> set subsets. \<forall>port \<in> set (es_ports sub). ep_port port > 0) \<longrightarrow> getEndpointsURLs bp sps subsets = [])"
proof -
  have spec: "set (getEndpointsURLs bp sps subsets) =
     {host_port ip (ep_port port) | sub ip port. sub \<in> set subsets \<and> ip \<in> set (es_addresses sub) \<and> port \<in> set (es_ports sub) \<and>
        (if bp_name bp \<noteq> [] then ep_name port = bp_name bp
         else \<exists>sp. List.find (\<lambda>sp. bp_number bp = sp_port sp) sps = Some sp \<and> ep_port port = IntVal (sp_target sp))}"
    by (cases "bp_name bp = []"; cases "List.find (\<lambda>sp. bp_number bp = sp_port sp) sps")
      (simp_all add: getEndpointsURLs_def getEndpointPortMatcher_def endpoint_hosts del: set_concat)
  moreover have "getEndpointsURLs bp sps subsets = []"
    if "bp_name bp = []" "\<forall>sp \<in> set sps. bp_number bp = sp_port sp \<longrightarrow> IntVal (sp_target sp) = 0"
      "\<forall>sub \<in> set subsets. \<forall>port \<in> set (es_ports sub). ep_port port > 0"
  proof -
    have "IntVal (sp_target sp) = 0" if "List.find (\<lambda>sp. bp_number bp = sp_port sp) sps = Some sp" for sp
      using that \<open>\<forall>sp \<in> set sps. _ sp\<close> by (auto simp: find_Some_iff)
    then have "set (getEndpointsURLs bp sps subsets) = {}"
      unfolding spec using that by fastforce
    then show ?thesis by simp
  qed
  ultimately show ?thesis by blast
qed

theorem getEndpointsURLs_spec_witness:
  "getEndpointsURLs \<lparr>bp_name = [], bp_number = 80\<rparr>
     [\<lparr>sp_name = ''grafana'', sp_port = 80, sp_target = \<lparr>ios_is_int = False, IntVal = 0, StrVal = ''grafana-http''\<rparr>\<rparr>]
     [\<lparr>es_addresses = [''10.0.0.1''], es_ports = [\<lparr>ep_name = ''grafana'', ep_port = 3000\<rparr>]\<rparr>] = []"
  using getEndpointsURLs_spec [of "\<lparr>bp_name = [], bp_number = 80\<rparr>"
     "[\<lparr>sp_name = ''grafana'', sp_port = 80, sp_target = \<lparr>ios_is_int = False, IntVal = 0, StrVal = ''grafana-http''\<rparr>\<rparr>]"
     "[\<lparr>es_addresses = [''10.0.0.1''], es_ports = [\<lparr>ep_name = ''grafana'', ep_port = 3000\<rparr>]\<rparr>]"]
  by simp

end
