(* ===== verification/Databroker_Sync.thy ===== *)
theory Databroker_Sync
  imports Ingress_To_Route Cert_Map
begin

text \<open>
  \<^verbatim>\<open>pomerium/sync_databroker.go\<close> and the reconciler interface of \<^verbatim>\<open>pomerium/reconcile.go\<close>: the configuration
  record in the databroker is read, changed, cleaned, ordered, validated and written back if it differs.
  The databroker is a map from record ids to configurations; whether its calls succeed, the validation
  by Pomerium and Envoy, and the other decoders are the record \<open>sync_env\<close>. The locale
  \<open>ingress_reconciler\<close> is the contract of the interface.
\<close>

type_synonym db_store = "(string, pb_config) gomap"

record sync_env =
  se_ann :: ann_env
  se_slug :: "string \<Rightarrow> string"
  se_cert :: cert_env
  se_validate :: "pb_config \<Rightarrow> string \<Rightarrow> bool"
  se_get_ok :: bool
  se_put_ok :: bool

datatype sync_error =
    ErrGetConfig
  | ErrPutConfig
  | ErrIngress ing_error
  | ErrCerts cert_error
  | ErrDeleteRoutes route_error
  | ErrValidation
  | ErrSettings string

record DataBrokerReconciler =
  ConfigID :: string
  RemoveUnreferencedCerts :: bool

definition IngressControllerConfigID :: string where "IngressControllerConfigID = ''ingress-controller''"
definition GatewayControllerConfigID :: string where "GatewayControllerConfigID = ''gateway-controller''"
definition SharedSettingsConfigID :: string where "SharedSettingsConfigID = ''pomerium-crd''"

text \<open>The three reconcilers that \<^verbatim>\<open>NewDataBrokerReconciler\<close> combines.\<close>

definition ingressReconciler :: DataBrokerReconciler where
  "ingressReconciler = \<lparr>ConfigID = IngressControllerConfigID, RemoveUnreferencedCerts = True\<rparr>"

definition configReconciler :: DataBrokerReconciler where
  "configReconciler = \<lparr>ConfigID = SharedSettingsConfigID, RemoveUnreferencedCerts = False\<rparr>"

definition gatewayReconciler :: DataBrokerReconciler where
  "gatewayReconciler = \<lparr>ConfigID = GatewayControllerConfigID, RemoveUnreferencedCerts = False\<rparr>"

subsection \<open>Equality of messages\<close>

text \<open>\<^verbatim>\<open>proto.Equal\<close> compares map fields as maps: the messages are compared with their maps in key order.\<close>

definition canon_map :: "(string, 'v) gomap \<Rightarrow> (string, 'v) gomap" where
  "canon_map m = sort_by (by_key fst) m"

definition canon_server :: "mcp_server \<Rightarrow> mcp_server" where
  "canon_server s = s\<lparr>ms_UpstreamOauth2 :=
     map_option (\<lambda>u. u\<lparr>uo_AuthorizationUrlParams := canon_map (uo_AuthorizationUrlParams u)\<rparr>) (ms_UpstreamOauth2 s)\<rparr>"

definition canon_mode :: "mcp_mode \<Rightarrow> mcp_mode" where
  "canon_mode m = (case m of ModeServer s \<Rightarrow> ModeServer (canon_server s) | ModeClient \<Rightarrow> ModeClient)"

definition canon_route :: "pb_route \<Rightarrow> pb_route" where
  "canon_route r = r\<lparr>r_SetRequestHeaders := canon_map (r_SetRequestHeaders r),
     r_SetResponseHeaders := canon_map (r_SetResponseHeaders r),
     r_Mcp := map_option (map_option canon_mode) (r_Mcp r),
     r_Policies := map (\<lambda>p. p\<lparr>p_AllowedIdpClaims := canon_map (p_AllowedIdpClaims p)\<rparr>) (r_Policies r),
     r_other := canon_map (r_other r)\<rparr>"

definition canon_settings :: "pb_settings \<Rightarrow> pb_settings" where
  "canon_settings s = s\<lparr>st_JwtClaimsHeaders := canon_map (st_JwtClaimsHeaders s),
     st_Misc := (st_Misc s)\<lparr>mi_SetResponseHeaders := canon_map (mi_SetResponseHeaders (st_Misc s))\<rparr>,
     st_Idp := (st_Idp s)\<lparr>id_RequestParams := canon_map (id_RequestParams (st_Idp s))\<rparr>\<rparr>"

definition canon_config :: "pb_config \<Rightarrow> pb_config" where
  "canon_config c = c\<lparr>cfg_Routes := map canon_route (cfg_Routes c),
     cfg_Settings := map_option canon_settings (cfg_Settings c)\<rparr>"

definition proto_Equal :: "pb_config \<Rightarrow> pb_config \<Rightarrow> bool" where
  "proto_Equal a b \<longleftrightarrow> canon_config a = canon_config b"

subsection \<open>Operations\<close>

definition getConfig :: "DataBrokerReconciler \<Rightarrow> sync_env \<Rightarrow> db_store \<Rightarrow> sync_error + pb_config" where
  "getConfig R S st =
     (if \<not> se_get_ok S then Inl ErrGetConfig
      else (case map_of st (ConfigID R) of None \<Rightarrow> Inr new_config | Some cfg \<Rightarrow> Inr cfg))"

definition saveConfig ::
  "DataBrokerReconciler \<Rightarrow> sync_env \<Rightarrow> db_store \<Rightarrow> pb_config \<Rightarrow> pb_config \<Rightarrow> string \<Rightarrow> sync_error + bool \<times> db_store" where
  "saveConfig R S st prev next0 vid =
     ebind (if RemoveUnreferencedCerts R
            then (case removeUnusedCerts (se_cert S) next0 of Inl e \<Rightarrow> Inl (ErrCerts e) | Inr c \<Rightarrow> Inr c)
            else Inr next0) (\<lambda>next1.
       let next2 = ensureDeterministicConfigOrder next1 in
       if \<not> se_validate S next2 vid then Inl ErrValidation
       else if proto_Equal prev next2 then Inr (False, st)
       else if \<not> se_put_ok S then Inl ErrPutConfig
       else Inr (True, AList.update (ConfigID R) next2 st))"

definition upsert_ingress :: "sync_env \<Rightarrow> pb_config \<Rightarrow> ingress_config \<Rightarrow> sync_error + pb_config" where
  "upsert_ingress S cfg ic =
     (case upsertRoutes (se_ann S) (se_slug S) cfg ic of Inl e \<Rightarrow> Inl (ErrIngress e) | Inr c \<Rightarrow> Inr c)"

definition Upsert ::
  "DataBrokerReconciler \<Rightarrow> sync_env \<Rightarrow> db_store \<Rightarrow> ingress_config \<Rightarrow> sync_error + bool \<times> db_store" where
  "Upsert R S st ic =
     ebind (getConfig R S st) (\<lambda>prev.
     ebind (upsert_ingress S prev ic) (\<lambda>next.
       saveConfig R S st prev (addCerts next (ic_Secrets ic)) (ConfigID R @ ''-'' @ om_uid (ic_meta ic))))"

text \<open>One ingress of \<^verbatim>\<open>Set\<close>: it is skipped when it cannot be translated or does not validate.\<close>

definition Set_step :: "sync_env \<Rightarrow> pb_config \<Rightarrow> ingress_config \<Rightarrow> pb_config" where
  "Set_step S cur ic =
     (case upsert_ingress S cur ic of
        Inl _ \<Rightarrow> cur
      | Inr cfg \<Rightarrow> if \<not> se_validate S cfg (om_uid (ic_meta ic)) then cur else addCerts cfg (ic_Secrets ic))"

definition db_Set ::
  "DataBrokerReconciler \<Rightarrow> sync_env \<Rightarrow> db_store \<Rightarrow> ingress_config list \<Rightarrow> sync_error + bool \<times> db_store" where
  "db_Set R S st ics =
     ebind (getConfig R S st) (\<lambda>prev. saveConfig R S st prev (foldl (Set_step S) new_config ics) (ConfigID R))"

text \<open>\<^verbatim>\<open>SetConfig\<close>, with the translation of the settings as an argument.\<close>

definition SetConfig ::
  "DataBrokerReconciler \<Rightarrow> sync_env \<Rightarrow> db_store \<Rightarrow> (pb_config \<Rightarrow> string + pb_config) \<Rightarrow> sync_error + bool \<times> db_store" where
  "SetConfig R S st applyConfig =
     ebind (getConfig R S st) (\<lambda>prev.
     ebind (case applyConfig new_config of Inl e \<Rightarrow> Inl (ErrSettings e) | Inr c \<Rightarrow> Inr c) (\<lambda>next.
       saveConfig R S st prev next (ConfigID R)))"

definition Delete ::
  "DataBrokerReconciler \<Rightarrow> sync_env \<Rightarrow> db_store \<Rightarrow> namespaced_name \<Rightarrow> sync_error + bool \<times> db_store" where
  "Delete R S st name =
     ebind (getConfig R S st) (\<lambda>prev.
     ebind (case deleteRoutes prev name of Inl e \<Rightarrow> Inl (ErrDeleteRoutes e) | Inr c \<Rightarrow> Inr c) (\<lambda>cfg.
       saveConfig R S st prev cfg (Namespace name @ ''-'' @ Name name)))"

text \<open>\<^verbatim>\<open>DeleteAll\<close> marks the ingress record as deleted, whatever the configuration id of the reconciler is.\<close>

definition DeleteAll :: "sync_env \<Rightarrow> db_store \<Rightarrow> sync_error + db_store" where
  "DeleteAll S st = (if \<not> se_put_ok S then Inl ErrPutConfig else Inr (AList.delete IngressControllerConfigID st))"

subsection \<open>The contract of an ingress reconciler\<close>

datatype ('i, 'n) ingress_op = OpUpsert 'i | OpDelete 'n

text \<open>What a client may rely on: the routes held for each ingress name. The last successful operation on
  a name decides, and operations on one name do not disturb another.\<close>

locale ingress_reconciler =
  fixes upsert :: "'s \<Rightarrow> 'i \<Rightarrow> 'e + bool \<times> 's"
    and delete :: "'s \<Rightarrow> 'n \<Rightarrow> 'e + bool \<times> 's"
    and name :: "'i \<Rightarrow> 'n"
    and routes_of :: "'i \<Rightarrow> 'r set"
    and held :: "'s \<Rightarrow> 'n \<Rightarrow> 'r set"
    and invar :: "'s \<Rightarrow> bool"
    and good :: "'i \<Rightarrow> bool"
  assumes upsert_invar: "invar s \<Longrightarrow> good i \<Longrightarrow> upsert s i = Inr (c, s') \<Longrightarrow> invar s'"
    and upsert_held: "invar s \<Longrightarrow> good i \<Longrightarrow> upsert s i = Inr (c, s') \<Longrightarrow>
      held s' n = (if n = name i then routes_of i else held s n)"
    and delete_invar: "invar s \<Longrightarrow> delete s n = Inr (c, s') \<Longrightarrow> invar s'"
    and delete_held: "invar s \<Longrightarrow> delete s n = Inr (c, s') \<Longrightarrow> held s' m = (if m = n then {} else held s m)"
begin

definition run_op :: "'s \<Rightarrow> ('i, 'n) ingress_op \<Rightarrow> 'e + 's" where
  "run_op s oper =
     (case oper of
        OpUpsert i \<Rightarrow> ebind (upsert s i) (\<lambda>(c, s'). Inr s')
      | OpDelete n \<Rightarrow> ebind (delete s n) (\<lambda>(c, s'). Inr s'))"

definition spec_op :: "('n \<Rightarrow> 'r set) \<Rightarrow> ('i, 'n) ingress_op \<Rightarrow> ('n \<Rightarrow> 'r set)" where
  "spec_op h oper = (case oper of OpUpsert i \<Rightarrow> h(name i := routes_of i) | OpDelete n \<Rightarrow> h(n := {}))"

definition good_op :: "('i, 'n) ingress_op \<Rightarrow> bool" where
  "good_op oper = (case oper of OpUpsert i \<Rightarrow> good i | OpDelete n \<Rightarrow> True)"

lemma run_op_sim:
  assumes "invar s" "good_op oper" "run_op s oper = Inr s'"
  shows "invar s' \<and> held s' = spec_op (held s) oper"
proof (cases oper)
  case (OpUpsert i)
  then obtain c where "upsert s i = Inr (c, s')" using assms(3) by (auto simp: run_op_def ebind_Inr_iff)
  then show ?thesis
    using assms OpUpsert upsert_invar upsert_held by (auto simp: good_op_def spec_op_def fun_eq_iff)
next
  case (OpDelete n)
  then obtain c where "delete s n = Inr (c, s')" using assms(3) by (auto simp: run_op_def ebind_Inr_iff)
  then show ?thesis
    using assms OpDelete delete_invar delete_held by (auto simp: spec_op_def fun_eq_iff)
qed

lemma run_ops_sim:
  "invar s \<Longrightarrow> \<forall>oper \<in> set ops. good_op oper \<Longrightarrow> efold run_op s ops = Inr s' \<Longrightarrow>
     invar s' \<and> held s' = foldl spec_op (held s) ops"
proof (induction ops arbitrary: s)
  case (Cons oper ops)
  then obtain s1 where "run_op s oper = Inr s1" "efold run_op s1 ops = Inr s'" by (auto simp: ebind_Inr_iff)
  then show ?case using Cons.IH [of s1] run_op_sim [of s oper s1] Cons.prems by simp
qed simp

end

subsection \<open>The databroker reconciler satisfies the contract\<close>

definition stored :: "DataBrokerReconciler \<Rightarrow> db_store \<Rightarrow> pb_config" where
  "stored R st = (case map_of st (ConfigID R) of None \<Rightarrow> new_config | Some cfg \<Rightarrow> cfg)"

definition held_routes :: "DataBrokerReconciler \<Rightarrow> db_store \<Rightarrow> namespaced_name \<Rightarrow> pb_route set" where
  "held_routes R st n = {r \<in> canon_route ` set (cfg_Routes (stored R st)). owned_by n r}"

definition ingress_routes :: "sync_env \<Rightarrow> ingress_config \<Rightarrow> pb_route set" where
  "ingress_routes S ic =
     (case ingressToRoutes (se_ann S) (se_slug S) ic of Inl _ \<Rightarrow> {} | Inr rs \<Rightarrow> canon_route ` set rs)"

lemma getConfig_Inr: "getConfig R S st = Inr cfg \<Longrightarrow> cfg = stored R st"
  by (auto simp: getConfig_def stored_def split: if_splits option.splits)

lemma canon_route_id [simp]: "GetId (canon_route r) = GetId r"
  by (simp add: GetId_def canon_route_def)

lemma canon_route_key [simp]: "route_key (canon_route r) = route_key r"
  by (simp add: route_key_def)

lemma canon_route_owned [simp]: "owned_by n (canon_route r) = owned_by n r"
  by (simp add: owned_by_def)

lemma removeUnusedCerts_routes: "removeUnusedCerts C cfg = Inr cfg' \<Longrightarrow> cfg_Routes cfg' = cfg_Routes cfg"
  by (auto simp: removeUnusedCerts_def ebind_Inr_iff split: option.splits)

lemma ensureDeterministic_routes: "cfg_Routes (ensureDeterministicConfigOrder cfg) = routes_Sort (cfg_Routes cfg)"
  by (simp add: ensureDeterministicConfigOrder_def Let_def split: option.split)

lemma saveConfig_cases:
  assumes "saveConfig R S st prev next0 vid = Inr (c, st')"
  obtains next2 where "cfg_Routes next2 = routes_Sort (cfg_Routes next0)" "se_validate S next2 vid"
    "c = (\<not> proto_Equal prev next2)" "st' = (if proto_Equal prev next2 then st else AList.update (ConfigID R) next2 st)"
proof -
  obtain next1 where b: "(if RemoveUnreferencedCerts R
      then (case removeUnusedCerts (se_cert S) next0 of Inl e \<Rightarrow> Inl (ErrCerts e) | Inr c \<Rightarrow> Inr c)
      else Inr next0) = Inr next1"
    and "(let next2 = ensureDeterministicConfigOrder next1 in
       if \<not> se_validate S next2 vid then Inl ErrValidation
       else if proto_Equal prev next2 then Inr (False, st)
       else if \<not> se_put_ok S then Inl ErrPutConfig
       else Inr (True, AList.update (ConfigID R) next2 st)) = Inr (c, st')"
    using assms unfolding saveConfig_def ebind_Inr_iff by blast
  from b have n1: "cfg_Routes next1 = cfg_Routes next0"
    using removeUnusedCerts_routes by (auto split: if_splits)
  have "se_validate S (ensureDeterministicConfigOrder next1) vid"
    "c = (\<not> proto_Equal prev (ensureDeterministicConfigOrder next1))"
    "st' = (if proto_Equal prev (ensureDeterministicConfigOrder next1) then st
       else AList.update (ConfigID R) (ensureDeterministicConfigOrder next1) st)"
    using \<open>(let next2 = _ in _ next2) = _\<close> by (auto simp: Let_def split: if_splits)
  then show ?thesis using that [of "ensureDeterministicConfigOrder next1"] n1 by (simp add: ensureDeterministic_routes)
qed

lemma stored_update: "stored R (AList.update (ConfigID R) cfg st) = cfg"
  by (simp add: stored_def gomap_simps)

lemma routes_ok_canon: "routes_ok (map canon_route rs) = routes_ok rs"
  by (simp add: routes_ok_def comp_def)

lemma saveConfig_routes:
  assumes "saveConfig R S st (stored R st) next0 vid = Inr (c, st')"
  shows "canon_route ` set (cfg_Routes (stored R st')) = canon_route ` set (cfg_Routes next0) \<and>
    routes_ok (cfg_Routes (stored R st')) = routes_ok (cfg_Routes next0)"
proof (rule saveConfig_cases [OF assms])
  fix next2
  assume n2: "cfg_Routes next2 = routes_Sort (cfg_Routes next0)"
    and st': "st' = (if proto_Equal (stored R st) next2 then st else AList.update (ConfigID R) next2 st)"
  have same: "map canon_route (cfg_Routes (stored R st')) = map canon_route (cfg_Routes next2)"
  proof (cases "proto_Equal (stored R st) next2")
    case True
    have "cfg_Routes (canon_config (stored R st)) = cfg_Routes (canon_config next2)"
      using True by (simp only: proto_Equal_def)
    then show ?thesis using True st' by (simp add: canon_config_def)
  qed (simp add: st' stored_update)
  have "set (map canon_route (cfg_Routes (stored R st'))) = set (map canon_route (routes_Sort (cfg_Routes next0)))"
    using same n2 by simp
  moreover have "routes_ok (cfg_Routes (stored R st')) = routes_ok (routes_Sort (cfg_Routes next0))"
    using same n2 routes_ok_canon by metis
  ultimately show ?thesis by simp
qed

lemma addCerts_routes [simp]: "cfg_Routes (addCerts cfg secrets) = cfg_Routes cfg"
  by (simp add: addCerts_def Let_def)

definition db_invar :: "DataBrokerReconciler \<Rightarrow> db_store \<Rightarrow> bool" where
  "db_invar R st \<longleftrightarrow> routes_ok (cfg_Routes (stored R st))"

lemma Upsert_effect:
  assumes "db_invar R st" "utf8_ingress ic" "Upsert R S st ic = Inr (c, st')"
  shows "db_invar R st' \<and> held_routes R st' n = (if n = ic_name ic then ingress_routes S ic else held_routes R st n)"
proof -
  obtain next' where up: "upsertRoutes (se_ann S) (se_slug S) (stored R st) ic = Inr next'"
    and save: "saveConfig R S st (stored R st) (addCerts next' (ic_Secrets ic)) (ConfigID R @ ''-'' @ om_uid (ic_meta ic)) = Inr (c, st')"
    using assms(3) by (auto simp: Upsert_def upsert_ingress_def ebind_Inr_iff dest!: getConfig_Inr)
  obtain rs where rs: "ingressToRoutes (se_ann S) (se_slug S) ic = Inr rs" using up by (auto simp: upsertRoutes_def ebind_Inr_iff)
  have ok: "routes_ok (cfg_Routes (stored R st))" using assms(1) by (simp add: db_invar_def)
  have "distinct (ingress_paths ic)" using upsertRoutes_ok_iff [OF rs assms(2) ok] up by blast
  from upsert_then_delete [OF rs assms(2) this ok] up
  have next': "routes_ok (cfg_Routes next')" "{r \<in> set (cfg_Routes next'). owned_by (ic_name ic) r} = set rs"
    "{r \<in> set (cfg_Routes next'). \<not> owned_by (ic_name ic) r} = {r \<in> set (cfg_Routes (stored R st)). \<not> owned_by (ic_name ic) r}"
    by auto
  have routes: "canon_route ` set (cfg_Routes (stored R st')) = canon_route ` set (cfg_Routes next')" and "db_invar R st'"
    using saveConfig_routes [OF save] next'(1) by (simp_all add: db_invar_def)
  have "held_routes R st' n = canon_route ` {r \<in> set (cfg_Routes next'). owned_by n r}"
    unfolding held_routes_def routes by auto
  moreover have "{r \<in> set (cfg_Routes next'). owned_by n r} = {r \<in> set (cfg_Routes (stored R st)). owned_by n r}" if "n \<noteq> ic_name ic"
    using next'(3) owned_by_unique that by blast
  ultimately show ?thesis
    using next'(2) \<open>db_invar R st'\<close> unfolding held_routes_def ingress_routes_def rs by auto
qed

lemma Delete_effect:
  assumes "db_invar R st" "Delete R S st name = Inr (c, st')"
  shows "db_invar R st' \<and> held_routes R st' n = (if n = name then {} else held_routes R st n)"
proof -
  have ok: "routes_ok (cfg_Routes (stored R st))" using assms(1) by (simp add: db_invar_def)
  let ?next = "(stored R st)\<lparr>cfg_Routes := routes_Sort (filter (\<lambda>r. \<not> owned_by name r) (cfg_Routes (stored R st)))\<rparr>"
  have "saveConfig R S st (stored R st) ?next (Namespace name @ ''-'' @ Name name) = Inr (c, st')"
    using assms(2) deleteRoutes_ok [OF ok]
    by (auto simp: Delete_def ebind_Inr_iff dest!: getConfig_Inr)
  note save = saveConfig_routes [OF this]
  have "db_invar R st'" using save ok by (simp add: db_invar_def routes_ok_filter)
  moreover have "held_routes R st' n = canon_route ` {r \<in> set (cfg_Routes (stored R st)). \<not> owned_by name r \<and> owned_by n r}"
    using save unfolding held_routes_def by (auto simp: routes_Sort_def)
  ultimately show ?thesis
    using owned_by_unique unfolding held_routes_def by auto
qed

interpretation db: ingress_reconciler "Upsert R S" "Delete R S" ic_name "ingress_routes S" "held_routes R" "db_invar R" utf8_ingress
  for R S
  by unfold_locales (use Upsert_effect Delete_effect in blast)+

subsection \<open>Properties\<close>

definition db_run_op ::
  "DataBrokerReconciler \<Rightarrow> sync_env \<Rightarrow> db_store \<Rightarrow> (ingress_config, namespaced_name) ingress_op \<Rightarrow> sync_error + db_store" where
  "db_run_op R S st oper =
     (case oper of
        OpUpsert ic \<Rightarrow> ebind (Upsert R S st ic) (\<lambda>(c, st'). Inr st')
      | OpDelete n \<Rightarrow> ebind (Delete R S st n) (\<lambda>(c, st'). Inr st'))"

definition concerns :: "namespaced_name \<Rightarrow> (ingress_config, namespaced_name) ingress_op \<Rightarrow> bool" where
  "concerns n oper = (case oper of OpUpsert ic \<Rightarrow> ic_name ic = n | OpDelete m \<Rightarrow> m = n)"

text \<open>The routes an ingress name should have after a sequence of operations: those of the last one on it.\<close>

definition last_routes ::
  "sync_env \<Rightarrow> (ingress_config, namespaced_name) ingress_op list \<Rightarrow> namespaced_name \<Rightarrow> pb_route set" where
  "last_routes S ops n =
     (case List.find (concerns n) (rev ops) of
        Some (OpUpsert ic) \<Rightarrow> ingress_routes S ic
      | _ \<Rightarrow> {})"

lemma foldl_spec_op: "foldl (db.spec_op S) (\<lambda>_. {}) ops n = last_routes S ops n"
proof (induction ops rule: rev_induct)
  case (snoc oper ops)
  then show ?case
    by (cases oper) (auto simp: last_routes_def concerns_def db.spec_op_def)
qed (simp add: last_routes_def)

lemma db_run_op_eq: "db_run_op R S = db.run_op R S"
  by (intro ext) (simp add: db_run_op_def db.run_op_def)

text \<open>C1: after any sequence of successful upserts and deletions, starting from an empty databroker, the
  stored configuration holds for every ingress name exactly the routes of the last operation on that
  name, and none after a deletion, whatever happened to other ingresses in between.\<close>

theorem databroker_history:
  assumes "efold (db_run_op R S) [] ops = Inr st" "\<forall>ic. OpUpsert ic \<in> set ops \<longrightarrow> utf8_ingress ic"
  shows "routes_ok (cfg_Routes (stored R st)) \<and> held_routes R st n = last_routes S ops n"
proof -
  have "db_invar R []" by (simp add: db_invar_def stored_def new_config_def routes_ok_def)
  moreover have "held_routes R [] = (\<lambda>_. {})" by (simp add: fun_eq_iff held_routes_def stored_def new_config_def)
  moreover have "\<forall>oper \<in> set ops. db.good_op oper"
    using assms(2) by (auto simp: db.good_op_def split: ingress_op.split)
  ultimately have "db_invar R st \<and> held_routes R st = foldl (db.spec_op S) (\<lambda>_. {}) ops"
    using db.run_ops_sim [of R "[]" ops S st] assms(1) by (simp add: db_run_op_eq)
  then show ?thesis by (simp add: db_invar_def foldl_spec_op)
qed

definition ex_sync :: sync_env where
  "ex_sync = \<lparr>se_ann = ex_env, se_slug = id, se_cert = ex_cert_env, se_validate = (\<lambda>_ _. True), se_get_ok = True, se_put_ok = True\<rparr>"

theorem databroker_history_witness:
  "\<exists>st. efold (db_run_op configReconciler ex_sync) [] [OpUpsert ex_plain_ic, OpDelete (ic_name ex_plain_ic)] = Inr st \<and>
     held_routes configReconciler st (ic_name ex_plain_ic) = {}"
proof -
  let ?ops = "[OpUpsert ex_plain_ic, OpDelete (ic_name ex_plain_ic)]"
  have "(case efold (db_run_op configReconciler ex_sync) [] ?ops of Inr _ \<Rightarrow> True | Inl _ \<Rightarrow> False)" by code_simp
  then obtain st where st: "efold (db_run_op configReconciler ex_sync) [] ?ops = Inr st" by (auto split: sum.splits)
  have "utf8_ingress ex_plain_ic" unfolding utf8_ingress_def by code_simp
  then have "held_routes configReconciler st (ic_name ex_plain_ic) = last_routes ex_sync ?ops (ic_name ex_plain_ic)"
    using databroker_history [OF st] by simp
  also have "\<dots> = {}" by (simp add: last_routes_def concerns_def)
  finally show ?thesis using st by blast
qed

subsubsection \<open>What is stored was validated\<close>

text \<open>The steps a reconciler can take, with any outcome of the remote calls, while \<open>V\<close> is the validation.\<close>

inductive db_step :: "DataBrokerReconciler \<Rightarrow> (pb_config \<Rightarrow> string \<Rightarrow> bool) \<Rightarrow> db_store \<Rightarrow> db_store \<Rightarrow> bool"
  for R :: DataBrokerReconciler and V :: "pb_config \<Rightarrow> string \<Rightarrow> bool" where
  step_Upsert: "Upsert R S st ic = Inr (c, st') \<Longrightarrow> se_validate S = V \<Longrightarrow> db_step R V st st'"
| step_Set: "db_Set R S st ics = Inr (c, st') \<Longrightarrow> se_validate S = V \<Longrightarrow> db_step R V st st'"
| step_SetConfig: "SetConfig R S st f = Inr (c, st') \<Longrightarrow> se_validate S = V \<Longrightarrow> db_step R V st st'"
| step_Delete: "Delete R S st n = Inr (c, st') \<Longrightarrow> se_validate S = V \<Longrightarrow> db_step R V st st'"
| step_DeleteAll: "DeleteAll S st = Inr st' \<Longrightarrow> db_step R V st st'"

definition stored_valid :: "DataBrokerReconciler \<Rightarrow> (pb_config \<Rightarrow> string \<Rightarrow> bool) \<Rightarrow> db_store \<Rightarrow> bool" where
  "stored_valid R V st \<longleftrightarrow>
     (\<forall>cfg. map_of st (ConfigID R) = Some cfg \<longrightarrow> (\<exists>vid. V cfg vid) \<and> sorted_by Less (cfg_Routes cfg))"

lemma saveConfig_valid:
  assumes "saveConfig R S st prev next0 vid = Inr (c, st')" "stored_valid R (se_validate S) st"
  shows "stored_valid R (se_validate S) st'"
proof (rule saveConfig_cases [OF assms(1)])
  fix next2
  assume "cfg_Routes next2 = routes_Sort (cfg_Routes next0)" "se_validate S next2 vid"
    "st' = (if proto_Equal prev next2 then st else AList.update (ConfigID R) next2 st)"
  then show ?thesis
    using assms(2) ro.sorted_sort_by by (auto simp: stored_valid_def gomap_simps routes_Sort_def)
qed

lemma stored_valid_delete: "stored_valid R V st \<Longrightarrow> stored_valid R V (AList.delete k st)"
proof -
  assume v: "stored_valid R V st"
  show ?thesis
    unfolding stored_valid_def
  proof (intro allI impI)
    fix cfg
    assume "map_of (AList.delete k st) (ConfigID R) = Some cfg"
    then have "map_of st (ConfigID R) = Some cfg" by (simp add: gomap_simps split: if_splits)
    with v show "(\<exists>vid. V cfg vid) \<and> sorted_by Less (cfg_Routes cfg)" unfolding stored_valid_def by blast
  qed
qed

lemma db_step_saves:
  assumes "db_step R V st st'"
  shows "(\<exists>S prev next0 vid c. saveConfig R S st prev next0 vid = Inr (c, st') \<and> se_validate S = V) \<or>
    st' = AList.delete IngressControllerConfigID st"
  using assms
  by cases (auto simp: Upsert_def db_Set_def SetConfig_def Delete_def DeleteAll_def ebind_Inr_iff split: if_splits, blast+)

text \<open>C2: whatever sequence of reconciliations runs, with whatever failures of the remote calls, the stored
  configuration has passed validation and its routes are in matching order.\<close>

theorem stored_config_validated:
  assumes "(db_step R V)\<^sup>*\<^sup>* [] st" "map_of st (ConfigID R) = Some cfg"
  shows "(\<exists>vid. V cfg vid) \<and> sorted_by Less (cfg_Routes cfg)"
proof -
  have "stored_valid R V st"
    using assms(1)
  proof induction
    case base
    then show ?case by (simp add: stored_valid_def)
  next
    case (step st st')
    from db_step_saves [OF step.hyps(2)] show ?case
      using step.IH saveConfig_valid stored_valid_delete by metis
  qed
  then show ?thesis using assms(2) by (simp add: stored_valid_def)
qed

theorem stored_config_validated_witness:
  "\<exists>st cfg. (db_step configReconciler (se_validate ex_sync))\<^sup>*\<^sup>* [] st \<and>
     map_of st (ConfigID configReconciler) = Some cfg \<and> sorted_by Less (cfg_Routes cfg)"
proof -
  have "(case Upsert configReconciler ex_sync [] ex_plain_ic of
      Inr (c, st) \<Rightarrow> map_of st (ConfigID configReconciler) \<noteq> None | Inl _ \<Rightarrow> False)" by code_simp
  then obtain c st where up: "Upsert configReconciler ex_sync [] ex_plain_ic = Inr (c, st)"
    and "map_of st (ConfigID configReconciler) \<noteq> None" by (auto split: sum.splits)
  then obtain cfg where cfg: "map_of st (ConfigID configReconciler) = Some cfg" by blast
  have "(db_step configReconciler (se_validate ex_sync))\<^sup>*\<^sup>* [] st"
    using step_Upsert [OF up refl] by blast
  then show ?thesis using stored_config_validated [OF _ cfg] cfg by blast
qed

text \<open>The change flag is exact and other records are never touched: without a change the store is the
  same; with one the new configuration differs from the old one as a message; records of the other
  reconcilers stay as they are.\<close>

theorem saveConfig_change_flag:
  assumes "saveConfig R S st (stored R st) next0 vid = Inr (c, st')"
  shows "(if c then \<not> proto_Equal (stored R st) (stored R st') else st' = st) \<and>
    (\<forall>k. k \<noteq> ConfigID R \<longrightarrow> map_of st' k = map_of st k)"
  by (rule saveConfig_cases [OF assms]) (auto simp: stored_update gomap_simps)

theorem saveConfig_change_flag_witness:
  "\<exists>st'. saveConfig gatewayReconciler ex_sync [(''pomerium-crd'', new_config)] new_config ex_config ''v'' = Inr (True, st') \<and>
     map_of st' ''pomerium-crd'' = Some new_config"
proof -
  have prev: "stored gatewayReconciler [(''pomerium-crd'', new_config)] = new_config"
    by (simp add: stored_def gatewayReconciler_def GatewayControllerConfigID_def)
  have "(case saveConfig gatewayReconciler ex_sync [(''pomerium-crd'', new_config)] new_config ex_config ''v'' of
      Inr (c, _) \<Rightarrow> c | Inl _ \<Rightarrow> False)" by code_simp
  then obtain st' where st': "saveConfig gatewayReconciler ex_sync [(''pomerium-crd'', new_config)] new_config ex_config ''v'' = Inr (True, st')"
    by (auto split: sum.splits)
  then show ?thesis
    using saveConfig_change_flag [of gatewayReconciler ex_sync "[(''pomerium-crd'', new_config)]"]
    unfolding prev by (fastforce simp: gatewayReconciler_def GatewayControllerConfigID_def)
qed

text \<open>C21: a broken ingress does not affect the others: an ingress that cannot be translated contributes
  nothing to a full synchronisation, wherever it stands in the list.\<close>

theorem Set_isolates_broken_ingress:
  assumes "ingressToRoutes (se_ann S) (se_slug S) ic = Inl e"
  shows "db_Set R S st (xs @ ic # ys) = db_Set R S st (xs @ ys)"
proof -
  have "Set_step S cur ic = cur" for cur
    by (simp add: Set_step_def upsert_ingress_def upsertRoutes_def assms)
  then show ?thesis by (simp add: db_Set_def)
qed

theorem Set_isolates_broken_ingress_witness:
  "db_Set ingressReconciler ex_sync [] [ex_ic\<lparr>ic_Services := []\<rparr>, ex_plain_ic] = db_Set ingressReconciler ex_sync [] [ex_plain_ic]"
proof -
  have "(case ingressToRoutes (se_ann ex_sync) (se_slug ex_sync) (ex_ic\<lparr>ic_Services := []\<rparr>) of Inl _ \<Rightarrow> True | Inr _ \<Rightarrow> False)"
    by code_simp
  then obtain e where "ingressToRoutes (se_ann ex_sync) (se_slug ex_sync) (ex_ic\<lparr>ic_Services := []\<rparr>) = Inl e"
    by (auto split: sum.splits)
  from Set_isolates_broken_ingress [OF this, of ingressReconciler "[]" "[]" "[ex_plain_ic]"] show ?thesis by simp
qed

end
