(* ===== verification/Pomerium_Crd.thy ===== *)
theory Pomerium_Crd
  imports Ingress_Config Pb_Types
begin

text \<open>
  The Pomerium resource (\<^verbatim>\<open>apis/ingress/v1/pomerium_types.go\<close>) and the
  \<^verbatim>\<open>Config\<close> of \<^verbatim>\<open>model/ingress_config.go\<close> that carries it with the secrets fetched for it. Durations are
  numbers of nanoseconds; a struct with one field is that field.
\<close>

subsection \<open>The Pomerium resource\<close>

record refresh_directory =
  rd_Interval :: int
  rd_Timeout :: int

record identity_provider =
  ip_Provider :: string
  ip_URL :: "string option"
  ip_Secret :: string
  ip_ServiceAccountFromSecret :: "string option"
  ip_RequestParams :: "(string, string) gomap"
  ip_RequestParamsSecret :: "string option"
  ip_Scopes :: "string list"
  ip_RefreshDirectory :: "refresh_directory option"

record postgres_storage =
  pg_Secret :: string
  pg_TLSSecret :: "string option"
  pg_CASecret :: "string option"

record storage =
  sg_File :: "string option"
  sg_Postgres :: "postgres_storage option"

record cookie =
  co_Name :: "string option"
  co_Domain :: "string option"
  co_HTTPOnly :: "bool option"
  co_Expire :: "int option"
  co_SameSite :: "string option"

record match_subject_alt_names =
  ms_DNS :: string
  ms_Email :: string
  ms_IPAddress :: string
  ms_URI :: string
  ms_UserPrincipalName :: string

record downstream_mtls =
  dm_CA :: string
  dm_CRL :: string
  dm_Enforcement :: "string option"
  dm_MatchSubjectAltNames :: "match_subject_alt_names option"
  dm_MaxVerifyDepth :: "32 word option"

record otel =
  oc_Endpoint :: string
  oc_Protocol :: string
  oc_Headers :: "(string, string) gomap"
  oc_Timeout :: "int option"
  oc_Sampling :: "string option"
  oc_ResourceAttributes :: "(string, string) gomap"
  oc_BSPScheduleDelay :: "int option"
  oc_BSPMaxExportBatchSize :: "int option"
  oc_LogLevel :: "string option"

record timeouts =
  tc_Read :: "int option"
  tc_Write :: "int option"
  tc_Idle :: "int option"

record dns =
  dc_LookupFamily :: "string option"
  dc_FailureRefreshRate :: "int option"
  dc_QueryTimeout :: "int option"
  dc_QueryTries :: "32 word option"
  dc_RefreshRate :: "int option"
  dc_UDPMaxQueries :: "32 word option"
  dc_UseTCP :: "bool option"

record ssh =
  sc_HostKeySecrets :: "string list option"
  sc_UserCAKeySecret :: "string option"

record certificate_auto_provision =
  ca_ClusterIssuer :: "string option"
  ca_Issuer :: "string option"

record pomerium_spec =
  ps_AccessLogFields :: "string list option"
  ps_Authenticate :: "string option"
  ps_AuthorizeLogFields :: "string list option"
  ps_Certificates :: "string list"
  ps_CASecrets :: "string list"
  ps_Cookie :: "cookie option"
  ps_IdentityProvider :: "identity_provider option"
  ps_JWTClaimHeaders :: "(string, string) gomap"
  ps_MCPAllowedClientIDDomains :: "string list"
  ps_MCPAllowedASMetadataDomains :: "string list"
  ps_PassIdentityHeaders :: "bool option"
  ps_ProgrammaticRedirectDomains :: "string list"
  ps_RuntimeFlags :: "(string, bool) gomap"
  ps_Secrets :: string
  ps_SetResponseHeaders :: "(string, string) gomap"
  ps_Storage :: "storage option"
  ps_Timeouts :: "timeouts option"
  ps_UseProxyProtocol :: "bool option"
  ps_CodecType :: "string option"
  ps_BearerTokenFormat :: "string option"
  ps_IDPAccessTokenAllowedAudiences :: "string list option"
  ps_OTEL :: "otel option"
  ps_DownstreamMTLS :: "downstream_mtls option"
  ps_CircuitBreakerThresholds :: "circuit_breaker_thresholds option"
  ps_DataBroker :: "string option option"
  ps_DNS :: "dns option"
  ps_SSH :: "ssh option"
  ps_AllowUpgrades :: "string list option"
  ps_CertificateAutoProvision :: "certificate_auto_provision option"
  ps_EnvoyDynamicExtensions :: "string list option"
  ps_NormalizePath :: "bool option"
  ps_MergeSlashes :: "bool option"
  ps_PathWithEscapedSlashesAction :: "string option"
  ps_HeadersWithUnderscoresAction :: "string option"

text \<open>The status: times are the seconds of a clock, and \<open>po_CertificateAutoProvisionStatus\<close> is the time of the last update.\<close>

record resource_status =
  rs_ObservedGeneration :: int
  rs_ObservedAt :: int
  rs_Reconciled :: bool
  rs_Error :: "string option"
  rs_Warnings :: "string list"

record pomerium_status =
  po_CertificateAutoProvisionStatus :: "int option"
  po_Routes :: "(string, resource_status) gomap"
  po_SettingsStatus :: "resource_status option"

record pomerium =
  po_meta :: object_meta
  po_Spec :: pomerium_spec
  po_Status :: pomerium_status

subsection \<open>The fetched settings\<close>

record pom_config =
  pc_Pomerium :: pomerium
  pc_Secrets :: "secret option"
  pc_CASecrets :: "secret list"
  pc_Certs :: "(namespaced_name, secret) gomap"
  pc_RequestParams :: "secret option"
  pc_IdpSecret :: "secret option"
  pc_IdpServiceAccount :: "secret option"
  pc_SSHSecrets :: SSHSecrets
  pc_StorageSecrets :: StorageSecrets

abbreviation pc_meta :: "pom_config \<Rightarrow> object_meta" where
  "pc_meta c \<equiv> po_meta (pc_Pomerium c)"

abbreviation pc_Spec :: "pom_config \<Rightarrow> pomerium_spec" where
  "pc_Spec c \<equiv> po_Spec (pc_Pomerium c)"

end
