(* ===== verification/Cert_Controller.thy ===== *)
theory Cert_Controller
  imports Cert_Collector Api_Client Databroker_Sync Pomerium_Crd
begin

text \<open>
  \<^verbatim>\<open>controllers/certificate/controller.go\<close> and \<^verbatim>\<open>controller_options.go\<close>: asks cert-manager for a certificate for each
  host name that has none, removes the certificates nobody needs, and stores the issued ones in the databroker.
  The world is the certificates and secrets of the cluster, the record of the controller in the databroker, and the
  collector; the failures of the calls other than a missing or an existing object, the random
  names and the streams of the databroker are arguments.
\<close>

subsection \<open>The world\<close>

record issuer_ref =
  ir_Kind :: string
  ir_Name :: string

record certificate =
  ct_Namespace :: string
  ct_Name :: string
  ct_Labels :: "(string, string) gomap"
  ct_SecretName :: string
  ct_SecretLabels :: "(string, string) gomap"
  ct_DNSNames :: "string list"
  ct_IssuerRef :: issuer_ref

definition ct_key :: "certificate \<Rightarrow> namespaced_name" where
  "ct_key c = NamespacedName (ct_Namespace c) (ct_Name c)"

record cert_world =
  cw_certs :: "certificate list"
  cw_secrets :: "secret list"
  cw_record :: "db_record option"
  cw_collector :: collector
  cw_rand :: nat
  cw_puts :: nat

record controllerConfig =
  cc_controllerName :: string
  cc_globalSettingsName :: namespaced_name
  cc_namespace :: "string option"

record provision_env =
  pe_collector :: collector_env
  pe_sched :: "nat list"
  pe_latest :: "record_kind \<Rightarrow> latest_response stream"
  pe_settings :: "namespaced_name \<Rightarrow> api_error + pomerium"
  pe_pod_namespace :: "string option"
  pe_list_certs :: "api_error option"
  pe_list_secrets :: "api_error option"
  pe_delete_cert :: "namespaced_name \<Rightarrow> string option"
  pe_delete_secret :: "namespaced_name \<Rightarrow> string option"
  pe_create :: "certificate \<Rightarrow> string option"
  pe_rand_String :: "nat \<Rightarrow> string"
  pe_order :: "nat \<Rightarrow> nat list"
  pe_get :: "string option"
  pe_put :: "string option"
  pe_now :: int

datatype provision_error =
    ProvSettings api_error
  | ProvIssuer nn_error
  | ProvPodNamespace
  | ProvListCertificates api_error
  | ProvListSecrets api_error
  | ProvDeleteCertificate string string api_error
  | ProvDeleteSecret string string api_error
  | ProvCreateCertificate api_error
  | ProvSync collect_error
  | ProvGetConfig db_status
  | ProvDeleteConfig db_status
  | ProvSaveConfig db_status

type_synonym 'a provision = "(cert_world, provision_error, 'a) action"

definition managedByLabelName :: string where "managedByLabelName = ''app.kubernetes.io/managed-by''"
definition managedByLabelValue :: string where "managedByLabelValue = ''pomerium-certificate-controller''"

definition managed_label :: "(string, string) gomap \<Rightarrow> bool" where
  "managed_label labels \<longleftrightarrow> map_of labels managedByLabelName = Some managedByLabelValue"

text \<open>What the two \<^verbatim>\<open>List\<close> calls select.\<close>

definition managed_certs :: "string \<Rightarrow> cert_world \<Rightarrow> certificate list" where
  "managed_certs ns w = filter (\<lambda>c. ct_Namespace c = ns \<and> managed_label (ct_Labels c)) (cw_certs w)"

definition managed_secrets :: "string \<Rightarrow> cert_world \<Rightarrow> secret list" where
  "managed_secrets ns w = filter (\<lambda>s. om_namespace (sec_meta s) = ns \<and> managed_label (om_labels (sec_meta s))) (cw_secrets w)"

subsection \<open>Options\<close>

definition DefaultControllerName :: string where "DefaultControllerName = ''pomerium-certificate''"

definition WithControllerName_cert :: "string \<Rightarrow> controllerConfig \<Rightarrow> controllerConfig" where
  "WithControllerName_cert name cfg = cfg\<lparr>cc_controllerName := name\<rparr>"

definition WithGlobalSettingsName :: "namespaced_name \<Rightarrow> controllerConfig \<Rightarrow> controllerConfig" where
  "WithGlobalSettingsName name cfg = cfg\<lparr>cc_globalSettingsName := name\<rparr>"

definition WithNamespace :: "string \<Rightarrow> controllerConfig \<Rightarrow> controllerConfig" where
  "WithNamespace ns cfg = cfg\<lparr>cc_namespace := Some ns\<rparr>"

definition getControllerConfig :: "(controllerConfig \<Rightarrow> controllerConfig) list \<Rightarrow> controllerConfig" where
  "getControllerConfig options =
     foldl (\<lambda>cfg f. f cfg)
       (WithControllerName_cert DefaultControllerName
         \<lparr>cc_controllerName = [], cc_globalSettingsName = NamespacedName [] [], cc_namespace = None\<rparr>)
       options"

subsection \<open>Certificates and secrets\<close>

definition k8s_delete_cert :: "provision_env \<Rightarrow> namespaced_name \<Rightarrow> (cert_world, api_error, unit) action" where
  "k8s_delete_cert E key w =
     (case pe_delete_cert E key of
        Some e \<Rightarrow> (w, Inl (ClientError e))
      | None \<Rightarrow> if key \<in> ct_key ` set (cw_certs w)
                then (w\<lparr>cw_certs := filter (\<lambda>c. ct_key c \<noteq> key) (cw_certs w)\<rparr>, Inr ())
                else (w, Inl NotFound))"

definition k8s_delete_secret :: "provision_env \<Rightarrow> namespaced_name \<Rightarrow> (cert_world, api_error, unit) action" where
  "k8s_delete_secret E key w =
     (case pe_delete_secret E key of
        Some e \<Rightarrow> (w, Inl (ClientError e))
      | None \<Rightarrow> if key \<in> (\<lambda>s. GetNamespacedName (sec_meta s)) ` set (cw_secrets w)
                then (w\<lparr>cw_secrets := filter (\<lambda>s. GetNamespacedName (sec_meta s) \<noteq> key) (cw_secrets w)\<rparr>, Inr ())
                else (w, Inl NotFound))"

definition k8s_create_cert :: "provision_env \<Rightarrow> certificate \<Rightarrow> (cert_world, api_error, unit) action" where
  "k8s_create_cert E c w =
     (case pe_create E c of
        Some e \<Rightarrow> (w, Inl (ClientError e))
      | None \<Rightarrow> if ct_key c \<in> ct_key ` set (cw_certs w) then (w, Inl (StatusError ''AlreadyExists''))
                else (w\<lparr>cw_certs := cw_certs w @ [c]\<rparr>, Inr ()))"

definition deleteSecret :: "provision_env \<Rightarrow> namespaced_name \<Rightarrow> unit provision" where
  "deleteSecret E key w =
     (case k8s_delete_secret E key w of
        (w', Inl e) \<Rightarrow> (w', if \<not> IsNotFound e then Inl (ProvDeleteSecret (Namespace key) (Name key) e) else Inr ())
      | (w', Inr _) \<Rightarrow> (w', Inr ()))"

definition deleteCertificate :: "provision_env \<Rightarrow> certificate \<Rightarrow> unit provision" where
  "deleteCertificate E cert w =
     (case k8s_delete_cert E (ct_key cert) w of
        (w', Inl e) \<Rightarrow>
          if \<not> IsNotFound e then (w', Inl (ProvDeleteCertificate (ct_Namespace cert) (ct_Name cert) e))
          else (fst (deleteSecret E (NamespacedName (ct_Namespace cert) (ct_SecretName cert)) w'), Inr ())
      | (w', Inr _) \<Rightarrow> (fst (deleteSecret E (NamespacedName (ct_Namespace cert) (ct_SecretName cert)) w'), Inr ()))"

definition new_certificate :: "string \<Rightarrow> string \<Rightarrow> issuer_ref \<Rightarrow> string \<Rightarrow> certificate" where
  "new_certificate k8sName ns issuer dnsName =
     \<lparr>ct_Namespace = ns, ct_Name = k8sName, ct_Labels = [(managedByLabelName, managedByLabelValue)],
      ct_SecretName = k8sName, ct_SecretLabels = [(managedByLabelName, managedByLabelValue)],
      ct_DNSNames = [dnsName], ct_IssuerRef = issuer\<rparr>"

definition createCertificate :: "provision_env \<Rightarrow> string \<Rightarrow> issuer_ref \<Rightarrow> string \<Rightarrow> unit provision" where
  "createCertificate E ns issuer dnsName w =
     (let k8sName = ''pomerium-certificate-'' @ pe_rand_String E (cw_rand w);
          w1 = w\<lparr>cw_rand := Suc (cw_rand w)\<rparr>
      in case k8s_create_cert E (new_certificate k8sName ns issuer dnsName) w1 of
           (w', Inl e) \<Rightarrow> (w', Inl (ProvCreateCertificate e))
         | (w', Inr _) \<Rightarrow> (w', Inr ()))"

definition for_issuer :: "issuer_ref \<Rightarrow> certificate \<Rightarrow> bool" where
  "for_issuer issuer cert \<longleftrightarrow>
     \<not> (ir_Kind (ct_IssuerRef cert) \<noteq> ir_Kind issuer \<or> ir_Name (ct_IssuerRef cert) \<noteq> ir_Name issuer)"

text \<open>The first loop: certificates of another issuer are deleted.\<close>

definition issuer_step :: "provision_env \<Rightarrow> issuer_ref \<Rightarrow> certificate list \<Rightarrow> certificate \<Rightarrow> certificate list provision" where
  "issuer_step E issuer acc cert =
     (if \<not> for_issuer issuer cert then act_bind (deleteCertificate E cert) (\<lambda>_. act_return acc)
      else act_return (acc @ [cert]))"

text \<open>The inner loop of the second loop: the missing names a certificate has are taken off the set.\<close>

definition claim_names :: "string list \<Rightarrow> string list \<Rightarrow> string list \<times> bool" where
  "claim_names missingNames names =
     foldl (\<lambda>(missingNames, used) name.
       if name \<in> set missingNames then (removeAll name missingNames, True) else (missingNames, used))
       (missingNames, False) names"

definition used_step :: "provision_env \<Rightarrow> string list \<Rightarrow> certificate \<Rightarrow> string list provision" where
  "used_step E missingNames cert =
     (case claim_names missingNames (ct_DNSNames cert) of
        (rest, used) \<Rightarrow>
          if \<not> used then act_bind (deleteCertificate E cert) (\<lambda>_. act_return rest) else act_return rest)"

definition stop_collector :: "provision_env \<Rightarrow> unit provision" where
  "stop_collector E w = (w\<lparr>cw_collector := coll_Stop (pe_collector E) (cw_collector w)\<rparr>, Inr ())"

definition sync_collector :: "provision_env \<Rightarrow> unit provision" where
  "sync_collector E w =
     (case coll_Sync (pe_collector E) (pe_sched E) (pe_latest E) (cw_collector w) of
        (c, err) \<Rightarrow> (w\<lparr>cw_collector := c\<rparr>, case err of Some e \<Rightarrow> Inl (ProvSync e) | None \<Rightarrow> Inr ()))"

text \<open>\<^verbatim>\<open>set.From(c.dataBrokerCollector.MissingNames())\<close>.\<close>

definition missing_names :: "string list provision" where
  "missing_names w = (w, Inr (remdups (coll_MissingNames (cw_collector w))))"

definition provision_names :: "provision_env \<Rightarrow> string \<Rightarrow> issuer_ref \<Rightarrow> certificate list \<Rightarrow> string list \<Rightarrow> unit provision" where
  "provision_names E ns issuer certs missingNames =
     act_bind (act_fold (used_step E) missingNames certs) (\<lambda>rest.
       act_fold (\<lambda>_ name. createCertificate E ns issuer name) () (visit (pe_order E) rest))"

definition reconcileCertificates ::
  "provision_env \<Rightarrow> string \<Rightarrow> issuer_ref \<Rightarrow> certificate list \<Rightarrow> unit provision" where
  "reconcileCertificates E ns issuer certs =
     act_bind (act_fold (issuer_step E issuer) [] certs) (\<lambda>certificatesForIssuer.
       if ir_Name issuer = [] then stop_collector E
       else act_bind (sync_collector E) (\<lambda>_.
            act_bind missing_names (provision_names E ns issuer certificatesForIssuer)))"

subsection \<open>The configuration record\<close>

definition db_Get :: "provision_env \<Rightarrow> cert_world \<Rightarrow> db_status + db_record" where
  "db_Get E w =
     (case pe_get E of
        Some e \<Rightarrow> Inl (DbOther e)
      | None \<Rightarrow> (case cw_record w of None \<Rightarrow> Inl DbNotFound | Some r \<Rightarrow> Inr r))"

text \<open>A record with a deletion time is deleted.\<close>

definition db_Put :: "provision_env \<Rightarrow> db_record \<Rightarrow> (cert_world, db_status, unit) action" where
  "db_Put E r w =
     (case pe_put E of
        Some e \<Rightarrow> (w, Inl (DbOther e))
      | None \<Rightarrow> (w\<lparr>cw_record := (if dr_DeletedAt r = None then Some r else None), cw_puts := Suc (cw_puts w)\<rparr>, Inr ()))"

definition put_or :: "(db_status \<Rightarrow> provision_error) \<Rightarrow> provision_env \<Rightarrow> db_record \<Rightarrow> unit provision" where
  "put_or err E r w = (case db_Put E r w of (w', Inl e) \<Rightarrow> (w', Inl (err e)) | (w', Inr _) \<Rightarrow> (w', Inr ()))"

definition write_config :: "provision_env \<Rightarrow> pb_config \<Rightarrow> db_record \<Rightarrow> unit provision" where
  "write_config E cfg r =
     (if proto_Equal cfg new_config then put_or ProvDeleteConfig E (r\<lparr>dr_DeletedAt := Some (pe_now E)\<rparr>)
      else if dr_Data r = Some (ConfigMsg cfg) then act_return ()
      else put_or ProvSaveConfig E (r\<lparr>dr_Data := Some (ConfigMsg cfg)\<rparr>))"

definition upsertConfig :: "provision_env \<Rightarrow> pb_config \<Rightarrow> unit provision" where
  "upsertConfig E cfg w =
     (case db_Get E w of
        Inl e \<Rightarrow>
          if e = DbNotFound
          then (if proto_Equal cfg new_config then (w, Inr ())
                else write_config E cfg \<lparr>dr_Type = co_type_url (pe_collector E) ConfigRecords, dr_Id = dataBrokerConfigRecordID,
                       dr_Version = 0, dr_DeletedAt = None, dr_Data = None\<rparr> w)
          else (w, Inl (ProvGetConfig e))
      | Inr current \<Rightarrow> write_config E cfg current w)"

definition secret_less :: "secret \<Rightarrow> secret \<Rightarrow> bool" where
  "secret_less = then_by (by_key (\<lambda>s. om_name (sec_meta s))) (by_key (\<lambda>s. om_uid (sec_meta s)))"

definition add_secret_cert :: "pb_config \<Rightarrow> secret \<Rightarrow> pb_config" where
  "add_secret_cert cfg s =
     (let certPEM = mget_str (sec_data s) ''tls.crt''; keyPEM = mget_str (sec_data s) ''tls.key'' in
      if length certPEM > 0 \<and> length keyPEM > 0
      then let st = (case cfg_Settings cfg of None \<Rightarrow> new_settings | Some st \<Rightarrow> st) in
        cfg\<lparr>cfg_Settings := Some (st\<lparr>st_Certificates := st_Certificates st @
          [\<lparr>sc_Id = [], sc_CertBytes = certPEM, sc_KeyBytes = keyPEM\<rparr>]\<rparr>)\<rparr>
      else cfg)"

definition secrets_config :: "secret list \<Rightarrow> pb_config" where
  "secrets_config secrets = foldl add_secret_cert new_config (sort_by secret_less secrets)"

definition reconcileSecrets :: "provision_env \<Rightarrow> secret list \<Rightarrow> unit provision" where
  "reconcileSecrets E secrets = upsertConfig E (secrets_config secrets)"

subsection \<open>Reconciliation\<close>

definition GetInClusterNamespace :: "provision_env \<Rightarrow> provision_error + string" where
  "GetInClusterNamespace E = (case pe_pod_namespace E of None \<Rightarrow> Inl ProvPodNamespace | Some raw \<Rightarrow> Inr (TrimSpace raw))"

definition no_issuer :: issuer_ref where
  "no_issuer = \<lparr>ir_Kind = [], ir_Name = []\<rparr>"

definition settings_issuer :: "certificate_auto_provision option \<Rightarrow> provision_error + string \<times> issuer_ref" where
  "settings_issuer ap =
     (case ap of
        None \<Rightarrow> Inr ([], no_issuer)
      | Some a \<Rightarrow>
          (case ca_ClusterIssuer a of
             Some name \<Rightarrow> Inr ([], \<lparr>ir_Kind = ''ClusterIssuer'', ir_Name = name\<rparr>)
           | None \<Rightarrow>
               (case ca_Issuer a of
                  None \<Rightarrow> Inr ([], no_issuer)
                | Some s \<Rightarrow>
                    (case ParseNamespacedName s [] of
                       Inl e \<Rightarrow> Inl (ProvIssuer e)
                     | Inr name \<Rightarrow> Inr (Namespace name, \<lparr>ir_Kind = ''Issuer'', ir_Name = Name name\<rparr>)))))"

text \<open>The issuer and the namespace of a reconciliation.\<close>

definition provision_target :: "controllerConfig \<Rightarrow> provision_env \<Rightarrow> provision_error + string \<times> issuer_ref" where
  "provision_target cfg E =
     ebind (case pe_settings E (cc_globalSettingsName cfg) of Inl e \<Rightarrow> Inl (ProvSettings e) | Inr s \<Rightarrow> Inr s) (\<lambda>settings.
     ebind (settings_issuer (ps_CertificateAutoProvision (po_Spec settings))) (\<lambda>(ns, issuer).
       let ns1 = (case cc_namespace cfg of Some n \<Rightarrow> n | None \<Rightarrow> ns) in
       if ns1 = [] then ebind (GetInClusterNamespace E) (\<lambda>n. Inr (n, issuer)) else Inr (ns1, issuer)))"

definition error_list :: "'e + unit \<Rightarrow> 'e list" where
  "error_list r = (case r of Inl e \<Rightarrow> [e] | Inr _ \<Rightarrow> [])"

text \<open>\<^verbatim>\<open>errors.Join\<close>: the secrets are reconciled even when the certificates failed; no error is the empty list.\<close>

definition provision_reconcile :: "controllerConfig \<Rightarrow> provision_env \<Rightarrow> cert_world \<Rightarrow> cert_world \<times> provision_error list" where
  "provision_reconcile cfg E w =
     (case provision_target cfg E of
        Inl e \<Rightarrow> (w, [e])
      | Inr (ns, issuer) \<Rightarrow>
          (case pe_list_certs E of
             Some e \<Rightarrow> (w, [ProvListCertificates e])
           | None \<Rightarrow>
               (case pe_list_secrets E of
                  Some e \<Rightarrow> (w, [ProvListSecrets e])
                | None \<Rightarrow>
                    let sl = managed_secrets ns w in
                    case reconcileCertificates E ns issuer (managed_certs ns w) w of
                      (w1, r1) \<Rightarrow>
                        (case reconcileSecrets E sl w1 of (w2, r2) \<Rightarrow> (w2, error_list r1 @ error_list r2)))))"

end
