(* ===== verification/Settings.thy ===== *)
theory Settings
  imports Pomerium_Crd Cert_Map Ingress_Annotations
begin

text \<open>
  \<^verbatim>\<open>pomerium/config.go\<close>: the translation of the global settings into the settings message, one step for each group
  of fields. URL and floating point parsing, the name of the hosted identity provider and the order of map
  iteration are the record \<open>settings_env\<close>.
\<close>

record settings_env =
  sv_order :: "nat \<Rightarrow> nat list"
  sv_url_ok :: "string \<Rightarrow> bool"
  sv_parse_float :: "string \<Rightarrow> float64 option"
  sv_hosted_name :: string

subsection \<open>The steps\<close>

datatype settings_error =
    ErrParseURL string
  | ErrSampling string
  | ErrSamplingRange
  | ErrReadTimeout int int
  | ErrCodecType string
  | ErrBearerTokenFormat string
  | ErrCertSecretType namespaced_name string
  | ErrIdpSecretRequired
  | ErrKeyRequired string
  | ErrRequestParams string
  | ErrSSHHostKey namespaced_name
  | ErrSSHUserCAKey namespaced_name
  | ErrEscapedSlashesAction string
  | ErrUnderscoresAction string
  | ErrNilDereference

text \<open>A step changes the settings and may add a warning, named by its key, to the collector of the context.\<close>

type_synonym apply_state = "string bin_ctx \<times> pb_settings"
type_synonym apply_step = "settings_env \<Rightarrow> pom_config \<Rightarrow> apply_state \<Rightarrow> settings_error + apply_state"

definition on_settings :: "(pb_settings \<Rightarrow> pb_settings) \<Rightarrow> apply_state \<Rightarrow> settings_error + apply_state" where
  "on_settings f st = Inr (fst st, f (snd st))"

text \<open>\<^verbatim>\<open>if new != nil { field = new }\<close>.\<close>

definition or_keep :: "'a option \<Rightarrow> 'a option \<Rightarrow> 'a option" where
  "or_keep new old = (case new of None \<Rightarrow> old | Some x \<Rightarrow> Some x)"

definition checkForWarnings :: apply_step where
  "checkForWarnings E c st =
     (if (case ps_Storage (pc_Spec c) of None \<Rightarrow> True | Some s \<Rightarrow> sg_File s = None \<and> sg_Postgres s = None)
      then Inr (bin_Add (fst st) [''storage''], snd st) else Inr st)"

definition mapToKVSlice :: "settings_env \<Rightarrow> (string, string) gomap \<Rightarrow> string list" where
  "mapToKVSlice E m = map (\<lambda>(k, v). k @ ''='' @ v) (visit (sv_order E) m)"

text \<open>\<^verbatim>\<open>v < 0 || v > 1\<close> on floating point numbers: every comparison with NaN is false.\<close>

definition outside_unit :: "float64 \<Rightarrow> bool" where
  "outside_unit v =
     (case v of F_NaN \<Rightarrow> False | F_NegInf \<Rightarrow> True | F_PosInf \<Rightarrow> True
      | F_fin m e \<Rightarrow> m < 0 \<or> (if 0 \<le> e then m * 2 ^ nat e > 1 else m > 2 ^ nat (- e)))"

definition parse_sampling :: "settings_env \<Rightarrow> string option \<Rightarrow> settings_error + float64 option" where
  "parse_sampling E s =
     (case s of
        None \<Rightarrow> Inr None
      | Some t \<Rightarrow>
          (case sv_parse_float E t of
             None \<Rightarrow> Inl (ErrSampling t)
           | Some v \<Rightarrow> if outside_unit v then Inl ErrSamplingRange else Inr (Some v)))"

definition applyOTEL :: apply_step where
  "applyOTEL E c st =
     (case ps_OTEL (pc_Spec c) of
        None \<Rightarrow> Inr st
      | Some ot \<Rightarrow>
          if \<not> sv_url_ok E (oc_Endpoint ot) then Inl (ErrParseURL (oc_Endpoint ot))
          else ebind (parse_sampling E (oc_Sampling ot)) (\<lambda>sampling.
            on_settings (\<lambda>s. s\<lparr>st_Otel := (st_Otel s)\<lparr>ot_TracesExporter := Some ''otlp'', ot_Endpoint := Some (oc_Endpoint ot),
              ot_SamplerArg := sampling, ot_ResourceAttributes := mapToKVSlice E (oc_ResourceAttributes ot),
              ot_LogLevel := oc_LogLevel ot, ot_Protocol := Some (oc_Protocol ot), ot_Headers := mapToKVSlice E (oc_Headers ot),
              ot_Timeout := or_keep (oc_Timeout ot) (ot_Timeout (st_Otel s)),
              ot_BspScheduleDelay := or_keep (oc_BSPScheduleDelay ot) (ot_BspScheduleDelay (st_Otel s)),
              ot_BspMaxExportBatchSize := or_keep (oc_BSPMaxExportBatchSize ot) (ot_BspMaxExportBatchSize (st_Otel s))\<rparr>\<rparr>) st))"

definition timeouts_ok :: "timeouts \<Rightarrow> settings_error + unit" where
  "timeouts_ok tm =
     (case (tc_Read tm, tc_Write tm) of
        (Some r, Some w) \<Rightarrow> if r \<ge> w then Inl (ErrReadTimeout r w) else Inr ()
      | _ \<Rightarrow> Inr ())"

definition applyTimeouts :: apply_step where
  "applyTimeouts E c st =
     (case ps_Timeouts (pc_Spec c) of
        None \<Rightarrow> Inr st
      | Some tm \<Rightarrow>
          ebind (timeouts_ok tm) (\<lambda>_.
            on_settings (\<lambda>s. s\<lparr>st_Timeouts := \<lparr>to_Idle = or_keep (tc_Idle tm) (to_Idle (st_Timeouts s)),
              to_Read = or_keep (tc_Read tm) (to_Read (st_Timeouts s)),
              to_Write = or_keep (tc_Write tm) (to_Write (st_Timeouts s))\<rparr>\<rparr>) st))"

definition applyJWTClaimHeaders :: apply_step where
  "applyJWTClaimHeaders E c st = on_settings (\<lambda>s. s\<lparr>st_JwtClaimsHeaders := ps_JWTClaimHeaders (pc_Spec c)\<rparr>) st"

definition parse_codec :: "string option \<Rightarrow> settings_error + codec_type option" where
  "parse_codec t =
     (case t of
        None \<Rightarrow> Inr None
      | Some x \<Rightarrow>
          if x = ''auto'' then Inr (Some CodecAuto)
          else if x = ''http1'' then Inr (Some CodecHTTP1)
          else if x = ''http2'' then Inr (Some CodecHTTP2)
          else if x = ''http3'' then Inr (Some CodecHTTP3)
          else Inl (ErrCodecType x))"

definition parse_bearer :: "string option \<Rightarrow> settings_error + bearer_token_format option" where
  "parse_bearer t =
     (case t of
        None \<Rightarrow> Inr None
      | Some x \<Rightarrow>
          if x = [] then Inr (Some BearerUnknown)
          else if x = ''default'' then Inr (Some BearerDefault)
          else if x = ''idp_access_token'' then Inr (Some BearerIdpAccessToken)
          else if x = ''idp_identity_token'' then Inr (Some BearerIdpIdentityToken)
          else Inl (ErrBearerTokenFormat x))"

definition applySetOtherOptions :: apply_step where
  "applySetOtherOptions E c st =
     (let p = pc_Spec c in
      ebind (parse_codec (ps_CodecType p)) (\<lambda>codec.
      ebind (parse_bearer (ps_BearerTokenFormat p)) (\<lambda>bearer.
        on_settings (\<lambda>s. s\<lparr>st_Misc := \<lparr>mi_SetResponseHeaders = ps_SetResponseHeaders p,
          mi_ProgrammaticRedirectDomainWhitelist = ps_ProgrammaticRedirectDomains p,
          mi_McpAllowedClientIdDomains = ps_MCPAllowedClientIDDomains p,
          mi_McpAllowedAsMetadataDomains = ps_MCPAllowedASMetadataDomains p,
          mi_UseProxyProtocol = ps_UseProxyProtocol p,
          mi_CodecType = or_keep codec (mi_CodecType (st_Misc s)),
          mi_AccessLogFields = or_keep (ps_AccessLogFields p) (mi_AccessLogFields (st_Misc s)),
          mi_AuthorizeLogFields = or_keep (ps_AuthorizeLogFields p) (mi_AuthorizeLogFields (st_Misc s)),
          mi_PassIdentityHeaders = ps_PassIdentityHeaders p,
          mi_BearerTokenFormat = bearer,
          mi_IdpAccessTokenAllowedAudiences = ps_IDPAccessTokenAllowedAudiences p,
          mi_AllowUpgrades = ps_AllowUpgrades p,
          mi_EnvoyDynamicExtensions = ps_EnvoyDynamicExtensions p\<rparr>\<rparr>) st)))"

definition applyCookie :: apply_step where
  "applyCookie E c st =
     (case ps_Cookie (pc_Spec c) of
        None \<Rightarrow> Inr st
      | Some ck \<Rightarrow>
          on_settings (\<lambda>s. s\<lparr>st_Cookie := \<lparr>ck_Name = co_Name ck, ck_Domain = co_Domain ck, ck_HttpOnly = co_HTTPOnly ck,
            ck_Expire = or_keep (co_Expire ck) (ck_Expire (st_Cookie s)), ck_SameSite = co_SameSite ck\<rparr>\<rparr>) st)"

definition applyCertificateAuthority :: apply_step where
  "applyCertificateAuthority E c st =
     (if pc_CASecrets c = [] then Inr st
      else on_settings (\<lambda>s. s\<lparr>st_CertificateAuthority :=
        Some (EncodeToString (concat (map (\<lambda>sec. secret_get sec CAKey @ [char_of (10::nat)]) (pc_CASecrets c))))\<rparr>) st)"

definition applyCerts :: apply_step where
  "applyCerts E c st =
     efold (\<lambda>st (n, sec).
       if sec_type sec \<noteq> SecretTypeTLS then Inl (ErrCertSecretType (GetNamespacedName (sec_meta sec)) (sec_type sec))
       else on_settings (\<lambda>s. addTLSCert s sec) st) st (visit (sv_order E) (pc_Certs c))"

definition applyAuthenticate :: apply_step where
  "applyAuthenticate E c st =
     (case ps_Authenticate (pc_Spec c) of
        None \<Rightarrow> Inr st
      | Some u \<Rightarrow> if \<not> sv_url_ok E u then Inl (ErrParseURL u)
                  else on_settings (\<lambda>s. s\<lparr>st_AuthenticateServiceUrl := Some u\<rparr>) st)"

text \<open>The identity provider steps run only when there is one; following the nil pointer is an error of its own.\<close>

definition with_idp :: "pom_config \<Rightarrow> (identity_provider \<Rightarrow> settings_error + 'a) \<Rightarrow> settings_error + 'a" where
  "with_idp c f = (case ps_IdentityProvider (pc_Spec c) of None \<Rightarrow> Inl ErrNilDereference | Some idp \<Rightarrow> f idp)"

definition applyIDP :: apply_step where
  "applyIDP E c st = with_idp c (\<lambda>idp. on_settings (\<lambda>s. s\<lparr>st_Idp := (st_Idp s)\<lparr>id_Provider := Some (ip_Provider idp),
     id_Scopes := ip_Scopes idp\<rparr>\<rparr>) st)"

definition applyIDPProviderURL :: apply_step where
  "applyIDPProviderURL E c st = with_idp c (\<lambda>idp.
     case ip_URL idp of
       None \<Rightarrow> Inr st
     | Some u \<Rightarrow> if \<not> sv_url_ok E u then Inl (ErrParseURL u)
                 else on_settings (\<lambda>s. s\<lparr>st_Idp := (st_Idp s)\<lparr>id_ProviderUrl := Some u\<rparr>\<rparr>) st)"

definition getRequiredString :: "(string, string) gomap \<Rightarrow> string \<Rightarrow> settings_error + string" where
  "getRequiredString data key =
     (case map_of data key of
        None \<Rightarrow> Inl (ErrKeyRequired key)
      | Some bs \<Rightarrow> if length bs = 0 then Inl (ErrKeyRequired key) else Inr bs)"

definition applyIDPSecret :: apply_step where
  "applyIDPSecret E c st =
     (case pc_IdpSecret c of
        None \<Rightarrow> Inl ErrIdpSecretRequired
      | Some sec \<Rightarrow>
          ebind (getRequiredString (sec_data sec) ''client_id'') (\<lambda>cid.
          ebind (getRequiredString (sec_data sec) ''client_secret'') (\<lambda>csec.
          ebind (on_settings (\<lambda>s. s\<lparr>st_Idp := (st_Idp s)\<lparr>id_ClientId := Some cid, id_ClientSecret := Some csec\<rparr>\<rparr>) st) (\<lambda>st'.
            if map_of (sec_data sec) ''service_account'' \<noteq> None
            then Inr (bin_Add (fst st') [''identityProvider.secret.service_account''], snd st') else Inr st'))))"

definition applyIDPRequestParams :: apply_step where
  "applyIDPRequestParams E c st = with_idp c (\<lambda>idp.
     case pc_RequestParams c of
       None \<Rightarrow> on_settings (\<lambda>s. s\<lparr>st_Idp := (st_Idp s)\<lparr>id_RequestParams := ip_RequestParams idp\<rparr>\<rparr>) st
     | Some sec \<Rightarrow>
         (case MergeMaps (ip_RequestParams idp) (sec_data sec) of
            Inl k \<Rightarrow> Inl (ErrRequestParams k)
          | Inr m \<Rightarrow> on_settings (\<lambda>s. s\<lparr>st_Idp := (st_Idp s)\<lparr>id_RequestParams := m\<rparr>\<rparr>) st))"

text \<open>An enforcement mode that is none of the three is ignored.\<close>

definition parse_enforcement :: "string option \<Rightarrow> mtls_enforcement option" where
  "parse_enforcement e =
     (case e of
        None \<Rightarrow> None
      | Some x \<Rightarrow>
          if ToLower x = ''policy_with_default_deny'' then Some PolicyWithDefaultDeny
          else if ToLower x = ''policy'' then Some PolicyMode
          else if ToLower x = ''reject_connection'' then Some RejectConnection
          else None)"

definition san_matchers :: "settings_env \<Rightarrow> match_subject_alt_names \<Rightarrow> (san_type \<times> string) list" where
  "san_matchers E m =
     filter (\<lambda>(k, v). v \<noteq> []) (visit (sv_order E)
       [(SanEmail, ms_Email m), (SanDNS, ms_DNS m), (SanURI, ms_URI m), (SanIPAddress, ms_IPAddress m),
        (SanUserPrincipalName, ms_UserPrincipalName m)])"

definition applyDownstreamMTLS :: apply_step where
  "applyDownstreamMTLS E c st =
     on_settings (\<lambda>s. s\<lparr>st_DownstreamMtls :=
       (case ps_DownstreamMTLS (pc_Spec c) of
          None \<Rightarrow> None
        | Some d \<Rightarrow> Some \<lparr>mt_Ca = (if dm_CA d \<noteq> [] then Some (EncodeToString (dm_CA d)) else None),
            mt_Crl = (if dm_CRL d \<noteq> [] then Some (EncodeToString (dm_CRL d)) else None),
            mt_Enforcement = parse_enforcement (dm_Enforcement d),
            mt_MatchSubjectAltNames = (case dm_MatchSubjectAltNames d of None \<Rightarrow> [] | Some m \<Rightarrow> san_matchers E m),
            mt_MaxVerifyDepth = dm_MaxVerifyDepth d\<rparr>)\<rparr>) st"

definition applyCircuitBreakerThresholds :: apply_step where
  "applyCircuitBreakerThresholds E c st =
     on_settings (\<lambda>s. s\<lparr>st_CircuitBreakerThresholds := ps_CircuitBreakerThresholds (pc_Spec c)\<rparr>) st"

definition applyDNS :: apply_step where
  "applyDNS E c st =
     on_settings (\<lambda>s. s\<lparr>st_Dns :=
       (case ps_DNS (pc_Spec c) of
          None \<Rightarrow> new_dns
        | Some d \<Rightarrow> \<lparr>dn_LookupFamily = map_option ToUpper (dc_LookupFamily d), dn_FailureRefreshRate = dc_FailureRefreshRate d,
            dn_QueryTimeout = dc_QueryTimeout d, dn_QueryTries = dc_QueryTries d, dn_RefreshRate = dc_RefreshRate d,
            dn_UdpMaxQueries = dc_UDPMaxQueries d, dn_UseTcp = dc_UseTCP d\<rparr>)\<rparr>) st"

definition SSHPrivateKey :: string where "SSHPrivateKey = ''ssh-privatekey''"

definition host_key :: "secret \<Rightarrow> settings_error + string" where
  "host_key sec = (case map_of (sec_data sec) SSHPrivateKey of
     None \<Rightarrow> Inl (ErrSSHHostKey (GetNamespacedName (sec_meta sec))) | Some d \<Rightarrow> Inr d)"

definition user_ca_key :: "secret option \<Rightarrow> settings_error + string option" where
  "user_ca_key k =
     (case k of
        None \<Rightarrow> Inr None
      | Some sec \<Rightarrow> (case map_of (sec_data sec) SSHPrivateKey of
          None \<Rightarrow> Inl (ErrSSHUserCAKey (GetNamespacedName (sec_meta sec))) | Some d \<Rightarrow> Inr (Some d)))"

definition applySSH :: apply_step where
  "applySSH E c st =
     ebind (emap host_key (HostKeys (pc_SSHSecrets c))) (\<lambda>keys.
     ebind (user_ca_key (UserCAKey (pc_SSHSecrets c))) (\<lambda>ca.
       on_settings (\<lambda>s. s\<lparr>st_Ssh := \<lparr>sh_HostKeys = (if HostKeys (pc_SSHSecrets c) = [] then None else Some keys),
         sh_UserCaKey = ca\<rparr>\<rparr>) st))"

definition parse_slashes :: "string option \<Rightarrow> settings_error + escaped_slashes_action option" where
  "parse_slashes t =
     (case t of
        None \<Rightarrow> Inr None
      | Some x \<Rightarrow>
          if x = ''keep_unchanged'' then Inr (Some SlashesKeepUnchanged)
          else if x = ''reject_request'' then Inr (Some SlashesRejectRequest)
          else if x = ''unescape_and_redirect'' then Inr (Some SlashesUnescapeAndRedirect)
          else if x = ''unescape_and_forward'' then Inr (Some SlashesUnescapeAndForward)
          else Inl (ErrEscapedSlashesAction x))"

definition parse_underscores :: "string option \<Rightarrow> settings_error + underscores_action option" where
  "parse_underscores t =
     (case t of
        None \<Rightarrow> Inr None
      | Some x \<Rightarrow>
          if x = ''allow'' then Inr (Some UnderscoresAllow)
          else if x = ''reject_request'' then Inr (Some UnderscoresRejectRequest)
          else if x = ''drop_header'' then Inr (Some UnderscoresDropHeader)
          else Inl (ErrUnderscoresAction x))"

definition applyRequestNormalizationOptions :: apply_step where
  "applyRequestNormalizationOptions E c st =
     ebind (parse_slashes (ps_PathWithEscapedSlashesAction (pc_Spec c))) (\<lambda>slashes.
     ebind (parse_underscores (ps_HeadersWithUnderscoresAction (pc_Spec c))) (\<lambda>underscores.
       on_settings (\<lambda>s. s\<lparr>st_Normalization := \<lparr>no_NormalizePath = ps_NormalizePath (pc_Spec c),
         no_MergeSlashes = ps_MergeSlashes (pc_Spec c),
         no_PathWithEscapedSlashesAction = or_keep slashes (no_PathWithEscapedSlashesAction (st_Normalization s)),
         no_HeadersWithUnderscoresAction = or_keep underscores (no_HeadersWithUnderscoresAction (st_Normalization s))\<rparr>\<rparr>) st))"

subsection \<open>All steps\<close>

definition base_steps :: "(string \<times> apply_step) list" where
  "base_steps =
     [(''ca'', applyCertificateAuthority), (''certs'', applyCerts), (''authenticate'', applyAuthenticate),
      (''cookie'', applyCookie), (''warnings'', checkForWarnings), (''jwt claim headers'', applyJWTClaimHeaders),
      (''timeouts'', applyTimeouts), (''misc opts'', applySetOtherOptions), (''otel'', applyOTEL),
      (''downstream mtls'', applyDownstreamMTLS), (''circuit breaker thresholds'', applyCircuitBreakerThresholds),
      (''dns'', applyDNS), (''ssh'', applySSH), (''request normalization'', applyRequestNormalizationOptions)]"

definition apply_steps :: "settings_env \<Rightarrow> pom_config \<Rightarrow> (string \<times> apply_step) list" where
  "apply_steps E c =
     base_steps @
     (case ps_IdentityProvider (pc_Spec c) of
        None \<Rightarrow> []
      | Some idp \<Rightarrow>
          [(''idp'', applyIDP), (''idp url'', applyIDPProviderURL), (''idp request params'', applyIDPRequestParams)] @
          (if ip_Provider idp \<noteq> sv_hosted_name E then [(''idp secret'', applyIDPSecret)] else []))"

text \<open>\<^verbatim>\<open>ApplyConfig\<close>: the error carries the name of the failing step.\<close>

definition run_step :: "settings_env \<Rightarrow> pom_config \<Rightarrow> apply_state \<Rightarrow> string \<times> apply_step \<Rightarrow> (string \<times> settings_error) + apply_state" where
  "run_step E c st step = (case snd step E c st of Inl e \<Rightarrow> Inl (fst step, e) | Inr st' \<Rightarrow> Inr st')"

definition ApplyConfig ::
  "settings_env \<Rightarrow> string bin_ctx \<Rightarrow> pb_config \<Rightarrow> pom_config option \<Rightarrow> (string \<times> settings_error) + string bin_ctx \<times> pb_config" where
  "ApplyConfig E ctx dst src =
     (case src of
        None \<Rightarrow> Inr (ctx, dst)
      | Some c \<Rightarrow>
          ebind (efold (run_step E c) (ctx, case cfg_Settings dst of None \<Rightarrow> new_settings | Some s \<Rightarrow> s) (apply_steps E c))
            (\<lambda>(ctx', s). Inr (ctx', dst\<lparr>cfg_Settings := Some s\<rparr>)))"

subsection \<open>When the settings are accepted\<close>

definition accepts :: "settings_env \<Rightarrow> pom_config \<Rightarrow> apply_step \<Rightarrow> bool" where
  "accepts E c f \<longleftrightarrow> (\<forall>st. \<not> isl (f E c st))"

text \<open>A step accepts or refuses the settings whatever the earlier steps wrote.\<close>

definition stateless :: "settings_env \<Rightarrow> pom_config \<Rightarrow> apply_step \<Rightarrow> bool" where
  "stateless E c f \<longleftrightarrow> (\<forall>st. \<not> isl (f E c st) \<longleftrightarrow> accepts E c f)"

definition url_opt_ok :: "settings_env \<Rightarrow> string option \<Rightarrow> bool" where
  "url_opt_ok E u = (case u of None \<Rightarrow> True | Some x \<Rightarrow> sv_url_ok E x)"

definition sampling_ok :: "settings_env \<Rightarrow> string option \<Rightarrow> bool" where
  "sampling_ok E s = (case s of None \<Rightarrow> True | Some t \<Rightarrow> (\<exists>v. sv_parse_float E t = Some v \<and> \<not> outside_unit v))"

definition client_secret_ok :: "pom_config \<Rightarrow> bool" where
  "client_secret_ok c \<longleftrightarrow>
     (case pc_IdpSecret c of None \<Rightarrow> False
      | Some sec \<Rightarrow> mget_str (sec_data sec) ''client_id'' \<noteq> [] \<and> mget_str (sec_data sec) ''client_secret'' \<noteq> [])"

definition idp_ok :: "settings_env \<Rightarrow> pom_config \<Rightarrow> identity_provider \<Rightarrow> bool" where
  "idp_ok E c idp \<longleftrightarrow>
     url_opt_ok E (ip_URL idp) \<and>
     (case pc_RequestParams c of None \<Rightarrow> True | Some sec \<Rightarrow> \<not> isl (MergeMaps (ip_RequestParams idp) (sec_data sec))) \<and>
     (ip_Provider idp = sv_hosted_name E \<or> client_secret_ok c)"

definition base_ok :: "settings_env \<Rightarrow> pom_config \<Rightarrow> bool" where
  "base_ok E c \<longleftrightarrow>
     (\<forall>sec \<in> snd ` set (pc_Certs c). sec_type sec = SecretTypeTLS) \<and>
     url_opt_ok E (ps_Authenticate (pc_Spec c)) \<and>
     (case ps_Timeouts (pc_Spec c) of
        Some tm \<Rightarrow> (\<forall>r w. tc_Read tm = Some r \<and> tc_Write tm = Some w \<longrightarrow> r < w) | None \<Rightarrow> True) \<and>
     (case ps_CodecType (pc_Spec c) of None \<Rightarrow> True | Some t \<Rightarrow> t \<in> {''auto'', ''http1'', ''http2'', ''http3''}) \<and>
     (case ps_BearerTokenFormat (pc_Spec c) of None \<Rightarrow> True
      | Some t \<Rightarrow> t \<in> {[], ''default'', ''idp_access_token'', ''idp_identity_token''}) \<and>
     (case ps_OTEL (pc_Spec c) of None \<Rightarrow> True | Some ot \<Rightarrow> sv_url_ok E (oc_Endpoint ot) \<and> sampling_ok E (oc_Sampling ot)) \<and>
     (\<forall>sec \<in> set (HostKeys (pc_SSHSecrets c)) \<union> set_option (UserCAKey (pc_SSHSecrets c)). map_of (sec_data sec) SSHPrivateKey \<noteq> None) \<and>
     (case ps_PathWithEscapedSlashesAction (pc_Spec c) of None \<Rightarrow> True
      | Some t \<Rightarrow> t \<in> {''keep_unchanged'', ''reject_request'', ''unescape_and_redirect'', ''unescape_and_forward''}) \<and>
     (case ps_HeadersWithUnderscoresAction (pc_Spec c) of None \<Rightarrow> True | Some t \<Rightarrow> t \<in> {''allow'', ''reject_request'', ''drop_header''})"

definition settings_ok :: "settings_env \<Rightarrow> pom_config \<Rightarrow> bool" where
  "settings_ok E c \<longleftrightarrow>
     base_ok E c \<and> (case ps_IdentityProvider (pc_Spec c) of None \<Rightarrow> True | Some idp \<Rightarrow> idp_ok E c idp)"

lemma isl_on_settings [simp]: "\<not> isl (on_settings f st)"
  by (simp add: on_settings_def)

lemma accept_iffI: "(\<And>st. \<not> isl (f E c st) \<longleftrightarrow> P) \<Longrightarrow> stateless E c f \<and> (accepts E c f \<longleftrightarrow> P)"
  by (simp add: stateless_def accepts_def)

lemma applyCerts_accepts:
  assumes "permuting (sv_order E)"
  shows "stateless E c applyCerts \<and> (accepts E c applyCerts \<longleftrightarrow> (\<forall>sec \<in> snd ` set (pc_Certs c). sec_type sec = SecretTypeTLS))"
proof (rule accept_iffI)
  fix st :: apply_state
  have "\<not> isl (applyCerts E c st) \<longleftrightarrow> (\<forall>nsec \<in> set (visit (sv_order E) (pc_Certs c)). sec_type (snd nsec) = SecretTypeTLS)"
    unfolding applyCerts_def by (rule efold_ok_iff) (auto split: if_splits)
  then show "\<not> isl (applyCerts E c st) \<longleftrightarrow> (\<forall>sec \<in> snd ` set (pc_Certs c). sec_type sec = SecretTypeTLS)"
    using assms by simp
qed

lemma always_accepts:
  "stateless E c applyCertificateAuthority \<and> accepts E c applyCertificateAuthority"
  "stateless E c applyCookie \<and> accepts E c applyCookie"
  "stateless E c checkForWarnings \<and> accepts E c checkForWarnings"
  "stateless E c applyJWTClaimHeaders \<and> accepts E c applyJWTClaimHeaders"
  "stateless E c applyDownstreamMTLS \<and> accepts E c applyDownstreamMTLS"
  "stateless E c applyCircuitBreakerThresholds \<and> accepts E c applyCircuitBreakerThresholds"
  "stateless E c applyDNS \<and> accepts E c applyDNS"
  by (simp_all add: stateless_def accepts_def applyCertificateAuthority_def applyCookie_def checkForWarnings_def
      applyJWTClaimHeaders_def applyDownstreamMTLS_def applyCircuitBreakerThresholds_def applyDNS_def split: option.split)

lemma applyAuthenticate_accepts:
  "stateless E c applyAuthenticate \<and> (accepts E c applyAuthenticate \<longleftrightarrow> url_opt_ok E (ps_Authenticate (pc_Spec c)))"
  by (rule accept_iffI) (simp add: applyAuthenticate_def url_opt_ok_def split: option.split)

lemma applyTimeouts_accepts:
  "stateless E c applyTimeouts \<and> (accepts E c applyTimeouts \<longleftrightarrow> (case ps_Timeouts (pc_Spec c) of
     Some tm \<Rightarrow> (\<forall>r w. tc_Read tm = Some r \<and> tc_Write tm = Some w \<longrightarrow> r < w) | None \<Rightarrow> True))"
  by (rule accept_iffI) (auto simp: applyTimeouts_def timeouts_ok_def split: option.splits)

lemma applySetOtherOptions_accepts:
  "stateless E c applySetOtherOptions \<and> (accepts E c applySetOtherOptions \<longleftrightarrow>
     (case ps_CodecType (pc_Spec c) of None \<Rightarrow> True | Some t \<Rightarrow> t \<in> {''auto'', ''http1'', ''http2'', ''http3''}) \<and>
     (case ps_BearerTokenFormat (pc_Spec c) of None \<Rightarrow> True
      | Some t \<Rightarrow> t \<in> {[], ''default'', ''idp_access_token'', ''idp_identity_token''}))"
  by (rule accept_iffI) (simp add: applySetOtherOptions_def parse_codec_def parse_bearer_def Let_def split: option.split)

lemma parse_sampling_ok: "\<not> isl (parse_sampling E s) \<longleftrightarrow> sampling_ok E s"
  by (auto simp: parse_sampling_def sampling_ok_def split: option.split)

lemma applyOTEL_accepts:
  "stateless E c applyOTEL \<and> (accepts E c applyOTEL \<longleftrightarrow> (case ps_OTEL (pc_Spec c) of None \<Rightarrow> True
     | Some ot \<Rightarrow> sv_url_ok E (oc_Endpoint ot) \<and> sampling_ok E (oc_Sampling ot)))"
proof (rule accept_iffI)
  fix st :: apply_state
  show "\<not> isl (applyOTEL E c st) \<longleftrightarrow> (case ps_OTEL (pc_Spec c) of None \<Rightarrow> True
     | Some ot \<Rightarrow> sv_url_ok E (oc_Endpoint ot) \<and> sampling_ok E (oc_Sampling ot))"
    using parse_sampling_ok [of E] by (simp add: applyOTEL_def isl_ebind split: option.split sum.split) force
qed

lemma applySSH_accepts:
  "stateless E c applySSH \<and> (accepts E c applySSH \<longleftrightarrow>
     (\<forall>sec \<in> set (HostKeys (pc_SSHSecrets c)) \<union> set_option (UserCAKey (pc_SSHSecrets c)). map_of (sec_data sec) SSHPrivateKey \<noteq> None))"
proof (rule accept_iffI)
  fix st :: apply_state
  have "\<not> isl (host_key sec) \<longleftrightarrow> map_of (sec_data sec) SSHPrivateKey \<noteq> None" for sec
    by (simp add: host_key_def split: option.split)
  moreover have "\<not> isl (user_ca_key u) \<longleftrightarrow> (\<forall>sec \<in> set_option u. map_of (sec_data sec) SSHPrivateKey \<noteq> None)" for u
    by (auto simp: user_ca_key_def split: option.splits)
  moreover have "\<not> isl (applySSH E c st) \<longleftrightarrow>
      \<not> isl (emap host_key (HostKeys (pc_SSHSecrets c))) \<and> \<not> isl (user_ca_key (UserCAKey (pc_SSHSecrets c)))"
    by (simp add: applySSH_def isl_ebind split: sum.split)
  ultimately show "\<not> isl (applySSH E c st) \<longleftrightarrow>
      (\<forall>sec \<in> set (HostKeys (pc_SSHSecrets c)) \<union> set_option (UserCAKey (pc_SSHSecrets c)). map_of (sec_data sec) SSHPrivateKey \<noteq> None)"
    unfolding emap_ok_iff ball_Un by simp
qed

lemma applyRequestNormalizationOptions_accepts:
  "stateless E c applyRequestNormalizationOptions \<and> (accepts E c applyRequestNormalizationOptions \<longleftrightarrow>
     (case ps_PathWithEscapedSlashesAction (pc_Spec c) of None \<Rightarrow> True
      | Some t \<Rightarrow> t \<in> {''keep_unchanged'', ''reject_request'', ''unescape_and_redirect'', ''unescape_and_forward''}) \<and>
     (case ps_HeadersWithUnderscoresAction (pc_Spec c) of None \<Rightarrow> True | Some t \<Rightarrow> t \<in> {''allow'', ''reject_request'', ''drop_header''}))"
  by (rule accept_iffI)
    (simp add: applyRequestNormalizationOptions_def parse_slashes_def parse_underscores_def split: option.split)

lemma isl_getRequiredString: "\<not> isl (getRequiredString data key) \<longleftrightarrow> (\<exists>v. map_of data key = Some v \<and> v \<noteq> [])"
  by (auto simp: getRequiredString_def split: option.splits)

lemma idp_steps_accept:
  assumes "ps_IdentityProvider (pc_Spec c) = Some idp"
  shows "stateless E c applyIDP \<and> accepts E c applyIDP"
    and "stateless E c applyIDPProviderURL \<and> (accepts E c applyIDPProviderURL \<longleftrightarrow> url_opt_ok E (ip_URL idp))"
    and "stateless E c applyIDPRequestParams \<and> (accepts E c applyIDPRequestParams \<longleftrightarrow>
      (case pc_RequestParams c of None \<Rightarrow> True | Some sec \<Rightarrow> \<not> isl (MergeMaps (ip_RequestParams idp) (sec_data sec))))"
proof -
  show "stateless E c applyIDP \<and> accepts E c applyIDP"
    by (simp add: stateless_def accepts_def applyIDP_def with_idp_def assms)
  show "stateless E c applyIDPProviderURL \<and> (accepts E c applyIDPProviderURL \<longleftrightarrow> url_opt_ok E (ip_URL idp))"
    by (rule accept_iffI) (simp add: applyIDPProviderURL_def with_idp_def assms url_opt_ok_def split: option.split)
  show "stateless E c applyIDPRequestParams \<and> (accepts E c applyIDPRequestParams \<longleftrightarrow>
      (case pc_RequestParams c of None \<Rightarrow> True | Some sec \<Rightarrow> \<not> isl (MergeMaps (ip_RequestParams idp) (sec_data sec))))"
    by (rule accept_iffI) (auto simp: applyIDPRequestParams_def with_idp_def assms split: option.split sum.split)
qed

lemma applyIDPSecret_accepts: "stateless E c applyIDPSecret \<and> (accepts E c applyIDPSecret \<longleftrightarrow> client_secret_ok c)"
proof (rule accept_iffI)
  fix st :: apply_state
  have req: "\<not> isl (getRequiredString data key) \<longleftrightarrow> mget_str data key \<noteq> []" for data key
    by (simp add: getRequiredString_def mget_str_def deref_str_def split: option.split)
  show "\<not> isl (applyIDPSecret E c st) \<longleftrightarrow> client_secret_ok c"
  proof (cases "pc_IdpSecret c")
    case (Some sec)
    then have "\<not> isl (applyIDPSecret E c st) \<longleftrightarrow>
        \<not> isl (getRequiredString (sec_data sec) ''client_id'') \<and> \<not> isl (getRequiredString (sec_data sec) ''client_secret'')"
      by (auto simp: applyIDPSecret_def isl_ebind on_settings_def split: sum.split)
    then show ?thesis using Some by (simp add: req client_secret_ok_def)
  qed (simp add: applyIDPSecret_def client_secret_ok_def)
qed

lemmas base_accepts = always_accepts applyAuthenticate_accepts applyTimeouts_accepts applySetOtherOptions_accepts
  applyOTEL_accepts applySSH_accepts applyRequestNormalizationOptions_accepts

lemma base_steps_stateless:
  "permuting (sv_order E) \<Longrightarrow> \<forall>nf \<in> set base_steps. stateless E c (snd nf)"
  by (simp add: base_steps_def base_accepts applyCerts_accepts)

lemma apply_steps_stateless:
  "permuting (sv_order E) \<Longrightarrow> \<forall>nf \<in> set (apply_steps E c). stateless E c (snd nf)"
  using base_steps_stateless [of E c]
  by (cases "ps_IdentityProvider (pc_Spec c)")
    (simp_all add: apply_steps_def ball_Un idp_steps_accept applyIDPSecret_accepts)

lemma ApplyConfig_accepts:
  assumes "permuting (sv_order E)"
  shows "\<not> isl (ApplyConfig E ctx dst (Some c)) \<longleftrightarrow> (\<forall>nf \<in> set (apply_steps E c). accepts E c (snd nf))"
proof -
  let ?st = "(ctx, case cfg_Settings dst of None \<Rightarrow> new_settings | Some s \<Rightarrow> s)"
  have "\<not> isl (ApplyConfig E ctx dst (Some c)) \<longleftrightarrow> \<not> isl (efold (run_step E c) ?st (apply_steps E c))"
    by (simp add: ApplyConfig_def isl_ebind split: sum.split prod.split)
  also have "\<dots> \<longleftrightarrow> (\<forall>nf \<in> set (apply_steps E c). accepts E c (snd nf))"
  proof (rule efold_ok_iff)
    fix nf st
    assume "nf \<in> set (apply_steps E c)"
    then have "\<not> isl (snd nf E c st) \<longleftrightarrow> accepts E c (snd nf)"
      using apply_steps_stateless [OF assms, of c] unfolding stateless_def by blast
    then show "\<not> isl (run_step E c st nf) \<longleftrightarrow> accepts E c (snd nf)" by (cases "snd nf E c st") (simp_all add: run_step_def)
  qed
  finally show ?thesis .
qed

lemma base_steps_ok:
  assumes "permuting (sv_order E)"
  shows "(\<forall>nf \<in> set base_steps. accepts E c (snd nf)) \<longleftrightarrow> base_ok E c"
  using base_accepts [of E c] applyCerts_accepts [OF assms, of c]
  by (simp add: base_steps_def base_ok_def conj_ac)

text \<open>C26: The settings are translated exactly when they are consistent: certificates are TLS secrets, addresses parse, the read
  timeout is below the write timeout, enumerated values are known, a sampling rate parses and is not outside
  the unit interval, SSH secrets hold a key, and an identity provider that is not the hosted one comes with a
  non-empty client id and secret and request parameters that do not repeat a key.\<close>

theorem ApplyConfig_iff:
  assumes "permuting (sv_order E)"
  shows "\<not> isl (ApplyConfig E ctx dst (Some c)) \<longleftrightarrow> settings_ok E c"
proof (cases "ps_IdentityProvider (pc_Spec c)")
  case None
  then show ?thesis
    using base_steps_ok [OF assms, of c] by (simp add: ApplyConfig_accepts [OF assms] apply_steps_def settings_ok_def)
next
  case (Some idp)
  have "(\<forall>nf \<in> set (apply_steps E c). accepts E c (snd nf)) \<longleftrightarrow> base_ok E c \<and> idp_ok E c idp"
    using base_steps_ok [OF assms, of c] Some idp_steps_accept [OF Some, of E] applyIDPSecret_accepts [of E c]
    by (simp add: apply_steps_def idp_ok_def ball_Un) blast
  then show ?thesis using Some by (simp add: ApplyConfig_accepts [OF assms] settings_ok_def)
qed

end
