(* ===== verification/Settings_Sync.thy ===== *)
theory Settings_Sync
  imports Settings Databroker_Sync
begin

text \<open>
  The settings in the databroker: \<^verbatim>\<open>SetConfig\<close> of \<^verbatim>\<open>pomerium/sync_databroker.go\<close> with the translation of
  \<^verbatim>\<open>pomerium/config.go\<close>, and what the translated settings hold.
\<close>

definition settings_apply :: "settings_env \<Rightarrow> pom_config option \<Rightarrow> pb_config \<Rightarrow> string + pb_config" where
  "settings_apply E c cfg = (case ApplyConfig E None cfg c of Inl (step, e) \<Rightarrow> Inl step | Inr (ctx, cfg') \<Rightarrow> Inr cfg')"

definition SetSettings ::
  "sync_env \<Rightarrow> settings_env \<Rightarrow> db_store \<Rightarrow> pom_config option \<Rightarrow> sync_error + bool \<times> db_store" where
  "SetSettings S E st c = SetConfig configReconciler S st (settings_apply E c)"

subsection \<open>An example\<close>

definition ex_spec :: pomerium_spec where
  "ex_spec = \<lparr>ps_AccessLogFields = None, ps_Authenticate = Some ''https://auth.example.com'', ps_AuthorizeLogFields = None,
     ps_Certificates = [], ps_CASecrets = [], ps_Cookie = None, ps_IdentityProvider = None, ps_JWTClaimHeaders = [],
     ps_MCPAllowedClientIDDomains = [], ps_MCPAllowedASMetadataDomains = [], ps_PassIdentityHeaders = None,
     ps_ProgrammaticRedirectDomains = [], ps_RuntimeFlags = [], ps_Secrets = ''pomerium/bootstrap'', ps_SetResponseHeaders = [], ps_Storage = None,
     ps_Timeouts = None, ps_UseProxyProtocol = None, ps_CodecType = Some ''http2'', ps_BearerTokenFormat = None,
     ps_IDPAccessTokenAllowedAudiences = None, ps_OTEL = None, ps_DownstreamMTLS = None, ps_CircuitBreakerThresholds = None,
     ps_DataBroker = None, ps_DNS = None, ps_SSH = None, ps_AllowUpgrades = None, ps_CertificateAutoProvision = None, ps_EnvoyDynamicExtensions = None, ps_NormalizePath = None,
     ps_MergeSlashes = None, ps_PathWithEscapedSlashesAction = None, ps_HeadersWithUnderscoresAction = None\<rparr>"

definition pom_of_spec :: "pomerium_spec \<Rightarrow> pomerium" where
  "pom_of_spec spec = \<lparr>po_meta = new_meta ''Pomerium'' [] ''global'', po_Spec = spec,
     po_Status = \<lparr>po_CertificateAutoProvisionStatus = None, po_Routes = [], po_SettingsStatus = None\<rparr>\<rparr>"

definition ex_pom :: pom_config where
  "ex_pom = \<lparr>pc_Pomerium = pom_of_spec ex_spec, pc_Secrets = None, pc_CASecrets = [], pc_Certs = [],
     pc_RequestParams = None, pc_IdpSecret = None, pc_IdpServiceAccount = None,
     pc_SSHSecrets = \<lparr>HostKeys = [], UserCAKey = None\<rparr>, pc_StorageSecrets = \<lparr>ss_Secret = None, ss_TLS = None, ss_CA = None\<rparr>\<rparr>"

definition ex_settings_env :: settings_env where
  "ex_settings_env = \<lparr>sv_order = (\<lambda>n. [0..<n]), sv_url_ok = (\<lambda>u. u \<noteq> []), sv_parse_float = (\<lambda>_. None), sv_hosted_name = ''hosted''\<rparr>"

definition ex_idp_pom :: pom_config where
  "ex_idp_pom = ex_pom\<lparr>pc_Pomerium := pom_of_spec (ex_spec\<lparr>ps_IdentityProvider := Some \<lparr>ip_Provider = ''oidc'', ip_URL = Some ''https://idp'', ip_Secret = ''pomerium/idp'',
       ip_ServiceAccountFromSecret = None, ip_RequestParams = [(''prompt'', ''login'')], ip_RequestParamsSecret = None, ip_Scopes = [''openid''], ip_RefreshDirectory = None\<rparr>\<rparr>),
     pc_IdpSecret := Some \<lparr>sec_meta = new_meta ''Secret'' ''pomerium'' ''idp'', sec_type = SecretTypeOpaque,
       sec_data = [(''client_id'', ''me''), (''client_secret'', ''shh'')]\<rparr>\<rparr>"

lemma ex_settings_env_order: "permuting (sv_order ex_settings_env)"
  by (simp add: permuting_def ex_settings_env_def)

theorem ApplyConfig_iff_witness:
  "permuting (sv_order ex_settings_env) \<and> settings_ok ex_settings_env ex_idp_pom \<and>
   \<not> settings_ok ex_settings_env (ex_idp_pom\<lparr>pc_IdpSecret := None\<rparr>)"
proof -
  have "\<not> isl (ApplyConfig ex_settings_env None new_config (Some ex_idp_pom))" by code_simp
  moreover have "isl (ApplyConfig ex_settings_env None new_config (Some (ex_idp_pom\<lparr>pc_IdpSecret := None\<rparr>)))" by code_simp
  ultimately show ?thesis
    using ApplyConfig_iff [OF ex_settings_env_order, of None new_config ex_idp_pom] ex_settings_env_order
      ApplyConfig_iff [OF ex_settings_env_order, of None new_config "ex_idp_pom\<lparr>pc_IdpSecret := None\<rparr>"] by blast
qed

subsection \<open>The identity provider\<close>

lemma ApplyConfig_Inr:
  assumes "ApplyConfig E ctx dst (Some c) = Inr (ctx', cfg)"
  obtains s where "cfg_Settings cfg = Some s"
    "efold (run_step E c) (ctx, case cfg_Settings dst of None \<Rightarrow> new_settings | Some s \<Rightarrow> s) (apply_steps E c) = Inr (ctx', s)"
  using assms by (auto simp: ApplyConfig_def ebind_Inr_iff)

lemma run_step_Inr [simp]: "run_step E c st nf = Inr st' \<longleftrightarrow> snd nf E c st = Inr st'"
  by (simp add: run_step_def split: sum.split)

lemma applyIDPSecret_Inr:
  assumes "applyIDPSecret E c st = Inr st'"
  obtains sec where "pc_IdpSecret c = Some sec"
    "snd st' = (snd st)\<lparr>st_Idp := (st_Idp (snd st))\<lparr>id_ClientId := Some (mget_str (sec_data sec) ''client_id''),
       id_ClientSecret := Some (mget_str (sec_data sec) ''client_secret'')\<rparr>\<rparr>"
    "mget_str (sec_data sec) ''client_id'' \<noteq> []" "mget_str (sec_data sec) ''client_secret'' \<noteq> []"
proof -
  have req: "getRequiredString data key = Inr v \<Longrightarrow> v = mget_str data key \<and> v \<noteq> []" for data key v
    by (auto simp: getRequiredString_def mget_str_def deref_str_def split: option.splits if_splits)
  obtain sec where sec: "pc_IdpSecret c = Some sec" using assms by (cases "pc_IdpSecret c") (auto simp: applyIDPSecret_def)
  obtain cid csec where "getRequiredString (sec_data sec) ''client_id'' = Inr cid"
    "getRequiredString (sec_data sec) ''client_secret'' = Inr csec"
    "snd st' = (snd st)\<lparr>st_Idp := (st_Idp (snd st))\<lparr>id_ClientId := Some cid, id_ClientSecret := Some csec\<rparr>\<rparr>"
    using assms sec by (auto simp: applyIDPSecret_def ebind_Inr_iff on_settings_def split: if_splits)
  with req sec that show ?thesis by metis
qed

lemma applyIDPRequestParams_Inr:
  assumes "applyIDPRequestParams E c st = Inr st'" "ps_IdentityProvider (pc_Spec c) = Some idp"
    and "wf_map (ip_RequestParams idp)" "\<And>sec. pc_RequestParams c = Some sec \<Longrightarrow> wf_map (sec_data sec)"
  shows "map_of (id_RequestParams (st_Idp (snd st'))) =
      map_of (ip_RequestParams idp) ++ (case pc_RequestParams c of None \<Rightarrow> Map.empty | Some sec \<Rightarrow> map_of (sec_data sec))"
proof (cases "pc_RequestParams c")
  case None
  then show ?thesis using assms(1,2) by (auto simp: applyIDPRequestParams_def with_idp_def on_settings_def)
next
  case (Some sec)
  then obtain m where m: "MergeMaps (ip_RequestParams idp) (sec_data sec) = Inr m" and st': "id_RequestParams (st_Idp (snd st')) = m"
    using assms(1,2) by (auto simp: applyIDPRequestParams_def with_idp_def on_settings_def split: sum.splits)
  have "m = mmerge (mmerge [] (ip_RequestParams idp)) (sec_data sec)"
    using m unfolding MergeMaps_def MergeMaps_loop [OF assms(4) [OF Some]]
    by (auto split: option.splits prod.splits)
  then show ?thesis using st' Some assms(3) assms(4) [OF Some] by (simp add: map_of_mmerge)
qed

text \<open>Translated settings never name an identity provider without its credentials: unless it is the hosted one, the client
  id and secret are those of its secret and not empty; and its request parameters are the plain ones together
  with the secret ones.\<close>

theorem ApplyConfig_idp:
  assumes "ApplyConfig E ctx dst (Some c) = Inr (ctx', cfg)" "ps_IdentityProvider (pc_Spec c) = Some idp"
    and "ip_Provider idp \<noteq> sv_hosted_name E"
    and "wf_map (ip_RequestParams idp)" "\<And>sec. pc_RequestParams c = Some sec \<Longrightarrow> wf_map (sec_data sec)"
  shows "\<exists>s sec. cfg_Settings cfg = Some s \<and> pc_IdpSecret c = Some sec \<and>
    id_ClientId (st_Idp s) = Some (mget_str (sec_data sec) ''client_id'') \<and> mget_str (sec_data sec) ''client_id'' \<noteq> [] \<and>
    id_ClientSecret (st_Idp s) = Some (mget_str (sec_data sec) ''client_secret'') \<and> mget_str (sec_data sec) ''client_secret'' \<noteq> [] \<and>
    map_of (id_RequestParams (st_Idp s)) =
      map_of (ip_RequestParams idp) ++ (case pc_RequestParams c of None \<Rightarrow> Map.empty | Some sec \<Rightarrow> map_of (sec_data sec))"
  using assms(1)
proof (rule ApplyConfig_Inr)
  fix s
  assume s: "cfg_Settings cfg = Some s"
    and run: "efold (run_step E c) (ctx, case cfg_Settings dst of None \<Rightarrow> new_settings | Some s \<Rightarrow> s) (apply_steps E c) = Inr (ctx', s)"
  have steps: "apply_steps E c = (base_steps @ [(''idp'', applyIDP), (''idp url'', applyIDPProviderURL)]) @
      [(''idp request params'', applyIDPRequestParams), (''idp secret'', applyIDPSecret)]"
    using assms(2,3) by (simp add: apply_steps_def)
  obtain st1 st2 where p: "applyIDPRequestParams E c st1 = Inr st2" and q: "applyIDPSecret E c st2 = Inr (ctx', s)"
    using run unfolding steps efold_append [of _ _ "base_steps @ _"] by (auto simp: ebind_Inr_iff)
  obtain sec where sec: "pc_IdpSecret c = Some sec"
    "s = (snd st2)\<lparr>st_Idp := (st_Idp (snd st2))\<lparr>id_ClientId := Some (mget_str (sec_data sec) ''client_id''),
       id_ClientSecret := Some (mget_str (sec_data sec) ''client_secret'')\<rparr>\<rparr>"
    "mget_str (sec_data sec) ''client_id'' \<noteq> []" "mget_str (sec_data sec) ''client_secret'' \<noteq> []"
    using applyIDPSecret_Inr [OF q] by auto
  from applyIDPRequestParams_Inr [OF p assms(2,4,5)] sec s show ?thesis by simp
qed

theorem ApplyConfig_idp_witness:
  "\<exists>ctx' cfg s. ApplyConfig ex_settings_env None new_config (Some ex_idp_pom) = Inr (ctx', cfg) \<and>
     cfg_Settings cfg = Some s \<and> id_ClientId (st_Idp s) = Some ''me''"
proof -
  have "\<not> isl (ApplyConfig ex_settings_env None new_config (Some ex_idp_pom))" by code_simp
  then obtain ctx' cfg where run: "ApplyConfig ex_settings_env None new_config (Some ex_idp_pom) = Inr (ctx', cfg)"
    by (auto simp: not_isl_iff)
  from ApplyConfig_idp [OF run, of "\<lparr>ip_Provider = ''oidc'', ip_URL = Some ''https://idp'', ip_Secret = ''pomerium/idp'',
       ip_ServiceAccountFromSecret = None, ip_RequestParams = [(''prompt'', ''login'')], ip_RequestParamsSecret = None, ip_Scopes = [''openid''], ip_RefreshDirectory = None\<rparr>"]
  show ?thesis
    using run by (auto simp: ex_idp_pom_def ex_pom_def pom_of_spec_def ex_settings_env_def wf_map_def mget_str_def deref_str_def)
qed

subsection \<open>Map iteration order shows in the settings\<close>

definition ex_otel_pom :: pom_config where
  "ex_otel_pom = ex_pom\<lparr>pc_Pomerium := pom_of_spec (ex_spec\<lparr>ps_OTEL := Some \<lparr>oc_Endpoint = ''http://otel'', oc_Protocol = ''grpc'',
     oc_Headers = [(''a'', ''1''), (''b'', ''2'')], oc_Timeout = None, oc_Sampling = None, oc_ResourceAttributes = [],
     oc_BSPScheduleDelay = None, oc_BSPMaxExportBatchSize = None, oc_LogLevel = None\<rparr>\<rparr>)\<rparr>"

definition ex_reverse_env :: settings_env where
  "ex_reverse_env = ex_settings_env\<lparr>sv_order := (\<lambda>n. rev [0..<n])\<rparr>"

text \<open>Reconciling unchanged settings can report a change and write the record again: the key-value lists of the tracing
  settings are in the order in which a map happens to be visited.\<close>

theorem settings_spurious_change:
  "\<exists>E E' c st st' st''. permuting (sv_order E) \<and> permuting (sv_order E') \<and>
     SetSettings ex_sync E st (Some c) = Inr (True, st') \<and> SetSettings ex_sync E' st' (Some c) = Inr (True, st'')"
proof -
  have "(case SetSettings ex_sync ex_settings_env [] (Some ex_otel_pom) of
      Inr r1 \<Rightarrow> fst r1 \<and> (case SetSettings ex_sync ex_reverse_env (snd r1) (Some ex_otel_pom) of Inr r2 \<Rightarrow> fst r2 | Inl _ \<Rightarrow> False)
    | Inl _ \<Rightarrow> False)" by code_simp
  then obtain st' st'' where "SetSettings ex_sync ex_settings_env [] (Some ex_otel_pom) = Inr (True, st')"
    "SetSettings ex_sync ex_reverse_env st' (Some ex_otel_pom) = Inr (True, st'')"
    by (auto split: sum.splits)
  moreover have "permuting (sv_order ex_reverse_env)" by (simp add: permuting_def ex_reverse_env_def)
  ultimately show ?thesis using ex_settings_env_order by blast
qed

end
