(* ===== verification/Cert_Provision.thy ===== *)
theory Cert_Provision
  imports Cert_Controller Settings_Sync
begin

text \<open>
  What the certificate controller of \<open>Cert_Controller\<close> achieves: after a reconciliation there is one certificate for
  each missing name and no other, a second reconciliation changes nothing, and the databroker has the issued ones.
\<close>

subsection \<open>The calls of the cluster\<close>

definition same_rest :: "cert_world \<Rightarrow> cert_world \<Rightarrow> bool" where
  "same_rest w w' \<longleftrightarrow> cw_collector w' = cw_collector w \<and> cw_record w' = cw_record w \<and> cw_puts w' = cw_puts w"

lemma same_rest_refl [simp]: "same_rest w w"
  by (simp add: same_rest_def)

lemma same_rest_trans: "same_rest w w1 \<Longrightarrow> same_rest w1 w2 \<Longrightarrow> same_rest w w2"
  by (simp add: same_rest_def)

definition without_keys :: "certificate list \<Rightarrow> cert_world \<Rightarrow> certificate list" where
  "without_keys cs w = filter (\<lambda>c. ct_key c \<notin> ct_key ` set cs) (cw_certs w)"

lemma deleteSecret_frame [simp]:
  "cw_certs (fst (deleteSecret E key w)) = cw_certs w" "cw_collector (fst (deleteSecret E key w)) = cw_collector w"
  "cw_record (fst (deleteSecret E key w)) = cw_record w" "cw_puts (fst (deleteSecret E key w)) = cw_puts w"
  by (simp_all add: deleteSecret_def k8s_delete_secret_def split: option.split)

lemma without_absent: "ct_key cert \<notin> ct_key ` set (cw_certs w) \<Longrightarrow> without_keys [cert] w = cw_certs w"
  unfolding without_keys_def by (auto simp: filter_id_conv) (metis imageI)

lemma deleteCertificate_ok:
  "deleteCertificate E cert w = (w', Inr ()) \<Longrightarrow> cw_certs w' = without_keys [cert] w \<and> same_rest w w'"
  using without_absent [of cert w]
  by (auto simp: deleteCertificate_def k8s_delete_cert_def IsNotFound_def same_rest_def without_keys_def
      split: option.splits if_splits)

lemma without_keys_twice: "cw_certs w1 = without_keys cs w \<Longrightarrow> without_keys cs' w1 = without_keys (cs @ cs') w"
  by (auto simp: without_keys_def image_Un intro: filter_cong)

lemma without_none [simp]: "without_keys [] w = cw_certs w"
  by (simp add: without_keys_def)

lemma issuer_loop:
  "act_fold (issuer_step E issuer) acc cs w = (w', Inr own) \<Longrightarrow>
   own = acc @ filter (for_issuer issuer) cs \<and>
   cw_certs w' = without_keys (filter (\<lambda>c. \<not> for_issuer issuer c) cs) w \<and> same_rest w w'"
proof (induction cs arbitrary: acc w)
  case (Cons c cs)
  show ?case
  proof (cases "for_issuer issuer c")
    case True
    then show ?thesis using Cons.IH [of "acc @ [c]" w] Cons.prems by (simp add: issuer_step_def act_bind_def act_return_def)
  next
    case False
    then obtain w1 where w1: "deleteCertificate E c w = (w1, Inr ())"
        and rest: "act_fold (issuer_step E issuer) acc cs w1 = (w', Inr own)"
      using Cons.prems by (auto simp: issuer_step_def [of E issuer acc c] act_bind_def act_return_def split: prod.splits sum.splits)
    show ?thesis
      using Cons.IH [OF rest] deleteCertificate_ok [OF w1] False
        without_keys_twice [of w1 "[c]" w "filter (\<lambda>c. \<not> for_issuer issuer c) cs"]
      by (auto intro: same_rest_trans)
  qed
qed (simp add: act_return_def)

text \<open>The second loop without its effects: the names left over and the certificates nobody needs.\<close>

fun claims :: "string list \<Rightarrow> certificate list \<Rightarrow> string list \<times> certificate list" where
  "claims names [] = (names, [])"
| "claims names (c # cs) =
     (case claim_names names (ct_DNSNames c) of
        (rest, used) \<Rightarrow> (case claims rest cs of (left, unused) \<Rightarrow> (left, if used then unused else c # unused)))"

lemma used_loop:
  "act_fold (used_step E) names cs w = (w', Inr left) \<Longrightarrow>
   left = fst (claims names cs) \<and> cw_certs w' = without_keys (snd (claims names cs)) w \<and> same_rest w w'"
proof (induction cs arbitrary: names w)
  case (Cons c cs)
  obtain rest used where r: "claim_names names (ct_DNSNames c) = (rest, used)" by fastforce
  show ?case
  proof (cases used)
    case True
    then show ?thesis
      using Cons.IH [of rest w] Cons.prems r by (simp add: used_step_def act_bind_def act_return_def split: prod.splits)
  next
    case False
    then obtain w1 where w1: "deleteCertificate E c w = (w1, Inr ())"
        and rest: "act_fold (used_step E) rest cs w1 = (w', Inr left)"
      using Cons.prems r by (auto simp: used_step_def [of E names c] act_bind_def act_return_def split: prod.splits sum.splits)
    show ?thesis
      using Cons.IH [OF rest] deleteCertificate_ok [OF w1] False r
        without_keys_twice [of w1 "[c]" w "snd (claims rest cs)"]
      by (auto intro: same_rest_trans split: prod.splits)
  qed
qed (simp add: act_return_def)

lemma createCertificate_ok:
  "createCertificate E ns issuer name w = (w', Inr ()) \<Longrightarrow>
   \<exists>k. cw_certs w' = cw_certs w @ [new_certificate k ns issuer name] \<and>
     ct_key (new_certificate k ns issuer name) \<notin> ct_key ` set (cw_certs w) \<and> same_rest w w'"
  by (auto simp: createCertificate_def k8s_create_cert_def Let_def same_rest_def split: option.splits if_splits)

text \<open>The certificates that the third loop adds.\<close>

definition created :: "string \<Rightarrow> issuer_ref \<Rightarrow> string list \<Rightarrow> certificate list \<Rightarrow> bool" where
  "created ns issuer names cs \<longleftrightarrow> list_all2 (\<lambda>n c. \<exists>k. c = new_certificate k ns issuer n) names cs"

lemma create_loop:
  "act_fold (\<lambda>_ name. createCertificate E ns issuer name) () names w = (w', Inr ()) \<Longrightarrow>
   distinct (map ct_key (cw_certs w)) \<Longrightarrow>
   \<exists>cs. cw_certs w' = cw_certs w @ cs \<and> created ns issuer names cs \<and> distinct (map ct_key (cw_certs w')) \<and> same_rest w w'"
proof (induction names arbitrary: w)
  case (Cons n names)
  obtain w1 where w1: "createCertificate E ns issuer n w = (w1, Inr ())"
      and rest: "act_fold (\<lambda>_ name. createCertificate E ns issuer name) () names w1 = (w', Inr ())"
    using Cons.prems(1) by (auto simp: act_bind_def split: prod.splits sum.splits)
  obtain k where k: "cw_certs w1 = cw_certs w @ [new_certificate k ns issuer n]"
      "ct_key (new_certificate k ns issuer n) \<notin> ct_key ` set (cw_certs w)" "same_rest w w1"
    using createCertificate_ok [OF w1] by blast
  then have "distinct (map ct_key (cw_certs w1))" using Cons.prems(2) by simp
  then obtain cs where "cw_certs w' = cw_certs w1 @ cs" "created ns issuer names cs" "distinct (map ct_key (cw_certs w'))"
      "same_rest w1 w'"
    using Cons.IH [OF rest] by blast
  then show ?case
    using k by (intro exI [of _ "new_certificate k ns issuer n # cs"]) (auto simp: created_def intro: same_rest_trans)
qed (simp add: act_return_def created_def)

subsection \<open>One certificate for each name\<close>

definition managed :: "string \<Rightarrow> certificate \<Rightarrow> bool" where
  "managed ns c \<longleftrightarrow> ct_Namespace c = ns \<and> managed_label (ct_Labels c)"

definition one_name :: "string \<Rightarrow> cert_world \<Rightarrow> bool" where
  "one_name ns w \<longleftrightarrow> (\<forall>c \<in> set (managed_certs ns w). \<exists>n. ct_DNSNames c = [n])"

text \<open>The managed certificates are those of the names, one each, all of the issuer.\<close>

definition provisioned :: "string \<Rightarrow> issuer_ref \<Rightarrow> string list \<Rightarrow> cert_world \<Rightarrow> bool" where
  "provisioned ns issuer names w \<longleftrightarrow>
     (\<forall>c \<in> set (managed_certs ns w). for_issuer issuer c) \<and>
     mset (map ct_DNSNames (managed_certs ns w)) = mset (map (\<lambda>n. [n]) (remdups names))"

lemma managed_certs_filter: "managed_certs ns w = filter (managed ns) (cw_certs w)"
  by (simp add: managed_certs_def managed_def [abs_def])

lemma managed_new [simp]: "managed ns (new_certificate k ns issuer n)"
  by (simp add: managed_def new_certificate_def managed_label_def)

lemma new_certificate_simps [simp]:
  "ct_DNSNames (new_certificate k ns issuer n) = [n]" "for_issuer issuer (new_certificate k ns issuer n)"
  by (simp_all add: new_certificate_def for_issuer_def)

lemma created_facts:
  "created ns issuer names cs \<Longrightarrow> map ct_DNSNames cs = map (\<lambda>n. [n]) names \<and>
     (\<forall>c \<in> set cs. managed ns c \<and> for_issuer issuer c \<and> (\<exists>n. ct_DNSNames c = [n]))"
  unfolding created_def by (induction rule: list_all2_induct) auto

lemma claims_subset: "set (snd (claims names cs)) \<subseteq> set cs"
proof (induction cs arbitrary: names)
  case (Cons c cs)
  show ?case using Cons.IH [of "fst (claim_names names (ct_DNSNames c))"] by (auto split: prod.splits)
qed simp

lemma claim_single: "claim_names names [n] = (if n \<in> set names then (removeAll n names, True) else (names, False))"
  by (simp add: claim_names_def)

lemma claims_single:
  assumes "\<forall>c \<in> set cs. \<exists>n. ct_DNSNames c = [n]" "distinct cs" "distinct names"
  shows "mset (map ct_DNSNames (filter (\<lambda>c. c \<notin> set (snd (claims names cs))) cs)) + mset (map (\<lambda>n. [n]) (fst (claims names cs))) =
    mset (map (\<lambda>n. [n]) names)"
  using assms
proof (induction cs arbitrary: names)
  case (Cons c cs)
  obtain n where n: "ct_DNSNames c = [n]" using Cons.prems(1) by auto
  have c: "c \<notin> set (snd (claims xs cs))" for xs using claims_subset [of xs cs] Cons.prems(2) by auto
  show ?case
  proof (cases "n \<in> set names")
    case True
    have "mset (map (\<lambda>n. [n]) names) = add_mset [n] (mset (map (\<lambda>n. [n]) (removeAll n names)))"
      using True distinct_remove1_removeAll [OF Cons.prems(3), of n]
      by (metis (no_types, lifting) image_mset_add_mset insert_DiffM mset_map mset_remove1 set_mset_mset)
    then show ?thesis
      using Cons.IH [of "removeAll n names"] Cons.prems True n c by (simp add: claim_single distinct_removeAll split: prod.splits)
  next
    case False
    obtain xs ds where x: "claims names cs = (xs, ds)" by fastforce
    have "filter (\<lambda>d. d \<noteq> c \<and> d \<notin> set ds) cs = filter (\<lambda>d. d \<notin> set ds) cs"
      using Cons.prems(2) by (auto intro: filter_cong)
    then show ?thesis using Cons.IH [of names] Cons.prems False n x by (simp add: claim_single del: mset_filter)
  qed
qed simp

lemma without_known:
  assumes "distinct (map ct_key (cw_certs w))" "set ds \<subseteq> set (cw_certs w)"
  shows "without_keys ds w = filter (\<lambda>c. c \<notin> set ds) (cw_certs w)"
  unfolding without_keys_def
proof (rule filter_cong [OF refl])
  fix c assume "c \<in> set (cw_certs w)"
  then show "(ct_key c \<notin> ct_key ` set ds) = (c \<notin> set ds)"
    using assms by (auto simp: distinct_map dest: inj_onD)
qed

text \<open>The three loops, without the failures.\<close>

lemma reconcileCertificates_ok:
  assumes "reconcileCertificates E ns issuer (managed_certs ns w) w = (w', Inr ())" "ir_Name issuer \<noteq> []"
    and "distinct (map ct_key (cw_certs w))"
  defines "own \<equiv> filter (for_issuer issuer) (managed_certs ns w)" and "names \<equiv> remdups (coll_MissingNames (cw_collector w'))"
  shows "\<exists>cs. cw_certs w' = filter (\<lambda>c. c \<notin> set (filter (\<lambda>c. \<not> for_issuer issuer c) (managed_certs ns w)) \<union> set (snd (claims names own))) (cw_certs w) @ cs \<and>
      created ns issuer (visit (pe_order E) (fst (claims names own))) cs"
    and "distinct (map ct_key (cw_certs w'))"
    and "coll_Sync (pe_collector E) (pe_sched E) (pe_latest E) (cw_collector w) = (cw_collector w', None)"
    and "cw_record w' = cw_record w \<and> cw_puts w' = cw_puts w"
proof -
  obtain w1 own' where 1: "act_fold (issuer_step E issuer) [] (managed_certs ns w) w = (w1, Inr own')"
      and r1: "act_bind (sync_collector E) (\<lambda>_. act_bind missing_names (provision_names E ns issuer own')) w1 = (w', Inr ())"
    using assms(1,2) unfolding reconcileCertificates_def by (auto elim: act_bind_InrE)
  have own: "own' = own" using issuer_loop [OF 1] by (simp add: own_def)
  obtain w2 where 2: "sync_collector E w1 = (w2, Inr ())"
      and r2: "provision_names E ns issuer own (remdups (coll_MissingNames (cw_collector w2))) w2 = (w', Inr ())"
    using r1 unfolding own by (auto elim!: act_bind_InrE simp: missing_names_def)
  obtain w3 left where 3: "act_fold (used_step E) (remdups (coll_MissingNames (cw_collector w2))) own w2 = (w3, Inr left)"
      and 4: "act_fold (\<lambda>_ name. createCertificate E ns issuer name) () (visit (pe_order E) left) w3 = (w', Inr ())"
    using r2 unfolding provision_names_def by (auto elim: act_bind_InrE)
  let ?no = "filter (\<lambda>c. \<not> for_issuer issuer c) (managed_certs ns w)"
  have s1: "cw_certs w1 = without_keys ?no w" "same_rest w w1" using issuer_loop [OF 1] by auto
  have s2: "cw_certs w2 = cw_certs w1" and sync: "coll_Sync (pe_collector E) (pe_sched E) (pe_latest E) (cw_collector w1) = (cw_collector w2, None)"
    using 2 by (auto simp: sync_collector_def split: prod.splits option.splits)
  have s3: "left = fst (claims (remdups (coll_MissingNames (cw_collector w2))) own)"
      "cw_certs w3 = without_keys (snd (claims (remdups (coll_MissingNames (cw_collector w2))) own)) w2" "same_rest w2 w3"
    using used_loop [OF 3] by auto
  have all: "cw_certs w3 = without_keys (?no @ snd (claims (remdups (coll_MissingNames (cw_collector w2))) own)) w"
    using s3(2) without_keys_twice [of w2 ?no w] s1(1) s2 by simp
  then have "distinct (map ct_key (cw_certs w3))" using assms(3) by (simp add: without_keys_def distinct_map_filter)
  then obtain cs where cs: "cw_certs w' = cw_certs w3 @ cs" "created ns issuer (visit (pe_order E) left) cs"
      "distinct (map ct_key (cw_certs w'))" "same_rest w3 w'"
    using create_loop [OF 4] by blast
  have coll: "cw_collector w' = cw_collector w2" using s3(3) cs(4) by (simp add: same_rest_def)
  then have names: "remdups (coll_MissingNames (cw_collector w2)) = names" by (simp add: names_def)
  have "set (?no @ snd (claims names own)) \<subseteq> set (cw_certs w)"
    using claims_subset [of names own] by (auto simp: own_def managed_certs_filter)
  then have "cw_certs w3 = filter (\<lambda>c. c \<notin> set ?no \<union> set (snd (claims names own))) (cw_certs w)"
    using all without_known [OF assms(3)] names by simp
  then show "\<exists>cs. cw_certs w' = filter (\<lambda>c. c \<notin> set ?no \<union> set (snd (claims names own))) (cw_certs w) @ cs \<and>
      created ns issuer (visit (pe_order E) (fst (claims names own))) cs"
    using cs(1,2) s3(1) names by auto
  show "distinct (map ct_key (cw_certs w'))" by (rule cs(3))
  show "coll_Sync (pe_collector E) (pe_sched E) (pe_latest E) (cw_collector w) = (cw_collector w', None)"
    using sync s1(2) coll by (simp add: same_rest_def)
  have "cw_record w2 = cw_record w1 \<and> cw_puts w2 = cw_puts w1"
    using 2 by (auto simp: sync_collector_def split: prod.splits option.splits)
  then show "cw_record w' = cw_record w \<and> cw_puts w' = cw_puts w" using s1(2) s3(3) cs(4) by (simp add: same_rest_def)
qed

lemma reconcile_provisions:
  assumes "reconcileCertificates E ns issuer (managed_certs ns w) w = (w', Inr ())" "ir_Name issuer \<noteq> []"
    and "distinct (map ct_key (cw_certs w))" "one_name ns w" "permuting (pe_order E)"
  shows "provisioned ns issuer (coll_MissingNames (cw_collector w')) w' \<and>
    distinct (map ct_key (cw_certs w')) \<and> one_name ns w' \<and>
    (\<forall>c. \<not> managed ns c \<longrightarrow> (c \<in> set (cw_certs w') \<longleftrightarrow> c \<in> set (cw_certs w)))"
proof -
  let ?own = "filter (for_issuer issuer) (managed_certs ns w)"
  let ?no = "filter (\<lambda>c. \<not> for_issuer issuer c) (managed_certs ns w)"
  let ?names = "remdups (coll_MissingNames (cw_collector w'))"
  let ?un = "snd (claims ?names ?own)"
  note ok = reconcileCertificates_ok [OF assms(1-3)]
  obtain cs where cs: "cw_certs w' = filter (\<lambda>c. c \<notin> set ?no \<union> set ?un) (cw_certs w) @ cs"
      "created ns issuer (visit (pe_order E) (fst (claims ?names ?own))) cs"
    using ok(1) by blast
  note new = created_facts [OF cs(2)]
  have un: "set ?un \<subseteq> set ?own" by (rule claims_subset)
  have "managed_certs ns w' = filter (\<lambda>c. c \<notin> set ?un) ?own @ cs"
    using new by (auto simp: managed_certs_filter cs(1) filter_id_conv intro: filter_cong)
  then have mg: "managed_certs ns w' = filter (\<lambda>c. c \<notin> set ?un) ?own @ cs" .
  have "distinct ?own" using assms(3) by (simp add: distinct_map managed_certs_filter)
  then have "mset (map ct_DNSNames (filter (\<lambda>c. c \<notin> set ?un) ?own)) + mset (map (\<lambda>n. [n]) (fst (claims ?names ?own))) = mset (map (\<lambda>n. [n]) ?names)"
    using assms(4) by (intro claims_single) (auto simp: one_name_def)
  moreover have "mset (map ct_DNSNames cs) = mset (map (\<lambda>n. [n]) (fst (claims ?names ?own)))"
    using new mset_visit [OF assms(5), of "fst (claims ?names ?own)"] by simp
  ultimately have "provisioned ns issuer (coll_MissingNames (cw_collector w')) w'"
    using new by (auto simp: provisioned_def mg)
  moreover have "one_name ns w'" using new assms(4) by (auto simp: one_name_def mg)
  moreover have "c \<in> set (cw_certs w') \<longleftrightarrow> c \<in> set (cw_certs w)" if "\<not> managed ns c" for c
    using that new un by (auto simp: cs(1) managed_certs_filter)
  ultimately show ?thesis using ok(2) by blast
qed

subsection \<open>Stability\<close>

lemma issuer_loop_keeps: "\<forall>c \<in> set cs. for_issuer issuer c \<Longrightarrow> act_fold (issuer_step E issuer) acc cs w = (w, Inr (acc @ cs))"
  by (induction cs arbitrary: acc) (simp_all add: issuer_step_def act_bind_def act_return_def)

lemma used_loop_keeps:
  "mset (map ct_DNSNames cs) = mset (map (\<lambda>n. [n]) names) \<Longrightarrow> distinct names \<Longrightarrow>
   act_fold (used_step E) names cs w = (w, Inr [])"
proof (induction cs arbitrary: names)
  case (Cons c cs)
  have "ct_DNSNames c \<in># mset (map (\<lambda>n. [n]) names)" using Cons.prems(1) [symmetric] by simp
  then obtain n where n: "ct_DNSNames c = [n]" "n \<in> set names" by auto
  have "mset names = add_mset n (mset (removeAll n names))"
    using n(2) distinct_remove1_removeAll [OF Cons.prems(2), of n] by (metis insert_DiffM mset_remove1 set_mset_mset)
  then have "mset (map ct_DNSNames cs) = mset (map (\<lambda>n. [n]) (removeAll n names))" using Cons.prems(1) n(1) by simp
  then have "act_fold (used_step E) (removeAll n names) cs w = (w, Inr [])"
    using Cons.IH Cons.prems(2) by (simp add: distinct_removeAll)
  then show ?case using n by (simp add: used_step_def [of E names c] claim_single act_bind_def act_return_def)
qed (simp add: act_return_def)

lemma provisioned_stable:
  assumes "provisioned ns issuer (coll_MissingNames (cw_collector w)) w" "ir_Name issuer \<noteq> []"
    and "coll_Sync (pe_collector E) (pe_sched E) (pe_latest E) (cw_collector w) = (cw_collector w, None)"
    and "permuting (pe_order E)"
  shows "reconcileCertificates E ns issuer (managed_certs ns w) w = (w, Inr ())"
proof -
  have "act_fold (issuer_step E issuer) [] (managed_certs ns w) w = (w, Inr (managed_certs ns w))"
    using issuer_loop_keeps [of "managed_certs ns w" issuer E "[]" w] assms(1) by (simp add: provisioned_def)
  moreover have "sync_collector E w = (w, Inr ())" using assms(3) by (simp add: sync_collector_def)
  moreover have "act_fold (used_step E) (remdups (coll_MissingNames (cw_collector w))) (managed_certs ns w) w = (w, Inr [])"
    using used_loop_keeps assms(1) by (simp add: provisioned_def)
  ultimately show ?thesis
    using assms(2,4)
    by (simp add: reconcileCertificates_def act_bind_def missing_names_def provision_names_def visit_Nil act_return_def)
qed

lemma reconcile_again:
  assumes "reconcileCertificates E ns issuer (managed_certs ns w) w = (w', Inr ())" "ir_Name issuer \<noteq> []"
    and "distinct (map ct_key (cw_certs w))" "one_name ns w" "permuting (pe_order E)" "permuting (pe_order E')"
  shows "reconcileCertificates E' ns issuer (managed_certs ns w') w' = (w', Inr ())"
proof -
  have "coll_Sync (pe_collector E) (pe_sched E) (pe_latest E) (cw_collector w) = (cw_collector w', None)"
    by (rule reconcileCertificates_ok(3) [OF assms(1-3)])
  then obtain m where "op_Active (dc_operation (cw_collector w'))" "dc_matcher (cw_collector w') = Some m"
    using coll_Sync_ready by blast
  then have "coll_Sync (pe_collector E') (pe_sched E') (pe_latest E') (cw_collector w') = (cw_collector w', None)"
    by (rule coll_Sync_running)
  then show ?thesis
    using provisioned_stable [OF _ assms(2) _ assms(6)] reconcile_provisions [OF assms(1-5)] by blast
qed

subsection \<open>The configuration of the issued certificates\<close>

text \<open>The certificates of the secrets that have both parts, in the order of the names and uids.\<close>

definition secret_certs :: "secret list \<Rightarrow> settings_certificate list" where
  "secret_certs secrets =
     map (\<lambda>s. \<lparr>sc_Id = [], sc_CertBytes = mget_str (sec_data s) ''tls.crt'', sc_KeyBytes = mget_str (sec_data s) ''tls.key''\<rparr>)
       (filter (\<lambda>s. mget_str (sec_data s) ''tls.crt'' \<noteq> [] \<and> mget_str (sec_data s) ''tls.key'' \<noteq> []) secrets)"

definition certs_config :: "settings_certificate list \<Rightarrow> pb_config" where
  "certs_config cs = (if cs = [] then new_config else new_config\<lparr>cfg_Settings := Some (new_settings\<lparr>st_Certificates := cs\<rparr>)\<rparr>)"

lemma add_secret_cert_config:
  "add_secret_cert (certs_config cs) s = certs_config (cs @ secret_certs [s])"
  by (simp add: add_secret_cert_def certs_config_def secret_certs_def Let_def new_config_def new_settings_def)

lemma secret_certs_Cons: "secret_certs (s # ss) = secret_certs [s] @ secret_certs ss"
  by (simp add: secret_certs_def)

lemma fold_secret_certs: "foldl add_secret_cert (certs_config cs) ss = certs_config (cs @ secret_certs ss)"
proof (induction ss arbitrary: cs)
  case (Cons s ss)
  show ?case
    using Cons.IH [of "cs @ secret_certs [s]"] by (simp add: add_secret_cert_config secret_certs_Cons [of s ss])
qed (simp add: secret_certs_def)

lemma secrets_config_eq: "secrets_config secrets = certs_config (secret_certs (sort_by secret_less secrets))"
  using fold_secret_certs [of "[]"] by (simp add: secrets_config_def certs_config_def)

interpretation secret_order: less_order secret_less
  unfolding secret_less_def by (intro less_order_then_by less_order_by_key)

lemma secrets_config_cong:
  assumes "mset secrets = mset secrets'" "inj_on (\<lambda>s. (om_name (sec_meta s), om_uid (sec_meta s))) (set secrets)"
  shows "secrets_config secrets = secrets_config secrets'"
proof -
  have "secret_less a b \<or> secret_less b a" if "a \<in> set secrets" "b \<in> set secrets" "a \<noteq> b" for a b
  proof -
    have "om_name (sec_meta a) \<noteq> om_name (sec_meta b) \<or> om_uid (sec_meta a) \<noteq> om_uid (sec_meta b)"
      using inj_onD [OF assms(2) _ that(1,2)] that(3) by auto
    then show ?thesis by (auto simp: secret_less_def then_by_def by_key_def neq_iff)
  qed
  then have "secret_order.discriminates (set secrets)" by (simp add: secret_order.discriminates_def)
  then show ?thesis using secret_order.sort_by_cong assms(1) by (simp add: secrets_config_def)
qed

lemma proto_Equal_empty: "proto_Equal cfg new_config \<longleftrightarrow> cfg = new_config"
  by (cases cfg) (auto simp: proto_Equal_def canon_config_def new_config_def)

definition stored_config :: "cert_world \<Rightarrow> message option option" where
  "stored_config w = map_option dr_Data (cw_record w)"

definition config_data :: "pb_config \<Rightarrow> message option option" where
  "config_data cfg = (if cfg = new_config then None else Some (Some (ConfigMsg cfg)))"

lemma upsertConfig_ok:
  assumes "upsertConfig E cfg w = (w', Inr ())" "\<And>r. cw_record w = Some r \<Longrightarrow> dr_DeletedAt r = None"
  shows "stored_config w' = config_data cfg \<and> (\<forall>r. cw_record w' = Some r \<longrightarrow> dr_DeletedAt r = None) \<and>
    cw_puts w' = cw_puts w + (if stored_config w = config_data cfg then 0 else 1) \<and>
    cw_certs w' = cw_certs w \<and> cw_secrets w' = cw_secrets w \<and> cw_collector w' = cw_collector w"
proof (cases "cw_record w")
  case None
  then show ?thesis
    using assms(1)
    by (auto simp: upsertConfig_def db_Get_def write_config_def put_or_def db_Put_def proto_Equal_empty stored_config_def config_data_def
        split: option.splits if_splits)
next
  case (Some r)
  then show ?thesis
    using assms
    by (auto simp: upsertConfig_def db_Get_def write_config_def put_or_def db_Put_def proto_Equal_empty stored_config_def config_data_def
        act_return_def split: option.splits if_splits)
qed

subsection \<open>Properties\<close>

text \<open>C29: C: A reconciliation of the certificates that reports no error leaves, among the managed certificates of the
  namespace, exactly one for each missing name, all of the configured issuer, and touches no other certificate,
  whatever was there before and in whatever order the names come; doing it again changes nothing and succeeds, even
  if every call to the cluster would now fail.\<close>

theorem certificates_provisioned:
  assumes "reconcileCertificates E ns issuer (managed_certs ns w) w = (w', Inr ())" "ir_Name issuer \<noteq> []"
    and "distinct (map ct_key (cw_certs w))" "one_name ns w" "permuting (pe_order E)"
  shows "provisioned ns issuer (coll_MissingNames (cw_collector w')) w' \<and>
    distinct (map ct_key (cw_certs w')) \<and> one_name ns w' \<and>
    (\<forall>c. \<not> managed ns c \<longrightarrow> (c \<in> set (cw_certs w') \<longleftrightarrow> c \<in> set (cw_certs w))) \<and>
    (\<forall>E'. permuting (pe_order E') \<longrightarrow> reconcileCertificates E' ns issuer (managed_certs ns w') w' = (w', Inr ()))"
  using reconcile_provisions [OF assms] reconcile_again [OF assms] by blast

text \<open>C30: C: A whole reconciliation without an error has provisioned the certificates, and the record of the controller in the
  databroker holds exactly the complete certificates among the managed secrets, sorted, or does not exist when there
  are none; the databroker is written only if the record was different.\<close>

theorem provision_reconcile_spec:
  assumes "provision_reconcile cfg E w = (w', [])" "provision_target cfg E = Inr (ns, issuer)" "ir_Name issuer \<noteq> []"
    and "distinct (map ct_key (cw_certs w))" "one_name ns w" "permuting (pe_order E)"
    and "\<And>r. cw_record w = Some r \<Longrightarrow> dr_DeletedAt r = None"
  shows "provisioned ns issuer (coll_MissingNames (cw_collector w')) w' \<and>
    stored_config w' = config_data (certs_config (secret_certs (sort_by secret_less (managed_secrets ns w)))) \<and>
    cw_puts w' = cw_puts w + (if stored_config w = stored_config w' then 0 else 1)"
proof -
  obtain w1 where 1: "reconcileCertificates E ns issuer (managed_certs ns w) w = (w1, Inr ())"
      and 2: "reconcileSecrets E (managed_secrets ns w) w1 = (w', Inr ())"
    using assms(1,2) by (auto simp: provision_reconcile_def Let_def error_list_def split: option.splits prod.splits sum.splits)
  have p: "provisioned ns issuer (coll_MissingNames (cw_collector w1)) w1"
    using reconcile_provisions [OF 1 assms(3-6)] by blast
  have same: "cw_record w1 = cw_record w" "cw_puts w1 = cw_puts w" using reconcileCertificates_ok(4) [OF 1 assms(3,4)] by auto
  have up: "upsertConfig E (secrets_config (managed_secrets ns w)) w1 = (w', Inr ())" using 2 by (simp add: reconcileSecrets_def)
  have u: "stored_config w' = config_data (secrets_config (managed_secrets ns w))"
      "cw_puts w' = cw_puts w1 + (if stored_config w1 = config_data (secrets_config (managed_secrets ns w)) then 0 else 1)"
      "cw_certs w' = cw_certs w1" "cw_collector w' = cw_collector w1"
    using upsertConfig_ok [OF up] assms(7) same(1) by auto
  have "provisioned ns issuer (coll_MissingNames (cw_collector w')) w'"
    using p u(3,4) by (simp add: provisioned_def managed_certs_filter)
  then show ?thesis using u(1,2) same by (simp add: stored_config_def [of w] stored_config_def [of w1] secrets_config_eq)
qed

subsection \<open>An example\<close>

definition ex_issuer :: issuer_ref where
  "ex_issuer = \<lparr>ir_Kind = ''ClusterIssuer'', ir_Name = ''letsencrypt''\<rparr>"

definition ex_provision_env :: "(record_kind \<Rightarrow> latest_response stream) \<Rightarrow> provision_env" where
  "ex_provision_env latest = \<lparr>pe_collector = ex_collector_env, pe_sched = [1, 0, 3], pe_latest = latest,
     pe_settings = (\<lambda>_. Inr (pom_of_spec (ex_spec\<lparr>ps_CertificateAutoProvision := Some \<lparr>ca_ClusterIssuer = Some ''letsencrypt'', ca_Issuer = None\<rparr>\<rparr>))),
     pe_pod_namespace = Some ''pomerium '', pe_list_certs = None, pe_list_secrets = None, pe_delete_cert = (\<lambda>_. None), pe_delete_secret = (\<lambda>_. None),
     pe_create = (\<lambda>_. None), pe_rand_String = show_nat, pe_order = (\<lambda>n. rev [0..<n]), pe_get = None, pe_put = None, pe_now = 1\<rparr>"

definition ex_tls_secret :: "string \<Rightarrow> secret" where
  "ex_tls_secret name = \<lparr>sec_meta = (new_meta ''Secret'' ''pomerium'' name)\<lparr>om_labels := [(managedByLabelName, managedByLabelValue)]\<rparr>,
     sec_type = SecretTypeTLS, sec_data = [(''tls.crt'', ''cert''), (''tls.key'', ''key'')]\<rparr>"

definition ex_cert_world :: cert_world where
  "ex_cert_world = \<lparr>cw_certs = [new_certificate ''x'' ''pomerium'' ex_issuer ''gone.example.com'',
       new_certificate ''y'' ''pomerium'' (ex_issuer\<lparr>ir_Name := ''other''\<rparr>) ''b.example.com'',
       new_certificate ''z'' ''default'' ex_issuer ''z.example.com''],
     cw_secrets = [ex_tls_secret ''y'', ex_tls_secret ''x''], cw_record = None, cw_collector = newDataBrokerCollector, cw_rand = 0, cw_puts = 0\<rparr>"

definition ex_config :: controllerConfig where
  "ex_config = getControllerConfig [WithGlobalSettingsName (NamespacedName [] ''global'')]"

abbreviation ex_ok_env :: provision_env where
  "ex_ok_env \<equiv> ex_provision_env (\<lambda>k. Inr (ex_latest k, StreamEOF))"

lemma ex_order: "permuting (pe_order (ex_provision_env latest))"
  by (simp add: permuting_def ex_provision_env_def)

lemma ex_world_ok: "distinct (map ct_key (cw_certs ex_cert_world))" "one_name ''pomerium'' ex_cert_world" "ir_Name ex_issuer \<noteq> []"
  by (simp_all add: ex_cert_world_def ct_key_def new_certificate_def one_name_def managed_certs_def ex_issuer_def)

theorem certificates_provisioned_witness:
  "snd (reconcileCertificates ex_ok_env ''pomerium'' ex_issuer (managed_certs ''pomerium'' ex_cert_world) ex_cert_world) = Inr () \<and>
   map ct_DNSNames (managed_certs ''pomerium''
     (fst (reconcileCertificates ex_ok_env ''pomerium'' ex_issuer (managed_certs ''pomerium'' ex_cert_world) ex_cert_world))) = [[''b.example.com'']] \<and>
   one_name ''pomerium'' (fst (reconcileCertificates ex_ok_env ''pomerium'' ex_issuer (managed_certs ''pomerium'' ex_cert_world) ex_cert_world))"
proof -
  let ?r = "reconcileCertificates ex_ok_env ''pomerium'' ex_issuer (managed_certs ''pomerium'' ex_cert_world) ex_cert_world"
  have ok: "snd ?r = Inr ()" by code_simp
  have m: "map ct_DNSNames (managed_certs ''pomerium'' (fst ?r)) = [[''b.example.com'']]" by code_simp
  have "?r = (fst ?r, Inr ())" using ok by (simp add: prod_eq_iff)
  then have "one_name ''pomerium'' (fst ?r)"
    using certificates_provisioned [OF _ ex_world_ok(3,1,2) ex_order] by blast
  then show ?thesis using ok m by blast
qed

theorem provision_reconcile_spec_witness:
  "snd (provision_reconcile ex_config ex_ok_env ex_cert_world) = [] \<and>
   provision_target ex_config ex_ok_env = Inr (''pomerium'', ex_issuer) \<and>
   provisioned ''pomerium'' ex_issuer (coll_MissingNames (cw_collector (fst (provision_reconcile ex_config ex_ok_env ex_cert_world))))
     (fst (provision_reconcile ex_config ex_ok_env ex_cert_world)) \<and>
   cw_puts (fst (provision_reconcile ex_config ex_ok_env ex_cert_world)) = 1"
proof -
  let ?r = "provision_reconcile ex_config ex_ok_env ex_cert_world"
  have ok: "snd ?r = []" by code_simp
  have t: "provision_target ex_config ex_ok_env = Inr (''pomerium'', ex_issuer)" by code_simp
  have n: "cw_puts (fst ?r) = 1" by code_simp
  have "?r = (fst ?r, [])" using ok by (simp add: prod_eq_iff)
  then have "provisioned ''pomerium'' ex_issuer (coll_MissingNames (cw_collector (fst ?r))) (fst ?r)"
    using provision_reconcile_spec [OF _ t ex_world_ok(3,1,2) ex_order] by (simp add: ex_cert_world_def)
  then show ?thesis using ok t n by blast
qed

text \<open>The first synchronisation fails because the routes cannot be read; the next reconciliation reports success, and
  deletes the certificate that a route needs, with its secret.\<close>

definition ex_failing :: "record_kind \<Rightarrow> latest_response stream" where
  "ex_failing k = (if k = RouteRecords then Inr ([], StreamError (DbOther ''unavailable'')) else Inr (ex_latest k, StreamEOF))"

definition ex_good_world :: cert_world where
  "ex_good_world = ex_cert_world\<lparr>cw_certs := [new_certificate ''x'' ''pomerium'' ex_issuer ''b.example.com''], cw_secrets := [ex_tls_secret ''x'']\<rparr>"

theorem failed_sync_deletes_certificates:
  "let (w1, e1) = provision_reconcile ex_config (ex_provision_env ex_failing) ex_good_world;
       (w2, e2) = provision_reconcile ex_config ex_ok_env w1
   in e1 = [ProvSync (ErrRecvLatest RouteRecords (DbOther ''unavailable''))] \<and> cw_certs w1 = cw_certs ex_good_world \<and>
      e2 = [] \<and> cw_certs w2 = [] \<and> cw_secrets w2 = []"
  by code_simp

end
