(* ===== verification/Gateway_Types.thy ===== *)
theory Gateway_Types
  imports K8s_Types Pb_Types Policy_Language
begin

text \<open>
  The Gateway API objects the controller reads and whose status it writes, with the fields its code uses, and
  what the gateway code needs from outside the repository: the record \<open>gateway_env\<close>. A pointer that the
  code follows without a check is an \<open>option\<close>, and following nil is the error \<open>Panic\<close>.
\<close>

subsection \<open>Errors and the environment\<close>

datatype gw_error =
    Panic
  | ErrList string
  | ErrUpdateStatus string
  | ErrFilterUnsupported string
  | ErrFilterGroup string
  | ErrFilterNotFound string
  | ErrFilterDeleted

text \<open>A label selector (\<^verbatim>\<open>metav1.LabelSelector\<close>); its meaning is a function of the environment.\<close>

record label_selector =
  ls_matchLabels :: "(string, string) gomap"
  ls_matchExpressions :: "(string \<times> string \<times> string list) list"

text \<open>
  \<open>ge_order n\<close> is the order in which a \<^verbatim>\<open>range\<close> loop visits a map (or a set is listed) with \<open>n\<close> entries; Go
  leaves it open, so the lemmas assume only that it is a permutation (\<open>fair_order\<close>). \<open>ge_now\<close> is the clock
  during one reconciliation, \<open>ge_selector\<close> is \<^verbatim>\<open>LabelSelectorAsSelector\<close> (\<open>None\<close> for an error), \<open>ge_keypair_ok\<close>
  tells whether \<^verbatim>\<open>tls.X509KeyPair\<close> accepts a certificate and a key, \<open>ge_update_ok\<close> whether the API server
  accepts the status update of an object of that kind and name, \<open>ge_route_ok\<close> whether Pomerium's own
  route type accepts a route (\<^verbatim>\<open>NewPolicyFromProto\<close> and \<^verbatim>\<open>Validate\<close>).
\<close>

record gateway_env =
  ge_order :: "nat \<Rightarrow> nat list"
  ge_now :: int
  ge_selector :: "label_selector option \<Rightarrow> ((string, string) gomap \<Rightarrow> bool) option"
  ge_keypair_ok :: "string \<Rightarrow> string \<Rightarrow> bool"
  ge_update_ok :: "string \<Rightarrow> namespaced_name \<Rightarrow> bool"
  ge_policy :: policy_env
  ge_slug :: "string \<Rightarrow> string"
  ge_route_ok :: "pb_route \<Rightarrow> bool"

definition fair_order :: "gateway_env \<Rightarrow> bool" where
  "fair_order G \<longleftrightarrow> permuting (ge_order G)"

definition go_range :: "gateway_env \<Rightarrow> 'a list \<Rightarrow> 'a list" where
  "go_range G xs = visit (ge_order G) xs"

lemma mset_go_range: "fair_order G \<Longrightarrow> mset (go_range G xs) = mset xs"
  by (simp add: fair_order_def go_range_def mset_visit)

lemma set_go_range [simp]: "fair_order G \<Longrightarrow> set (go_range G xs) = set xs"
  by (simp add: fair_order_def go_range_def)

lemma go_range_Nil_iff [simp]: "fair_order G \<Longrightarrow> go_range G xs = [] \<longleftrightarrow> xs = []"
  by (simp add: fair_order_def go_range_def)

subsection \<open>Status conditions\<close>

record condition =
  cd_Type :: string
  cd_Status :: bool
  cd_ObservedGeneration :: int
  cd_LastTransitionTime :: int
  cd_Reason :: string
  cd_Message :: string

text \<open>A condition literal of the source: type, status, reason and message.\<close>

definition mk_condition :: "string \<Rightarrow> bool \<Rightarrow> string \<Rightarrow> string \<Rightarrow> condition" where
  "mk_condition t s r m = \<lparr>cd_Type = t, cd_Status = s, cd_ObservedGeneration = 0, cd_LastTransitionTime = 0,
     cd_Reason = r, cd_Message = m\<rparr>"

subsection \<open>References\<close>

record parent_ref =
  pr_Group :: "string option"
  pr_Kind :: "string option"
  pr_Namespace :: "string option"
  pr_Name :: string
  pr_SectionName :: "string option"
  pr_Port :: "int option"

record secret_ref =
  sr_Group :: "string option"
  sr_Kind :: "string option"
  sr_Namespace :: "string option"
  sr_Name :: string

record backend_ref =
  br_Group :: "string option"
  br_Kind :: "string option"
  br_Namespace :: "string option"
  br_Name :: string
  br_Port :: "int option"
  br_Weight :: "int option"

record local_ref =
  lr_Group :: string
  lr_Kind :: string
  lr_Name :: string

record grant_from =
  gf_Group :: string
  gf_Kind :: string
  gf_Namespace :: string

record grant_to =
  gt_Group :: string
  gt_Kind :: string
  gt_Name :: "string option"

record reference_grant =
  rg_meta :: object_meta
  rg_From :: "grant_from list"
  rg_To :: "grant_to list"

subsection \<open>HTTP routes\<close>

record header_filter =
  hf_Set :: "(string \<times> string) list"
  hf_Remove :: "string list"

record redirect_filter =
  rf_Scheme :: "string option"
  rf_Hostname :: "string option"
  rf_Port :: "int option"
  rf_StatusCode :: "int option"

text \<open>The filter types the code distinguishes; the API makes the field of the type present.\<close>

datatype route_filter =
    RequestHeaderModifier header_filter
  | RequestRedirect redirect_filter
  | ExtensionRef local_ref
  | OtherFilter string

record http_backend_ref =
  hb_ref :: backend_ref
  hb_Filters :: "route_filter list"

datatype path_match_type = PathMatchExact | PathMatchPathPrefix | PathMatchRegularExpression | PathMatchOther string

record path_match =
  pm_Type :: "path_match_type option"
  pm_Value :: "string option"

record route_match =
  rm_Path :: "path_match option"
  rm_Headers :: "(string \<times> string) list"
  rm_QueryParams :: "(string \<times> string) list"
  rm_Method :: "string option"

record http_route_rule =
  hr_Matches :: "route_match list"
  hr_Filters :: "route_filter list"
  hr_BackendRefs :: "http_backend_ref list"

record route_parent_status =
  rp_ParentRef :: parent_ref
  rp_ControllerName :: string
  rp_Conditions :: "condition list"

record http_route =
  rt_meta :: object_meta
  rt_ParentRefs :: "parent_ref list"
  rt_Hostnames :: "string list"
  rt_Rules :: "http_route_rule list"
  rt_Parents :: "route_parent_status list"

subsection \<open>Gateways\<close>

datatype from_namespaces = NamespacesFromAll | NamespacesFromSame | NamespacesFromSelector | NamespacesFromOther string

record route_namespaces =
  rn_From :: "from_namespaces option"
  rn_Selector :: "label_selector option"

record route_group_kind =
  gk_Group :: "string option"
  gk_Kind :: string

record allowed_routes =
  ar_Namespaces :: "route_namespaces option"
  ar_Kinds :: "route_group_kind list"

record listener =
  li_Name :: string
  li_Hostname :: "string option"
  li_TLS :: "secret_ref list option"
  li_AllowedRoutes :: "allowed_routes option"

text \<open>\<open>li_TLS\<close>: the TLS pointer with its certificate references.\<close>

record listener_status =
  lt_Name :: string
  lt_SupportedKinds :: "route_group_kind list"
  lt_AttachedRoutes :: int
  lt_Conditions :: "condition list"

definition new_listener_status :: listener_status where
  "new_listener_status = \<lparr>lt_Name = [], lt_SupportedKinds = [], lt_AttachedRoutes = 0, lt_Conditions = []\<rparr>"

datatype gateway_address = IPAddress string | HostnameAddress string

record gateway =
  gw_meta :: object_meta
  gw_ClassName :: string
  gw_Listeners :: "listener list"
  gw_StatusListeners :: "listener_status list"
  gw_Addresses :: "gateway_address list"
  gw_Conditions :: "condition list"

record gateway_class =
  gc_meta :: object_meta
  gc_ControllerName :: string
  gc_Conditions :: "condition list"

record policy_filter_obj =
  pf_meta :: object_meta
  pf_PPL :: string
  pf_Conditions :: "condition list"

record namespace_obj =
  ns_meta :: object_meta

definition GatewayGroupName :: string where "GatewayGroupName = ''gateway.networking.k8s.io''"
definition CoreGroupName :: string where "CoreGroupName = []"
definition PolicyFilterGroup :: string where "PolicyFilterGroup = ''gateway.pomerium.io''"

end
