(* ===== verification/Reference_Grants.thy ===== *)
theory Reference_Grants
  imports Gateway_Types
begin

text \<open>
  \<^verbatim>\<open>controllers/gateway/refkey.go\<close> and \<^verbatim>\<open>referencegrant.go\<close>: references with their defaults made explicit, and the
  map of all ReferenceGrants that decides whether an object may refer to another one across namespaces.
  A Go set is a list without duplicates.
\<close>

record ref_key =
  rk_Group :: string
  rk_Kind :: string
  rk_Namespace :: string
  rk_Name :: string

definition refKeyForObject :: "object_meta \<Rightarrow> ref_key" where
  "refKeyForObject obj =
     \<lparr>rk_Group = om_group obj, rk_Kind = om_kind obj, rk_Namespace = om_namespace obj, rk_Name = om_name obj\<rparr>"

definition opt_default :: "'a \<Rightarrow> 'a option \<Rightarrow> 'a" where
  "opt_default d p = (case p of None \<Rightarrow> d | Some x \<Rightarrow> x)"

definition refKeyForParentRef :: "object_meta \<Rightarrow> parent_ref \<Rightarrow> ref_key" where
  "refKeyForParentRef obj ref =
     \<lparr>rk_Group = opt_default GatewayGroupName (pr_Group ref), rk_Kind = opt_default ''Gateway'' (pr_Kind ref),
      rk_Namespace = opt_default (om_namespace obj) (pr_Namespace ref), rk_Name = pr_Name ref\<rparr>"

definition refKeyForCertificateRef :: "object_meta \<Rightarrow> secret_ref \<Rightarrow> ref_key" where
  "refKeyForCertificateRef obj ref =
     \<lparr>rk_Group = opt_default CoreGroupName (sr_Group ref), rk_Kind = opt_default ''Secret'' (sr_Kind ref),
      rk_Namespace = opt_default (om_namespace obj) (sr_Namespace ref), rk_Name = sr_Name ref\<rparr>"

definition refKeyForBackendRef :: "object_meta \<Rightarrow> backend_ref \<Rightarrow> ref_key" where
  "refKeyForBackendRef obj ref =
     \<lparr>rk_Group = opt_default CoreGroupName (br_Group ref), rk_Kind = opt_default ''Service'' (br_Kind ref),
      rk_Namespace = opt_default (om_namespace obj) (br_Namespace ref), rk_Name = br_Name ref\<rparr>"

definition refKeyForReferenceGrantFrom :: "grant_from \<Rightarrow> ref_key" where
  "refKeyForReferenceGrantFrom fr =
     \<lparr>rk_Group = gf_Group fr, rk_Kind = gf_Kind fr, rk_Namespace = gf_Namespace fr, rk_Name = []\<rparr>"

definition refKeyForReferenceGrantTo :: "string \<Rightarrow> grant_to \<Rightarrow> ref_key" where
  "refKeyForReferenceGrantTo namespace to =
     \<lparr>rk_Group = gt_Group to, rk_Kind = gt_Kind to, rk_Namespace = namespace, rk_Name = deref_str (gt_Name to)\<rparr>"

subsection \<open>The map of grants\<close>

type_synonym reference_grant_map = "(ref_key, ref_key list) gomap"

definition safeUnion :: "'a list option \<Rightarrow> 'a list option \<Rightarrow> 'a list option" where
  "safeUnion a b = (case (a, b) of (None, _) \<Rightarrow> b | (Some _, None) \<Rightarrow> a | (Some x, Some y) \<Rightarrow> Some (List.union x y))"

text \<open>\<^verbatim>\<open>m[k] = safeUnion(m[k], sourceSet)\<close>, where the set of sources is never nil.\<close>

definition grant_to_step :: "string \<Rightarrow> ref_key list \<Rightarrow> reference_grant_map \<Rightarrow> grant_to \<Rightarrow> reference_grant_map" where
  "grant_to_step namespace sourceSet m to =
     (let k = refKeyForReferenceGrantTo namespace to
      in case safeUnion (map_of m k) (Some sourceSet) of None \<Rightarrow> m | Some s \<Rightarrow> AList.update k s m)"

definition grant_step :: "reference_grant_map \<Rightarrow> reference_grant \<Rightarrow> reference_grant_map" where
  "grant_step m g =
     (let sourceSet = remdups (map refKeyForReferenceGrantFrom (rg_From g))
      in foldl (grant_to_step (om_namespace (rg_meta g)) sourceSet) m (rg_To g))"

definition buildReferenceGrantMap :: "reference_grant list \<Rightarrow> reference_grant_map" where
  "buildReferenceGrantMap grants = foldl grant_step [] grants"

definition set_has :: "reference_grant_map \<Rightarrow> ref_key \<Rightarrow> ref_key \<Rightarrow> bool" where
  "set_has m k x = (case map_of m k of None \<Rightarrow> False | Some s \<Rightarrow> x \<in> set s)"

definition allowed :: "reference_grant_map \<Rightarrow> object_meta \<Rightarrow> ref_key \<Rightarrow> bool" where
  "allowed m from toKey =
     (if om_namespace from = rk_Namespace toKey then True
      else let fromKey = (refKeyForObject from)\<lparr>rk_Name := []\<rparr>
      in if set_has m toKey fromKey then True
      else set_has m (toKey\<lparr>rk_Name := []\<rparr>) fromKey)"

subsection \<open>What a grant permits\<close>

text \<open>The specification of the Gateway API: a grant in the target's namespace lists the source by group, kind
  and namespace, and the target by group and kind, for one name or for every name.\<close>

definition grant_permits :: "reference_grant \<Rightarrow> object_meta \<Rightarrow> ref_key \<Rightarrow> bool" where
  "grant_permits g from to \<longleftrightarrow>
     om_namespace (rg_meta g) = rk_Namespace to \<and>
     (\<exists>f \<in> set (rg_From g). gf_Group f = om_group from \<and> gf_Kind f = om_kind from \<and> gf_Namespace f = om_namespace from) \<and>
     (\<exists>t \<in> set (rg_To g). gt_Group t = rk_Group to \<and> gt_Kind t = rk_Kind to \<and>
        (deref_str (gt_Name t) = [] \<or> deref_str (gt_Name t) = rk_Name to))"

lemma set_has_to_step:
  "set_has (grant_to_step ns src m t) k x \<longleftrightarrow> set_has m k x \<or> k = refKeyForReferenceGrantTo ns t \<and> x \<in> set src"
  by (auto simp: set_has_def grant_to_step_def safeUnion_def Let_def gomap_simps split: option.splits)

lemma set_has_to_steps:
  "set_has (foldl (grant_to_step ns src) m ts) k x \<longleftrightarrow>
     set_has m k x \<or> (\<exists>t \<in> set ts. k = refKeyForReferenceGrantTo ns t) \<and> x \<in> set src"
  by (induction ts arbitrary: m) (auto simp: set_has_to_step)

lemma set_has_build:
  "set_has (foldl grant_step m gs) k x \<longleftrightarrow>
     set_has m k x \<or> (\<exists>g \<in> set gs. (\<exists>t \<in> set (rg_To g). k = refKeyForReferenceGrantTo (om_namespace (rg_meta g)) t) \<and>
       x \<in> refKeyForReferenceGrantFrom ` set (rg_From g))"
  by (induction gs arbitrary: m) (auto simp: grant_step_def Let_def set_has_to_steps)

lemma refKeyTo_eq:
  "k = refKeyForReferenceGrantTo ns t \<longleftrightarrow>
     rk_Group k = gt_Group t \<and> rk_Kind k = gt_Kind t \<and> rk_Namespace k = ns \<and> rk_Name k = deref_str (gt_Name t)"
  by (cases k) (auto simp: refKeyForReferenceGrantTo_def)

lemma refKeyFrom_mem:
  "(refKeyForObject from)\<lparr>rk_Name := []\<rparr> \<in> refKeyForReferenceGrantFrom ` S \<longleftrightarrow>
     (\<exists>f \<in> S. gf_Group f = om_group from \<and> gf_Kind f = om_kind from \<and> gf_Namespace f = om_namespace from)"
  by (simp add: refKeyForObject_def refKeyForReferenceGrantFrom_def image_iff) metis

lemma allowed_granted:
  "allowed (buildReferenceGrantMap grants) from to \<longleftrightarrow>
     om_namespace from = rk_Namespace to \<or> (\<exists>g \<in> set grants. grant_permits g from to)"
proof -
  let ?fk = "(refKeyForObject from)\<lparr>rk_Name := []\<rparr>"
  have has: "set_has (buildReferenceGrantMap grants) k ?fk \<longleftrightarrow>
      (\<exists>g \<in> set grants. (\<exists>t \<in> set (rg_To g). k = refKeyForReferenceGrantTo (om_namespace (rg_meta g)) t) \<and>
        ?fk \<in> refKeyForReferenceGrantFrom ` set (rg_From g))" for k
    unfolding buildReferenceGrantMap_def by (simp add: set_has_build) (simp add: set_has_def)
  have "(\<exists>g \<in> set grants. grant_permits g from to) \<longleftrightarrow>
      set_has (buildReferenceGrantMap grants) to ?fk \<or>
      set_has (buildReferenceGrantMap grants) (to\<lparr>rk_Name := []\<rparr>) ?fk"
    unfolding has refKeyTo_eq refKeyFrom_mem grant_permits_def by auto metis+
  then show ?thesis by (auto simp: allowed_def Let_def)
qed

text \<open>A reference is allowed exactly when it stays in the namespace of its source or some ReferenceGrant
  permits it: a cross-namespace reference without a matching grant is refused, and no grant is lost when
  several of them name the same target.\<close>

theorem allowed_iff_granted:
  "allowed (buildReferenceGrantMap grants) from to \<longleftrightarrow>
     om_namespace from = rk_Namespace to \<or> (\<exists>g \<in> set grants. grant_permits g from to)"
  by (rule allowed_granted)

end
