(* ===== verification/Gateway_Conditions.thy ===== *)
theory Gateway_Conditions
  imports Gateway_Types
begin

text \<open>
  \<^verbatim>\<open>controllers/gateway/conditions.go\<close> and the GatewayClass controller (\<^verbatim>\<open>gatewayclass.go\<close>): how status conditions are
  written. A function that changes a slice through a pointer returns the new slice beside the result.
\<close>

definition same_condition :: "condition \<Rightarrow> condition \<Rightarrow> bool" where
  "same_condition a b \<longleftrightarrow> cd_ObservedGeneration a = cd_ObservedGeneration b \<and> cd_Status a = cd_Status b \<and>
     cd_Reason a = cd_Reason b \<and> cd_Message a = cd_Message b"

text \<open>The loop over the existing conditions; the end of the list is the append.\<close>

fun upsert_loop :: "condition list \<Rightarrow> condition \<Rightarrow> condition list \<times> bool" where
  "upsert_loop [] c = ([c], True)"
| "upsert_loop (x # xs) c =
     (if cd_Type x = cd_Type c
      then (if same_condition x c then (x # xs, False) else (c # xs, True))
      else (case upsert_loop xs c of (ys, b) \<Rightarrow> (x # ys, b)))"

definition upsertCondition :: "gateway_env \<Rightarrow> condition list \<Rightarrow> int \<Rightarrow> condition \<Rightarrow> condition list \<times> bool" where
  "upsertCondition G conds observedGeneration c =
     upsert_loop conds (c\<lparr>cd_ObservedGeneration := observedGeneration, cd_LastTransitionTime := ge_now G\<rparr>)"

definition upsertConditions :: "gateway_env \<Rightarrow> condition list \<Rightarrow> int \<Rightarrow> condition list \<Rightarrow> condition list \<times> bool" where
  "upsertConditions G conds observedGeneration cs =
     foldl (\<lambda>(conds, modified) c.
       case upsertCondition G conds observedGeneration c of (conds', b) \<Rightarrow> (conds', modified \<or> b)) (conds, False) cs"

subsection \<open>The GatewayClass controller\<close>

definition setGatewayClassAccepted :: "gateway_env \<Rightarrow> gateway_class \<Rightarrow> gateway_class \<times> bool" where
  "setGatewayClassAccepted G gc =
     (case upsertCondition G (gc_Conditions gc) (om_generation (gc_meta gc)) (mk_condition ''Accepted'' True ''Accepted'' []) of
        (conds, b) \<Rightarrow> (gc\<lparr>gc_Conditions := conds\<rparr>, b))"

text \<open>\<^verbatim>\<open>Reconcile\<close>: the fetched class (\<open>None\<close> when the read fails), and the status that is written, if any.\<close>

definition gatewayClass_Reconcile ::
  "gateway_env \<Rightarrow> string \<Rightarrow> gateway_class option \<Rightarrow> gw_error + gateway_class option" where
  "gatewayClass_Reconcile G controllerName got =
     (case got of
        None \<Rightarrow> Inl (ErrList ''GatewayClass'')
      | Some gc \<Rightarrow>
          if gc_ControllerName gc \<noteq> controllerName then Inr None
          else (case setGatewayClassAccepted G gc of
                  (gc', b) \<Rightarrow>
                    if b then (if ge_update_ok G ''GatewayClass'' (GetNamespacedName (gc_meta gc)) then Inr (Some gc')
                               else Inl (ErrUpdateStatus (om_name (gc_meta gc))))
                    else Inr None))"

subsection \<open>Lemmas\<close>

text \<open>The condition of a type, as clients read it: the first one.\<close>

definition find_condition :: "condition list \<Rightarrow> string \<Rightarrow> condition option" where
  "find_condition cs t = find (\<lambda>c. cd_Type c = t) cs"

definition distinct_types :: "condition list \<Rightarrow> bool" where
  "distinct_types cs \<longleftrightarrow> distinct (map cd_Type cs)"

lemma upsert_loop_find:
  "upsert_loop cs c = (cs', b) \<Longrightarrow>
     find_condition cs' t =
       (if t = cd_Type c
        then (case find_condition cs t of Some x \<Rightarrow> Some (if same_condition x c then x else c) | None \<Rightarrow> Some c)
        else find_condition cs t)"
  by (induction cs arbitrary: cs' b) (auto simp: find_condition_def split: if_splits prod.splits option.splits)

lemma upsert_loop_unchanged: "upsert_loop cs c = (cs', False) \<Longrightarrow> cs' = cs"
  by (induction cs arbitrary: cs') (auto split: if_splits prod.splits)

lemma upsert_loop_modified:
  "upsert_loop cs c = (cs', b) \<Longrightarrow> b \<longleftrightarrow> \<not> (\<exists>x. find_condition cs (cd_Type c) = Some x \<and> same_condition x c)"
  by (induction cs arbitrary: cs' b) (auto simp: find_condition_def split: if_splits prod.splits)

lemma upsert_loop_types:
  "upsert_loop cs c = (cs', b) \<Longrightarrow>
     map cd_Type cs' = map cd_Type cs @ (if cd_Type c \<in> cd_Type ` set cs then [] else [cd_Type c])"
  by (induction cs arbitrary: cs' b) (auto split: if_splits prod.splits)

lemma upsertCondition_types:
  "upsertCondition G cs g c = (cs', b) \<Longrightarrow> distinct_types cs \<Longrightarrow> distinct_types cs'"
  unfolding upsertCondition_def distinct_types_def
  by (drule upsert_loop_types) (auto simp: image_iff)

lemma upsertCondition_find_same:
  "upsertCondition G cs g c = (cs', b) \<Longrightarrow>
     \<exists>x. find_condition cs' (cd_Type c) = Some x \<and> cd_Status x = cd_Status c \<and> cd_Reason x = cd_Reason c \<and>
       cd_Message x = cd_Message c \<and> cd_ObservedGeneration x = g"
  unfolding upsertCondition_def
  by (drule upsert_loop_find [where t = "cd_Type c"]) (auto simp: same_condition_def split: option.splits if_splits)

lemma upsertCondition_find_other:
  "upsertCondition G cs g c = (cs', b) \<Longrightarrow> t \<noteq> cd_Type c \<Longrightarrow> find_condition cs' t = find_condition cs t"
  unfolding upsertCondition_def by (drule upsert_loop_find [where t = t]) simp

lemma upsertCondition_unchanged: "upsertCondition G cs g c = (cs', m) \<Longrightarrow> \<not> m \<Longrightarrow> cs' = cs"
  by (simp add: upsertCondition_def upsert_loop_unchanged)

lemma upsertCondition_again:
  assumes "upsertCondition G cs g c = (cs', modified)"
  shows "upsertCondition (G\<lparr>ge_now := later\<rparr>) cs' g c = (cs', False)"
proof -
  let ?c = "c\<lparr>cd_ObservedGeneration := g, cd_LastTransitionTime := later\<rparr>"
  obtain x where x: "find_condition cs' (cd_Type c) = Some x" "same_condition x ?c"
    using upsertCondition_find_same [OF assms(1)] by (auto simp: same_condition_def)
  obtain cs2 b where u: "upsert_loop cs' ?c = (cs2, b)" by fastforce
  then have "\<not> b" using upsert_loop_modified [OF u] x by simp
  with u have "upsert_loop cs' ?c = (cs', False)" using upsert_loop_unchanged [of cs' ?c cs2] by simp
  then show ?thesis by (simp add: upsertCondition_def)
qed

text \<open>Reading the status of a condition.\<close>

definition condition_true :: "condition list \<Rightarrow> string \<Rightarrow> bool" where
  "condition_true cs t = (case find_condition cs t of None \<Rightarrow> False | Some c \<Rightarrow> cd_Status c)"

lemma condition_true_upsert:
  "condition_true (fst (upsertCondition G cs g c)) t = (if t = cd_Type c then cd_Status c else condition_true cs t)"
proof (cases "upsertCondition G cs g c")
  case (Pair cs' b)
  then show ?thesis
    using upsertCondition_find_same [OF Pair] upsertCondition_find_other [OF Pair]
    by (auto simp: condition_true_def)
qed

text \<open>Writing a condition sets its status, reason, message and generation and leaves the conditions of other
  types alone; there is still at most one per type; the result tells whether anything changed; and
  writing the same value again, at any later time, changes nothing, so its transition time is kept.\<close>

theorem upsertCondition_spec:
  assumes "upsertCondition G cs g c = (cs', modified)" and "distinct_types cs"
  shows "(\<exists>x. find_condition cs' (cd_Type c) = Some x \<and> cd_Status x = cd_Status c \<and> cd_Reason x = cd_Reason c \<and>
      cd_Message x = cd_Message c \<and> cd_ObservedGeneration x = g) \<and>
    (\<forall>t. t \<noteq> cd_Type c \<longrightarrow> find_condition cs' t = find_condition cs t) \<and>
    distinct_types cs' \<and> (\<not> modified \<longrightarrow> cs' = cs) \<and>
    upsertCondition (G\<lparr>ge_now := later\<rparr>) cs' g c = (cs', False)"
  using upsertCondition_find_same [OF assms(1)] upsertCondition_find_other [OF assms(1)]
    upsertCondition_types [OF assms] upsertCondition_unchanged [OF assms(1)] upsertCondition_again [OF assms(1)]
  by blast

definition ex_gateway_env :: gateway_env where
  "ex_gateway_env = \<lparr>ge_order = (\<lambda>n. [0..<n]), ge_now = 7, ge_selector = (\<lambda>s. case s of None \<Rightarrow> Some (\<lambda>_. False) | Some x \<Rightarrow> Some (\<lambda>_. True)),
     ge_keypair_ok = (\<lambda>c k. c \<noteq> [] \<and> k \<noteq> []), ge_update_ok = (\<lambda>_ _. True), ge_policy = ex_policy_env,
     ge_slug = id, ge_route_ok = (\<lambda>_. True)\<rparr>"

lemma ex_gateway_env_fair: "fair_order ex_gateway_env"
  by (simp add: fair_order_def permuting_def ex_gateway_env_def)

theorem upsertCondition_spec_witness:
  "upsertCondition ex_gateway_env [mk_condition ''Accepted'' False ''X'' []] 3 (mk_condition ''Accepted'' True ''Accepted'' []) =
     ([(mk_condition ''Accepted'' True ''Accepted'' [])\<lparr>cd_ObservedGeneration := 3, cd_LastTransitionTime := 7\<rparr>], True) \<and>
   distinct_types [(mk_condition ''Accepted'' True ''Accepted'' [])\<lparr>cd_ObservedGeneration := 3, cd_LastTransitionTime := 7\<rparr>]"
proof -
  have u: "upsertCondition ex_gateway_env [mk_condition ''Accepted'' False ''X'' []] 3 (mk_condition ''Accepted'' True ''Accepted'' []) =
     ([(mk_condition ''Accepted'' True ''Accepted'' [])\<lparr>cd_ObservedGeneration := 3, cd_LastTransitionTime := 7\<rparr>], True)"
    by (simp add: upsertCondition_def mk_condition_def same_condition_def ex_gateway_env_def)
  have d: "distinct_types [mk_condition ''Accepted'' False ''X'' []]" by (simp add: distinct_types_def)
  show ?thesis using u upsertCondition_spec [OF u d] by blast
qed

end
