(* ===== verification/Gateway_Hostnames.thy ===== *)
theory Gateway_Hostnames
  imports Go_Prelude
begin

text \<open>
  The hostname part of \<^verbatim>\<open>controllers/gateway/httproute.go\<close>: which hostnames of a route a listener serves. A
  hostname is exact, or \<^verbatim>\<open>*.\<close> with a suffix; \<^verbatim>\<open>*\<close> alone stands for every host in the result.
\<close>

definition hostnameIntersection :: "string \<Rightarrow> string \<Rightarrow> string" where
  "hostnameIntersection a b =
     (if a = b then a
      else if HasPrefix a ''*.'' \<and> HasSuffix b (tl a) then b
      else if HasPrefix b ''*.'' \<and> HasSuffix a (tl b) then a
      else [])"

definition routeHostnames :: "string option \<Rightarrow> string list \<Rightarrow> string list" where
  "routeHostnames listenerHostname routeHostnames0 =
     (case listenerHostname of
        None \<Rightarrow> if routeHostnames0 = [] then [''*''] else routeHostnames0
      | Some lh \<Rightarrow>
          if routeHostnames0 = [] then [lh]
          else filter (\<lambda>h. h \<noteq> []) (map (hostnameIntersection lh) routeHostnames0))"

subsection \<open>What a hostname matches\<close>

text \<open>The rule of the Gateway API: a wildcard name matches every host that ends in its suffix, at any
  depth and not the suffix itself; any other name matches itself.\<close>

definition wildcard :: "string \<Rightarrow> bool" where
  "wildcard p \<longleftrightarrow> HasPrefix p ''*.''"

definition host_matches :: "string \<Rightarrow> string \<Rightarrow> bool" where
  "host_matches p h \<longleftrightarrow> (if wildcard p then HasSuffix h (tl p) else h = p)"

definition serves :: "string list \<Rightarrow> string \<Rightarrow> bool" where
  "serves ps h \<longleftrightarrow> (\<exists>p \<in> set ps. p = ''*'' \<or> host_matches p h)"

lemma wildcardE: "wildcard p \<Longrightarrow> (\<And>s. p = CHR ''*'' # CHR ''.'' # s \<Longrightarrow> P) \<Longrightarrow> P"
  by (auto simp: wildcard_def HasPrefix_iff)

text \<open>A suffix of a wildcard name that starts with a dot is a suffix of what follows the star.\<close>

lemma HasSuffix_tl_wildcard:
  "wildcard a \<Longrightarrow> wildcard b \<Longrightarrow> HasSuffix b (tl a) \<longleftrightarrow> HasSuffix (tl b) (tl a)"
  by (elim wildcardE) (auto simp: HasSuffix_iff Cons_eq_append_conv)

lemma HasSuffix_trans: "HasSuffix c b \<Longrightarrow> HasSuffix b a \<Longrightarrow> HasSuffix c a"
  by (auto simp: HasSuffix_iff)

lemma HasSuffix_antisym: "HasSuffix a b \<Longrightarrow> HasSuffix b a \<Longrightarrow> a = b"
  by (auto simp: HasSuffix_iff)

lemma HasSuffix_comparable: "HasSuffix c a \<Longrightarrow> HasSuffix c b \<Longrightarrow> HasSuffix a b \<or> HasSuffix b a"
  by (auto simp: HasSuffix_iff append_eq_append_conv2)

lemma wildcard_tl: "wildcard a \<Longrightarrow> tl a \<noteq> []"
  by (elim wildcardE) auto

lemma wildcard_tl_inject: "wildcard a \<Longrightarrow> wildcard b \<Longrightarrow> tl a = tl b \<Longrightarrow> a = b"
  by (elim wildcardE) auto

lemma intersection_matches:
  assumes "a \<noteq> []"
  shows "host_matches a h \<and> host_matches b h \<longleftrightarrow>
    hostnameIntersection a b \<noteq> [] \<and> host_matches (hostnameIntersection a b) h"
proof (cases "wildcard a \<and> wildcard b")
  case True
  then have ne: "a \<noteq> []" "b \<noteq> []" by (auto elim: wildcardE)
  show ?thesis
    using True ne HasSuffix_tl_wildcard [of a b] HasSuffix_tl_wildcard [of b a]
      HasSuffix_trans [of h "tl b" "tl a"] HasSuffix_trans [of h "tl a" "tl b"] HasSuffix_comparable [of h "tl a" "tl b"]
    by (auto simp: host_matches_def hostnameIntersection_def wildcard_def [symmetric])
next
  case False
  then show ?thesis
    using assms by (auto simp: host_matches_def hostnameIntersection_def wildcard_def [symmetric] HasSuffix_def dest: wildcard_tl)
qed

text \<open>The intersection of two hostnames matches exactly the hosts that both match (none when it is empty), and
  it does not depend on the order of its arguments.\<close>

theorem hostnameIntersection_exact:
  assumes "a \<noteq> []"
  shows "(host_matches a h \<and> host_matches b h \<longleftrightarrow>
      hostnameIntersection a b \<noteq> [] \<and> host_matches (hostnameIntersection a b) h) \<and>
    hostnameIntersection a b = hostnameIntersection b a"
proof
  show "hostnameIntersection a b = hostnameIntersection b a"
  proof (cases "wildcard a \<and> wildcard b")
    case True
    then show ?thesis
      using HasSuffix_tl_wildcard [of a b] HasSuffix_tl_wildcard [of b a] HasSuffix_antisym [of "tl a" "tl b"]
        wildcard_tl_inject [of a b]
      by (auto simp: hostnameIntersection_def wildcard_def [symmetric])
  next
    case False
    then show ?thesis by (auto simp: hostnameIntersection_def wildcard_def [symmetric])
  qed
qed (rule intersection_matches [OF assms])

theorem hostnameIntersection_exact_witness:
  "hostnameIntersection ''*.example.com'' ''*.a.example.com'' = ''*.a.example.com'' \<and>
   (host_matches ''*.example.com'' ''x.a.example.com'' \<and> host_matches ''*.a.example.com'' ''x.a.example.com'')"
proof -
  have i: "hostnameIntersection ''*.example.com'' ''*.a.example.com'' = ''*.a.example.com''" by code_simp
  have m: "host_matches ''*.a.example.com'' ''x.a.example.com''" by code_simp
  have "''*.example.com'' \<noteq> []" by simp
  from hostnameIntersection_exact [OF this, of "''x.a.example.com''" "''*.a.example.com''"] show ?thesis
    unfolding i using m by simp
qed

text \<open>The hostnames of a route on a listener serve exactly the hosts that the listener and the route both accept,
  where a missing hostname and an empty list accept every host.\<close>

lemma routeHostnames_serves:
  assumes "\<And>lh. listenerHostname = Some lh \<Longrightarrow> lh \<noteq> [] \<and> lh \<noteq> ''*''" and "''*'' \<notin> set rhs"
  shows "serves (routeHostnames listenerHostname rhs) h \<longleftrightarrow>
    (\<forall>lh. listenerHostname = Some lh \<longrightarrow> host_matches lh h) \<and> (rhs = [] \<or> serves rhs h)"
proof (cases listenerHostname)
  case None
  then show ?thesis by (auto simp: routeHostnames_def serves_def)
next
  case (Some lh)
  then have ne: "lh \<noteq> []" "lh \<noteq> ''*''" using assms(1) by auto
  have star: "hostnameIntersection lh rh \<noteq> ''*''" if "rh \<in> set rhs" for rh
    using ne assms(2) that by (auto simp: hostnameIntersection_def)
  have "serves (routeHostnames (Some lh) rhs) h \<longleftrightarrow> host_matches lh h \<and> serves rhs h" if "rhs \<noteq> []"
    using that star assms(2) intersection_matches [OF ne(1), of h]
    by (auto simp: routeHostnames_def serves_def)
  then show ?thesis using Some ne by (cases "rhs = []") (auto simp: routeHostnames_def serves_def)
qed

end
