(* ===== verification/Gateway_Routes.thy ===== *)
theory Gateway_Routes
  imports Reference_Grants Gateway_Conditions Gateway_Hostnames
begin

text \<open>
  \<^verbatim>\<open>controllers/gateway/httproute.go\<close> and the data of \<^verbatim>\<open>fetch.go\<close>: whether an HTTPRoute attaches to the listeners of
  a gateway, with which hostnames, and which of its backend references may be used. The statuses that the
  code changes through pointers are arguments and results: the conditions of the route for this parent and
  the listener statuses of the gateway, which a \<open>listener_and_status\<close> names by position.
\<close>

subsection \<open>Objects\<close>

text \<open>Routes live in one list (the items of the fetched list); a \<open>route_ptr\<close> is the position of a route
  and the position of the parent reference, and of its status, in that route.\<close>

type_synonym route_ptr = "nat \<times> nat"

record objects =
  o_Gateways :: "(ref_key, gateway) gomap"
  o_HTTPRoutes :: "http_route list"
  o_HTTPRoutesByGateway :: "(ref_key, route_ptr list) gomap"
  o_OriginalHTTPRouteStatus :: "(nat \<times> route_parent_status list) list"
  o_Namespaces :: "(string, namespace_obj) gomap"
  o_ReferenceGrants :: reference_grant_map
  o_TLSSecrets :: "(ref_key, secret) gomap"
  o_Services :: "(namespaced_name, service) gomap"
  o_PolicyFilters :: "(namespaced_name, policy_filter_obj) gomap"

record http_route_info =
  hi_route :: http_route
  hi_parent :: parent_ref
  hi_status :: "condition list"

record listener_and_status =
  ls_listener :: listener
  ls_status :: nat
  ls_generation :: int

subsection \<open>The set of usable backend references\<close>

type_synonym backend_ref_set = "ref_key list option"

definition brs_insert :: "backend_ref_set \<Rightarrow> object_meta \<Rightarrow> backend_ref \<Rightarrow> backend_ref_set" where
  "brs_insert b obj r =
     Some (List.insert (refKeyForBackendRef obj r) (case b of None \<Rightarrow> [] | Some c \<Rightarrow> c))"

definition brs_Valid :: "backend_ref_set \<Rightarrow> object_meta \<Rightarrow> backend_ref \<Rightarrow> bool" where
  "brs_Valid b obj r = (case b of None \<Rightarrow> False | Some c \<Rightarrow> refKeyForBackendRef obj r \<in> set c)"

record http_route_result =
  hrr_Hostnames :: "string list"
  hrr_ValidBackendRefs :: backend_ref_set

record route_attachment =
  ra_hostnames :: "string list"
  ra_reason :: string

subsection \<open>Operations\<close>

definition anyBackendRefHasFilters :: "http_route_rule list \<Rightarrow> bool" where
  "anyBackendRefHasFilters rules = list_ex (\<lambda>rule. list_ex (\<lambda>br. hb_Filters br \<noteq> []) (hr_BackendRefs rule)) rules"

text \<open>\<^verbatim>\<open>invalidRefs[reason] = append(invalidRefs[reason], name)\<close>.\<close>

definition add_invalid :: "(string, string list) gomap \<Rightarrow> string \<Rightarrow> string \<Rightarrow> (string, string list) gomap" where
  "add_invalid m reason name = AList.update reason ((case map_of m reason of None \<Rightarrow> [] | Some ns \<Rightarrow> ns) @ [name]) m"

definition backend_ref_step ::
  "objects \<Rightarrow> http_route \<Rightarrow> backend_ref_set \<times> (string, string list) gomap \<Rightarrow> http_backend_ref \<Rightarrow>
     backend_ref_set \<times> (string, string list) gomap" where
  "backend_ref_step ob r st br =
     (case st of (validRefs, invalidRefs) \<Rightarrow>
        let k = refKeyForBackendRef (rt_meta r) (hb_ref br) in
        if rk_Group k \<noteq> CoreGroupName \<or> rk_Kind k \<noteq> ''Service''
        then (validRefs, add_invalid invalidRefs ''InvalidKind'' (rk_Name k))
        else if \<not> allowed (o_ReferenceGrants ob) (rt_meta r) k
        then (validRefs, add_invalid invalidRefs ''RefNotPermitted'' (rk_Name k))
        else if map_of (o_Services ob) (NamespacedName (rk_Namespace k) (rk_Name k)) = None
        then (validRefs, add_invalid invalidRefs ''BackendNotFound'' (rk_Name k))
        else (brs_insert validRefs (rt_meta r) (hb_ref br), invalidRefs))"

text \<open>The condition built from the invalid references, in the order the map is visited; the last reason wins.\<close>

definition resolved_refs_condition :: "gateway_env \<Rightarrow> string \<Rightarrow> (string, string list) gomap \<Rightarrow> condition" where
  "resolved_refs_condition G what invalidRefs =
     (let es = go_range G invalidRefs
      in mk_condition ''ResolvedRefs'' (es = []) (if es = [] then ''ResolvedRefs'' else fst (last es))
           (Join (map (\<lambda>(reason, refNames). ''invalid '' @ what @ ''refs ('' @ reason @ ''): '' @ Join refNames '', '') es) ''; ''))"

definition all_backend_refs :: "http_route \<Rightarrow> http_backend_ref list" where
  "all_backend_refs r = concat (map hr_BackendRefs (rt_Rules r))"

definition validateHTTPRouteBackendRefsResolved ::
  "gateway_env \<Rightarrow> objects \<Rightarrow> http_route_info \<Rightarrow> backend_ref_set \<times> condition list" where
  "validateHTTPRouteBackendRefsResolved G ob r =
     (case foldl (backend_ref_step ob (hi_route r)) (None, []) (all_backend_refs (hi_route r)) of
        (validRefs, invalidRefs) \<Rightarrow>
          (validRefs, fst (upsertCondition G (hi_status r) (om_generation (rt_meta (hi_route r)))
             (resolved_refs_condition G [] invalidRefs))))"

definition isHTTPRouteAllowed ::
  "gateway_env \<Rightarrow> objects \<Rightarrow> allowed_routes option \<Rightarrow> http_route \<Rightarrow> string \<Rightarrow> gw_error + bool" where
  "isHTTPRouteAllowed G ob allowed0 r gatewayNamespace =
     (case allowed0 of
        None \<Rightarrow> Inl Panic
      | Some al \<Rightarrow>
          (case (case ar_Namespaces al of Some n \<Rightarrow> opt_default NamespacesFromSame (rn_From n) | None \<Rightarrow> NamespacesFromSame) of
             NamespacesFromAll \<Rightarrow> Inr True
           | NamespacesFromSame \<Rightarrow> Inr (om_namespace (rt_meta r) = gatewayNamespace)
           | NamespacesFromSelector \<Rightarrow>
               (case ge_selector G (case ar_Namespaces al of Some n \<Rightarrow> rn_Selector n | None \<Rightarrow> None) of
                  None \<Rightarrow> Inr False
                | Some selector \<Rightarrow>
                    (case map_of (o_Namespaces ob) (om_namespace (rt_meta r)) of
                       None \<Rightarrow> Inl Panic
                     | Some ns \<Rightarrow> Inr (selector (om_labels (ns_meta ns)))))
           | NamespacesFromOther _ \<Rightarrow> Inr False))"

definition processHTTPRouteForListener ::
  "gateway_env \<Rightarrow> objects \<Rightarrow> gateway \<Rightarrow> listener_status list \<Rightarrow> listener_and_status \<Rightarrow> http_route \<Rightarrow>
     gw_error + route_attachment \<times> listener_status list" where
  "processHTTPRouteForListener G ob g lstats l r =
     ebind (isHTTPRouteAllowed G ob (li_AllowedRoutes (ls_listener l)) r (om_namespace (gw_meta g))) (\<lambda>ok.
       if \<not> ok then Inr (\<lparr>ra_hostnames = [], ra_reason = ''NotAllowedByListeners''\<rparr>, lstats)
       else let hostnames = routeHostnames (li_Hostname (ls_listener l)) (rt_Hostnames r) in
       if hostnames = [] then Inr (\<lparr>ra_hostnames = [], ra_reason = ''NoMatchingListenerHostname''\<rparr>, lstats)
       else let i = ls_status l; s = lstats ! i
       in Inr (\<lparr>ra_hostnames = hostnames, ra_reason = ''Accepted''\<rparr>,
               lstats[i := s\<lparr>lt_AttachedRoutes := lt_AttachedRoutes s + 1\<rparr>]))"

definition setRouteStatusAccepted :: "gateway_env \<Rightarrow> http_route \<Rightarrow> condition list \<Rightarrow> string \<Rightarrow> condition list" where
  "setRouteStatusAccepted G r conds acceptedReason =
     fst (upsertCondition G conds (om_generation (rt_meta r))
       (mk_condition ''Accepted'' (acceptedReason = ''Accepted'') acceptedReason []))"

text \<open>The loop over all listeners: the hostnames so far, the reason so far, the listener statuses.\<close>

definition listener_step ::
  "gateway_env \<Rightarrow> objects \<Rightarrow> gateway \<Rightarrow> http_route \<Rightarrow> string list \<times> string \<times> listener_status list \<Rightarrow>
     string \<times> listener_and_status \<Rightarrow> gw_error + string list \<times> string \<times> listener_status list" where
  "listener_step G ob g r st nl =
     (case st of (hostnamesSet, reason, lstats) \<Rightarrow>
        ebind (processHTTPRouteForListener G ob g lstats (snd nl) r) (\<lambda>(ra, lstats').
          Inr (fold List.insert (ra_hostnames ra) hostnamesSet,
               (if reason = [] \<or> ra_reason ra = ''Accepted'' then ra_reason ra else reason), lstats')))"

definition processHTTPRoute ::
  "gateway_env \<Rightarrow> objects \<Rightarrow> gateway \<Rightarrow> (string, listener_and_status) gomap \<Rightarrow> listener_status list \<Rightarrow> http_route_info \<Rightarrow>
     gw_error + http_route_result \<times> condition list \<times> listener_status list" where
  "processHTTPRoute G ob g listeners lstats r =
     (if anyBackendRefHasFilters (rt_Rules (hi_route r))
      then Inr (\<lparr>hrr_Hostnames = [], hrr_ValidBackendRefs = None\<rparr>,
        fst (upsertCondition G (hi_status r) (om_generation (rt_meta (hi_route r)))
          (mk_condition ''Accepted'' False ''UnsupportedValue'' ''backendRef filters are not supported'')), lstats)
      else
        case validateHTTPRouteBackendRefsResolved G ob r of (validRefs, conds) \<Rightarrow>
        (case pr_SectionName (hi_parent r) of
           Some sectionName \<Rightarrow>
             (case map_of listeners sectionName of
                None \<Rightarrow> Inr (\<lparr>hrr_Hostnames = [], hrr_ValidBackendRefs = validRefs\<rparr>,
                  setRouteStatusAccepted G (hi_route r) conds ''NoMatchingParent'', lstats)
              | Some l \<Rightarrow>
                  ebind (processHTTPRouteForListener G ob g lstats l (hi_route r)) (\<lambda>(ra, lstats').
                    Inr (\<lparr>hrr_Hostnames = ra_hostnames ra, hrr_ValidBackendRefs = validRefs\<rparr>,
                      setRouteStatusAccepted G (hi_route r) conds (ra_reason ra), lstats')))
         | None \<Rightarrow>
             ebind (efold (listener_step G ob g (hi_route r)) ([], [], lstats) (go_range G listeners))
               (\<lambda>(hostnamesSet, reason, lstats').
                 Inr (\<lparr>hrr_Hostnames = go_range G hostnamesSet, hrr_ValidBackendRefs = validRefs\<rparr>,
                   setRouteStatusAccepted G (hi_route r) conds (if reason = [] then ''NoMatchingParent'' else reason), lstats'))))"

text \<open>\<^verbatim>\<open>ensureRouteParentStatusExists\<close>: the parent statuses follow the parent references.\<close>

definition ensureRouteParentStatusExists :: "http_route \<Rightarrow> string \<Rightarrow> http_route" where
  "ensureRouteParentStatusExists r controllerName =
     (if length (rt_Parents r) = length (rt_ParentRefs r) \<and>
         list_all2 (\<lambda>p s. p = rp_ParentRef s) (rt_ParentRefs r) (rt_Parents r)
      then r
      else r\<lparr>rt_Parents := map (\<lambda>p. \<lparr>rp_ParentRef = p, rp_ControllerName = controllerName, rp_Conditions = []\<rparr>) (rt_ParentRefs r)\<rparr>)"

subsection \<open>The contract of a backend reference checker\<close>

text \<open>\<^verbatim>\<open>model.BackendRefChecker\<close>, with the insertion that fills it: a reference is valid when one with the
  same key was inserted.\<close>

locale backend_ref_checker =
  fixes empty :: "'c"
    and insert :: "'c \<Rightarrow> object_meta \<Rightarrow> backend_ref \<Rightarrow> 'c"
    and valid :: "'c \<Rightarrow> object_meta \<Rightarrow> backend_ref \<Rightarrow> bool"
  assumes valid_empty: "\<not> valid empty obj r"
    and valid_insert: "valid (insert c obj r) obj' r' \<longleftrightarrow>
      valid c obj' r' \<or> refKeyForBackendRef obj' r' = refKeyForBackendRef obj r"
begin

definition insert_if :: "object_meta \<Rightarrow> ('a \<Rightarrow> backend_ref) \<Rightarrow> ('a \<Rightarrow> bool) \<Rightarrow> 'c \<Rightarrow> 'a \<Rightarrow> 'c" where
  "insert_if obj get P c x = (if P x then insert c obj (get x) else c)"

lemma valid_inserted_gen:
  "valid (foldl (insert_if obj get P) c xs) obj' r' \<longleftrightarrow>
     valid c obj' r' \<or> (\<exists>x \<in> set xs. P x \<and> refKeyForBackendRef obj' r' = refKeyForBackendRef obj (get x))"
  by (induction xs arbitrary: c) (auto simp: insert_if_def valid_insert)

lemma valid_inserted:
  "valid (foldl (insert_if obj get P) empty xs) obj' r' \<longleftrightarrow>
     (\<exists>x \<in> set xs. P x \<and> refKeyForBackendRef obj' r' = refKeyForBackendRef obj (get x))"
  by (simp add: valid_inserted_gen valid_empty)

end

interpretation brs: backend_ref_checker None brs_insert brs_Valid
  by unfold_locales (auto simp: brs_Valid_def brs_insert_def split: option.splits)

subsection \<open>Backend references\<close>

text \<open>What makes a reference usable: it names a Service of the core group, the namespace boundary permits it,
  and the Service exists.\<close>

definition usable_backend :: "objects \<Rightarrow> object_meta \<Rightarrow> backend_ref \<Rightarrow> bool" where
  "usable_backend ob m br \<longleftrightarrow>
     (let k = refKeyForBackendRef m br
      in rk_Group k = CoreGroupName \<and> rk_Kind k = ''Service'' \<and> allowed (o_ReferenceGrants ob) m k \<and>
         map_of (o_Services ob) (NamespacedName (rk_Namespace k) (rk_Name k)) \<noteq> None)"

lemma usable_backend_key:
  "refKeyForBackendRef m br = refKeyForBackendRef m br' \<Longrightarrow> usable_backend ob m br = usable_backend ob m br'"
  by (simp add: usable_backend_def)

lemma add_invalid_nonempty [simp]: "add_invalid m reason name \<noteq> []"
  using map_of_update [of reason _ m] by (auto simp: add_invalid_def dest: fun_cong [where x = reason])

lemma backend_ref_step_valid:
  "fst (backend_ref_step ob r (v, bad) br) =
     brs.insert_if (rt_meta r) hb_ref (\<lambda>br. usable_backend ob (rt_meta r) (hb_ref br)) v br"
  "snd (backend_ref_step ob r (v, bad) br) = [] \<longleftrightarrow> bad = [] \<and> usable_backend ob (rt_meta r) (hb_ref br)"
  by (auto simp: backend_ref_step_def brs.insert_if_def usable_backend_def Let_def)

lemma backend_ref_steps:
  "fst (foldl (backend_ref_step ob r) (v, bad) brs) =
     foldl (brs.insert_if (rt_meta r) hb_ref (\<lambda>br. usable_backend ob (rt_meta r) (hb_ref br))) v brs \<and>
   (snd (foldl (backend_ref_step ob r) (v, bad) brs) = [] \<longleftrightarrow>
      bad = [] \<and> (\<forall>br \<in> set brs. usable_backend ob (rt_meta r) (hb_ref br)))"
proof (induction brs arbitrary: v bad)
  case (Cons br brs)
  obtain v1 bad1 where st: "backend_ref_step ob r (v, bad) br = (v1, bad1)" by fastforce
  show ?case
    using Cons.IH [of v1 bad1] backend_ref_step_valid [of ob r v bad br] unfolding st by (simp add: st)
qed simp

lemma resolved_refs_condition_simps [simp]:
  "cd_Type (resolved_refs_condition G w bad) = ''ResolvedRefs''"
  "fair_order G \<Longrightarrow> cd_Status (resolved_refs_condition G w bad) \<longleftrightarrow> bad = []"
  by (simp_all add: resolved_refs_condition_def Let_def mk_condition_def)

lemma validate_valid:
  assumes "validateHTTPRouteBackendRefsResolved G ob r = (v, conds)"
  shows "brs_Valid v (rt_meta (hi_route r)) br \<longleftrightarrow>
    usable_backend ob (rt_meta (hi_route r)) br \<and>
    (\<exists>b \<in> set (all_backend_refs (hi_route r)).
       refKeyForBackendRef (rt_meta (hi_route r)) br = refKeyForBackendRef (rt_meta (hi_route r)) (hb_ref b))"
proof -
  have "v = fst (foldl (backend_ref_step ob (hi_route r)) (None, []) (all_backend_refs (hi_route r)))"
    using assms by (simp add: validateHTTPRouteBackendRefsResolved_def split: prod.splits)
  then have "brs_Valid v (rt_meta (hi_route r)) br \<longleftrightarrow>
      (\<exists>b \<in> set (all_backend_refs (hi_route r)). usable_backend ob (rt_meta (hi_route r)) (hb_ref b) \<and>
        refKeyForBackendRef (rt_meta (hi_route r)) br = refKeyForBackendRef (rt_meta (hi_route r)) (hb_ref b))"
    by (simp add: backend_ref_steps brs.valid_inserted)
  then show ?thesis using usable_backend_key [of "rt_meta (hi_route r)" br _ ob] by metis
qed

text \<open>The backend references of a route that are marked valid are exactly those to Services of the core group
  which exist and which the namespace boundary permits; and the route reports ResolvedRefs exactly
  when all of its references are such.\<close>

theorem backend_refs_valid_iff:
  assumes "fair_order G" "validateHTTPRouteBackendRefsResolved G ob r = (v, conds)"
  shows "(br \<in> set (all_backend_refs (hi_route r)) \<longrightarrow>
      (brs_Valid v (rt_meta (hi_route r)) (hb_ref br) \<longleftrightarrow> usable_backend ob (rt_meta (hi_route r)) (hb_ref br))) \<and>
    (condition_true conds ''ResolvedRefs'' \<longleftrightarrow>
      (\<forall>b \<in> set (all_backend_refs (hi_route r)). usable_backend ob (rt_meta (hi_route r)) (hb_ref b)))"
proof
  show "br \<in> set (all_backend_refs (hi_route r)) \<longrightarrow>
      brs_Valid v (rt_meta (hi_route r)) (hb_ref br) = usable_backend ob (rt_meta (hi_route r)) (hb_ref br)"
    using validate_valid [OF assms(2)] by auto
  obtain v' bad where f: "foldl (backend_ref_step ob (hi_route r)) (None, []) (all_backend_refs (hi_route r)) = (v', bad)"
    by fastforce
  have "bad = [] \<longleftrightarrow> (\<forall>b \<in> set (all_backend_refs (hi_route r)). usable_backend ob (rt_meta (hi_route r)) (hb_ref b))"
    using backend_ref_steps [of ob "hi_route r" None "[]" "all_backend_refs (hi_route r)"] f by simp
  moreover have "conds = fst (upsertCondition G (hi_status r) (om_generation (rt_meta (hi_route r)))
      (resolved_refs_condition G [] bad))"
    using assms(2) f by (simp add: validateHTTPRouteBackendRefsResolved_def)
  ultimately show "condition_true conds ''ResolvedRefs'' \<longleftrightarrow>
      (\<forall>b \<in> set (all_backend_refs (hi_route r)). usable_backend ob (rt_meta (hi_route r)) (hb_ref b))"
    using assms(1) by (simp add: condition_true_upsert)
qed


text \<open>An example: a route in namespace \<open>app\<close> with one usable backend, one without a grant.\<close>

definition ex_br :: "string option \<Rightarrow> string \<Rightarrow> http_backend_ref" where
  "ex_br ns name = \<lparr>hb_ref = \<lparr>br_Group = None, br_Kind = None, br_Namespace = ns, br_Name = name, br_Port = Some 80, br_Weight = None\<rparr>,
     hb_Filters = []\<rparr>"

definition ex_parent :: parent_ref where
  "ex_parent = \<lparr>pr_Group = None, pr_Kind = None, pr_Namespace = Some ''gw'', pr_Name = ''edge'', pr_SectionName = None, pr_Port = None\<rparr>"

definition ex_hroute :: http_route where
  "ex_hroute = \<lparr>rt_meta = (new_meta ''HTTPRoute'' ''app'' ''r'')\<lparr>om_group := GatewayGroupName\<rparr>, rt_ParentRefs = [ex_parent],
     rt_Hostnames = [''a.example.com''],
     rt_Rules = [\<lparr>hr_Matches = [], hr_Filters = [], hr_BackendRefs = [ex_br None ''web'', ex_br (Some ''other'') ''web'']\<rparr>],
     rt_Parents = []\<rparr>"

definition ex_service :: "string \<Rightarrow> string \<Rightarrow> service" where
  "ex_service ns name = \<lparr>svc_meta = new_meta ''Service'' ns name, svc_type = ''ClusterIP'', svc_external_name = [],
     svc_cluster_ip = ''10.0.0.1'', svc_ports = [], svc_lb = []\<rparr>"

definition ex_listener :: listener where
  "ex_listener = \<lparr>li_Name = ''https'', li_Hostname = Some ''*.example.com'', li_TLS = None,
     li_AllowedRoutes = Some \<lparr>ar_Namespaces = Some \<lparr>rn_From = Some NamespacesFromAll, rn_Selector = None\<rparr>, ar_Kinds = []\<rparr>\<rparr>"

definition ex_gateway :: gateway where
  "ex_gateway = \<lparr>gw_meta = (new_meta ''Gateway'' ''gw'' ''edge'')\<lparr>om_group := GatewayGroupName\<rparr>, gw_ClassName = ''pomerium'',
     gw_Listeners = [ex_listener], gw_StatusListeners = [], gw_Addresses = [], gw_Conditions = []\<rparr>"

definition ex_objects :: objects where
  "ex_objects = \<lparr>o_Gateways = [(refKeyForObject (gw_meta ex_gateway), ex_gateway)], o_HTTPRoutes = [ex_hroute],
     o_HTTPRoutesByGateway = [], o_OriginalHTTPRouteStatus = [], o_Namespaces = [], o_ReferenceGrants = [],
     o_TLSSecrets = [], o_Services = [(NamespacedName ''app'' ''web'', ex_service ''app'' ''web''),
       (NamespacedName ''other'' ''web'', ex_service ''other'' ''web'')], o_PolicyFilters = []\<rparr>"

definition ex_info :: http_route_info where
  "ex_info = \<lparr>hi_route = ex_hroute, hi_parent = ex_parent, hi_status = []\<rparr>"

theorem backend_refs_valid_iff_witness:
  "fair_order ex_gateway_env \<and> ex_br (Some ''other'') ''web'' \<in> set (all_backend_refs (hi_route ex_info)) \<and>
   \<not> brs_Valid (fst (validateHTTPRouteBackendRefsResolved ex_gateway_env ex_objects ex_info)) (rt_meta ex_hroute)
     (hb_ref (ex_br (Some ''other'') ''web''))"
proof -
  obtain v conds where vc: "validateHTTPRouteBackendRefsResolved ex_gateway_env ex_objects ex_info = (v, conds)" by fastforce
  have m: "ex_br (Some ''other'') ''web'' \<in> set (all_backend_refs (hi_route ex_info))"
    by (simp add: all_backend_refs_def ex_info_def ex_hroute_def)
  have u: "\<not> usable_backend ex_objects (rt_meta (hi_route ex_info)) (hb_ref (ex_br (Some ''other'') ''web''))" by code_simp
  show ?thesis
    using ex_gateway_env_fair m u backend_refs_valid_iff [OF ex_gateway_env_fair vc, of "ex_br (Some ''other'') ''web''"]
    unfolding vc by (simp add: ex_info_def)
qed

subsection \<open>Attachment to listeners\<close>

definition listener_hostnames :: "gateway_env \<Rightarrow> objects \<Rightarrow> gateway \<Rightarrow> http_route \<Rightarrow> listener_and_status \<Rightarrow> string list" where
  "listener_hostnames G ob g r l =
     (if isHTTPRouteAllowed G ob (li_AllowedRoutes (ls_listener l)) r (om_namespace (gw_meta g)) = Inr True
      then routeHostnames (li_Hostname (ls_listener l)) (rt_Hostnames r) else [])"

definition count_attached :: "gateway_env \<Rightarrow> objects \<Rightarrow> gateway \<Rightarrow> http_route \<Rightarrow> listener_and_status list \<Rightarrow> nat \<Rightarrow> nat" where
  "count_attached G ob g r ls i = length (filter (\<lambda>l. ls_status l = i \<and> listener_hostnames G ob g r l \<noteq> []) ls)"

text \<open>Incrementing the counters of some listener statuses.\<close>

definition bump :: "(nat \<Rightarrow> nat) \<Rightarrow> listener_status list \<Rightarrow> listener_status list" where
  "bump f ss = map (\<lambda>i. (ss ! i)\<lparr>lt_AttachedRoutes := lt_AttachedRoutes (ss ! i) + int (f i)\<rparr>) [0..<length ss]"

lemma length_bump [simp]: "length (bump f ss) = length ss"
  by (simp add: bump_def)

lemma nth_bump [simp]:
  "i < length ss \<Longrightarrow> bump f ss ! i = (ss ! i)\<lparr>lt_AttachedRoutes := lt_AttachedRoutes (ss ! i) + int (f i)\<rparr>"
  by (simp add: bump_def)

lemma bump_bump [simp]: "bump f (bump h ss) = bump (\<lambda>i. h i + f i) ss"
  by (rule nth_equalityI) (simp_all add: add.assoc)

lemma bump_zero [simp]: "bump (\<lambda>_. 0) ss = ss"
  by (rule nth_equalityI) simp_all

lemma bump_one: "ss[k := (ss ! k)\<lparr>lt_AttachedRoutes := lt_AttachedRoutes (ss ! k) + 1\<rparr>] = bump (\<lambda>i. if i = k then 1 else 0) ss"
  by (rule nth_equalityI) (auto simp: nth_list_update)

lemma count_attached_Cons:
  "count_attached G ob g r (l # ls) i =
     (if ls_status l = i \<and> listener_hostnames G ob g r l \<noteq> [] then 1 else 0) + count_attached G ob g r ls i"
  by (simp add: count_attached_def)

lemma count_attached_Nil [simp]: "count_attached G ob g r [] = (\<lambda>_. 0)"
  by (simp add: count_attached_def fun_eq_iff)

lemma count_attached_mset: "mset ls = mset ls' \<Longrightarrow> count_attached G ob g r ls i = count_attached G ob g r ls' i"
proof -
  assume "mset ls = mset ls'"
  then have "mset (filter P ls) = mset (filter P ls')" for P by simp
  then show ?thesis unfolding count_attached_def by (rule mset_eq_length)
qed

lemma count_attached_single:
  "count_attached G ob g r [l] =
     (if listener_hostnames G ob g r l = [] then (\<lambda>_. 0) else (\<lambda>i. if i = ls_status l then 1 else 0))"
  by (auto simp: count_attached_def fun_eq_iff)

lemma processHTTPRouteForListener_cases:
  assumes "processHTTPRouteForListener G ob g ss l r = Inr (ra, ss')"
  obtains (no) "ra_hostnames ra = []" "listener_hostnames G ob g r l = []" "ra_reason ra \<noteq> ''Accepted''" "ra_reason ra \<noteq> []" "ss' = ss"
  | (yes) "ra_hostnames ra = listener_hostnames G ob g r l" "listener_hostnames G ob g r l \<noteq> []" "ra_reason ra = ''Accepted''"
      "ss' = bump (\<lambda>i. if i = ls_status l then 1 else 0) ss"
  using assms
  by (auto simp: processHTTPRouteForListener_def ebind_Inr_iff listener_hostnames_def Let_def bump_one split: if_splits)

lemma processHTTPRouteForListener_Inr:
  assumes "processHTTPRouteForListener G ob g ss l r = Inr (ra, ss')"
  shows "ra_hostnames ra = listener_hostnames G ob g r l \<and>
    (ra_reason ra = ''Accepted'' \<longleftrightarrow> listener_hostnames G ob g r l \<noteq> []) \<and> ra_reason ra \<noteq> [] \<and>
    ss' = bump (count_attached G ob g r [l]) ss"
  using assms by (cases rule: processHTTPRouteForListener_cases) (simp_all add: count_attached_single)

lemma set_fold_insert [simp]: "set (fold List.insert xs ys) = set xs \<union> set ys"
  by (induction xs arbitrary: ys) auto

lemma listener_step_Inr:
  "listener_step G ob g r (hs, reason, ss) nl = Inr (hs', reason', ss') \<Longrightarrow>
     set hs' = set hs \<union> set (listener_hostnames G ob g r (snd nl)) \<and>
     (reason' = ''Accepted'' \<longleftrightarrow> reason = ''Accepted'' \<or> listener_hostnames G ob g r (snd nl) \<noteq> []) \<and>
     ss' = bump (count_attached G ob g r [snd nl]) ss"
  unfolding listener_step_def
  by (auto simp: ebind_Inr_iff dest!: processHTTPRouteForListener_Inr split: if_splits)

lemma listener_steps:
  "efold (listener_step G ob g r) (hs, reason, ss) nls = Inr (hs', reason', ss') \<Longrightarrow>
     set hs' = set hs \<union> (\<Union>l \<in> set (map snd nls). set (listener_hostnames G ob g r l)) \<and>
     (reason' = ''Accepted'' \<longleftrightarrow> reason = ''Accepted'' \<or> (\<exists>l \<in> set (map snd nls). listener_hostnames G ob g r l \<noteq> [])) \<and>
     ss' = bump (count_attached G ob g r (map snd nls)) ss"
proof (induction nls arbitrary: hs reason ss)
  case (Cons nl nls)
  from Cons.prems obtain hs1 reason1 ss1
    where step: "listener_step G ob g r (hs, reason, ss) nl = Inr (hs1, reason1, ss1)"
      and rest: "efold (listener_step G ob g r) (hs1, reason1, ss1) nls = Inr (hs', reason', ss')"
    by (auto simp: ebind_Inr_iff)
  have "count_attached G ob g r (map snd (nl # nls)) =
      (\<lambda>i. count_attached G ob g r [snd nl] i + count_attached G ob g r (map snd nls) i)"
    by (simp add: count_attached_def fun_eq_iff)
  then show ?case
    using Cons.IH [OF rest] listener_step_Inr [OF step] by (simp add: Un_assoc disj_assoc)
qed simp

text \<open>The listeners that a parent reference is about: the one it names, or all.\<close>

definition parent_listeners :: "parent_ref \<Rightarrow> (string, listener_and_status) gomap \<Rightarrow> listener_and_status list" where
  "parent_listeners p listeners =
     (case pr_SectionName p of
        Some n \<Rightarrow> (case map_of listeners n of None \<Rightarrow> [] | Some l \<Rightarrow> [l])
      | None \<Rightarrow> map snd listeners)"

definition route_listeners :: "http_route_info \<Rightarrow> (string, listener_and_status) gomap \<Rightarrow> listener_and_status list" where
  "route_listeners r listeners =
     (if anyBackendRefHasFilters (rt_Rules (hi_route r)) then [] else parent_listeners (hi_parent r) listeners)"

lemma setRouteStatusAccepted_true:
  "condition_true (setRouteStatusAccepted G r conds reason) ''Accepted'' \<longleftrightarrow> reason = ''Accepted''"
  by (simp add: setRouteStatusAccepted_def condition_true_upsert mk_condition_def)

lemma processHTTPRoute_Inr:
  assumes "fair_order G" "processHTTPRoute G ob g listeners ss r = Inr (res, conds, ss')"
  shows "set (hrr_Hostnames res) = (\<Union>l \<in> set (route_listeners r listeners). set (listener_hostnames G ob g (hi_route r) l)) \<and>
    (condition_true conds ''Accepted'' \<longleftrightarrow> hrr_Hostnames res \<noteq> []) \<and>
    ss' = bump (count_attached G ob g (hi_route r) (route_listeners r listeners)) ss"
proof (cases "anyBackendRefHasFilters (rt_Rules (hi_route r))")
  case True
  then show ?thesis
    using assms(2) by (auto simp: processHTTPRoute_def route_listeners_def condition_true_upsert mk_condition_def)
next
  case False
  obtain v c where vc: "validateHTTPRouteBackendRefsResolved G ob r = (v, c)" by fastforce
  show ?thesis
  proof (cases "pr_SectionName (hi_parent r)")
    case None
    obtain hs reason where
      st: "efold (listener_step G ob g (hi_route r)) ([], [], ss) (go_range G listeners) = Inr (hs, reason, ss')"
      and res: "hrr_Hostnames res = go_range G hs"
      and conds: "conds = setRouteStatusAccepted G (hi_route r) c (if reason = [] then ''NoMatchingParent'' else reason)"
      using assms(2) False None vc by (auto simp: processHTTPRoute_def ebind_Inr_iff)
    have cnt: "count_attached G ob g (hi_route r) (map snd (go_range G listeners)) =
        count_attached G ob g (hi_route r) (map snd listeners)"
      using mset_go_range [OF assms(1), of listeners] by (intro ext count_attached_mset) simp
    have l: "route_listeners r listeners = map snd listeners"
      using False None by (simp add: route_listeners_def parent_listeners_def)
    have sets: "set (map snd (go_range G listeners)) = set (map snd listeners)" using assms(1) by simp
    note p = listener_steps [OF st, unfolded cnt sets]
    have "hrr_Hostnames res = [] \<longleftrightarrow> (\<forall>l \<in> set (map snd listeners). listener_hostnames G ob g (hi_route r) l = [])"
      using p assms(1) res by (cases hs) auto
    then show ?thesis
      using p assms(1) res conds l by (auto simp: setRouteStatusAccepted_true)
  next
    case (Some n)
    show ?thesis
    proof (cases "map_of listeners n")
      case None
      then show ?thesis
        using assms(2) False Some vc
        by (auto simp: processHTTPRoute_def route_listeners_def parent_listeners_def setRouteStatusAccepted_true)
    next
      case l: (Some l)
      obtain ra where
        ra: "processHTTPRouteForListener G ob g ss l (hi_route r) = Inr (ra, ss')"
        and res: "hrr_Hostnames res = ra_hostnames ra"
        and conds: "conds = setRouteStatusAccepted G (hi_route r) c (ra_reason ra)"
        using assms(2) False Some l vc by (auto simp: processHTTPRoute_def ebind_Inr_iff)
      have "route_listeners r listeners = [l]"
        using False Some l by (simp add: route_listeners_def parent_listeners_def)
      then show ?thesis
        using processHTTPRouteForListener_Inr [OF ra] res conds by (simp add: setRouteStatusAccepted_true)
    qed
  qed
qed

text \<open>C28: a route is served exactly when it is reported as accepted, and the hostnames it is served under are
  the union, over the listeners it refers to that allow its namespace, of the intersections of its hostnames
  with the listener's, whatever order the listeners are visited in; the counter of every such listener
  grows by one.\<close>

theorem processHTTPRoute_served:
  assumes "fair_order G" "processHTTPRoute G ob g listeners ss r = Inr (res, conds, ss')"
  shows "set (hrr_Hostnames res) = (\<Union>l \<in> set (route_listeners r listeners). set (listener_hostnames G ob g (hi_route r) l)) \<and>
    (condition_true conds ''Accepted'' \<longleftrightarrow> hrr_Hostnames res \<noteq> []) \<and>
    ss' = bump (count_attached G ob g (hi_route r) (route_listeners r listeners)) ss"
  by (rule processHTTPRoute_Inr [OF assms])

definition ex_las :: listener_and_status where
  "ex_las = \<lparr>ls_listener = ex_listener, ls_status = 0, ls_generation = 1\<rparr>"

theorem processHTTPRoute_served_witness:
  "\<exists>res conds ss'. processHTTPRoute ex_gateway_env ex_objects ex_gateway [(''https'', ex_las)] [new_listener_status] ex_info =
     Inr (res, conds, ss') \<and> set (hrr_Hostnames res) = {''a.example.com''} \<and> condition_true conds ''Accepted''"
proof -
  have "(case processHTTPRoute ex_gateway_env ex_objects ex_gateway [(''https'', ex_las)] [new_listener_status] ex_info of
      Inr _ \<Rightarrow> True | Inl _ \<Rightarrow> False)" by code_simp
  then obtain res conds ss' where
    p: "processHTTPRoute ex_gateway_env ex_objects ex_gateway [(''https'', ex_las)] [new_listener_status] ex_info = Inr (res, conds, ss')"
    by (auto split: sum.splits)
  have h: "listener_hostnames ex_gateway_env ex_objects ex_gateway (hi_route ex_info) ex_las = [''a.example.com'']" by code_simp
  have l: "route_listeners ex_info [(''https'', ex_las)] = [ex_las]"
    by (simp add: route_listeners_def parent_listeners_def ex_info_def ex_parent_def anyBackendRefHasFilters_def ex_hroute_def ex_br_def)
  from processHTTPRoute_served [OF ex_gateway_env_fair p] have s: "set (hrr_Hostnames res) = {''a.example.com''}"
    and c: "condition_true conds ''Accepted'' \<longleftrightarrow> hrr_Hostnames res \<noteq> []"
    unfolding l by (simp_all add: h)
  from s have "hrr_Hostnames res \<noteq> []" by (cases "hrr_Hostnames res") simp_all
  with c have "condition_true conds ''Accepted''" ..
  with s p show ?thesis by (intro exI conjI)
qed

end
