(* ===== verification/Gateway_Translate.thy ===== *)
theory Gateway_Translate
  imports Gateway_Routes Go_Url
begin

text \<open>
  The package \<^verbatim>\<open>pomerium/gateway\<close> with \<^verbatim>\<open>model/gateway_config.go\<close>: how an accepted HTTPRoute becomes Pomerium
  routes. A function that changes the route through a pointer and may fail returns the route as it was left
  beside the error, because the caller goes on with it.
\<close>

subsection \<open>Extension filters\<close>

record policy_filter =
  plf_ppl :: "string option"
  plf_rego :: "string list"
  plf_obj :: policy_filter_obj

text \<open>The value of the interface \<^verbatim>\<open>model.ExtensionFilter\<close>: its only implementation is a pointer to a policy
  filter, and an interface that holds a nil pointer is not nil.\<close>

datatype extension_filter = PolicyFilterPtr "policy_filter option"

record extension_filter_key =
  ek_Kind :: string
  ek_Namespace :: string
  ek_Name :: string

definition NewPolicyFilter :: "policy_env \<Rightarrow> policy_filter_obj \<Rightarrow> policy_filter option \<times> policy_error option" where
  "NewPolicyFilter P obj =
     (case policy_Parse P (pf_PPL obj) of
        Inl e \<Rightarrow> (None, Some e)
      | Inr (ppl, rego) \<Rightarrow> (Some \<lparr>plf_ppl = ppl, plf_rego = rego, plf_obj = obj\<rparr>, None))"

definition plf_policy :: "policy_filter \<Rightarrow> pb_policy" where
  "plf_policy f = new_policy\<lparr>p_Rego := plf_rego f, p_SourcePpl := plf_ppl f\<rparr>"

definition ApplyToRoute :: "extension_filter \<Rightarrow> pb_route \<Rightarrow> pb_route \<times> gw_error option" where
  "ApplyToRoute ef r =
     (case ef of
        PolicyFilterPtr None \<Rightarrow> (r, Some Panic)
      | PolicyFilterPtr (Some f) \<Rightarrow>
          if om_deletion (pf_meta (plf_obj f)) \<noteq> None then (r, Some ErrFilterDeleted)
          else (r\<lparr>r_Policies := r_Policies r @ [plf_policy f]\<rparr>, None))"

subsection \<open>The gateway configuration\<close>

record gateway_http_route_config =
  ghc_HTTPRoute :: http_route
  ghc_Hostnames :: "string list"
  ghc_ValidBackendRefs :: "object_meta \<Rightarrow> backend_ref \<Rightarrow> bool"
  ghc_Services :: "(namespaced_name, service) gomap"

record gateway_config =
  gcf_Routes :: "gateway_http_route_config list"
  gcf_Certificates :: "secret list"
  gcf_ExtensionFilters :: "(extension_filter_key, extension_filter) gomap"

definition new_gateway_config :: gateway_config where
  "new_gateway_config = \<lparr>gcf_Routes = [], gcf_Certificates = [], gcf_ExtensionFilters = []\<rparr>"

subsection \<open>Filters\<close>

definition makeHeadersMap :: "(string \<times> string) list \<Rightarrow> (string, string) gomap" where
  "makeHeadersMap headers = foldl (\<lambda>m (n, v). AList.update n v m) [] headers"

definition applyRequestHeaderFilter :: "pb_route \<Rightarrow> header_filter \<Rightarrow> pb_route" where
  "applyRequestHeaderFilter route f =
     route\<lparr>r_SetRequestHeaders := makeHeadersMap (hf_Set f), r_RemoveRequestHeaders := hf_Remove f\<rparr>"

definition applyRedirectFilter :: "pb_route \<Rightarrow> redirect_filter \<Rightarrow> pb_route" where
  "applyRedirectFilter route f =
     route\<lparr>r_Redirect := Some \<lparr>rr_SchemeRedirect = rf_Scheme f, rr_HostRedirect = rf_Hostname f,
       rr_ResponseCode = map_option word_of_int (rf_StatusCode f), rr_PortRedirect = map_option word_of_int (rf_Port f)\<rparr>\<rparr>"

definition applyExtensionFilter ::
  "pb_route \<Rightarrow> gateway_config \<Rightarrow> gateway_http_route_config \<Rightarrow> local_ref \<Rightarrow> pb_route \<times> gw_error option" where
  "applyExtensionFilter route config routeConfig f =
     (if lr_Group f \<noteq> PolicyFilterGroup then (route, Some (ErrFilterGroup (lr_Group f)))
      else
        let k = \<lparr>ek_Kind = lr_Kind f, ek_Namespace = om_namespace (rt_meta (ghc_HTTPRoute routeConfig)), ek_Name = lr_Name f\<rparr>
        in case map_of (gcf_ExtensionFilters config) k of
             None \<Rightarrow> (route, Some (ErrFilterNotFound (lr_Name f)))
           | Some ef \<Rightarrow> ApplyToRoute ef route)"

definition applyFilter ::
  "gateway_config \<Rightarrow> gateway_http_route_config \<Rightarrow> pb_route \<Rightarrow> route_filter \<Rightarrow> pb_route \<times> gw_error option" where
  "applyFilter config routeConfig route f =
     (case f of
        RequestHeaderModifier h \<Rightarrow> (applyRequestHeaderFilter route h, None)
      | RequestRedirect d \<Rightarrow> (applyRedirectFilter route d, None)
      | ExtensionRef l \<Rightarrow> applyExtensionFilter route config routeConfig l
      | OtherFilter t \<Rightarrow> (route, Some (ErrFilterUnsupported t)))"

fun applyFilters ::
  "gateway_config \<Rightarrow> gateway_http_route_config \<Rightarrow> pb_route \<Rightarrow> route_filter list \<Rightarrow> pb_route \<times> gw_error option" where
  "applyFilters config routeConfig route [] = (route, None)"
| "applyFilters config routeConfig route (f # fs) =
     (case applyFilter config routeConfig route f of
        (route', None) \<Rightarrow> applyFilters config routeConfig route' fs
      | (route', Some e) \<Rightarrow> (route', Some e))"

subsection \<open>Backend references\<close>

definition backendRefToToURLAndWeight ::
  "gateway_http_route_config \<Rightarrow> backend_ref \<Rightarrow> gw_error + string \<times> 32 word" where
  "backendRefToToURLAndWeight gc br =
     (let namespace = opt_default (om_namespace (rt_meta (ghc_HTTPRoute gc))) (br_Namespace br)
      in case br_Port br of
           None \<Rightarrow> Inl Panic
         | Some port0 \<Rightarrow>
             let port =
               (case map_of (ghc_Services gc) (NamespacedName namespace (br_Name br)) of
                  None \<Rightarrow> port0
                | Some svc \<Rightarrow>
                    if svc_cluster_ip svc = ''None''
                    then (case find (\<lambda>p. sp_port p = port0 \<and> ios_is_int (sp_target p)) (svc_ports svc) of
                            None \<Rightarrow> port0 | Some p \<Rightarrow> IntVal (sp_target p))
                    else port0)
             in Inr (''http://'' @ br_Name br @ ''.'' @ namespace @ ''.svc.cluster.local:'' @ show_int port,
                  (case br_Weight br of None \<Rightarrow> 1 | Some w \<Rightarrow> word_of_int w)))"

definition backend_step ::
  "gateway_http_route_config \<Rightarrow> pb_route \<Rightarrow> http_backend_ref \<Rightarrow> gw_error + pb_route" where
  "backend_step gc route hb =
     (if \<not> ghc_ValidBackendRefs gc (rt_meta (ghc_HTTPRoute gc)) (hb_ref hb) then Inr route
      else ebind (backendRefToToURLAndWeight gc (hb_ref hb)) (\<lambda>(u, w).
        if 0 < w then Inr (route\<lparr>r_To := r_To route @ [u], r_LoadBalancingWeights := r_LoadBalancingWeights route @ [w]\<rparr>)
        else Inr route))"

definition applyBackendRefs ::
  "pb_route \<Rightarrow> gateway_http_route_config \<Rightarrow> http_backend_ref list \<Rightarrow> gw_error + pb_route" where
  "applyBackendRefs route gc backendRefs =
     (if r_Redirect route = None \<and> backendRefs = []
      then Inr (route\<lparr>r_Response := Some \<lparr>dr_Status = 404, dr_Body = ''no backend specified''\<rparr>\<rparr>)
      else ebind (efold (backend_step gc) route backendRefs) (\<lambda>route'.
        if r_Redirect route' = None \<and> r_To route' = []
        then Inr (route'\<lparr>r_Response := Some \<lparr>dr_Status = 500, dr_Body = ''no valid backend''\<rparr>\<rparr>)
        else Inr route'))"

subsection \<open>Matches\<close>

definition applyPathMatch :: "pb_route \<Rightarrow> path_match option \<Rightarrow> pb_route" where
  "applyPathMatch route m =
     (case m of
        None \<Rightarrow> route
      | Some pm \<Rightarrow>
          (case (pm_Type pm, pm_Value pm) of
             (Some PathMatchExact, Some v) \<Rightarrow> route\<lparr>r_Path := v\<rparr>
           | (Some PathMatchPathPrefix, Some v) \<Rightarrow> route\<lparr>r_Prefix := v\<rparr>
           | (Some PathMatchRegularExpression, Some v) \<Rightarrow> route\<lparr>r_Regex := v\<rparr>
           | _ \<Rightarrow> route))"

text \<open>\<^verbatim>\<open>applyMatch\<close>: \<open>None\<close> stands for the result false.\<close>

definition applyMatch :: "pb_route \<Rightarrow> route_match \<Rightarrow> pb_route option" where
  "applyMatch route m =
     (if rm_Headers m \<noteq> [] \<or> rm_QueryParams m \<noteq> [] \<or> rm_Method m \<noteq> None then None
      else Some (applyPathMatch route (rm_Path m)))"

subsection \<open>Routes\<close>

definition rule_route ::
  "gateway_config \<Rightarrow> gateway_http_route_config \<Rightarrow> http_route_rule \<Rightarrow> gw_error + pb_route" where
  "rule_route config routeConfig rule =
     (case applyFilters config routeConfig (new_route\<lparr>r_PreserveHostHeader := True\<rparr>) (hr_Filters rule) of
        (pr, Some Panic) \<Rightarrow> Inl Panic
      | (pr, Some _) \<Rightarrow> Inr (pr\<lparr>r_Response := Some \<lparr>dr_Status = 500, dr_Body = ''invalid filter''\<rparr>\<rparr>)
      | (pr, None) \<Rightarrow> applyBackendRefs pr routeConfig (hr_BackendRefs rule))"

definition rule_routes ::
  "gateway_config \<Rightarrow> gateway_http_route_config \<Rightarrow> http_route_rule \<Rightarrow> gw_error + pb_route list" where
  "rule_routes config routeConfig rule =
     ebind (rule_route config routeConfig rule) (\<lambda>pr.
       if hr_Matches rule = [] then Inr [pr] else Inr (List.map_filter (applyMatch pr) (hr_Matches rule)))"

definition templateRoutes ::
  "gateway_config \<Rightarrow> gateway_http_route_config \<Rightarrow> gw_error + pb_route list" where
  "templateRoutes config routeConfig =
     ebind (emap (rule_routes config routeConfig) (rt_Rules (ghc_HTTPRoute routeConfig))) (\<lambda>prs. Inr (concat prs))"

definition host_route :: "gateway_env \<Rightarrow> gateway_http_route_config \<Rightarrow> nat \<Rightarrow> string \<Rightarrow> nat \<times> pb_route \<Rightarrow> pb_route" where
  "host_route G routeConfig n h itr =
     (let meta = rt_meta (ghc_HTTPRoute routeConfig);
          namePrefix = ge_slug G (om_namespace meta @ '' '' @ om_name meta) @ ''-'' @ ge_slug G h
      in (snd itr)\<lparr>r_From := URL_String ''https'' h,
           r_Name := Some (if n = 1 then namePrefix else namePrefix @ ''-'' @ show_nat (fst itr))\<rparr>)"

definition TranslateRoutes ::
  "gateway_env \<Rightarrow> gateway_config \<Rightarrow> gateway_http_route_config \<Rightarrow> gw_error + pb_route list" where
  "TranslateRoutes G gatewayConfig routeConfig =
     ebind (templateRoutes gatewayConfig routeConfig) (\<lambda>trs.
       Inr (concat (map (\<lambda>h. filter (ge_route_ok G) (map (host_route G routeConfig (length trs) h) (enumerate 0 trs)))
         (ghc_Hostnames routeConfig))))"

subsection \<open>What a translated rule must be\<close>

text \<open>The policy a filter attaches, when it can be applied; the other filters attach none.\<close>

definition filter_policy :: "gateway_config \<Rightarrow> gateway_http_route_config \<Rightarrow> route_filter \<Rightarrow> pb_policy option" where
  "filter_policy config rc f =
     (case f of
        ExtensionRef l \<Rightarrow>
          (if lr_Group l \<noteq> PolicyFilterGroup then None
           else case map_of (gcf_ExtensionFilters config)
               \<lparr>ek_Kind = lr_Kind l, ek_Namespace = om_namespace (rt_meta (ghc_HTTPRoute rc)), ek_Name = lr_Name l\<rparr> of
             Some (PolicyFilterPtr (Some p)) \<Rightarrow> if om_deletion (pf_meta (plf_obj p)) = None then Some (plf_policy p) else None
           | _ \<Rightarrow> None)
      | _ \<Rightarrow> None)"

definition filter_ok :: "gateway_config \<Rightarrow> gateway_http_route_config \<Rightarrow> route_filter \<Rightarrow> bool" where
  "filter_ok config rc f =
     (case f of
        ExtensionRef _ \<Rightarrow> filter_policy config rc f \<noteq> None
      | OtherFilter _ \<Rightarrow> False
      | _ \<Rightarrow> True)"

text \<open>The upstreams of a rule: one for each valid backend with a positive weight, in order.\<close>

definition backend_target :: "gateway_http_route_config \<Rightarrow> http_backend_ref \<Rightarrow> (string \<times> 32 word) option" where
  "backend_target rc hb =
     (if ghc_ValidBackendRefs rc (rt_meta (ghc_HTTPRoute rc)) (hb_ref hb)
      then (case backendRefToToURLAndWeight rc (hb_ref hb) of
              Inr (u, w) \<Rightarrow> if 0 < w then Some (u, w) else None
            | Inl _ \<Rightarrow> None)
      else None)"

definition backend_targets :: "gateway_http_route_config \<Rightarrow> http_backend_ref list \<Rightarrow> (string \<times> 32 word) list" where
  "backend_targets rc hbs = List.map_filter (backend_target rc) hbs"

definition translates :: "gateway_config \<Rightarrow> gateway_http_route_config \<Rightarrow> http_route_rule \<Rightarrow> pb_route \<Rightarrow> bool" where
  "translates config rc rule r \<longleftrightarrow>
     (if \<forall>f \<in> set (hr_Filters rule). filter_ok config rc f
      then r_To r = map fst (backend_targets rc (hr_BackendRefs rule)) \<and>
        r_LoadBalancingWeights r = map snd (backend_targets rc (hr_BackendRefs rule)) \<and>
        r_Policies r = List.map_filter (filter_policy config rc) (hr_Filters rule) \<and>
        (r_To r = [] \<longrightarrow> r_Redirect r \<noteq> None \<or> r_Response r \<noteq> None)
      else r_To r = [] \<and> r_Response r = Some \<lparr>dr_Status = 500, dr_Body = ''invalid filter''\<rparr>)"

subsection \<open>Lemmas\<close>

lemma applyFilter_cases:
  assumes "applyFilter config rc r f = (r', e)"
  shows "(e = None \<longleftrightarrow> filter_ok config rc f) \<and> r_To r' = r_To r \<and> r_LoadBalancingWeights r' = r_LoadBalancingWeights r \<and>
    r_Response r' = r_Response r \<and>
    (e = None \<longrightarrow> r_Policies r' = r_Policies r @ List.map_filter (filter_policy config rc) [f])"
  using assms
  by (cases f)
    (auto simp: applyFilter_def applyRequestHeaderFilter_def applyRedirectFilter_def applyExtensionFilter_def
      ApplyToRoute_def filter_ok_def filter_policy_def List.map_filter_def Let_def
      split: if_splits option.splits extension_filter.splits)

lemma map_filter_Cons: "List.map_filter g (x # xs) = List.map_filter g [x] @ List.map_filter g xs"
  by (simp add: List.map_filter_def)

lemma applyFilters_cases:
  "applyFilters config rc r fs = (r', e) \<Longrightarrow>
    (e = None \<longleftrightarrow> (\<forall>f \<in> set fs. filter_ok config rc f)) \<and> r_To r' = r_To r \<and>
    r_LoadBalancingWeights r' = r_LoadBalancingWeights r \<and> r_Response r' = r_Response r \<and>
    (e = None \<longrightarrow> r_Policies r' = r_Policies r @ List.map_filter (filter_policy config rc) fs)"
proof (induction config rc r fs arbitrary: r' e rule: applyFilters.induct)
  case (1 config rc r)
  then show ?case by (simp add: List.map_filter_def)
next
  case (2 config rc r f fs)
  obtain r1 e1 where f: "applyFilter config rc r f = (r1, e1)" by fastforce
  note f1 = applyFilter_cases [OF f]
  show ?case
  proof (cases e1)
    case None
    with "2.prems" f have rest: "applyFilters config rc r1 fs = (r', e)" by simp
    then show ?thesis
      using "2.IH" [OF f [symmetric] None rest] f1 None by (simp add: List.map_filter_simps split: option.splits)
  next
    case (Some x)
    then show ?thesis using "2.prems" f f1 by auto
  qed
qed

lemma backend_step_Inr:
  assumes "backend_step rc r hb = Inr r'"
  shows "r' = r\<lparr>r_To := r_To r @ map fst (backend_targets rc [hb]),
    r_LoadBalancingWeights := r_LoadBalancingWeights r @ map snd (backend_targets rc [hb])\<rparr>"
  using assms
  by (auto simp: backend_step_def backend_targets_def backend_target_def List.map_filter_def ebind_Inr_iff
      split: if_splits sum.splits)

lemma backend_targets_Cons: "backend_targets rc (hb # hbs) = backend_targets rc [hb] @ backend_targets rc hbs"
  unfolding backend_targets_def by (rule map_filter_Cons)

lemma backend_steps:
  "efold (backend_step rc) r hbs = Inr r' \<Longrightarrow>
     r' = r\<lparr>r_To := r_To r @ map fst (backend_targets rc hbs),
       r_LoadBalancingWeights := r_LoadBalancingWeights r @ map snd (backend_targets rc hbs)\<rparr>"
proof (induction hbs arbitrary: r)
  case Nil
  then show ?case by (simp add: backend_targets_def List.map_filter_def)
next
  case (Cons hb hbs)
  then obtain r1 where r1: "backend_step rc r hb = Inr r1" "efold (backend_step rc) r1 hbs = Inr r'"
    by (auto simp: ebind_Inr_iff)
  show ?case
    using Cons.IH [OF r1(2)] backend_step_Inr [OF r1(1)] backend_targets_Cons [of rc hb hbs] by simp
qed

lemma applyBackendRefs_Inr:
  assumes "applyBackendRefs pr rc hbs = Inr r"
  shows "r_To r = r_To pr @ map fst (backend_targets rc hbs) \<and>
    r_LoadBalancingWeights r = r_LoadBalancingWeights pr @ map snd (backend_targets rc hbs) \<and>
    r_Policies r = r_Policies pr \<and> (r_To r = [] \<longrightarrow> r_Redirect r \<noteq> None \<or> r_Response r \<noteq> None)"
proof (cases "r_Redirect pr = None \<and> hbs = []")
  case True
  then have "r = pr\<lparr>r_Response := Some \<lparr>dr_Status = 404, dr_Body = ''no backend specified''\<rparr>\<rparr>"
    using assms by (simp add: applyBackendRefs_def)
  then show ?thesis using True by (simp add: backend_targets_def List.map_filter_simps)
next
  case False
  then have run: "ebind (efold (backend_step rc) pr hbs) (\<lambda>route'.
      if r_Redirect route' = None \<and> r_To route' = []
      then Inr (route'\<lparr>r_Response := Some \<lparr>dr_Status = 500, dr_Body = ''no valid backend''\<rparr>\<rparr>) else Inr route') = Inr r"
    using assms unfolding applyBackendRefs_def by (simp only: if_False)
  then obtain r1 where r1: "efold (backend_step rc) pr hbs = Inr r1"
    by (cases "efold (backend_step rc) pr hbs") (simp_all only: ebind_simps sum.distinct)
  have r2: "(if r_Redirect r1 = None \<and> r_To r1 = []
      then Inr (r1\<lparr>r_Response := Some \<lparr>dr_Status = 500, dr_Body = ''no valid backend''\<rparr>\<rparr>) else Inr r1) = (Inr r :: gw_error + pb_route)"
    using run by (simp only: r1 ebind_simps)
  have r: "r = (if r_Redirect r1 = None \<and> r_To r1 = []
      then r1\<lparr>r_Response := Some \<lparr>dr_Status = 500, dr_Body = ''no valid backend''\<rparr>\<rparr> else r1)"
    using r2 by (auto split: if_splits)
  have "r_To r = r_To r1" "r_LoadBalancingWeights r = r_LoadBalancingWeights r1" "r_Policies r = r_Policies r1"
    "r_To r = [] \<longrightarrow> r_Redirect r \<noteq> None \<or> r_Response r \<noteq> None"
    unfolding r by (simp_all split: if_split)
  then show ?thesis using backend_steps [OF r1] by simp
qed

lemma rule_route_translates:
  assumes "rule_route config rc rule = Inr r"
  shows "translates config rc rule r"
proof -
  obtain pr e where fs: "applyFilters config rc (new_route\<lparr>r_PreserveHostHeader := True\<rparr>) (hr_Filters rule) = (pr, e)"
    by fastforce
  note p = applyFilters_cases [OF fs]
  show ?thesis
  proof (cases e)
    case None
    then have ab: "applyBackendRefs pr rc (hr_BackendRefs rule) = Inr r" using assms fs by (simp add: rule_route_def)
    from p None have "r_To pr = []" "r_LoadBalancingWeights pr = []"
      "r_Policies pr = List.map_filter (filter_policy config rc) (hr_Filters rule)"
      by (simp_all add: new_route_def)
    moreover have "\<forall>f \<in> set (hr_Filters rule). filter_ok config rc f" using p None by simp
    ultimately show ?thesis
      using applyBackendRefs_Inr [OF ab] by (simp add: translates_def)
  next
    case (Some x)
    then have "r = pr\<lparr>r_Response := Some \<lparr>dr_Status = 500, dr_Body = ''invalid filter''\<rparr>\<rparr>"
      using assms fs by (cases x) (simp_all add: rule_route_def)
    moreover have "\<not> (\<forall>f \<in> set (hr_Filters rule). filter_ok config rc f)" using p Some by simp
    moreover have "r_To pr = []" using p by (simp add: new_route_def)
    ultimately show ?thesis by (auto simp: translates_def)
  qed
qed

lemma translates_match: "applyMatch r m = Some r' \<Longrightarrow> translates config rc rule r' = translates config rc rule r"
  by (auto simp: applyMatch_def applyPathMatch_def translates_def split: if_splits option.splits path_match_type.splits)

lemma translates_host_route: "translates config rc rule (host_route G rc' n h (i, r)) = translates config rc rule r"
  by (simp add: host_route_def translates_def Let_def)

lemma rule_routes_translates:
  assumes "rule_routes config rc rule = Inr rs" "r \<in> set rs"
  shows "translates config rc rule r"
proof -
  obtain pr where pr: "rule_route config rc rule = Inr pr"
    and rs: "rs = (if hr_Matches rule = [] then [pr] else List.map_filter (applyMatch pr) (hr_Matches rule))"
    using assms(1) by (auto simp: rule_routes_def ebind_Inr_iff split: if_splits)
  show ?thesis
    using rs assms(2) rule_route_translates [OF pr] translates_match
    by (auto simp: List.map_filter_def split: if_splits)
qed

lemma TranslateRoutes_Inr:
  assumes "TranslateRoutes G config rc = Inr rs" "r \<in> set rs"
  shows "(\<exists>rule \<in> set (rt_Rules (ghc_HTTPRoute rc)). translates config rc rule r) \<and>
    (\<exists>h \<in> set (ghc_Hostnames rc). r_From r = URL_String ''https'' h) \<and> ge_route_ok G r"
proof -
  obtain prs where prs: "emap (rule_routes config rc) (rt_Rules (ghc_HTTPRoute rc)) = Inr prs"
    and rs: "rs = concat (map (\<lambda>h. filter (ge_route_ok G) (map (host_route G rc (length (concat prs)) h) (enumerate 0 (concat prs))))
      (ghc_Hostnames rc))"
    using assms(1) by (auto simp: TranslateRoutes_def templateRoutes_def ebind_Inr_iff)
  obtain h i tr where h: "h \<in> set (ghc_Hostnames rc)" and tr: "(i, tr) \<in> set (enumerate 0 (concat prs))"
    and r: "r = host_route G rc (length (concat prs)) h (i, tr)" "ge_route_ok G r"
    using assms(2) rs by fastforce
  from tr have "i < length (concat prs)" "tr = concat prs ! i" by (simp_all add: in_set_enumerate_eq)
  then have "tr \<in> set (concat prs)" by (simp only: nth_mem)
  then obtain ps where "ps \<in> set prs" "tr \<in> set ps" by auto
  then obtain rule where "rule \<in> set (rt_Rules (ghc_HTTPRoute rc))" "rule_routes config rc rule = Inr ps"
    using emap_Inr_set [OF prs] by blast
  then have "\<exists>rule \<in> set (rt_Rules (ghc_HTTPRoute rc)). translates config rc rule r"
    using rule_routes_translates \<open>tr \<in> set ps\<close> r translates_host_route by blast
  moreover have "r_From r = URL_String ''https'' h" using r by (simp add: host_route_def Let_def)
  ultimately show ?thesis using h r by blast
qed

lemma backend_targets_valid:
  assumes "(u, w) \<in> set (backend_targets rc hbs)"
  obtains hb where "hb \<in> set hbs" "ghc_ValidBackendRefs rc (rt_meta (ghc_HTTPRoute rc)) (hb_ref hb)" "0 < w"
    "backendRefToToURLAndWeight rc (hb_ref hb) = Inr (u, w)"
proof -
  from assms obtain hb where hb: "hb \<in> set hbs" "backend_target rc hb = Some (u, w)"
    by (auto simp: backend_targets_def List.map_filter_def)
  from hb(2) have "ghc_ValidBackendRefs rc (rt_meta (ghc_HTTPRoute rc)) (hb_ref hb)" "0 < w"
    "backendRefToToURLAndWeight rc (hb_ref hb) = Inr (u, w)"
    by (auto simp: backend_target_def split: if_splits sum.splits)
  with hb(1) show ?thesis by (rule that)
qed

subsection \<open>Properties\<close>

text \<open>C25: Every route that an HTTPRoute is translated to belongs to one of its rules and one of its hostnames and was
  accepted by Pomerium's validation. When all filters of the rule can be applied, its upstreams are exactly
  the valid backends with a positive weight, with those weights, it carries the policy of every policy filter
  of the rule, and without an upstream it redirects or answers by itself. When a filter cannot be
  applied, the route has no upstream and answers with status 500.\<close>

theorem TranslateRoutes_fail_closed:
  assumes "TranslateRoutes G config rc = Inr rs" "r \<in> set rs"
  shows "(\<exists>rule \<in> set (rt_Rules (ghc_HTTPRoute rc)). translates config rc rule r) \<and>
    (\<exists>h \<in> set (ghc_Hostnames rc). r_From r = URL_String ''https'' h) \<and> ge_route_ok G r"
  by (rule TranslateRoutes_Inr [OF assms])

definition ex_policy_obj :: "string \<Rightarrow> policy_filter_obj" where
  "ex_policy_obj ppl = \<lparr>pf_meta = (new_meta ''PolicyFilter'' ''app'' ''p'')\<lparr>om_group := PolicyFilterGroup\<rparr>, pf_PPL = ppl, pf_Conditions = []\<rparr>"

definition ex_gw_config :: "string \<Rightarrow> gateway_config" where
  "ex_gw_config ppl = new_gateway_config\<lparr>gcf_ExtensionFilters :=
     [(\<lparr>ek_Kind = ''PolicyFilter'', ek_Namespace = ''app'', ek_Name = ''p''\<rparr>,
       PolicyFilterPtr (fst (NewPolicyFilter ex_policy_env (ex_policy_obj ppl))))]\<rparr>"

definition ex_policy_ref :: route_filter where
  "ex_policy_ref = ExtensionRef \<lparr>lr_Group = PolicyFilterGroup, lr_Kind = ''PolicyFilter'', lr_Name = ''p''\<rparr>"

definition ex_rc :: gateway_http_route_config where
  "ex_rc = \<lparr>ghc_HTTPRoute = ex_hroute\<lparr>rt_Rules := [\<lparr>hr_Matches = [], hr_Filters = [ex_policy_ref], hr_BackendRefs = [ex_br None ''web'']\<rparr>]\<rparr>,
     ghc_Hostnames = [''a.example.com''], ghc_ValidBackendRefs = (\<lambda>_ _. True), ghc_Services = []\<rparr>"

theorem TranslateRoutes_fail_closed_witness:
  "\<exists>r. TranslateRoutes ex_gateway_env (ex_gw_config ''allow'') ex_rc = Inr [r] \<and>
     r_From r = URL_String ''https'' ''a.example.com'' \<and> length (r_Policies r) = 1"
proof -
  have "(case TranslateRoutes ex_gateway_env (ex_gw_config ''allow'') ex_rc of Inr [r] \<Rightarrow> length (r_Policies r) = 1 | _ \<Rightarrow> False)"
    by code_simp
  then obtain r where r: "TranslateRoutes ex_gateway_env (ex_gw_config ''allow'') ex_rc = Inr [r]" and p: "length (r_Policies r) = 1"
    by (auto split: sum.splits list.splits)
  have "r_From r = URL_String ''https'' ''a.example.com''"
    using TranslateRoutes_fail_closed [OF r, of r] by (simp add: ex_rc_def)
  with r p show ?thesis by blast
qed

text \<open>An invalid policy filter: its nil pointer is stored as a filter that is not nil, so a rule whose other
  filters are in order and that refers to it makes the translation of the route crash instead of
  answering with an error.\<close>

theorem invalid_policy_filter_panics:
  assumes "policy_Parse P (pf_PPL obj) = Inl e"
    and "map_of (gcf_ExtensionFilters config)
      \<lparr>ek_Kind = lr_Kind l, ek_Namespace = om_namespace (rt_meta (ghc_HTTPRoute rc)), ek_Name = lr_Name l\<rparr> =
      Some (PolicyFilterPtr (fst (NewPolicyFilter P obj)))"
    and "lr_Group l = PolicyFilterGroup"
    and "rt_Rules (ghc_HTTPRoute rc) = rule # rules" and "hr_Filters rule = pre @ ExtensionRef l # post"
    and "\<forall>f \<in> set pre. filter_ok config rc f"
  shows "TranslateRoutes G config rc = Inl Panic"
proof -
  have crash: "applyFilter config rc r (ExtensionRef l) = (r, Some Panic)" for r
    using assms(1-3) by (simp add: applyFilter_def applyExtensionFilter_def NewPolicyFilter_def ApplyToRoute_def)
  have "\<exists>r'. applyFilters config rc r (pre @ ExtensionRef l # post) = (r', Some Panic)" for r
    using assms(6)
  proof (induction pre arbitrary: r)
    case Nil
    then show ?case by (simp add: crash)
  next
    case (Cons f fs)
    obtain r1 e where f: "applyFilter config rc r f = (r1, e)" by fastforce
    then have "e = None" using applyFilter_cases [OF f] Cons.prems by simp
    then show ?case using f Cons by simp
  qed
  then obtain r' where "applyFilters config rc (new_route\<lparr>r_PreserveHostHeader := True\<rparr>) (hr_Filters rule) = (r', Some Panic)"
    unfolding assms(5) by blast
  then show ?thesis
    using assms(4) by (simp add: TranslateRoutes_def templateRoutes_def rule_routes_def rule_route_def)
qed

theorem invalid_policy_filter_panics_witness:
  "TranslateRoutes ex_gateway_env (ex_gw_config []) ex_rc = Inl Panic"
  by (rule invalid_policy_filter_panics [of ex_policy_env "ex_policy_obj []" "ErrParsePolicy ''empty''" "ex_gw_config []"
        "\<lparr>lr_Group = PolicyFilterGroup, lr_Kind = ''PolicyFilter'', lr_Name = ''p''\<rparr>" ex_rc
        "\<lparr>hr_Matches = [], hr_Filters = [ex_policy_ref], hr_BackendRefs = [ex_br None ''web'']\<rparr>" "[]" "[]" "[]"])
    (simp_all add: policy_Parse_def ex_policy_env_def ex_policy_obj_def ex_gw_config_def ex_rc_def ex_hroute_def new_meta_def
      ex_policy_ref_def new_gateway_config_def)

text \<open>The translation returns whenever every valid backend reference has a port and no filter is a nil pointer.\<close>

lemma applyFilters_no_panic:
  assumes "PolicyFilterPtr None \<notin> ran (map_of (gcf_ExtensionFilters config))"
  shows "snd (applyFilters config rc r fs) \<noteq> Some Panic"
  using assms
proof (induction config rc r fs rule: applyFilters.induct)
  case (2 config rc r f fs)
  have "snd (applyFilter config rc r f) \<noteq> Some Panic"
    using "2.prems"
    by (cases f) (auto simp: applyFilter_def applyExtensionFilter_def ApplyToRoute_def Let_def ran_def
        split: option.splits extension_filter.splits)
  then show ?case using 2 by (auto split: prod.splits option.splits)
qed simp

lemma backend_steps_total:
  assumes "\<And>hb. hb \<in> set hbs \<Longrightarrow> ghc_ValidBackendRefs rc (rt_meta (ghc_HTTPRoute rc)) (hb_ref hb) \<Longrightarrow> br_Port (hb_ref hb) \<noteq> None"
  shows "\<exists>r'. efold (backend_step rc) r hbs = Inr r'"
  using assms
proof (induction hbs arbitrary: r)
  case (Cons hb hbs)
  have "\<exists>r1. backend_step rc r hb = Inr r1"
    using Cons.prems [of hb] by (auto simp: backend_step_def backendRefToToURLAndWeight_def Let_def)
  then obtain r1 where r1: "backend_step rc r hb = Inr r1" ..
  have "\<exists>r'. efold (backend_step rc) r1 hbs = Inr r'" by (rule Cons.IH) (simp add: Cons.prems)
  with r1 show ?case by simp
qed simp

lemma TranslateRoutes_returns:
  assumes "PolicyFilterPtr None \<notin> ran (map_of (gcf_ExtensionFilters config))"
    and "\<And>hb. hb \<in> set (all_backend_refs (ghc_HTTPRoute rc)) \<Longrightarrow>
      ghc_ValidBackendRefs rc (rt_meta (ghc_HTTPRoute rc)) (hb_ref hb) \<Longrightarrow> br_Port (hb_ref hb) \<noteq> None"
  shows "\<exists>rs. TranslateRoutes G config rc = Inr rs"
proof -
  have "\<exists>pr. rule_route config rc rule = Inr pr" if "rule \<in> set (rt_Rules (ghc_HTTPRoute rc))" for rule
  proof -
    obtain pr e where fs: "applyFilters config rc (new_route\<lparr>r_PreserveHostHeader := True\<rparr>) (hr_Filters rule) = (pr, e)"
      by fastforce
    have "e \<noteq> Some Panic" using applyFilters_no_panic [OF assms(1)] fs by (metis snd_conv)
    moreover have "\<exists>r'. efold (backend_step rc) pr (hr_BackendRefs rule) = Inr r'"
      by (rule backend_steps_total) (use assms(2) that in \<open>auto simp: all_backend_refs_def\<close>)
    ultimately show ?thesis
      using fs by (auto simp: rule_route_def applyBackendRefs_def split: option.splits gw_error.splits)
  qed
  then have "\<exists>rs. rule_routes config rc rule = Inr rs" if "rule \<in> set (rt_Rules (ghc_HTTPRoute rc))" for rule
    using that by (fastforce simp: rule_routes_def)
  then have "\<exists>prs. emap (rule_routes config rc) (rt_Rules (ghc_HTTPRoute rc)) = Inr prs" by (rule emap_total)
  then show ?thesis by (auto simp: TranslateRoutes_def templateRoutes_def)
qed

end
