(* ===== verification/Gateway_Listeners.thy ===== *)
theory Gateway_Listeners
  imports Gateway_Translate
begin

text \<open>
  \<^verbatim>\<open>controllers/gateway/listener.go\<close>: the status of one listener and the certificates it adds to the
  configuration. The listener status that the code changes through a pointer is an argument and a result.
\<close>

subsection \<open>Operations\<close>

record group_kind =
  gk2_Group :: string
  gk2_Kind :: string

definition groupKindFromRouteGroupKind :: "route_group_kind \<Rightarrow> group_kind" where
  "groupKindFromRouteGroupKind rgk = \<lparr>gk2_Group = opt_default GatewayGroupName (gk_Group rgk), gk2_Kind = gk_Kind rgk\<rparr>"

definition httpRouteKind :: group_kind where
  "httpRouteKind = \<lparr>gk2_Group = GatewayGroupName, gk2_Kind = ''HTTPRoute''\<rparr>"

definition setListenerStatusSupportedKinds :: "gateway_env \<Rightarrow> listener_and_status \<Rightarrow> listener_status \<Rightarrow> listener_status" where
  "setListenerStatusSupportedKinds G l s =
     (let kinds = (case li_AllowedRoutes (ls_listener l) of None \<Rightarrow> [] | Some al \<Rightarrow> ar_Kinds al)
      in if kinds = [] then s\<lparr>lt_SupportedKinds := [\<lparr>gk_Group = None, gk_Kind = ''HTTPRoute''\<rparr>]\<rparr>
      else
        let supported = foldl (\<lambda>acc k. if groupKindFromRouteGroupKind k = httpRouteKind then [k] else acc) [] kinds;
            unsupportedKinds = foldl (\<lambda>acc k. if groupKindFromRouteGroupKind k = httpRouteKind then acc
              else List.insert (gk_Kind k) acc) [] kinds;
            s' = s\<lparr>lt_SupportedKinds := supported\<rparr>
        in if unsupportedKinds = [] then s'
           else s'\<lparr>lt_Conditions := fst (upsertConditions G (lt_Conditions s') (ls_generation l)
             [mk_condition ''ResolvedRefs'' False ''InvalidRouteKinds''
                (''unsupported route kinds: '' @ Join (go_range G unsupportedKinds) '', '' @ '' (only HTTPRoute is supported)''),
              mk_condition ''Programmed'' False ''Invalid'' []])\<rparr>)"

text \<open>\<^verbatim>\<open>validateTLSSecret\<close>: true when there is no error.\<close>

definition validateTLSSecret :: "gateway_env \<Rightarrow> secret \<Rightarrow> bool" where
  "validateTLSSecret G s = ge_keypair_ok G (secret_get s TLSCertKey) (secret_get s TLSPrivateKeyKey)"

text \<open>One certificate reference: the certificates found so far, and the invalid references.\<close>

definition cert_ref_step ::
  "gateway_env \<Rightarrow> objects \<Rightarrow> gateway \<Rightarrow> secret list \<times> (string, string list) gomap \<Rightarrow> secret_ref \<Rightarrow>
     secret list \<times> (string, string list) gomap" where
  "cert_ref_step G ob g st ref =
     (case st of (certs, invalidRefs) \<Rightarrow>
        let k = refKeyForCertificateRef (gw_meta g) ref in
        if \<not> allowed (o_ReferenceGrants ob) (gw_meta g) k
        then (certs, add_invalid invalidRefs ''RefNotPermitted'' (rk_Name k))
        else (case map_of (o_TLSSecrets ob) k of
                None \<Rightarrow> (certs, add_invalid invalidRefs ''InvalidCertificateRef'' (rk_Name k))
              | Some secret \<Rightarrow>
                  if \<not> validateTLSSecret G secret
                  then (certs, add_invalid invalidRefs ''InvalidCertificateRef'' (rk_Name k))
                  else (certs @ [secret], invalidRefs)))"

definition processCertificateRefs ::
  "gateway_env \<Rightarrow> gateway_config \<Rightarrow> objects \<Rightarrow> gateway \<Rightarrow> listener_and_status \<Rightarrow> listener_status \<Rightarrow> gateway_config \<times> listener_status" where
  "processCertificateRefs G config ob g l s =
     (case li_TLS (ls_listener l) of
        None \<Rightarrow> (config, s)
      | Some certificateRefs \<Rightarrow>
          (case foldl (cert_ref_step G ob g) ([], []) certificateRefs of
             (certs, invalidRefs) \<Rightarrow>
               let conds = fst (upsertCondition G (lt_Conditions s) (ls_generation l)
                     (resolved_refs_condition G ''certificate '' invalidRefs));
                   conds' = (if certs \<noteq> [] then conds
                     else fst (upsertCondition G conds (ls_generation l) (mk_condition ''Programmed'' False ''Invalid'' [])))
               in (config\<lparr>gcf_Certificates := gcf_Certificates config @ certs\<rparr>, s\<lparr>lt_Conditions := conds'\<rparr>)))"

definition processListener ::
  "gateway_env \<Rightarrow> gateway_config \<Rightarrow> objects \<Rightarrow> gateway \<Rightarrow> listener_and_status \<Rightarrow> listener_status \<Rightarrow> gateway_config \<times> listener_status" where
  "processListener G config ob g l s =
     (let s1 = s\<lparr>lt_Name := li_Name (ls_listener l)\<rparr>;
          s2 = s1\<lparr>lt_Conditions := fst (upsertConditions G (lt_Conditions s1) (om_generation (gw_meta g))
            [mk_condition ''Accepted'' True ''Accepted'' [], mk_condition ''Programmed'' True ''Programmed'' [],
             mk_condition ''ResolvedRefs'' True ''ResolvedRefs'' []])\<rparr>
      in processCertificateRefs G config ob g l (setListenerStatusSupportedKinds G l s2))"

subsection \<open>Lemmas\<close>

text \<open>A certificate reference that may be used: permitted, present and a matching pair.\<close>

definition usable_cert :: "gateway_env \<Rightarrow> objects \<Rightarrow> gateway \<Rightarrow> secret_ref \<Rightarrow> secret option" where
  "usable_cert G ob g ref =
     (let k = refKeyForCertificateRef (gw_meta g) ref
      in if allowed (o_ReferenceGrants ob) (gw_meta g) k
         then (case map_of (o_TLSSecrets ob) k of
                 Some s \<Rightarrow> if validateTLSSecret G s then Some s else None
               | None \<Rightarrow> None)
         else None)"

lemma cert_ref_steps:
  "fst (foldl (cert_ref_step G ob g) (certs, bad) refs) = certs @ List.map_filter (usable_cert G ob g) refs \<and>
   (snd (foldl (cert_ref_step G ob g) (certs, bad) refs) = [] \<longleftrightarrow> bad = [] \<and> (\<forall>r \<in> set refs. usable_cert G ob g r \<noteq> None))"
proof (induction refs arbitrary: certs bad)
  case Nil
  then show ?case by (simp add: List.map_filter_simps)
next
  case (Cons ref refs)
  obtain certs1 bad1 where st: "cert_ref_step G ob g (certs, bad) ref = (certs1, bad1)" by fastforce
  then have "certs1 = certs @ (case usable_cert G ob g ref of None \<Rightarrow> [] | Some s \<Rightarrow> [s])"
    "bad1 = [] \<longleftrightarrow> bad = [] \<and> usable_cert G ob g ref \<noteq> None"
    by (auto simp: cert_ref_step_def usable_cert_def Let_def split: if_splits option.splits)
  then show ?case
    using Cons.IH [of certs1 bad1] st by (simp add: List.map_filter_simps split: option.splits)
qed

definition listener_certs :: "gateway_env \<Rightarrow> objects \<Rightarrow> gateway \<Rightarrow> listener \<Rightarrow> secret list" where
  "listener_certs G ob g l =
     (case li_TLS l of None \<Rightarrow> [] | Some refs \<Rightarrow> List.map_filter (usable_cert G ob g) refs)"

lemma processCertificateRefs_config:
  "fst (processCertificateRefs G config ob g l s) =
     config\<lparr>gcf_Certificates := gcf_Certificates config @ listener_certs G ob g (ls_listener l)\<rparr>"
proof (cases "li_TLS (ls_listener l)")
  case (Some refs)
  obtain certs bad where f: "foldl (cert_ref_step G ob g) ([], []) refs = (certs, bad)" by fastforce
  then have "certs = List.map_filter (usable_cert G ob g) refs" using cert_ref_steps [of G ob g "[]" "[]" refs] by simp
  then show ?thesis using Some f by (simp add: processCertificateRefs_def listener_certs_def Let_def)
qed (simp add: processCertificateRefs_def listener_certs_def)

lemma processListener_config:
  "fst (processListener G config ob g l s) =
     config\<lparr>gcf_Certificates := gcf_Certificates config @ listener_certs G ob g (ls_listener l)\<rparr>"
  by (simp add: processListener_def Let_def processCertificateRefs_config)

lemma upsertConditions_Cons:
  "fst (upsertConditions G cs g (c # cs')) = fst (upsertConditions G (fst (upsertCondition G cs g c)) g cs')"
proof -
  have gen: "fst (foldl (\<lambda>(conds, modified) c. case upsertCondition G conds g c of (conds', b) \<Rightarrow> (conds', modified \<or> b)) (cs, m) xs) =
      fst (foldl (\<lambda>(conds, modified) c. case upsertCondition G conds g c of (conds', b) \<Rightarrow> (conds', modified \<or> b)) (cs, m') xs)"
    for cs m m' xs
    by (induction xs arbitrary: cs m m') (auto split: prod.splits)
  obtain cs1 b where "upsertCondition G cs g c = (cs1, b)" by fastforce
  then show ?thesis unfolding upsertConditions_def using gen [of cs1 b cs' False] by simp
qed

lemma upsertConditions_Nil [simp]: "fst (upsertConditions G cs g []) = cs"
  by (simp add: upsertConditions_def)

lemma mk_condition_sel [simp]: "cd_Type (mk_condition t s r m) = t" "cd_Status (mk_condition t s r m) = s"
  by (simp_all add: mk_condition_def)

text \<open>Which kinds a listener supports: the last entry that is an HTTPRoute, or HTTPRoute when nothing is said.\<close>

lemma supported_fold:
  "foldl (\<lambda>acc k. if P k then [k] else acc) acc ks \<noteq> [] \<longleftrightarrow> acc \<noteq> [] \<or> (\<exists>k \<in> set ks. P k)"
  by (induction ks arbitrary: acc) auto

lemma setListenerStatusSupportedKinds_supported:
  "lt_SupportedKinds (setListenerStatusSupportedKinds G l s) \<noteq> [] \<longleftrightarrow>
     (case li_AllowedRoutes (ls_listener l) of None \<Rightarrow> True
      | Some al \<Rightarrow> ar_Kinds al = [] \<or> (\<exists>k \<in> set (ar_Kinds al). groupKindFromRouteGroupKind k = httpRouteKind))"
  using supported_fold [of "\<lambda>k. groupKindFromRouteGroupKind k = httpRouteKind"]
  by (auto simp: setListenerStatusSupportedKinds_def Let_def split: option.splits)

lemma processCertificateRefs_supported [simp]:
  "lt_SupportedKinds (snd (processCertificateRefs G config ob g l s)) = lt_SupportedKinds s"
  by (simp add: processCertificateRefs_def Let_def split: option.splits prod.splits)

lemma processListener_supported:
  "lt_SupportedKinds (snd (processListener G config ob g l s)) \<noteq> [] \<longleftrightarrow>
     (case li_AllowedRoutes (ls_listener l) of None \<Rightarrow> True
      | Some al \<Rightarrow> ar_Kinds al = [] \<or> (\<exists>k \<in> set (ar_Kinds al). groupKindFromRouteGroupKind k = httpRouteKind))"
  by (simp add: processListener_def Let_def setListenerStatusSupportedKinds_supported)

subsubsection \<open>The programmed condition\<close>

lemma upsertConditions_true:
  "condition_true (fst (upsertConditions G cs g [c1, c2])) t =
     (if t = cd_Type c2 then cd_Status c2 else if t = cd_Type c1 then cd_Status c1 else condition_true cs t)"
  by (simp add: upsertConditions_Cons condition_true_upsert)

definition only_http_routes :: "listener \<Rightarrow> bool" where
  "only_http_routes l \<longleftrightarrow>
     (case li_AllowedRoutes l of None \<Rightarrow> True | Some al \<Rightarrow> \<forall>k \<in> set (ar_Kinds al). groupKindFromRouteGroupKind k = httpRouteKind)"

lemma unsupported_fold:
  "foldl (\<lambda>acc k. if P k then acc else List.insert (f k) acc) acc ks = [] \<longleftrightarrow> acc = [] \<and> (\<forall>k \<in> set ks. P k)"
proof (induction ks arbitrary: acc)
  case (Cons k ks)
  have "List.insert (f k) acc \<noteq> []" by (cases acc) (auto simp: List.insert_def)
  then show ?case using Cons.IH by simp
qed simp

lemma setListenerStatusSupportedKinds_programmed:
  "condition_true (lt_Conditions (setListenerStatusSupportedKinds G l s)) ''Programmed'' \<longleftrightarrow>
     only_http_routes (ls_listener l) \<and> condition_true (lt_Conditions s) ''Programmed''"
  using unsupported_fold [of "\<lambda>k. groupKindFromRouteGroupKind k = httpRouteKind" gk_Kind "[]"]
  by (auto simp: setListenerStatusSupportedKinds_def only_http_routes_def Let_def upsertConditions_true split: option.splits)

lemma processCertificateRefs_programmed:
  "condition_true (lt_Conditions (snd (processCertificateRefs G config ob g l s))) ''Programmed'' \<longleftrightarrow>
     (li_TLS (ls_listener l) = None \<or> listener_certs G ob g (ls_listener l) \<noteq> []) \<and> condition_true (lt_Conditions s) ''Programmed''"
proof (cases "li_TLS (ls_listener l)")
  case (Some refs)
  obtain certs bad where f: "foldl (cert_ref_step G ob g) ([], []) refs = (certs, bad)" by fastforce
  then have "certs = List.map_filter (usable_cert G ob g) refs" using cert_ref_steps [of G ob g "[]" "[]" refs] by simp
  then show ?thesis
    using Some f by (simp add: processCertificateRefs_def listener_certs_def Let_def condition_true_upsert)
qed (simp add: processCertificateRefs_def)

text \<open>C27: A listener adds to the configuration exactly the TLS secrets it refers to that exist, hold a matching key
  pair and are in its gateway's namespace or granted; and it is reported as programmed exactly when all
  route kinds it allows are HTTPRoutes and, if it terminates TLS, at least one of its certificates is usable.\<close>

theorem processListener_spec:
  "fst (processListener G config ob g l s) =
     config\<lparr>gcf_Certificates := gcf_Certificates config @ listener_certs G ob g (ls_listener l)\<rparr> \<and>
   (condition_true (lt_Conditions (snd (processListener G config ob g l s))) ''Programmed'' \<longleftrightarrow>
     only_http_routes (ls_listener l) \<and>
     \<not> (li_TLS (ls_listener l) \<noteq> None \<and> listener_certs G ob g (ls_listener l) = []))"
  by (simp add: processListener_config)
    (auto simp: processListener_def Let_def processCertificateRefs_programmed setListenerStatusSupportedKinds_programmed
      upsertConditions_Cons condition_true_upsert)

text \<open>The reported kinds are overridden: a listener with an unsupported route kind but good certificates still
  reports ResolvedRefs, because the certificate check writes the same condition afterwards.\<close>

lemma resolved_refs_overridden:
  assumes "fair_order G" "li_TLS (ls_listener l) = Some refs" "\<forall>r \<in> set refs. usable_cert G ob g r \<noteq> None"
  shows "condition_true (lt_Conditions (snd (processListener G config ob g l s))) ''ResolvedRefs''"
proof -
  have "condition_true (lt_Conditions (snd (processCertificateRefs G config ob g l s1))) ''ResolvedRefs''" for s1
  proof -
    obtain certs bad where f: "foldl (cert_ref_step G ob g) ([], []) refs = (certs, bad)" by fastforce
    then have "bad = []" using cert_ref_steps [of G ob g "[]" "[]" refs] assms(3) by simp
    then show ?thesis
      using assms(1,2) f by (simp add: processCertificateRefs_def Let_def condition_true_upsert)
  qed
  then show ?thesis by (simp add: processListener_def Let_def)
qed

end
