(* ===== verification/Gateway_Controller.thy ===== *)
theory Gateway_Controller
  imports Gateway_Listeners
begin

text \<open>
  The gateway controller: \<^verbatim>\<open>controllers/gateway/fetch.go\<close>, \<^verbatim>\<open>extensionfilters.go\<close> and \<^verbatim>\<open>gateway.go\<close>. The cluster is
  the record \<open>cluster\<close> of the lists that the API server returns (\<open>None\<close> when a call fails); the status
  updates that the controller sends are kept in a log, in order.
\<close>

subsection \<open>Fetching\<close>

record cluster =
  cl_GatewayClasses :: "gateway_class list option"
  cl_Gateways :: "gateway list option"
  cl_HTTPRoutes :: "http_route list option"
  cl_Namespaces :: "namespace_obj list option"
  cl_ReferenceGrants :: "reference_grant list option"
  cl_Secrets :: "secret list option"
  cl_Services :: "service list option"
  cl_PolicyFilters :: "policy_filter_obj list option"

record gateway_controller =
  gct_ControllerName :: string
  gct_ServiceName :: namespaced_name

definition list_objects :: "string \<Rightarrow> 'a list option \<Rightarrow> gw_error + 'a list" where
  "list_objects kind r = (case r of None \<Rightarrow> Inl (ErrList kind) | Some xs \<Rightarrow> Inr xs)"

text \<open>\<^verbatim>\<open>for i := range items { m[key(item)] = item }\<close>.\<close>

definition index_by :: "('a \<Rightarrow> 'k) \<Rightarrow> 'a list \<Rightarrow> ('k, 'a) gomap" where
  "index_by key xs = foldl (\<lambda>m x. AList.update (key x) x m) [] xs"

text \<open>The parents of a route that are gateways of this controller, as pointers.\<close>

definition route_parents :: "(ref_key, gateway) gomap \<Rightarrow> nat \<times> http_route \<Rightarrow> (ref_key \<times> route_ptr) list" where
  "route_parents gateways ir =
     List.map_filter (\<lambda>(j, pr). let key = refKeyForParentRef (rt_meta (snd ir)) pr
       in if map_of gateways key = None then None else Some (key, (fst ir, j))) (enumerate 0 (rt_ParentRefs (snd ir)))"

definition add_route_ptr :: "(ref_key, route_ptr list) gomap \<Rightarrow> ref_key \<times> route_ptr \<Rightarrow> (ref_key, route_ptr list) gomap" where
  "add_route_ptr m kp = AList.update (fst kp) ((case map_of m (fst kp) of None \<Rightarrow> [] | Some ps \<Rightarrow> ps) @ [snd kp]) m"

definition fetchObjects :: "gateway_controller \<Rightarrow> cluster \<Rightarrow> gw_error + objects" where
  "fetchObjects c cl =
     ebind (list_objects ''GatewayClass'' (cl_GatewayClasses cl)) (\<lambda>gcl.
     ebind (list_objects ''Gateway'' (cl_Gateways cl)) (\<lambda>gl.
     ebind (list_objects ''HTTPRoute'' (cl_HTTPRoutes cl)) (\<lambda>hrl.
     ebind (list_objects ''Namespace'' (cl_Namespaces cl)) (\<lambda>nl.
     ebind (list_objects ''ReferenceGrant'' (cl_ReferenceGrants cl)) (\<lambda>rgl.
     ebind (list_objects ''Secret'' (cl_Secrets cl)) (\<lambda>sl.
     ebind (list_objects ''Service'' (cl_Services cl)) (\<lambda>servicesList.
     ebind (list_objects ''PolicyFilter'' (cl_PolicyFilters cl)) (\<lambda>pfl.
       let gcNames = map (\<lambda>gc. om_name (gc_meta gc)) (filter (\<lambda>gc. gc_ControllerName gc = gct_ControllerName c) gcl);
           gateways = index_by (\<lambda>g. refKeyForObject (gw_meta g)) (filter (\<lambda>g. gw_ClassName g \<in> set gcNames) gl);
           routes = map (\<lambda>hr. ensureRouteParentStatusExists hr (gct_ControllerName c)) hrl
       in Inr \<lparr>o_Gateways = gateways,
            o_HTTPRoutes = routes,
            o_HTTPRoutesByGateway = foldl add_route_ptr [] (concat (map (route_parents gateways) (enumerate 0 routes))),
            o_OriginalHTTPRouteStatus = map (\<lambda>(i, hr). (i, rt_Parents hr)) (enumerate 0 hrl),
            o_Namespaces = index_by (\<lambda>n. om_name (ns_meta n)) nl,
            o_ReferenceGrants = buildReferenceGrantMap rgl,
            o_TLSSecrets = index_by (\<lambda>s. refKeyForObject (sec_meta s)) (filter (\<lambda>s. sec_type s = SecretTypeTLS) sl),
            o_Services = index_by (\<lambda>s. GetNamespacedName (svc_meta s)) servicesList,
            o_PolicyFilters = index_by (\<lambda>p. GetNamespacedName (pf_meta p)) pfl\<rparr>))))))))"

subsection \<open>Extension filters\<close>

record object_and_filter =
  oaf_object :: policy_filter_obj
  oaf_filter :: extension_filter

datatype status_update = UpdGateway gateway | UpdHTTPRoute http_route | UpdPolicyFilter policy_filter_obj

type_synonym extension_filters = "(ref_key, object_and_filter) gomap"

definition policy_error_string :: "policy_error \<Rightarrow> string" where
  "policy_error_string e =
     (case e of ErrParsePolicy m \<Rightarrow> ''couldn't parse policy: '' @ m | ErrPolicyInternal m \<Rightarrow> ''internal error: '' @ m)"

text \<open>The stored filter points to the object whose conditions were just written.\<close>

definition processPolicyFilter ::
  "gateway_env \<Rightarrow> extension_filters \<times> status_update list \<Rightarrow> policy_filter_obj \<Rightarrow> gw_error + extension_filters \<times> status_update list" where
  "processPolicyFilter G st pf =
     (case st of (exts, log) \<Rightarrow>
        let k = refKeyForObject (pf_meta pf) in
        if (case map_of exts k of None \<Rightarrow> False | Some f \<Rightarrow> om_generation (pf_meta (oaf_object f)) = om_generation (pf_meta pf))
        then Inr (exts, log)
        else
          case NewPolicyFilter (ge_policy G) pf of (flt, err) \<Rightarrow>
          (case upsertCondition G (pf_Conditions pf) (om_generation (pf_meta pf))
               (case err of None \<Rightarrow> mk_condition ''Valid'' True ''Valid'' []
                | Some e \<Rightarrow> mk_condition ''Valid'' False ''Invalid'' (policy_error_string e)) of
             (conds, modified) \<Rightarrow>
               let pf' = pf\<lparr>pf_Conditions := conds\<rparr>;
                   entry = \<lparr>oaf_object = pf', oaf_filter = PolicyFilterPtr (map_option (plf_obj_update (\<lambda>_. pf')) flt)\<rparr>
               in if modified \<and> \<not> ge_update_ok G ''PolicyFilter'' (GetNamespacedName (pf_meta pf))
                  then Inl (ErrUpdateStatus (om_name (pf_meta pf)))
                  else Inr (AList.update k entry exts, if modified then log @ [UpdPolicyFilter pf'] else log)))"

definition makeExtensionFilterMap :: "extension_filters \<Rightarrow> (extension_filter_key, extension_filter) gomap" where
  "makeExtensionFilterMap exts =
     foldl (\<lambda>m (k, f). AList.update \<lparr>ek_Kind = rk_Kind k, ek_Namespace = rk_Namespace k, ek_Name = rk_Name k\<rparr> (oaf_filter f) m) [] exts"

text \<open>The loop over the policy filters. The parsed filters outlive the reconciliation, so what was stored before
  an error stays stored.\<close>

fun policy_filter_loop ::
  "gateway_env \<Rightarrow> extension_filters \<times> status_update list \<Rightarrow> policy_filter_obj list \<Rightarrow>
     (extension_filters \<times> status_update list) \<times> gw_error option" where
  "policy_filter_loop G st [] = (st, None)"
| "policy_filter_loop G st (pf # pfs) =
     (case processPolicyFilter G st pf of Inl e \<Rightarrow> (st, Some e) | Inr st' \<Rightarrow> policy_filter_loop G st' pfs)"

definition processExtensionFilters ::
  "gateway_env \<Rightarrow> gateway_config \<Rightarrow> objects \<Rightarrow> extension_filters \<Rightarrow>
     extension_filters \<times> (gw_error + gateway_config \<times> status_update list)" where
  "processExtensionFilters G config ob exts =
     (case policy_filter_loop G (exts, []) (map snd (go_range G (o_PolicyFilters ob))) of
        ((exts', log), Some e) \<Rightarrow> (exts', Inl e)
      | ((exts', log), None) \<Rightarrow>
          (exts', Inr (config\<lparr>gcf_ExtensionFilters := makeExtensionFilterMap (go_range G exts')\<rparr>, log)))"

subsection \<open>Gateways\<close>

definition ensureListenerStatusExists :: "gateway \<Rightarrow> gateway" where
  "ensureListenerStatusExists g =
     (if length (gw_StatusListeners g) = length (gw_Listeners g) \<and>
         list_all2 (\<lambda>s l. lt_Name s = li_Name l) (gw_StatusListeners g) (gw_Listeners g)
      then g
      else
        let listenerStatusMap = index_by lt_Name (gw_StatusListeners g)
        in g\<lparr>gw_StatusListeners := map (\<lambda>l. case map_of listenerStatusMap (li_Name l) of
              None \<Rightarrow> new_listener_status | Some s \<Rightarrow> s) (gw_Listeners g)\<rparr>)"

definition updateGatewayAddresses :: "objects \<Rightarrow> gateway \<Rightarrow> namespaced_name \<Rightarrow> gateway" where
  "updateGatewayAddresses ob g serviceName =
     (case map_of (o_Services ob) serviceName of
        None \<Rightarrow> g
      | Some proxy \<Rightarrow> g\<lparr>gw_Addresses := List.map_filter (\<lambda>i.
          if lb_ip i \<noteq> [] then Some (IPAddress (lb_ip i))
          else if lb_hostname i \<noteq> [] then Some (HostnameAddress (lb_hostname i)) else None) (svc_lb proxy)\<rparr>)"

definition upsertGatewayConditions :: "gateway_env \<Rightarrow> gateway \<Rightarrow> condition list \<Rightarrow> gateway" where
  "upsertGatewayConditions G g cs =
     g\<lparr>gw_Conditions := fst (upsertConditions G (gw_Conditions g) (om_generation (gw_meta g)) cs)\<rparr>"

text \<open>The loop over the listeners, by position: the configuration, the listener statuses and the listeners by name.\<close>

definition gateway_listener_step ::
  "gateway_env \<Rightarrow> objects \<Rightarrow> gateway \<Rightarrow> gateway_config \<times> listener_status list \<times> (string, listener_and_status) gomap \<Rightarrow>
     nat \<times> listener \<Rightarrow> gateway_config \<times> listener_status list \<times> (string, listener_and_status) gomap" where
  "gateway_listener_step G ob g st il =
     (case st of (config, ss, byName) \<Rightarrow>
        case il of (i, l) \<Rightarrow>
        let las = \<lparr>ls_listener = l, ls_status = i, ls_generation = om_generation (gw_meta g)\<rparr>
        in case processListener G config ob g las (ss ! i) of
             (config', s) \<Rightarrow>
               (config', ss[i := s\<lparr>lt_AttachedRoutes := 0\<rparr>],
                if lt_SupportedKinds s \<noteq> [] then AList.update (li_Name l) las byName else byName))"

text \<open>The route that a pointer names, and the write of its conditions.\<close>

definition info_at :: "http_route list \<Rightarrow> route_ptr \<Rightarrow> http_route_info" where
  "info_at routes p =
     (let r = routes ! fst p
      in \<lparr>hi_route = r, hi_parent = rt_ParentRefs r ! snd p, hi_status = rp_Conditions (rt_Parents r ! snd p)\<rparr>)"

definition set_route_conditions :: "http_route list \<Rightarrow> route_ptr \<Rightarrow> condition list \<Rightarrow> http_route list" where
  "set_route_conditions routes p conds =
     (let r = routes ! fst p
      in routes[fst p := r\<lparr>rt_Parents := (rt_Parents r)[snd p := (rt_Parents r ! snd p)\<lparr>rp_Conditions := conds\<rparr>]\<rparr>])"

text \<open>The loop over the routes of the gateway: the configuration, the routes and the listener statuses.\<close>

definition gateway_route_step ::
  "gateway_env \<Rightarrow> objects \<Rightarrow> gateway \<Rightarrow> (string, listener_and_status) gomap \<Rightarrow>
     gateway_config \<times> http_route list \<times> listener_status list \<Rightarrow> route_ptr \<Rightarrow>
     gw_error + gateway_config \<times> http_route list \<times> listener_status list" where
  "gateway_route_step G ob g byName st p =
     (case st of (config, routes, ss) \<Rightarrow>
        ebind (processHTTPRoute G ob g byName ss (info_at routes p)) (\<lambda>(result, conds, ss').
          Inr ((if hrr_Hostnames result \<noteq> []
                then config\<lparr>gcf_Routes := gcf_Routes config @
                  [\<lparr>ghc_HTTPRoute = routes ! fst p, ghc_Hostnames = hrr_Hostnames result,
                    ghc_ValidBackendRefs = brs_Valid (hrr_ValidBackendRefs result), ghc_Services = o_Services ob\<rparr>]\<rparr>
                else config),
               set_route_conditions routes p conds, ss')))"

text \<open>
  \<^verbatim>\<open>processGateway\<close>. The comparison before the update is between a status and a pointer to a status;
  \<^verbatim>\<open>DeepEqual\<close> of values of different types is false, so the status is always sent.
\<close>

definition processGateway ::
  "gateway_env \<Rightarrow> gateway_controller \<Rightarrow> gateway_config \<times> objects \<times> status_update list \<Rightarrow> ref_key \<Rightarrow>
     gw_error + gateway_config \<times> objects \<times> status_update list" where
  "processGateway G c st gatewayKey =
     (case st of (config, ob, log) \<Rightarrow>
        (case map_of (o_Gateways ob) gatewayKey of
           None \<Rightarrow> Inl Panic
         | Some g0 \<Rightarrow>
             let g1 = ensureListenerStatusExists g0 in
             case foldl (gateway_listener_step G ob g1) (config, gw_StatusListeners g1, []) (enumerate 0 (gw_Listeners g1)) of
               (config1, ss1, byName) \<Rightarrow>
             ebind (efold (gateway_route_step G ob g1 byName) (config1, o_HTTPRoutes ob, ss1)
                 (case map_of (o_HTTPRoutesByGateway ob) gatewayKey of None \<Rightarrow> [] | Some ps \<Rightarrow> ps)) (\<lambda>(config2, routes2, ss2).
               let g2 = updateGatewayAddresses ob (g1\<lparr>gw_StatusListeners := ss2\<rparr>) (gct_ServiceName c);
                   g3 = upsertGatewayConditions G g2 [mk_condition ''Accepted'' True ''Accepted'' [],
                     mk_condition ''Programmed'' True ''Programmed'' []]
               in if \<not> ge_update_ok G ''Gateway'' (GetNamespacedName (gw_meta g3)) then Inl (ErrUpdateStatus (om_name (gw_meta g3)))
                  else Inr (config2, ob\<lparr>o_HTTPRoutes := routes2, o_Gateways := AList.update gatewayKey g3 (o_Gateways ob)\<rparr>,
                         log @ [UpdGateway g3]))))"

text \<open>\<^verbatim>\<open>updateModifiedHTTPRouteStatus\<close> compares in the same way, so it sends the status of every route.\<close>

definition updateModifiedHTTPRouteStatus ::
  "gateway_env \<Rightarrow> http_route list \<Rightarrow> status_update list \<Rightarrow> (nat \<times> route_parent_status list) list \<Rightarrow> gw_error + status_update list" where
  "updateModifiedHTTPRouteStatus G routes log s =
     efold (\<lambda>log io. let r = routes ! fst io in
       if \<not> ge_update_ok G ''HTTPRoute'' (GetNamespacedName (rt_meta r)) then Inl (ErrUpdateStatus (om_name (rt_meta r)))
       else Inr (log @ [UpdHTTPRoute r])) log s"

text \<open>The parsed filters, and the configuration with the written objects or the error.\<close>

definition processGateways ::
  "gateway_env \<Rightarrow> gateway_controller \<Rightarrow> extension_filters \<Rightarrow> objects \<Rightarrow>
     extension_filters \<times> (gw_error + gateway_config \<times> objects \<times> status_update list)" where
  "processGateways G c exts ob =
     (case processExtensionFilters G new_gateway_config ob exts of
        (exts', res) \<Rightarrow>
          (exts',
           ebind res (\<lambda>(config, log).
           ebind (efold (processGateway G c) (config, ob, log) (map fst (go_range G (o_Gateways ob)))) (\<lambda>(config', ob', log').
           ebind (updateModifiedHTTPRouteStatus G (o_HTTPRoutes ob') log' (o_OriginalHTTPRouteStatus ob')) (\<lambda>log''.
             Inr (config', ob', log''))))))"

subsection \<open>What processing keeps\<close>

text \<open>Processing writes statuses only: a route without its statuses, and what else of the objects stays.\<close>

definition route_spec :: "http_route \<Rightarrow> http_route" where
  "route_spec r = r\<lparr>rt_Parents := []\<rparr>"

definition same_spec :: "objects \<Rightarrow> objects \<Rightarrow> bool" where
  "same_spec ob ob' \<longleftrightarrow>
     o_ReferenceGrants ob' = o_ReferenceGrants ob \<and> o_Services ob' = o_Services ob \<and> o_TLSSecrets ob' = o_TLSSecrets ob \<and>
     o_HTTPRoutesByGateway ob' = o_HTTPRoutesByGateway ob \<and>
     map route_spec (o_HTTPRoutes ob') = map route_spec (o_HTTPRoutes ob) \<and>
     (\<forall>k g'. map_of (o_Gateways ob') k = Some g' \<longrightarrow>
        (\<exists>g. map_of (o_Gateways ob) k = Some g \<and> gw_meta g' = gw_meta g \<and> gw_Listeners g' = gw_Listeners g))"

definition ptrs_ok :: "objects \<Rightarrow> bool" where
  "ptrs_ok ob \<longleftrightarrow> (\<forall>ps \<in> ran (map_of (o_HTTPRoutesByGateway ob)). \<forall>p \<in> set ps. fst p < length (o_HTTPRoutes ob))"

text \<open>A route of the configuration is one of the fetched routes, and its checker only lets usable backends pass.\<close>

definition route_config_safe :: "objects \<Rightarrow> gateway_http_route_config \<Rightarrow> bool" where
  "route_config_safe ob rc \<longleftrightarrow>
     route_spec (ghc_HTTPRoute rc) \<in> route_spec ` set (o_HTTPRoutes ob) \<and> ghc_Services rc = o_Services ob \<and>
     (\<forall>br. ghc_ValidBackendRefs rc (rt_meta (ghc_HTTPRoute rc)) br \<longrightarrow> usable_backend ob (rt_meta (ghc_HTTPRoute rc)) br)"

definition cert_safe :: "gateway_env \<Rightarrow> objects \<Rightarrow> secret \<Rightarrow> bool" where
  "cert_safe G ob s \<longleftrightarrow>
     (\<exists>k g. map_of (o_Gateways ob) k = Some g \<and> (\<exists>l \<in> set (gw_Listeners g). s \<in> set (listener_certs G ob g l)))"

definition config_safe :: "gateway_env \<Rightarrow> objects \<Rightarrow> gateway_config \<Rightarrow> bool" where
  "config_safe G ob config \<longleftrightarrow>
     (\<forall>rc \<in> set (gcf_Routes config). route_config_safe ob rc) \<and> (\<forall>s \<in> set (gcf_Certificates config). cert_safe G ob s)"

lemma same_spec_refl: "same_spec ob ob"
  by (simp add: same_spec_def)

lemma same_spec_trans: "same_spec a b \<Longrightarrow> same_spec b c \<Longrightarrow> same_spec a c"
  unfolding same_spec_def by (elim conjE, intro conjI) (simp_all, metis)

lemma usable_backend_cong:
  "o_ReferenceGrants ob' = o_ReferenceGrants ob \<Longrightarrow> o_Services ob' = o_Services ob \<Longrightarrow>
     usable_backend ob' m br = usable_backend ob m br"
  by (simp add: usable_backend_def)

lemma listener_certs_cong:
  "o_ReferenceGrants ob' = o_ReferenceGrants ob \<Longrightarrow> o_TLSSecrets ob' = o_TLSSecrets ob \<Longrightarrow> gw_meta g' = gw_meta g \<Longrightarrow>
     listener_certs G ob' g' l = listener_certs G ob g l"
proof -
  assume "o_ReferenceGrants ob' = o_ReferenceGrants ob" "o_TLSSecrets ob' = o_TLSSecrets ob" "gw_meta g' = gw_meta g"
  then have "usable_cert G ob' g' = usable_cert G ob g" by (simp add: fun_eq_iff usable_cert_def Let_def)
  then show ?thesis by (simp add: listener_certs_def split: option.split)
qed

lemma gateway_listener_steps:
  "foldl (gateway_listener_step G ob g) (config, ss, byName) ils = (config', ss', byName') \<Longrightarrow>
     config' = config\<lparr>gcf_Certificates := gcf_Certificates config @ concat (map (\<lambda>il. listener_certs G ob g (snd il)) ils)\<rparr>"
proof (induction ils arbitrary: config ss byName)
  case (Cons il ils)
  obtain config1 ss1 byName1 where st: "gateway_listener_step G ob g (config, ss, byName) il = (config1, ss1, byName1)"
    by (cases "gateway_listener_step G ob g (config, ss, byName) il") auto
  have "config1 = config\<lparr>gcf_Certificates := gcf_Certificates config @ listener_certs G ob g (snd il)\<rparr>"
    using st processListener_config [of G config ob g]
    by (cases il) (auto simp: gateway_listener_step_def Let_def split: prod.splits, (metis fst_conv listener_and_status.select_convs(1))+)
  then show ?case using Cons.IH [of config1 ss1 byName1] Cons.prems st by simp
qed simp

lemma processHTTPRoute_valid:
  assumes "processHTTPRoute G ob g byName ss r = Inr (res, conds, ss')"
    "brs_Valid (hrr_ValidBackendRefs res) (rt_meta (hi_route r)) br"
  shows "usable_backend ob (rt_meta (hi_route r)) br"
proof -
  obtain v c where vc: "validateHTTPRouteBackendRefsResolved G ob r = (v, c)" by fastforce
  have "hrr_ValidBackendRefs res = None \<or> hrr_ValidBackendRefs res = v"
    using assms(1) vc by (auto simp: processHTTPRoute_def ebind_Inr_iff split: if_splits option.splits)
  moreover have "hrr_ValidBackendRefs res \<noteq> None" using assms(2) by (auto simp: brs_Valid_def split: option.splits)
  ultimately show ?thesis using assms(2) validate_valid [OF vc] by simp
qed

lemma route_spec_set_conditions:
  "map route_spec (set_route_conditions routes p conds) = map route_spec routes"
  unfolding set_route_conditions_def Let_def
  by (cases "fst p < length routes") (simp_all add: map_update route_spec_def list_update_same_conv list_update_beyond)

lemma gateway_route_step_Inr:
  assumes "gateway_route_step G ob g byName (config, routes, ss) p = Inr (config', routes', ss')" "fst p < length routes"
    and "map route_spec routes = map route_spec (o_HTTPRoutes ob)"
  shows "map route_spec routes' = map route_spec routes \<and> gcf_Certificates config' = gcf_Certificates config \<and>
    gcf_ExtensionFilters config' = gcf_ExtensionFilters config \<and>
    (\<forall>rc \<in> set (gcf_Routes config'). rc \<in> set (gcf_Routes config) \<or> route_config_safe ob rc)"
proof -
  obtain res conds where p: "processHTTPRoute G ob g byName ss (info_at routes p) = Inr (res, conds, ss')"
    and r': "routes' = set_route_conditions routes p conds"
    and c': "config' = (if hrr_Hostnames res \<noteq> []
      then config\<lparr>gcf_Routes := gcf_Routes config @
        [\<lparr>ghc_HTTPRoute = routes ! fst p, ghc_Hostnames = hrr_Hostnames res,
          ghc_ValidBackendRefs = brs_Valid (hrr_ValidBackendRefs res), ghc_Services = o_Services ob\<rparr>]\<rparr>
      else config)"
    using assms(1) by (auto simp: gateway_route_step_def ebind_Inr_iff)
  have "hi_route (info_at routes p) = routes ! fst p" by (simp add: info_at_def Let_def)
  then have valid: "brs_Valid (hrr_ValidBackendRefs res) (rt_meta (routes ! fst p)) br \<Longrightarrow> usable_backend ob (rt_meta (routes ! fst p)) br" for br
    using processHTTPRoute_valid [OF p] by simp
  have "route_spec (routes ! fst p) \<in> set (map route_spec routes)" using assms(2) by simp
  then have "route_spec (routes ! fst p) \<in> route_spec ` set (o_HTTPRoutes ob)" using assms(3) by simp
  then show ?thesis
    using valid unfolding r' route_spec_set_conditions c' by (auto simp: route_config_safe_def)
qed

lemma gateway_route_steps:
  "efold (gateway_route_step G ob g byName) (config, routes, ss) ps = Inr (config', routes', ss') \<Longrightarrow>
   \<forall>p \<in> set ps. fst p < length routes \<Longrightarrow> map route_spec routes = map route_spec (o_HTTPRoutes ob) \<Longrightarrow>
     map route_spec routes' = map route_spec (o_HTTPRoutes ob) \<and> gcf_Certificates config' = gcf_Certificates config \<and>
     gcf_ExtensionFilters config' = gcf_ExtensionFilters config \<and>
     (\<forall>rc \<in> set (gcf_Routes config'). rc \<in> set (gcf_Routes config) \<or> route_config_safe ob rc)"
proof (induction ps arbitrary: config routes ss)
  case (Cons p ps)
  then obtain config1 routes1 ss1 where
    st: "gateway_route_step G ob g byName (config, routes, ss) p = Inr (config1, routes1, ss1)"
    and rest: "efold (gateway_route_step G ob g byName) (config1, routes1, ss1) ps = Inr (config', routes', ss')"
    by (auto simp: ebind_Inr_iff)
  have s1: "map route_spec routes1 = map route_spec routes"
    "gcf_Certificates config1 = gcf_Certificates config" "gcf_ExtensionFilters config1 = gcf_ExtensionFilters config"
    "\<And>rc. rc \<in> set (gcf_Routes config1) \<Longrightarrow> rc \<in> set (gcf_Routes config) \<or> route_config_safe ob rc"
    using gateway_route_step_Inr [OF st] Cons.prems by auto
  have "length routes1 = length routes" using s1(1) by (rule map_eq_imp_length_eq)
  then have "\<forall>p \<in> set ps. fst p < length routes1" using Cons.prems(2) by simp
  from Cons.IH [OF rest this] s1 Cons.prems(3) show ?case by auto
qed simp

lemma ensureListenerStatusExists_spec [simp]:
  "gw_meta (ensureListenerStatusExists g) = gw_meta g" "gw_Listeners (ensureListenerStatusExists g) = gw_Listeners g"
  by (simp_all add: ensureListenerStatusExists_def Let_def)

lemma updateGatewayAddresses_spec [simp]:
  "gw_meta (updateGatewayAddresses ob g n) = gw_meta g" "gw_Listeners (updateGatewayAddresses ob g n) = gw_Listeners g"
  by (simp_all add: updateGatewayAddresses_def split: option.split)

lemma upsertGatewayConditions_spec [simp]:
  "gw_meta (upsertGatewayConditions G g cs) = gw_meta g" "gw_Listeners (upsertGatewayConditions G g cs) = gw_Listeners g"
  by (simp_all add: upsertGatewayConditions_def)

lemma processGateway_cases:
  assumes "processGateway G c (config, ob, log) k = Inr (config', ob', log')"
  obtains g0 config1 ss1 byName routes2 ss2 g3 where
    "map_of (o_Gateways ob) k = Some g0"
    "foldl (gateway_listener_step G ob (ensureListenerStatusExists g0))
       (config, gw_StatusListeners (ensureListenerStatusExists g0), []) (enumerate 0 (gw_Listeners g0)) = (config1, ss1, byName)"
    "efold (gateway_route_step G ob (ensureListenerStatusExists g0) byName) (config1, o_HTTPRoutes ob, ss1)
       (case map_of (o_HTTPRoutesByGateway ob) k of None \<Rightarrow> [] | Some ps \<Rightarrow> ps) = Inr (config', routes2, ss2)"
    "gw_meta g3 = gw_meta g0" "gw_Listeners g3 = gw_Listeners g0" "log' = log @ [UpdGateway g3]"
    "ob' = ob\<lparr>o_HTTPRoutes := routes2, o_Gateways := AList.update k g3 (o_Gateways ob)\<rparr>"
proof -
  obtain g0 where g0: "map_of (o_Gateways ob) k = Some g0" using assms by (auto simp: processGateway_def split: option.splits)
  let ?g1 = "ensureListenerStatusExists g0"
  obtain config1 ss1 byName where
    l: "foldl (gateway_listener_step G ob ?g1) (config, gw_StatusListeners ?g1, []) (enumerate 0 (gw_Listeners g0)) = (config1, ss1, byName)"
    by (metis prod_cases3)
  let ?g3 = "\<lambda>ss2. upsertGatewayConditions G (updateGatewayAddresses ob (?g1\<lparr>gw_StatusListeners := ss2\<rparr>) (gct_ServiceName c))
    [mk_condition ''Accepted'' True ''Accepted'' [], mk_condition ''Programmed'' True ''Programmed'' []]"
  obtain routes2 ss2 where
    "efold (gateway_route_step G ob ?g1 byName) (config1, o_HTTPRoutes ob, ss1)
       (case map_of (o_HTTPRoutesByGateway ob) k of None \<Rightarrow> [] | Some ps \<Rightarrow> ps) = Inr (config', routes2, ss2)"
    "log' = log @ [UpdGateway (?g3 ss2)]"
    "ob' = ob\<lparr>o_HTTPRoutes := routes2, o_Gateways := AList.update k (?g3 ss2) (o_Gateways ob)\<rparr>"
    using assms g0 l by (auto simp: processGateway_def Let_def ebind_Inr_iff split: if_splits)
  with g0 l show ?thesis by (intro that [where ?g3.0 = "?g3 ss2"]) simp_all
qed

lemma processGateway_safe:
  assumes "processGateway G c (config, ob, log) k = Inr (config', ob', log')"
    and "same_spec ob0 ob" "ptrs_ok ob0" "config_safe G ob0 config"
  shows "same_spec ob0 ob' \<and> config_safe G ob0 config' \<and> gcf_ExtensionFilters config' = gcf_ExtensionFilters config"
  using assms(1)
proof (cases rule: processGateway_cases)
  case (1 g0 config1 ss1 byName routes2 ss2 g3)
  let ?ps = "case map_of (o_HTTPRoutesByGateway ob) k of None \<Rightarrow> [] | Some ps \<Rightarrow> ps"
  have len: "length (o_HTTPRoutes ob) = length (o_HTTPRoutes ob0)"
    using assms(2) by (metis same_spec_def length_map)
  have "\<forall>p \<in> set ?ps. fst p < length (o_HTTPRoutes ob)"
  proof (cases "map_of (o_HTTPRoutesByGateway ob) k")
    case (Some ps)
    then have "ps \<in> ran (map_of (o_HTTPRoutesByGateway ob0))" using assms(2) by (simp add: same_spec_def ranI)
    then show ?thesis using assms(3) Some len unfolding ptrs_ok_def by simp
  qed simp
  from gateway_route_steps [OF 1(3) this refl] have rs:
    "map route_spec routes2 = map route_spec (o_HTTPRoutes ob)" "gcf_Certificates config' = gcf_Certificates config1"
    "gcf_ExtensionFilters config' = gcf_ExtensionFilters config1"
    "\<And>rc. rc \<in> set (gcf_Routes config') \<Longrightarrow> rc \<in> set (gcf_Routes config1) \<or> route_config_safe ob rc" by auto
  note c1 = gateway_listener_steps [OF 1(2)]
  obtain g00 where g00: "map_of (o_Gateways ob0) k = Some g00" "gw_meta g0 = gw_meta g00" "gw_Listeners g0 = gw_Listeners g00"
    using assms(2) 1(1) unfolding same_spec_def by blast
  have sp: "same_spec ob ob'"
    using rs(1) 1 by (auto simp: same_spec_def gomap_simps)
  have route: "route_config_safe ob rc \<Longrightarrow> route_config_safe ob0 rc" for rc
    using assms(2) usable_backend_cong [of ob ob0] unfolding same_spec_def route_config_safe_def
    by (metis (no_types, lifting) set_map)
  have cert: "cert_safe G ob0 s" if "s \<in> set (concat (map (\<lambda>il. listener_certs G ob (ensureListenerStatusExists g0) (snd il))
      (enumerate 0 (gw_Listeners g0))))" for s
  proof -
    from that obtain i l where l: "(i, l) \<in> set (enumerate 0 (gw_Listeners g0))"
      "s \<in> set (listener_certs G ob (ensureListenerStatusExists g0) l)" by auto
    have "listener_certs G ob (ensureListenerStatusExists g0) l = listener_certs G ob0 g00 l"
      by (rule listener_certs_cong) (use assms(2) g00 in \<open>simp_all add: same_spec_def\<close>)
    moreover have "l \<in> set (gw_Listeners g00)" using l(1) g00(3) by (auto simp: in_set_enumerate_eq)
    ultimately show ?thesis using l(2) g00(1) unfolding cert_safe_def by metis
  qed
  have "gcf_Routes config1 = gcf_Routes config"
    "set (gcf_Certificates config') = set (gcf_Certificates config) \<union> set (concat (map (\<lambda>il.
      listener_certs G ob (ensureListenerStatusExists g0) (snd il)) (enumerate 0 (gw_Listeners g0))))"
    using c1 rs(2) by simp_all
  then have "config_safe G ob0 config'"
    using rs(4) route cert assms(4) unfolding config_safe_def by (metis UnE)
  then show ?thesis using sp rs(3) c1 same_spec_trans [OF assms(2)] by simp
qed

lemma processGateways_safe:
  assumes "processGateways G c exts ob = (exts', Inr (config, ob', log))" "ptrs_ok ob"
  shows "same_spec ob ob' \<and> config_safe G ob config"
proof -
  let ?config0 = "new_gateway_config\<lparr>gcf_ExtensionFilters := makeExtensionFilterMap (go_range G exts')\<rparr>"
  obtain log0 log1 where
    run: "efold (processGateway G c) (?config0, ob, log0) (map fst (go_range G (o_Gateways ob))) = Inr (config, ob', log1)"
    using assms(1)
    by (auto simp: processGateways_def processExtensionFilters_def ebind_Inr_iff split: prod.splits option.splits)
  have safe0: "config_safe G ob ?config0" by (simp add: config_safe_def new_gateway_config_def)
  let ?P = "\<lambda>(config, ob', log). same_spec ob ob' \<and> config_safe G ob config"
  have "?P (config, ob', log1)"
    by (rule efold_invariant [OF run])
      (use safe0 processGateway_safe [OF _ _ assms(2)] in \<open>auto simp: same_spec_refl\<close>)
  then show ?thesis by simp
qed

subsection \<open>What fetching gives\<close>

lemma map_of_index_by_gen:
  "map_of (foldl (\<lambda>m x. AList.update (key x) x m) m xs) k =
     (case find (\<lambda>x. key x = k) (rev xs) of Some x \<Rightarrow> Some x | None \<Rightarrow> map_of m k)"
proof (induction xs rule: rev_induct)
  case (snoc x xs)
  then show ?case by (simp add: gomap_simps)
qed simp

lemma map_of_index_by: "map_of (index_by key xs) k = find (\<lambda>x. key x = k) (rev xs)"
  by (simp add: index_by_def map_of_index_by_gen split: option.split)

lemma index_by_Some: "map_of (index_by key xs) k = Some x \<Longrightarrow> x \<in> set xs \<and> key x = k"
  unfolding map_of_index_by find_Some_iff by (metis length_rev nth_mem set_rev)

lemma ran_add_route_ptr:
  assumes "\<forall>ps \<in> ran (map_of m). \<forall>p \<in> set ps. P p" "\<forall>kp \<in> set kps. P (snd kp)"
  shows "\<forall>ps \<in> ran (map_of (foldl add_route_ptr m kps)). \<forall>p \<in> set ps. P p"
  using assms
proof (induction kps arbitrary: m)
  case (Cons kp kps)
  have "\<forall>ps \<in> ran (map_of (add_route_ptr m kp)). \<forall>p \<in> set ps. P p"
  proof
    fix ps assume "ps \<in> ran (map_of (add_route_ptr m kp))"
    then consider "ps \<in> ran (map_of m)" | "ps = (case map_of m (fst kp) of None \<Rightarrow> [] | Some ps \<Rightarrow> ps) @ [snd kp]"
      unfolding add_route_ptr_def using ran_update by fast
    then show "\<forall>p \<in> set ps. P p"
    proof cases
      case 2
      then show ?thesis using Cons.prems by (cases "map_of m (fst kp)") (auto intro: ranI)
    qed (use Cons.prems in blast)
  qed
  then show ?case using Cons by simp
qed simp

lemma fetchObjects_cases:
  assumes "fetchObjects c cl = Inr ob"
  obtains gcl gl hrl rgl sl svl where
    "cl_GatewayClasses cl = Some gcl" "cl_Gateways cl = Some gl" "cl_HTTPRoutes cl = Some hrl" "cl_ReferenceGrants cl = Some rgl"
    "cl_Secrets cl = Some sl" "cl_Services cl = Some svl"
    "o_Gateways ob = index_by (\<lambda>g. refKeyForObject (gw_meta g)) (filter (\<lambda>g. gw_ClassName g \<in>
       set (map (\<lambda>gc. om_name (gc_meta gc)) (filter (\<lambda>gc. gc_ControllerName gc = gct_ControllerName c) gcl))) gl)"
    "o_HTTPRoutes ob = map (\<lambda>hr. ensureRouteParentStatusExists hr (gct_ControllerName c)) hrl"
    "o_HTTPRoutesByGateway ob = foldl add_route_ptr [] (concat (map (route_parents (o_Gateways ob)) (enumerate 0 (o_HTTPRoutes ob))))"
    "o_ReferenceGrants ob = buildReferenceGrantMap rgl"
    "o_TLSSecrets ob = index_by (\<lambda>s. refKeyForObject (sec_meta s)) (filter (\<lambda>s. sec_type s = SecretTypeTLS) sl)"
    "o_Services ob = index_by (\<lambda>s. GetNamespacedName (svc_meta s)) svl"
  using assms
  by (auto simp: fetchObjects_def ebind_Inr_iff list_objects_def Let_def split: option.splits)

lemma fetchObjects_ptrs_ok: "fetchObjects c cl = Inr ob \<Longrightarrow> ptrs_ok ob"
proof (erule fetchObjects_cases)
  fix hrl
  assume r: "o_HTTPRoutes ob = map (\<lambda>hr. ensureRouteParentStatusExists hr (gct_ControllerName c)) hrl"
    and m: "o_HTTPRoutesByGateway ob = foldl add_route_ptr [] (concat (map (route_parents (o_Gateways ob)) (enumerate 0 (o_HTTPRoutes ob))))"
  have "\<forall>kp \<in> set (concat (map (route_parents (o_Gateways ob)) (enumerate 0 (o_HTTPRoutes ob)))). fst (snd kp) < length (o_HTTPRoutes ob)"
    by (auto simp: route_parents_def List.map_filter_def in_set_enumerate_eq Let_def split: if_splits)
  then show ?thesis
    unfolding ptrs_ok_def m by (intro ran_add_route_ptr) simp_all
qed

lemma ensureRouteParentStatusExists_spec [simp]: "route_spec (ensureRouteParentStatusExists hr n) = route_spec hr"
  by (simp add: ensureRouteParentStatusExists_def route_spec_def)

subsection \<open>The parsed policy filters\<close>

text \<open>Every entry is stored under the key of its object and holds the result of parsing that object.\<close>

definition exts_ok :: "policy_env \<Rightarrow> extension_filters \<Rightarrow> bool" where
  "exts_ok P exts \<longleftrightarrow> (\<forall>k e. map_of exts k = Some e \<longrightarrow>
     k = refKeyForObject (pf_meta (oaf_object e)) \<and> oaf_filter e = PolicyFilterPtr (fst (NewPolicyFilter P (oaf_object e))))"

definition up_to_date :: "extension_filters \<Rightarrow> policy_filter_obj \<Rightarrow> bool" where
  "up_to_date exts pf \<longleftrightarrow> (\<exists>e. map_of exts (refKeyForObject (pf_meta pf)) = Some e \<and>
     om_generation (pf_meta (oaf_object e)) = om_generation (pf_meta pf))"

lemma NewPolicyFilter_obj:
  "map_option (plf_obj_update (\<lambda>_. pf\<lparr>pf_Conditions := conds\<rparr>)) (fst (NewPolicyFilter P pf)) = fst (NewPolicyFilter P (pf\<lparr>pf_Conditions := conds\<rparr>))"
  by (simp add: NewPolicyFilter_def split: sum.splits prod.splits)

lemma processPolicyFilter_cases:
  assumes "processPolicyFilter G (exts, log) pf = Inr (exts', log')"
  obtains (same) "up_to_date exts pf" "exts' = exts" "log' = log"
  | (new) conds where "exts' = AList.update (refKeyForObject (pf_meta pf))
      \<lparr>oaf_object = pf\<lparr>pf_Conditions := conds\<rparr>,
       oaf_filter = PolicyFilterPtr (fst (NewPolicyFilter (ge_policy G) (pf\<lparr>pf_Conditions := conds\<rparr>)))\<rparr> exts"
      "condition_true conds ''Valid'' \<longleftrightarrow> snd (NewPolicyFilter (ge_policy G) pf) = None"
proof (cases "up_to_date exts pf")
  case True
  then have "exts' = exts \<and> log' = log" using assms by (auto simp: processPolicyFilter_def up_to_date_def Let_def)
  with True show ?thesis by (intro same) simp_all
next
  case False
  obtain flt err where n: "NewPolicyFilter (ge_policy G) pf = (flt, err)" by fastforce
  let ?c = "case err of None \<Rightarrow> mk_condition ''Valid'' True ''Valid'' [] | Some e \<Rightarrow> mk_condition ''Valid'' False ''Invalid'' (policy_error_string e)"
  obtain conds m where u: "upsertCondition G (pf_Conditions pf) (om_generation (pf_meta pf)) ?c = (conds, m)" by fastforce
  have "\<not> (case map_of exts (refKeyForObject (pf_meta pf)) of None \<Rightarrow> False
      | Some f \<Rightarrow> om_generation (pf_meta (oaf_object f)) = om_generation (pf_meta pf))"
    using False by (auto simp: up_to_date_def split: option.splits)
  then have "exts' = AList.update (refKeyForObject (pf_meta pf)) \<lparr>oaf_object = pf\<lparr>pf_Conditions := conds\<rparr>,
      oaf_filter = PolicyFilterPtr (map_option (plf_obj_update (\<lambda>_. pf\<lparr>pf_Conditions := conds\<rparr>)) flt)\<rparr> exts"
    using assms n u by (auto simp: processPolicyFilter_def Let_def split: if_splits)
  moreover have "condition_true conds ''Valid'' \<longleftrightarrow> err = None"
    using condition_true_upsert [of G "pf_Conditions pf" "om_generation (pf_meta pf)" ?c "''Valid''"] u by (simp split: option.splits)
  ultimately show ?thesis
    using n NewPolicyFilter_obj [where pf = pf and conds = conds and P = "ge_policy G"] by (intro new [of conds]) simp_all
qed

lemma processPolicyFilter_ok:
  assumes "processPolicyFilter G (exts, log) pf = Inr (exts', log')" "exts_ok (ge_policy G) exts"
  shows "exts_ok (ge_policy G) exts' \<and> up_to_date exts' pf \<and> (\<forall>k. map_of exts k \<noteq> None \<longrightarrow> map_of exts' k \<noteq> None) \<and>
    (\<forall>k. k \<noteq> refKeyForObject (pf_meta pf) \<longrightarrow> map_of exts' k = map_of exts k)"
  using assms(1)
proof (cases rule: processPolicyFilter_cases)
  case same
  then show ?thesis using assms(2) by simp
next
  case (new conds)
  then show ?thesis using assms(2) by (auto simp: exts_ok_def up_to_date_def gomap_simps)
qed

lemma up_to_date_keep:
  "up_to_date exts pf \<Longrightarrow> map_of exts' (refKeyForObject (pf_meta pf)) = map_of exts (refKeyForObject (pf_meta pf)) \<Longrightarrow> up_to_date exts' pf"
  by (simp add: up_to_date_def)

lemma policy_filter_loop_ok:
  "policy_filter_loop G (exts, log) pfs = ((exts', log'), e) \<Longrightarrow> exts_ok (ge_policy G) exts \<Longrightarrow>
     exts_ok (ge_policy G) exts' \<and> dom (map_of exts) \<subseteq> dom (map_of exts') \<and>
     (\<forall>k. k \<notin> (\<lambda>pf. refKeyForObject (pf_meta pf)) ` set pfs \<longrightarrow> map_of exts' k = map_of exts k) \<and>
     (e = None \<and> distinct (map (\<lambda>pf. refKeyForObject (pf_meta pf)) pfs) \<longrightarrow> (\<forall>pf \<in> set pfs. up_to_date exts' pf))"
proof (induction pfs arbitrary: exts log)
  case (Cons pf pfs)
  show ?case
  proof (cases "processPolicyFilter G (exts, log) pf")
    case (Inl x)
    then show ?thesis using Cons.prems by auto
  next
    case (Inr st)
    obtain exts1 log1 where st: "st = (exts1, log1)" by (cases st)
    have rest: "policy_filter_loop G (exts1, log1) pfs = ((exts', log'), e)" using Cons.prems(1) Inr st by simp
    note p = processPolicyFilter_ok [OF Inr [unfolded st] Cons.prems(2)]
    note ih = Cons.IH [OF rest conjunct1 [OF p]]
    have "dom (map_of exts) \<subseteq> dom (map_of exts1)" using p by (auto simp: dom_def)
    moreover have "up_to_date exts' pf" if "refKeyForObject (pf_meta pf) \<notin> (\<lambda>pf. refKeyForObject (pf_meta pf)) ` set pfs"
      using up_to_date_keep [of exts1 pf exts'] ih p that by blast
    ultimately show ?thesis using ih p by (auto simp del: dom_map_of_conv_image_fst)
  qed
qed simp

text \<open>The parsed policy filters that the controller keeps between reconciliations: every entry always holds the result of
  parsing its own object; when the loop succeeds every fetched filter is there at its current generation;
  and an entry is never removed, not even when its object is no longer fetched.\<close>

theorem policy_filter_state:
  assumes "policy_filter_loop G (exts, log) pfs = ((exts', log'), e)" "exts_ok (ge_policy G) exts"
    and "distinct (map (\<lambda>pf. refKeyForObject (pf_meta pf)) pfs)"
  shows "exts_ok (ge_policy G) exts' \<and> dom (map_of exts) \<subseteq> dom (map_of exts') \<and>
    (e = None \<longrightarrow> (\<forall>pf \<in> set pfs. up_to_date exts' pf))"
  using policy_filter_loop_ok [OF assms(1,2)] assms(3) by blast

theorem policy_filter_state_witness:
  "\<exists>exts' log'. policy_filter_loop ex_gateway_env ([], []) [ex_policy_obj ''allow''] = ((exts', log'), None) \<and>
     up_to_date exts' (ex_policy_obj ''allow'')"
proof -
  obtain exts' log' e where run: "policy_filter_loop ex_gateway_env ([], []) [ex_policy_obj ''allow''] = ((exts', log'), e)"
    by (metis prod.exhaust_sel)
  have "snd (policy_filter_loop ex_gateway_env ([], []) [ex_policy_obj ''allow'']) = None" by code_simp
  then have e: "e = None" using run by simp
  have "exts_ok (ge_policy ex_gateway_env) []" by (simp add: exts_ok_def)
  from policy_filter_state [OF run this] e have "up_to_date exts' (ex_policy_obj ''allow'')" by simp
  with run e show ?thesis by blast
qed

subsection \<open>Listener statuses\<close>

text \<open>After \<^verbatim>\<open>ensureListenerStatusExists\<close> there is one status per listener, and a listener that had a status keeps its
  conditions, wherever its status stood before.\<close>

lemma ensureListenerStatusExists_keeps:
  assumes "distinct (map lt_Name (gw_StatusListeners g))" "i < length (gw_Listeners g)"
    "s \<in> set (gw_StatusListeners g)" "lt_Name s = li_Name (gw_Listeners g ! i)"
  shows "length (gw_StatusListeners (ensureListenerStatusExists g)) = length (gw_Listeners g) \<and>
    gw_StatusListeners (ensureListenerStatusExists g) ! i = s"
proof (cases "length (gw_StatusListeners g) = length (gw_Listeners g) \<and>
    list_all2 (\<lambda>s l. lt_Name s = li_Name l) (gw_StatusListeners g) (gw_Listeners g)")
  case True
  then have "lt_Name (gw_StatusListeners g ! i) = lt_Name s" using assms(2,4) by (simp add: list_all2_conv_all_nth)
  moreover have "gw_StatusListeners g ! i \<in> set (gw_StatusListeners g)" using True assms(2) by simp
  ultimately have "gw_StatusListeners g ! i = s" using assms(1,3) by (auto simp: distinct_map dest: inj_onD)
  then show ?thesis using True by (simp add: ensureListenerStatusExists_def)
next
  case False
  have "map_of (index_by lt_Name (gw_StatusListeners g)) (lt_Name s) \<noteq> None"
    using assms(3) by (auto simp: map_of_index_by find_None_iff)
  then obtain t where t: "map_of (index_by lt_Name (gw_StatusListeners g)) (lt_Name s) = Some t" by blast
  then have "t = s" using index_by_Some [OF t] assms(1,3) by (auto simp: distinct_map dest: inj_onD)
  then show ?thesis using False t assms(2,4) by (auto simp: ensureListenerStatusExists_def Let_def)
qed

end
