(* ===== verification/Gateway_Sync.thy ===== *)
theory Gateway_Sync
  imports Gateway_Controller Databroker_Sync
begin

text \<open>
  The whole gateway reconciliation: \<^verbatim>\<open>Reconcile\<close> of \<^verbatim>\<open>controllers/gateway/controller.go\<close> with
  \<^verbatim>\<open>DataBrokerReconciler.SetGatewayConfig\<close>. The locale \<open>gateway_reconciler\<close> is the contract of the interface
  \<^verbatim>\<open>pomerium.GatewayReconciler\<close> that the controller calls.
\<close>

datatype gws_error = GatewayError gw_error | SyncError sync_error

definition gw_lift :: "gw_error + 'a \<Rightarrow> gws_error + 'a" where
  "gw_lift r = (case r of Inl e \<Rightarrow> Inl (GatewayError e) | Inr x \<Rightarrow> Inr x)"

definition sync_lift :: "sync_error + 'a \<Rightarrow> gws_error + 'a" where
  "sync_lift r = (case r of Inl e \<Rightarrow> Inl (SyncError e) | Inr x \<Rightarrow> Inr x)"

text \<open>The routes of all HTTPRoutes that are not being deleted.\<close>

definition gateway_routes :: "gateway_env \<Rightarrow> gateway_config \<Rightarrow> gw_error + pb_route list" where
  "gateway_routes G config =
     ebind (emap (TranslateRoutes G config) (filter (\<lambda>rc. om_deletion (rt_meta (ghc_HTTPRoute rc)) = None) (gcf_Routes config)))
       (\<lambda>rss. Inr (concat rss))"

definition SetGatewayConfig ::
  "DataBrokerReconciler \<Rightarrow> sync_env \<Rightarrow> gateway_env \<Rightarrow> db_store \<Rightarrow> gateway_config \<Rightarrow> gws_error + bool \<times> db_store" where
  "SetGatewayConfig R S G st config =
     ebind (sync_lift (getConfig R S st)) (\<lambda>prev.
     ebind (gw_lift (gateway_routes G config)) (\<lambda>routes.
       sync_lift (saveConfig R S st prev
         \<lparr>cfg_Routes = routes, cfg_Settings = Some (foldl addTLSCert new_settings (gcf_Certificates config))\<rparr> (ConfigID R))))"

text \<open>\<^verbatim>\<open>Reconcile\<close>: the parsed filters stay in the controller, whatever happens afterwards.\<close>

definition gateway_Reconcile ::
  "gateway_env \<Rightarrow> sync_env \<Rightarrow> gateway_controller \<Rightarrow> cluster \<Rightarrow> extension_filters \<Rightarrow> db_store \<Rightarrow>
     extension_filters \<times> (gws_error + db_store \<times> status_update list)" where
  "gateway_Reconcile G S c cl exts st =
     (case fetchObjects c cl of
        Inl e \<Rightarrow> (exts, Inl (GatewayError e))
      | Inr ob \<Rightarrow>
          (case processGateways G c exts ob of
             (exts', res) \<Rightarrow>
               (exts',
                ebind (gw_lift res) (\<lambda>(config, ob', log).
                ebind (SetGatewayConfig gatewayReconciler S G st config) (\<lambda>(changed, st').
                  Inr (st', log))))))"

lemma gw_lift_Inr [simp]: "gw_lift r = Inr x \<longleftrightarrow> r = Inr x"
  by (simp add: gw_lift_def)

lemma sync_lift_Inr [simp]: "sync_lift r = Inr x \<longleftrightarrow> r = Inr x"
  by (simp add: sync_lift_def)

subsection \<open>The contract of a gateway reconciler\<close>

text \<open>What the controller relies on: after a successful call the served upstreams are those of the given
  configuration, whatever was there before.\<close>

locale gateway_reconciler =
  fixes set_config :: "'s \<Rightarrow> 'c \<Rightarrow> 'e + bool \<times> 's"
    and upstreams :: "'s \<Rightarrow> 'u set"
    and config_upstreams :: "'c \<Rightarrow> 'u set"
  assumes set_config_upstreams: "set_config s c = Inr (b, s') \<Longrightarrow> upstreams s' = config_upstreams c"
begin

text \<open>A configuration from a safe source makes everything that is served safe, for any notion of safety.\<close>

lemma safe_upstreams:
  assumes "set_config s c = Inr (b, s')" "\<And>u. u \<in> config_upstreams c \<Longrightarrow> safe u" "u \<in> upstreams s'"
  shows "safe u"
  using assms set_config_upstreams by simp

lemma set_config_idem:
  assumes "set_config s c = Inr (b, s')" "set_config t c = Inr (b', t')"
  shows "upstreams s' = upstreams t'"
  using assms set_config_upstreams by simp

end

text \<open>The pairs of an external address and an upstream that a route serves.\<close>

definition route_upstreams :: "pb_route \<Rightarrow> (string \<times> string) set" where
  "route_upstreams r = Pair (r_From r) ` set (r_To r)"

definition served_upstreams :: "DataBrokerReconciler \<Rightarrow> db_store \<Rightarrow> (string \<times> string) set" where
  "served_upstreams R st = \<Union> (route_upstreams ` set (cfg_Routes (stored R st)))"

definition translated_upstreams :: "gateway_env \<Rightarrow> gateway_config \<Rightarrow> (string \<times> string) set" where
  "translated_upstreams G config =
     (case gateway_routes G config of Inl _ \<Rightarrow> {} | Inr rs \<Rightarrow> \<Union> (route_upstreams ` set rs))"

lemma route_upstreams_canon: "route_upstreams (canon_route r) = route_upstreams r"
  by (simp add: route_upstreams_def canon_route_def)

lemma upstreams_canon: "canon_route ` A = canon_route ` B \<Longrightarrow> \<Union> (route_upstreams ` A) = \<Union> (route_upstreams ` B)"
proof -
  assume "canon_route ` A = canon_route ` B"
  moreover have "route_upstreams ` X = route_upstreams ` canon_route ` X" for X
    by (simp add: image_image route_upstreams_canon)
  ultimately show ?thesis by metis
qed

lemma SetGatewayConfig_upstreams:
  assumes "SetGatewayConfig R S G st config = Inr (b, st')"
  shows "served_upstreams R st' = translated_upstreams G config"
proof -
  obtain rs where rs: "gateway_routes G config = Inr rs"
    and save: "saveConfig R S st (stored R st)
      \<lparr>cfg_Routes = rs, cfg_Settings = Some (foldl addTLSCert new_settings (gcf_Certificates config))\<rparr> (ConfigID R) = Inr (b, st')"
    using assms by (auto simp: SetGatewayConfig_def ebind_Inr_iff dest: getConfig_Inr)
  from saveConfig_routes [OF save] have "canon_route ` set (cfg_Routes (stored R st')) = canon_route ` set rs" by simp
  then show ?thesis
    unfolding served_upstreams_def translated_upstreams_def rs sum.case by (rule upstreams_canon)
qed

interpretation gwr: gateway_reconciler "SetGatewayConfig R S G" "served_upstreams R" "translated_upstreams G" for R S G
  by unfold_locales (rule SetGatewayConfig_upstreams)

subsection \<open>Upstreams across namespaces\<close>

text \<open>What the cluster permits: the upstream is a Service that an HTTPRoute refers to, that exists, and that is in
  the namespace of the route or granted to it.\<close>

definition permitted_upstream :: "http_route list \<Rightarrow> service list \<Rightarrow> reference_grant list \<Rightarrow> string \<Rightarrow> bool" where
  "permitted_upstream hrs svcs grants u \<longleftrightarrow>
     (\<exists>hr \<in> set hrs. om_deletion (rt_meta hr) = None \<and>
       (\<exists>hb \<in> set (all_backend_refs hr).
          let k = refKeyForBackendRef (rt_meta hr) (hb_ref hb) in
          rk_Group k = CoreGroupName \<and> rk_Kind k = ''Service'' \<and>
          (\<exists>port. u = ''http://'' @ rk_Name k @ ''.'' @ rk_Namespace k @ ''.svc.cluster.local:'' @ show_int port) \<and>
          (\<exists>s \<in> set svcs. GetNamespacedName (svc_meta s) = NamespacedName (rk_Namespace k) (rk_Name k)) \<and>
          (om_namespace (rt_meta hr) = rk_Namespace k \<or> (\<exists>g \<in> set grants. grant_permits g (rt_meta hr) k))))"

lemma route_spec_fields:
  "route_spec a = route_spec b \<Longrightarrow> rt_meta a = rt_meta b \<and> all_backend_refs a = all_backend_refs b"
  by (cases a; cases b) (simp add: route_spec_def all_backend_refs_def)

lemma backendRefToToURL:
  "backendRefToToURLAndWeight rc br = Inr (u, w) \<Longrightarrow>
     \<exists>port. u = ''http://'' @ rk_Name (refKeyForBackendRef (rt_meta (ghc_HTTPRoute rc)) br) @ ''.'' @
       rk_Namespace (refKeyForBackendRef (rt_meta (ghc_HTTPRoute rc)) br) @ ''.svc.cluster.local:'' @ show_int port"
  by (auto simp: backendRefToToURLAndWeight_def refKeyForBackendRef_def Let_def split: option.splits)

lemma translated_upstream_target:
  assumes "TranslateRoutes G config rc = Inr rs" "r \<in> set rs" "u \<in> set (r_To r)"
  obtains hb w where "hb \<in> set (all_backend_refs (ghc_HTTPRoute rc))"
    "ghc_ValidBackendRefs rc (rt_meta (ghc_HTTPRoute rc)) (hb_ref hb)" "backendRefToToURLAndWeight rc (hb_ref hb) = Inr (u, w)"
proof -
  obtain rule where rule: "rule \<in> set (rt_Rules (ghc_HTTPRoute rc))" "translates config rc rule r"
    using TranslateRoutes_Inr [OF assms(1,2)] by blast
  have "u \<in> fst ` set (backend_targets rc (hr_BackendRefs rule))"
    using rule(2) assms(3) by (auto simp: translates_def split: if_splits)
  then obtain w where "(u, w) \<in> set (backend_targets rc (hr_BackendRefs rule))" by auto
  then show ?thesis
    by (rule backend_targets_valid) (use rule(1) that in \<open>auto simp: all_backend_refs_def\<close>)
qed

lemma config_upstreams_permitted:
  assumes "fetchObjects c cl = Inr ob" "config_safe G ob config" "(f, u) \<in> translated_upstreams G config"
    and "cl_HTTPRoutes cl = Some hrs" "cl_Services cl = Some svcs" "cl_ReferenceGrants cl = Some grants"
  shows "permitted_upstream hrs svcs grants u"
proof -
  obtain rs r where rs: "gateway_routes G config = Inr rs" and r: "r \<in> set rs" "u \<in> set (r_To r)"
    using assms(3) by (auto simp: translated_upstreams_def route_upstreams_def split: sum.splits)
  obtain rss rs1 where e: "emap (TranslateRoutes G config) (filter (\<lambda>rc. om_deletion (rt_meta (ghc_HTTPRoute rc)) = None) (gcf_Routes config)) = Inr rss"
    and "rs1 \<in> set rss" "r \<in> set rs1"
    using rs r(1) by (auto simp: gateway_routes_def ebind_Inr_iff)
  then obtain rc where rc: "rc \<in> set (gcf_Routes config)" "om_deletion (rt_meta (ghc_HTTPRoute rc)) = None"
    "TranslateRoutes G config rc = Inr rs1" "r \<in> set rs1"
    using emap_Inr_set [OF e, of rs1] by auto
  obtain hb w where hb: "hb \<in> set (all_backend_refs (ghc_HTTPRoute rc))"
    "ghc_ValidBackendRefs rc (rt_meta (ghc_HTTPRoute rc)) (hb_ref hb)" "backendRefToToURLAndWeight rc (hb_ref hb) = Inr (u, w)"
    using translated_upstream_target [OF rc(3,4) r(2)] .
  have safe: "route_config_safe ob rc" using assms(2) rc(1) by (simp add: config_safe_def)
  show ?thesis
    using assms(1)
  proof (rule fetchObjects_cases)
    fix hrl rgl svl
    assume lists: "cl_HTTPRoutes cl = Some hrl" "cl_ReferenceGrants cl = Some rgl" "cl_Services cl = Some svl"
      and routes: "o_HTTPRoutes ob = map (\<lambda>hr. ensureRouteParentStatusExists hr (gct_ControllerName c)) hrl"
      and rg: "o_ReferenceGrants ob = buildReferenceGrantMap rgl"
      and sv: "o_Services ob = index_by (\<lambda>s. GetNamespacedName (svc_meta s)) svl"
    from safe obtain hr where hr: "hr \<in> set hrl" "route_spec (ghc_HTTPRoute rc) = route_spec hr"
      unfolding route_config_safe_def routes by auto
    note m = route_spec_fields [OF hr(2)]
    let ?k = "refKeyForBackendRef (rt_meta hr) (hb_ref hb)"
    have "usable_backend ob (rt_meta hr) (hb_ref hb)" using safe hb(2) m unfolding route_config_safe_def by simp
    then obtain s where "rk_Group ?k = CoreGroupName" "rk_Kind ?k = ''Service''" "allowed (o_ReferenceGrants ob) (rt_meta hr) ?k"
      "map_of (o_Services ob) (NamespacedName (rk_Namespace ?k) (rk_Name ?k)) = Some s"
      by (auto simp: usable_backend_def Let_def)
    moreover from this(4) have "s \<in> set svl \<and> GetNamespacedName (svc_meta s) = NamespacedName (rk_Namespace ?k) (rk_Name ?k)"
      unfolding sv by (rule index_by_Some)
    moreover obtain port where "u = ''http://'' @ rk_Name ?k @ ''.'' @ rk_Namespace ?k @ ''.svc.cluster.local:'' @ show_int port"
      using backendRefToToURL [OF hb(3)] m by auto
    moreover have "om_deletion (rt_meta hr) = None" "hb \<in> set (all_backend_refs hr)" using rc(2) hb(1) m by simp_all
    moreover have "hrs = hrl" "svcs = svl" "grants = rgl" using lists assms(4-6) by simp_all
    ultimately show ?thesis
      using hr(1) unfolding permitted_upstream_def rg allowed_granted Let_def by blast
  qed
qed

lemma gateway_Reconcile_cases:
  assumes "gateway_Reconcile G S c cl exts st = (exts', Inr (st', log))"
  obtains ob config ob' b where "fetchObjects c cl = Inr ob" "processGateways G c exts ob = (exts', Inr (config, ob', log))"
    "SetGatewayConfig gatewayReconciler S G st config = Inr (b, st')" "config_safe G ob config" "same_spec ob ob'"
proof -
  obtain ob config ob' b where p: "fetchObjects c cl = Inr ob" "processGateways G c exts ob = (exts', Inr (config, ob', log))"
    "SetGatewayConfig gatewayReconciler S G st config = Inr (b, st')"
    using assms by (auto simp: gateway_Reconcile_def ebind_Inr_iff split: sum.splits prod.splits)
  note safe = processGateways_safe [OF p(2) fetchObjects_ptrs_ok [OF p(1)]]
  show ?thesis by (rule that [OF p conjunct2 [OF safe] conjunct1 [OF safe]])
qed

text \<open>C23: The namespace boundary holds end to end: after a successful reconciliation every upstream that the stored gateway
  configuration forwards to is a Service that exists in the cluster, that a backend reference of an HTTPRoute
  which is not being deleted names, and that is in the namespace of that route or granted to it by a ReferenceGrant.\<close>

theorem gateway_upstreams_permitted:
  assumes "gateway_Reconcile G S c cl exts st = (exts', Inr (st', log))"
    and "cl_HTTPRoutes cl = Some hrs" "cl_Services cl = Some svcs" "cl_ReferenceGrants cl = Some grants"
    and "r \<in> set (cfg_Routes (stored gatewayReconciler st'))" "u \<in> set (r_To r)"
  shows "permitted_upstream hrs svcs grants u"
  using assms(1)
proof (rule gateway_Reconcile_cases)
  fix ob config b
  assume o: "fetchObjects c cl = Inr ob" and set: "SetGatewayConfig gatewayReconciler S G st config = Inr (b, st')"
    and safe: "config_safe G ob config"
  have "(r_From r, u) \<in> served_upstreams gatewayReconciler st'"
    using assms(5,6) by (auto simp: served_upstreams_def route_upstreams_def)
  moreover have "permitted_upstream hrs svcs grants (snd fu)" if "fu \<in> translated_upstreams G config" for fu
    using config_upstreams_permitted [OF o safe, of "fst fu" "snd fu"] that assms(2-4) by simp
  ultimately show ?thesis using gwr.safe_upstreams [OF set, of "\<lambda>fu. permitted_upstream hrs svcs grants (snd fu)"] by fastforce
qed

definition ex_controller :: gateway_controller where
  "ex_controller = \<lparr>gct_ControllerName = ''pomerium.io/gateway-controller'', gct_ServiceName = NamespacedName ''pomerium'' ''pomerium-proxy''\<rparr>"

definition ex_cluster :: cluster where
  "ex_cluster = \<lparr>cl_GatewayClasses = Some [\<lparr>gc_meta = new_meta ''GatewayClass'' [] ''pomerium'',
       gc_ControllerName = ''pomerium.io/gateway-controller'', gc_Conditions = []\<rparr>],
     cl_Gateways = Some [ex_gateway], cl_HTTPRoutes = Some [ex_hroute], cl_Namespaces = Some [], cl_ReferenceGrants = Some [],
     cl_Secrets = Some [], cl_Services = Some [ex_service ''app'' ''web'', ex_service ''other'' ''web''], cl_PolicyFilters = Some []\<rparr>"

theorem gateway_upstreams_permitted_witness:
  "\<exists>exts' st' log r u. gateway_Reconcile ex_gateway_env ex_sync ex_controller ex_cluster [] [] = (exts', Inr (st', log)) \<and>
     r \<in> set (cfg_Routes (stored gatewayReconciler st')) \<and> u \<in> set (r_To r) \<and>
     permitted_upstream [ex_hroute] [ex_service ''app'' ''web'', ex_service ''other'' ''web''] [] u"
proof -
  obtain exts' res where res: "gateway_Reconcile ex_gateway_env ex_sync ex_controller ex_cluster [] [] = (exts', res)" by fastforce
  have "(case snd (gateway_Reconcile ex_gateway_env ex_sync ex_controller ex_cluster [] []) of
      Inr (st', log) \<Rightarrow> list_ex (\<lambda>r. r_To r \<noteq> []) (cfg_Routes (stored gatewayReconciler st')) | Inl _ \<Rightarrow> False)"
    by code_simp
  then obtain st' log r where run: "gateway_Reconcile ex_gateway_env ex_sync ex_controller ex_cluster [] [] = (exts', Inr (st', log))"
    and r: "r \<in> set (cfg_Routes (stored gatewayReconciler st'))" "r_To r \<noteq> []"
    using res by (auto simp: list_ex_iff split: sum.splits)
  then obtain u where u: "u \<in> set (r_To r)" by (cases "r_To r") auto
  have "permitted_upstream [ex_hroute] [ex_service ''app'' ''web'', ex_service ''other'' ''web''] [] u"
    by (rule gateway_upstreams_permitted [OF run _ _ _ r(1) u]) (simp_all add: ex_cluster_def)
  with run r(1) u show ?thesis by blast
qed

text \<open>C24: The certificates of a reconciliation: each is a TLS secret of the cluster with a matching key pair, and a listener of a
  gateway of this controller refers to it from the secret's namespace or with a grant.\<close>

theorem gateway_certificates_permitted:
  assumes "fetchObjects c cl = Inr ob" "processGateways G c exts ob = (exts', Inr (config, ob', log))"
    and "cl_Secrets cl = Some secrets" "cl_Gateways cl = Some gws" "cl_ReferenceGrants cl = Some grants"
    and "s \<in> set (gcf_Certificates config)"
  shows "s \<in> set secrets \<and> sec_type s = SecretTypeTLS \<and> validateTLSSecret G s \<and>
    (\<exists>g \<in> set gws. \<exists>l \<in> set (gw_Listeners g). \<exists>refs. li_TLS l = Some refs \<and>
      (\<exists>ref \<in> set refs. refKeyForCertificateRef (gw_meta g) ref = refKeyForObject (sec_meta s)) \<and>
      (om_namespace (gw_meta g) = om_namespace (sec_meta s) \<or>
       (\<exists>rg \<in> set grants. grant_permits rg (gw_meta g) (refKeyForObject (sec_meta s)))))"
  using assms(1)
proof (rule fetchObjects_cases)
  fix gcl gl rgl sl
  assume lists: "cl_Gateways cl = Some gl" "cl_ReferenceGrants cl = Some rgl" "cl_Secrets cl = Some sl"
    and gs: "o_Gateways ob = index_by (\<lambda>g. refKeyForObject (gw_meta g)) (filter (\<lambda>g. gw_ClassName g \<in>
       set (map (\<lambda>gc. om_name (gc_meta gc)) (filter (\<lambda>gc. gc_ControllerName gc = gct_ControllerName c) gcl))) gl)"
    and rg: "o_ReferenceGrants ob = buildReferenceGrantMap rgl"
    and ts: "o_TLSSecrets ob = index_by (\<lambda>s. refKeyForObject (sec_meta s)) (filter (\<lambda>s. sec_type s = SecretTypeTLS) sl)"
  have "cert_safe G ob s"
    using processGateways_safe [OF assms(2) fetchObjects_ptrs_ok [OF assms(1)]] assms(6) by (simp add: config_safe_def)
  then obtain k g l where g: "map_of (o_Gateways ob) k = Some g" "l \<in> set (gw_Listeners g)" "s \<in> set (listener_certs G ob g l)"
    by (auto simp: cert_safe_def)
  then obtain refs where refs: "li_TLS l = Some refs" "s \<in> set (List.map_filter (usable_cert G ob g) refs)"
    by (cases "li_TLS l") (simp_all add: listener_certs_def)
  then obtain ref where ref: "li_TLS l = Some refs" "ref \<in> set refs" "usable_cert G ob g ref = Some s"
    by (auto simp: List.map_filter_def)
  let ?k = "refKeyForCertificateRef (gw_meta g) ref"
  from ref(3) have u: "allowed (o_ReferenceGrants ob) (gw_meta g) ?k" "map_of (o_TLSSecrets ob) ?k = Some s" "validateTLSSecret G s"
    by (auto simp: usable_cert_def Let_def split: if_splits option.splits)
  have s: "s \<in> set sl" "sec_type s = SecretTypeTLS" "refKeyForObject (sec_meta s) = ?k"
    using index_by_Some [OF u(2) [unfolded ts]] by simp_all
  have "g \<in> set gl" using index_by_Some [OF g(1) [unfolded gs]] by simp
  moreover have "om_namespace (gw_meta g) = om_namespace (sec_meta s) \<or> (\<exists>rg \<in> set rgl. grant_permits rg (gw_meta g) (refKeyForObject (sec_meta s)))"
    using u(1) s(3) unfolding rg allowed_granted by (metis refKeyForObject_def ref_key.select_convs(3))
  ultimately show ?thesis using lists assms(3-5) s u(3) g(2) ref(1,2) by auto
qed

definition ex_gw_secret :: secret where
  "ex_gw_secret = \<lparr>sec_meta = new_meta ''Secret'' ''gw'' ''cert'', sec_type = SecretTypeTLS,
     sec_data = [(TLSCertKey, ''crt''), (TLSPrivateKeyKey, ''key'')]\<rparr>"

definition ex_tls_gateway :: gateway where
  "ex_tls_gateway = ex_gateway\<lparr>gw_Listeners := [ex_listener\<lparr>li_TLS := Some [\<lparr>sr_Group = None, sr_Kind = None, sr_Namespace = None, sr_Name = ''cert''\<rparr>]\<rparr>]\<rparr>"

definition ex_tls_cluster :: cluster where
  "ex_tls_cluster = ex_cluster\<lparr>cl_Gateways := Some [ex_tls_gateway], cl_Secrets := Some [ex_gw_secret]\<rparr>"

theorem gateway_certificates_permitted_witness:
  "\<exists>ob exts' config ob' log s. fetchObjects ex_controller ex_tls_cluster = Inr ob \<and>
     processGateways ex_gateway_env ex_controller [] ob = (exts', Inr (config, ob', log)) \<and>
     s \<in> set (gcf_Certificates config) \<and> validateTLSSecret ex_gateway_env s"
proof -
  have "(case fetchObjects ex_controller ex_tls_cluster of
      Inr ob \<Rightarrow> (case snd (processGateways ex_gateway_env ex_controller [] ob) of
        Inr cfg \<Rightarrow> length (gcf_Certificates (fst cfg)) = 1 | Inl _ \<Rightarrow> False) | Inl _ \<Rightarrow> False)"
    by code_simp
  then obtain ob exts' config ob' log where o: "fetchObjects ex_controller ex_tls_cluster = Inr ob"
    and p: "processGateways ex_gateway_env ex_controller [] ob = (exts', Inr (config, ob', log))"
    and l: "length (gcf_Certificates config) = 1"
    by (auto split: sum.splits) (metis fst_conv prod.exhaust_sel)
  from l obtain s where s: "s \<in> set (gcf_Certificates config)" by (cases "gcf_Certificates config") auto
  have "validateTLSSecret ex_gateway_env s"
    using gateway_certificates_permitted [OF o p, of "[ex_gw_secret]" "[ex_tls_gateway]" "[]"] s
    by (simp add: ex_tls_cluster_def ex_cluster_def)
  with o p s show ?thesis by blast
qed

end
