(* ===== verification/Ingress_Fetch.thy ===== *)
theory Ingress_Fetch
  imports Api_Client Ingress_To_Route
begin

text \<open>
  \<^verbatim>\<open>controllers/ingress/fetch.go\<close>: the secrets, services and endpoints of an ingress are read through the tracking
  client. The theorems say what is read, that a failed read is watched, and that the translation of a fetched
  ingress never misses a secret or a service.
\<close>

subsection \<open>The code\<close>

definition fetchIngressService ::
  "api_server \<Rightarrow> key \<Rightarrow> (namespaced_name, service) gomap \<times> (namespaced_name, endpoints) gomap \<Rightarrow> namespaced_name
     \<Rightarrow> ((namespaced_name, service) gomap \<times> (namespaced_name, endpoints) gomap) tracked" where
  "fetchIngressService A self dst name =
     act_bind (tracked_Get self ServiceKind (as_service A) name) (\<lambda>svc.
       let sm = AList.update name svc (fst dst) in
       if svc_type svc = ServiceTypeExternalName then act_return (sm, snd dst)
       else act_bind (tracked_Get self EndpointsKind (as_endpoints A) name) (\<lambda>ep.
         act_return (sm, AList.update name ep (snd dst))))"

text \<open>The body of the loop over the paths of the rules.\<close>

definition fetch_path ::
  "api_server \<Rightarrow> key \<Rightarrow> ingress \<Rightarrow> (namespaced_name, service) gomap \<times> (namespaced_name, endpoints) gomap \<Rightarrow> string \<times> http_ingress_path
     \<Rightarrow> ((namespaced_name, service) gomap \<times> (namespaced_name, endpoints) gomap) tracked" where
  "fetch_path A self ing dst hp =
     (case ip_service (snd hp) of
        None \<Rightarrow> act_fail (ErrNoBackendService (fst hp) (ip_path (snd hp)))
      | Some svc \<Rightarrow> fetchIngressService A self dst (NamespacedName (om_namespace (ing_meta ing)) (sb_name svc)))"

text \<open>The host and path of every path of the rules that have HTTP paths, in order.\<close>

definition backend_paths :: "ingress \<Rightarrow> (string \<times> http_ingress_path) list" where
  "backend_paths ing = concat (map (\<lambda>rule. case ir_http rule of None \<Rightarrow> [] | Some ps \<Rightarrow> map (Pair (ir_host rule)) ps) (ing_rules ing))"

definition fetchIngressServices ::
  "api_server \<Rightarrow> key \<Rightarrow> ingress \<Rightarrow> ((namespaced_name, service) gomap \<times> (namespaced_name, endpoints) gomap) tracked" where
  "fetchIngressServices A self ing =
     act_bind (act_fold (fetch_path A self ing) ([], []) (backend_paths ing)) (\<lambda>dst.
       case ing_default_backend ing of
         None \<Rightarrow> act_return dst
       | Some None \<Rightarrow> act_fail ErrDefaultBackendNil
       | Some (Some svc) \<Rightarrow> fetchIngressService A self dst (NamespacedName (om_namespace (ing_meta ing)) (sb_name svc)))"

definition secret_annotation :: "string \<Rightarrow> string \<Rightarrow> bool" where
  "secret_annotation prefix k \<longleftrightarrow> HasPrefix k prefix \<and> HasSuffix k ''_secret''"

definition getIngressSecrets :: "(nat \<Rightarrow> nat list) \<Rightarrow> string \<Rightarrow> ingress \<Rightarrow> namespaced_name list" where
  "getIngressSecrets order prefix ing =
     map (\<lambda>tls. NamespacedName (om_namespace (ing_meta ing)) (it_secret tls)) (filter (\<lambda>tls. it_secret tls \<noteq> []) (ing_tls ing)) @
     map (\<lambda>(k, v). NamespacedName (om_namespace (ing_meta ing)) v)
       (filter (\<lambda>(k, v). secret_annotation prefix k) (visit order (om_annotations (ing_meta ing))))"

definition fetchIngressSecrets ::
  "(nat \<Rightarrow> nat list) \<Rightarrow> api_server \<Rightarrow> key \<Rightarrow> ingress \<Rightarrow> string \<Rightarrow> (namespaced_name, secret) gomap tracked" where
  "fetchIngressSecrets order A self ing prefix =
     act_fold (\<lambda>secrets name. act_bind (tracked_Get self SecretKind (as_secret A) name) (\<lambda>s.
       act_return (AList.update name s secrets))) [] (getIngressSecrets order prefix ing)"

definition FetchIngress :: "(nat \<Rightarrow> nat list) \<Rightarrow> api_server \<Rightarrow> key \<Rightarrow> ingress \<Rightarrow> string \<Rightarrow> ingress_config tracked" where
  "FetchIngress order A self ing prefix =
     act_bind (fetchIngressSecrets order A self ing prefix) (\<lambda>secrets.
     act_bind (fetchIngressServices A self ing) (\<lambda>se.
       act_return \<lparr>AnnotationPrefix = prefix, ic_Ingress = ing, ic_Endpoints = snd se, ic_Secrets = secrets, ic_Services = fst se\<rparr>))"

text \<open>\<^verbatim>\<open>ingressController.fetchIngress\<close>: the service whose status is published is read too, and its error ignored.\<close>

definition ingress_key :: "ingress \<Rightarrow> key" where
  "ingress_key ing = Key IngressKind (GetNamespacedName (ing_meta ing))"

definition watch_service :: "api_server \<Rightarrow> key \<Rightarrow> namespaced_name option \<Rightarrow> registry_items \<Rightarrow> registry_items" where
  "watch_service A self svc r =
     (case svc of None \<Rightarrow> r | Some name \<Rightarrow> fst (tracked_Get self ServiceKind (as_service A) name r))"

definition fetchIngress ::
  "(nat \<Rightarrow> nat list) \<Rightarrow> api_server \<Rightarrow> string \<Rightarrow> namespaced_name option \<Rightarrow> ingress \<Rightarrow> ingress_config tracked" where
  "fetchIngress order A prefix status_svc ing r =
     (let self = ingress_key ing
      in FetchIngress order A self ing prefix (watch_service A self status_svc (DeleteCascade r self)))"

subsection \<open>What is read\<close>

definition service_keys :: "api_server \<Rightarrow> namespaced_name \<Rightarrow> key set" where
  "service_keys A name = insert (Key ServiceKind name)
     (case as_service A name of
        Inr svc \<Rightarrow> if svc_type svc = ServiceTypeExternalName then {} else {Key EndpointsKind name}
      | Inl _ \<Rightarrow> {})"

definition backend_names :: "ingress \<Rightarrow> namespaced_name set" where
  "backend_names ing = NamespacedName (om_namespace (ing_meta ing)) `
     ({sb_name svc |svc hp. hp \<in> set (backend_paths ing) \<and> ip_service (snd hp) = Some svc} \<union>
      {sb_name svc |svc. ing_default_backend ing = Some (Some svc)})"

definition secret_names :: "string \<Rightarrow> ingress \<Rightarrow> namespaced_name set" where
  "secret_names prefix ing = NamespacedName (om_namespace (ing_meta ing)) `
     ({it_secret tls |tls. tls \<in> set (ing_tls ing) \<and> it_secret tls \<noteq> []} \<union>
      {v |k v. (k, v) \<in> set (om_annotations (ing_meta ing)) \<and> secret_annotation prefix k})"

definition ingress_reads :: "api_server \<Rightarrow> string \<Rightarrow> namespaced_name option \<Rightarrow> ingress \<Rightarrow> key set" where
  "ingress_reads A prefix status_svc ing =
     Key ServiceKind ` set_option status_svc \<union> Key SecretKind ` secret_names prefix ing \<union> \<Union> (service_keys A ` backend_names ing)"

lemma kind_nonempty [simp]: "SecretKind \<noteq> []" "ServiceKind \<noteq> []" "EndpointsKind \<noteq> []" "IngressKind \<noteq> []" "PomeriumKind \<noteq> []"
  by (simp_all add: kind_defs)

lemma set_getIngressSecrets: "permuting order \<Longrightarrow> set (getIngressSecrets order prefix ing) = secret_names prefix ing"
  by (auto simp: getIngressSecrets_def secret_names_def image_iff)

lemma tracks_service: "tracks self (service_keys A name) (fetchIngressService A self dst name)"
proof -
  have "tracks self (case as_service A name of
        Inr svc \<Rightarrow> if svc_type svc = ServiceTypeExternalName then {} else {Key EndpointsKind name} | Inl _ \<Rightarrow> {})
      (let sm = AList.update name svc (fst dst) in
       if svc_type svc = ServiceTypeExternalName then act_return (sm, snd dst)
       else act_bind (tracked_Get self EndpointsKind (as_endpoints A) name) (\<lambda>ep. act_return (sm, AList.update name ep (snd dst))))"
    if "as_service A name = Inr svc" for svc
    using that by (auto simp: Let_def intro: tracks_bind_eq [OF tracks_get tracks_return])
  then show ?thesis
    unfolding fetchIngressService_def service_keys_def
    by (intro tracks_bind_eq [OF tracks_get]) (auto simp: tracked_Get_result split: sum.splits)
qed

definition path_keys :: "api_server \<Rightarrow> ingress \<Rightarrow> string \<times> http_ingress_path \<Rightarrow> key set" where
  "path_keys A ing hp = (case ip_service (snd hp) of None \<Rightarrow> {}
     | Some svc \<Rightarrow> service_keys A (NamespacedName (om_namespace (ing_meta ing)) (sb_name svc)))"

lemma tracks_path: "tracks self (path_keys A ing hp) (fetch_path A self ing dst hp)"
  by (auto simp: fetch_path_def path_keys_def is_get_error_def tracks_service tracks_fail split: option.split)

lemma tracks_services: "tracks self (\<Union> (service_keys A ` backend_names ing)) (fetchIngressServices A self ing)"
  unfolding fetchIngressServices_def
proof (rule tracks_bind_eq [OF tracks_fold [OF tracks_path]])
  let ?d = "case ing_default_backend ing of Some (Some svc) \<Rightarrow> service_keys A (NamespacedName (om_namespace (ing_meta ing)) (sb_name svc)) | _ \<Rightarrow> {}"
  show "tracks self ?d (case ing_default_backend ing of None \<Rightarrow> act_return dst | Some None \<Rightarrow> act_fail ErrDefaultBackendNil
       | Some (Some svc) \<Rightarrow> fetchIngressService A self dst (NamespacedName (om_namespace (ing_meta ing)) (sb_name svc)))" for dst
    by (auto simp: is_get_error_def tracks_service tracks_fail split: option.split)
  show "\<Union> (service_keys A ` backend_names ing) = (\<Union>hp \<in> set (backend_paths ing). path_keys A ing hp) \<union> ?d"
    unfolding backend_names_def path_keys_def by (fastforce split: option.splits)
qed

lemma tracks_secrets:
  "permuting order \<Longrightarrow> tracks self (Key SecretKind ` secret_names prefix ing) (fetchIngressSecrets order A self ing prefix)"
proof -
  assume "permuting order"
  have "tracks self (\<Union>n \<in> set (getIngressSecrets order prefix ing). {Key SecretKind n}) (fetchIngressSecrets order A self ing prefix)"
    unfolding fetchIngressSecrets_def
    by (intro tracks_fold tracks_bind_eq [OF tracks_get tracks_return]) simp_all
  with set_getIngressSecrets [OF \<open>permuting order\<close>] show ?thesis by (simp add: UNION_singleton_eq_range)
qed

lemma tracks_FetchIngress:
  "permuting order \<Longrightarrow> tracks self (Key SecretKind ` secret_names prefix ing \<union> \<Union> (service_keys A ` backend_names ing))
     (FetchIngress order A self ing prefix)"
  unfolding FetchIngress_def
  by (rule tracks_bind [OF tracks_secrets]) (auto intro: tracks_bind_eq [OF tracks_services tracks_return])

subsection \<open>What is returned\<close>

lemma fetch_secrets_loop:
  assumes "snd (act_fold (\<lambda>secrets name. act_bind (tracked_Get self SecretKind (as_secret A) name) (\<lambda>s.
      act_return (AList.update name s secrets))) acc names r) = Inr m"
  shows "map_of m n = (if n \<in> set names then Some (projr (as_secret A n)) else map_of acc n) \<and> (n \<in> set names \<longrightarrow> \<not> isl (as_secret A n))"
  using assms
proof (induction names arbitrary: acc r)
  case (Cons name names)
  then obtain s r' where s: "as_secret A name = Inr s"
    and "snd (act_fold (\<lambda>secrets name. act_bind (tracked_Get self SecretKind (as_secret A) name) (\<lambda>s.
      act_return (AList.update name s secrets))) (AList.update name s acc) names r') = Inr m"
    by (auto simp: act_bind_Inr tracked_Get_result fst_act_bind split: sum.splits)
  from Cons.IH [OF this(2)] s show ?case by (auto simp: gomap_simps)
qed simp

lemma fetchIngressService_Inr:
  assumes "snd (fetchIngressService A self dst name r) = Inr dst'"
  obtains svc where "as_service A name = Inr svc" "fst dst' = AList.update name svc (fst dst)"
    "snd dst' = (if svc_type svc = ServiceTypeExternalName then snd dst else AList.update name (projr (as_endpoints A name)) (snd dst))"
    "svc_type svc = ServiceTypeExternalName \<or> \<not> isl (as_endpoints A name)"
  using assms
  by (cases "as_service A name"; cases "as_endpoints A name")
    (auto simp: fetchIngressService_def act_bind_Inr tracked_Get_result Let_def split: if_splits)

text \<open>The entries of the two maps come from the server.\<close>

definition services_from :: "api_server \<Rightarrow> (namespaced_name, service) gomap \<times> (namespaced_name, endpoints) gomap \<Rightarrow> bool" where
  "services_from A dst \<longleftrightarrow>
     (\<forall>n svc. map_of (fst dst) n = Some svc \<longrightarrow> as_service A n = Inr svc) \<and>
     (\<forall>n. map_of (snd dst) n = (case map_of (fst dst) n of None \<Rightarrow> None
        | Some svc \<Rightarrow> if svc_type svc = ServiceTypeExternalName then None else Some (projr (as_endpoints A n))))"

lemma fetchIngressService_from:
  assumes "snd (fetchIngressService A self dst name r) = Inr dst'" "services_from A dst"
  shows "services_from A dst' \<and> dom (map_of (fst dst')) = insert name (dom (map_of (fst dst)))"
proof -
  obtain svc where svc: "as_service A name = Inr svc" "fst dst' = AList.update name svc (fst dst)"
    "snd dst' = (if svc_type svc = ServiceTypeExternalName then snd dst else AList.update name (projr (as_endpoints A name)) (snd dst))"
    using fetchIngressService_Inr [OF assms(1)] by metis
  have "map_of (snd dst) name = None" if "svc_type svc = ServiceTypeExternalName"
  proof (cases "map_of (fst dst) name")
    case (Some svc')
    moreover from this have "svc' = svc" using assms(2) svc(1) by (simp add: services_from_def)
    ultimately show ?thesis using assms(2) that by (simp add: services_from_def)
  qed (use assms(2) in \<open>simp add: services_from_def\<close>)
  then show ?thesis using assms(2) svc by (auto simp: services_from_def gomap_simps)
qed

lemma fetch_paths_loop:
  assumes "snd (act_fold (fetch_path A self ing) dst hps r) = Inr dst'" "services_from A dst"
  shows "services_from A dst' \<and> (\<forall>hp \<in> set hps. ip_service (snd hp) \<noteq> None) \<and>
    dom (map_of (fst dst')) = dom (map_of (fst dst)) \<union>
      NamespacedName (om_namespace (ing_meta ing)) ` {sb_name svc |svc hp. hp \<in> set hps \<and> ip_service (snd hp) = Some svc}"
  using assms
proof (induction hps arbitrary: dst r)
  case (Cons hp hps)
  obtain svc where svc: "ip_service (snd hp) = Some svc"
    using Cons.prems(1) by (cases "ip_service (snd hp)") (auto simp: act_bind_Inr fetch_path_def)
  then have "fetch_path A self ing dst hp = fetchIngressService A self dst (NamespacedName (om_namespace (ing_meta ing)) (sb_name svc))"
    by (simp add: fetch_path_def)
  then obtain dst1 r1 where 1: "snd (fetchIngressService A self dst (NamespacedName (om_namespace (ing_meta ing)) (sb_name svc)) r) = Inr dst1"
    "snd (act_fold (fetch_path A self ing) dst1 hps r1) = Inr dst'"
    using Cons.prems(1) by (auto simp: act_bind_Inr)
  have "{sb_name s |s hp'. hp' \<in> set (hp # hps) \<and> ip_service (snd hp') = Some s} =
      insert (sb_name svc) {sb_name s |s hp'. hp' \<in> set hps \<and> ip_service (snd hp') = Some s}"
    using svc by (auto simp del: split_paired_Ex)
  then show ?case
    using Cons.IH [OF 1(2)] fetchIngressService_from [OF 1(1) Cons.prems(2)] svc by (simp del: split_paired_Ex)
qed simp

lemma fetchIngressServices_Inr:
  assumes "snd (fetchIngressServices A self ing r) = Inr dst"
  shows "services_from A dst \<and> dom (map_of (fst dst)) = backend_names ing \<and>
    (\<forall>hp \<in> set (backend_paths ing). ip_service (snd hp) \<noteq> None) \<and> ing_default_backend ing \<noteq> Some None"
proof -
  obtain dst1 r1 where 1: "snd (act_fold (fetch_path A self ing) ([], []) (backend_paths ing) r) = Inr dst1"
    and 2: "snd ((case ing_default_backend ing of None \<Rightarrow> act_return dst1 | Some None \<Rightarrow> act_fail ErrDefaultBackendNil
       | Some (Some svc) \<Rightarrow> fetchIngressService A self dst1 (NamespacedName (om_namespace (ing_meta ing)) (sb_name svc))) r1) = Inr dst"
    using assms by (auto simp: fetchIngressServices_def act_bind_Inr)
  have l: "services_from A dst1 \<and> (\<forall>hp \<in> set (backend_paths ing). ip_service (snd hp) \<noteq> None) \<and>
    dom (map_of (fst dst1)) =
      NamespacedName (om_namespace (ing_meta ing)) ` {sb_name svc |svc hp. hp \<in> set (backend_paths ing) \<and> ip_service (snd hp) = Some svc}"
    using fetch_paths_loop [OF 1] by (simp add: services_from_def)
  show ?thesis
  proof (cases "ing_default_backend ing")
    case None
    then show ?thesis using 2 l by (simp add: backend_names_def)
  next
    case (Some b)
    then obtain svc where b: "b = Some svc" using 2 by (cases b) auto
    then have "snd (fetchIngressService A self dst1 (NamespacedName (om_namespace (ing_meta ing)) (sb_name svc)) r1) = Inr dst"
      using 2 Some by simp
    from fetchIngressService_from [OF this] l show ?thesis by (simp add: Some b backend_names_def image_Un)
  qed
qed

text \<open>The fetched configuration: exactly the named secrets and services, as they are on the server.\<close>

lemma FetchIngress_Inr:
  assumes "snd (FetchIngress order A self ing prefix r) = Inr ic" "permuting order"
  shows "AnnotationPrefix ic = prefix \<and> ic_Ingress ic = ing \<and>
    (\<forall>n. map_of (ic_Secrets ic) n = (if n \<in> secret_names prefix ing then Some (projr (as_secret A n)) else None)) \<and>
    (\<forall>n \<in> secret_names prefix ing. \<not> isl (as_secret A n)) \<and>
    services_from A (ic_Services ic, ic_Endpoints ic) \<and> dom (map_of (ic_Services ic)) = backend_names ing \<and>
    (\<forall>hp \<in> set (backend_paths ing). ip_service (snd hp) \<noteq> None) \<and> ing_default_backend ing \<noteq> Some None"
proof -
  obtain secrets se r1 where 1: "snd (fetchIngressSecrets order A self ing prefix r) = Inr secrets"
    and 2: "snd (fetchIngressServices A self ing r1) = Inr se"
    and ic: "ic = \<lparr>AnnotationPrefix = prefix, ic_Ingress = ing, ic_Endpoints = snd se, ic_Secrets = secrets, ic_Services = fst se\<rparr>"
    using assms(1) by (auto simp: FetchIngress_def act_bind_Inr)
  show ?thesis
    using fetch_secrets_loop [OF 1 [unfolded fetchIngressSecrets_def]] set_getIngressSecrets [OF assms(2), of prefix ing]
      fetchIngressServices_Inr [OF 2]
    by (simp add: ic)
qed

subsection \<open>The translation of a fetched ingress\<close>

text \<open>The errors that say that something was not fetched.\<close>

definition not_fetched :: "ing_error \<Rightarrow> bool" where
  "not_fetched e =
     (case e of
        ErrAnnotations (ErrSecretNotFetched _ _) \<Rightarrow> True
      | ErrServiceMissing _ \<Rightarrow> True
      | ErrPort (ErrServiceNotFetched _) \<Rightarrow> True
      | _ \<Rightarrow> False)"

lemma not_fetched_simps [simp]:
  "not_fetched (ErrAnnotations a) \<longleftrightarrow> (\<exists>k n. a = ErrSecretNotFetched k n)"
  "\<not> not_fetched ErrEmptyHost" "\<not> not_fetched ErrRulesHTTP" "\<not> not_fetched (ErrRouteCount n)"
  "\<not> not_fetched (ErrTLSSpecs n)" "\<not> not_fetched (ErrTLSHosts n)"
  by (simp_all add: not_fetched_def split: ann_error.split)

definition secrets_present :: "ingress_config \<Rightarrow> bool" where
  "secrets_present ic \<longleftrightarrow>
     (\<forall>(k, v) \<in> set (om_annotations (ic_meta ic)). secret_annotation (AnnotationPrefix ic) k \<longrightarrow>
        map_of (ic_Secrets ic) (NamespacedName (om_namespace (ic_meta ic)) v) \<noteq> None)"

definition service_present :: "ingress_config \<Rightarrow> service_backend option \<Rightarrow> bool" where
  "service_present ic backend \<longleftrightarrow>
     (case backend of None \<Rightarrow> False | Some b \<Rightarrow> map_of (ic_Services ic) (ic_GetNamespacedName ic (sb_name b)) \<noteq> None)"

lemma secret_keys_suffix: "k \<in> set tlsAnnotations \<or> k \<in> set secretAnnotations \<Longrightarrow> HasSuffix k ''_secret''"
proof -
  have "list_all (\<lambda>k. HasSuffix k ''_secret'') (tlsAnnotations @ secretAnnotations)" by code_simp
  moreover assume "k \<in> set tlsAnnotations \<or> k \<in> set secretAnnotations"
  ultimately show ?thesis by (auto simp: list_all_iff)
qed

lemma set_update_subset: "set (AList.update k v m) \<subseteq> insert (k, v) (set m)"
  by (induction m) auto

lemma removeKeyPrefix_entries:
  assumes "removeKeyPrefix src prefix = Inr kv" "(G, sel) \<in> set groups" "(k, v) \<in> set (sel kv)"
  shows "k \<in> set G \<and> (prefix @ ''/'' @ k, v) \<in> set src"
proof -
  have "\<forall>(k, v) \<in> set (sel kv). k \<in> set G \<and> (prefix @ ''/'' @ k, v) \<in> set src"
    using assms(1) unfolding removeKeyPrefix_def
  proof (rule efold_invariant)
    show "\<forall>(k, v) \<in> set (sel new_keys). k \<in> set G \<and> (prefix @ ''/'' @ k, v) \<in> set src"
      using assms(2) by (auto simp: groups_def new_keys_def)
  next
    fix kv e kv'
    assume inv: "\<forall>(k, v) \<in> set (sel kv). k \<in> set G \<and> (prefix @ ''/'' @ k, v) \<in> set src"
      and e: "e \<in> set src" "removeKeyPrefix_step (prefix @ ''/'') kv e = Inr kv'"
    obtain a b where ab: "e = (a, b)" by fastforce
    show "\<forall>(k, v) \<in> set (sel kv'). k \<in> set G \<and> (prefix @ ''/'' @ k, v) \<in> set src"
    proof (cases "HasPrefix a (prefix @ ''/'')")
      case True
      then obtain k' where a: "a = prefix @ ''/'' @ k'" by (auto simp: HasPrefix_iff)
      then have "file_annotation kv k' b = Some kv'"
        using e(2) TrimPrefix_append [of "prefix @ ''/''" k'] HasPrefix_append [of "prefix @ ''/''" k']
        by (auto simp: removeKeyPrefix_step_def ab Let_def True split: if_splits option.splits)
      from file_annotation_groups [OF this assms(2)] show ?thesis
        using inv e(1) set_update_subset [of k' b "sel kv"] by (auto simp: ab a split: if_splits)
    qed (use e inv in \<open>auto simp: removeKeyPrefix_step_def ab\<close>)
  qed
  with assms(3) show ?thesis by auto
qed

lemma b64_error: "b64 s k key = Inl e \<Longrightarrow> e \<noteq> ErrSecretNotFetched a n"
  by (auto simp: b64_def Let_def split: if_splits)

lemma applyTLS_step_error:
  "applyTLS_step secrets ns r (k, name) = Inl (ErrSecretNotFetched a n) \<Longrightarrow> map_of secrets (NamespacedName ns name) = None"
  by (auto simp: applyTLS_step_def ebind_Inl_iff split: option.splits if_splits dest: b64_error)

lemma handler_apply_error: "handler_apply key r data \<noteq> Inl (ErrSecretNotFetched a n)"
  by (auto simp: handler_apply_def apply_token_def merge_headers_def apply_oauth2_secret_def apply_idp_secret_def Let_def ebind_Inl_iff
      split: option.splits if_splits sum.splits mcp_mode.splits)

lemma applySecret_step_error:
  "applySecret_step secrets ns r (k, name) = Inl (ErrSecretNotFetched a n) \<Longrightarrow> map_of secrets (NamespacedName ns name) = None"
  by (auto simp: applySecret_step_def handler_apply_error split: option.splits if_splits)

lemma other_annotation_errors:
  "removeKeyPrefix src prefix \<noteq> Inl (ErrSecretNotFetched a n)"
  "applyMCPAnnotations E r s c \<noteq> Inl (ErrSecretNotFetched a n)"
  "applyUpstreamAnnotations r kvs \<noteq> Inl (ErrSecretNotFetched a n)"
  "unmarshalPolicyAnnotations E p kvs \<noteq> Inl (ErrSecretNotFetched a n)"
proof -
  show "removeKeyPrefix src prefix \<noteq> Inl (ErrSecretNotFetched a n)"
    by (auto simp: removeKeyPrefix_def removeKeyPrefix_step_def Let_def split: if_splits option.splits dest!: efold_Inl)
  have "efold (mcp_server_step E) sc kvs \<noteq> Inl (ErrSecretNotFetched a n)" for sc kvs
    by (auto simp: mcp_server_step_def split: if_splits option.splits sum.splits dest!: efold_Inl)
  moreover have "efold mcp_client_step u kvs \<noteq> Inl (ErrSecretNotFetched a n)" for u kvs
    by (auto simp: mcp_client_step_def split: if_splits dest!: efold_Inl)
  ultimately show "applyMCPAnnotations E r s c \<noteq> Inl (ErrSecretNotFetched a n)"
    by (auto simp: applyMCPAnnotations_def applyMCPServerAnnotations_def applyMCPClientAnnotations_def ebind_Inl_iff
        split: if_splits option.splits mcp_mode.splits)
  show "applyUpstreamAnnotations r kvs \<noteq> Inl (ErrSecretNotFetched a n)"
    by (auto simp: applyUpstreamAnnotations_def applyUpstream_step_def split: if_splits dest!: efold_Inl)
  show "unmarshalPolicyAnnotations E p kvs \<noteq> Inl (ErrSecretNotFetched a n)"
    by (auto simp: unmarshalPolicyAnnotations_def split: sum.splits option.splits)
qed

lemma applyAnnotations_fetched:
  assumes "secrets_present ic"
  shows "applyAnnotations E r ic \<noteq> Inl (ErrSecretNotFetched a n)"
proof
  assume err: "applyAnnotations E r ic = Inl (ErrSecretNotFetched a n)"
  let ?src = "om_annotations (ic_meta ic)" and ?ns = "om_namespace (ic_meta ic)"
  obtain kv where kv: "removeKeyPrefix ?src (AnnotationPrefix ic) = Inr kv"
    using err other_annotation_errors(1) by (auto simp: applyAnnotations_def ebind_Inl_iff)
  then have "(\<exists>r1. applyTLSAnnotations r1 (kv_TLS kv) (ic_Secrets ic) ?ns = Inl (ErrSecretNotFetched a n)) \<or>
      (\<exists>r2. applySecretAnnotations r2 (kv_Secret kv) (ic_Secrets ic) ?ns = Inl (ErrSecretNotFetched a n))"
    using err by (auto simp: applyAnnotations_def ebind_Inl_iff other_annotation_errors split: sum.splits)
  then obtain k name where miss: "map_of (ic_Secrets ic) (NamespacedName ?ns name) = None"
    and "(k, name) \<in> set (kv_TLS kv) \<or> (k, name) \<in> set (kv_Secret kv)"
  proof (elim disjE exE)
    fix r1
    assume "applyTLSAnnotations r1 (kv_TLS kv) (ic_Secrets ic) ?ns = Inl (ErrSecretNotFetched a n)"
    then obtain r' k' name' where "(k', name') \<in> set (kv_TLS kv)"
      "applyTLS_step (ic_Secrets ic) ?ns r' (k', name') = Inl (ErrSecretNotFetched a n)"
      unfolding applyTLSAnnotations_def by (force dest: efold_Inl)
    then show thesis using that applyTLS_step_error by blast
  next
    fix r2
    assume "applySecretAnnotations r2 (kv_Secret kv) (ic_Secrets ic) ?ns = Inl (ErrSecretNotFetched a n)"
    then obtain r' k' name' where "(k', name') \<in> set (kv_Secret kv)"
      "applySecret_step (ic_Secrets ic) ?ns r' (k', name') = Inl (ErrSecretNotFetched a n)"
      unfolding applySecretAnnotations_def by (force dest: efold_Inl)
    then show thesis using that applySecret_step_error by blast
  qed
  then have "(AnnotationPrefix ic @ ''/'' @ k, name) \<in> set ?src \<and> HasSuffix k ''_secret''"
    using removeKeyPrefix_entries [OF kv, of tlsAnnotations kv_TLS] removeKeyPrefix_entries [OF kv, of secretAnnotations kv_Secret]
      secret_keys_suffix by (auto simp: groups_def)
  moreover from this have "secret_annotation (AnnotationPrefix ic) (AnnotationPrefix ic @ ''/'' @ k)"
    by (auto simp: secret_annotation_def HasSuffix_iff)
  ultimately show False using assms miss unfolding secrets_present_def by fastforce
qed

lemma getServiceFromPath_present:
  "service_present ic (ip_service p) \<Longrightarrow> getServiceFromPath p ic = Inl e \<Longrightarrow> \<not> not_fetched e"
  by (auto simp: service_present_def getServiceFromPath_def GetServicePortByName_def Let_def ebind_Inl_iff not_fetched_def
      split: option.splits if_splits)

lemma pathToRoute_present:
  assumes "service_present ic (ip_service p)" "pathToRoute slug r host p ic = Inl e"
  shows "\<not> not_fetched e"
proof -
  have from': "setRouteFrom r host p ic = Inl e \<Longrightarrow> \<not> not_fetched e" for r
    using getServiceFromPath_present [OF assms(1)]
    by (auto simp: setRouteFrom_def add_port_def Let_def ebind_Inl_iff ebind_Inr_iff split: if_splits)
  have path: "setRoutePath r p ic = Inl e \<Longrightarrow> \<not> not_fetched e" for r
    by (auto simp: setRoutePath_def tunnel_path_def not_fetched_def split: option.splits if_splits path_type.splits)
  have urls: "setServiceURLs r p ic = Inl e \<Longrightarrow> \<not> not_fetched e" for r
    using getServiceFromPath_present [OF assms(1)]
    by (auto simp: setServiceURLs_def getPathServiceHosts_def Let_def ebind_Inl_iff split: if_splits)
  show ?thesis using assms(2) from' path urls by (auto simp: pathToRoute_def ebind_Inl_iff)
qed

lemma ruleToRoute_present:
  assumes "ruleToRoute slug rule tmpl ic = Inl e"
    and "\<forall>ps. ir_http rule = Some ps \<longrightarrow> (\<forall>p \<in> set ps. service_present ic (ip_service p))"
  shows "\<not> not_fetched e"
  using assms
  by (auto simp: ruleToRoute_def ebind_Inl_iff split: if_splits option.splits dest!: emap_Inl dest: pathToRoute_present)

lemma defaultBackend_present:
  assumes "defaultBackend slug tmpl ic backend = Inl e" "service_present ic backend"
  shows "\<not> not_fetched e"
proof -
  have "deriveHostFromTLS tls = Inl e \<Longrightarrow> \<not> not_fetched e" for tls
    by (auto simp: deriveHostFromTLS_def split: list.splits)
  moreover have "ruleToRoute slug \<lparr>ir_host = host, ir_http = Some [\<lparr>ip_path = ''/'', ip_type = Some PathTypePrefix, ip_service = backend\<rparr>]\<rparr> tmpl ic = Inl e
      \<Longrightarrow> \<not> not_fetched e" for host
    by (erule ruleToRoute_present) (use assms(2) in simp_all)
  ultimately show ?thesis
    using assms(1) by (auto simp: defaultBackend_def ebind_Inl_iff split: if_splits)
qed

lemma ingressToRoutes_present:
  assumes "ingressToRoutes E slug ic = Inl e" "secrets_present ic"
    and "\<forall>hp \<in> set (backend_paths (ic_Ingress ic)). service_present ic (ip_service (snd hp))"
    and "\<forall>backend. ing_default_backend (ic_Ingress ic) = Some backend \<longrightarrow> service_present ic backend"
  shows "\<not> not_fetched e"
proof -
  have tmpl: "route_template E ic = Inl e \<Longrightarrow> \<not> not_fetched e"
    using applyAnnotations_fetched [OF assms(2)]
    by (auto simp: route_template_def split: if_splits sum.splits)
  have rules: "ruleToRoute slug rule t ic = Inl e \<Longrightarrow> \<not> not_fetched e" if "rule \<in> set (ing_rules (ic_Ingress ic))" for rule t
  proof (erule ruleToRoute_present, intro allI impI ballI)
    fix ps p
    assume "ir_http rule = Some ps" "p \<in> set ps"
    then have "(ir_host rule, p) \<in> set (backend_paths (ic_Ingress ic))" using that by (force simp: backend_paths_def)
    then show "service_present ic (ip_service p)" using assms(3) by fastforce
  qed
  show ?thesis
    using assms(1,4) tmpl rules defaultBackend_present
    by (auto simp: ingressToRoutes_def ebind_Inl_iff split: option.splits dest!: efold_Inl)
qed

text \<open>An ingress that was fetched can fail to translate for many reasons, but never because a secret or a service was
  not fetched: the fetcher reads at least what the translation looks up.\<close>

lemma fetched_translates:
  assumes "snd (FetchIngress order A self ing prefix r) = Inr ic" "permuting order"
  shows "ingressToRoutes E slug ic = Inl e \<Longrightarrow> \<not> not_fetched e"
proof (erule ingressToRoutes_present)
  note fetched = FetchIngress_Inr [OF assms]
  show "secrets_present ic"
    using fetched by (force simp: secrets_present_def secret_names_def)
  have mem: "NamespacedName (om_namespace (ing_meta ing)) (sb_name b) \<in> backend_names ing \<Longrightarrow> service_present ic (Some b)" for b
    using fetched by (auto simp: service_present_def ic_GetNamespacedName_def domIff [symmetric])
  show "\<forall>hp \<in> set (backend_paths (ic_Ingress ic)). service_present ic (ip_service (snd hp))"
  proof
    fix hp
    assume hp: "hp \<in> set (backend_paths (ic_Ingress ic))"
    then obtain b where b: "ip_service (snd hp) = Some b" using fetched by fastforce
    have "NamespacedName (om_namespace (ing_meta ing)) (sb_name b) \<in> backend_names ing"
      unfolding backend_names_def using hp b fetched by blast
    then show "service_present ic (ip_service (snd hp))" using mem b by simp
  qed
  show "\<forall>backend. ing_default_backend (ic_Ingress ic) = Some backend \<longrightarrow> service_present ic backend"
  proof (intro allI impI)
    fix backend
    assume d: "ing_default_backend (ic_Ingress ic) = Some backend"
    then obtain b where "backend = Some b" using fetched by (cases backend) auto
    then show "service_present ic backend" using mem d fetched by (auto simp: backend_names_def)
  qed
qed

end
