(* ===== verification/Ingress_Controller.thy ===== *)
theory Ingress_Controller
  imports Ingress_Fetch Databroker_Sync
begin

text \<open>
  The ingress controller (\<^verbatim>\<open>controllers/ingress\<close>): which ingresses it manages, the initial synchronisation and the
  reconciliation of one ingress. The reconciler behind it is a record of operations; the locale
  \<open>ingress_controller_backend\<close> is the contract the controller relies on, interpreted on the databroker.
\<close>

subsection \<open>The controller\<close>

record ingress_controller =
  ct_controllerName :: string
  ct_annotationPrefix :: string
  ct_namespaces :: "(string, bool) gomap"
  ct_updateStatusFromService :: "namespaced_name option"
  ct_globalSettings :: "namespaced_name option"

definition DefaultAnnotationPrefix :: string where "DefaultAnnotationPrefix = ''ingress.pomerium.io''"
definition DefaultClassControllerName :: string where "DefaultClassControllerName = ''pomerium.io/ingress-controller''"

definition NewIngressController :: "(ingress_controller \<Rightarrow> ingress_controller) list \<Rightarrow> ingress_controller" where
  "NewIngressController opts = foldl (\<lambda>ic opt. opt ic)
     \<lparr>ct_controllerName = DefaultClassControllerName, ct_annotationPrefix = DefaultAnnotationPrefix, ct_namespaces = [],
      ct_updateStatusFromService = None, ct_globalSettings = None\<rparr> opts"

definition arrayToMap :: "string list \<Rightarrow> (string, bool) gomap" where
  "arrayToMap ns = foldl (\<lambda>out k. AList.update k True out) [] ns"

definition WithGlobalSettings :: "namespaced_name \<Rightarrow> ingress_controller \<Rightarrow> ingress_controller" where
  "WithGlobalSettings name ic = ic\<lparr>ct_globalSettings := Some name\<rparr>"

definition WithControllerName :: "string \<Rightarrow> ingress_controller \<Rightarrow> ingress_controller" where
  "WithControllerName name ic = ic\<lparr>ct_controllerName := name\<rparr>"

definition WithAnnotationPrefix :: "string \<Rightarrow> ingress_controller \<Rightarrow> ingress_controller" where
  "WithAnnotationPrefix prefix ic = ic\<lparr>ct_annotationPrefix := prefix\<rparr>"

definition WithNamespaces :: "string list \<Rightarrow> ingress_controller \<Rightarrow> ingress_controller" where
  "WithNamespaces ns ic = ic\<lparr>ct_namespaces := arrayToMap ns\<rparr>"

definition WithUpdateIngressStatusFromService :: "namespaced_name \<Rightarrow> ingress_controller \<Rightarrow> ingress_controller" where
  "WithUpdateIngressStatusFromService name ic = ic\<lparr>ct_updateStatusFromService := Some name\<rparr>"

definition WithWatchSettings :: "namespaced_name \<Rightarrow> ingress_controller \<Rightarrow> ingress_controller" where
  "WithWatchSettings name ic = ic\<lparr>ct_globalSettings := Some name\<rparr>"

text \<open>\<^verbatim>\<open>r.namespaces[ns]\<close>: an absent key reads as false.\<close>

definition in_namespaces :: "ingress_controller \<Rightarrow> string \<Rightarrow> bool" where
  "in_namespaces C ns \<longleftrightarrow> map_of (ct_namespaces C) ns = Some True"

definition isWatching :: "ingress_controller \<Rightarrow> object_meta \<Rightarrow> bool" where
  "isWatching C obj \<longleftrightarrow>
     ct_namespaces C = [] \<or> ct_updateStatusFromService C = Some (GetNamespacedName obj) \<or> in_namespaces C (om_namespace obj)"

definition getDependantIngressFn :: "ingress_controller \<Rightarrow> registry_items \<Rightarrow> string \<Rightarrow> object_meta \<Rightarrow> namespaced_name list" where
  "getDependantIngressFn C r kind obj =
     (if \<not> isWatching C obj then [] else map KeyName (DepsOfKind r (Key kind (GetNamespacedName obj)) IngressKind))"

subsection \<open>Ingress classes\<close>

definition IngressClassAnnotationKey :: string where "IngressClassAnnotationKey = ''kubernetes.io/ingress.class''"
definition IngressClassDefaultAnnotationKey :: string where
  "IngressClassDefaultAnnotationKey = ''ingressclass.kubernetes.io/is-default-class''"

datatype class_error =
    ErrNotInNamespaces
  | ErrListClasses api_error
  | ErrNoDefaultClass
  | ErrClassNotFound string
  | ErrAnnotationMissing string
  | ErrAnnotationValue string

definition getAnnotation :: "(string, string) gomap \<Rightarrow> string \<Rightarrow> class_error + string" where
  "getAnnotation dict k = (case map_of dict k of None \<Rightarrow> Inl (ErrAnnotationMissing k) | Some txt \<Rightarrow> Inr txt)"

definition ParseBool :: "string \<Rightarrow> bool option" where
  "ParseBool s =
     (if s \<in> {''1'', ''t'', ''T'', ''TRUE'', ''true'', ''True''} then Some True
      else if s \<in> {''0'', ''f'', ''F'', ''FALSE'', ''false'', ''False''} then Some False else None)"

definition isDefaultIngressClass :: "ingress_class \<Rightarrow> class_error + bool" where
  "isDefaultIngressClass ic =
     ebind (getAnnotation (om_annotations (icl_meta ic)) IngressClassDefaultAnnotationKey) (\<lambda>txt.
       case ParseBool txt of None \<Rightarrow> Inl (ErrAnnotationValue txt) | Some v \<Rightarrow> Inr v)"

definition class_name :: "ingress \<Rightarrow> string" where
  "class_name ing = (case ing_class ing of Some n \<Rightarrow> n | None \<Rightarrow> mget_str (om_annotations (ing_meta ing)) IngressClassAnnotationKey)"

definition getManagingClass :: "ingress_controller \<Rightarrow> api_server \<Rightarrow> ingress \<Rightarrow> class_error + ingress_class" where
  "getManagingClass C A ing =
     (if ct_namespaces C \<noteq> [] \<and> \<not> in_namespaces C (om_namespace (ing_meta ing)) then Inl ErrNotInNamespaces
      else (case as_classes A of
        Inl e \<Rightarrow> Inl (ErrListClasses e)
      | Inr items \<Rightarrow>
          (let className = class_name ing in
           if className = [] then
             (case List.find (\<lambda>ic. icl_controller ic = ct_controllerName C \<and> isDefaultIngressClass ic = Inr True) items of
                Some ic \<Rightarrow> Inr ic | None \<Rightarrow> Inl ErrNoDefaultClass)
           else (case List.find (\<lambda>ic. icl_controller ic = ct_controllerName C \<and> className = om_name (icl_meta ic)) items of
                Some ic \<Rightarrow> Inr ic | None \<Rightarrow> Inl (ErrClassNotFound className)))))"

text \<open>Managed is \<open>None\<close>; otherwise the reason. Only errors with an API status are errors.\<close>

definition isManaging :: "ingress_controller \<Rightarrow> api_server \<Rightarrow> ingress \<Rightarrow> api_error + class_error option" where
  "isManaging C A ing =
     (case getManagingClass C A ing of
        Inr _ \<Rightarrow> Inr None
      | Inl err \<Rightarrow> (case err of ErrListClasses e \<Rightarrow> if is_api_status e then Inl e else Inr (Some err) | _ \<Rightarrow> Inr (Some err)))"

subsection \<open>Reconciliation\<close>

text \<open>The operations of the \<^verbatim>\<open>pomerium.IngressReconciler\<close> behind the controller.\<close>

record ('s, 'e) reconciler_ops =
  op_Upsert :: "'s \<Rightarrow> ingress_config \<Rightarrow> 's \<times> ('e + bool)"
  op_Set :: "'s \<Rightarrow> ingress_config list \<Rightarrow> 's \<times> ('e + bool)"
  op_Delete :: "'s \<Rightarrow> namespaced_name \<Rightarrow> 's \<times> ('e + bool)"

datatype status_error = ErrGetStatusService api_error | ErrUpdateStatus api_error

datatype 'e rec_error =
    ErrInitial "'e rec_error"
  | ErrListIngresses api_error
  | ErrGetClass api_error
  | ErrFetchIngress fetch_error
  | ErrGetIngress api_error
  | ErrSet 'e
  | ErrDeleteIngress 'e
  | ErrUpsertIngress 'e
  | ErrIngressStatus status_error

datatype delete_reason = IngressResourceDeleted | NotManaged class_error

datatype 'e report =
    IngressReconciled object_meta
  | IngressNotReconciled object_meta "'e rec_error"
  | IngressDeleted namespaced_name delete_reason

text \<open>The state: the registry, the store of the reconciler, the reports and status updates made, and whether the
  initial synchronisation has run.\<close>

record ('s, 'e) ctl_state =
  cs_registry :: registry_items
  cs_store :: 's
  cs_reports :: "'e report list"
  cs_statuses :: "(namespaced_name \<times> lb_ingress list) list"
  cs_initialised :: bool

definition add_report :: "'e report \<Rightarrow> ('s, 'e) ctl_state \<Rightarrow> ('s, 'e) ctl_state" where
  "add_report x st = st\<lparr>cs_reports := cs_reports st @ [x]\<rparr>"

definition svcPortToIngress :: "port_status list \<Rightarrow> port_status list" where
  "svcPortToIngress src = map (\<lambda>p. \<lparr>pst_Port = pst_Port p, pst_Protocol = pst_Protocol p, pst_Error = pst_Error p\<rparr>) src"

definition svcStatusToIngress :: "service \<Rightarrow> lb_ingress list" where
  "svcStatusToIngress svc =
     (if svc_type svc = ServiceTypeLoadBalancer
      then map (\<lambda>i. \<lparr>lb_ip = lb_ip i, lb_hostname = lb_hostname i, lb_ports = svcPortToIngress (lb_ports i)\<rparr>) (svc_lb svc)
      else if svc_type svc = ServiceTypeNodePort
      then [\<lparr>lb_ip = svc_cluster_ip svc, lb_hostname = [], lb_ports = []\<rparr>]
      else [])"

definition updateIngressStatus ::
  "ingress_controller \<Rightarrow> api_server \<Rightarrow> ingress \<Rightarrow> ('s, 'e) ctl_state \<Rightarrow> ('s, 'e) ctl_state \<times> status_error option" where
  "updateIngressStatus C A ing st =
     (case ct_updateStatusFromService C of
        None \<Rightarrow> (st, None)
      | Some name \<Rightarrow>
          (case as_service A name of
             Inl e \<Rightarrow> (st, Some (ErrGetStatusService e))
           | Inr svc \<Rightarrow>
               (case as_update_status A (GetNamespacedName (ing_meta ing)) of
                  Some e \<Rightarrow> (st, Some (ErrUpdateStatus e))
                | None \<Rightarrow> (st\<lparr>cs_statuses := cs_statuses st @ [(GetNamespacedName (ing_meta ing), svcStatusToIngress svc)]\<rparr>, None))))"

definition fetch_in ::
  "(nat \<Rightarrow> nat list) \<Rightarrow> ingress_controller \<Rightarrow> api_server \<Rightarrow> ingress \<Rightarrow> ('s, 'e) ctl_state \<Rightarrow> ('s, 'e) ctl_state \<times> (fetch_error + ingress_config)" where
  "fetch_in order C A ing st =
     (case fetchIngress order A (ct_annotationPrefix C) (ct_updateStatusFromService C) ing (cs_registry st) of
        (r, res) \<Rightarrow> (st\<lparr>cs_registry := r\<rparr>, res))"

text \<open>The loop of the initial synchronisation over the ingresses.\<close>

fun initial_fetch ::
  "(nat \<Rightarrow> nat list) \<Rightarrow> ingress_controller \<Rightarrow> api_server \<Rightarrow> ingress list \<Rightarrow> ingress_config list \<Rightarrow> ('s, 'e) ctl_state
     \<Rightarrow> ('s, 'e) ctl_state \<times> ('e rec_error + ingress_config list)" where
  "initial_fetch order C A [] ics st = (st, Inr ics)"
| "initial_fetch order C A (ing # ings) ics st =
     (case isManaging C A ing of
        Inl e \<Rightarrow> (st, Inl (ErrGetClass e))
      | Inr (Some reason) \<Rightarrow> initial_fetch order C A ings ics st
      | Inr None \<Rightarrow>
          (case fetch_in order C A ing st of
             (st', Inl e) \<Rightarrow> (st', Inl (ErrFetchIngress e))
           | (st', Inr ic) \<Rightarrow> initial_fetch order C A ings (ics @ [ic]) st'))"

text \<open>The loop that reports on each ingress after the update.\<close>

definition initial_report ::
  "ingress_controller \<Rightarrow> api_server \<Rightarrow> 'e option \<Rightarrow> ('s, 'e) ctl_state \<Rightarrow> ingress_config \<Rightarrow> ('s, 'e) ctl_state" where
  "initial_report C A err st ic =
     (let ing = ic_Ingress ic in
      case err of
        Some e \<Rightarrow> add_report (IngressNotReconciled (ing_meta ing) (ErrSet e)) st
      | None \<Rightarrow>
          (case updateIngressStatus C A ing st of
             (st', Some e) \<Rightarrow> add_report (IngressNotReconciled (ing_meta ing) (ErrIngressStatus e)) st'
           | (st', None) \<Rightarrow> add_report (IngressReconciled (ing_meta ing)) st'))"

definition reconcileInitial ::
  "(nat \<Rightarrow> nat list) \<Rightarrow> ingress_controller \<Rightarrow> api_server \<Rightarrow> ('s, 'e) reconciler_ops \<Rightarrow> ('s, 'e) ctl_state
     \<Rightarrow> ('s, 'e) ctl_state \<times> 'e rec_error option" where
  "reconcileInitial order C A ops st =
     (case as_ingresses A of
        Inl e \<Rightarrow> (st, Some (ErrListIngresses e))
      | Inr items \<Rightarrow>
          (case initial_fetch order C A items [] st of
             (st1, Inl e) \<Rightarrow> (st1, Some e)
           | (st1, Inr ics) \<Rightarrow>
               (case op_Set ops (cs_store st1) ics of
                  (store, res) \<Rightarrow>
                    let err = (case res of Inl e \<Rightarrow> Some e | Inr _ \<Rightarrow> None)
                    in (foldl (initial_report C A err) (st1\<lparr>cs_store := store\<rparr>) ics, map_option ErrSet err))))"

text \<open>\<^verbatim>\<open>r.initComplete.yield\<close> for one caller at a time: the first call runs the initial synchronisation and returns its
  error, later calls return nil.\<close>

definition yield_initial ::
  "(nat \<Rightarrow> nat list) \<Rightarrow> ingress_controller \<Rightarrow> api_server \<Rightarrow> ('s, 'e) reconciler_ops \<Rightarrow> ('s, 'e) ctl_state
     \<Rightarrow> ('s, 'e) ctl_state \<times> 'e rec_error option" where
  "yield_initial order C A ops st =
     (if cs_initialised st then (st, None)
      else case reconcileInitial order C A ops st of (st', e) \<Rightarrow> (st'\<lparr>cs_initialised := True\<rparr>, e))"

text \<open>The result of a reconciliation: whether to queue the request again, and the error.\<close>

type_synonym 'e rec_result = "bool \<times> 'e rec_error option"

definition deleteIngress ::
  "('s, 'e) reconciler_ops \<Rightarrow> namespaced_name \<Rightarrow> delete_reason \<Rightarrow> ('s, 'e) ctl_state \<Rightarrow> ('s, 'e) ctl_state \<times> 'e rec_result" where
  "deleteIngress ops name reason st =
     (case op_Delete ops (cs_store st) name of
        (store, Inl e) \<Rightarrow> (st\<lparr>cs_store := store\<rparr>, (True, Some (ErrDeleteIngress e)))
      | (store, Inr changed) \<Rightarrow>
          (let st1 = st\<lparr>cs_store := store\<rparr>;
               st2 = (if changed then add_report (IngressDeleted name reason) st1 else st1)
           in (st2\<lparr>cs_registry := DeleteCascade (cs_registry st2) (Key IngressKind name)\<rparr>, (False, None))))"

definition upsertIngress ::
  "ingress_controller \<Rightarrow> api_server \<Rightarrow> ('s, 'e) reconciler_ops \<Rightarrow> ingress_config \<Rightarrow> ('s, 'e) ctl_state \<Rightarrow> ('s, 'e) ctl_state \<times> 'e rec_result" where
  "upsertIngress C A ops ic st =
     (case op_Upsert ops (cs_store st) ic of
        (store, Inl e) \<Rightarrow>
          (add_report (IngressNotReconciled (ic_meta ic) (ErrUpsertIngress e)) (st\<lparr>cs_store := store\<rparr>), (True, Some (ErrUpsertIngress e)))
      | (store, Inr _) \<Rightarrow>
          (case updateIngressStatus C A (ic_Ingress ic) (add_report (IngressReconciled (ic_meta ic)) (st\<lparr>cs_store := store\<rparr>)) of
             (st', Some e) \<Rightarrow> (st', (True, Some (ErrIngressStatus e)))
           | (st', None) \<Rightarrow> (st', (False, None))))"

definition ingress_Reconcile ::
  "(nat \<Rightarrow> nat list) \<Rightarrow> ingress_controller \<Rightarrow> api_server \<Rightarrow> ('s, 'e) reconciler_ops \<Rightarrow> namespaced_name \<Rightarrow> ('s, 'e) ctl_state
     \<Rightarrow> ('s, 'e) ctl_state \<times> 'e rec_result" where
  "ingress_Reconcile order C A ops name st0 =
     (case yield_initial order C A ops st0 of
        (st, Some e) \<Rightarrow> (st, (True, Some (ErrInitial e)))
      | (st, None) \<Rightarrow>
          (case as_ingress A name of
             Inl e \<Rightarrow> if \<not> IsNotFound e then (st, (True, Some (ErrGetIngress e)))
                     else deleteIngress ops name IngressResourceDeleted st
           | Inr ing \<Rightarrow>
               if om_deletion (ing_meta ing) \<noteq> None then deleteIngress ops name IngressResourceDeleted st
               else (case isManaging C A ing of
                       Inl e \<Rightarrow> (st, (True, Some (ErrGetClass e)))
                     | Inr (Some reason) \<Rightarrow> deleteIngress ops name (NotManaged reason) st
                     | Inr None \<Rightarrow>
                         (case fetch_in order C A ing st of
                            (st', Inl e) \<Rightarrow>
                              (add_report (IngressNotReconciled (ing_meta ing) (ErrFetchIngress e)) st',
                               (True, Some (ErrFetchIngress e)))
                          | (st', Inr ic) \<Rightarrow> upsertIngress C A ops ic st'))))"

text \<open>\<^verbatim>\<open>watchIngressClass\<close>: a changed class of this controller requests every ingress.\<close>

definition watchIngressClass ::
  "(nat \<Rightarrow> nat list) \<Rightarrow> ingress_controller \<Rightarrow> api_server \<Rightarrow> ('s, 'e) reconciler_ops \<Rightarrow> ingress_class \<Rightarrow> ('s, 'e) ctl_state
     \<Rightarrow> ('s, 'e) ctl_state \<times> namespaced_name list" where
  "watchIngressClass order C A ops ic st =
     (fst (yield_initial order C A ops st),
      if icl_controller ic \<noteq> ct_controllerName C then []
      else (case as_ingresses A of Inl _ \<Rightarrow> [] | Inr items \<Rightarrow> map (\<lambda>ing. GetNamespacedName (ing_meta ing)) items))"

subsection \<open>What the cluster asks for\<close>

text \<open>The result of a read through the tracking client does not depend on the registry.\<close>

definition reg_free :: "'a tracked \<Rightarrow> bool" where
  "reg_free m \<longleftrightarrow> (\<forall>r r'. snd (m r) = snd (m r'))"

lemma reg_free_get [simp]: "kind \<noteq> [] \<Longrightarrow> reg_free (tracked_Get self kind get name)"
  by (simp add: reg_free_def tracked_Get_result)

lemma reg_free_return [simp]: "reg_free (act_return x)" "reg_free (act_fail e)"
  by (simp_all add: reg_free_def)

lemma reg_free_bind:
  assumes "reg_free m" "\<And>x. reg_free (f x)"
  shows "reg_free (act_bind m f)"
  unfolding reg_free_def
proof (intro allI)
  fix r r'
  have "snd (m r) = snd (m r')" "\<And>x. snd (f x (fst (m r))) = snd (f x (fst (m r')))"
    using assms by (auto simp: reg_free_def)
  then show "snd (act_bind m f r) = snd (act_bind m f r')" by (simp add: snd_act_bind split: sum.split)
qed

lemma reg_free_fold: "(\<And>acc x. reg_free (f acc x)) \<Longrightarrow> reg_free (act_fold f acc xs)"
  by (induction xs arbitrary: acc) (auto intro: reg_free_bind)

lemma reg_free_FetchIngress: "reg_free (FetchIngress order A self ing prefix)"
proof -
  have svc: "reg_free (fetchIngressService A self dst name)" for dst name
    unfolding fetchIngressService_def Let_def by (intro reg_free_bind) (auto intro!: reg_free_bind)
  have "reg_free (fetch_path A self ing dst hp)" for dst hp
    using svc by (simp add: fetch_path_def split: option.split)
  then have "reg_free (fetchIngressServices A self ing)"
    unfolding fetchIngressServices_def using svc by (intro reg_free_bind reg_free_fold) (simp_all split: option.split)
  moreover have "reg_free (fetchIngressSecrets order A self ing prefix)"
    unfolding fetchIngressSecrets_def by (intro reg_free_fold reg_free_bind) simp_all
  ultimately show ?thesis unfolding FetchIngress_def by (intro reg_free_bind reg_free_return)
qed

definition desired_ingress ::
  "(nat \<Rightarrow> nat list) \<Rightarrow> ingress_controller \<Rightarrow> api_server \<Rightarrow> namespaced_name \<Rightarrow> ingress_config option" where
  "desired_ingress order C A name =
     (case as_ingress A name of
        Inl _ \<Rightarrow> None
      | Inr ing \<Rightarrow>
          if om_deletion (ing_meta ing) \<noteq> None \<or> isManaging C A ing \<noteq> Inr None then None
          else (case snd (FetchIngress order A (ingress_key ing) ing (ct_annotationPrefix C) NewRegistry) of
                  Inl _ \<Rightarrow> None | Inr ic \<Rightarrow> Some ic))"

text \<open>The server returns an object under its own name.\<close>

definition names_agree :: "api_server \<Rightarrow> bool" where
  "names_agree A \<longleftrightarrow> (\<forall>name ing. as_ingress A name = Inr ing \<longrightarrow> GetNamespacedName (ing_meta ing) = name)"

lemma fetch_in_result:
  assumes "fetch_in order C A ing st = (st', res)"
  shows "res = snd (FetchIngress order A (ingress_key ing) ing (ct_annotationPrefix C) NewRegistry) \<and>
    st' = st\<lparr>cs_registry := cs_registry st'\<rparr>"
proof -
  have "res = snd (fetchIngress order A (ct_annotationPrefix C) (ct_updateStatusFromService C) ing (cs_registry st))"
    and "st' = st\<lparr>cs_registry := fst (fetchIngress order A (ct_annotationPrefix C) (ct_updateStatusFromService C) ing (cs_registry st))\<rparr>"
    using assms by (auto simp: fetch_in_def split: prod.splits)
  then show ?thesis
    using reg_free_FetchIngress [unfolded reg_free_def] by (auto simp: fetchIngress_def Let_def)
qed

lemma FetchIngress_name: "snd (FetchIngress order A self ing prefix r) = Inr ic \<Longrightarrow> ic_Ingress ic = ing"
  by (auto simp: FetchIngress_def act_bind_Inr)

lemma updateIngressStatus_frame: "cs_store (fst (updateIngressStatus C A ing st)) = cs_store st"
  by (simp add: updateIngressStatus_def split: option.split sum.split)

lemma add_report_store [simp]: "cs_store (add_report x st) = cs_store st" "cs_registry (add_report x st) = cs_registry st"
  by (simp_all add: add_report_def)

subsection \<open>The contract of the reconciler\<close>

definition lift_op :: "('s \<Rightarrow> 'x \<Rightarrow> 'e + bool \<times> 's) \<Rightarrow> 's \<Rightarrow> 'x \<Rightarrow> 's \<times> ('e + bool)" where
  "lift_op f s x = (case f s x of Inl e \<Rightarrow> (s, Inl e) | Inr (c, s') \<Rightarrow> (s', Inr c))"

definition ops_of ::
  "('s \<Rightarrow> ingress_config \<Rightarrow> 'e + bool \<times> 's) \<Rightarrow> ('s \<Rightarrow> ingress_config list \<Rightarrow> 'e + bool \<times> 's) \<Rightarrow> ('s \<Rightarrow> namespaced_name \<Rightarrow> 'e + bool \<times> 's)
     \<Rightarrow> ('s, 'e) reconciler_ops" where
  "ops_of upsert setall delete = \<lparr>op_Upsert = lift_op upsert, op_Set = lift_op setall, op_Delete = lift_op delete\<rparr>"

locale ingress_controller_backend = ingress_reconciler upsert delete ic_name routes_of held invar good
  for upsert :: "'s \<Rightarrow> ingress_config \<Rightarrow> 'e + bool \<times> 's"
    and delete :: "'s \<Rightarrow> namespaced_name \<Rightarrow> 'e + bool \<times> 's"
    and routes_of :: "ingress_config \<Rightarrow> 'r set"
    and held :: "'s \<Rightarrow> namespaced_name \<Rightarrow> 'r set"
    and invar :: "'s \<Rightarrow> bool"
    and good :: "ingress_config \<Rightarrow> bool" +
  fixes setall :: "'s \<Rightarrow> ingress_config list \<Rightarrow> 'e + bool \<times> 's"
begin

text \<open>What a step may do to the store: nothing, or give \<open>name\<close> the routes \<open>rs\<close>, and the latter if it succeeds.\<close>

definition outcome :: "namespaced_name \<Rightarrow> 'r set \<Rightarrow> ('s, 'e) ctl_state \<Rightarrow> ('s, 'e) ctl_state \<times> 'e rec_result \<Rightarrow> bool" where
  "outcome name rs st res \<longleftrightarrow>
     invar (cs_store (fst res)) \<and>
     (\<forall>n. n \<noteq> name \<longrightarrow> held (cs_store (fst res)) n = held (cs_store st) n) \<and>
     (held (cs_store (fst res)) name = held (cs_store st) name \<or> held (cs_store (fst res)) name = rs) \<and>
     (snd (snd res) = None \<longrightarrow> held (cs_store (fst res)) name = rs) \<and>
     (fst (snd res) \<longleftrightarrow> snd (snd res) \<noteq> None)"

lemma outcome_error: "invar (cs_store st) \<Longrightarrow> cs_store st' = cs_store st \<Longrightarrow> outcome name rs st (st', (True, Some e))"
  by (simp add: outcome_def)

lemma deleteIngress_outcome:
  "invar (cs_store st) \<Longrightarrow> outcome name {} st (deleteIngress (ops_of upsert setall delete) name reason st)"
  using delete_invar [of "cs_store st" name] delete_held [of "cs_store st" name]
  by (auto simp: deleteIngress_def ops_of_def lift_op_def outcome_def Let_def split: sum.splits)

lemma upsertIngress_outcome:
  assumes "invar (cs_store st)" "good ic"
  shows "outcome (ic_name ic) (routes_of ic) st (upsertIngress C A (ops_of upsert setall delete) ic st)"
proof (cases "upsert (cs_store st) ic")
  case (Inl e)
  then show ?thesis using assms by (simp add: upsertIngress_def ops_of_def lift_op_def outcome_def Let_def)
next
  case (Inr cs)
  obtain c s' where cs: "cs = (c, s')" by fastforce
  let ?st = "add_report (IngressReconciled (ic_meta ic)) (st\<lparr>cs_store := s'\<rparr>)"
  obtain st' e where up: "updateIngressStatus C A (ic_Ingress ic) ?st = (st', e)" by fastforce
  then have "cs_store st' = s'" using updateIngressStatus_frame [of C A "ic_Ingress ic" ?st] by simp
  moreover have "upsertIngress C A (ops_of upsert setall delete) ic st = (st', (e \<noteq> None, map_option ErrIngressStatus e))"
    using Inr cs up by (cases e) (simp_all add: upsertIngress_def ops_of_def lift_op_def Let_def)
  ultimately show ?thesis
    using upsert_invar [OF assms] upsert_held [OF assms] Inr cs by (auto simp: outcome_def)
qed

lemma Reconcile_outcome:
  assumes "invar (cs_store st)" "cs_initialised st" "names_agree A" "\<forall>ic. desired_ingress order C A name = Some ic \<longrightarrow> good ic"
  shows "outcome name (case desired_ingress order C A name of None \<Rightarrow> {} | Some ic \<Rightarrow> routes_of ic) st
    (ingress_Reconcile order C A (ops_of upsert setall delete) name st)"
proof -
  note [simp] = ingress_Reconcile_def yield_initial_def assms(2)
  show ?thesis
  proof (cases "as_ingress A name")
    case (Inl e)
    then show ?thesis
      using deleteIngress_outcome [OF assms(1)] outcome_error [OF assms(1)] by (simp add: desired_ingress_def)
  next
    case (Inr ing)
    then have name: "GetNamespacedName (ing_meta ing) = name" using assms(3) by (simp add: names_agree_def)
    consider "om_deletion (ing_meta ing) \<noteq> None" | e where "om_deletion (ing_meta ing) = None" "isManaging C A ing = Inl e"
      | reason where "om_deletion (ing_meta ing) = None" "isManaging C A ing = Inr (Some reason)"
      | "om_deletion (ing_meta ing) = None" "isManaging C A ing = Inr None"
      by (cases "isManaging C A ing") auto
    then show ?thesis
    proof cases
      case 4
      obtain st' res where f: "fetch_in order C A ing st = (st', res)" by fastforce
      note fr = fetch_in_result [OF f]
      then have store: "cs_store st' = cs_store st" by (metis ctl_state.ext_inject ctl_state.surjective ctl_state.update_convs(1))
      show ?thesis
      proof (cases res)
        case (Inl e)
        then show ?thesis
          using Inr 4 f fr store outcome_error [OF assms(1)] by (simp add: desired_ingress_def)
      next
        case res: (Inr ic)
        then have "desired_ingress order C A name = Some ic" using Inr 4 fr by (simp add: desired_ingress_def)
        moreover have "ic_name ic = name" using res fr FetchIngress_name [of order A] name by (metis GetNamespacedName_def)
        ultimately show ?thesis
          using Inr 4 f res store assms upsertIngress_outcome [of st' ic] by (simp add: outcome_def)
      qed
    qed (use Inr deleteIngress_outcome [OF assms(1)] outcome_error [OF assms(1)] in \<open>simp_all add: desired_ingress_def\<close>)
  qed
qed

end

interpretation dbc: ingress_controller_backend "Upsert R S" "Delete R S" "ingress_routes S" "held_routes R" "db_invar R" utf8_ingress "db_Set R S"
  for R S
  by unfold_locales

subsection \<open>Properties\<close>


definition ex_api :: api_server where
  "ex_api = \<lparr>as_ingress = (\<lambda>n. if n = NamespacedName ''ns'' ''web'' then Inr (ic_Ingress ex_plain_ic\<lparr>ing_class := Some ''pomerium''\<rparr>) else Inl NotFound),
     as_ingresses = Inr [ic_Ingress ex_plain_ic\<lparr>ing_class := Some ''pomerium''\<rparr>],
     as_classes = Inr [\<lparr>icl_meta = new_meta ''IngressClass'' [] ''pomerium'', icl_controller = DefaultClassControllerName\<rparr>],
     as_secret = (\<lambda>n. Inl NotFound),
     as_service = (\<lambda>n. if n = NamespacedName ''ns'' ''svc'' then Inr ex_svc else Inl NotFound),
     as_endpoints = (\<lambda>n. if n = NamespacedName ''ns'' ''svc'' then Inr (projr (case map_of (ic_Endpoints ex_ic) n of None \<Rightarrow> Inl () | Some e \<Rightarrow> Inr e)) else Inl NotFound),
     as_update_status = (\<lambda>n. None)\<rparr>"

definition ex_ctl :: "(db_store, sync_error) ctl_state" where
  "ex_ctl = \<lparr>cs_registry = NewRegistry, cs_store = [], cs_reports = [], cs_statuses = [], cs_initialised = True\<rparr>"

lemma ex_api_names: "names_agree ex_api"
  by (auto simp: names_agree_def ex_api_def ex_plain_ic_def ex_ic_def ex_ingress_obj_def new_meta_def GetNamespacedName_def split: if_splits)


subsubsection \<open>Watches\<close>

lemma tracks_watch:
  assumes "tracks self K m"
  shows "tracks self (Key ServiceKind ` set_option svc \<union> K) (\<lambda>r. m (watch_service A self svc r))"
proof (cases svc)
  case None
  then show ?thesis using assms by (simp add: watch_service_def)
next
  case (Some name)
  have reg: "watch_service A self (Some name) r = registry_Add r self (Key ServiceKind name)" for r
    by (simp add: watch_service_def tracked_Get_def tracking_Get_def makeKey_def split: sum.split)
  show ?thesis
    unfolding tracks_def
  proof
    fix r
    obtain ds where ds: "fst (m (registry_Add r self (Key ServiceKind name))) = register_all self (registry_Add r self (Key ServiceKind name)) ds"
      "set ds \<subseteq> K" "\<And>x. snd (m (registry_Add r self (Key ServiceKind name))) = Inr x \<Longrightarrow> set ds = K"
      "\<And>k e. snd (m (registry_Add r self (Key ServiceKind name))) = Inl (ErrGetObject k e) \<Longrightarrow> k \<in> set ds"
      using tracksD [OF assms, of "registry_Add r self (Key ServiceKind name)"] by auto
    then show "\<exists>ds. fst (m (watch_service A self svc r)) = register_all self r ds \<and> set ds \<subseteq> Key ServiceKind ` set_option svc \<union> K \<and>
        (\<forall>x. snd (m (watch_service A self svc r)) = Inr x \<longrightarrow> set ds = Key ServiceKind ` set_option svc \<union> K) \<and>
        (\<forall>k e. snd (m (watch_service A self svc r)) = Inl (ErrGetObject k e) \<longrightarrow> k \<in> set ds)"
      by (intro exI [of _ "Key ServiceKind name # ds"]) (auto simp: reg register_all_Cons Some)
  qed
qed

lemma ingress_reads_others: "ingress_key ing' \<notin> ingress_reads A prefix svc ing"
  by (auto simp: ingress_reads_def service_keys_def ingress_key_def kind_defs split: sum.splits if_splits)

lemma ingress_reads_namespace:
  assumes "k \<in> ingress_reads A prefix svc ing"
  shows "Namespace (KeyName k) = om_namespace (ing_meta ing) \<or> svc = Some (KeyName k)"
proof -
  have "Namespace n = om_namespace (ing_meta ing)" if "n \<in> secret_names prefix ing \<or> n \<in> backend_names ing" for n
    using that by (auto simp: secret_names_def backend_names_def)
  moreover have "KeyName k = n" if "k \<in> service_keys A n" for n
    using that by (auto simp: service_keys_def split: sum.splits if_splits)
  ultimately show ?thesis using assms by (auto simp: ingress_reads_def)
qed

lemma managed_watching:
  assumes "isManaging C A ing = Inr None"
    and "om_namespace obj = om_namespace (ing_meta ing) \<or> ct_updateStatusFromService C = Some (GetNamespacedName obj)"
  shows "isWatching C obj"
proof -
  have "ct_namespaces C = [] \<or> in_namespaces C (om_namespace (ing_meta ing))"
    using assms(1) by (auto simp: isManaging_def getManagingClass_def split: if_splits class_error.splits sum.splits)
  with assms(2) show ?thesis by (auto simp: isWatching_def)
qed

lemma fetch_in_tracks:
  assumes "permuting order" "reg_inv (cs_registry st)" "fetch_in order C A ing st = (st', res)"
  shows "reg_inv (cs_registry st') \<and>
    set (Deps (cs_registry st') (ingress_key ing)) \<subseteq> ingress_reads A (ct_annotationPrefix C) (ct_updateStatusFromService C) ing \<and>
    (\<forall>ic. res = Inr ic \<longrightarrow>
       set (Deps (cs_registry st') (ingress_key ing)) = ingress_reads A (ct_annotationPrefix C) (ct_updateStatusFromService C) ing) \<and>
    (\<forall>k e. res = Inl (ErrGetObject k e) \<longrightarrow> k \<in> set (Deps (cs_registry st') (ingress_key ing))) \<and>
    (\<forall>x y. x \<noteq> ingress_key ing \<and> y \<noteq> ingress_key ing \<longrightarrow>
       (y \<in> set (Deps (cs_registry st') x) \<longleftrightarrow> y \<in> set (Deps (cs_registry st) x)))"
proof -
  have "tracks (ingress_key ing) (ingress_reads A (ct_annotationPrefix C) (ct_updateStatusFromService C) ing)
      (\<lambda>r. FetchIngress order A (ingress_key ing) ing (ct_annotationPrefix C) (watch_service A (ingress_key ing) (ct_updateStatusFromService C) r))"
    unfolding ingress_reads_def Un_assoc by (rule tracks_watch [OF tracks_FetchIngress [OF assms(1)]])
  from tracks_refetch [OF this ingress_reads_others assms(2)] show ?thesis
    using assms(3) by (auto simp: fetch_in_def fetchIngress_def Let_def split: prod.splits)
qed

text \<open>C9: After the resources of a managed ingress were fetched its dependencies are exactly the objects read, and a change of
  any of them requests the ingress; when the fetch failed on an object, its later creation or change requests
  the ingress as well. Dependencies of other objects do not change.\<close>

theorem fetched_objects_watched:
  assumes "permuting order" "reg_inv (cs_registry st)" "isManaging C A ing = Inr None" "fetch_in order C A ing st = (st', res)"
  shows "(\<forall>ic. res = Inr ic \<longrightarrow>
       set (Deps (cs_registry st') (ingress_key ing)) = ingress_reads A (ct_annotationPrefix C) (ct_updateStatusFromService C) ing) \<and>
    (\<forall>k obj. (k \<in> set (Deps (cs_registry st') (ingress_key ing)) \<or> (\<exists>e. res = Inl (ErrGetObject k e))) \<and> GetNamespacedName obj = KeyName k \<longrightarrow>
       GetNamespacedName (ing_meta ing) \<in> set (getDependantIngressFn C (cs_registry st') (Kind k) obj)) \<and>
    (\<forall>x y. x \<noteq> ingress_key ing \<and> y \<noteq> ingress_key ing \<longrightarrow>
       (y \<in> set (Deps (cs_registry st') x) \<longleftrightarrow> y \<in> set (Deps (cs_registry st) x)))"
proof -
  note t = fetch_in_tracks [OF assms(1,2,4)]
  have "GetNamespacedName (ing_meta ing) \<in> set (getDependantIngressFn C (cs_registry st') (Kind k) obj)"
    if k: "k \<in> set (Deps (cs_registry st') (ingress_key ing))" and obj: "GetNamespacedName obj = KeyName k" for k obj
  proof -
    have "Namespace (KeyName k) = om_namespace (ing_meta ing) \<or> ct_updateStatusFromService C = Some (KeyName k)"
      using k t ingress_reads_namespace by blast
    then have "om_namespace obj = om_namespace (ing_meta ing) \<or> ct_updateStatusFromService C = Some (GetNamespacedName obj)"
      using obj [symmetric] by (simp add: GetNamespacedName_def)
    then have "isWatching C obj" by (rule managed_watching [OF assms(3)])
    moreover have "ingress_key ing \<in> set (Deps (cs_registry st') k)" using reg.deps_sym t k by blast
    moreover have "Key (Kind k) (KeyName k) = k" by (cases k) simp
    ultimately show ?thesis
      using obj by (force simp: getDependantIngressFn_def DepsOfKind_def Deps_def ingress_key_def image_iff)
  qed
  then show ?thesis using t by blast
qed

theorem fetched_objects_watched_witness:
  "NamespacedName ''ns'' ''web'' \<in> set (getDependantIngressFn (NewIngressController [])
     (cs_registry (fst (fetch_in (\<lambda>n. [0..<n]) (NewIngressController []) ex_api (projr (as_ingress ex_api (NamespacedName ''ns'' ''web''))) ex_ctl)))
     ServiceKind (new_meta ''Service'' ''ns'' ''svc''))"
proof -
  let ?ing = "projr (as_ingress ex_api (NamespacedName ''ns'' ''web''))" and ?C = "NewIngressController []"
  obtain st' res where run: "fetch_in (\<lambda>n. [0..<n]) ?C ex_api ?ing ex_ctl = (st', res)" by fastforce
  have "Key ServiceKind (NamespacedName ''ns'' ''svc'') \<in> set (Deps (cs_registry (fst (fetch_in (\<lambda>n. [0..<n]) ?C ex_api ?ing ex_ctl))) (ingress_key ?ing))"
    by code_simp
  then have dep: "Key ServiceKind (NamespacedName ''ns'' ''svc'') \<in> set (Deps (cs_registry st') (ingress_key ?ing))" using run by simp
  have 1: "permuting (\<lambda>n. [0..<n])" by (simp add: permuting_def)
  have 2: "reg_inv (cs_registry ex_ctl)" by (simp add: ex_ctl_def reg.invar_empty)
  have 3: "isManaging ?C ex_api ?ing = Inr None" by code_simp
  have "GetNamespacedName (new_meta ''Service'' ''ns'' ''svc'') = KeyName (Key ServiceKind (NamespacedName ''ns'' ''svc''))"
    by (simp add: GetNamespacedName_def new_meta_def)
  with dep have "GetNamespacedName (ing_meta ?ing) \<in>
      set (getDependantIngressFn ?C (cs_registry st') (Kind (Key ServiceKind (NamespacedName ''ns'' ''svc''))) (new_meta ''Service'' ''ns'' ''svc''))"
    using fetched_objects_watched [OF 1 2 3 run] by blast
  moreover have "GetNamespacedName (ing_meta ?ing) = NamespacedName ''ns'' ''web''" by code_simp
  ultimately show ?thesis using run by simp
qed

subsubsection \<open>Unreadable classes\<close>

text \<open>When the list of ingress classes cannot be read because of the client (the connection, the cache, a deadline) and
  not with a status of the API server, an ingress counts as not managed: its routes are deleted instead of the
  request being retried.\<close>

theorem unreadable_classes_delete:
  assumes "as_classes A = Inl (ClientError m)" "cs_initialised st" "ct_namespaces C = []"
    and "as_ingress A name = Inr ing" "om_deletion (ing_meta ing) = None"
  shows "ingress_Reconcile order C A ops name st = deleteIngress ops name (NotManaged (ErrListClasses (ClientError m))) st"
  using assms by (simp add: ingress_Reconcile_def yield_initial_def isManaging_def getManagingClass_def is_api_status_def)

theorem unreadable_classes_delete_witness:
  "let A = ex_api\<lparr>as_classes := Inl (ClientError ''deadline exceeded'')\<rparr>; C = NewIngressController []; n = NamespacedName ''ns'' ''web'';
       ops = ops_of (Upsert ingressReconciler ex_sync) (db_Set ingressReconciler ex_sync) (Delete ingressReconciler ex_sync);
       st1 = fst (ingress_Reconcile (\<lambda>n. [0..<n]) C ex_api ops n ex_ctl); st2 = fst (ingress_Reconcile (\<lambda>n. [0..<n]) C A ops n st1)
   in cfg_Routes (stored ingressReconciler (cs_store st1)) \<noteq> [] \<and> cfg_Routes (stored ingressReconciler (cs_store st2)) = []"
proof -
  let ?A = "ex_api\<lparr>as_classes := Inl (ClientError ''deadline exceeded'')\<rparr>" and ?C = "NewIngressController []"
  let ?n = "NamespacedName ''ns'' ''web''" and ?o = "\<lambda>n :: nat. [0..<n]"
  let ?ops = "ops_of (Upsert ingressReconciler ex_sync) (db_Set ingressReconciler ex_sync) (Delete ingressReconciler ex_sync)"
  let ?st1 = "fst (ingress_Reconcile ?o ?C ex_api ?ops ?n ex_ctl)"
  have "cs_initialised ?st1" "ct_namespaces ?C = []" by code_simp+
  moreover have "as_ingress ?A ?n = Inr (projr (as_ingress ex_api ?n))" by code_simp
  moreover have "om_deletion (ing_meta (projr (as_ingress ex_api ?n))) = None" by code_simp
  ultimately have "ingress_Reconcile ?o ?C ?A ?ops ?n ?st1 = deleteIngress ?ops ?n (NotManaged (ErrListClasses (ClientError ''deadline exceeded''))) ?st1"
    by (intro unreadable_classes_delete) simp_all
  moreover have "cfg_Routes (stored ingressReconciler (cs_store ?st1)) \<noteq> []" by code_simp
  moreover have "cfg_Routes (stored ingressReconciler (cs_store (fst (deleteIngress ?ops ?n (NotManaged (ErrListClasses (ClientError ''deadline exceeded''))) ?st1)))) = []"
    by code_simp
  ultimately show ?thesis by (simp add: Let_def)
qed

subsubsection \<open>The initial synchronisation\<close>

definition managed :: "ingress_controller \<Rightarrow> api_server \<Rightarrow> ingress \<Rightarrow> bool" where
  "managed C A ing \<longleftrightarrow> isManaging C A ing = Inr None"

definition fetched_as :: "(nat \<Rightarrow> nat list) \<Rightarrow> ingress_controller \<Rightarrow> api_server \<Rightarrow> ingress \<Rightarrow> ingress_config \<Rightarrow> bool" where
  "fetched_as order C A ing ic \<longleftrightarrow> snd (FetchIngress order A (ingress_key ing) ing (ct_annotationPrefix C) NewRegistry) = Inr ic"

lemma fetch_in_store: "fetch_in order C A ing st = (st', res) \<Longrightarrow> cs_store st' = cs_store st"
  by (auto simp: fetch_in_def split: prod.splits)

lemma initial_fetch_spec:
  assumes "initial_fetch order C A ings ics st = (st', res)"
  shows "cs_store st' = cs_store st \<and>
    (\<forall>ics'. res = Inr ics' \<longrightarrow> (\<exists>new. ics' = ics @ new \<and> list_all2 (fetched_as order C A) (filter (managed C A) ings) new))"
  using assms
proof (induction ings arbitrary: ics st)
  case (Cons ing ings)
  consider e where "isManaging C A ing = Inl e" | reason where "isManaging C A ing = Inr (Some reason)"
    | "isManaging C A ing = Inr None" by (cases "isManaging C A ing") auto
  then show ?case
  proof cases
    case 3
    obtain st1 fres where f: "fetch_in order C A ing st = (st1, fres)" by fastforce
    show ?thesis
    proof (cases fres)
      case (Inl e)
      then show ?thesis using Cons.prems 3 f fetch_in_store [OF f] by auto
    next
      case (Inr ic)
      then have "initial_fetch order C A ings (ics @ [ic]) st1 = (st', res)" using Cons.prems 3 f by simp
      moreover have "fetched_as order C A ing ic" using fetch_in_result [OF f] Inr by (simp add: fetched_as_def)
      ultimately show ?thesis
        using Cons.IH [of "ics @ [ic]" st1] fetch_in_store [OF f] 3 by (auto simp: managed_def)
    qed
  qed (use Cons in \<open>auto simp: managed_def\<close>)
qed auto

lemma initial_report_store: "cs_store (initial_report C A err st ic) = cs_store st"
proof -
  obtain st' e where "updateIngressStatus C A (ic_Ingress ic) st = (st', e)" by fastforce
  moreover from this have "cs_store st' = cs_store st" using updateIngressStatus_frame [of C A "ic_Ingress ic" st] by simp
  ultimately show ?thesis by (cases err; cases e) (simp_all add: initial_report_def Let_def)
qed

lemma initial_reports_store: "cs_store (foldl (initial_report C A err) st ics) = cs_store st"
  by (induction ics arbitrary: st) (simp_all add: initial_report_store)



subsubsection \<open>Fetching and translating\<close>

text \<open>C10: The translation of a fetched ingress may fail, but never because a secret or a service was not fetched: the
  controller fetches at least what the translation looks up.\<close>

theorem fetched_ingress_complete:
  assumes "permuting order" "fetchIngress order A prefix status_svc ing r = (r', Inr ic)"
  shows "\<forall>e. ingressToRoutes E slug ic = Inl e \<longrightarrow> \<not> not_fetched e"
proof (intro allI impI)
  fix e
  assume "ingressToRoutes E slug ic = Inl e"
  moreover have "snd (FetchIngress order A (ingress_key ing) ing prefix (watch_service A (ingress_key ing) status_svc (DeleteCascade r (ingress_key ing)))) = Inr ic"
    using assms(2) by (simp add: fetchIngress_def Let_def)
  ultimately show "\<not> not_fetched e" using fetched_translates assms(1) by blast
qed

theorem fetched_ingress_complete_witness:
  "let ing = ex_ingress_obj\<lparr>ing_meta := (new_meta ''Ingress'' ''ns'' ''web'')\<lparr>om_annotations := [(''p/tls_custom_ca_secret'', ''tls'')]\<rparr>\<rparr>;
       A = ex_api\<lparr>as_secret := (\<lambda>n. if n = NamespacedName ''ns'' ''tls'' then Inr ex_tls_secret else Inl NotFound)\<rparr>
   in \<exists>r' ic e. fetchIngress (\<lambda>n. [0..<n]) A ''p'' None ing NewRegistry = (r', Inr ic) \<and>
        ingressToRoutes ex_env id ic = Inl e \<and> \<not> not_fetched e"
proof -
  let ?ing = "ex_ingress_obj\<lparr>ing_meta := (new_meta ''Ingress'' ''ns'' ''web'')\<lparr>om_annotations := [(''p/tls_custom_ca_secret'', ''tls'')]\<rparr>\<rparr>"
  let ?A = "ex_api\<lparr>as_secret := (\<lambda>n. if n = NamespacedName ''ns'' ''tls'' then Inr ex_tls_secret else Inl NotFound)\<rparr>"
  have "(case snd (fetchIngress (\<lambda>n. [0..<n]) ?A ''p'' None ?ing NewRegistry) of Inl _ \<Rightarrow> False | Inr ic \<Rightarrow> isl (ingressToRoutes ex_env id ic))"
    by code_simp
  then obtain r' ic e where run: "fetchIngress (\<lambda>n. [0..<n]) ?A ''p'' None ?ing NewRegistry = (r', Inr ic)" "ingressToRoutes ex_env id ic = Inl e"
    by (auto simp: isl_def split: sum.splits prod.splits) (metis prod.collapse)
  have "permuting (\<lambda>n. [0..<n])" by (simp add: permuting_def)
  from fetched_ingress_complete [OF this run(1)] run show ?thesis by (auto simp: Let_def)
qed

end
