(* ===== verification/Settings_Controller.thy ===== *)
theory Settings_Controller
  imports Settings_Sync Api_Client
begin

text \<open>
  The settings controller (\<^verbatim>\<open>controllers/settings\<close>) with the deprecation check of \<^verbatim>\<open>apis/ingress/v1/deprecation.go\<close> and
  the status written by \<^verbatim>\<open>controllers/reporter/pomerium.go\<close>: the Pomerium resource and the secrets it names are
  fetched through the tracking client, translated and stored, and the outcome is reported.
\<close>

subsection \<open>Fetching\<close>

text \<open>\<^verbatim>\<open>get(src)()\<close>.\<close>

definition get_secret :: "api_server \<Rightarrow> key \<Rightarrow> string \<Rightarrow> secret tracked" where
  "get_secret A self src =
     (case ParseNamespacedName src [] of
        Inl e \<Rightarrow> act_fail (ErrParseName src e)
      | Inr name \<Rightarrow> tracked_Get self SecretKind (as_secret A) name)"

text \<open>\<^verbatim>\<open>optional(src)()\<close>: nil when there is no name.\<close>

definition optional_secret :: "api_server \<Rightarrow> key \<Rightarrow> string option \<Rightarrow> secret option tracked" where
  "optional_secret A self src =
     (case src of None \<Rightarrow> act_return None | Some s \<Rightarrow> act_bind (get_secret A self s) (\<lambda>x. act_return (Some x)))"

text \<open>\<^verbatim>\<open>if secret != nil { *dst = secret }\<close>.\<close>

definition opt_set :: "secret option \<Rightarrow> secret option \<Rightarrow> secret option" where
  "opt_set new old = (case new of None \<Rightarrow> old | Some x \<Rightarrow> Some x)"

definition fetch_list :: "api_server \<Rightarrow> key \<Rightarrow> secret list \<Rightarrow> string list \<Rightarrow> secret list tracked" where
  "fetch_list A self acc srcs = act_fold (\<lambda>acc src. act_bind (get_secret A self src) (\<lambda>s. act_return (acc @ [s]))) acc srcs"

definition fetch_bootstrap :: "api_server \<Rightarrow> key \<Rightarrow> pom_config \<Rightarrow> pom_config tracked" where
  "fetch_bootstrap A self cfg =
     act_bind (get_secret A self (ps_Secrets (pc_Spec cfg))) (\<lambda>s. act_return (cfg\<lparr>pc_Secrets := Some s\<rparr>))"

definition fetch_ca :: "api_server \<Rightarrow> key \<Rightarrow> pom_config \<Rightarrow> pom_config tracked" where
  "fetch_ca A self cfg =
     act_bind (fetch_list A self (pc_CASecrets cfg) (ps_CASecrets (pc_Spec cfg))) (\<lambda>ss. act_return (cfg\<lparr>pc_CASecrets := ss\<rparr>))"

definition fetch_idp :: "string \<Rightarrow> api_server \<Rightarrow> key \<Rightarrow> pom_config \<Rightarrow> pom_config tracked" where
  "fetch_idp hosted A self cfg =
     (case ps_IdentityProvider (pc_Spec cfg) of
        None \<Rightarrow> act_return cfg
      | Some idp \<Rightarrow>
          act_bind (if ip_Provider idp \<noteq> hosted
                    then act_bind (get_secret A self (ip_Secret idp)) (\<lambda>s. act_return (cfg\<lparr>pc_IdpSecret := Some s\<rparr>))
                    else act_return cfg) (\<lambda>cfg1.
          act_bind (optional_secret A self (ip_RequestParamsSecret idp)) (\<lambda>s.
          let cfg2 = cfg1\<lparr>pc_RequestParams := opt_set s (pc_RequestParams cfg1)\<rparr> in
          act_bind (optional_secret A self (ip_ServiceAccountFromSecret idp)) (\<lambda>s.
            act_return (cfg2\<lparr>pc_IdpServiceAccount := opt_set s (pc_IdpServiceAccount cfg2)\<rparr>)))))"

definition fetch_ssh :: "api_server \<Rightarrow> key \<Rightarrow> pom_config \<Rightarrow> pom_config tracked" where
  "fetch_ssh A self cfg =
     (case ps_SSH (pc_Spec cfg) of
        None \<Rightarrow> act_return cfg
      | Some ssh \<Rightarrow>
          act_bind (fetch_list A self (HostKeys (pc_SSHSecrets cfg)) (case sc_HostKeySecrets ssh of None \<Rightarrow> [] | Some ks \<Rightarrow> ks)) (\<lambda>ks.
          act_bind (optional_secret A self (sc_UserCAKeySecret ssh)) (\<lambda>u.
          let ss = \<lparr>HostKeys = ks, UserCAKey = opt_set u (UserCAKey (pc_SSHSecrets cfg))\<rparr> in
          act_bind (act_lift (case ssh_Validate ss of Inl e \<Rightarrow> Inl (ErrSecrets e) | Inr x \<Rightarrow> Inr x)) (\<lambda>_.
            act_return (cfg\<lparr>pc_SSHSecrets := ss\<rparr>)))))"

definition fetch_storage :: "api_server \<Rightarrow> key \<Rightarrow> pom_config \<Rightarrow> pom_config tracked" where
  "fetch_storage A self cfg =
     (case ps_Storage (pc_Spec cfg) of
        None \<Rightarrow> act_return cfg
      | Some storage \<Rightarrow>
          if sg_File storage \<noteq> None then act_return cfg
          else (case sg_Postgres storage of
                  None \<Rightarrow> act_fail ErrNoStorage
                | Some p \<Rightarrow>
                    act_bind (get_secret A self (pg_Secret p)) (\<lambda>s.
                    act_bind (optional_secret A self (pg_TLSSecret p)) (\<lambda>t.
                    act_bind (optional_secret A self (pg_CASecret p)) (\<lambda>c.
                    let ss = \<lparr>ss_Secret = Some s, ss_TLS = opt_set t (ss_TLS (pc_StorageSecrets cfg)),
                              ss_CA = opt_set c (ss_CA (pc_StorageSecrets cfg))\<rparr> in
                    act_bind (act_lift (case storage_Validate ss of Inl e \<Rightarrow> Inl (ErrSecrets e) | Inr x \<Rightarrow> Inr x)) (\<lambda>_.
                      act_return (cfg\<lparr>pc_StorageSecrets := ss\<rparr>)))))))"

definition fetchConfigSecrets :: "string \<Rightarrow> api_server \<Rightarrow> key \<Rightarrow> pom_config \<Rightarrow> pom_config tracked" where
  "fetchConfigSecrets hosted A self cfg =
     act_bind (fetch_bootstrap A self cfg) (\<lambda>cfg.
     act_bind (fetch_ca A self cfg) (\<lambda>cfg.
     act_bind (fetch_idp hosted A self cfg) (\<lambda>cfg.
     act_bind (fetch_ssh A self cfg) (\<lambda>cfg.
       fetch_storage A self cfg))))"

text \<open>A certificate that cannot be read is skipped.\<close>

definition fetch_cert :: "api_server \<Rightarrow> key \<Rightarrow> (namespaced_name, secret) gomap \<Rightarrow> string \<Rightarrow> (namespaced_name, secret) gomap tracked" where
  "fetch_cert A self certs src =
     (case ParseNamespacedName src [] of
        Inl e \<Rightarrow> act_fail (ErrParseName src e)
      | Inr name \<Rightarrow> act_bind (act_try (tracked_Get self SecretKind (as_secret A) name)) (\<lambda>s.
          act_return (case s of None \<Rightarrow> certs | Some sec \<Rightarrow> AList.update name sec certs)))"

definition fetchConfigCerts :: "api_server \<Rightarrow> key \<Rightarrow> pom_config \<Rightarrow> pom_config tracked" where
  "fetchConfigCerts A self cfg =
     act_bind (act_fold (fetch_cert A self) (pc_Certs cfg) (ps_Certificates (pc_Spec cfg))) (\<lambda>certs.
       act_return (cfg\<lparr>pc_Certs := certs\<rparr>))"

definition new_pom_config :: "pomerium \<Rightarrow> pom_config" where
  "new_pom_config pom = \<lparr>pc_Pomerium = pom, pc_Secrets = None, pc_CASecrets = [], pc_Certs = [], pc_RequestParams = None,
     pc_IdpSecret = None, pc_IdpServiceAccount = None, pc_SSHSecrets = \<lparr>HostKeys = [], UserCAKey = None\<rparr>,
     pc_StorageSecrets = \<lparr>ss_Secret = None, ss_TLS = None, ss_CA = None\<rparr>\<rparr>"

text \<open>An error comes with the Pomerium resource, nil when it could not be read.\<close>

definition FetchConfig ::
  "string \<Rightarrow> (namespaced_name \<Rightarrow> api_error + pomerium) \<Rightarrow> api_server \<Rightarrow> key \<Rightarrow> namespaced_name \<Rightarrow> registry_items
     \<Rightarrow> registry_items \<times> (pomerium option \<times> fetch_error + pom_config)" where
  "FetchConfig hosted getp A self name r =
     (case tracked_Get self PomeriumKind getp name r of
        (r1, Inl e) \<Rightarrow> (r1, Inl (None, e))
      | (r1, Inr pom) \<Rightarrow>
          (case act_bind (fetchConfigSecrets hosted A self (new_pom_config pom)) (fetchConfigCerts A self) r1 of
             (r2, Inl e) \<Rightarrow> (r2, Inl (Some pom, e))
           | (r2, Inr cfg) \<Rightarrow> (r2, Inr cfg)))"

subsection \<open>Deprecations\<close>

text \<open>\<^verbatim>\<open>GetDeprecations\<close> on the settings: of the fields of the struct two carry the tag, both in the identity provider; a
  field whose value is zero, behind a pointer or not, is skipped.\<close>

definition GetDeprecations :: "pomerium_spec \<Rightarrow> string list" where
  "GetDeprecations spec =
     (case ps_IdentityProvider spec of
        None \<Rightarrow> []
      | Some idp \<Rightarrow>
          (if deref_str (ip_ServiceAccountFromSecret idp) \<noteq> [] then [''serviceAccountFromSecret''] else []) @
          (case ip_RefreshDirectory idp of
             None \<Rightarrow> []
           | Some rd \<Rightarrow> if rd_Interval rd = 0 \<and> rd_Timeout rd = 0 then [] else [''refreshDirectory'']))"

subsection \<open>Reconciliation\<close>

datatype settings_reject = RejectFetch fetch_error | RejectSet sync_error

datatype settings_report =
    SettingsUpdated "string list"
  | SettingsRejected settings_reject "string list"

record settings_controller =
  sk_key :: key
  sk_emitWarnings :: bool

record settings_state =
  ts_registry :: registry_items
  ts_store :: db_store
  ts_reports :: "settings_report list"
  ts_running :: bool

definition report_settings :: "settings_report \<Rightarrow> settings_state \<Rightarrow> settings_state" where
  "report_settings x st = st\<lparr>ts_reports := ts_reports st @ [x]\<rparr>"

datatype settings_result =
    SettingsDone
  | SettingsRequeue settings_reject
  | SettingsPanic

definition statusUpToDate :: "pomerium \<Rightarrow> bool \<Rightarrow> bool" where
  "statusUpToDate pom reconciled =
     (case po_SettingsStatus (po_Status pom) of
        None \<Rightarrow> False
      | Some s \<Rightarrow> rs_Reconciled s = reconciled \<and> om_generation (po_meta pom) = rs_ObservedGeneration s)"

text \<open>The warnings collected by the translation, whether or not it fails: those of the steps before the failing one.\<close>

fun collected :: "settings_env \<Rightarrow> pom_config \<Rightarrow> apply_state \<Rightarrow> (string \<times> apply_step) list \<Rightarrow> string bin_ctx" where
  "collected E c st [] = fst st"
| "collected E c st (nf # steps) = (case snd nf E c st of Inl _ \<Rightarrow> fst st | Inr st' \<Rightarrow> collected E c st' steps)"

definition settings_Reconcile ::
  "settings_controller \<Rightarrow> sync_env \<Rightarrow> settings_env \<Rightarrow> (namespaced_name \<Rightarrow> api_error + pomerium) \<Rightarrow> api_server \<Rightarrow> namespaced_name \<Rightarrow> settings_state
     \<Rightarrow> settings_state \<times> settings_result" where
  "settings_Reconcile K S E getp A req st =
     (if req \<noteq> KeyName (sk_key K) then (st, SettingsDone)
      else
        let ctx = (if sk_emitWarnings K then WithBin None else None) in
        (case FetchConfig (sv_hosted_name E) getp A (sk_key K) (KeyName (sk_key K)) (DeleteCascade (ts_registry st) (sk_key K)) of
           (r, Inl (None, e)) \<Rightarrow> (st\<lparr>ts_registry := r\<rparr>, SettingsPanic)
         | (r, Inl (Some pom, e)) \<Rightarrow>
             (report_settings (SettingsRejected (RejectFetch e) (bin_Get ctx)) (st\<lparr>ts_registry := r\<rparr>), SettingsRequeue (RejectFetch e))
         | (r, Inr cfg) \<Rightarrow>
             (let st1 = st\<lparr>ts_registry := r, ts_running := True\<rparr>;
                  ctx1 = bin_Add ctx (GetDeprecations (pc_Spec cfg));
                  warnings = bin_Get (if se_get_ok S then collected E cfg (ctx1, new_settings) (apply_steps E cfg) else ctx1)
              in case SetSettings S E (ts_store st1) (Some cfg) of
                   Inl e \<Rightarrow>
                     ((if statusUpToDate (pc_Pomerium cfg) False
                       then report_settings (SettingsRejected (RejectSet e) warnings) st1 else st1),
                      SettingsRequeue (RejectSet e))
                 | Inr (changed, store) \<Rightarrow>
                     (let st2 = st1\<lparr>ts_store := store\<rparr>
                      in ((if changed \<or> \<not> statusUpToDate (pc_Pomerium cfg) True then report_settings (SettingsUpdated warnings) st2 else st2),
                          SettingsDone)))))"

text \<open>\<^verbatim>\<open>SettingsStatusReporter\<close>: what a report writes to the status of the resource.\<close>

definition write_status :: "int \<Rightarrow> (settings_reject \<Rightarrow> string) \<Rightarrow> pomerium \<Rightarrow> settings_report \<Rightarrow> pomerium" where
  "write_status now show_err pom x =
     pom\<lparr>po_Status := (po_Status pom)\<lparr>po_SettingsStatus := Some
       (case x of
          SettingsUpdated ws \<Rightarrow>
            \<lparr>rs_ObservedGeneration = om_generation (po_meta pom), rs_ObservedAt = now, rs_Reconciled = True, rs_Error = None, rs_Warnings = ws\<rparr>
        | SettingsRejected e ws \<Rightarrow>
            \<lparr>rs_ObservedGeneration = om_generation (po_meta pom), rs_ObservedAt = now, rs_Reconciled = False, rs_Error = Some (show_err e), rs_Warnings = ws\<rparr>)\<rparr>\<rparr>"

subsection \<open>What is read\<close>

definition secret_keys :: "string \<Rightarrow> key set" where
  "secret_keys src = (case ParseNamespacedName src [] of Inl _ \<Rightarrow> {} | Inr n \<Rightarrow> {Key SecretKind n})"

definition idp_secret_names :: "string \<Rightarrow> pomerium_spec \<Rightarrow> string set" where
  "idp_secret_names hosted spec =
     (case ps_IdentityProvider spec of None \<Rightarrow> {}
      | Some idp \<Rightarrow> (if ip_Provider idp \<noteq> hosted then {ip_Secret idp} else {}) \<union>
          (set_option (ip_RequestParamsSecret idp) \<union> set_option (ip_ServiceAccountFromSecret idp)))"

definition ssh_secret_names :: "pomerium_spec \<Rightarrow> string set" where
  "ssh_secret_names spec =
     (case ps_SSH spec of None \<Rightarrow> {}
      | Some ssh \<Rightarrow> set (case sc_HostKeySecrets ssh of None \<Rightarrow> [] | Some ks \<Rightarrow> ks) \<union> set_option (sc_UserCAKeySecret ssh))"

definition storage_secret_names :: "pomerium_spec \<Rightarrow> string set" where
  "storage_secret_names spec =
     (case ps_Storage spec of None \<Rightarrow> {}
      | Some storage \<Rightarrow> if sg_File storage \<noteq> None then {} else
          (case sg_Postgres storage of None \<Rightarrow> {} | Some p \<Rightarrow> {pg_Secret p} \<union> (set_option (pg_TLSSecret p) \<union> set_option (pg_CASecret p))))"

definition settings_secret_names :: "string \<Rightarrow> pomerium_spec \<Rightarrow> string set" where
  "settings_secret_names hosted spec =
     {ps_Secrets spec} \<union> (set (ps_CASecrets spec) \<union> (idp_secret_names hosted spec \<union> (ssh_secret_names spec \<union>
       (storage_secret_names spec \<union> set (ps_Certificates spec)))))"

abbreviation keys_of :: "string set \<Rightarrow> key set" where
  "keys_of names \<equiv> \<Union> (secret_keys ` names)"

lemma tracks_get_secret: "tracks self (secret_keys src) (get_secret A self src)"
  by (auto simp: get_secret_def secret_keys_def is_get_error_def kind_defs intro: tracks_fail tracks_get split: sum.split)

lemma tracks_optional: "tracks self (keys_of (set_option src)) (optional_secret A self src)"
  by (cases src) (auto simp: optional_secret_def intro: tracks_bind_eq [OF tracks_get_secret tracks_return])

lemma tracks_list: "tracks self (keys_of (set srcs)) (fetch_list A self acc srcs)"
  unfolding fetch_list_def by (intro tracks_fold tracks_bind_eq [OF tracks_get_secret tracks_return]) simp

lemma tracks_validate:
  "tracks self {} (act_lift (case v of Inl e \<Rightarrow> Inl (ErrSecrets e) | Inr x \<Rightarrow> Inr x))"
  by (rule tracks_lift) (auto simp: is_get_error_def split: sum.splits)

lemma tracks_bootstrap: "tracks self (keys_of {ps_Secrets (pc_Spec cfg)}) (fetch_bootstrap A self cfg)"
  unfolding fetch_bootstrap_def by (rule tracks_bind_eq [OF tracks_get_secret tracks_return]) simp

lemma tracks_ca: "tracks self (keys_of (set (ps_CASecrets (pc_Spec cfg)))) (fetch_ca A self cfg)"
  unfolding fetch_ca_def by (rule tracks_bind_eq [OF tracks_list tracks_return]) simp

lemma tracks_idp: "tracks self (keys_of (idp_secret_names hosted (pc_Spec cfg))) (fetch_idp hosted A self cfg)"
proof (cases "ps_IdentityProvider (pc_Spec cfg)")
  case (Some idp)
  have "tracks self (keys_of (if ip_Provider idp \<noteq> hosted then {ip_Secret idp} else {}))
      (if ip_Provider idp \<noteq> hosted then act_bind (get_secret A self (ip_Secret idp)) (\<lambda>s. act_return (cfg\<lparr>pc_IdpSecret := Some s\<rparr>))
       else act_return cfg)"
    by (auto intro: tracks_bind_eq [OF tracks_get_secret tracks_return])
  then show ?thesis
    unfolding fetch_idp_def idp_secret_names_def Some option.case UN_Un Let_def
    by (intro tracks_bind [OF _ tracks_bind [OF tracks_optional tracks_then [OF tracks_optional tracks_return]]])
qed (simp add: fetch_idp_def idp_secret_names_def)

lemma tracks_ssh: "tracks self (keys_of (ssh_secret_names (pc_Spec cfg))) (fetch_ssh A self cfg)"
proof (cases "ps_SSH (pc_Spec cfg)")
  case (Some ssh)
  show ?thesis
    unfolding fetch_ssh_def ssh_secret_names_def Some option.case UN_Un Let_def
    by (intro tracks_bind [OF tracks_list tracks_then [OF tracks_optional tracks_then [OF tracks_validate tracks_return]]])
qed (simp add: fetch_ssh_def ssh_secret_names_def)

lemma tracks_storage: "tracks self (keys_of (storage_secret_names (pc_Spec cfg))) (fetch_storage A self cfg)"
proof -
  have postgres: "tracks self (keys_of ({pg_Secret p} \<union> (set_option (pg_TLSSecret p) \<union> set_option (pg_CASecret p))))
     (act_bind (get_secret A self (pg_Secret p)) (\<lambda>s.
      act_bind (optional_secret A self (pg_TLSSecret p)) (\<lambda>t.
      act_bind (optional_secret A self (pg_CASecret p)) (\<lambda>c.
      act_bind (act_lift (case storage_Validate (ss s t c) of Inl e \<Rightarrow> Inl (ErrSecrets e) | Inr x \<Rightarrow> Inr x)) (\<lambda>_.
        act_return (cfg\<lparr>pc_StorageSecrets := ss s t c\<rparr>))))))" for p ss
    unfolding UN_Un
    by (rule tracks_bind_eq [OF tracks_get_secret tracks_bind [OF tracks_optional tracks_then [OF tracks_optional
          tracks_then [OF tracks_validate tracks_return]]]]) simp
  show ?thesis
    using postgres
    by (auto simp: fetch_storage_def storage_secret_names_def Let_def is_get_error_def tracks_fail simp del: UN_insert UN_Un split: option.split)
qed

lemma tracks_certs: "tracks self (keys_of (set (ps_Certificates (pc_Spec cfg)))) (fetchConfigCerts A self cfg)"
proof -
  have "tracks self (secret_keys src) (fetch_cert A self certs src)" for certs src
    by (auto simp: fetch_cert_def secret_keys_def is_get_error_def kind_defs tracks_fail split: sum.split
        intro!: tracks_bind_eq [OF tracks_try_get tracks_return])
  then show ?thesis
    unfolding fetchConfigCerts_def by (intro tracks_bind_eq [OF tracks_fold tracks_return]) simp_all
qed

lemma fetch_steps_spec:
  "snd (fetch_bootstrap A self cfg r) = Inr cfg' \<Longrightarrow> pc_Pomerium cfg' = pc_Pomerium cfg"
  "snd (fetch_ca A self cfg r) = Inr cfg' \<Longrightarrow> pc_Pomerium cfg' = pc_Pomerium cfg"
  "snd (fetch_idp hosted A self cfg r) = Inr cfg' \<Longrightarrow> pc_Pomerium cfg' = pc_Pomerium cfg"
  "snd (fetch_ssh A self cfg r) = Inr cfg' \<Longrightarrow> pc_Pomerium cfg' = pc_Pomerium cfg"
  "snd (fetch_storage A self cfg r) = Inr cfg' \<Longrightarrow> pc_Pomerium cfg' = pc_Pomerium cfg"
  by (auto simp: fetch_bootstrap_def fetch_ca_def fetch_idp_def fetch_ssh_def fetch_storage_def act_bind_Inr Let_def
      split: option.splits if_splits)

lemma tracks_settings:
  "tracks self (keys_of (settings_secret_names hosted (pc_Spec cfg)))
     (act_bind (fetchConfigSecrets hosted A self cfg) (fetchConfigCerts A self))"
proof -
  let ?spec = "pc_Spec cfg"
  have steps: "pc_Pomerium c = pc_Pomerium cfg \<Longrightarrow> tracks self (keys_of (set (ps_CASecrets ?spec))) (fetch_ca A self c)"
    "pc_Pomerium c = pc_Pomerium cfg \<Longrightarrow> tracks self (keys_of (idp_secret_names hosted ?spec)) (fetch_idp hosted A self c)"
    "pc_Pomerium c = pc_Pomerium cfg \<Longrightarrow> tracks self (keys_of (ssh_secret_names ?spec)) (fetch_ssh A self c)"
    "pc_Pomerium c = pc_Pomerium cfg \<Longrightarrow> tracks self (keys_of (storage_secret_names ?spec)) (fetch_storage A self c)" for c
    using tracks_ca [of self c] tracks_idp [of self hosted c] tracks_ssh [of self c] tracks_storage [of self c] by simp_all
  have "tracks self (keys_of ({ps_Secrets ?spec} \<union> (set (ps_CASecrets ?spec) \<union> (idp_secret_names hosted ?spec \<union>
      (ssh_secret_names ?spec \<union> storage_secret_names ?spec)))))
    (fetchConfigSecrets hosted A self cfg)"
    unfolding fetchConfigSecrets_def UN_Un
    by (intro tracks_bind tracks_bootstrap) (auto dest!: fetch_steps_spec intro!: steps)
  moreover have "snd (fetchConfigSecrets hosted A self cfg r) = Inr cfg' \<Longrightarrow>
      tracks self (keys_of (set (ps_Certificates ?spec))) (fetchConfigCerts A self cfg')" for r cfg'
    using tracks_certs [of self cfg' A] by (auto simp: fetchConfigSecrets_def act_bind_Inr dest!: fetch_steps_spec)
  ultimately show ?thesis
    by (intro tracks_bind_eq [where K' = "keys_of (set (ps_Certificates ?spec))"]) (auto simp: settings_secret_names_def)
qed

lemma secret_keys_self: "Key PomeriumKind name \<notin> keys_of names"
  by (auto simp: secret_keys_def kind_defs split: sum.splits)

subsection \<open>Properties\<close>

lemma FetchConfig_self:
  "FetchConfig hosted getp A (Key PomeriumKind name) name r =
     (case getp name of
        Inl e \<Rightarrow> (r, Inl (None, ErrGetObject (Key PomeriumKind name) (GetError e)))
      | Inr pom \<Rightarrow>
          (case act_bind (fetchConfigSecrets hosted A (Key PomeriumKind name) (new_pom_config pom)) (fetchConfigCerts A (Key PomeriumKind name)) r of
             (r2, Inl e) \<Rightarrow> (r2, Inl (Some pom, e)) | (r2, Inr cfg) \<Rightarrow> (r2, Inr cfg)))"
  by (auto simp: FetchConfig_def tracked_Get_def tracking_Get_def makeKey_def registry_Add_def kind_defs split: sum.split)

lemma settings_fetch_tracks:
  assumes "reg_inv r" "getp name = Inr pom"
    and "FetchConfig hosted getp A (Key PomeriumKind name) name (DeleteCascade r (Key PomeriumKind name)) = (r', res)"
  shows "reg_inv r' \<and> set (Deps r' (Key PomeriumKind name)) \<subseteq> keys_of (settings_secret_names hosted (po_Spec pom)) \<and>
    (\<forall>cfg. res = Inr cfg \<longrightarrow> set (Deps r' (Key PomeriumKind name)) = keys_of (settings_secret_names hosted (po_Spec pom))) \<and>
    (\<forall>p k e. res = Inl (p, ErrGetObject k e) \<longrightarrow> k \<in> set (Deps r' (Key PomeriumKind name)))"
proof -
  have "tracks (Key PomeriumKind name) (keys_of (settings_secret_names hosted (po_Spec pom)))
     (act_bind (fetchConfigSecrets hosted A (Key PomeriumKind name) (new_pom_config pom)) (fetchConfigCerts A (Key PomeriumKind name)))"
    using tracks_settings [of _ hosted "new_pom_config pom"] by (simp add: new_pom_config_def)
  from tracks_refetch [OF this secret_keys_self assms(1)] show ?thesis
    using assms(3) by (auto simp: FetchConfig_self assms(2) split: prod.splits sum.splits)
qed

text \<open>After the settings were fetched their dependencies are exactly the secrets they name, certificates that do not
  exist included; when the fetch failed on a secret, its later creation or change requests the settings again.\<close>

theorem settings_secrets_watched:
  assumes "reg_inv r" "getp name = Inr pom"
    and "FetchConfig hosted getp A (Key PomeriumKind name) name (DeleteCascade r (Key PomeriumKind name)) = (r', res)"
  shows "(\<forall>cfg. res = Inr cfg \<longrightarrow> set (Deps r' (Key PomeriumKind name)) = keys_of (settings_secret_names hosted (po_Spec pom))) \<and>
    (\<forall>k. (k \<in> set (Deps r' (Key PomeriumKind name)) \<or> (\<exists>p e. res = Inl (p, ErrGetObject k e))) \<longrightarrow>
       name \<in> set (GetDependantMapFunc r' (Kind k) (KeyName k)))"
proof -
  note t = settings_fetch_tracks [OF assms]
  have "name \<in> set (GetDependantMapFunc r' (Kind k) (KeyName k))" if "k \<in> set (Deps r' (Key PomeriumKind name))" for k
  proof -
    have "Key PomeriumKind name \<in> set (Deps r' k)" using t that reg.deps_sym by blast
    then show ?thesis by (force simp: GetDependantMapFunc_def image_iff)
  qed
  then show ?thesis using t by blast
qed

definition ex_settings_api :: api_server where
  "ex_settings_api = \<lparr>as_ingress = (\<lambda>_. Inl NotFound), as_ingresses = Inr [], as_classes = Inr [],
     as_secret = (\<lambda>n. if n = NamespacedName ''pomerium'' ''bootstrap'' then Inr ex_tls_secret else Inl NotFound),
     as_service = (\<lambda>_. Inl NotFound), as_endpoints = (\<lambda>_. Inl NotFound), as_update_status = (\<lambda>_. None)\<rparr>"

definition ex_global :: namespaced_name where
  "ex_global = NamespacedName [] ''global''"

theorem settings_secrets_watched_witness:
  "ex_global \<in> set (GetDependantMapFunc (fst (FetchConfig ''hosted'' (\<lambda>_. Inr (pom_of_spec (ex_spec\<lparr>ps_CASecrets := [''ns/ca'']\<rparr>))) ex_settings_api
     (Key PomeriumKind ex_global) ex_global (DeleteCascade NewRegistry (Key PomeriumKind ex_global)))) SecretKind (NamespacedName ''ns'' ''ca''))"
proof -
  let ?pom = "pom_of_spec (ex_spec\<lparr>ps_CASecrets := [''ns/ca'']\<rparr>)"
  let ?f = "FetchConfig ''hosted'' (\<lambda>_. Inr ?pom) ex_settings_api (Key PomeriumKind ex_global) ex_global (DeleteCascade NewRegistry (Key PomeriumKind ex_global))"
  have "(case snd ?f of Inl (p, ErrGetObject k e) \<Rightarrow> k = Key SecretKind (NamespacedName ''ns'' ''ca'') | _ \<Rightarrow> False)" by code_simp
  then obtain p e where err: "snd ?f = Inl (p, ErrGetObject (Key SecretKind (NamespacedName ''ns'' ''ca'')) e)"
    by (auto split: sum.splits prod.splits fetch_error.splits)
  have run: "?f = (fst ?f, snd ?f)" by simp
  have getp: "(\<lambda>_ :: namespaced_name. Inr ?pom :: api_error + pomerium) ex_global = Inr ?pom" by simp
  from settings_secrets_watched [OF reg.invar_empty getp run] err
  have "ex_global \<in> set (GetDependantMapFunc (fst ?f) (Kind (Key SecretKind (NamespacedName ''ns'' ''ca''))) (KeyName (Key SecretKind (NamespacedName ''ns'' ''ca''))))"
    by blast
  then show ?thesis by simp
qed

subsubsection \<open>What is fetched\<close>

definition read_secret :: "api_server \<Rightarrow> string \<Rightarrow> secret option" where
  "read_secret A src =
     (case ParseNamespacedName src [] of Inl _ \<Rightarrow> None | Inr n \<Rightarrow> (case as_secret A n of Inl _ \<Rightarrow> None | Inr s \<Rightarrow> Some s))"

lemma get_secret_Inr [simp]: "snd (get_secret A self src r) = Inr s \<longleftrightarrow> read_secret A src = Some s"
  by (auto simp: get_secret_def read_secret_def tracked_Get_result kind_defs split: sum.splits)

lemma optional_secret_Inr:
  "snd (optional_secret A self src r) = Inr x \<longleftrightarrow> x = Option.bind src (read_secret A) \<and> (src \<noteq> None \<longrightarrow> x \<noteq> None)"
  by (cases src) (auto simp: optional_secret_def act_bind_Inr)

lemma fetch_list_Inr: "snd (fetch_list A self acc srcs r) = Inr ss \<longleftrightarrow> map Some ss = map Some acc @ map (read_secret A) srcs"
  unfolding fetch_list_def
proof (induction srcs arbitrary: acc r)
  case (Cons src srcs)
  show ?case
  proof (cases "read_secret A src")
    case None
    then show ?thesis by (auto simp: act_bind_Inr dest!: arg_cong [of _ _ set])
  next
    case (Some s)
    then show ?thesis using Cons.IH [of "acc @ [s]"] by (auto simp: act_bind_Inr)
  qed
qed (auto simp: inj_map_eq_map)

lemma opt_set_None [simp]: "opt_set x None = x"
  by (simp add: opt_set_def split: option.split)

lemma fetchConfigSecrets_Inr:
  assumes "snd (fetchConfigSecrets hosted A self (new_pom_config pom) r) = Inr cfg"
  shows "pc_Pomerium cfg = pom \<and> pc_Certs cfg = [] \<and>
    pc_Secrets cfg = read_secret A (ps_Secrets (po_Spec pom)) \<and> read_secret A (ps_Secrets (po_Spec pom)) \<noteq> None \<and>
    map Some (pc_CASecrets cfg) = map (read_secret A) (ps_CASecrets (po_Spec pom)) \<and>
    (\<forall>idp. ps_IdentityProvider (po_Spec pom) = Some idp \<longrightarrow>
       (ip_Provider idp \<noteq> hosted \<longrightarrow> pc_IdpSecret cfg = read_secret A (ip_Secret idp) \<and> read_secret A (ip_Secret idp) \<noteq> None) \<and>
       pc_RequestParams cfg = Option.bind (ip_RequestParamsSecret idp) (read_secret A)) \<and>
    (\<forall>ssh. ps_SSH (po_Spec pom) = Some ssh \<longrightarrow> ssh_Validate (pc_SSHSecrets cfg) = Inr ()) \<and>
    (\<forall>sg. ps_Storage (po_Spec pom) = Some sg \<and> sg_File sg = None \<longrightarrow> storage_Validate (pc_StorageSecrets cfg) = Inr ())"
proof -
  obtain c1 r1 c2 r2 c3 r3 c4 r4 where steps: "snd (fetch_bootstrap A self (new_pom_config pom) r) = Inr c1"
    "snd (fetch_ca A self c1 r1) = Inr c2" "snd (fetch_idp hosted A self c2 r2) = Inr c3"
    "snd (fetch_ssh A self c3 r3) = Inr c4" "snd (fetch_storage A self c4 r4) = Inr cfg"
    using assms by (auto simp: fetchConfigSecrets_def act_bind_Inr)
  obtain s where c1: "c1 = (new_pom_config pom)\<lparr>pc_Secrets := Some s\<rparr>" "read_secret A (ps_Secrets (po_Spec pom)) = Some s"
    using steps(1) by (auto simp: fetch_bootstrap_def act_bind_Inr new_pom_config_def)
  obtain ss where c2: "c2 = c1\<lparr>pc_CASecrets := ss\<rparr>" "map Some ss = map (read_secret A) (ps_CASecrets (po_Spec pom))"
    using steps(2) by (auto simp: fetch_ca_def act_bind_Inr c1 new_pom_config_def fetch_list_Inr)
  have c3: "pc_Pomerium c3 = pc_Pomerium c2" "pc_Secrets c3 = pc_Secrets c2" "pc_CASecrets c3 = pc_CASecrets c2" "pc_Certs c3 = pc_Certs c2"
    "\<And>idp. ps_IdentityProvider (pc_Spec c2) = Some idp \<Longrightarrow> (ip_Provider idp \<noteq> hosted \<longrightarrow> pc_IdpSecret c3 = read_secret A (ip_Secret idp) \<and> read_secret A (ip_Secret idp) \<noteq> None) \<and>
       pc_RequestParams c3 = opt_set (Option.bind (ip_RequestParamsSecret idp) (read_secret A)) (pc_RequestParams c2)"
    using steps(3) by (auto simp: fetch_idp_def act_bind_Inr Let_def optional_secret_Inr split: option.splits if_splits)
  have c4: "pc_Pomerium c4 = pc_Pomerium c3" "pc_Secrets c4 = pc_Secrets c3" "pc_CASecrets c4 = pc_CASecrets c3" "pc_Certs c4 = pc_Certs c3"
    "pc_IdpSecret c4 = pc_IdpSecret c3" "pc_RequestParams c4 = pc_RequestParams c3"
    "\<And>ssh. ps_SSH (pc_Spec c3) = Some ssh \<Longrightarrow> ssh_Validate (pc_SSHSecrets c4) = Inr ()"
    using steps(4) by (auto simp: fetch_ssh_def act_bind_Inr Let_def split: option.splits)
  have c5: "pc_Pomerium cfg = pc_Pomerium c4" "pc_Secrets cfg = pc_Secrets c4" "pc_CASecrets cfg = pc_CASecrets c4" "pc_Certs cfg = pc_Certs c4"
    "pc_IdpSecret cfg = pc_IdpSecret c4" "pc_RequestParams cfg = pc_RequestParams c4" "pc_SSHSecrets cfg = pc_SSHSecrets c4"
    "\<And>sg. ps_Storage (pc_Spec c4) = Some sg \<Longrightarrow> sg_File sg = None \<Longrightarrow> storage_Validate (pc_StorageSecrets cfg) = Inr ()"
    using steps(5) by (auto simp: fetch_storage_def act_bind_Inr Let_def split: option.splits if_splits)
  show ?thesis using c1 c2 c3 c4 c5 by (simp add: new_pom_config_def)
qed

lemma fetch_cert_Inr:
  "snd (fetch_cert A self certs src r) = Inr certs' \<longleftrightarrow>
     (\<exists>name. ParseNamespacedName src [] = Inr name \<and>
        certs' = (case as_secret A name of Inl _ \<Rightarrow> certs | Inr sec \<Rightarrow> AList.update name sec certs))"
  by (auto simp: fetch_cert_def act_bind_Inr act_try_def tracked_Get_def tracking_Get_def makeKey_def kind_defs
      split: sum.splits prod.splits)

lemma fetch_certs_loop:
  assumes "snd (act_fold (fetch_cert A self) certs srcs r) = Inr certs'"
  shows "(\<forall>src \<in> set srcs. \<not> isl (ParseNamespacedName src [])) \<and>
    (\<forall>n. map_of certs' n = (if n \<in> {n. \<exists>src \<in> set srcs. ParseNamespacedName src [] = Inr n} \<and> \<not> isl (as_secret A n)
       then Some (projr (as_secret A n)) else map_of certs n))"
  using assms
proof (induction srcs arbitrary: certs r)
  case (Cons src srcs)
  obtain name r' where p: "ParseNamespacedName src [] = Inr name"
    and "snd (act_fold (fetch_cert A self) (case as_secret A name of Inl _ \<Rightarrow> certs | Inr sec \<Rightarrow> AList.update name sec certs) srcs r') = Inr certs'"
    using Cons.prems by (auto simp: act_bind_Inr fetch_cert_Inr)
  note this(2)
  from Cons.IH [OF this] show ?case by (auto simp: p gomap_simps split: sum.splits)
qed simp



subsubsection \<open>Reconciliation\<close>

lemma report_settings_simps [simp]:
  "ts_store (report_settings x st) = ts_store st" "ts_reports (report_settings x st) = ts_reports st @ [x]"
  by (simp_all add: report_settings_def)


definition ex_settings_controller :: settings_controller where
  "ex_settings_controller = \<lparr>sk_key = Key PomeriumKind ex_global, sk_emitWarnings = True\<rparr>"

definition ex_settings_state :: settings_state where
  "ex_settings_state = \<lparr>ts_registry = NewRegistry, ts_store = [], ts_reports = [], ts_running = False\<rparr>"


text \<open>When settings that were fetched cannot be applied, the rejection is reported only if the status already says that this
  generation was rejected: a new generation that fails to translate or to store leaves the status as it was, for
  instance as reconciled.\<close>

theorem settings_rejection_silent:
  assumes "snd (FetchConfig (sv_hosted_name E) getp A (sk_key K) (KeyName (sk_key K)) (DeleteCascade (ts_registry st) (sk_key K))) = Inr cfg"
    and "SetSettings S E (ts_store st) (Some cfg) = Inl e"
    and "settings_Reconcile K S E getp A (KeyName (sk_key K)) st = (st', res)"
  shows "res = SettingsRequeue (RejectSet e) \<and> (ts_reports st' = ts_reports st \<longleftrightarrow> \<not> statusUpToDate (pc_Pomerium cfg) False)"
  using assms by (auto simp: settings_Reconcile_def Let_def split: prod.splits if_splits)

definition ex_bad_pom :: pomerium where
  "ex_bad_pom = (pom_of_spec (ex_spec\<lparr>ps_CodecType := Some ''http9''\<rparr>))
     \<lparr>po_meta := (new_meta ''Pomerium'' [] ''global'')\<lparr>om_generation := 2\<rparr>,
      po_Status := \<lparr>po_CertificateAutoProvisionStatus = None, po_Routes = [], po_SettingsStatus = Some
        \<lparr>rs_ObservedGeneration = 1, rs_ObservedAt = 0, rs_Reconciled = True, rs_Error = None, rs_Warnings = []\<rparr>\<rparr>\<rparr>"

theorem settings_rejection_silent_witness:
  "\<exists>st' e. settings_Reconcile ex_settings_controller ex_sync ex_settings_env (\<lambda>_. Inr ex_bad_pom) ex_settings_api
      (KeyName (sk_key ex_settings_controller)) ex_settings_state = (st', SettingsRequeue (RejectSet e)) \<and> ts_reports st' = []"
proof -
  let ?K = ex_settings_controller and ?g = "\<lambda>_ :: namespaced_name. Inr ex_bad_pom :: api_error + pomerium"
  let ?f = "FetchConfig (sv_hosted_name ex_settings_env) ?g ex_settings_api (sk_key ?K) (KeyName (sk_key ?K))
      (DeleteCascade (ts_registry ex_settings_state) (sk_key ?K))"
  have "(case snd ?f of Inl _ \<Rightarrow> False | Inr cfg \<Rightarrow> isl (SetSettings ex_sync ex_settings_env (ts_store ex_settings_state) (Some cfg)) \<and>
      \<not> statusUpToDate (pc_Pomerium cfg) False)" by code_simp
  then obtain cfg e where cfg: "snd ?f = Inr cfg" "SetSettings ex_sync ex_settings_env (ts_store ex_settings_state) (Some cfg) = Inl e"
    "\<not> statusUpToDate (pc_Pomerium cfg) False"
    by (auto simp: isl_def split: sum.splits)
  obtain st' res where run: "settings_Reconcile ?K ex_sync ex_settings_env ?g ex_settings_api (KeyName (sk_key ?K)) ex_settings_state = (st', res)"
    by fastforce
  from settings_rejection_silent [OF cfg(1,2) run] cfg(3) run show ?thesis by (auto simp: ex_settings_state_def)
qed

text \<open>When the Pomerium resource cannot be read, the reconciliation dereferences a nil configuration in its report.\<close>

theorem missing_settings_panic:
  assumes "getp name = Inl e" "sk_key K = Key PomeriumKind name"
  shows "snd (settings_Reconcile K S E getp A name st) = SettingsPanic"
  using assms by (simp add: settings_Reconcile_def FetchConfig_self Let_def)

theorem missing_settings_panic_witness:
  "snd (settings_Reconcile ex_settings_controller ex_sync ex_settings_env (\<lambda>_. Inl NotFound) ex_settings_api ex_global ex_settings_state) = SettingsPanic"
  by (rule missing_settings_panic [of _ _ NotFound]) (simp_all add: ex_settings_controller_def)

end
