(* ===== verification/Reporter.thy ===== *)
theory Reporter
  imports Ingress_Controller Settings_Controller
begin

text \<open>
  \<^verbatim>\<open>controllers/reporter/ingress.go\<close> and \<^verbatim>\<open>reporter.go\<close>: the status of the ingresses in the Pomerium resource. A report
  patches the entry of its ingress, a deletion removes it and fails when there is none; the errors of a list of
  reporters are collected and only logged.
\<close>

definition ingress_status_key :: "namespaced_name \<Rightarrow> string" where
  "ingress_status_key n = Namespace n @ ''/'' @ Name n"

text \<open>\<^verbatim>\<open>IngressSettingsReporter\<close>: the error is that of the patch.\<close>

definition report_ingress ::
  "int \<Rightarrow> ('e rec_error \<Rightarrow> string) \<Rightarrow> (string, resource_status) gomap \<Rightarrow> 'e report \<Rightarrow> string + (string, resource_status) gomap" where
  "report_ingress now show_err routes x =
     (case x of
        IngressReconciled m \<Rightarrow>
          Inr (AList.update (ingress_status_key (GetNamespacedName m))
            \<lparr>rs_ObservedGeneration = om_generation m, rs_ObservedAt = now, rs_Reconciled = True, rs_Error = None, rs_Warnings = []\<rparr> routes)
      | IngressNotReconciled m e \<Rightarrow>
          Inr (AList.update (ingress_status_key (GetNamespacedName m))
            \<lparr>rs_ObservedGeneration = om_generation m, rs_ObservedAt = now, rs_Reconciled = False, rs_Error = Some (show_err e), rs_Warnings = []\<rparr> routes)
      | IngressDeleted n reason \<Rightarrow>
          if map_of routes (ingress_status_key n) = None then Inl (ingress_status_key n)
          else Inr (AList.delete (ingress_status_key n) routes))"

text \<open>\<^verbatim>\<open>MultiIngressStatusReporter\<close>: every reporter is called, whatever the others return; here each reporter has its own
  state, and the errors are the ones logged.\<close>

definition multi_report :: "('r \<Rightarrow> 'e report \<Rightarrow> string + 'r) \<Rightarrow> 'r list \<Rightarrow> 'e report \<Rightarrow> 'r list \<times> string list" where
  "multi_report f rs x =
     (map (\<lambda>r. case f r x of Inl _ \<Rightarrow> r | Inr r' \<Rightarrow> r') rs,
      concat (map (\<lambda>r. case f r x of Inl e \<Rightarrow> [e] | Inr _ \<Rightarrow> []) rs))"

definition apply_report ::
  "int \<Rightarrow> ('e rec_error \<Rightarrow> string) \<Rightarrow> (string, resource_status) gomap \<Rightarrow> 'e report \<Rightarrow> (string, resource_status) gomap" where
  "apply_report now show_err routes x = (case report_ingress now show_err routes x of Inl _ \<Rightarrow> routes | Inr routes' \<Rightarrow> routes')"

subsection \<open>Properties\<close>

definition report_name :: "'e report \<Rightarrow> namespaced_name" where
  "report_name x = (case x of IngressReconciled m \<Rightarrow> GetNamespacedName m | IngressNotReconciled m _ \<Rightarrow> GetNamespacedName m | IngressDeleted n _ \<Rightarrow> n)"

text \<open>Names of Kubernetes objects have no slash, so that the keys of different ingresses differ.\<close>

definition plain_name :: "namespaced_name \<Rightarrow> bool" where
  "plain_name n \<longleftrightarrow> CHR ''/'' \<notin> set (Namespace n) \<and> CHR ''/'' \<notin> set (Name n)"

lemma Split_status_key: "plain_name n \<Longrightarrow> Split (ingress_status_key n) (CHR ''/'') = [Namespace n, Name n]"
  unfolding Split_pair by (simp add: ingress_status_key_def plain_name_def)

lemma ingress_status_key_inj:
  assumes "plain_name n" "plain_name m" "ingress_status_key n = ingress_status_key m"
  shows "n = m"
proof -
  have "[Namespace n, Name n] = [Namespace m, Name m]"
    using Split_status_key [OF assms(1)] Split_status_key [OF assms(2)] unfolding assms(3) by (rule trans [OF sym])
  then show ?thesis by (cases n; cases m) simp
qed

definition reconciled_status :: "'e report \<Rightarrow> bool option" where
  "reconciled_status x = (case x of IngressReconciled _ \<Rightarrow> Some True | IngressNotReconciled _ _ \<Rightarrow> Some False | IngressDeleted _ _ \<Rightarrow> None)"

lemma apply_report_entry:
  assumes "plain_name n" "plain_name (report_name x)"
  shows "map_option rs_Reconciled (map_of (apply_report now show_err routes x) (ingress_status_key n)) =
    (if report_name x = n then reconciled_status x else map_option rs_Reconciled (map_of routes (ingress_status_key n)))"
proof -
  have "ingress_status_key n = ingress_status_key (report_name x) \<longleftrightarrow> n = report_name x"
    using ingress_status_key_inj assms by blast
  then show ?thesis
    by (cases x) (auto simp: apply_report_def report_ingress_def report_name_def reconciled_status_def gomap_simps)
qed



end
