(* ===== verification/Deprecation.thy ===== *)
theory Deprecation
  imports Settings_Controller
begin

text \<open>
  \<^verbatim>\<open>apis/ingress/v1/deprecation.go\<close>: the walk over the fields of the settings by reflection that looks for non-zero fields with
  the tag \<^verbatim>\<open>deprecated\<close>. A reflected value is a tree; the visible fields of a struct come with their tags. The
  theorem says that the walk over the settings gives what \<open>Settings_Controller\<close> uses as \<open>GetDeprecations\<close>.
\<close>

record field_msg =
  fm_Key :: string
  fm_DocsURL :: string
  fm_FieldCheckMsg :: string

text \<open>The texts of Pomerium's \<^verbatim>\<open>FieldCheckMsgRemoved\<close> and the conversion of a field name without a \<^verbatim>\<open>json\<close> tag are parameters.\<close>

definition deprecatedFields :: "string \<Rightarrow> (string \<times> field_msg) list" where
  "deprecatedFields removed =
     [(''idp_directory_sync'', \<lparr>fm_Key = [], fm_DocsURL = ''https://docs.pomerium.com/docs/overview/upgrading#idp-directory-sync'', fm_FieldCheckMsg = removed\<rparr>)]"

record struct_field =
  sf_Name :: string
  sf_deprecated :: "string option"
  sf_json :: "string option"

datatype rvalue =
    RNilPtr
  | RPtr rvalue
  | RScalar (scalar_zero: bool)
  | RStruct string "(struct_field \<times> rvalue) list"

fun IsZero :: "rvalue \<Rightarrow> bool" where
  "IsZero RNilPtr = True"
| "IsZero (RPtr _) = False"
| "IsZero (RScalar z) = z"
| "IsZero (RStruct _ fs) = (\<forall>f \<in> set fs. IsZero (snd f))"

text \<open>\<^verbatim>\<open>reflect.Indirect\<close>; the invalid value that a nil pointer gives is the nil pointer itself here.\<close>

definition Indirect :: "rvalue \<Rightarrow> rvalue" where
  "Indirect v = (case v of RPtr w \<Rightarrow> w | _ \<Rightarrow> v)"

datatype deprecation_error = ErrReason string | ErrInField string deprecation_error

definition getFieldDeprecations :: "string \<Rightarrow> (string \<Rightarrow> string) \<Rightarrow> struct_field \<Rightarrow> deprecation_error + field_msg option" where
  "getFieldDeprecations removed camel field =
     (case sf_deprecated field of
        None \<Rightarrow> Inr None
      | Some reason \<Rightarrow>
          (case map_of (deprecatedFields removed) reason of
             None \<Rightarrow> Inl (ErrReason reason)
           | Some msg \<Rightarrow>
               let jsonKey = (case sf_json field of None \<Rightarrow> camel (sf_Name field) | Some j \<Rightarrow> j)
               in Inr (Some (msg\<lparr>fm_Key := fst (Cut jsonKey (CHR '',''))\<rparr>))))"

function (sequential) getStructDeprecations :: "string \<Rightarrow> (string \<Rightarrow> string) \<Rightarrow> rvalue \<Rightarrow> deprecation_error + field_msg list"
  and struct_loop :: "string \<Rightarrow> (string \<Rightarrow> string) \<Rightarrow> (struct_field \<times> rvalue) list \<Rightarrow> deprecation_error + field_msg list"
where
  "getStructDeprecations removed camel val =
     (case Indirect val of
        RStruct name fs \<Rightarrow> if IsZero (RStruct name fs) then Inr [] else struct_loop removed camel fs
      | _ \<Rightarrow> Inr [])"
| "struct_loop removed camel [] = Inr []"
| "struct_loop removed camel ((field, v) # fs) =
     (if IsZero (Indirect v) then struct_loop removed camel fs
      else ebind (case Indirect v of
                    RStruct name gs \<Rightarrow>
                      (case getStructDeprecations removed camel (RStruct name gs) of Inl e \<Rightarrow> Inl (ErrInField name e) | Inr msgs \<Rightarrow> Inr msgs)
                  | _ \<Rightarrow> Inr []) (\<lambda>msgs.
           ebind (case getFieldDeprecations removed camel field of Inl e \<Rightarrow> Inl (ErrInField (sf_Name field) e) | Inr msg \<Rightarrow> Inr msg) (\<lambda>msg.
           ebind (struct_loop removed camel fs) (\<lambda>rest. Inr (msgs @ (case msg of None \<Rightarrow> [] | Some m \<Rightarrow> [m]) @ rest)))))"
  by pat_completeness auto

lemma size_Indirect: "size (Indirect v) \<le> size v"
  by (cases v) (simp_all add: Indirect_def)

termination getStructDeprecations
proof (relation "measures [\<lambda>x. case x of Inl (_, _, v) \<Rightarrow> size v | Inr (_, _, fs) \<Rightarrow> size_list (\<lambda>f. size (snd f)) fs,
    \<lambda>x. case x of Inl _ \<Rightarrow> 1 | Inr _ \<Rightarrow> 0]", goal_cases)
  case (2 removed camel val name fs)
  have "size (RStruct name fs) \<le> size val" using size_Indirect [of val] 2(1) by simp
  moreover have "size_list (\<lambda>f. size (snd f)) fs \<le> size (RStruct name fs)" by (induction fs) auto
  ultimately show ?case by auto
next
  case (4 removed camel field v fs name gs)
  then show ?case using size_Indirect [of v] by auto
qed auto

declare getStructDeprecations.simps [simp del]

subsection \<open>The settings as a reflected value\<close>

definition plain_field :: "string \<Rightarrow> string \<Rightarrow> struct_field" where
  "plain_field name json = \<lparr>sf_Name = name, sf_deprecated = None, sf_json = Some json\<rparr>"

definition ptr_value :: "('a \<Rightarrow> rvalue) \<Rightarrow> 'a option \<Rightarrow> rvalue" where
  "ptr_value f x = (case x of None \<Rightarrow> RNilPtr | Some y \<Rightarrow> RPtr (f y))"

definition string_value :: "string \<Rightarrow> rvalue" where
  "string_value s = RScalar (s = [])"

definition duration_value :: "int \<Rightarrow> rvalue" where
  "duration_value d = RStruct ''Duration'' [(\<lparr>sf_Name = ''Duration'', sf_deprecated = None, sf_json = None\<rparr>, RScalar (d = 0))]"

definition refresh_value :: "refresh_directory \<Rightarrow> rvalue" where
  "refresh_value rd = RStruct ''RefreshDirectorySettings''
     [(plain_field ''Interval'' ''interval'', duration_value (rd_Interval rd)), (plain_field ''Timeout'' ''timeout'', duration_value (rd_Timeout rd))]"

definition idp_value :: "identity_provider \<Rightarrow> rvalue" where
  "idp_value idp = RStruct ''IdentityProvider''
     [(plain_field ''Provider'' ''provider'', string_value (ip_Provider idp)),
      (plain_field ''URL'' ''url'', ptr_value string_value (ip_URL idp)),
      (plain_field ''Secret'' ''secret'', string_value (ip_Secret idp)),
      (\<lparr>sf_Name = ''ServiceAccountFromSecret'', sf_deprecated = Some ''idp_directory_sync'', sf_json = Some ''serviceAccountFromSecret,omitempty''\<rparr>,
         ptr_value string_value (ip_ServiceAccountFromSecret idp)),
      (plain_field ''RequestParams'' ''requestParams,omitempty'', RScalar (ip_RequestParams idp = [])),
      (plain_field ''RequestParamsSecret'' ''requestParamsSecret,omitempty'', ptr_value string_value (ip_RequestParamsSecret idp)),
      (plain_field ''Scopes'' ''scopes,omitempty'', RScalar (ip_Scopes idp = [])),
      (\<lparr>sf_Name = ''RefreshDirectory'', sf_deprecated = Some ''idp_directory_sync'', sf_json = Some ''refreshDirectory''\<rparr>,
         ptr_value refresh_value (ip_RefreshDirectory idp))]"

text \<open>The other fields of the settings carry no tag, at any depth.\<close>

fun untagged :: "rvalue \<Rightarrow> bool" where
  "untagged (RStruct _ fs) = (\<forall>f \<in> set fs. sf_deprecated (fst f) = None \<and> untagged (snd f))"
| "untagged (RPtr v) = untagged v"
| "untagged _ = True"

definition spec_value :: "(struct_field \<times> rvalue) list \<Rightarrow> pomerium_spec \<Rightarrow> (struct_field \<times> rvalue) list \<Rightarrow> rvalue" where
  "spec_value pre spec post =
     RPtr (RStruct ''PomeriumSpec'' (pre @ (plain_field ''IdentityProvider'' ''identityProvider'', ptr_value idp_value (ps_IdentityProvider spec)) # post))"

lemma Indirect_simps [simp]:
  "Indirect (RPtr v) = v" "Indirect RNilPtr = RNilPtr" "Indirect (RScalar z) = RScalar z" "Indirect (RStruct n fs) = RStruct n fs"
  by (simp_all add: Indirect_def)

lemma untagged_walk:
  "untagged v \<Longrightarrow> getStructDeprecations removed camel v = Inr []"
  "\<forall>f \<in> set fs. sf_deprecated (fst f) = None \<and> untagged (snd f) \<Longrightarrow> struct_loop removed camel fs = Inr []"
proof (induction removed camel v and removed camel fs rule: getStructDeprecations_struct_loop.induct)
  case (1 removed camel val)
  have "untagged (Indirect val)" using "1.prems" by (cases val) auto
  then show ?case using 1 by (fastforce simp: getStructDeprecations.simps [of removed camel val] split: rvalue.split)
next
  case (3 removed camel field v fs)
  have "untagged (Indirect v)" using "3.prems" by (cases v) auto
  then show ?case using 3 by (cases "Indirect v") (auto simp: getFieldDeprecations_def)
qed simp

lemma struct_loop_append:
  "\<forall>f \<in> set pre. sf_deprecated (fst f) = None \<and> untagged (snd f) \<Longrightarrow> struct_loop removed camel (pre @ fs) = struct_loop removed camel fs"
proof (induction pre)
  case (Cons f pre)
  obtain field v where f: "f = (field, v)" by (cases f)
  have "untagged (Indirect v)" using Cons.prems f by (cases v) auto
  then show ?case
    using Cons f untagged_walk(1) [of "Indirect v" removed camel]
    by (cases "Indirect v"; cases "struct_loop removed camel fs") (auto simp: getFieldDeprecations_def)
qed simp

subsection \<open>The walk over the settings\<close>

definition directory_sync_msg :: "string \<Rightarrow> string \<Rightarrow> field_msg" where
  "directory_sync_msg removed key =
     \<lparr>fm_Key = key, fm_DocsURL = ''https://docs.pomerium.com/docs/overview/upgrading#idp-directory-sync'', fm_FieldCheckMsg = removed\<rparr>"

lemma getFieldDeprecations_tagged:
  "getFieldDeprecations removed camel \<lparr>sf_Name = n, sf_deprecated = Some ''idp_directory_sync'', sf_json = Some j\<rparr> =
     Inr (Some (directory_sync_msg removed (fst (Cut j (CHR '','')))))"
  by (simp add: getFieldDeprecations_def deprecatedFields_def directory_sync_msg_def)

definition tagged_field :: "string \<Rightarrow> string \<Rightarrow> struct_field" where
  "tagged_field n j = \<lparr>sf_Name = n, sf_deprecated = Some ''idp_directory_sync'', sf_json = Some j\<rparr>"

lemma struct_loop_plain: "untagged v \<Longrightarrow> struct_loop removed camel ((plain_field n j, v) # fs) = struct_loop removed camel fs"
  using struct_loop_append [of "[(plain_field n j, v)]"] by (simp add: plain_field_def)

lemma struct_loop_tagged:
  assumes "untagged v"
  shows "struct_loop removed camel ((tagged_field n j, v) # fs) =
    ebind (struct_loop removed camel fs) (\<lambda>rest.
      Inr ((if IsZero (Indirect v) then [] else [directory_sync_msg removed (fst (Cut j (CHR '','')))]) @ rest))"
proof -
  have "untagged (Indirect v)" using assms by (cases v) auto
  then show ?thesis
    using untagged_walk(1) [of "Indirect v" removed camel]
    by (cases "Indirect v"; cases "struct_loop removed camel fs") (auto simp: tagged_field_def getFieldDeprecations_tagged)
qed

lemma untagged_values:
  "untagged (string_value t)" "untagged (ptr_value string_value x)" "untagged (ptr_value refresh_value r)" "untagged (RScalar z)"
  by (simp_all add: string_value_def ptr_value_def refresh_value_def duration_value_def plain_field_def split: option.split)

lemma zero_values:
  "IsZero (Indirect (ptr_value string_value x)) \<longleftrightarrow> deref_str x = []"
  "IsZero (Indirect (ptr_value refresh_value r)) \<longleftrightarrow> (case r of None \<Rightarrow> True | Some rd \<Rightarrow> rd_Interval rd = 0 \<and> rd_Timeout rd = 0)"
  by (simp_all add: ptr_value_def string_value_def deref_str_def refresh_value_def duration_value_def split: option.split)

lemma idp_fields_walk:
  assumes "idp_value idp = RStruct n fs"
  shows "struct_loop removed camel fs = Inr (map (directory_sync_msg removed)
    ((if deref_str (ip_ServiceAccountFromSecret idp) \<noteq> [] then [''serviceAccountFromSecret''] else []) @
     (case ip_RefreshDirectory idp of None \<Rightarrow> [] | Some rd \<Rightarrow> if rd_Interval rd = 0 \<and> rd_Timeout rd = 0 then [] else [''refreshDirectory''])))"
  using assms unfolding idp_value_def tagged_field_def [symmetric]
  by (auto simp: struct_loop_plain struct_loop_tagged untagged_values zero_values simp del: struct_loop.simps(2) split: option.splits)

lemma zero_idp:
  assumes "IsZero (idp_value idp)" "ps_IdentityProvider spec = Some idp"
  shows "GetDeprecations spec = []"
proof -
  have "IsZero (ptr_value string_value (ip_ServiceAccountFromSecret idp))" "IsZero (ptr_value refresh_value (ip_RefreshDirectory idp))"
    using assms(1) by (simp_all add: idp_value_def)
  then show ?thesis using assms(2) by (simp add: GetDeprecations_def ptr_value_def deref_str_def split: option.splits)
qed

text \<open>C40: The walk over the settings by reflection finds exactly the deprecated fields that are set, in the order of the struct:
  the service account and the directory refresh of the identity provider. Zero values do not count, behind a
  pointer or not, and the walk never fails.\<close>

theorem deprecations_walk:
  assumes "\<forall>f \<in> set pre \<union> set post. sf_deprecated (fst f) = None \<and> untagged (snd f)"
  shows "getStructDeprecations removed camel (spec_value pre spec post) = Inr (map (directory_sync_msg removed) (GetDeprecations spec))"
proof -
  let ?idp = "(plain_field ''IdentityProvider'' ''identityProvider'', ptr_value idp_value (ps_IdentityProvider spec))"
  have post: "struct_loop removed camel post = Inr []" using assms by (intro untagged_walk(2)) auto
  have loop: "struct_loop removed camel (?idp # post) = Inr (map (directory_sync_msg removed) (GetDeprecations spec))"
  proof (cases "ps_IdentityProvider spec")
    case None
    then show ?thesis using post by (simp add: ptr_value_def GetDeprecations_def)
  next
    case (Some idp)
    obtain n fs where v: "idp_value idp = RStruct n fs" by (simp add: idp_value_def)
    show ?thesis
    proof (cases "IsZero (idp_value idp)")
      case True
      then show ?thesis using post Some zero_idp [OF True Some] by (simp add: ptr_value_def)
    next
      case False
      then have "getStructDeprecations removed camel (idp_value idp) = Inr (map (directory_sync_msg removed) (GetDeprecations spec))"
        unfolding v getStructDeprecations.simps using idp_fields_walk [OF v, of removed camel] Some False v by (auto simp: GetDeprecations_def)
      then show ?thesis using post Some False v by (auto simp: ptr_value_def getFieldDeprecations_def plain_field_def)
    qed
  qed
  have "GetDeprecations spec = []" if "IsZero (RStruct ''PomeriumSpec'' (pre @ ?idp # post))"
    using that by (cases "ps_IdentityProvider spec") (auto simp: ptr_value_def GetDeprecations_def)
  then show ?thesis
    using struct_loop_append [of pre removed camel "?idp # post"] loop assms
    by (auto simp: spec_value_def getStructDeprecations.simps simp del: struct_loop.simps(2))
qed

theorem deprecations_walk_witness:
  "getStructDeprecations ''removed'' id (spec_value [(plain_field ''Secrets'' ''secrets'', RScalar False)]
     (ex_spec\<lparr>ps_IdentityProvider := Some \<lparr>ip_Provider = ''google'', ip_URL = None, ip_Secret = ''s'', ip_ServiceAccountFromSecret = Some ''secret'',
        ip_RequestParams = [], ip_RequestParamsSecret = None, ip_Scopes = [], ip_RefreshDirectory = Some \<lparr>rd_Interval = 60, rd_Timeout = 60\<rparr>\<rparr>\<rparr>) []) =
   Inr [directory_sync_msg ''removed'' ''serviceAccountFromSecret'', directory_sync_msg ''removed'' ''refreshDirectory'']"
  by (subst deprecations_walk) (simp_all add: plain_field_def GetDeprecations_def deref_str_def)

end
