(* ===== verification/Reporter_Events.thy ===== *)
theory Reporter_Events
  imports Reporter Deprecation
begin

text \<open>
  The rest of \<^verbatim>\<open>controllers/reporter\<close>: the reporters that post Kubernetes events and those that write log lines. An event recorder
  appends to a list of events, a logger to a list of lines; both never fail, except that the reporter for ingresses has
  to read the Pomerium resource it posts to.
\<close>

datatype event_type = EventTypeNormal | EventTypeWarning

record event =
  ev_object :: namespaced_name
  ev_annotations :: "(string, string) gomap"
  ev_type :: event_type
  ev_reason :: string
  ev_message :: string

datatype log_line = LogInfo string "(string \<times> string) list" | LogError string string

definition reasonPomeriumConfigUpdated :: string where "reasonPomeriumConfigUpdated = ''Updated''"
definition reasonPomeriumConfigValidation :: string where "reasonPomeriumConfigValidation = ''Validation''"
definition reasonPomeriumConfigUpdateError :: string where "reasonPomeriumConfigUpdateError = ''UpdateError''"
definition msgPomeriumConfigUpdated :: string where "msgPomeriumConfigUpdated = ''config updated''"
definition msgPomeriumConfigRejected :: string where "msgPomeriumConfigRejected = ''config rejected''"

subsection \<open>Settings\<close>

definition getConfigWarnings :: "field_msg list \<Rightarrow> string list" where
  "getConfigWarnings msgs = map (\<lambda>m. fm_Key m @ '': '' @ fm_FieldCheckMsg m @ '', please see '' @ fm_DocsURL m) msgs"

definition getConfigWarningsKV :: "field_msg list \<Rightarrow> (string \<times> string) list list" where
  "getConfigWarningsKV msgs = map (\<lambda>m. filter (\<lambda>(_, v). v \<noteq> []) [(''key'', fm_Key m), (''docs'', fm_DocsURL m), (''msg'', fm_FieldCheckMsg m)]) msgs"

definition plain_event :: "namespaced_name \<Rightarrow> event_type \<Rightarrow> string \<Rightarrow> string \<Rightarrow> event" where
  "plain_event obj t reason msg = \<lparr>ev_object = obj, ev_annotations = [], ev_type = t, ev_reason = reason, ev_message = msg\<rparr>"

definition validation_events :: "namespaced_name \<Rightarrow> field_msg list \<Rightarrow> event list" where
  "validation_events obj msgs = map (plain_event obj EventTypeWarning reasonPomeriumConfigValidation) (getConfigWarnings msgs)"

text \<open>\<^verbatim>\<open>SettingsEventReporter\<close>; the first argument is the error of a rejection.\<close>

definition settings_event_reporter :: "string option \<Rightarrow> field_msg list \<Rightarrow> namespaced_name \<Rightarrow> event list \<Rightarrow> event list" where
  "settings_event_reporter err msgs obj evs =
     evs @ validation_events obj msgs @
     [case err of
        None \<Rightarrow> plain_event obj EventTypeNormal reasonPomeriumConfigUpdated msgPomeriumConfigUpdated
      | Some e \<Rightarrow> plain_event obj EventTypeNormal reasonPomeriumConfigUpdateError e]"

definition settings_log_reporter :: "string option \<Rightarrow> field_msg list \<Rightarrow> log_line list \<Rightarrow> log_line list" where
  "settings_log_reporter err msgs lines =
     lines @ map (LogInfo ''deprecated config'') (getConfigWarningsKV msgs) @
     [case err of None \<Rightarrow> LogInfo msgPomeriumConfigUpdated [] | Some e \<Rightarrow> LogError e msgPomeriumConfigRejected]"

text \<open>\<^verbatim>\<open>MultiPomeriumStatusReporter\<close>: every reporter is called; the errors are logged together.\<close>

definition multi_settings_report :: "('r \<Rightarrow> settings_report \<Rightarrow> string + 'r) \<Rightarrow> 'r list \<Rightarrow> settings_report \<Rightarrow> 'r list \<times> string list" where
  "multi_settings_report f rs x =
     (map (\<lambda>r. case f r x of Inl _ \<Rightarrow> r | Inr r' \<Rightarrow> r') rs, concat (map (\<lambda>r. case f r x of Inl e \<Rightarrow> [e] | Inr _ \<Rightarrow> []) rs))"

subsection \<open>Ingresses\<close>

text \<open>\<^verbatim>\<open>IngressEventReporter\<close> posts to the ingress, and nothing when it is deleted.\<close>

definition ingress_event_reporter :: "('e rec_error \<Rightarrow> string) \<Rightarrow> 'e report \<Rightarrow> event list \<Rightarrow> event list" where
  "ingress_event_reporter show_err x evs =
     (case x of
        IngressReconciled m \<Rightarrow> evs @ [plain_event (GetNamespacedName m) EventTypeNormal reasonPomeriumConfigUpdated msgPomeriumConfigUpdated]
      | IngressNotReconciled m e \<Rightarrow> evs @ [plain_event (GetNamespacedName m) EventTypeWarning reasonPomeriumConfigUpdateError (show_err e)]
      | IngressDeleted _ _ \<Rightarrow> evs)"

definition postEvent ::
  "(namespaced_name \<Rightarrow> api_error + pomerium) \<Rightarrow> namespaced_name \<Rightarrow> namespaced_name \<Rightarrow> event_type \<Rightarrow> string \<Rightarrow> string \<Rightarrow> event list \<Rightarrow> api_error + event list" where
  "postEvent get settings ing t reason msg evs =
     (case get settings of
        Inl e \<Rightarrow> Inl e
      | Inr obj \<Rightarrow> Inr (evs @ [\<lparr>ev_object = GetNamespacedName (po_meta obj), ev_annotations = [(''ingress'', nn_string ing)], ev_type = t,
          ev_reason = reason, ev_message = nn_string ing @ '': '' @ msg\<rparr>]))"

definition ingress_settings_event_reporter ::
  "('e rec_error \<Rightarrow> string) \<Rightarrow> (delete_reason \<Rightarrow> string) \<Rightarrow> (namespaced_name \<Rightarrow> api_error + pomerium) \<Rightarrow> namespaced_name \<Rightarrow> 'e report \<Rightarrow> event list \<Rightarrow> api_error + event list" where
  "ingress_settings_event_reporter show_err show_reason get settings x evs =
     (case x of
        IngressReconciled m \<Rightarrow> postEvent get settings (GetNamespacedName m) EventTypeNormal reasonPomeriumConfigUpdated msgPomeriumConfigUpdated evs
      | IngressNotReconciled m e \<Rightarrow> postEvent get settings (GetNamespacedName m) EventTypeWarning reasonPomeriumConfigUpdateError (show_err e) evs
      | IngressDeleted n reason \<Rightarrow> postEvent get settings n EventTypeNormal reasonPomeriumConfigUpdated (''deleted: '' @ show_reason reason) evs)"

definition ingress_log_reporter :: "('e rec_error \<Rightarrow> string) \<Rightarrow> (delete_reason \<Rightarrow> string) \<Rightarrow> 'e report \<Rightarrow> (namespaced_name \<times> log_line) list \<Rightarrow> (namespaced_name \<times> log_line) list" where
  "ingress_log_reporter show_err show_reason x lines =
     lines @ [case x of
        IngressReconciled m \<Rightarrow> (GetNamespacedName m, LogInfo ''ok'' [])
      | IngressNotReconciled m e \<Rightarrow> (GetNamespacedName m, LogError (show_err e) ''not reconciled'')
      | IngressDeleted n reason \<Rightarrow> (n, LogInfo ''deleted'' [(''reason'', show_reason reason)])]"

subsection \<open>Properties\<close>

text \<open>The reporters on the ingress and on the Pomerium resource post the same events about an ingress that was not deleted, but for
  the object, the annotation and the name in front of the message.\<close>

theorem ingress_events_agree:
  assumes "get settings = Inr pom" "\<And>n r. x \<noteq> IngressDeleted n r"
  shows "\<exists>e e'. ingress_event_reporter show_err x [] = [e] \<and> ingress_settings_event_reporter show_err show_reason get settings x [] = Inr [e'] \<and>
    ev_type e' = ev_type e \<and> ev_reason e' = ev_reason e \<and> ev_message e' = nn_string (report_name x) @ '': '' @ ev_message e"
  using assms by (cases x) (auto simp: ingress_event_reporter_def ingress_settings_event_reporter_def postEvent_def plain_event_def report_name_def)

text \<open>A rejection of the settings is posted as a normal event, unlike that of an ingress.\<close>

theorem rejected_settings_event_normal:
  "ev_type (last (settings_event_reporter (Some e) msgs obj evs)) = EventTypeNormal \<and>
   ev_type (last (ingress_event_reporter show_err (IngressNotReconciled m err) evs')) = EventTypeWarning"
  by (simp add: settings_event_reporter_def ingress_event_reporter_def plain_event_def)

end
