(* ===== verification/Once.thy ===== *)
theory Once
  imports Go_Prelude
begin

text \<open>
  \<^verbatim>\<open>controllers/ingress/once.go\<close>: the initial synchronisation runs once, in its own goroutine, when the first caller
  asks for it. The two unbuffered channels make a step relation: a caller hands its context over and waits, the
  goroutine finishes and offers the error, one receiver takes it, then the channel is closed and every other
  receiver gets nil. A caller may also leave because its context is done.
\<close>

datatype 'e runner = Idle | Running | Offering "'e option" | Closed

text \<open>A call of \<^verbatim>\<open>yield\<close> is in its first select, in the select of \<^verbatim>\<open>wait\<close>, or has returned.\<close>

datatype 'e call = InYield | InWait | Returned "'e option" | Cancelled

record ('c, 'e) once =
  on_runner :: "'e runner"
  on_calls :: "('c, 'e call) gomap"
  on_runs :: nat

definition newOnce :: "('c, 'e) once" where
  "newOnce = \<lparr>on_runner = Idle, on_calls = [], on_runs = 0\<rparr>"

definition set_call :: "'c \<Rightarrow> 'e call \<Rightarrow> ('c, 'e) once \<Rightarrow> ('c, 'e) once" where
  "set_call c x s = s\<lparr>on_calls := AList.update c x (on_calls s)\<rparr>"

definition waiting :: "('c, 'e) once \<Rightarrow> 'c \<Rightarrow> bool" where
  "waiting s c \<longleftrightarrow> map_of (on_calls s) c = Some InYield \<or> map_of (on_calls s) c = Some InWait"

inductive once_step :: "('c, 'e) once \<Rightarrow> ('c, 'e) once \<Rightarrow> bool" where
  call: "map_of (on_calls s) c = None \<Longrightarrow> once_step s (set_call c InYield s)"
| start: "on_runner s = Idle \<Longrightarrow> map_of (on_calls s) c = Some InYield \<Longrightarrow>
    once_step s (set_call c InWait (s\<lparr>on_runner := Running, on_runs := Suc (on_runs s)\<rparr>))"
| finish: "on_runner s = Running \<Longrightarrow> once_step s (s\<lparr>on_runner := Offering e\<rparr>)"
| deliver: "on_runner s = Offering e \<Longrightarrow> waiting s c \<Longrightarrow> once_step s (set_call c (Returned e) (s\<lparr>on_runner := Closed\<rparr>))"
| closed: "on_runner s = Closed \<Longrightarrow> waiting s c \<Longrightarrow> once_step s (set_call c (Returned None) s)"
| cancel: "waiting s c \<Longrightarrow> once_step s (set_call c Cancelled s)"

inductive_cases once_stepE: "once_step s s'"

inductive once_reachable :: "('c, 'e) once \<Rightarrow> bool" where
  init: "once_reachable newOnce"
| step: "once_reachable s \<Longrightarrow> once_step s s' \<Longrightarrow> once_reachable s'"

subsection \<open>Invariant\<close>

definition failed_calls :: "('c, 'e) once \<Rightarrow> 'c set" where
  "failed_calls s = {c. \<exists>e. map_of (on_calls s) c = Some (Returned (Some e))}"

definition once_inv :: "('c, 'e) once \<Rightarrow> bool" where
  "once_inv s \<longleftrightarrow>
     on_runs s = (if on_runner s = Idle then 0 else 1) \<and>
     (on_runner s \<noteq> Closed \<longrightarrow> (\<forall>c e. map_of (on_calls s) c \<noteq> Some (Returned e))) \<and>
     (on_runner s = Idle \<longrightarrow> (\<forall>c. map_of (on_calls s) c \<noteq> Some InWait)) \<and>
     (\<forall>c c'. c \<in> failed_calls s \<longrightarrow> c' \<in> failed_calls s \<longrightarrow> c = c')"

lemma set_call_simps [simp]:
  "on_runner (set_call c x s) = on_runner s" "on_runs (set_call c x s) = on_runs s"
  "map_of (on_calls (set_call c x s)) = (map_of (on_calls s))(c \<mapsto> x)"
  by (simp_all add: set_call_def gomap_simps)

lemma once_inv_step: "once_step s s' \<Longrightarrow> once_inv s \<Longrightarrow> once_inv s'"
  by (erule once_stepE) (auto simp: once_inv_def failed_calls_def waiting_def split: if_splits)

lemma once_inv_reachable: "once_reachable s \<Longrightarrow> once_inv s"
proof (induction rule: once_reachable.induct)
  case init
  show ?case by (simp add: once_inv_def newOnce_def failed_calls_def)
qed (rule once_inv_step)

text \<open>C15: The initial synchronisation starts at most once; no call returns a result before it has finished; and its error
  reaches at most one caller, every other call of \<^verbatim>\<open>yield\<close> reports success.\<close>

theorem once_at_most_once:
  assumes "once_reachable s"
  shows "on_runs s \<le> 1 \<and>
    (\<forall>c e. map_of (on_calls s) c = Some (Returned e) \<longrightarrow> on_runner s = Closed) \<and>
    (\<forall>c c'. c \<in> failed_calls s \<and> c' \<in> failed_calls s \<longrightarrow> c = c')"
  using once_inv_reachable [OF assms] by (auto simp: once_inv_def split: if_splits)

subsection \<open>Progress\<close>

lemma once_from_closed:
  "on_runner s = Closed \<Longrightarrow> waiting s c \<Longrightarrow> \<exists>s'. once_step\<^sup>*\<^sup>* s s' \<and> map_of (on_calls s') c = Some (Returned None)"
  by (rule exI [of _ "set_call c (Returned None) s"]) (auto intro: once_step.closed)

lemma once_from_offering:
  "on_runner s = Offering e \<Longrightarrow> waiting s c \<Longrightarrow> \<exists>s'. once_step\<^sup>*\<^sup>* s s' \<and> map_of (on_calls s') c = Some (Returned e)"
  by (rule exI [of _ "set_call c (Returned e) (s\<lparr>on_runner := Closed\<rparr>)"]) (auto intro: once_step.deliver)

lemma once_from_running:
  assumes "on_runner s = Running" "waiting s c"
  shows "\<exists>s'. once_step\<^sup>*\<^sup>* s s' \<and> map_of (on_calls s') c = Some (Returned None)"
proof -
  have "once_step s (s\<lparr>on_runner := Offering None\<rparr>)" by (rule once_step.finish [OF assms(1)])
  moreover have "waiting (s\<lparr>on_runner := Offering None\<rparr>) c" using assms(2) by (simp add: waiting_def)
  ultimately show ?thesis
    using once_from_offering [of "s\<lparr>on_runner := Offering None\<rparr>" None c] by (auto intro: converse_rtranclp_into_rtranclp)
qed

text \<open>C16: Whatever the other callers do, a call that waits can still return: the goroutine can be started and finish, and the
  channel then answers every call.\<close>

theorem once_no_deadlock:
  assumes "once_reachable s" "waiting s c"
  shows "\<exists>s' e. once_step\<^sup>*\<^sup>* s s' \<and> map_of (on_calls s') c = Some (Returned e)"
proof (cases "on_runner s")
  case Idle
  then have y: "map_of (on_calls s) c = Some InYield"
    using once_inv_reachable [OF assms(1)] assms(2) by (auto simp: once_inv_def waiting_def)
  let ?s = "set_call c InWait (s\<lparr>on_runner := Running, on_runs := Suc (on_runs s)\<rparr>)"
  have "once_step s ?s" by (rule once_step.start [OF Idle y])
  then show ?thesis
    using once_from_running [of ?s c] by (auto simp: waiting_def intro: converse_rtranclp_into_rtranclp)
next
  case Running
  show ?thesis using once_from_running [OF Running assms(2)] by auto
next
  case (Offering e)
  show ?thesis using once_from_offering [OF Offering assms(2)] by auto
next
  case Closed
  show ?thesis using once_from_closed [OF Closed assms(2)] by auto
qed

definition ex_once :: "(nat, string) once" where
  "ex_once = \<lparr>on_runner = Closed, on_calls = [(0, Returned (Some ''error'')), (1, Returned None)], on_runs = 1\<rparr>"

lemma ex_once_reachable: "once_reachable ex_once"
proof -
  let ?s1 = "set_call 0 InYield (newOnce :: (nat, string) once)"
  let ?s2 = "set_call 1 InYield ?s1"
  let ?s3 = "set_call 0 InWait (?s2\<lparr>on_runner := Running, on_runs := Suc (on_runs ?s2)\<rparr>)"
  let ?s4 = "?s3\<lparr>on_runner := Offering (Some ''error'')\<rparr>"
  let ?s5 = "set_call 0 (Returned (Some ''error'')) (?s4\<lparr>on_runner := Closed\<rparr>)"
  let ?s6 = "set_call 1 (Returned None) ?s5"
  have "once_reachable ?s1" by (rule once_reachable.step [OF once_reachable.init once_step.call]) (simp add: newOnce_def)
  then have "once_reachable ?s2" by (rule once_reachable.step [OF _ once_step.call]) (simp add: newOnce_def)
  then have "once_reachable ?s3" by (rule once_reachable.step [OF _ once_step.start]) (simp_all add: newOnce_def)
  then have "once_reachable ?s4" by (rule once_reachable.step [OF _ once_step.finish]) simp
  then have "once_reachable ?s5" by (rule once_reachable.step [OF _ once_step.deliver]) (simp_all add: waiting_def)
  then have "once_reachable ?s6" by (rule once_reachable.step [OF _ once_step.closed]) (simp_all add: waiting_def)
  moreover have "?s6 = ex_once" by code_simp
  ultimately show ?thesis by simp
qed

theorem once_at_most_once_witness:
  "once_reachable ex_once \<and> on_runs ex_once \<le> 1 \<and> failed_calls ex_once \<noteq> {}"
proof -
  have "0 \<in> failed_calls ex_once" by (simp add: failed_calls_def ex_once_def)
  then show ?thesis using ex_once_reachable conjunct1 [OF once_at_most_once [OF ex_once_reachable]] by blast
qed

theorem once_no_deadlock_witness:
  "\<exists>s' e. once_step\<^sup>*\<^sup>* (set_call (0 :: nat) InYield (newOnce :: (nat, string) once)) s' \<and> map_of (on_calls s') 0 = Some (Returned e)"
proof -
  have "once_reachable (set_call (0 :: nat) InYield (newOnce :: (nat, string) once))"
    by (rule once_reachable.step [OF once_reachable.init once_step.call]) (simp add: newOnce_def)
  from once_no_deadlock [OF this, of 0] show ?thesis by (simp add: waiting_def)
qed

end
