(* ===== verification/Ingress_To_Policy.thy ===== *)
theory Ingress_To_Policy
  imports Ingress_Annotations
begin

text \<open>
  \<^verbatim>\<open>pomerium/ingress_to_policy.go\<close>: the policy of an ingress as a resource of its own, for the unified API. The
  policy-related annotations of both groups are put together and translated into the policy language by Pomerium's
  configuration package; that translation, the YAML decoder and the JSON encoder of policies are \<open>ppl_env\<close>.
\<close>

record ppl_rule =
  pr_And :: "string list"
  pr_Or :: "string list"
  pr_Not :: "string list"
  pr_Nor :: "string list"

record ppl_policy =
  pp_Rules :: "ppl_rule list"

record config_policy =
  cp_AllowAnyAuthenticatedUser :: bool
  cp_AllowPublicUnauthenticatedAccess :: bool
  cp_AllowedDomains :: "string list"
  cp_AllowedUsers :: "string list"
  cp_AllowedIDPClaims :: "(string, string list) gomap"
  cp_Policy :: "ppl_policy option"

record ppl_env =
  pp_flatten_claims :: "(string, string list) gomap \<Rightarrow> (string, string list) gomap"
  pp_yaml :: "string \<Rightarrow> string + ppl_policy"
  pp_ToPPL :: "config_policy \<Rightarrow> ppl_policy"
  pp_MarshalJSON :: "ppl_policy \<Rightarrow> string + string"

datatype policy_extract_error =
    ErrBaseAnnotations string
  | ErrPolicyAnnotations ann_error
  | ErrParsePPL string
  | ErrMarshalPPL string

definition isNoOpPolicy :: "ppl_policy \<Rightarrow> bool" where
  "isNoOpPolicy ppl \<longleftrightarrow>
     \<not> list_ex (\<lambda>r. pr_And r \<noteq> [] \<or> pr_Or r \<noteq> [] \<or> pr_Not r \<noteq> [] \<or> pr_Nor r \<noteq> []) (pp_Rules ppl)"

text \<open>The fields of both annotation groups, with the user's policy, as the configuration package has them.\<close>

definition config_policy_of :: "ann_env \<Rightarrow> ppl_env \<Rightarrow> ann_keys \<Rightarrow> policy_extract_error + config_policy" where
  "config_policy_of E P kv =
     ebind (case env_unmarshal_route E new_route (kv_Base kv) of Inl m \<Rightarrow> Inl (ErrBaseAnnotations m) | Inr r \<Rightarrow> Inr r) (\<lambda>r.
     ebind (case unmarshalPolicyAnnotations E new_policy (kv_Policy kv) of Inl e \<Rightarrow> Inl (ErrPolicyAnnotations e) | Inr p \<Rightarrow> Inr p) (\<lambda>p.
     ebind (case p_SourcePpl p of
              None \<Rightarrow> Inr None
            | Some src \<Rightarrow> (case pp_yaml P src of Inl m \<Rightarrow> Inl (ErrParsePPL m) | Inr ppl \<Rightarrow> Inr (Some ppl))) (\<lambda>ppl.
       Inr \<lparr>cp_AllowAnyAuthenticatedUser = r_AllowAnyAuthenticatedUser r,
           cp_AllowPublicUnauthenticatedAccess = r_AllowPublicUnauthenticatedAccess r,
           cp_AllowedDomains = p_AllowedDomains p, cp_AllowedUsers = p_AllowedUsers p,
           cp_AllowedIDPClaims = pp_flatten_claims P (p_AllowedIdpClaims p), cp_Policy = ppl\<rparr>)))"

definition keysToPolicy :: "ann_env \<Rightarrow> ppl_env \<Rightarrow> ann_keys \<Rightarrow> string \<Rightarrow> policy_extract_error + pb_policy option" where
  "keysToPolicy E P kv name =
     ebind (config_policy_of E P kv) (\<lambda>configPolicy.
     let ppl = pp_ToPPL P configPolicy in
     if isNoOpPolicy ppl then Inr None
     else (case pp_MarshalJSON P ppl of
             Inl m \<Rightarrow> Inl (ErrMarshalPPL m)
           | Inr pplString \<Rightarrow> Inr (Some (new_policy\<lparr>p_Name := Some name, p_SourcePpl := Some pplString\<rparr>))))"

text \<open>
  What the configuration package promises: a policy grants something exactly when it has a criterion, and an ingress
  that lets anyone in has a criterion for it.
\<close>

definition covers_access :: "ppl_env \<Rightarrow> bool" where
  "covers_access P \<longleftrightarrow>
     (\<forall>c. cp_AllowPublicUnauthenticatedAccess c \<or> cp_AllowAnyAuthenticatedUser c \<or> cp_AllowedDomains c \<noteq> [] \<or>
        cp_AllowedUsers c \<noteq> [] \<longrightarrow> \<not> isNoOpPolicy (pp_ToPPL P c))"

text \<open>A policy resource carries the given name and a source text and nothing else, so that it can be compared with
  what the API has; no policy is made exactly when no rule has a criterion.\<close>

lemma keysToPolicy_shape:
  assumes "keysToPolicy E P kv name = Inr (Some p)"
  obtains src where "p = new_policy\<lparr>p_Name := Some name, p_SourcePpl := Some src\<rparr>"
proof -
  obtain c where "(if isNoOpPolicy (pp_ToPPL P c) then Inr None
      else (case pp_MarshalJSON P (pp_ToPPL P c) of
             Inl m \<Rightarrow> Inl (ErrMarshalPPL m)
           | Inr src \<Rightarrow> Inr (Some (new_policy\<lparr>p_Name := Some name, p_SourcePpl := Some src\<rparr>)))) = Inr (Some p)"
    using assms by (auto simp: keysToPolicy_def Let_def ebind_Inr_iff)
  then show thesis using that by (cases "pp_MarshalJSON P (pp_ToPPL P c)") (auto split: if_splits)
qed

text \<open>An ingress whose annotations allow anyone is never left without a policy.\<close>

lemma keysToPolicy_grants:
  assumes "covers_access P" "config_policy_of E P kv = Inr c" "keysToPolicy E P kv name = Inr pol"
    and "cp_AllowPublicUnauthenticatedAccess c \<or> cp_AllowAnyAuthenticatedUser c \<or> cp_AllowedDomains c \<noteq> [] \<or> cp_AllowedUsers c \<noteq> []"
  shows "pol \<noteq> None"
proof -
  have "\<not> isNoOpPolicy (pp_ToPPL P c)" using assms(1,4) unfolding covers_access_def by blast
  then show ?thesis using assms(2,3) by (cases "pp_MarshalJSON P (pp_ToPPL P c)") (auto simp: keysToPolicy_def Let_def)
qed

end
