(* ===== verification/Api_Resources.thy ===== *)
theory Api_Resources
  imports Databroker_Sync Api_Client Ingress_To_Policy Gateway_Types
begin

text \<open>
  The resources that \<^verbatim>\<open>pomerium/sync_api.go\<close> keeps in Pomerium's unified API: routes, policies and key pairs.
  The service is an argument: the record \<open>res_ops\<close> has its five calls for one kind of resource, each an action on
  an arbitrary state, and \<open>lawful\<close> collects what the code relies on. Creating, finding and updating a resource
  are written per kind, as the code has them; the locale \<open>resource_kind\<close> has what the three share.
\<close>

subsection \<open>Actions with another error type, and triples\<close>

definition act_map_error :: "('e \<Rightarrow> 'f) \<Rightarrow> ('s, 'e, 'a) action \<Rightarrow> ('s, 'f, 'a) action" where
  "act_map_error f m s = (case m s of (s', Inl e) \<Rightarrow> (s', Inl (f e)) | (s', Inr x) \<Rightarrow> (s', Inr x))"

text \<open>A call whose error the code inspects.\<close>

definition act_attempt :: "('s, 'e, 'a) action \<Rightarrow> ('s, 'f, 'e + 'a) action" where
  "act_attempt m s = (case m s of (s', r) \<Rightarrow> (s', Inr r))"

text \<open>What holds after an action that succeeds.\<close>

definition act_ok :: "('s \<Rightarrow> bool) \<Rightarrow> ('s, 'e, 'a) action \<Rightarrow> ('a \<Rightarrow> 's \<Rightarrow> bool) \<Rightarrow> bool" where
  "act_ok P m Q \<longleftrightarrow> (\<forall>s s' x. P s \<longrightarrow> m s = (s', Inr x) \<longrightarrow> Q x s')"

lemma act_okD: "act_ok P m Q \<Longrightarrow> m s = (s', Inr x) \<Longrightarrow> P s \<Longrightarrow> Q x s'"
  unfolding act_ok_def by blast

lemma act_okI: "(\<And>s s' x. P s \<Longrightarrow> m s = (s', Inr x) \<Longrightarrow> Q x s') \<Longrightarrow> act_ok P m Q"
  unfolding act_ok_def by blast

lemma act_ok_weaken: "act_ok P m Q \<Longrightarrow> (\<And>s. P' s \<Longrightarrow> P s) \<Longrightarrow> (\<And>x s. Q x s \<Longrightarrow> Q' x s) \<Longrightarrow> act_ok P' m Q'"
  unfolding act_ok_def by blast

lemma act_ok_return: "(\<And>s. P s \<Longrightarrow> Q x s) \<Longrightarrow> act_ok P (act_return x) Q"
  unfolding act_ok_def by (simp add: act_return_def)

lemma act_ok_fail: "act_ok P (act_fail e) Q"
  unfolding act_ok_def by (simp add: act_fail_def)

lemma act_ok_bind: "act_ok P m R \<Longrightarrow> (\<And>x. act_ok (R x) (f x) Q) \<Longrightarrow> act_ok P (act_bind m f) Q"
  unfolding act_ok_def by (metis act_bind_InrE)

lemma act_ok_map_error: "act_ok P m Q \<Longrightarrow> act_ok P (act_map_error f m) Q"
  unfolding act_ok_def act_map_error_def by (auto split: prod.splits sum.splits)

lemma act_ok_attempt: "(\<And>s s' r. P s \<Longrightarrow> m s = (s', r) \<Longrightarrow> Q r s') \<Longrightarrow> act_ok P (act_attempt m) Q"
  unfolding act_ok_def act_attempt_def by (auto split: prod.splits)

subsection \<open>Errors and calls of the API\<close>

datatype rpc_code = CodeNotFound | CodeAlreadyExists | CodeFailedPrecondition | CodeUnknown | CodeOther string

datatype rpc_error = RpcError (rpc_CodeOf: rpc_code) string

datatype api_sync_error =
    ErrRpc rpc_error
  | ErrK8s api_error
  | ErrConvertProto string
  | ErrListFilter string
  | ErrNoSuchName string
  | ErrDeleteInOtherNamespace api_sync_error
  | ErrIngressRoutes ing_error
  | ErrKeyPrefix ann_error
  | ErrIngressPolicy policy_extract_error
  | ErrUpdatePolicy api_sync_error
  | ErrSecretNotPassed string
  | ErrKeyPairIDMissing string
  | ErrConvertSettings string
  | ErrInlinePolicySource nat string
  | ErrInlinePolicyID nat string
  | ErrExtractPolicy gw_error
  | ErrTranslateRoutes gw_error
  | ErrNilPointer
  | ErrJoined "api_sync_error list"

text \<open>\<^verbatim>\<open>connect.CodeOf\<close>: the code of the call's error that is wrapped, if there is one.\<close>

fun CodeOf :: "api_sync_error \<Rightarrow> rpc_code" where
  "CodeOf (ErrRpc e) = rpc_CodeOf e"
| "CodeOf (ErrDeleteInOtherNamespace e) = CodeOf e"
| "CodeOf (ErrUpdatePolicy e) = CodeOf e"
| "CodeOf _ = CodeUnknown"

record ('w, 'r) res_ops =
  ro_Get :: "string \<Rightarrow> ('w, rpc_error, 'r) action"
  ro_Create :: "'r \<Rightarrow> ('w, rpc_error, 'r) action"
  ro_Update :: "'r \<Rightarrow> ('w, rpc_error, unit) action"
  ro_Delete :: "string \<Rightarrow> ('w, rpc_error, unit) action"
  ro_List :: "string \<Rightarrow> string \<Rightarrow> ('w, rpc_error, 'r list) action"

text \<open>
  What is relied on, for a view of the service: what is stored under each id, and the ids ever assigned. Reads do
  not change it. A created resource gets a non-empty id that was never assigned and, like an updated one, equals the
  request in everything the caller sets (\<open>agrees\<close>). A refused creation changes nothing. Deleting removes one id;
  \<^verbatim>\<open>not_found\<close> is reported only for an id that is not there. A list has only stored resources with the name asked for.
\<close>

type_synonym 'r view = "(string \<Rightarrow> 'r option) \<times> string set"

definition lawful ::
  "('r \<Rightarrow> string option) \<Rightarrow> (string option \<Rightarrow> 'r \<Rightarrow> 'r) \<Rightarrow> ('r \<Rightarrow> string option) \<Rightarrow> ('r \<Rightarrow> 'r \<Rightarrow> bool) \<Rightarrow> ('w \<Rightarrow> 'r view)
     \<Rightarrow> ('w, 'r) res_ops \<Rightarrow> bool" where
  "lawful id_of set_id name_of agrees V ops \<longleftrightarrow>
     (\<forall>w j s. fst (V w) j = Some s \<longrightarrow> id_of s = Some j \<and> j \<noteq> [] \<and> j \<in> snd (V w)) \<and>
     (\<forall>w w' j s. ro_Get ops j w = (w', Inr s) \<longrightarrow> V w' = V w \<and> fst (V w) j = Some s) \<and>
     (\<forall>w w' j e. ro_Get ops j w = (w', Inl e) \<longrightarrow> V w' = V w \<and> (rpc_CodeOf e = CodeNotFound \<longrightarrow> fst (V w) j = None)) \<and>
     (\<forall>w w' r s. ro_Create ops r w = (w', Inr s) \<longrightarrow>
        (\<exists>j. id_of s = Some j \<and> j \<notin> snd (V w) \<and> V w' = ((fst (V w))(j \<mapsto> s), insert j (snd (V w))) \<and>
           agrees s (set_id (Some j) r))) \<and>
     (\<forall>w w' r e. ro_Create ops r w = (w', Inl e) \<longrightarrow> rpc_CodeOf e = CodeAlreadyExists \<or> rpc_CodeOf e = CodeFailedPrecondition \<longrightarrow>
        V w' = V w) \<and>
     (\<forall>w w' r j u. ro_Update ops r w = (w', Inr u) \<longrightarrow> id_of r = Some j \<longrightarrow>
        (\<exists>s. V w' = ((fst (V w))(j \<mapsto> s), snd (V w)) \<and> agrees s r)) \<and>
     (\<forall>w w' j u. ro_Delete ops j w = (w', Inr u) \<longrightarrow> V w' = ((fst (V w))(j := None), snd (V w))) \<and>
     (\<forall>w w' j e. ro_Delete ops j w = (w', Inl e) \<longrightarrow> rpc_CodeOf e = CodeNotFound \<longrightarrow> V w' = V w \<and> fst (V w) j = None) \<and>
     (\<forall>w w' o' n ss. ro_List ops o' n w = (w', Inr ss) \<longrightarrow>
        V w' = V w \<and> (\<forall>s \<in> set ss. name_of s = Some n \<and> (\<exists>j. fst (V w) j = Some s)))"

lemmas lawful_iff = lawful_def [THEN iffD1]
lemmas lawful_store = lawful_iff [THEN conjunct1, rule_format (no_asm)]
lemmas lawful_get = lawful_iff [THEN conjunct2, THEN conjunct1, rule_format (no_asm)]
lemmas lawful_get_error = lawful_iff [THEN conjunct2, THEN conjunct2, THEN conjunct1, rule_format (no_asm)]
lemmas lawful_create = lawful_iff [THEN conjunct2, THEN conjunct2, THEN conjunct2, THEN conjunct1, rule_format (no_asm)]
lemmas lawful_refused = lawful_iff [THEN conjunct2, THEN conjunct2, THEN conjunct2, THEN conjunct2, THEN conjunct1, rule_format (no_asm)]
lemmas lawful_update = lawful_iff [THEN conjunct2, THEN conjunct2, THEN conjunct2, THEN conjunct2, THEN conjunct2, THEN conjunct1, rule_format (no_asm)]
lemmas lawful_delete = lawful_iff [THEN conjunct2, THEN conjunct2, THEN conjunct2, THEN conjunct2, THEN conjunct2, THEN conjunct2, THEN conjunct1, rule_format (no_asm)]
lemmas lawful_delete_missing = lawful_iff [THEN conjunct2, THEN conjunct2, THEN conjunct2, THEN conjunct2, THEN conjunct2, THEN conjunct2, THEN conjunct2, THEN conjunct1, rule_format (no_asm)]
lemmas lawful_list = lawful_iff [THEN conjunct2, THEN conjunct2, THEN conjunct2, THEN conjunct2, THEN conjunct2, THEN conjunct2, THEN conjunct2, THEN conjunct2, rule_format (no_asm)]

definition originatorID :: string where "originatorID = ''ingress-controller''"

lemma deref_str_Some: "deref_str (Some j) = j"
  by (simp add: deref_str_def)

subsection \<open>What the three kinds share\<close>

text \<open>The resource with the remembered id; a resource that is gone is not an error.\<close>

definition get_existing :: "('w, 'r) res_ops \<Rightarrow> string \<Rightarrow> ('w, api_sync_error, 'r option) action" where
  "get_existing ops i =
     (if i = [] then act_return None
      else act_bind (act_attempt (ro_Get ops i)) (\<lambda>r.
        case r of
          Inr x \<Rightarrow> act_return (Some x)
        | Inl e \<Rightarrow> if rpc_CodeOf e = CodeNotFound then act_return None else act_fail (ErrRpc e)))"

definition delete_by_id :: "('w, 'r) res_ops \<Rightarrow> string \<Rightarrow> ('w, api_sync_error, unit) action" where
  "delete_by_id ops i =
     act_bind (act_attempt (ro_Delete ops i)) (\<lambda>r.
       case r of
         Inr _ \<Rightarrow> act_return ()
       | Inl e \<Rightarrow> if rpc_CodeOf e = CodeNotFound then act_return () else act_fail (ErrRpc e))"

definition find_by_name :: "('w, 'r) res_ops \<Rightarrow> api_sync_error \<Rightarrow> string \<Rightarrow> ('w, api_sync_error, 'r) action" where
  "find_by_name ops notFound name =
     (if \<not> valid_utf8 name then act_fail (ErrListFilter name)
      else act_bind (act_map_error ErrRpc (ro_List ops originatorID name)) (\<lambda>rs.
        case rs of [] \<Rightarrow> act_fail notFound | r # _ \<Rightarrow> act_return r))"

text \<open>\<^verbatim>\<open>convertProto\<close> serialises a message and parses it as the same type: a copy, unless it cannot be serialised.\<close>

definition convertProto :: "('r \<Rightarrow> string option) \<Rightarrow> 'r \<Rightarrow> ('w, api_sync_error, 'r) action" where
  "convertProto marshalError msg = (case marshalError msg of Some e \<Rightarrow> act_fail (ErrConvertProto e) | None \<Rightarrow> act_return msg)"

definition falseToNil :: "bool option \<Rightarrow> bool option" where
  "falseToNil x = (if x = Some False then None else x)"

definition emptyToNil :: "string \<Rightarrow> string option" where
  "emptyToNil x = (if x = [] then None else Some x)"

subsection \<open>Routes\<close>

text \<open>A route as the API has it: the fields of the configuration message, and those that only the API uses.\<close>

record api_route =
  ar_route :: pb_route
  ar_NamespaceId :: "string option"
  ar_OriginatorId :: "string option"
  ar_PolicyIds :: "string list"
  ar_TlsCustomCaKeyPairId :: "string option"
  ar_TlsClientKeyPairId :: "string option"
  ar_TlsDownstreamClientCaKeyPairId :: "string option"
  ar_CreatedAt :: "string option"
  ar_ModifiedAt :: "string option"
  ar_AssignedPolicies :: "string list"
  ar_EnforcedPolicies :: "string list"

definition api_of_route :: "pb_route \<Rightarrow> api_route" where
  "api_of_route r = \<lparr>ar_route = r, ar_NamespaceId = None, ar_OriginatorId = None, ar_PolicyIds = [],
     ar_TlsCustomCaKeyPairId = None, ar_TlsClientKeyPairId = None, ar_TlsDownstreamClientCaKeyPairId = None,
     ar_CreatedAt = None, ar_ModifiedAt = None, ar_AssignedPolicies = [], ar_EnforcedPolicies = []\<rparr>"

definition ar_Id :: "api_route \<Rightarrow> string option" where
  "ar_Id r = r_Id (ar_route r)"

definition ar_Name :: "api_route \<Rightarrow> string option" where
  "ar_Name r = r_Name (ar_route r)"

definition ar_set_Id :: "string option \<Rightarrow> api_route \<Rightarrow> api_route" where
  "ar_set_Id i r = r\<lparr>ar_route := (ar_route r)\<lparr>r_Id := i\<rparr>\<rparr>"

definition route_canon :: "api_route \<Rightarrow> api_route" where
  "route_canon r = r\<lparr>ar_route := canon_route (ar_route r)\<rparr>"

definition route_Equal :: "api_route \<Rightarrow> api_route \<Rightarrow> bool" where
  "route_Equal a b \<longleftrightarrow> route_canon a = route_canon b"

text \<open>The fields that are ignored when looking for changes.\<close>

definition route_mask :: "string option \<Rightarrow> api_route \<Rightarrow> api_route" where
  "route_mask ns r = r\<lparr>ar_NamespaceId := (if ns = None then None else ar_NamespaceId r), ar_CreatedAt := None,
     ar_ModifiedAt := None, ar_AssignedPolicies := [], ar_EnforcedPolicies := [],
     ar_route := (ar_route r)\<lparr>r_StatName := None\<rparr>\<rparr>"

subsection \<open>Policies\<close>

record api_policy =
  ap_policy :: pb_policy
  ap_Id :: "string option"
  ap_NamespaceId :: "string option"
  ap_OriginatorId :: "string option"
  ap_CreatedAt :: "string option"
  ap_ModifiedAt :: "string option"
  ap_AssignedRoutes :: "string list"
  ap_Enforced :: "bool option"

definition api_of_policy :: "pb_policy \<Rightarrow> api_policy" where
  "api_of_policy p = \<lparr>ap_policy = p, ap_Id = None, ap_NamespaceId = None, ap_OriginatorId = None, ap_CreatedAt = None,
     ap_ModifiedAt = None, ap_AssignedRoutes = [], ap_Enforced = None\<rparr>"

definition ap_Name :: "api_policy \<Rightarrow> string option" where
  "ap_Name p = p_Name (ap_policy p)"

definition ap_set_Id :: "string option \<Rightarrow> api_policy \<Rightarrow> api_policy" where
  "ap_set_Id i p = p\<lparr>ap_Id := i\<rparr>"

definition policy_canon :: "api_policy \<Rightarrow> api_policy" where
  "policy_canon p = p\<lparr>ap_policy := (ap_policy p)\<lparr>p_AllowedIdpClaims := canon_map (p_AllowedIdpClaims (ap_policy p))\<rparr>\<rparr>"

definition policy_Equal :: "api_policy \<Rightarrow> api_policy \<Rightarrow> bool" where
  "policy_Equal a b \<longleftrightarrow> policy_canon a = policy_canon b"

definition policy_mask :: "string option \<Rightarrow> api_policy \<Rightarrow> api_policy" where
  "policy_mask ns p = p\<lparr>ap_NamespaceId := (if ns = None then None else ap_NamespaceId p), ap_CreatedAt := None,
     ap_ModifiedAt := None, ap_AssignedRoutes := [], ap_Enforced := falseToNil (ap_Enforced p)\<rparr>"

subsection \<open>Key pairs\<close>

text \<open>An enumeration has its number, 0 for \<^verbatim>\<open>UNKNOWN\<close>.\<close>

record api_keypair =
  kp_Id :: "string option"
  kp_Name :: "string option"
  kp_NamespaceId :: "string option"
  kp_OriginatorId :: "string option"
  kp_Certificate :: string
  kp_Key :: string
  kp_CreatedAt :: "string option"
  kp_ModifiedAt :: "string option"
  kp_CertificateInfo :: "string list"
  kp_Origin :: nat
  kp_Status :: nat

definition kp_set_Id :: "string option \<Rightarrow> api_keypair \<Rightarrow> api_keypair" where
  "kp_set_Id i k = k\<lparr>kp_Id := i\<rparr>"

definition keypair_Equal :: "api_keypair \<Rightarrow> api_keypair \<Rightarrow> bool" where
  "keypair_Equal a b \<longleftrightarrow> a = b"

definition keypair_mask :: "string option \<Rightarrow> api_keypair \<Rightarrow> api_keypair" where
  "keypair_mask ns k = k\<lparr>kp_NamespaceId := (if ns = None then None else kp_NamespaceId k), kp_CreatedAt := None,
     kp_ModifiedAt := None, kp_CertificateInfo := [], kp_Origin := 0, kp_Status := 0\<rparr>"

subsection \<open>Operations\<close>

text \<open>The client of the API.\<close>

record 'w pom_api =
  api_routes :: "('w, api_route) res_ops"
  api_policies :: "('w, api_policy) res_ops"
  api_keypairs :: "('w, api_keypair) res_ops"

text \<open>\<^verbatim>\<open>deleteRoute\<close>, \<^verbatim>\<open>deletePolicy\<close>, \<^verbatim>\<open>deleteKeyPair\<close>.\<close>

definition deleteRoute :: "'w pom_api \<Rightarrow> string \<Rightarrow> ('w, api_sync_error, unit) action" where
  "deleteRoute A i = delete_by_id (api_routes A) i"

definition deletePolicy :: "'w pom_api \<Rightarrow> string \<Rightarrow> ('w, api_sync_error, unit) action" where
  "deletePolicy A i = delete_by_id (api_policies A) i"

definition deleteKeyPair :: "'w pom_api \<Rightarrow> string \<Rightarrow> ('w, api_sync_error, unit) action" where
  "deleteKeyPair A i = delete_by_id (api_keypairs A) i"

definition findRouteByName :: "'w pom_api \<Rightarrow> string \<Rightarrow> ('w, api_sync_error, api_route) action" where
  "findRouteByName A name = find_by_name (api_routes A) (ErrNoSuchName ''route'') name"

definition findPolicyByName :: "'w pom_api \<Rightarrow> string \<Rightarrow> ('w, api_sync_error, api_policy) action" where
  "findPolicyByName A name = find_by_name (api_policies A) (ErrNoSuchName ''policy'') name"

definition findKeyPairByName :: "'w pom_api \<Rightarrow> string \<Rightarrow> ('w, api_sync_error, api_keypair) action" where
  "findKeyPairByName A name =
     find_by_name (api_keypairs A) (ErrRpc (RpcError CodeNotFound ''could not find keypair by name'')) name"

text \<open>
  The end of each upsert: compare what exists with what is wanted, and update. \<open>changed\<close> is what the code has
  noted so far; the result is whether anything changed, and the id of the resource.
\<close>

definition update_route ::
  "'w pom_api \<Rightarrow> string option \<Rightarrow> api_route \<Rightarrow> api_route \<Rightarrow> ('w, api_sync_error, bool \<times> string option) action" where
  "update_route A ns existing apiRoute =
     (if route_Equal (route_mask ns existing) apiRoute then act_return (False, ar_Id apiRoute)
      else act_bind (act_map_error ErrRpc (ro_Update (api_routes A) apiRoute)) (\<lambda>_. act_return (True, ar_Id apiRoute)))"

definition create_route ::
  "'w pom_api \<Rightarrow> string option \<Rightarrow> api_route \<Rightarrow> ('w, api_sync_error, bool \<times> string option) action" where
  "create_route A ns apiRoute =
     act_bind (act_attempt (ro_Create (api_routes A) (ar_set_Id None apiRoute))) (\<lambda>resp.
       case resp of
         Inr r \<Rightarrow> act_return (True, ar_Id r)
       | Inl e \<Rightarrow>
           if rpc_CodeOf e \<noteq> CodeAlreadyExists \<and> rpc_CodeOf e \<noteq> CodeFailedPrecondition then act_fail (ErrRpc e)
           else act_bind (findRouteByName A (deref_str (ar_Name apiRoute))) (\<lambda>existing.
             update_route A ns existing (ar_set_Id (ar_Id existing) apiRoute)))"

definition upsertOneRoute ::
  "'w pom_api \<Rightarrow> (api_route \<Rightarrow> string option) \<Rightarrow> string option \<Rightarrow> api_route
     \<Rightarrow> ('w, api_sync_error, bool \<times> string option) action" where
  "upsertOneRoute A marshalError ns route =
     act_bind (convertProto marshalError route) (\<lambda>msg.
     let apiRoute = msg\<lparr>ar_NamespaceId := ns, ar_OriginatorId := Some originatorID\<rparr> in
     act_bind (get_existing (api_routes A) (deref_str (ar_Id route))) (\<lambda>found.
       case found of
         None \<Rightarrow> create_route A ns apiRoute
       | Some existing \<Rightarrow>
           if ar_NamespaceId apiRoute \<noteq> None \<and> deref_str (ar_NamespaceId apiRoute) \<noteq> deref_str (ar_NamespaceId existing)
           then act_bind (act_map_error ErrDeleteInOtherNamespace (deleteRoute A (deref_str (ar_Id existing)))) (\<lambda>_.
             create_route A ns apiRoute)
           else update_route A ns existing apiRoute))"

definition update_policy ::
  "'w pom_api \<Rightarrow> string option \<Rightarrow> bool \<Rightarrow> api_policy \<Rightarrow> api_policy \<Rightarrow> ('w, api_sync_error, bool \<times> string option) action" where
  "update_policy A ns changed existing policy =
     (if policy_Equal (policy_mask ns existing) policy then act_return (changed, ap_Id policy)
      else act_bind (act_map_error ErrRpc (ro_Update (api_policies A) policy)) (\<lambda>_. act_return (True, ap_Id policy)))"

definition create_policy ::
  "'w pom_api \<Rightarrow> string option \<Rightarrow> api_policy \<Rightarrow> ('w, api_sync_error, bool \<times> string option) action" where
  "create_policy A ns policy =
     act_bind (act_attempt (ro_Create (api_policies A) (ap_set_Id None policy))) (\<lambda>resp.
       case resp of
         Inr p \<Rightarrow> act_return (True, ap_Id p)
       | Inl e \<Rightarrow>
           if rpc_CodeOf e \<noteq> CodeAlreadyExists then act_fail (ErrRpc e)
           else act_bind (findPolicyByName A (deref_str (ap_Name policy))) (\<lambda>existing.
             update_policy A ns True existing (ap_set_Id (ap_Id existing) policy)))"

definition upsertPolicy ::
  "'w pom_api \<Rightarrow> string option \<Rightarrow> api_policy \<Rightarrow> ('w, api_sync_error, bool \<times> string option) action" where
  "upsertPolicy A ns policy =
     act_bind (get_existing (api_policies A) (deref_str (ap_Id policy))) (\<lambda>found.
       case found of
         None \<Rightarrow> create_policy A ns policy
       | Some existing \<Rightarrow>
           if ap_NamespaceId policy \<noteq> None \<and> deref_str (ap_NamespaceId policy) \<noteq> deref_str (ap_NamespaceId existing)
           then create_policy A ns policy
           else update_policy A ns False existing policy)"

definition update_keypair ::
  "'w pom_api \<Rightarrow> string option \<Rightarrow> bool \<Rightarrow> api_keypair \<Rightarrow> api_keypair \<Rightarrow> ('w, api_sync_error, bool \<times> string option) action" where
  "update_keypair A ns changed existing keyPair =
     (if keypair_Equal (keypair_mask ns existing) keyPair then act_return (changed, kp_Id keyPair)
      else act_bind (act_map_error ErrRpc (ro_Update (api_keypairs A) keyPair)) (\<lambda>_. act_return (True, kp_Id keyPair)))"

definition create_keypair ::
  "'w pom_api \<Rightarrow> string option \<Rightarrow> api_keypair \<Rightarrow> ('w, api_sync_error, bool \<times> string option) action" where
  "create_keypair A ns keyPair =
     act_bind (act_attempt (ro_Create (api_keypairs A) (kp_set_Id None keyPair))) (\<lambda>resp.
       case resp of
         Inr k \<Rightarrow> act_return (True, kp_Id k)
       | Inl e \<Rightarrow>
           if rpc_CodeOf e \<noteq> CodeAlreadyExists then act_fail (ErrRpc e)
           else act_bind (findKeyPairByName A (deref_str (kp_Name keyPair))) (\<lambda>existing.
             update_keypair A ns True existing (kp_set_Id (kp_Id existing) keyPair)))"

definition upsertKeyPair ::
  "'w pom_api \<Rightarrow> string option \<Rightarrow> api_keypair \<Rightarrow> ('w, api_sync_error, bool \<times> string option) action" where
  "upsertKeyPair A ns keyPair =
     act_bind (get_existing (api_keypairs A) (deref_str (kp_Id keyPair))) (\<lambda>found.
       case found of
         None \<Rightarrow> create_keypair A ns keyPair
       | Some existing \<Rightarrow>
           if kp_NamespaceId keyPair \<noteq> None \<and> deref_str (kp_NamespaceId keyPair) \<noteq> deref_str (kp_NamespaceId existing)
           then act_bind (act_map_error ErrDeleteInOtherNamespace (deleteKeyPair A (deref_str (kp_Id existing)))) (\<lambda>_.
             create_keypair A ns keyPair)
           else update_keypair A ns False existing keyPair)"

subsection \<open>The shared contract\<close>

text \<open>A stored resource agrees with a request: they are equal but for what the request leaves to the service.\<close>

definition agrees ::
  "('r \<Rightarrow> string option) \<Rightarrow> (string option \<Rightarrow> 'r \<Rightarrow> 'r) \<Rightarrow> ('r \<Rightarrow> 'r \<Rightarrow> bool) \<Rightarrow> 'r \<Rightarrow> 'r \<Rightarrow> bool" where
  "agrees ns_of clear equal s r \<longleftrightarrow> equal (clear (ns_of r) s) (clear (ns_of r) r)"

text \<open>
  What an upsert of a resource whose remembered id is \<open>old\<close> did: the resource is stored under the returned id and
  agrees with the request; the resource with the remembered id stays as it was or is gone if it is not the result;
  nothing else changed, and nothing at all if no change is reported for a resource that kept its id. The id is the
  remembered one, a new one, or that of a resource with the same name.
\<close>

definition upserted ::
  "('r \<Rightarrow> string option) \<Rightarrow> ('r \<Rightarrow> 'r \<Rightarrow> bool) \<Rightarrow> (string \<Rightarrow> 'r) \<Rightarrow> string \<Rightarrow> string \<Rightarrow> bool \<Rightarrow> string option
     \<Rightarrow> 'r view \<Rightarrow> 'r view \<Rightarrow> bool" where
  "upserted name_of agree request name old ch i v v' \<longleftrightarrow>
     (\<exists>j s. i = Some j \<and> j \<noteq> [] \<and> fst v' j = Some s \<and> agree s (request j) \<and>
        (\<forall>k. k \<noteq> j \<and> k \<noteq> old \<longrightarrow> fst v' k = fst v k) \<and>
        (old \<noteq> j \<longrightarrow> fst v' old = fst v old \<or> fst v' old = None) \<and>
        (j = old \<and> \<not> ch \<longrightarrow> v' = v) \<and>
        snd v' = insert j (snd v) \<and>
        (j = old \<or> j \<notin> snd v \<or> (\<exists>s0. fst v j = Some s0 \<and> name_of s0 = Some name)))"

locale resource_kind =
  fixes id_of :: "'r \<Rightarrow> string option"
    and set_id :: "string option \<Rightarrow> 'r \<Rightarrow> 'r"
    and name_of :: "'r \<Rightarrow> string option"
    and ns_of :: "'r \<Rightarrow> string option"
    and clear :: "string option \<Rightarrow> 'r \<Rightarrow> 'r"
    and equal :: "'r \<Rightarrow> 'r \<Rightarrow> bool"
  assumes id_set: "id_of (set_id i r) = i"
    and set_set: "set_id i (set_id j r) = set_id i r"
    and set_same: "set_id (id_of r) r = r"
    and ns_set: "ns_of (set_id i r) = ns_of r"
    and name_set: "name_of (set_id i r) = name_of r"
    and mask_name: "name_of (clear n r) = name_of r"
    and equal_name: "equal r s \<Longrightarrow> name_of r = name_of s"
    and mask_id: "id_of (clear n r) = id_of r"
    and mask_set: "clear n (set_id i r) = set_id i (clear n r)"
    and mask_ns: "n \<noteq> None \<Longrightarrow> ns_of (clear n r) = ns_of r"
    and mask_idem: "clear n (clear n r) = clear n r"
    and equal_refl: "equal r r"
    and equal_id: "equal r s \<Longrightarrow> id_of r = id_of s"
    and equal_ns: "equal r s \<Longrightarrow> ns_of r = ns_of s"
    and equal_mask: "equal r s \<Longrightarrow> equal (clear n r) (clear n s)"
begin

abbreviation agree :: "'r \<Rightarrow> 'r \<Rightarrow> bool" where
  "agree \<equiv> agrees ns_of clear equal"

definition update_res ::
  "('w, 'r) res_ops \<Rightarrow> string option \<Rightarrow> bool \<Rightarrow> 'r \<Rightarrow> 'r \<Rightarrow> ('w, api_sync_error, bool \<times> string option) action" where
  "update_res ops ns changed existing r =
     (if equal (clear ns existing) r then act_return (changed, id_of r)
      else act_bind (act_map_error ErrRpc (ro_Update ops r)) (\<lambda>_. act_return (True, id_of r)))"

definition create_res ::
  "('w, 'r) res_ops \<Rightarrow> (rpc_code \<Rightarrow> bool) \<Rightarrow> bool \<Rightarrow> api_sync_error \<Rightarrow> string \<Rightarrow> string option \<Rightarrow> 'r
     \<Rightarrow> ('w, api_sync_error, bool \<times> string option) action" where
  "create_res ops refused found notFound name ns r =
     act_bind (act_attempt (ro_Create ops (set_id None r))) (\<lambda>resp.
       case resp of
         Inr s \<Rightarrow> act_return (True, id_of s)
       | Inl e \<Rightarrow>
           if \<not> refused (rpc_CodeOf e) then act_fail (ErrRpc e)
           else act_bind (find_by_name ops notFound name) (\<lambda>existing.
             update_res ops ns found existing (set_id (id_of existing) r)))"

definition upsert_res ::
  "('w, 'r) res_ops \<Rightarrow> bool \<Rightarrow> (rpc_code \<Rightarrow> bool) \<Rightarrow> bool \<Rightarrow> api_sync_error \<Rightarrow> string \<Rightarrow> string option \<Rightarrow> 'r
     \<Rightarrow> ('w, api_sync_error, bool \<times> string option) action" where
  "upsert_res ops del refused found notFound name ns r =
     act_bind (get_existing ops (deref_str (id_of r))) (\<lambda>ex.
       case ex of
         None \<Rightarrow> create_res ops refused found notFound name ns r
       | Some existing \<Rightarrow>
           if ns_of r \<noteq> None \<and> deref_str (ns_of r) \<noteq> deref_str (ns_of existing)
           then (if del
                 then act_bind (act_map_error ErrDeleteInOtherNamespace (delete_by_id ops (deref_str (id_of existing)))) (\<lambda>_.
                   create_res ops refused found notFound name ns r)
                 else create_res ops refused found notFound name ns r)
           else update_res ops ns False existing r)"

lemma agree_name: "agree s r \<Longrightarrow> name_of s = name_of r"
  unfolding agrees_def using equal_name mask_name by metis

lemma get_existing_ok:
  assumes "lawful id_of set_id name_of ag V ops" "get_existing ops i w = (w', Inr ex)"
  shows "V w' = V w \<and> (i \<noteq> [] \<longrightarrow> ex = fst (V w) i) \<and> (i = [] \<longrightarrow> ex = None)"
proof (cases "i = []")
  case True
  then show ?thesis using assms(2) by (simp add: get_existing_def act_return_def)
next
  case False
  obtain w1 r where r: "ro_Get ops i w = (w1, r)" by (cases "ro_Get ops i w")
  show ?thesis
  proof (cases r)
    case (Inl e)
    then have "V w1 = V w" "rpc_CodeOf e = CodeNotFound \<Longrightarrow> fst (V w) i = None"
      using lawful_get_error [OF assms(1), of i w w1 e] r by blast+
    with False assms(2) r Inl show ?thesis
      by (simp add: get_existing_def act_bind_def act_attempt_def act_return_def act_fail_def split: if_splits)
  next
    case (Inr x)
    then have "V w1 = V w" "fst (V w) i = Some x" using lawful_get [OF assms(1), of i w w1 x] r by blast+
    with False assms(2) r Inr show ?thesis
      by (simp add: get_existing_def act_bind_def act_attempt_def act_return_def)
  qed
qed

lemma delete_by_id_ok:
  assumes "lawful id_of set_id name_of ag V ops" "delete_by_id ops i w = (w', Inr u)"
  shows "V w' = ((fst (V w))(i := None), snd (V w))"
proof -
  obtain w1 r where r: "ro_Delete ops i w = (w1, r)" by (cases "ro_Delete ops i w")
  show ?thesis
  proof (cases r)
    case (Inl e)
    have "rpc_CodeOf e = CodeNotFound \<Longrightarrow> V w1 = V w \<and> fst (V w) i = None"
      using lawful_delete_missing [OF assms(1), of i w w1 e] r Inl by blast
    with assms(2) r Inl show ?thesis
      by (simp add: delete_by_id_def act_bind_def act_attempt_def act_return_def act_fail_def fun_eq_iff prod_eq_iff split: if_splits)
  next
    case (Inr x)
    then have "V w1 = ((fst (V w))(i := None), snd (V w))" using lawful_delete [OF assms(1), of i w w1] r by blast
    with assms(2) r Inr show ?thesis by (simp add: delete_by_id_def act_bind_def act_attempt_def act_return_def)
  qed
qed

lemma find_by_name_ok:
  assumes "lawful id_of set_id name_of ag V ops" "find_by_name ops e name w = (w', Inr s)"
  shows "V w' = V w \<and> name_of s = Some name \<and> (\<exists>j. fst (V w) j = Some s)"
proof -
  obtain w1 r where r: "ro_List ops originatorID name w = (w1, r)" by (cases "ro_List ops originatorID name w")
  obtain ss where ss: "r = Inr ss" using assms(2) r
    by (cases r) (simp_all add: find_by_name_def act_bind_def act_map_error_def act_fail_def split: if_splits)
  then have "V w1 = V w \<and> (\<forall>s \<in> set ss. name_of s = Some name \<and> (\<exists>j. fst (V w) j = Some s))"
    using lawful_list [OF assms(1), of originatorID name w w1 ss] r by blast
  with assms(2) r ss show ?thesis
    by (cases ss) (auto simp: find_by_name_def act_bind_def act_map_error_def act_fail_def act_return_def split: if_splits)
qed

lemma update_res_ok:
  assumes L: "lawful id_of set_id name_of agree V ops" and ex: "fst (V w) j = Some existing" "id_of r = Some j"
    and ns: "ns_of r = ns" and u: "update_res ops ns changed existing r w = (w', Inr (ch, i))"
  shows "i = Some j \<and> (\<exists>s. V w' = ((fst (V w))(j \<mapsto> s), snd (V w)) \<and> agree s r) \<and> (\<not> ch \<longrightarrow> V w' = V w)"
proof (cases "equal (clear ns existing) r")
  case True
  have "agree existing r"
    unfolding agrees_def ns using equal_mask [OF True, of ns] by (simp add: mask_idem)
  moreover have "(fst (V w))(j \<mapsto> existing) = fst (V w)" using ex(1) by (rule fun_upd_idem)
  ultimately show ?thesis using True u ex
    by (auto simp: update_res_def act_return_def intro!: exI [of _ existing])
next
  case False
  obtain w1 r1 where r: "ro_Update ops r w = (w1, r1)" by (cases "ro_Update ops r w")
  then obtain x where "r1 = Inr x" "w1 = w'" "ch" "i = Some j"
    using False u ex
    by (cases r1) (auto simp: update_res_def act_bind_def act_map_error_def act_return_def)
  then show ?thesis using lawful_update [OF L, of r w w' x] r ex(2) by auto
qed

lemma create_res_ok:
  assumes L: "lawful id_of set_id name_of agree V ops" and ns: "ns_of r = ns"
    and refused: "\<And>c. refused c \<Longrightarrow> c = CodeAlreadyExists \<or> c = CodeFailedPrecondition"
    and c: "create_res ops refused found notFound name ns r w = (w', Inr (ch, i))"
  shows "\<exists>j s. i = Some j \<and> j \<noteq> [] \<and> V w' = ((fst (V w))(j \<mapsto> s), insert j (snd (V w))) \<and> agree s (set_id (Some j) r) \<and>
    (\<not> ch \<longrightarrow> V w' = V w) \<and> (j \<notin> snd (V w) \<or> (\<exists>s0. fst (V w) j = Some s0 \<and> name_of s0 = Some name))"
proof -
  obtain w1 resp where resp: "ro_Create ops (set_id None r) w = (w1, resp)" by (cases "ro_Create ops (set_id None r) w")
  show ?thesis
  proof (cases resp)
    case (Inr s)
    obtain j where j: "id_of s = Some j" "j \<notin> snd (V w)" "V w1 = ((fst (V w))(j \<mapsto> s), insert j (snd (V w)))"
      "agree s (set_id (Some j) (set_id None r))"
      using lawful_create [OF L, of "set_id None r" w w1 s] resp Inr by blast
    moreover have "j \<noteq> []" using lawful_store [OF L, of w1 j s] j by simp
    moreover have "w1 = w'" "ch" "i = id_of s"
      using c resp Inr by (simp_all add: create_res_def act_bind_def act_attempt_def act_return_def)
    ultimately show ?thesis by (auto simp: set_set)
  next
    case (Inl e)
    have ref: "refused (rpc_CodeOf e)"
      using c resp Inl by (simp add: create_res_def act_bind_def act_attempt_def act_fail_def split: if_splits)
    then have V1: "V w1 = V w" using refused lawful_refused [OF L, of "set_id None r" w w1 e] resp Inl by blast
    have "act_bind (find_by_name ops notFound name)
        (\<lambda>existing. update_res ops ns found existing (set_id (id_of existing) r)) w1 = (w', Inr (ch, i))"
      using c resp Inl ref by (simp add: create_res_def act_bind_def act_attempt_def)
    then obtain existing w2 where f: "find_by_name ops notFound name w1 = (w2, Inr existing)"
      and u: "update_res ops ns found existing (set_id (id_of existing) r) w2 = (w', Inr (ch, i))"
      by (rule act_bind_InrE)
    obtain j where j: "fst (V w1) j = Some existing" and V2: "V w2 = V w1" "name_of existing = Some name"
      using find_by_name_ok [OF L f] by blast
    have id: "id_of existing = Some j" "j \<noteq> []" "j \<in> snd (V w1)" using lawful_store [OF L j] by simp_all
    have "i = Some j \<and> (\<exists>s. V w' = ((fst (V w2))(j \<mapsto> s), snd (V w2)) \<and> agree s (set_id (Some j) r)) \<and> (\<not> ch \<longrightarrow> V w' = V w2)"
      by (rule update_res_ok [OF L, of w2 j existing _ ns found]) (use j id u V2 in \<open>simp_all add: id_set ns_set ns\<close>)
    then show ?thesis using id j V1 V2 by (auto simp: insert_absorb)
  qed
qed

lemma upsert_res_ok:
  assumes L: "lawful id_of set_id name_of agree V ops" and ns: "ns_of r = ns"
    and refused: "\<And>c. refused c \<Longrightarrow> c = CodeAlreadyExists \<or> c = CodeFailedPrecondition"
    and u: "upsert_res ops del refused found notFound name ns r w = (w', Inr (ch, i))"
  shows "upserted name_of agree (\<lambda>j. set_id (Some j) r) name (deref_str (id_of r)) ch i (V w) (V w')"
proof -
  let ?old = "deref_str (id_of r)"
  let ?create = "create_res ops refused found notFound name ns r"
  have created: "upserted name_of agree (\<lambda>j. set_id (Some j) r) name ?old ch i (V w) (V w')"
    if c: "?create w1 = (w', Inr (ch, i))" and v1: "V w1 = V w \<or> V w1 = ((fst (V w))(?old := None), snd (V w))" for w1
  proof -
    obtain j s where j: "i = Some j" "j \<noteq> []" "V w' = ((fst (V w1))(j \<mapsto> s), insert j (snd (V w1)))" "agree s (set_id (Some j) r)"
      "\<not> ch \<Longrightarrow> V w' = V w1" "j \<notin> snd (V w1) \<or> (\<exists>s0. fst (V w1) j = Some s0 \<and> name_of s0 = Some name)"
      using create_res_ok [OF L ns refused c] by blast
    have "V w1 = V w" if "\<not> ch" "j = ?old"
    proof -
      have "fst (V w1) ?old \<noteq> None" using j that by (metis fst_conv fun_upd_same option.distinct(1))
      then show ?thesis using v1 by auto
    qed
    moreover have "snd (V w1) = snd (V w)" using v1 by auto
    moreover have "\<exists>s0. fst (V w) j = Some s0 \<and> name_of s0 = Some name" if "fst (V w1) j = Some s0" "name_of s0 = Some name" for s0
      using v1 that by (auto split: if_splits)
    ultimately show ?thesis using j v1 unfolding upserted_def by (intro exI [of _ j] exI [of _ s]) auto
  qed
  obtain ex w1 where ex: "get_existing ops ?old w = (w1, Inr ex)"
    and rest: "(case ex of None \<Rightarrow> ?create | Some existing \<Rightarrow>
        if ns_of r \<noteq> None \<and> deref_str (ns_of r) \<noteq> deref_str (ns_of existing)
        then (if del then act_bind (act_map_error ErrDeleteInOtherNamespace (delete_by_id ops (deref_str (id_of existing)))) (\<lambda>_. ?create)
              else ?create)
        else update_res ops ns False existing r) w1 = (w', Inr (ch, i))"
    using u unfolding upsert_res_def by (rule act_bind_InrE)
  have V1: "V w1 = V w" using get_existing_ok [OF L ex] by simp
  show ?thesis
  proof (cases ex)
    case None
    then show ?thesis using rest V1 created by simp
  next
    case (Some existing)
    then have at: "fst (V w) ?old = Some existing" "?old \<noteq> []" using get_existing_ok [OF L ex] by (metis option.distinct(1))+
    have id: "id_of existing = Some ?old" "?old \<in> snd (V w)" using lawful_store [OF L at(1)] by simp_all
    have idr: "id_of r = Some ?old" using at(2) by (cases "id_of r") (simp_all add: deref_str_def)
    show ?thesis
    proof (cases "ns_of r \<noteq> None \<and> deref_str (ns_of r) \<noteq> deref_str (ns_of existing)")
      case other: True
      show ?thesis
      proof (cases del)
        case True
        then have "act_bind (act_map_error ErrDeleteInOtherNamespace (delete_by_id ops ?old)) (\<lambda>_. ?create) w1 = (w', Inr (ch, i))"
          using rest Some other id by (simp add: deref_str_def)
        then obtain x w2 where "act_map_error ErrDeleteInOtherNamespace (delete_by_id ops ?old) w1 = (w2, Inr x)" and c: "?create w2 = (w', Inr (ch, i))"
          by (rule act_bind_InrE)
        then have "delete_by_id ops ?old w1 = (w2, Inr x)" by (auto simp: act_map_error_def split: prod.splits sum.splits)
        then have "V w2 = ((fst (V w))(?old := None), snd (V w))" using delete_by_id_ok [OF L] V1 by metis
        then show ?thesis using created [OF c] by simp
      next
        case False
        then show ?thesis using rest Some other V1 created by simp
      qed
    next
      case False
      then have up: "update_res ops ns False existing r w1 = (w', Inr (ch, i))"
        using rest unfolding Some by (simp only: option.case if_False)
      obtain s where "i = Some ?old" "V w' = ((fst (V w))(?old \<mapsto> s), snd (V w))" "agree s r" "\<not> ch \<Longrightarrow> V w' = V w"
        using update_res_ok [OF L _ idr ns up] at V1 by auto
      moreover have "set_id (Some ?old) r = r" using set_same [of r] idr by simp
      ultimately show ?thesis using at(2) id(2) unfolding upserted_def
        by (intro exI [of _ ?old] exI [of _ s]) (auto simp: insert_absorb)
    qed
  qed
qed

text \<open>Upserting again finds the resource as it should be and changes nothing.\<close>

lemma upsert_res_again:
  assumes L: "lawful id_of set_id name_of agree V ops" and ns: "ns_of r = ns" and clean: "clear ns r = r"
    and s: "fst (V w) j = Some s" "agree s (set_id (Some j) r)" and get: "ro_Get ops j w = (w', Inr s')"
  shows "upsert_res ops del refused found notFound name ns (set_id (Some j) r) w = (w', Inr (False, Some j)) \<and> V w' = V w"
proof -
  let ?r = "set_id (Some j) r"
  have s': "s' = s" "V w' = V w" using lawful_get [OF L get] s(1) by simp_all
  have j: "j \<noteq> []" using lawful_store [OF L s(1)] by simp
  have eq: "equal (clear ns s) ?r" using s(2) by (simp add: agrees_def ns_set ns mask_set clean)
  have same: "(ns_of ?r \<noteq> None \<and> deref_str (ns_of ?r) \<noteq> deref_str (ns_of s)) = False"
    using equal_ns [OF eq] mask_ns [of ns s] ns by (cases ns) (simp_all add: ns_set)
  have "get_existing ops j w = (w', Inr (Some s))"
    using get j s' by (simp add: get_existing_def act_bind_def act_attempt_def act_return_def)
  then have "upsert_res ops del refused found notFound name ns ?r w = update_res ops ns False s ?r w'"
    unfolding upsert_res_def act_bind_def by (simp only: id_set deref_str_Some option.case prod.case sum.case same if_False)
  then show ?thesis using eq s' by (simp add: update_res_def act_return_def id_set)
qed

end

subsection \<open>The three kinds\<close>

lemma route_canon_simps:
  "ar_Id (route_canon r) = ar_Id r" "ar_Name (route_canon r) = ar_Name r" "ar_NamespaceId (route_canon r) = ar_NamespaceId r"
  "route_canon (route_mask n r) = route_mask n (route_canon r)"
  by (simp_all add: ar_Id_def ar_Name_def route_canon_def route_mask_def canon_route_def)

lemma policy_canon_simps:
  "ap_Id (policy_canon p) = ap_Id p" "ap_Name (policy_canon p) = ap_Name p" "ap_NamespaceId (policy_canon p) = ap_NamespaceId p"
  "policy_canon (policy_mask n p) = policy_mask n (policy_canon p)"
  by (simp_all add: policy_canon_def policy_mask_def ap_Name_def)

interpretation rk: resource_kind ar_Id ar_set_Id ar_Name ar_NamespaceId route_mask route_Equal
proof unfold_locales
  fix n r s assume eq: "route_Equal r s"
  show "ar_Id r = ar_Id s" "ar_Name r = ar_Name s" "ar_NamespaceId r = ar_NamespaceId s" "route_Equal (route_mask n r) (route_mask n s)"
    using eq route_canon_simps unfolding route_Equal_def by metis+
qed (auto simp: ar_Id_def ar_Name_def ar_set_Id_def route_mask_def route_Equal_def)

interpretation pk: resource_kind ap_Id ap_set_Id ap_Name ap_NamespaceId policy_mask policy_Equal
proof unfold_locales
  fix n r s assume eq: "policy_Equal r s"
  show "ap_Id r = ap_Id s" "ap_Name r = ap_Name s" "ap_NamespaceId r = ap_NamespaceId s" "policy_Equal (policy_mask n r) (policy_mask n s)"
    using eq policy_canon_simps unfolding policy_Equal_def by metis+
qed (auto simp: ap_Name_def ap_set_Id_def policy_mask_def policy_Equal_def falseToNil_def)

interpretation kk: resource_kind kp_Id kp_set_Id kp_Name kp_NamespaceId keypair_mask keypair_Equal
  by unfold_locales (auto simp: kp_set_Id_def keypair_mask_def keypair_Equal_def)

lemma act_bind_return: "act_bind (act_return x) f = f x"
  by (simp add: act_bind_def act_return_def fun_eq_iff)

lemma create_route_eq:
  "create_route A ns r =
     rk.create_res (api_routes A) (\<lambda>c. c = CodeAlreadyExists \<or> c = CodeFailedPrecondition) False (ErrNoSuchName ''route'')
       (deref_str (ar_Name r)) ns r"
  unfolding create_route_def rk.create_res_def update_route_def rk.update_res_def findRouteByName_def de_Morgan_disj ..

definition api_request :: "string option \<Rightarrow> api_route \<Rightarrow> api_route" where
  "api_request ns route = route\<lparr>ar_NamespaceId := ns, ar_OriginatorId := Some originatorID\<rparr>"

lemma api_request_simps:
  "ar_Id (api_request ns r) = ar_Id r" "ar_Name (api_request ns r) = ar_Name r" "ar_route (api_request ns r) = ar_route r" "ar_NamespaceId (api_request ns r) = ns"
  by (simp_all add: api_request_def ar_Id_def ar_Name_def)

lemma upsertOneRoute_eq:
  assumes "marshalError route = None"
  shows "upsertOneRoute A marshalError ns route =
     rk.upsert_res (api_routes A) True (\<lambda>c. c = CodeAlreadyExists \<or> c = CodeFailedPrecondition) False (ErrNoSuchName ''route'')
       (deref_str (ar_Name route)) ns (api_request ns route)"
  unfolding upsertOneRoute_def convertProto_def assms option.case act_bind_return Let_def rk.upsert_res_def
    create_route_eq update_route_def rk.update_res_def deleteRoute_def if_True
    api_request_def [symmetric] api_request_simps ..

lemma upsertOneRoute_marshal:
  "upsertOneRoute A marshalError ns route w = (w', Inr x) \<Longrightarrow> marshalError route = None"
  by (cases "marshalError route") (simp_all add: upsertOneRoute_def convertProto_def act_bind_def act_fail_def)

lemma upsertPolicy_eq:
  "upsertPolicy A ns policy =
     pk.upsert_res (api_policies A) False (\<lambda>c. c = CodeAlreadyExists) True (ErrNoSuchName ''policy'')
       (deref_str (ap_Name policy)) ns policy"
  unfolding upsertPolicy_def pk.upsert_res_def create_policy_def pk.create_res_def update_policy_def pk.update_res_def
    findPolicyByName_def if_False ..

lemma upsertKeyPair_eq:
  "upsertKeyPair A ns keyPair =
     kk.upsert_res (api_keypairs A) True (\<lambda>c. c = CodeAlreadyExists) True
       (ErrRpc (RpcError CodeNotFound ''could not find keypair by name'')) (deref_str (kp_Name keyPair)) ns keyPair"
  unfolding upsertKeyPair_def kk.upsert_res_def create_keypair_def kk.create_res_def update_keypair_def kk.update_res_def
    findKeyPairByName_def deleteKeyPair_def if_True ..

abbreviation route_agrees :: "api_route \<Rightarrow> api_route \<Rightarrow> bool" where
  "route_agrees \<equiv> agrees ar_NamespaceId route_mask route_Equal"

abbreviation policy_agrees :: "api_policy \<Rightarrow> api_policy \<Rightarrow> bool" where
  "policy_agrees \<equiv> agrees ap_NamespaceId policy_mask policy_Equal"

abbreviation keypair_agrees :: "api_keypair \<Rightarrow> api_keypair \<Rightarrow> bool" where
  "keypair_agrees \<equiv> agrees kp_NamespaceId keypair_mask keypair_Equal"

abbreviation lawful_routes :: "('w \<Rightarrow> api_route view) \<Rightarrow> 'w pom_api \<Rightarrow> bool" where
  "lawful_routes V A \<equiv> lawful ar_Id ar_set_Id ar_Name route_agrees V (api_routes A)"

abbreviation lawful_policies :: "('w \<Rightarrow> api_policy view) \<Rightarrow> 'w pom_api \<Rightarrow> bool" where
  "lawful_policies V A \<equiv> lawful ap_Id ap_set_Id ap_Name policy_agrees V (api_policies A)"

abbreviation lawful_keypairs :: "('w \<Rightarrow> api_keypair view) \<Rightarrow> 'w pom_api \<Rightarrow> bool" where
  "lawful_keypairs V A \<equiv> lawful kp_Id kp_set_Id kp_Name keypair_agrees V (api_keypairs A)"

lemma upsertOneRoute_ok:
  assumes L: "lawful_routes V A" and u: "upsertOneRoute A marshalError ns route w = (w', Inr (ch, i))"
  shows "upserted ar_Name route_agrees (\<lambda>j. ar_set_Id (Some j) (api_request ns route)) (deref_str (ar_Name route)) (deref_str (ar_Id route)) ch i (V w) (V w')"
proof -
  have eq: "upsertOneRoute A marshalError ns route = rk.upsert_res (api_routes A) True
      (\<lambda>c. c = CodeAlreadyExists \<or> c = CodeFailedPrecondition) False (ErrNoSuchName ''route'')
      (deref_str (ar_Name route)) ns (api_request ns route)"
    by (rule upsertOneRoute_eq) (rule upsertOneRoute_marshal [OF u])
  show ?thesis
    using rk.upsert_res_ok [OF L api_request_simps(4) _ u [unfolded eq]] by (simp add: api_request_simps)
qed

lemma upsertPolicy_ok:
  assumes L: "lawful_policies V A" and ns: "ap_NamespaceId policy = ns"
    and u: "upsertPolicy A ns policy w = (w', Inr (ch, i))"
  shows "upserted ap_Name policy_agrees (\<lambda>j. ap_set_Id (Some j) policy) (deref_str (ap_Name policy)) (deref_str (ap_Id policy)) ch i (V w) (V w')"
  by (rule pk.upsert_res_ok [OF L ns _ u [unfolded upsertPolicy_eq]]) simp

lemma upsertKeyPair_ok:
  assumes L: "lawful_keypairs V A" and ns: "kp_NamespaceId keyPair = ns"
    and u: "upsertKeyPair A ns keyPair w = (w', Inr (ch, i))"
  shows "upserted kp_Name keypair_agrees (\<lambda>j. kp_set_Id (Some j) keyPair) (deref_str (kp_Name keyPair)) (deref_str (kp_Id keyPair)) ch i (V w) (V w')"
  by (rule kk.upsert_res_ok [OF L ns _ u [unfolded upsertKeyPair_eq]]) simp

lemma upsertOneRoute_again:
  assumes L: "lawful_routes V A" and clean: "route_mask ns (api_request ns route) = api_request ns route"
    and s: "fst (V w) j = Some s" "route_agrees s (ar_set_Id (Some j) (api_request ns route))"
    and get: "ro_Get (api_routes A) j w = (w', Inr s')" and m: "marshalError (ar_set_Id (Some j) route) = None"
  shows "upsertOneRoute A marshalError ns (ar_set_Id (Some j) route) w = (w', Inr (False, Some j)) \<and> V w' = V w"
proof -
  have "api_request ns (ar_set_Id (Some j) route) = ar_set_Id (Some j) (api_request ns route)"
    by (simp add: api_request_def ar_set_Id_def)
  then show ?thesis
    using rk.upsert_res_again [OF L api_request_simps(4) clean s get] upsertOneRoute_eq [of marshalError "ar_set_Id (Some j) route" A ns] m
    by simp
qed

end
