(* ===== verification/Secrets_Map.thy ===== *)
theory Secrets_Map
  imports Registry K8s_Types
begin

text \<open>
  \<^verbatim>\<open>model/secrets_map.go\<close>: which TLS secrets each entity (an ingress, the global settings, the
  Gateway configuration) references, with the reverse mapping, so that an update can tell which
  secrets have just lost their last reference. The API reconciler deletes the key pairs of exactly
  those secrets.
\<close>

record tls_secrets_map =
  deps :: "(key, namespaced_name list) gomap"
  reverseDeps :: "(namespaced_name, key list) gomap"

definition KeyForObject :: "object_meta \<Rightarrow> key" where
  "KeyForObject m = Key (om_kind m) (GetNamespacedName m)"

definition NewTLSSecretsMap :: tls_secrets_map where
  "NewTLSSecretsMap = \<lparr>deps = [], reverseDeps = []\<rparr>"

definition Reset :: "tls_secrets_map \<Rightarrow> tls_secrets_map" where
  "Reset m = m\<lparr>deps := [], reverseDeps := []\<rparr>"

definition slookup :: "('a, 'b list) gomap \<Rightarrow> 'a \<Rightarrow> 'b list" where
  "slookup m k = (case map_of m k of None \<Rightarrow> [] | Some s \<Rightarrow> s)"

definition ensureMapEntry :: "('a, 'b list) gomap \<Rightarrow> 'a \<Rightarrow> ('a, 'b list) gomap" where
  "ensureMapEntry m k = (if map_of m k = None then AList.update k [] m else m)"

text \<open>\<^verbatim>\<open>delete(m[k], x)\<close>: nothing happens when the inner map is nil.\<close>

definition sremove :: "('a, 'b list) gomap \<Rightarrow> 'a \<Rightarrow> 'b \<Rightarrow> ('a, 'b list) gomap" where
  "sremove m k x = (case map_of m k of None \<Rightarrow> m | Some s \<Rightarrow> AList.update k (removeAll x s) m)"

definition sinsert :: "('a, 'b list) gomap \<Rightarrow> 'a \<Rightarrow> 'b \<Rightarrow> ('a, 'b list) gomap" where
  "sinsert m k x = (let m' = ensureMapEntry m k in AList.update k (List.insert x (slookup m' k)) m')"

fun removeReverseDeps_loop ::
  "key \<Rightarrow> (namespaced_name, key list) gomap \<Rightarrow> namespaced_name list \<Rightarrow> namespaced_name list
     \<Rightarrow> (namespaced_name, key list) gomap \<times> namespaced_name list" where
  "removeReverseDeps_loop n rd [] unref = (rd, unref)"
| "removeReverseDeps_loop n rd (s # ss) unref =
     (let rd' = sremove rd s n
      in removeReverseDeps_loop n rd' ss (if slookup rd' s = [] then unref @ [s] else unref))"

definition removeReverseDeps ::
  "tls_secrets_map \<Rightarrow> key \<Rightarrow> namespaced_name list \<Rightarrow> tls_secrets_map \<times> namespaced_name list" where
  "removeReverseDeps m n previousSecrets =
     (case removeReverseDeps_loop n (reverseDeps m) previousSecrets [] of
        (rd, unref) \<Rightarrow> (m\<lparr>reverseDeps := rd\<rparr>, unref))"

text \<open>
  The loop over the new dependencies adds the reverse entries and drops each new dependency from
  the previous ones, so that only the dependencies that are gone remain.
\<close>

definition UpdateEntity ::
  "tls_secrets_map \<Rightarrow> key \<Rightarrow> namespaced_name list \<Rightarrow> tls_secrets_map \<times> namespaced_name list" where
  "UpdateEntity m n newDeps =
     (let previousSecrets = slookup (deps m) n;
          (rd, prev) = foldl (\<lambda>(rd, prev) s. (sinsert rd s n, removeAll s prev))
                         (reverseDeps m, previousSecrets) newDeps
      in removeReverseDeps (m\<lparr>deps := AList.update n newDeps (deps m), reverseDeps := rd\<rparr>) n prev)"

definition RemoveEntity :: "tls_secrets_map \<Rightarrow> key \<Rightarrow> tls_secrets_map \<times> namespaced_name list" where
  "RemoveEntity m n =
     removeReverseDeps (m\<lparr>deps := AList.update n [] (deps m)\<rparr>) n (slookup (deps m) n)"

definition tls_Add :: "tls_secrets_map \<Rightarrow> key \<Rightarrow> namespaced_name \<Rightarrow> tls_secrets_map" where
  "tls_Add m entity secret =
     m\<lparr>deps := sinsert (deps m) entity secret, reverseDeps := sinsert (reverseDeps m) secret entity\<rparr>"

text \<open>The entities: an ingress with its fetched secrets, the settings, the Gateway configuration.\<close>

definition UpdateIngress ::
  "tls_secrets_map \<Rightarrow> object_meta \<Rightarrow> (namespaced_name, secret) gomap \<Rightarrow> tls_secrets_map \<times> namespaced_name list" where
  "UpdateIngress m meta secrets =
     UpdateEntity m (KeyForObject meta)
       (foldl (\<lambda>cur (n, s). if sec_type s = SecretTypeTLS then List.insert n cur else cur) [] secrets)"

definition UpdateConfig ::
  "tls_secrets_map \<Rightarrow> object_meta \<Rightarrow> (namespaced_name, secret) gomap \<Rightarrow> secret list
     \<Rightarrow> tls_secrets_map \<times> namespaced_name list" where
  "UpdateConfig m meta certs caSecrets =
     UpdateEntity m (KeyForObject meta)
       (foldl (\<lambda>cur s. List.insert (GetNamespacedName (sec_meta s)) cur)
         (foldl (\<lambda>cur (n, s). List.insert n cur) [] certs) caSecrets)"

definition gatewayConfigKey :: key where
  "gatewayConfigKey = Key ''GatewayConfig'' (NamespacedName [] [])"

definition UpdateGatewayConfig ::
  "tls_secrets_map \<Rightarrow> secret list \<Rightarrow> tls_secrets_map \<times> namespaced_name list" where
  "UpdateGatewayConfig m certificates =
     UpdateEntity m gatewayConfigKey
       (foldl (\<lambda>cur s. List.insert (GetNamespacedName (sec_meta s)) cur) [] certificates)"

subsection \<open>Specification\<close>

text \<open>The abstract state: a relation between entities and secrets.\<close>

definition refs :: "tls_secrets_map \<Rightarrow> (key \<times> namespaced_name) set" where
  "refs m = {(n, s). s \<in> set (slookup (deps m) n)}"

definition referenced :: "tls_secrets_map \<Rightarrow> namespaced_name set" where
  "referenced m = snd ` refs m"

definition tls_inv :: "tls_secrets_map \<Rightarrow> bool" where
  "tls_inv m \<longleftrightarrow> wf_map (deps m) \<and> wf_map (reverseDeps m) \<and>
     (\<forall>n s. s \<in> set (slookup (deps m) n) \<longleftrightarrow> n \<in> set (slookup (reverseDeps m) s))"

text \<open>A history of updates: the final state, and all secrets reported on the way.\<close>

fun update_all :: "('m \<Rightarrow> 'e \<Rightarrow> 's list \<Rightarrow> 'm \<times> 's list) \<Rightarrow> 'm \<Rightarrow> ('e \<times> 's list) list \<Rightarrow> 'm \<times> 's list" where
  "update_all up m [] = (m, [])"
| "update_all up m ((e, ss) # us) = (let (m', l) = up m e ss; (m'', l') = update_all up m' us in (m'', l @ l'))"

text \<open>
  The contract: an entity's references are replaced as a whole, and the operation reports the
  secrets that were referenced before and are not any more.
\<close>

locale reference_tracker =
  fixes rel :: "'m \<Rightarrow> ('e \<times> 's) set"
    and invar :: "'m \<Rightarrow> bool"
    and update :: "'m \<Rightarrow> 'e \<Rightarrow> 's list \<Rightarrow> 'm \<times> 's list"
  assumes invar_update: "invar m \<Longrightarrow> invar (fst (update m e ss))"
    and rel_update: "invar m \<Longrightarrow> rel (fst (update m e ss)) = {(e', s) \<in> rel m. e' \<noteq> e} \<union> {e} \<times> set ss"
    and lost_update: "invar m \<Longrightarrow> set (snd (update m e ss)) = Range (rel m) - Range (rel (fst (update m e ss)))"
begin

text \<open>A secret is reported lost only after its last reference went away, whoever held it.\<close>

lemma lost_not_referenced:
  "invar m \<Longrightarrow> s \<in> set (snd (update m e ss)) \<Longrightarrow> (e', s) \<notin> rel (fst (update m e ss))"
  by (auto simp: lost_update)

lemma update_same: "invar m \<Longrightarrow> set ss = {s. (e, s) \<in> rel m} \<Longrightarrow> rel (fst (update m e ss)) = rel m \<and> snd (update m e ss) = []"
proof -
  assume inv: "invar m" and eq: "set ss = {s. (e, s) \<in> rel m}"
  then have "rel (fst (update m e ss)) = rel m" by (auto simp: rel_update)
  moreover from this have "set (snd (update m e ss)) = {}" by (simp add: lost_update inv)
  ultimately show ?thesis by simp
qed

text \<open>
  Over a whole history of updates nothing is forgotten: every secret that was ever referenced is
  still referenced or has been reported lost.
\<close>

lemma updates_accounted:
  "invar m \<Longrightarrow> Range (rel m) \<union> (\<Union>(e, ss) \<in> set us. set ss)
     \<subseteq> Range (rel (fst (update_all update m us))) \<union> set (snd (update_all update m us))"
proof (induction us arbitrary: m)
  case (Cons u us)
  obtain e ss where u: "u = (e, ss)" by (cases u)
  let ?m = "fst (update m e ss)"
  have eqs: "fst (update_all update m (u # us)) = fst (update_all update ?m us)"
    "snd (update_all update m (u # us)) = snd (update m e ss) @ snd (update_all update ?m us)"
    by (simp_all add: u Let_def case_prod_unfold)
  have "Range (rel m) \<union> set ss \<subseteq> Range (rel ?m) \<union> set (snd (update m e ss))"
    using lost_update [OF Cons.prems, of e ss] rel_update [OF Cons.prems, of e ss] by auto
  moreover have "Range (rel ?m) \<union> (\<Union>(e, ss) \<in> set us. set ss)
      \<subseteq> Range (rel (fst (update_all update ?m us))) \<union> set (snd (update_all update ?m us))"
    using Cons.IH invar_update Cons.prems by blast
  moreover have "(\<Union>(e, ss) \<in> set (u # us). set ss) = set ss \<union> (\<Union>(e, ss) \<in> set us. set ss)"
    by (simp add: u)
  ultimately show ?case
    unfolding eqs set_append by (simp only: union_subset_trans)
qed simp

end

subsection \<open>Lemmas\<close>

lemma slookup_update [simp]: "slookup (AList.update k v m) k' = (if k' = k then v else slookup m k')"
  by (simp add: slookup_def gomap_simps)

lemma slookup_ensure [simp]: "slookup (ensureMapEntry m k) k' = slookup m k'"
  by (simp add: ensureMapEntry_def slookup_def gomap_simps)

lemma slookup_sinsert: "set (slookup (sinsert m k x) k') = set (slookup m k') \<union> (if k' = k then {x} else {})"
  by (auto simp: sinsert_def Let_def)

lemma slookup_sremove: "set (slookup (sremove m k x) k') = set (slookup m k') - (if k' = k then {x} else {})"
proof (cases "map_of m k")
  case None
  then show ?thesis by (simp add: sremove_def) (simp add: slookup_def)
next
  case (Some s)
  then have "slookup m k = s" by (simp add: slookup_def)
  with Some show ?thesis by (simp add: sremove_def)
qed

lemma wf_map_sinsert [simp]: "wf_map m \<Longrightarrow> wf_map (sinsert m k x)"
  by (simp add: sinsert_def Let_def ensureMapEntry_def)

lemma wf_map_sremove [simp]: "wf_map m \<Longrightarrow> wf_map (sremove m k x)"
  by (simp add: sremove_def split: option.split)

lemmas slookup_simps = slookup_sinsert slookup_sremove

lemma removeReverseDeps_loop_spec:
  assumes "removeReverseDeps_loop n rd ss unref = (rd', unref')"
  shows "wf_map rd \<Longrightarrow> wf_map rd'"
    and "set (slookup rd' s) = set (slookup rd s) - (if s \<in> set ss then {n} else {})"
    and "set unref' = set unref \<union> {s \<in> set ss. set (slookup rd s) \<subseteq> {n}}"
proof -
  have "(wf_map rd \<longrightarrow> wf_map rd') \<and>
    (\<forall>s. set (slookup rd' s) = set (slookup rd s) - (if s \<in> set ss then {n} else {})) \<and>
    set unref' = set unref \<union> {s \<in> set ss. set (slookup rd s) \<subseteq> {n}}"
    using assms
  proof (induction n rd ss unref arbitrary: rd' unref' rule: removeReverseDeps_loop.induct)
    case (2 n rd s ss unref)
    let ?rd = "sremove rd s n"
    have empty: "slookup ?rd s = [] \<longleftrightarrow> set (slookup rd s) \<subseteq> {n}"
      using slookup_sremove [of rd s n s] by (auto simp flip: set_empty)
    have shrink: "set (slookup ?rd t) \<subseteq> {n} \<longleftrightarrow> set (slookup rd t) \<subseteq> {n}" for t
      by (auto simp: slookup_sremove)
    define u where "u = (if slookup ?rd s = [] then unref @ [s] else unref)"
    have run: "removeReverseDeps_loop n ?rd ss u = (rd', unref')"
      using "2.prems" by (simp add: Let_def u_def)
    have IH: "(wf_map ?rd \<longrightarrow> wf_map rd') \<and>
      (\<forall>t. set (slookup rd' t) = set (slookup ?rd t) - (if t \<in> set ss then {n} else {})) \<and>
      set unref' = set u \<union> {t \<in> set ss. set (slookup ?rd t) \<subseteq> {n}}"
      using "2.IH" [OF refl, of rd' unref'] run by (simp add: u_def)
    have "set u = set unref \<union> (if set (slookup rd s) \<subseteq> {n} then {s} else {})"
      by (simp add: u_def empty)
    with IH show ?case
      unfolding shrink slookup_sremove by auto
  qed simp
  then show "wf_map rd \<Longrightarrow> wf_map rd'"
    and "set (slookup rd' s) = set (slookup rd s) - (if s \<in> set ss then {n} else {})"
    and "set unref' = set unref \<union> {s \<in> set ss. set (slookup rd s) \<subseteq> {n}}" by simp_all
qed

lemma UpdateEntity_fold:
  assumes "foldl (\<lambda>(rd, prev) s. (sinsert rd s n, removeAll s prev)) (rd, prev) ss = (rd', prev')"
  shows "wf_map rd \<Longrightarrow> wf_map rd'"
    and "set (slookup rd' s) = set (slookup rd s) \<union> (if s \<in> set ss then {n} else {})"
    and "set prev' = set prev - set ss"
proof -
  have "(wf_map rd \<longrightarrow> wf_map rd') \<and>
    (\<forall>s. set (slookup rd' s) = set (slookup rd s) \<union> (if s \<in> set ss then {n} else {})) \<and>
    set prev' = set prev - set ss"
    using assms by (induction ss arbitrary: rd prev) (auto simp: slookup_sinsert)
  then show "wf_map rd \<Longrightarrow> wf_map rd'"
    and "set (slookup rd' s) = set (slookup rd s) \<union> (if s \<in> set ss then {n} else {})"
    and "set prev' = set prev - set ss" by simp_all
qed

text \<open>What one update does to both maps and to the result, in one statement.\<close>

lemma UpdateEntity_maps:
  assumes inv: "tls_inv m" and up: "UpdateEntity m n newDeps = (m', unref)"
  shows "wf_map (deps m')" "wf_map (reverseDeps m')"
    "set (slookup (deps m') e) = (if e = n then set newDeps else set (slookup (deps m) e))"
    "set (slookup (reverseDeps m') s) =
       (if s \<in> set newDeps then insert n (set (slookup (reverseDeps m) s))
        else set (slookup (reverseDeps m) s) - {n})"
    "s \<in> set unref \<longleftrightarrow> s \<in> set (slookup (deps m) n) \<and> s \<notin> set newDeps \<and> set (slookup (reverseDeps m) s) \<subseteq> {n}"
proof -
  obtain rd prev where f: "foldl (\<lambda>(rd, prev) s. (sinsert rd s n, removeAll s prev))
      (reverseDeps m, slookup (deps m) n) newDeps = (rd, prev)" by fastforce
  obtain rd' where l: "removeReverseDeps_loop n rd prev [] = (rd', unref)"
    and m': "m' = m\<lparr>deps := AList.update n newDeps (deps m), reverseDeps := rd'\<rparr>"
    using up f by (auto simp: UpdateEntity_def removeReverseDeps_def Let_def split: prod.splits)
  have wf: "wf_map (deps m)" "wf_map (reverseDeps m)"
    and sym: "\<And>s. s \<in> set (slookup (deps m) n) \<longleftrightarrow> n \<in> set (slookup (reverseDeps m) s)"
    using inv by (auto simp: tls_inv_def)
  note F = UpdateEntity_fold [OF f] and L = removeReverseDeps_loop_spec [OF l]
  show "wf_map (deps m')" using wf by (simp add: m')
  show "wf_map (reverseDeps m')" using F(1) L(1) wf by (simp add: m')
  show "set (slookup (deps m') e) = (if e = n then set newDeps else set (slookup (deps m) e))"
    by (simp add: m')
  show "set (slookup (reverseDeps m') s) =
       (if s \<in> set newDeps then insert n (set (slookup (reverseDeps m) s))
        else set (slookup (reverseDeps m) s) - {n})"
    using L(2) [of s] F(2) [of s] F(3) sym by (auto simp: m')
  show "s \<in> set unref \<longleftrightarrow> s \<in> set (slookup (deps m) n) \<and> s \<notin> set newDeps \<and> set (slookup (reverseDeps m) s) \<subseteq> {n}"
    using L(3) F(2) [of s] F(3) by auto
qed

lemma tls_inv_UpdateEntity:
  assumes "tls_inv m" and "UpdateEntity m n newDeps = (m', unref)"
  shows "tls_inv m'"
  using assms(1) UpdateEntity_maps [OF assms] by (auto simp: tls_inv_def)

lemma refs_UpdateEntity:
  assumes "tls_inv m" and "UpdateEntity m n newDeps = (m', unref)"
  shows "refs m' = {(e, s) \<in> refs m. e \<noteq> n} \<union> {n} \<times> set newDeps"
  using UpdateEntity_maps(3) [OF assms] by (auto simp: refs_def split: if_splits)

lemma unref_UpdateEntity:
  assumes "tls_inv m" and "UpdateEntity m n newDeps = (m', unref)"
  shows "set unref = Range (refs m) - Range (refs m')"
proof -
  have sym: "\<And>e s. (e, s) \<in> refs m \<longleftrightarrow> e \<in> set (slookup (reverseDeps m) s)"
    using assms(1) by (auto simp: tls_inv_def refs_def)
  have "s \<in> set unref \<longleftrightarrow> s \<in> Range (refs m) - Range (refs m')" for s
  proof -
    have "s \<in> set unref \<longleftrightarrow> (n, s) \<in> refs m \<and> s \<notin> set newDeps \<and> (\<forall>e. (e, s) \<in> refs m \<longrightarrow> e = n)"
      using UpdateEntity_maps(5) [OF assms, of s] sym by (auto simp: refs_def)
    then show ?thesis unfolding refs_UpdateEntity [OF assms] by auto
  qed
  then show ?thesis by blast
qed

text \<open>Removing an entity is updating it to no dependencies.\<close>

lemma RemoveEntity_eq_Update: "RemoveEntity m n = UpdateEntity m n []"
  by (cases m) (simp add: RemoveEntity_def UpdateEntity_def Let_def)

interpretation tls: reference_tracker refs tls_inv UpdateEntity
proof unfold_locales
  fix m e ss
  assume inv: "tls_inv m"
  have up: "UpdateEntity m e ss = (fst (UpdateEntity m e ss), snd (UpdateEntity m e ss))" by simp
  show "tls_inv (fst (UpdateEntity m e ss))" by (rule tls_inv_UpdateEntity [OF inv up])
  show "refs (fst (UpdateEntity m e ss)) = {(e', s) \<in> refs m. e' \<noteq> e} \<union> {e} \<times> set ss"
    by (rule refs_UpdateEntity [OF inv up])
  show "set (snd (UpdateEntity m e ss)) = Range (refs m) - Range (refs (fst (UpdateEntity m e ss)))"
    by (rule unref_UpdateEntity [OF inv up])
qed

lemma tls_inv_New: "tls_inv NewTLSSecretsMap"
  by (simp add: tls_inv_def NewTLSSecretsMap_def slookup_def)

lemma tls_inv_Reset: "tls_inv (Reset m)"
  by (simp add: tls_inv_def Reset_def slookup_def)

lemma tls_inv_Add: "tls_inv m \<Longrightarrow> tls_inv (tls_Add m e s)"
  by (auto simp: tls_inv_def tls_Add_def slookup_sinsert)

lemma refs_Add: "refs (tls_Add m e s) = insert (e, s) (refs m)"
  by (auto simp: refs_def tls_Add_def slookup_sinsert split: if_splits)

lemma collect_tls_secrets:
  "set (foldl (\<lambda>cur (n, s). if sec_type s = SecretTypeTLS then List.insert n cur else cur) acc secrets) =
     set acc \<union> {n. \<exists>s. (n, s) \<in> set secrets \<and> sec_type s = SecretTypeTLS}"
  by (induction secrets arbitrary: acc) auto

subsection \<open>Properties\<close>

text \<open>C8: \<^verbatim>\<open>UpdateEntity\<close> refines the abstract update of a relation between entities and secrets:
  the entity's references become exactly the new ones, every other entity keeps its references, and
  the secrets returned are exactly those that were referenced before and are referenced by no
  entity any more; the forward and reverse maps stay consistent.\<close>

theorem UpdateEntity_refines:
  assumes "tls_inv m"
  shows "tls_inv (fst (UpdateEntity m n newDeps)) \<and>
    refs (fst (UpdateEntity m n newDeps)) = {(e, s) \<in> refs m. e \<noteq> n} \<union> {n} \<times> set newDeps \<and>
    set (snd (UpdateEntity m n newDeps)) = referenced m - referenced (fst (UpdateEntity m n newDeps))"
  using tls.invar_update [OF assms] tls.rel_update [OF assms] tls.lost_update [OF assms]
  by (simp add: referenced_def Range_snd)

definition ex_nn :: "string \<Rightarrow> namespaced_name" where
  "ex_nn n = NamespacedName ''ns'' n"

definition ex_secrets_map :: tls_secrets_map where
  "ex_secrets_map = tls_Add (tls_Add NewTLSSecretsMap ex_ingress (ex_nn ''a'')) ex_service (ex_nn ''b'')"

lemma ex_secrets_map_inv: "tls_inv ex_secrets_map"
  by (simp add: ex_secrets_map_def tls_inv_Add tls_inv_New)

theorem UpdateEntity_refines_witness:
  "tls_inv ex_secrets_map \<and> snd (UpdateEntity ex_secrets_map ex_ingress [ex_nn ''b'']) = [ex_nn ''a''] \<and>
   set (snd (UpdateEntity ex_secrets_map ex_ingress [ex_nn ''b''])) =
     referenced ex_secrets_map - referenced (fst (UpdateEntity ex_secrets_map ex_ingress [ex_nn ''b'']))"
proof -
  have "snd (UpdateEntity ex_secrets_map ex_ingress [ex_nn ''b'']) = [ex_nn ''a'']"
    by code_simp
  then show ?thesis
    using ex_secrets_map_inv UpdateEntity_refines [OF ex_secrets_map_inv, of ex_ingress "[ex_nn ''b'']"]
    by blast
qed

text \<open>An ingress that is updated references exactly its secrets of type TLS, and a secret that
  another entity still references is never reported as unreferenced, so its key pair is kept.\<close>

theorem UpdateIngress_keeps_shared:
  assumes "tls_inv m" and "(e, s) \<in> refs m" and "e \<noteq> KeyForObject meta"
  shows "s \<notin> set (snd (UpdateIngress m meta secrets)) \<and>
    (\<forall>n. (KeyForObject meta, n) \<in> refs (fst (UpdateIngress m meta secrets)) \<longleftrightarrow>
      (\<exists>sec. (n, sec) \<in> set secrets \<and> sec_type sec = SecretTypeTLS))"
proof -
  let ?new = "foldl (\<lambda>cur (n, s). if sec_type s = SecretTypeTLS then List.insert n cur else cur) [] secrets"
  have new: "set ?new = {n. \<exists>s. (n, s) \<in> set secrets \<and> sec_type s = SecretTypeTLS}"
    by (simp add: collect_tls_secrets)
  have rel: "refs (fst (UpdateEntity m (KeyForObject meta) ?new)) =
      {(e, s) \<in> refs m. e \<noteq> KeyForObject meta} \<union> {KeyForObject meta} \<times> set ?new"
    by (rule tls.rel_update [OF assms(1)])
  then have "(e, s) \<in> refs (fst (UpdateEntity m (KeyForObject meta) ?new))"
    using assms(2,3) by auto
  then have "s \<notin> set (snd (UpdateEntity m (KeyForObject meta) ?new))"
    using tls.lost_not_referenced [OF assms(1)] by blast
  then show ?thesis
    unfolding UpdateIngress_def rel by (auto simp: new)
qed

theorem UpdateIngress_keeps_shared_witness:
  "ex_nn ''b'' \<notin> set (snd (UpdateIngress ex_secrets_map (new_meta ''Ingress'' ''ns'' ''web'') []))"
proof -
  have r: "(ex_service, ex_nn ''b'') \<in> refs ex_secrets_map"
    by (simp add: ex_secrets_map_def refs_Add)
  have n: "ex_service \<noteq> KeyForObject (new_meta ''Ingress'' ''ns'' ''web'')"
    by (simp add: ex_service_def KeyForObject_def new_meta_def)
  show ?thesis using UpdateIngress_keeps_shared [OF ex_secrets_map_inv r n] by blast
qed

text \<open>Removing an entity drops its references and reports exactly the secrets only it used.\<close>

theorem RemoveEntity_spec:
  assumes "tls_inv m"
  shows "tls_inv (fst (RemoveEntity m n)) \<and> refs (fst (RemoveEntity m n)) = {(e, s) \<in> refs m. e \<noteq> n} \<and>
    set (snd (RemoveEntity m n)) = {s. (n, s) \<in> refs m \<and> (\<forall>e. (e, s) \<in> refs m \<longrightarrow> e = n)}"
  unfolding RemoveEntity_eq_Update
  using tls.invar_update [OF assms, of n "[]"] tls.rel_update [OF assms, of n "[]"] tls.lost_update [OF assms, of n "[]"]
  by auto

theorem RemoveEntity_spec_witness:
  "tls_inv ex_secrets_map \<and>
   refs (fst (RemoveEntity ex_secrets_map ex_ingress)) = {(e, s) \<in> refs ex_secrets_map. e \<noteq> ex_ingress}"
  using ex_secrets_map_inv RemoveEntity_spec [OF ex_secrets_map_inv, of ex_ingress] by blast

text \<open>Over any sequence of entity updates no secret is lost track of: every secret referenced
  at the start or by some update is still referenced at the end or was reported unreferenced on the
  way, so every key pair that was created for a secret is eventually kept or deleted.\<close>

theorem UpdateEntity_history_accounted:
  assumes "tls_inv m"
  shows "referenced m \<union> (\<Union>(e, ss) \<in> set us. set ss) \<subseteq>
    referenced (fst (update_all UpdateEntity m us)) \<union> set (snd (update_all UpdateEntity m us))"
  using tls.updates_accounted [OF assms, of us] by (simp add: referenced_def Range_snd)

theorem UpdateEntity_history_accounted_witness:
  "tls_inv ex_secrets_map \<and> referenced ex_secrets_map \<subseteq>
    referenced (fst (update_all UpdateEntity ex_secrets_map [])) \<union>
      set (snd (update_all UpdateEntity ex_secrets_map []))"
  using ex_secrets_map_inv UpdateEntity_history_accounted [OF ex_secrets_map_inv, of "[]"] by simp

end
