(* ===== verification/Api_Sync.thy ===== *)
theory Api_Sync
  imports Api_Resources Ingress_To_Policy Secrets_Map Settings
begin

text \<open>
  The reconciler of \<^verbatim>\<open>pomerium/sync_api.go\<close>: ingresses, secrets and settings become resources of the unified API. The
  id of each resource is kept in an annotation of the Kubernetes object it was made from, which is patched at the
  end. The API, the Kubernetes client and the packages that encode messages are the record \<open>api_env\<close>; the state is
  that of the two services, with the map of secrets that the reconciler keeps.
\<close>

subsection \<open>The environment\<close>

text \<open>
  Objects are read and patched through their metadata: the reconciler changes nothing else, and reads the spec
  only of objects it is given. A patch takes the original and the changed object and returns what the server has.
\<close>

record 'w k8s_client =
  kc_Get :: "string \<Rightarrow> namespaced_name \<Rightarrow> ('w, api_error, object_meta) action"
  kc_Patch :: "string \<Rightarrow> object_meta \<Rightarrow> object_meta \<Rightarrow> ('w, api_error, object_meta) action"

record api_settings =
  as_settings :: pb_settings
  as_Id :: "string option"
  as_NamespaceId :: "string option"
  as_AutoApplyChangesets :: "bool option"
  as_AutocertDir :: "string option"
  as_RuntimeFlags :: "(string, bool) gomap"
  as_CreatedAt :: "string option"
  as_ModifiedAt :: "string option"

record 'w api_env =
  ae_api :: "'w pom_api"
  ae_k8s :: "'w k8s_client"
  ae_GetSettings :: "string option \<Rightarrow> ('w, rpc_error, api_settings) action"
  ae_UpdateSettings :: "api_settings \<Rightarrow> ('w, rpc_error, unit) action"
  ae_namespaceID :: "string option"
  ae_ann :: ann_env
  ae_ppl :: ppl_env
  ae_slug :: "string \<Rightarrow> string"
  ae_order :: "nat \<Rightarrow> nat list"
  ae_marshal_route :: "api_route \<Rightarrow> string option"
  ae_marshal_policy :: "api_policy \<Rightarrow> string option"
  ae_settings :: settings_env
  ae_merge_settings :: "pb_settings \<Rightarrow> string + api_settings"

definition apiRouteIDAnnotationPrefix :: string where "apiRouteIDAnnotationPrefix = ''api.pomerium.io/route-id-''"
definition apiPolicyIDAnnotation :: string where "apiPolicyIDAnnotation = ''api.pomerium.io/policy-id''"
definition apiKeyPairIDAnnotation :: string where "apiKeyPairIDAnnotation = ''api.pomerium.io/keypair-id''"
definition apiFinalizer :: string where "apiFinalizer = ''api.pomerium.io/finalizer''"

subsection \<open>Annotations and finalizers\<close>

definition annotation :: "object_meta \<Rightarrow> string \<Rightarrow> string" where
  "annotation m k = mget_str (om_annotations m) k"

definition set_annotation :: "object_meta \<Rightarrow> string \<Rightarrow> string \<Rightarrow> object_meta" where
  "set_annotation m k v = m\<lparr>om_annotations := AList.update k v (om_annotations m)\<rparr>"

definition delete_annotation :: "object_meta \<Rightarrow> string \<Rightarrow> object_meta" where
  "delete_annotation m k = m\<lparr>om_annotations := AList.delete k (om_annotations m)\<rparr>"

text \<open>\<^verbatim>\<open>controllerutil.AddFinalizer\<close> and \<^verbatim>\<open>RemoveFinalizer\<close>, with whether the object changed.\<close>

definition AddFinalizer :: "object_meta \<Rightarrow> string \<Rightarrow> object_meta \<times> bool" where
  "AddFinalizer m f =
     (if f \<in> set (om_finalizers m) then (m, False) else (m\<lparr>om_finalizers := om_finalizers m @ [f]\<rparr>, True))"

definition RemoveFinalizer :: "object_meta \<Rightarrow> string \<Rightarrow> object_meta \<times> bool" where
  "RemoveFinalizer m f = (m\<lparr>om_finalizers := filter (\<lambda>x. x \<noteq> f) (om_finalizers m)\<rparr>, f \<in> set (om_finalizers m))"

definition routeIDAnnotationForIndex :: "nat \<Rightarrow> string" where
  "routeIDAnnotationForIndex i = apiRouteIDAnnotationPrefix @ show_nat i"

definition allRouteIDAnnotations :: "(string, string) gomap \<Rightarrow> string list" where
  "allRouteIDAnnotations annotations = filter (\<lambda>k. HasPrefix k apiRouteIDAnnotationPrefix) (remdups (map fst annotations))"

definition keyPairName :: "(string \<Rightarrow> string) \<Rightarrow> namespaced_name \<Rightarrow> string" where
  "keyPairName slug n = slug (Namespace n @ '' '' @ Name n)"

subsection \<open>Secrets\<close>

text \<open>The result has the secret as the code leaves it in memory.\<close>

definition syncOneSecret :: "'w api_env \<Rightarrow> secret \<Rightarrow> ('w, api_sync_error, bool \<times> secret) action" where
  "syncOneSecret E secret =
     (let cert = (case map_of (sec_data secret) TLSCertKey of None \<Rightarrow> secret_get secret CAKey | Some c \<Rightarrow> c);
          m = sec_meta secret;
          i = annotation m apiKeyPairIDAnnotation;
          keyPair = \<lparr>kp_Id = (if i \<noteq> [] then Some i else None), kp_Name = Some (keyPairName (ae_slug E) (GetNamespacedName m)),
            kp_NamespaceId = ae_namespaceID E, kp_OriginatorId = Some originatorID, kp_Certificate = cert,
            kp_Key = secret_get secret TLSPrivateKeyKey, kp_CreatedAt = None, kp_ModifiedAt = None,
            kp_CertificateInfo = [], kp_Origin = 0, kp_Status = 0\<rparr>
      in act_bind (upsertKeyPair (ae_api E) (ae_namespaceID E) keyPair) (\<lambda>(changed, i').
           if \<not> changed then act_return (False, secret)
           else let m' = fst (AddFinalizer (set_annotation m apiKeyPairIDAnnotation (deref_str i')) apiFinalizer)
                in act_bind (act_map_error ErrK8s (kc_Patch (ae_k8s E) SecretKind m m')) (\<lambda>m''.
                     act_return (True, secret\<lparr>sec_meta := m''\<rparr>))))"

text \<open>The secrets in order up to the first error: the state, whether anything changed before, and the secrets.\<close>

fun syncSecrets :: "'w api_env \<Rightarrow> secret list \<Rightarrow> 'w \<Rightarrow> 'w \<times> bool \<times> (api_sync_error + secret list)" where
  "syncSecrets E [] w = (w, False, Inr [])"
| "syncSecrets E (s # ss) w =
     (case syncOneSecret E s w of
        (w', Inl e) \<Rightarrow> (w', False, Inl e)
      | (w', Inr (changed, s')) \<Rightarrow>
          (case syncSecrets E ss w' of
             (w'', anyChanges, Inl e) \<Rightarrow> (w'', changed \<or> anyChanges, Inl e)
           | (w'', anyChanges, Inr ss') \<Rightarrow> (w'', changed \<or> anyChanges, Inr (s' # ss'))))"

definition deleteKeyPairForSecret :: "'w api_env \<Rightarrow> namespaced_name \<Rightarrow> ('w, api_sync_error, unit) action" where
  "deleteKeyPairForSecret E n =
     act_bind (act_attempt (kc_Get (ae_k8s E) SecretKind n)) (\<lambda>got.
     act_bind (case got of
                 Inr m \<Rightarrow> act_return (Some m)
               | Inl e \<Rightarrow> if IsNotFound e then act_return None else act_fail (ErrK8s e)) (\<lambda>secret.
     let i = (case secret of None \<Rightarrow> [] | Some m \<Rightarrow> annotation m apiKeyPairIDAnnotation) in
     act_bind (if i \<noteq> [] then act_return i
               else act_bind (act_attempt (findKeyPairByName (ae_api E) (keyPairName (ae_slug E) n))) (\<lambda>r.
                 case r of
                   Inr keypair \<Rightarrow> act_return (deref_str (kp_Id keypair))
                 | Inl e \<Rightarrow> if CodeOf e \<noteq> CodeNotFound then act_fail e else act_return [])) (\<lambda>keyPairID.
     act_bind (if keyPairID \<noteq> [] then deleteKeyPair (ae_api E) keyPairID else act_return ()) (\<lambda>_.
       case secret of
         None \<Rightarrow> act_return ()
       | Some m \<Rightarrow>
           act_bind (act_map_error ErrK8s (kc_Patch (ae_k8s E) SecretKind m
               (fst (RemoveFinalizer (delete_annotation m apiKeyPairIDAnnotation) apiFinalizer))))
             (\<lambda>_. act_return ())))))"

fun deleteKeyPairsForSecrets ::
  "'w api_env \<Rightarrow> namespaced_name list \<Rightarrow> 'w \<Rightarrow> 'w \<times> bool \<times> api_sync_error option" where
  "deleteKeyPairsForSecrets E [] w = (w, False, None)"
| "deleteKeyPairsForSecrets E (n # ns) w =
     (case deleteKeyPairForSecret E n w of
        (w', Inl e) \<Rightarrow> (w', False, Some e)
      | (w', Inr _) \<Rightarrow> (case deleteKeyPairsForSecrets E ns w' of (w'', _, err) \<Rightarrow> (w'', True, err)))"

subsection \<open>The routes and the policy of an object\<close>

text \<open>
  While one object is processed: the services, the object as changed in memory, and what the code notes in
  \<^verbatim>\<open>changed\<close>. An error keeps all three, since the object is patched also after an error.
\<close>

record 'w obj_run =
  or_world :: 'w
  or_meta :: object_meta
  or_changed :: bool

type_synonym ('w, 'a) obj_action = "('w obj_run, api_sync_error, 'a) action"

definition in_world :: "('w, api_sync_error, 'a) action \<Rightarrow> ('w, 'a) obj_action" where
  "in_world m s = (case m (or_world s) of (w', r) \<Rightarrow> (s\<lparr>or_world := w'\<rparr>, r))"

definition get_meta :: "('w, object_meta) obj_action" where
  "get_meta s = (s, Inr (or_meta s))"

definition change_meta :: "(object_meta \<Rightarrow> object_meta) \<Rightarrow> ('w, unit) obj_action" where
  "change_meta f s = (s\<lparr>or_meta := f (or_meta s)\<rparr>, Inr ())"

text \<open>\<^verbatim>\<open>changed = changed || b\<close>.\<close>

definition note_changed :: "bool \<Rightarrow> ('w, unit) obj_action" where
  "note_changed b s = (s\<lparr>or_changed := (or_changed s \<or> b)\<rparr>, Inr ())"

text \<open>\<^verbatim>\<open>deleteRoutes\<close>: up to the first error, with whether any route was deleted before it.\<close>

fun api_deleteRoutes ::
  "'w pom_api \<Rightarrow> string list \<Rightarrow> 'w \<times> object_meta \<Rightarrow> ('w \<times> object_meta) \<times> bool \<times> api_sync_error option" where
  "api_deleteRoutes A [] s = (s, False, None)"
| "api_deleteRoutes A (k # ks) (w, m) =
     (case deleteRoute A (annotation m k) w of
        (w', Inl e) \<Rightarrow> ((w', m), False, Some e)
      | (w', Inr _) \<Rightarrow> (case api_deleteRoutes A ks (w', delete_annotation m k) of (s, _, err) \<Rightarrow> (s, True, err)))"

text \<open>As an action of the object; \<open>always\<close> tells whether deletions before an error are noted.\<close>

definition delete_routes :: "'w pom_api \<Rightarrow> bool \<Rightarrow> string list \<Rightarrow> ('w, unit) obj_action" where
  "delete_routes A always ks s =
     (case api_deleteRoutes A ks (or_world s, or_meta s) of
        ((w, m), anyDeletes, err) \<Rightarrow>
          (s\<lparr>or_world := w, or_meta := m, or_changed := (or_changed s \<or> anyDeletes \<and> (always \<or> err = None))\<rparr>,
           case err of None \<Rightarrow> Inr () | Some e \<Rightarrow> Inl e))"

definition syncIngressPolicy :: "'w api_env \<Rightarrow> ann_keys \<Rightarrow> ('w, bool \<times> string) obj_action" where
  "syncIngressPolicy E kv =
     act_bind get_meta (\<lambda>m.
     let existingPolicyID = annotation m apiPolicyIDAnnotation;
         name = ae_slug E (om_namespace m @ '' '' @ om_name m @ '' policy'') in
     case keysToPolicy (ae_ann E) (ae_ppl E) kv name of
       Inl e \<Rightarrow> act_fail (ErrIngressPolicy e)
     | Inr None \<Rightarrow> act_return (False, [])
     | Inr (Some policy) \<Rightarrow>
         act_bind (in_world (convertProto (ae_marshal_policy E) (api_of_policy policy))) (\<lambda>p.
         let apiPolicy = p\<lparr>ap_NamespaceId := ae_namespaceID E, ap_OriginatorId := Some originatorID,
               ap_Id := (if existingPolicyID \<noteq> [] then Some existingPolicyID else ap_Id p)\<rparr> in
         act_bind (in_world (act_map_error ErrUpdatePolicy (upsertPolicy (ae_api E) (ae_namespaceID E) apiPolicy))) (\<lambda>(changed, i).
         let updatedPolicyID = deref_str i in
         act_bind (change_meta (\<lambda>m. set_annotation m apiPolicyIDAnnotation updatedPolicyID)) (\<lambda>_.
           act_return (changed, updatedPolicyID)))))"

definition deletePolicyForObject :: "'w pom_api \<Rightarrow> ('w, bool) obj_action" where
  "deletePolicyForObject A =
     act_bind get_meta (\<lambda>m.
     let policyID = annotation m apiPolicyIDAnnotation in
     if policyID = [] then act_return False
     else act_bind (in_world (deletePolicy A policyID)) (\<lambda>_.
          act_bind (change_meta (\<lambda>m. delete_annotation m apiPolicyIDAnnotation)) (\<lambda>_. act_return True)))"

subsection \<open>One ingress\<close>

text \<open>\<^verbatim>\<open>keyPairIDForAnnotation\<close>: no id without the annotation; the errors are collected.\<close>

definition keyPairIDForAnnotation :: "ingress_config \<Rightarrow> ann_keys \<Rightarrow> string \<Rightarrow> api_sync_error + string option" where
  "keyPairIDForAnnotation ic kv name =
     (case map_of (kv_TLS kv) name of
        None \<Rightarrow> Inr None
      | Some secretName \<Rightarrow>
          (case map_of (ic_Secrets ic) (NamespacedName (om_namespace (ic_meta ic)) secretName) of
             None \<Rightarrow> Inl (ErrSecretNotPassed secretName)
           | Some secret \<Rightarrow>
               let keyPairID = annotation (sec_meta secret) apiKeyPairIDAnnotation in
               if keyPairID = [] then Inl (ErrKeyPairIDMissing secretName) else Inr (Some keyPairID)))"

definition errors_of :: "('e + 'a) list \<Rightarrow> 'e list" where
  "errors_of rs = List.map_filter (\<lambda>r. case r of Inl e \<Rightarrow> Some e | Inr _ \<Rightarrow> None) rs"

record keypair_ids =
  ki_TlsCustomCa :: "string option"
  ki_TlsClient :: "string option"
  ki_TlsDownstreamClientCa :: "string option"

definition ingress_keypairs :: "ingress_config \<Rightarrow> ann_keys \<Rightarrow> api_sync_error + keypair_ids" where
  "ingress_keypairs ic kv =
     (let ca = keyPairIDForAnnotation ic kv TLSCustomCASecret;
          client = keyPairIDForAnnotation ic kv TLSClientSecret;
          dca = keyPairIDForAnnotation ic kv TLSDownstreamClientCASecret
      in case errors_of [ca, client, dca] of
           [] \<Rightarrow> ebind ca (\<lambda>a. ebind client (\<lambda>b. ebind dca (\<lambda>c.
                  Inr \<lparr>ki_TlsCustomCa = a, ki_TlsClient = b, ki_TlsDownstreamClientCa = c\<rparr>)))
         | es \<Rightarrow> Inl (ErrJoined es))"

text \<open>Inline policies become ids, inline key material becomes key pair ids, and there is no name for statistics.\<close>

definition api_ingress_route :: "string list \<Rightarrow> keypair_ids \<Rightarrow> string option \<Rightarrow> pb_route \<Rightarrow> api_route" where
  "api_ingress_route policyIDs kps i route =
     (api_of_route (route\<lparr>r_Id := i, r_Policies := [], r_TlsCustomCa := [], r_TlsClientCert := [], r_TlsClientKey := [],
        r_TlsDownstreamClientCa := [], r_StatName := None\<rparr>))
     \<lparr>ar_PolicyIds := policyIDs, ar_TlsCustomCaKeyPairId := ki_TlsCustomCa kps, ar_TlsClientKeyPairId := ki_TlsClient kps,
      ar_TlsDownstreamClientCaKeyPairId := ki_TlsDownstreamClientCa kps\<rparr>"

definition upsert_indexed_route ::
  "'w api_env \<Rightarrow> (string option \<Rightarrow> pb_route \<Rightarrow> api_route) \<Rightarrow> nat \<times> pb_route \<Rightarrow> ('w, unit) obj_action" where
  "upsert_indexed_route E build ir =
     (let k = routeIDAnnotationForIndex (fst ir) in
      act_bind get_meta (\<lambda>m.
      act_bind (in_world (upsertOneRoute (ae_api E) (ae_marshal_route E) (ae_namespaceID E)
          (build (emptyToNil (annotation m k)) (snd ir)))) (\<lambda>(changedRoute, i).
        case i of
          None \<Rightarrow> act_fail ErrNilPointer
        | Some j \<Rightarrow>
            act_bind (change_meta (\<lambda>m. if annotation m k \<noteq> j then set_annotation m k j else m)) (\<lambda>_.
              note_changed changedRoute))))"

fun act_each :: "('x \<Rightarrow> ('s, 'e, unit) action) \<Rightarrow> 'x list \<Rightarrow> ('s, 'e, unit) action" where
  "act_each f [] = act_return ()"
| "act_each f (x # xs) = act_bind (f x) (\<lambda>_. act_each f xs)"

text \<open>
  \<^verbatim>\<open>upsertOneIngress\<close> in three phases. First the finalizer, the policy and the ids of the key pairs; the result has
  the old and the new policy id.
\<close>

definition prepare_ingress :: "'w api_env \<Rightarrow> ingress_config \<Rightarrow> ('w, string \<times> string \<times> keypair_ids) obj_action" where
  "prepare_ingress E ic =
     act_bind get_meta (\<lambda>m.
     act_bind (note_changed (snd (AddFinalizer m apiFinalizer))) (\<lambda>_.
     act_bind (change_meta (\<lambda>m. fst (AddFinalizer m apiFinalizer))) (\<lambda>_.
     act_bind (act_lift (case removeKeyPrefix (om_annotations m) (AnnotationPrefix ic) of
                           Inl e \<Rightarrow> Inl (ErrKeyPrefix e) | Inr kv \<Rightarrow> Inr kv)) (\<lambda>kv.
     act_bind (syncIngressPolicy E kv) (\<lambda>(changedPolicy, updatedPolicyID).
     act_bind (note_changed changedPolicy) (\<lambda>_.
     act_bind (act_lift (ingress_keypairs ic kv)) (\<lambda>kps.
       act_return (annotation m apiPolicyIDAnnotation, updatedPolicyID, kps))))))))"

text \<open>Then the routes: each is upserted, and those under the annotations that are left over are deleted.\<close>

definition sync_object_routes ::
  "'w api_env \<Rightarrow> (string option \<Rightarrow> pb_route \<Rightarrow> api_route) \<Rightarrow> pb_route list \<Rightarrow> ('w, unit) obj_action" where
  "sync_object_routes E build routes =
     act_bind get_meta (\<lambda>m.
     act_bind (act_each (upsert_indexed_route E build) (enumerate 0 routes)) (\<lambda>_.
       delete_routes (ae_api E) False
         (filter (\<lambda>k. k \<notin> set (map routeIDAnnotationForIndex [0..<length routes])) (allRouteIDAnnotations (om_annotations m)))))"

text \<open>Last the policies that no route refers to any more; an error of the first deletion is ignored.\<close>

definition drop_old_policies :: "'w api_env \<Rightarrow> string \<Rightarrow> string \<Rightarrow> ('w, unit) obj_action" where
  "drop_old_policies E existingPolicyID updatedPolicyID =
     act_bind (if existingPolicyID \<noteq> [] \<and> updatedPolicyID \<noteq> [] \<and> existingPolicyID \<noteq> updatedPolicyID
               then act_bind (act_attempt (in_world (deletePolicy (ae_api E) existingPolicyID))) (\<lambda>_. act_return ())
               else act_return ()) (\<lambda>_.
     act_bind get_meta (\<lambda>m.
       if annotation m apiPolicyIDAnnotation \<noteq> [] \<and> updatedPolicyID = []
       then act_bind (deletePolicyForObject (ae_api E)) note_changed
       else act_return ()))"

definition upsert_ingress_routes ::
  "'w api_env \<Rightarrow> ingress_config \<Rightarrow> pb_route list \<Rightarrow> ('w, unit) obj_action" where
  "upsert_ingress_routes E ic routes =
     act_bind (prepare_ingress E ic) (\<lambda>(existingPolicyID, updatedPolicyID, kps).
     act_bind (sync_object_routes E
         (api_ingress_route (if updatedPolicyID \<noteq> [] then [updatedPolicyID] else []) kps) routes) (\<lambda>_.
       drop_old_policies E existingPolicyID updatedPolicyID))"

text \<open>The deferred patch: only when something is noted, and its error is joined to the error so far.\<close>

definition patch_if_changed ::
  "'w api_env \<Rightarrow> string \<Rightarrow> object_meta \<Rightarrow> 'w obj_run \<times> (api_sync_error + 'a)
     \<Rightarrow> 'w \<times> object_meta \<times> bool \<times> api_sync_error option" where
  "patch_if_changed E kind original res =
     (case res of (s, r) \<Rightarrow>
        let errs = (case r of Inl e \<Rightarrow> [e] | Inr _ \<Rightarrow> []);
            joined = (\<lambda>es. if es = [] then None else Some (ErrJoined es)) in
        if \<not> or_changed s then (or_world s, or_meta s, False, case r of Inl e \<Rightarrow> Some e | Inr _ \<Rightarrow> None)
        else (case kc_Patch (ae_k8s E) kind original (or_meta s) (or_world s) of
                (w, Inl e) \<Rightarrow> (w, or_meta s, True, joined (errs @ [ErrK8s e]))
              | (w, Inr m) \<Rightarrow> (w, m, True, joined errs)))"

definition upsertOneIngress ::
  "'w api_env \<Rightarrow> ingress_config \<Rightarrow> 'w \<Rightarrow> 'w \<times> object_meta \<times> bool \<times> api_sync_error option" where
  "upsertOneIngress E ic w =
     (case ingressToRoutes (ae_ann E) (ae_slug E) ic of
        Inl e \<Rightarrow> (w, ic_meta ic, False, Some (ErrIngressRoutes e))
      | Inr routes \<Rightarrow>
          patch_if_changed E IngressKind (ic_meta ic)
            (upsert_ingress_routes E ic routes \<lparr>or_world = w, or_meta = ic_meta ic, or_changed = False\<rparr>))"

subsection \<open>The reconciler\<close>

type_synonym 'w api_state = "'w \<times> tls_secrets_map"

text \<open>A result: the state, whether anything changed, and the error.\<close>

type_synonym 'w api_result = "'w api_state \<times> bool \<times> api_sync_error option"

definition put_secrets :: "(namespaced_name \<times> secret) list \<Rightarrow> ingress_config \<Rightarrow> ingress_config" where
  "put_secrets kvs ic = ic\<lparr>ic_Secrets := foldl (\<lambda>m (n, s). AList.update n s m) (ic_Secrets ic) kvs\<rparr>"

definition tls_secrets_of :: "ingress_config \<Rightarrow> (namespaced_name \<times> secret) list" where
  "tls_secrets_of ic = filter (\<lambda>(n, s). sec_type s = SecretTypeTLS) (ic_Secrets ic)"

definition api_Upsert :: "'w api_env \<Rightarrow> 'w api_state \<Rightarrow> ingress_config \<Rightarrow> 'w api_result" where
  "api_Upsert E st ic =
     (case st of (w0, tls) \<Rightarrow>
      let tlsSecrets = tls_secrets_of ic in
      case syncSecrets E (map snd tlsSecrets) w0 of
        (w1, _, Inl e) \<Rightarrow> ((w1, tls), False, Some e)
      | (w1, c1, Inr ss) \<Rightarrow>
          let ic1 = put_secrets (zip (map fst tlsSecrets) ss) ic in
          (case upsertOneIngress E ic1 w1 of
             (w2, m, _, Some e) \<Rightarrow> ((w2, tls), c1, Some e)
           | (w2, m, c2, None) \<Rightarrow>
               (case UpdateIngress tls m (ic_Secrets ic1) of
                  (tls', unreferenced) \<Rightarrow>
                    (case deleteKeyPairsForSecrets E unreferenced w2 of
                       (w3, _, Some e) \<Rightarrow> ((w3, tls'), c1 \<or> c2, Some e)
                     | (w3, c3, None) \<Rightarrow> ((w3, tls'), c1 \<or> c2 \<or> c3, None)))))"

text \<open>
  \<^verbatim>\<open>Set\<close>. Every ingress configuration has its own copy of a secret; of the copies of one secret only the one of the last
  ingress is synchronised (\<^verbatim>\<open>tlsSecrets[n] = s\<close>), and only it gets the new annotation. The order in which the
  secrets are visited is that of a map.
\<close>

definition collect_secrets :: "ingress_config list \<Rightarrow> (namespaced_name, nat \<times> secret) gomap" where
  "collect_secrets ics =
     foldl (\<lambda>m (i, ic). foldl (\<lambda>m (n, s). AList.update n (i, s) m) m (tls_secrets_of ic)) [] (enumerate 0 ics)"

definition register_secrets :: "tls_secrets_map \<Rightarrow> ingress_config list \<Rightarrow> tls_secrets_map" where
  "register_secrets tls ics =
     foldl (\<lambda>t ic. foldl (\<lambda>t (n, s). tls_Add t (KeyForObject (ic_meta ic)) n) t (tls_secrets_of ic)) tls ics"

definition spread_secrets ::
  "(namespaced_name \<times> nat \<times> secret) list \<Rightarrow> ingress_config list \<Rightarrow> ingress_config list" where
  "spread_secrets kvs ics =
     map (\<lambda>(i, ic). put_secrets [(n, s). (n, j, s) \<leftarrow> kvs, j = i] ic) (enumerate 0 ics)"

fun upsert_all_ingresses ::
  "'w api_env \<Rightarrow> ingress_config list \<Rightarrow> 'w \<Rightarrow> 'w \<times> bool \<times> api_sync_error list" where
  "upsert_all_ingresses E [] w = (w, False, [])"
| "upsert_all_ingresses E (ic # ics) w =
     (case upsertOneIngress E ic w of
        (w', _, changed, err) \<Rightarrow>
          (case upsert_all_ingresses E ics w' of
             (w'', anyChanges, errs) \<Rightarrow> (w'', changed \<or> anyChanges, (case err of None \<Rightarrow> errs | Some e \<Rightarrow> e # errs))))"

definition api_Set :: "'w api_env \<Rightarrow> 'w api_state \<Rightarrow> ingress_config list \<Rightarrow> 'w api_result" where
  "api_Set E st ics =
     (case st of (w0, tls0) \<Rightarrow>
      let tls = register_secrets tls0 ics;
          kvs = visit (ae_order E) (collect_secrets ics) in
      case syncSecrets E (map (snd \<circ> snd) kvs) w0 of
        (w1, c1, Inl e) \<Rightarrow> ((w1, tls), c1, Some e)
      | (w1, c1, Inr ss) \<Rightarrow>
          (case upsert_all_ingresses E (spread_secrets (zip (map fst kvs) (zip (map (fst \<circ> snd) kvs) ss)) ics) w1 of
             (w2, c2, errs) \<Rightarrow> ((w2, tls), c1 \<or> c2, if errs = [] then None else Some (ErrJoined errs))))"

definition settings_Equal :: "api_settings \<Rightarrow> api_settings \<Rightarrow> bool" where
  "settings_Equal a b \<longleftrightarrow>
     a\<lparr>as_settings := canon_settings (as_settings a), as_RuntimeFlags := canon_map (as_RuntimeFlags a)\<rparr> =
     b\<lparr>as_settings := canon_settings (as_settings b), as_RuntimeFlags := canon_map (as_RuntimeFlags b)\<rparr>"

text \<open>The settings of the resource with what only the API has.\<close>

definition preserve_settings :: "api_settings \<Rightarrow> api_settings \<Rightarrow> api_settings" where
  "preserve_settings existing settings =
     settings\<lparr>as_Id := as_Id existing, as_NamespaceId := as_NamespaceId existing,
       as_AutoApplyChangesets := as_AutoApplyChangesets existing, as_AutocertDir := as_AutocertDir existing,
       as_RuntimeFlags := as_RuntimeFlags existing\<rparr>"

definition translate_settings :: "'w api_env \<Rightarrow> pom_config \<Rightarrow> api_sync_error + api_settings" where
  "translate_settings E cfg =
     (case ApplyConfig (ae_settings E) None new_config (Some cfg) of
        Inl (step, _) \<Rightarrow> Inl (ErrConvertSettings step)
      | Inr (_, pbConfig) \<Rightarrow>
          (case cfg_Settings pbConfig of
             None \<Rightarrow> Inl ErrNilPointer
           | Some s \<Rightarrow>
               (case ae_merge_settings E (s\<lparr>st_Certificates := [], st_CertificateAuthority := None\<rparr>) of
                  Inl e \<Rightarrow> Inl (ErrConvertProto e) | Inr m \<Rightarrow> Inr m)))"

text \<open>An error of the update is returned with what had changed before, other errors are not.\<close>

definition update_settings :: "'w api_env \<Rightarrow> api_settings \<Rightarrow> ('w, api_sync_error, bool \<times> api_sync_error option) action" where
  "update_settings E settings0 =
     act_bind (act_map_error ErrRpc (ae_GetSettings E (ae_namespaceID E))) (\<lambda>existing.
     let settings = preserve_settings existing settings0 in
     if settings_Equal (existing\<lparr>as_CreatedAt := None, as_ModifiedAt := None\<rparr>) settings then act_return (False, None)
     else act_bind (act_attempt (ae_UpdateSettings E settings)) (\<lambda>r.
       case r of Inr _ \<Rightarrow> act_return (True, None) | Inl e \<Rightarrow> act_return (False, Some (ErrRpc e))))"

definition api_SetConfig :: "'w api_env \<Rightarrow> 'w api_state \<Rightarrow> pom_config \<Rightarrow> 'w api_result" where
  "api_SetConfig E st cfg =
     (case st of (w0, tls0) \<Rightarrow>
      case UpdateConfig tls0 (pc_meta cfg) (pc_Certs cfg) (pc_CASecrets cfg) of (tls, unreferenced) \<Rightarrow>
      case deleteKeyPairsForSecrets E unreferenced w0 of
        (w1, _, Some e) \<Rightarrow> ((w1, tls), False, Some e)
      | (w1, c1, None) \<Rightarrow>
          (case syncSecrets E (pc_CASecrets cfg @ visit (ae_order E) (map snd (pc_Certs cfg))) w1 of
             (w2, _, Inl e) \<Rightarrow> ((w2, tls), c1, Some e)
           | (w2, c2, Inr _) \<Rightarrow>
               (case translate_settings E cfg of
                  Inl e \<Rightarrow> ((w2, tls), False, Some e)
                | Inr settings \<Rightarrow>
                    (case update_settings E settings w2 of
                       (w3, Inl e) \<Rightarrow> ((w3, tls), False, Some e)
                     | (w3, Inr (c3, err)) \<Rightarrow> ((w3, tls), c1 \<or> c2 \<or> c3, err)))))"

text \<open>
  \<^verbatim>\<open>Delete\<close>. The last step is \<^verbatim>\<open>changed = changed || RemoveFinalizer(...)\<close>: the finalizer is not removed when something
  has already changed.
\<close>

definition delete_resources :: "'w api_env \<Rightarrow> ('w, unit) obj_action" where
  "delete_resources E =
     act_bind get_meta (\<lambda>m.
     act_bind (delete_routes (ae_api E) True (allRouteIDAnnotations (om_annotations m))) (\<lambda>_.
     act_bind (deletePolicyForObject (ae_api E)) note_changed))"

definition remove_finalizer_unless_changed :: "'w obj_run \<Rightarrow> 'w obj_run" where
  "remove_finalizer_unless_changed s =
     (if or_changed s then s
      else s\<lparr>or_meta := fst (RemoveFinalizer (or_meta s) apiFinalizer),
             or_changed := snd (RemoveFinalizer (or_meta s) apiFinalizer)\<rparr>)"

definition delete_ingress ::
  "'w api_env \<Rightarrow> tls_secrets_map \<Rightarrow> key \<Rightarrow> 'w obj_run \<Rightarrow> tls_secrets_map \<times> 'w obj_run \<times> (api_sync_error + unit)" where
  "delete_ingress E tls k s0 =
     (case delete_resources E s0 of
        (s1, Inl e) \<Rightarrow> (tls, s1, Inl e)
      | (s1, Inr _) \<Rightarrow>
          (case RemoveEntity tls k of (tls', unreferenced) \<Rightarrow>
           case deleteKeyPairsForSecrets E unreferenced (or_world s1) of
             (w, _, Some e) \<Rightarrow> (tls', s1\<lparr>or_world := w\<rparr>, Inl e)
           | (w, c, None) \<Rightarrow>
               (tls', remove_finalizer_unless_changed (s1\<lparr>or_world := w, or_changed := (or_changed s1 \<or> c)\<rparr>), Inr ())))"

definition api_Delete :: "'w api_env \<Rightarrow> 'w api_state \<Rightarrow> namespaced_name \<Rightarrow> 'w api_result" where
  "api_Delete E st name =
     (case st of (w0, tls) \<Rightarrow>
      case kc_Get (ae_k8s E) IngressKind name w0 of
        (w1, Inl e) \<Rightarrow> ((w1, tls), False, if IsNotFound e then None else Some (ErrK8s e))
      | (w1, Inr m) \<Rightarrow>
          (case delete_ingress E tls (Key (om_kind m) name) \<lparr>or_world = w1, or_meta = m, or_changed = False\<rparr> of
             (tls', s, r) \<Rightarrow>
               (case patch_if_changed E IngressKind m (s, r) of
                  (w2, _, changed, err) \<Rightarrow> ((w2, tls'), changed, err))))"

end
