(* ===== verification/Api_Ingress.thy ===== *)
theory Api_Ingress
  imports Api_Sync
begin

text \<open>
  What the unified API holds after the reconciler of \<open>Api_Sync\<close> has processed an ingress: the frame of every call,
  the loop over the routes with the ids kept in annotations, and the deletion of routes that are no longer wanted.
\<close>

subsection \<open>What a call leaves alone\<close>

definition keeps :: "('s \<Rightarrow> 'v) \<Rightarrow> ('s, 'e, 'a) action \<Rightarrow> bool" where
  "keeps V m \<longleftrightarrow> (\<forall>s. V (fst (m s)) = V s)"

named_theorems keeps_intros

lemma keepsD: "keeps V m \<Longrightarrow> m s = (s', r) \<Longrightarrow> V s' = V s"
  unfolding keeps_def by (metis fst_conv)

lemma keeps_return [keeps_intros]: "keeps V (act_return x)"
  by (simp add: keeps_def)

lemma keeps_fail [keeps_intros]: "keeps V (act_fail e)"
  by (simp add: keeps_def)

lemma keeps_lift [keeps_intros]: "keeps V (act_lift r)"
  by (simp add: keeps_def act_lift_def)

lemma keeps_bind [keeps_intros]: "keeps V m \<Longrightarrow> (\<And>x. keeps V (f x)) \<Longrightarrow> keeps V (act_bind m f)"
  by (simp add: keeps_def fst_act_bind split: sum.split)

lemma keeps_attempt [keeps_intros]: "keeps V m \<Longrightarrow> keeps V (act_attempt m)"
  by (simp add: keeps_def act_attempt_def split: prod.split) (metis fst_conv)

lemma keeps_map_error [keeps_intros]: "keeps V m \<Longrightarrow> keeps V (act_map_error f m)"
  by (simp add: keeps_def act_map_error_def split: prod.split sum.split) (metis fst_conv)

lemma keeps_in_world [keeps_intros]: "keeps V m \<Longrightarrow> keeps (\<lambda>s. (V (or_world s), R (or_meta s))) (in_world m)"
  by (simp add: keeps_def in_world_def split: prod.split) (metis fst_conv)

lemma keeps_get_meta [keeps_intros]: "keeps V get_meta"
  by (simp add: keeps_def get_meta_def)

lemma keeps_note [keeps_intros]: "keeps (\<lambda>s. (V (or_world s), R (or_meta s))) (note_changed b)"
  by (simp add: keeps_def note_changed_def)

lemma keeps_change_meta [keeps_intros]:
  "(\<And>m. R (f m) = R m) \<Longrightarrow> keeps (\<lambda>s. (V (or_world s), R (or_meta s))) (change_meta f)"
  by (simp add: keeps_def change_meta_def)

definition ops_keep :: "('w \<Rightarrow> 'v) \<Rightarrow> ('w, 'r) res_ops \<Rightarrow> bool" where
  "ops_keep V ops \<longleftrightarrow> (\<forall>i. keeps V (ro_Get ops i)) \<and> (\<forall>r. keeps V (ro_Create ops r)) \<and> (\<forall>r. keeps V (ro_Update ops r)) \<and>
     (\<forall>i. keeps V (ro_Delete ops i)) \<and> (\<forall>a n. keeps V (ro_List ops a n))"

lemma ops_keepD [keeps_intros]:
  assumes "ops_keep V ops"
  shows "keeps V (ro_Get ops i)" "keeps V (ro_Create ops r)" "keeps V (ro_Update ops r)" "keeps V (ro_Delete ops i)"
    "keeps V (ro_List ops a n)"
  using assms unfolding ops_keep_def by blast+

lemma keeps_shared [keeps_intros]:
  assumes "ops_keep V ops"
  shows "keeps V (get_existing ops i)" "keeps V (delete_by_id ops i)" "keeps V (find_by_name ops e n)"
  unfolding get_existing_def delete_by_id_def find_by_name_def
  by (auto intro!: keeps_intros assms split: sum.split list.split)

lemma keeps_upsertPolicy: "ops_keep V (api_policies A) \<Longrightarrow> keeps V (upsertPolicy A ns p)"
  unfolding upsertPolicy_def create_policy_def update_policy_def findPolicyByName_def
  by (auto intro!: keeps_intros split: sum.split option.split)

lemma keeps_deletePolicy: "ops_keep V (api_policies A) \<Longrightarrow> keeps V (deletePolicy A i)"
  unfolding deletePolicy_def by (intro keeps_intros)

text \<open>The parts of the environment that do not belong to a view.\<close>

definition separate_routes :: "('w \<Rightarrow> 'v) \<Rightarrow> 'w api_env \<Rightarrow> bool" where
  "separate_routes V E \<longleftrightarrow> ops_keep V (api_policies (ae_api E)) \<and> ops_keep V (api_keypairs (ae_api E)) \<and>
     (\<forall>k n. keeps V (kc_Get (ae_k8s E) k n)) \<and> (\<forall>k m m'. keeps V (kc_Patch (ae_k8s E) k m m'))"

subsection \<open>The ids of routes in the annotations\<close>

definition route_ids :: "object_meta \<Rightarrow> string \<Rightarrow> string option" where
  "route_ids m k = (if HasPrefix k apiRouteIDAnnotationPrefix then map_of (om_annotations m) k else None)"

lemma annotation_prefixes:
  "\<not> HasPrefix apiPolicyIDAnnotation apiRouteIDAnnotationPrefix"
  "HasPrefix (routeIDAnnotationForIndex i) apiRouteIDAnnotationPrefix"
  by (simp_all add: HasPrefix_def apiPolicyIDAnnotation_def apiRouteIDAnnotationPrefix_def routeIDAnnotationForIndex_def)

lemma routeIDAnnotationForIndex_inj: "routeIDAnnotationForIndex i = routeIDAnnotationForIndex j \<longleftrightarrow> i = j"
  unfolding routeIDAnnotationForIndex_def by (metis decimal_show_nat option.inject same_append_eq)

lemma route_ids_simps:
  "route_ids (set_annotation m apiPolicyIDAnnotation v) = route_ids m"
  "route_ids (delete_annotation m apiPolicyIDAnnotation) = route_ids m"
  "route_ids (set_annotation m (routeIDAnnotationForIndex i) v) = (route_ids m)(routeIDAnnotationForIndex i \<mapsto> v)"
  "route_ids (fst (AddFinalizer m f)) = route_ids m"
  "HasPrefix k apiRouteIDAnnotationPrefix \<Longrightarrow> annotation m k = deref_str (route_ids m k)"
  "HasPrefix k apiRouteIDAnnotationPrefix \<Longrightarrow> route_ids (delete_annotation m k) = (route_ids m)(k := None)"
  using annotation_prefixes
  by (auto simp: route_ids_def set_annotation_def delete_annotation_def annotation_def mget_str_def gomap_simps fun_eq_iff
      AddFinalizer_def)

lemma set_allRouteIDAnnotations: "set (allRouteIDAnnotations (om_annotations m)) = dom (route_ids m)"
proof -
  have "dom (route_ids m) = {k. HasPrefix k apiRouteIDAnnotationPrefix} \<inter> dom (map_of (om_annotations m))"
    by (auto simp: route_ids_def dom_def)
  then show ?thesis by (auto simp: allRouteIDAnnotations_def dom_map_of_conv_image_fst)
qed

lemma bind_get_meta: "act_bind get_meta f s = f (or_meta s) s"
  by (simp add: act_bind_def get_meta_def)

subsection \<open>One route\<close>

text \<open>The id that an object remembers under a key, empty if there is none.\<close>

definition rid :: "object_meta \<Rightarrow> string \<Rightarrow> string" where
  "rid m k = deref_str (route_ids m k)"

text \<open>A way to build the request for a route from its id.\<close>

definition builds :: "(string option \<Rightarrow> pb_route \<Rightarrow> api_route) \<Rightarrow> bool" where
  "builds build \<longleftrightarrow> (\<forall>i j r. ar_set_Id i (build j r) = build i r \<and> ar_Id (build i r) = i \<and> ar_Name (build i r) = r_Name r)"

lemma builds_ingress: "builds (api_ingress_route policyIDs kps)"
  by (simp add: builds_def api_ingress_route_def api_of_route_def ar_set_Id_def ar_Id_def ar_Name_def)

abbreviation wanted :: "'w api_env \<Rightarrow> (string option \<Rightarrow> pb_route \<Rightarrow> api_route) \<Rightarrow> pb_route \<Rightarrow> string \<Rightarrow> api_route" where
  "wanted E build route j \<equiv> api_request (ae_namespaceID E) (build (Some j) route)"

lemma api_request_set_Id: "ar_set_Id i (api_request ns r) = api_request ns (ar_set_Id i r)"
  by (simp add: api_request_def ar_set_Id_def)

lemma upsert_indexed_route_ok:
  assumes L: "lawful_routes V (ae_api E)" and b: "builds build"
    and u: "upsert_indexed_route E build (i, route) s = (s', Inr ())"
  shows "\<exists>ch j. upserted ar_Name route_agrees (wanted E build route) (deref_str (r_Name route))
      (rid (or_meta s) (routeIDAnnotationForIndex i)) ch (Some j) (V (or_world s)) (V (or_world s')) \<and>
    route_ids (or_meta s') = (route_ids (or_meta s))(routeIDAnnotationForIndex i \<mapsto> j) \<and>
    or_changed s' = (or_changed s \<or> ch)"
proof -
  let ?k = "routeIDAnnotationForIndex i"
  let ?old = "annotation (or_meta s) ?k"
  let ?r = "build (emptyToNil ?old) route"
  obtain w1 res where res: "upsertOneRoute (ae_api E) (ae_marshal_route E) (ae_namespaceID E) ?r (or_world s) = (w1, res)"
    by (cases "upsertOneRoute (ae_api E) (ae_marshal_route E) (ae_namespaceID E) ?r (or_world s)")
  obtain ch j where ok: "res = Inr (ch, Some j)"
    and s': "s' = s\<lparr>or_world := w1, or_meta := (if ?old \<noteq> j then set_annotation (or_meta s) ?k j else or_meta s),
      or_changed := (or_changed s \<or> ch)\<rparr>"
    using u res unfolding upsert_indexed_route_def
    by (auto simp: Let_def act_bind_def get_meta_def in_world_def change_meta_def note_changed_def act_fail_def
        split: sum.splits option.splits if_splits)
  have up: "upserted ar_Name route_agrees (\<lambda>j. ar_set_Id (Some j) (api_request (ae_namespaceID E) ?r)) (deref_str (ar_Name ?r))
      (deref_str (ar_Id ?r)) ch (Some j) (V (or_world s)) (V w1)"
    by (rule upsertOneRoute_ok [OF L]) (use res ok in simp)
  have eqs: "ar_set_Id (Some j') (api_request ns ?r) = api_request ns (build (Some j') route)" for ns j'
    using b unfolding builds_def api_request_set_Id by simp
  have old: "deref_str (ar_Id ?r) = ?old" using b unfolding builds_def emptyToNil_def deref_str_def by auto
  have rid: "rid (or_meta s) ?k = ?old" by (simp add: rid_def route_ids_simps annotation_prefixes)
  have "j \<noteq> []" using up unfolding upserted_def by blast
  then have "route_ids (or_meta s) ?k = Some j" if "?old = j"
    using that rid by (cases "route_ids (or_meta s) ?k") (auto simp: rid_def deref_str_def)
  then have "route_ids (or_meta s') = (route_ids (or_meta s))(?k \<mapsto> j)"
    using s' by (auto simp: route_ids_simps fun_upd_idem)
  then show ?thesis using up b s' unfolding eqs old rid builds_def by auto
qed

subsection \<open>All routes\<close>

text \<open>
  The ids an object remembers under the keys \<open>K\<close> are usable: they were assigned by the API, no two keys share one, and
  no route remembered under another key has the name of the \<open>i\<close>-th route.
\<close>

definition coherent :: "api_route view \<Rightarrow> string set \<Rightarrow> string list \<Rightarrow> (string \<Rightarrow> string) \<Rightarrow> bool" where
  "coherent v K names ids \<longleftrightarrow>
     (\<forall>k \<in> K. ids k = [] \<or> ids k \<in> snd v) \<and>
     (\<forall>k \<in> K. \<forall>k' \<in> K. k \<noteq> k' \<longrightarrow> ids k = ids k' \<longrightarrow> ids k = []) \<and>
     (\<forall>i < length names. \<forall>k \<in> K. k \<noteq> routeIDAnnotationForIndex i \<longrightarrow>
        (\<forall>x. fst v (ids k) = Some x \<longrightarrow> ar_Name x \<noteq> Some (names ! i)))"

lemma coherent_step:
  assumes c: "coherent v K names ids" and i: "i < length names" "routeIDAnnotationForIndex i \<in> K" and d: "distinct names"
    and e: "fst v [] = None"
    and u: "upserted ar_Name route_agrees request (names ! i) (ids (routeIDAnnotationForIndex i)) ch (Some j) v v'"
    and n: "ar_Name (request j) = None \<or> ar_Name (request j) = Some (names ! i)"
  shows "coherent v' K names (ids(routeIDAnnotationForIndex i := j)) \<and>
    (\<forall>k \<in> K. k \<noteq> routeIDAnnotationForIndex i \<longrightarrow> fst v' (ids k) = fst v (ids k) \<and> ids k \<noteq> j)"
proof -
  let ?k = "routeIDAnnotationForIndex i"
  obtain s where s: "j \<noteq> []" "fst v' j = Some s" "route_agrees s (request j)"
    and frame: "\<And>k. k \<noteq> j \<Longrightarrow> k \<noteq> ids ?k \<Longrightarrow> fst v' k = fst v k"
    and old: "ids ?k \<noteq> j \<Longrightarrow> fst v' (ids ?k) = fst v (ids ?k) \<or> fst v' (ids ?k) = None"
    and used: "snd v' = insert j (snd v)"
    and j: "j = ids ?k \<or> j \<notin> snd v \<or> (\<exists>s0. fst v j = Some s0 \<and> ar_Name s0 = Some (names ! i))"
    using u unfolding upserted_def by auto
  have sname: "ar_Name s = ar_Name (request j)" using rk.agree_name [OF s(3)] .
  have c1: "ids k = [] \<or> ids k \<in> snd v" and c2: "k \<noteq> ?k \<Longrightarrow> ids k = ids ?k \<Longrightarrow> ids k = []"
    and c3: "i' < length names \<Longrightarrow> k \<noteq> routeIDAnnotationForIndex i' \<Longrightarrow> fst v (ids k) = Some x \<Longrightarrow> ar_Name x \<noteq> Some (names ! i')"
    if "k \<in> K" for k i' x
    using c i(2) that unfolding coherent_def by blast+
  have other: "ids k \<noteq> j" if "k \<in> K" "k \<noteq> ?k" for k
    using j c1 [OF that(1)] c2 [OF that(1,2)] c3 [OF that(1) i(1) that(2)] s(1) by auto
  have same: "fst v' (ids k) = fst v (ids k)" if "k \<in> K" "k \<noteq> ?k" for k
  proof (cases "ids k = ids ?k")
    case True
    then have "ids k = []" "ids ?k = []" using c2 [OF that] by simp_all
    then show ?thesis using old s(1) e by auto
  next
    case False
    then show ?thesis using frame other [OF that] by blast
  qed
  have "coherent v' K names (ids(?k := j))"
    unfolding coherent_def
  proof (intro conjI ballI allI impI)
    fix k assume "k \<in> K"
    then show "(ids(?k := j)) k = [] \<or> (ids(?k := j)) k \<in> snd v'" using c1 used by auto
  next
    fix k k' assume "k \<in> K" "k' \<in> K" "k \<noteq> k'" "(ids(?k := j)) k = (ids(?k := j)) k'"
    then show "(ids(?k := j)) k = []" using c other unfolding coherent_def by (auto split: if_splits)
  next
    fix i' k x assume h: "i' < length names" "k \<in> K" "k \<noteq> routeIDAnnotationForIndex i'" "fst v' ((ids(?k := j)) k) = Some x"
    show "ar_Name x \<noteq> Some (names ! i')"
    proof (cases "k = ?k")
      case True
      then have "x = s" "i' \<noteq> i" using h s(2) by auto
      then show ?thesis using sname n d h(1) i(1) by (auto simp: nth_eq_iff_index_eq)
    next
      case False
      then show ?thesis using h same c3 by auto
    qed
  qed
  then show ?thesis using same other by blast
qed

definition held :: "('w \<Rightarrow> api_route view) \<Rightarrow> 'w api_env \<Rightarrow> (string option \<Rightarrow> pb_route \<Rightarrow> api_route) \<Rightarrow> 'w \<Rightarrow> object_meta \<Rightarrow> nat \<Rightarrow> pb_route \<Rightarrow> bool" where
  "held V E build w m i route \<longleftrightarrow>
     (\<exists>x. fst (V w) (rid m (routeIDAnnotationForIndex i)) = Some x \<and>
        route_agrees x (wanted E build route (rid m (routeIDAnnotationForIndex i))))"

lemma later_keys:
  "routeIDAnnotationForIndex n \<notin> routeIDAnnotationForIndex ` {Suc n..<m}"
  "n < m \<Longrightarrow> routeIDAnnotationForIndex ` {n..<m} = insert (routeIDAnnotationForIndex n) (routeIDAnnotationForIndex ` {Suc n..<m})"
proof -
  show "routeIDAnnotationForIndex ` {n..<m} = insert (routeIDAnnotationForIndex n) (routeIDAnnotationForIndex ` {Suc n..<m})" if "n < m"
  proof -
    have "{n..<m} = insert n {Suc n..<m}" using that by auto
    then show ?thesis by simp
  qed
qed (auto simp: routeIDAnnotationForIndex_inj)

lemma extend_route_ids:
  assumes later: "route_ids m' = (\<lambda>k. if k \<in> routeIDAnnotationForIndex ` {Suc n..<N} then Some (rid m' k) else route_ids m1 k)"
    and one: "route_ids m1 = (route_ids m)(routeIDAnnotationForIndex n \<mapsto> j)" and n: "n < N"
  shows "rid m' (routeIDAnnotationForIndex n) = j \<and>
    route_ids m' = (\<lambda>k. if k \<in> routeIDAnnotationForIndex ` {n..<N} then Some (rid m' k) else route_ids m k)"
proof -
  let ?k = "routeIDAnnotationForIndex n"
  have "route_ids m' ?k = Some j" using fun_cong [OF later, of ?k] one later_keys(1) [of n N] by simp
  then have rid: "rid m' ?k = j" by (simp add: rid_def deref_str_def)
  have "route_ids m' k = (if k \<in> routeIDAnnotationForIndex ` {n..<N} then Some (rid m' k) else route_ids m k)" for k
  proof (cases "k = ?k")
    case True
    then show ?thesis using \<open>route_ids m' ?k = Some j\<close> rid later_keys(2) [OF n] by simp
  next
    case False
    then show ?thesis using fun_cong [OF later, of k] one later_keys(2) [OF n] by simp
  qed
  with rid show ?thesis by blast
qed

lemma upsert_routes_loop:
  assumes L: "lawful_routes V (ae_api E)" and b: "builds build"
    and d: "distinct (map (\<lambda>r. deref_str (r_Name r)) routes)" and K: "\<And>i. i < length routes \<Longrightarrow> routeIDAnnotationForIndex i \<in> K"
    and "act_each (upsert_indexed_route E build) (enumerate n rs) s = (s', Inr ())" "rs = drop n routes" "n \<le> length routes"
    and "coherent (V (or_world s)) K (map (\<lambda>r. deref_str (r_Name r)) routes) (rid (or_meta s))"
    and "\<And>i. i < n \<Longrightarrow> held V E build (or_world s) (or_meta s) i (routes ! i)"
  shows "coherent (V (or_world s')) K (map (\<lambda>r. deref_str (r_Name r)) routes) (rid (or_meta s')) \<and>
    (\<forall>i < length routes. held V E build (or_world s') (or_meta s') i (routes ! i)) \<and>
    route_ids (or_meta s') = (\<lambda>k. if k \<in> routeIDAnnotationForIndex ` {n..<length routes}
      then Some (rid (or_meta s') k) else route_ids (or_meta s) k) \<and>
    (\<forall>x. x \<notin> rid (or_meta s) ` K \<and> x \<notin> rid (or_meta s') ` K \<longrightarrow> fst (V (or_world s')) x = fst (V (or_world s)) x) \<and>
    (\<forall>k \<in> K - routeIDAnnotationForIndex ` {n..<length routes}.
       fst (V (or_world s')) (rid (or_meta s) k) = fst (V (or_world s)) (rid (or_meta s) k))"
  using assms(5-)
proof (induction rs arbitrary: n s)
  case Nil
  then have "n = length routes" by simp
  moreover have "s' = s" using Nil.prems(1) by (simp add: act_return_def)
  ultimately show ?case using Nil.prems by (auto simp: fun_eq_iff)
next
  case (Cons r rs)
  let ?names = "map (\<lambda>r. deref_str (r_Name r)) routes" and ?k = "routeIDAnnotationForIndex n"
  have n: "n < length routes" "r = routes ! n" "rs = drop (Suc n) routes"
    using Cons.prems(2,3) by (metis drop_eq_Nil linorder_not_less list.distinct(1), metis Cons_nth_drop_Suc drop_eq_Nil linorder_not_less list.distinct(1) list.inject,
        metis drop_Suc list.sel(3) tl_drop)
  have "act_bind (upsert_indexed_route E build (n, r)) (\<lambda>_. act_each (upsert_indexed_route E build) (enumerate (Suc n) rs)) s = (s', Inr ())"
    using Cons.prems(1) by simp
  then obtain x s1 where s1: "upsert_indexed_route E build (n, r) s = (s1, Inr x)"
    and rest: "act_each (upsert_indexed_route E build) (enumerate (Suc n) rs) s1 = (s', Inr ())"
    by (rule act_bind_InrE)
  then obtain ch j where up: "upserted ar_Name route_agrees (wanted E build r) (deref_str (r_Name r)) (rid (or_meta s) ?k) ch (Some j)
      (V (or_world s)) (V (or_world s1))" and ids: "route_ids (or_meta s1) = (route_ids (or_meta s))(?k \<mapsto> j)"
    using upsert_indexed_route_ok [OF L b, of n r s s1] by auto
  have rid1: "rid (or_meta s1) = (rid (or_meta s))(?k := j)" using ids by (auto simp: rid_def deref_str_def fun_eq_iff)
  have empty: "fst (V (or_world s)) [] = None" using lawful_store [OF L, of "or_world s" "[]"] by (cases "fst (V (or_world s)) []") auto
  have name: "ar_Name (wanted E build r j) = None \<or> ar_Name (wanted E build r j) = Some (?names ! n)"
    using b n unfolding builds_def by (cases "r_Name r") (simp_all add: api_request_simps deref_str_def)
  have step: "coherent (V (or_world s1)) K ?names (rid (or_meta s1)) \<and>
    (\<forall>k \<in> K. k \<noteq> ?k \<longrightarrow> fst (V (or_world s1)) (rid (or_meta s) k) = fst (V (or_world s)) (rid (or_meta s) k) \<and> rid (or_meta s) k \<noteq> j)"
    unfolding rid1
    by (rule coherent_step [where request = "wanted E build r" and ch = ch]) (use Cons.prems(4) d empty name up n K in simp_all)
  have heldj: "held V E build (or_world s1) (or_meta s1) n (routes ! n)"
    using up n unfolding upserted_def held_def rid1 by auto
  have held1: "held V E build (or_world s1) (or_meta s1) i (routes ! i)" if "i < Suc n" for i
  proof (cases "i = n")
    case True
    then show ?thesis using heldj by simp
  next
    case False
    then have i: "i < n" using that by simp
    then have "routeIDAnnotationForIndex i \<in> K" "routeIDAnnotationForIndex i \<noteq> ?k" using K n i by (simp_all add: routeIDAnnotationForIndex_inj)
    then show ?thesis using Cons.prems(5) [OF i] step unfolding held_def rid1 by simp
  qed
  note IH = Cons.IH [OF rest n(3) _ conjunct1 [OF step] held1]
  have ext: "rid (or_meta s') ?k = j \<and> route_ids (or_meta s') = (\<lambda>k. if k \<in> routeIDAnnotationForIndex ` {n..<length routes}
      then Some (rid (or_meta s') k) else route_ids (or_meta s) k)"
    by (rule extend_route_ids [OF _ ids n(1)]) (use IH n in simp)
  have frame: "fst (V (or_world s')) x = fst (V (or_world s)) x" if x: "x \<notin> rid (or_meta s) ` K" "x \<notin> rid (or_meta s') ` K" for x
  proof -
    have "x \<noteq> j" "x \<noteq> rid (or_meta s) ?k" using x K n(1) conjunct1 [OF ext] by auto
    then have "fst (V (or_world s1)) x = fst (V (or_world s)) x" using up unfolding upserted_def by auto
    moreover have "x \<notin> rid (or_meta s1) ` K" using x(1) \<open>x \<noteq> j\<close> unfolding rid1 by auto
    ultimately show ?thesis using IH x(2) n by simp
  qed
  moreover have "fst (V (or_world s')) (rid (or_meta s) k) = fst (V (or_world s)) (rid (or_meta s) k)"
    if "k \<in> K - routeIDAnnotationForIndex ` {n..<length routes}" for k
  proof -
    have "k \<noteq> ?k" "k \<in> K - routeIDAnnotationForIndex ` {Suc n..<length routes}" using that later_keys(2) [OF n(1)] by auto
    moreover from this have "rid (or_meta s1) k = rid (or_meta s) k" unfolding rid1 by simp
    moreover have "\<forall>k \<in> K - routeIDAnnotationForIndex ` {Suc n..<length routes}.
        fst (V (or_world s')) (rid (or_meta s1) k) = fst (V (or_world s1)) (rid (or_meta s1) k)" using IH n by simp
    ultimately show ?thesis using step by (metis DiffD1)
  qed
  ultimately show ?case using IH n ext by simp
qed

subsection \<open>Deleting routes\<close>

lemma api_deleteRoutes_ok:
  assumes L: "lawful_routes V A"
  shows "api_deleteRoutes A ks (w, m) = ((w', m'), c, None) \<Longrightarrow> distinct ks \<Longrightarrow> \<forall>k \<in> set ks. HasPrefix k apiRouteIDAnnotationPrefix \<Longrightarrow>
    V w' = (\<lambda>x. if x \<in> rid m ` set ks then None else fst (V w) x, snd (V w)) \<and>
    route_ids m' = (\<lambda>k. if k \<in> set ks then None else route_ids m k) \<and> (c \<longleftrightarrow> ks \<noteq> [])"
proof (induction ks arbitrary: w m c)
  case (Cons k ks)
  have k: "HasPrefix k apiRouteIDAnnotationPrefix" "k \<notin> set ks" using Cons.prems by simp_all
  obtain w1 r where r: "deleteRoute A (annotation m k) w = (w1, r)" by (cases "deleteRoute A (annotation m k) w")
  obtain u where u: "r = Inr u" using Cons.prems(1) r by (cases r) auto
  obtain c1 where rest: "api_deleteRoutes A ks (w1, delete_annotation m k) = ((w', m'), c1, None)" and c: c
    using Cons.prems(1) r u by (auto split: prod.splits)
  have V1: "V w1 = ((fst (V w))(rid m k := None), snd (V w))"
    using rk.delete_by_id_ok [OF L, of "annotation m k" w w1 u] r u k(1) by (simp add: deleteRoute_def rid_def route_ids_simps)
  have ids1: "route_ids (delete_annotation m k) = (route_ids m)(k := None)" using k(1) by (simp add: route_ids_simps)
  have "rid (delete_annotation m k) ` set ks = rid m ` set ks"
    using k(2) by (intro image_cong) (auto simp: rid_def ids1)
  then show ?case using Cons.IH [OF rest] Cons.prems(2,3) V1 ids1 c by (auto simp: fun_eq_iff)
qed (auto simp: fun_eq_iff prod_eq_iff)

lemma delete_routes_ok:
  assumes L: "lawful_routes V A" and d: "delete_routes A always ks s = (s', Inr u)" "distinct ks"
    "\<forall>k \<in> set ks. HasPrefix k apiRouteIDAnnotationPrefix"
  shows "V (or_world s') = (\<lambda>x. if x \<in> rid (or_meta s) ` set ks then None else fst (V (or_world s)) x, snd (V (or_world s))) \<and>
    route_ids (or_meta s') = (\<lambda>k. if k \<in> set ks then None else route_ids (or_meta s) k) \<and>
    or_changed s' = (or_changed s \<or> ks \<noteq> [])"
proof -
  obtain w m c err where del: "api_deleteRoutes A ks (or_world s, or_meta s) = ((w, m), c, err)"
    by (cases "api_deleteRoutes A ks (or_world s, or_meta s)") auto
  have "err = None" using d(1) del by (cases err) (simp_all add: delete_routes_def)
  then show ?thesis using api_deleteRoutes_ok [OF L, of ks "or_world s" "or_meta s" w m c] del d
    by (auto simp: delete_routes_def)
qed

subsection \<open>An ingress\<close>

abbreviation route_view :: "('w \<Rightarrow> 'v) \<Rightarrow> 'w obj_run \<Rightarrow> 'v \<times> (string \<Rightarrow> string option)" where
  "route_view V \<equiv> (\<lambda>s. (V (or_world s), route_ids (or_meta s)))"

lemma keeps_policy_steps:
  assumes "ops_keep V (api_policies (ae_api E))"
  shows "keeps (route_view V) (syncIngressPolicy E kv)" "keeps (route_view V) (deletePolicyForObject (ae_api E))"
    "keeps (route_view V) (act_attempt (in_world (deletePolicy (ae_api E) i)))"
  unfolding syncIngressPolicy_def deletePolicyForObject_def Let_def convertProto_def
  by (auto intro!: keeps_intros keeps_upsertPolicy keeps_deletePolicy assms simp: route_ids_simps split: sum.split option.split prod.split)

lemma keeps_InrE:
  assumes "act_bind m f s = (s', Inr y)" "keeps V m"
  obtains x t where "m s = (t, Inr x)" "V t = V s" "f x t = (s', Inr y)"
proof -
  obtain x t where "m s = (t, Inr x)" "f x t = (s', Inr y)" using assms(1) by (rule act_bind_InrE)
  then show thesis using that keepsD [OF assms(2)] by blast
qed

text \<open>All keys that can hold the id of a route of an object with \<open>n\<close> routes.\<close>

definition id_keys :: "object_meta \<Rightarrow> nat \<Rightarrow> string set" where
  "id_keys m n = dom (route_ids m) \<union> routeIDAnnotationForIndex ` {0..<n}"

text \<open>
  What an object's routes are in the API: each route is held under the id that the object remembers for its index,
  the object remembers no other id, the routes of dropped indices are gone, and routes the object never
  remembered are untouched.
\<close>

definition routes_in_api ::
  "('w \<Rightarrow> api_route view) \<Rightarrow> 'w api_env \<Rightarrow> (string option \<Rightarrow> pb_route \<Rightarrow> api_route) \<Rightarrow> pb_route list
     \<Rightarrow> 'w \<Rightarrow> object_meta \<Rightarrow> 'w \<Rightarrow> object_meta \<Rightarrow> bool" where
  "routes_in_api V E build routes w m w' m' \<longleftrightarrow>
     (\<forall>i < length routes. held V E build w' m' i (routes ! i)) \<and>
     dom (route_ids m') = routeIDAnnotationForIndex ` {0..<length routes} \<and>
     (\<forall>k \<in> dom (route_ids m) - routeIDAnnotationForIndex ` {0..<length routes}. fst (V w') (rid m k) = None) \<and>
     (\<forall>x. x \<notin> rid m ` id_keys m (length routes) \<and> x \<notin> rid m' ` dom (route_ids m') \<longrightarrow> fst (V w') x = fst (V w) x)"

lemma held_id:
  assumes "lawful_routes V (ae_api E)" "held V E build w m i r"
  shows "rid m (routeIDAnnotationForIndex i) \<noteq> []"
proof -
  obtain x where "fst (V w) (rid m (routeIDAnnotationForIndex i)) = Some x" using assms(2) unfolding held_def by blast
  then show ?thesis using lawful_store [OF assms(1)] by simp
qed

lemma held_cong:
  "held V E build w m i r \<Longrightarrow> rid m' (routeIDAnnotationForIndex i) = rid m (routeIDAnnotationForIndex i) \<Longrightarrow>
   fst (V w') (rid m (routeIDAnnotationForIndex i)) = fst (V w) (rid m (routeIDAnnotationForIndex i)) \<Longrightarrow> held V E build w' m' i r"
  unfolding held_def by simp

lemma routes_then_delete:
  assumes L: "lawful_routes V (ae_api E)" and b: "builds build"
    and d: "distinct (map (\<lambda>r. deref_str (r_Name r)) routes)" and wf: "distinct ks"
    and ks: "set ks = dom (route_ids (or_meta s)) - routeIDAnnotationForIndex ` {0..<length routes}"
    and c: "coherent (V (or_world s)) (id_keys (or_meta s) (length routes)) (map (\<lambda>r. deref_str (r_Name r)) routes) (rid (or_meta s))"
    and loop: "act_each (upsert_indexed_route E build) (enumerate 0 routes) s = (s1, Inr ())"
    and del: "delete_routes (ae_api E) always ks s1 = (s2, Inr u)"
  shows "routes_in_api V E build routes (or_world s) (or_meta s) (or_world s2) (or_meta s2)"
proof -
  let ?K = "id_keys (or_meta s) (length routes)" and ?used = "routeIDAnnotationForIndex ` {0..<length routes}"
  have "coherent (V (or_world s1)) ?K (map (\<lambda>r. deref_str (r_Name r)) routes) (rid (or_meta s1)) \<and>
    (\<forall>i < length routes. held V E build (or_world s1) (or_meta s1) i (routes ! i)) \<and>
    route_ids (or_meta s1) = (\<lambda>k. if k \<in> ?used then Some (rid (or_meta s1) k) else route_ids (or_meta s) k) \<and>
    (\<forall>x. x \<notin> rid (or_meta s) ` ?K \<and> x \<notin> rid (or_meta s1) ` ?K \<longrightarrow> fst (V (or_world s1)) x = fst (V (or_world s)) x) \<and>
    (\<forall>k \<in> ?K - ?used. fst (V (or_world s1)) (rid (or_meta s) k) = fst (V (or_world s)) (rid (or_meta s) k))"
    by (rule upsert_routes_loop [OF L b d _ loop]) (use c in \<open>simp_all add: id_keys_def\<close>)
  then have c1: "coherent (V (or_world s1)) ?K (map (\<lambda>r. deref_str (r_Name r)) routes) (rid (or_meta s1))"
    and h1: "\<And>i. i < length routes \<Longrightarrow> held V E build (or_world s1) (or_meta s1) i (routes ! i)"
    and ids1: "route_ids (or_meta s1) = (\<lambda>k. if k \<in> ?used then Some (rid (or_meta s1) k) else route_ids (or_meta s) k)"
    and frame1: "\<And>x. x \<notin> rid (or_meta s) ` ?K \<Longrightarrow> x \<notin> rid (or_meta s1) ` ?K \<Longrightarrow> fst (V (or_world s1)) x = fst (V (or_world s)) x"
    by blast+
  have pre: "\<forall>k \<in> set ks. HasPrefix k apiRouteIDAnnotationPrefix" unfolding ks by (auto simp: route_ids_def split: if_splits)
  note D = delete_routes_ok [OF L del wf pre]
  have rid1: "rid (or_meta s1) k = rid (or_meta s) k" if "k \<in> set ks" for k
    using that fun_cong [OF ids1, of k] unfolding ks by (simp add: rid_def)
  have ids2: "route_ids (or_meta s2) k = (if k \<in> set ks then None else route_ids (or_meta s1) k)" for k using D by simp
  have rid2: "rid (or_meta s2) k = rid (or_meta s1) k" if "k \<in> ?used" for k
    using that ids2 [of k] unfolding ks by (simp add: rid_def)
  have apart: "rid (or_meta s1) (routeIDAnnotationForIndex i) \<notin> rid (or_meta s1) ` set ks" if i: "i < length routes" for i
  proof
    assume "rid (or_meta s1) (routeIDAnnotationForIndex i) \<in> rid (or_meta s1) ` set ks"
    then obtain k where k: "k \<in> set ks" "rid (or_meta s1) k = rid (or_meta s1) (routeIDAnnotationForIndex i)" by auto
    then have "k \<in> ?K" "k \<noteq> routeIDAnnotationForIndex i" "routeIDAnnotationForIndex i \<in> ?K"
      using i unfolding ks id_keys_def by auto
    then have "rid (or_meta s1) k = []" using c1 k(2) unfolding coherent_def by blast
    then show False using k(2) held_id [OF L h1 [OF i]] by simp
  qed
  have "held V E build (or_world s2) (or_meta s2) i (routes ! i)" if "i < length routes" for i
    by (rule held_cong [OF h1 [OF that]]) (use D apart [OF that] rid2 that in auto)
  moreover have dom2: "dom (route_ids (or_meta s2)) = ?used"
    using ids2 ids1 unfolding dom_def ks by (auto split: if_splits)
  moreover have "fst (V (or_world s2)) (rid (or_meta s) k) = None" if "k \<in> dom (route_ids (or_meta s)) - ?used" for k
    using D that rid1 unfolding ks by auto
  moreover have "fst (V (or_world s2)) x = fst (V (or_world s)) x"
    if x: "x \<notin> rid (or_meta s) ` ?K" "x \<notin> rid (or_meta s2) ` dom (route_ids (or_meta s2))" for x
  proof -
    have "x \<notin> rid (or_meta s1) ` ?K"
    proof
      assume "x \<in> rid (or_meta s1) ` ?K"
      then obtain k where k: "k \<in> ?K" "x = rid (or_meta s1) k" by auto
      show False
      proof (cases "k \<in> ?used")
        case True
        then show False using x(2) k rid2 dom2 by auto
      next
        case False
        then have "k \<in> set ks" using k(1) unfolding ks id_keys_def by auto
        then show False using x(1) k rid1 by auto
      qed
    qed
    moreover have "x \<notin> rid (or_meta s1) ` set ks" using x(1) rid1 unfolding ks id_keys_def by auto
    ultimately show ?thesis using frame1 x(1) D by simp
  qed
  ultimately show ?thesis unfolding routes_in_api_def by blast
qed

lemma keeps_phases:
  assumes "separate_routes V E"
  shows "keeps (route_view V) (prepare_ingress E ic)" "keeps (route_view V) (drop_old_policies E i j)"
  using assms unfolding prepare_ingress_def drop_old_policies_def separate_routes_def
  by (auto intro!: keeps_intros keeps_policy_steps simp: route_ids_simps split: prod.split)

lemma sync_object_routes_ok:
  assumes L: "lawful_routes V (ae_api E)" and b: "builds build"
    and d: "distinct (map (\<lambda>r. deref_str (r_Name r)) routes)"
    and c: "coherent (V (or_world s)) (id_keys (or_meta s) (length routes)) (map (\<lambda>r. deref_str (r_Name r)) routes) (rid (or_meta s))"
    and u: "sync_object_routes E build routes s = (s', Inr u)"
  shows "routes_in_api V E build routes (or_world s) (or_meta s) (or_world s') (or_meta s')"
proof -
  let ?ks = "filter (\<lambda>k. k \<notin> set (map routeIDAnnotationForIndex [0..<length routes])) (allRouteIDAnnotations (om_annotations (or_meta s)))"
  have "act_bind (act_each (upsert_indexed_route E build) (enumerate 0 routes)) (\<lambda>_. delete_routes (ae_api E) False ?ks) s = (s', Inr u)"
    using u by (simp add: sync_object_routes_def act_bind_def get_meta_def)
  then obtain x s1 where "act_each (upsert_indexed_route E build) (enumerate 0 routes) s = (s1, Inr x)"
    and "delete_routes (ae_api E) False ?ks s1 = (s', Inr u)" by (rule act_bind_InrE)
  moreover have "distinct ?ks" by (simp add: allRouteIDAnnotations_def)
  moreover have "set ?ks = dom (route_ids (or_meta s)) - routeIDAnnotationForIndex ` {0..<length routes}"
    by (auto simp: set_allRouteIDAnnotations)
  ultimately show ?thesis using routes_then_delete [OF L b d _ _ c] by simp
qed

lemma upsert_ingress_routes_ok:
  assumes L: "lawful_routes V (ae_api E)" and sep: "separate_routes V E"
    and d: "distinct (map (\<lambda>r. deref_str (r_Name r)) routes)"
    and c: "coherent (V (or_world s)) (id_keys (or_meta s) (length routes)) (map (\<lambda>r. deref_str (r_Name r)) routes) (rid (or_meta s))"
    and u: "upsert_ingress_routes E ic routes s = (s', Inr u)"
  shows "\<exists>policyIDs kps. routes_in_api V E (api_ingress_route policyIDs kps) routes (or_world s) (or_meta s) (or_world s') (or_meta s')"
proof -
  obtain p s1 where p: "route_view V s1 = route_view V s"
    and "(case p of (existingPolicyID, updatedPolicyID, kps) \<Rightarrow>
      act_bind (sync_object_routes E (api_ingress_route (if updatedPolicyID \<noteq> [] then [updatedPolicyID] else []) kps) routes)
        (\<lambda>_. drop_old_policies E existingPolicyID updatedPolicyID)) s1 = (s', Inr u)"
    using u unfolding upsert_ingress_routes_def by (rule keeps_InrE [OF _ keeps_phases(1) [OF sep]])
  then obtain ex policyIDs up kps where "act_bind (sync_object_routes E (api_ingress_route policyIDs kps) routes) (\<lambda>_. drop_old_policies E ex up) s1 = (s', Inr u)"
    by (cases p) auto
  then obtain x s2 where s2: "sync_object_routes E (api_ingress_route policyIDs kps) routes s1 = (s2, Inr x)"
    and s': "drop_old_policies E ex up s2 = (s', Inr u)" by (rule act_bind_InrE)
  have eq: "V (or_world s1) = V (or_world s)" "route_ids (or_meta s1) = route_ids (or_meta s)"
    "V (or_world s') = V (or_world s2)" "route_ids (or_meta s') = route_ids (or_meta s2)"
    using p keepsD [OF keeps_phases(2) [OF sep] s'] by simp_all
  have rid: "rid (or_meta s1) = rid (or_meta s)" "rid (or_meta s') = rid (or_meta s2)"
    "id_keys (or_meta s1) = id_keys (or_meta s)" using eq by (auto simp: rid_def id_keys_def fun_eq_iff)
  have "routes_in_api V E (api_ingress_route policyIDs kps) routes (or_world s1) (or_meta s1) (or_world s2) (or_meta s2)"
    by (rule sync_object_routes_ok [OF L builds_ingress d _ s2]) (use c eq rid in simp)
  then show ?thesis unfolding routes_in_api_def held_def eq rid by blast
qed

text \<open>A patch answers with the annotations that were sent.\<close>

definition patch_echoes :: "'w api_env \<Rightarrow> bool" where
  "patch_echoes E \<longleftrightarrow>
     (\<forall>k m m1 w w' m2. kc_Patch (ae_k8s E) k m m1 w = (w', Inr m2) \<longrightarrow> om_annotations m2 = om_annotations m1)"

lemma patch_if_changed_ok:
  assumes "separate_routes V E" "patch_echoes E" "patch_if_changed E kind m0 (s, r) = (w', m', ch, None)"
  shows "V w' = V (or_world s) \<and> om_annotations m' = om_annotations (or_meta s) \<and> ch = or_changed s \<and> (\<exists>x. r = Inr x)"
proof (cases "or_changed s")
  case True
  obtain w1 res where p: "kc_Patch (ae_k8s E) kind m0 (or_meta s) (or_world s) = (w1, res)"
    by (cases "kc_Patch (ae_k8s E) kind m0 (or_meta s) (or_world s)")
  have "V w1 = V (or_world s)" using assms(1) p keepsD unfolding separate_routes_def by metis
  moreover obtain m2 where "res = Inr m2" "w1 = w'" "m2 = m'" "ch" "\<exists>x. r = Inr x"
    using assms(3) True p by (cases res; cases r) (auto simp: patch_if_changed_def Let_def)
  moreover from this have "om_annotations m' = om_annotations (or_meta s)" using assms(2) p unfolding patch_echoes_def by blast
  ultimately show ?thesis using True by auto
next
  case False
  then show ?thesis using assms(3) by (cases r) (auto simp: patch_if_changed_def Let_def)
qed

lemma patch_if_changed_keeps:
  assumes "keeps W (kc_Patch (ae_k8s E) kind m0 (or_meta s))" "patch_if_changed E kind m0 (s, r) = (w', m', ch, err)"
  shows "W w' = W (or_world s)"
proof (cases "or_changed s")
  case True
  obtain w1 res where p: "kc_Patch (ae_k8s E) kind m0 (or_meta s) (or_world s) = (w1, res)"
    by (cases "kc_Patch (ae_k8s E) kind m0 (or_meta s) (or_world s)")
  then have "w' = w1" using assms(2) True by (cases res) (auto simp: patch_if_changed_def Let_def)
  then show ?thesis using keepsD [OF assms(1) p] by simp
next
  case False
  then show ?thesis using assms(2) by (simp add: patch_if_changed_def)
qed

lemma upsertOneIngress_ok:
  assumes L: "lawful_routes V (ae_api E)" and sep: "separate_routes V E" and echo: "patch_echoes E"
    and r: "ingressToRoutes (ae_ann E) (ae_slug E) ic = Inr routes"
    and d: "distinct (map (\<lambda>r. deref_str (r_Name r)) routes)"
    and c: "coherent (V w) (id_keys (ic_meta ic) (length routes)) (map (\<lambda>r. deref_str (r_Name r)) routes) (rid (ic_meta ic))"
    and u: "upsertOneIngress E ic w = (w', m', ch, None)"
  shows "\<exists>policyIDs kps. routes_in_api V E (api_ingress_route policyIDs kps) routes w (ic_meta ic) w' m'"
proof -
  let ?s = "\<lparr>or_world = w, or_meta = ic_meta ic, or_changed = False\<rparr>"
  obtain s' res where s': "upsert_ingress_routes E ic routes ?s = (s', res)" by (cases "upsert_ingress_routes E ic routes ?s")
  then have "patch_if_changed E IngressKind (ic_meta ic) (s', res) = (w', m', ch, None)"
    using u r by (simp add: upsertOneIngress_def)
  note p = patch_if_changed_ok [OF sep echo this]
  then obtain x where x: "res = Inr x" by blast
  obtain policyIDs kps where "routes_in_api V E (api_ingress_route policyIDs kps) routes w (ic_meta ic) (or_world s') (or_meta s')"
    using upsert_ingress_routes_ok [OF L sep d, of ?s ic s' x] c s' x by auto
  moreover have "route_ids m' = route_ids (or_meta s')" using p by (simp add: route_ids_def fun_eq_iff)
  ultimately show ?thesis using p unfolding routes_in_api_def held_def rid_def by auto
qed

subsection \<open>Deleting an ingress\<close>

lemma deleteKeyPairsForSecrets_changed:
  "deleteKeyPairsForSecrets E ns w = (w', c, None) \<Longrightarrow> c \<longleftrightarrow> ns \<noteq> []"
  by (cases ns) (auto split: prod.splits sum.splits)

lemma keeps_deleteKeyPairForSecret:
  assumes "ops_keep V (api_keypairs (ae_api E))" "\<And>k n. keeps V (kc_Get (ae_k8s E) k n)" "\<And>k m m'. keeps V (kc_Patch (ae_k8s E) k m m')"
  shows "keeps V (deleteKeyPairForSecret E n)"
  unfolding deleteKeyPairForSecret_def findKeyPairByName_def deleteKeyPair_def Let_def
  by (auto intro!: keeps_intros assms split: sum.split option.split)

lemma keeps_deleteKeyPairs:
  assumes "\<And>n. keeps V (deleteKeyPairForSecret E n)"
  shows "deleteKeyPairsForSecrets E ns w = (w', c, err) \<Longrightarrow> V w' = V w"
proof (induction ns arbitrary: w c)
  case (Cons n ns)
  obtain w1 r where r: "deleteKeyPairForSecret E n w = (w1, r)" by (cases "deleteKeyPairForSecret E n w")
  then have "V w1 = V w" using keepsD [OF assms] by blast
  with r Cons show ?case by (auto split: prod.splits sum.splits)
qed simp

text \<open>The routes and the policies do not share state with each other, with the key pairs or with the cluster.\<close>

definition independent :: "('w \<Rightarrow> 'v) \<Rightarrow> ('w \<Rightarrow> 'p) \<Rightarrow> 'w api_env \<Rightarrow> bool" where
  "independent V P E \<longleftrightarrow> separate_routes V E \<and> ops_keep P (api_routes (ae_api E)) \<and> ops_keep P (api_keypairs (ae_api E)) \<and>
     (\<forall>k n. keeps P (kc_Get (ae_k8s E) k n)) \<and> (\<forall>k m m'. keeps P (kc_Patch (ae_k8s E) k m m'))"

lemma keeps_api_deleteRoutes:
  assumes "ops_keep P (api_routes A)"
  shows "api_deleteRoutes A ks (w, m) = ((w', m'), c, err) \<Longrightarrow> P w' = P w"
proof (induction ks arbitrary: w m c)
  case (Cons k ks)
  obtain w1 r where r: "deleteRoute A (annotation m k) w = (w1, r)" by (cases "deleteRoute A (annotation m k) w")
  then have "P w1 = P w" using keepsD [OF keeps_shared(2) [OF assms]] unfolding deleteRoute_def by blast
  with r Cons show ?case by (auto split: prod.splits sum.splits)
qed simp

lemma api_deleteRoutes_annotations:
  "api_deleteRoutes A ks (w, m) = ((w', m'), c, err) \<Longrightarrow> \<forall>k \<in> set ks. HasPrefix k apiRouteIDAnnotationPrefix \<Longrightarrow>
   om_finalizers m' = om_finalizers m \<and> annotation m' apiPolicyIDAnnotation = annotation m apiPolicyIDAnnotation"
proof (induction ks arbitrary: w m c)
  case (Cons k ks)
  have "k \<noteq> apiPolicyIDAnnotation" using Cons.prems(2) annotation_prefixes(1) by auto
  then have "annotation (delete_annotation m k) apiPolicyIDAnnotation = annotation m apiPolicyIDAnnotation"
    "om_finalizers (delete_annotation m k) = om_finalizers m"
    by (simp_all add: annotation_def delete_annotation_def mget_str_def gomap_simps)
  with Cons show ?case by (auto split: prod.splits sum.splits)
qed simp

lemma delete_resources_ok:
  assumes L: "lawful_routes V (ae_api E)" and LP: "lawful_policies P (ae_api E)" and ind: "independent V P E"
    and d: "delete_resources E s = (s', Inr u)"
  shows "fst (V (or_world s')) = (\<lambda>x. if x \<in> rid (or_meta s) ` dom (route_ids (or_meta s)) then None else fst (V (or_world s)) x) \<and>
    fst (P (or_world s')) = (\<lambda>x. if x = annotation (or_meta s) apiPolicyIDAnnotation \<and> x \<noteq> [] then None else fst (P (or_world s)) x) \<and>
    om_finalizers (or_meta s') = om_finalizers (or_meta s) \<and>
    or_changed s' = (or_changed s \<or> dom (route_ids (or_meta s)) \<noteq> {} \<or> annotation (or_meta s) apiPolicyIDAnnotation \<noteq> [])"
proof -
  let ?ks = "allRouteIDAnnotations (om_annotations (or_meta s))" and ?i = "annotation (or_meta s) apiPolicyIDAnnotation"
  have ks: "distinct ?ks" "\<forall>k \<in> set ?ks. HasPrefix k apiRouteIDAnnotationPrefix" "set ?ks = dom (route_ids (or_meta s))"
    by (auto simp: allRouteIDAnnotations_def set_allRouteIDAnnotations [symmetric])
  have "act_bind (delete_routes (ae_api E) True ?ks) (\<lambda>_. act_bind (deletePolicyForObject (ae_api E)) note_changed) s = (s', Inr u)"
    using d unfolding delete_resources_def bind_get_meta .
  then obtain x s1 where s1: "delete_routes (ae_api E) True ?ks s = (s1, Inr x)"
    and rest: "act_bind (deletePolicyForObject (ae_api E)) note_changed s1 = (s', Inr u)" by (rule act_bind_InrE)
  note D = delete_routes_ok [OF L s1 ks(1,2)]
  obtain w1 m1 c err where del: "api_deleteRoutes (ae_api E) ?ks (or_world s, or_meta s) = ((w1, m1), c, err)"
    by (cases "api_deleteRoutes (ae_api E) ?ks (or_world s, or_meta s)") auto
  then have s1eq: "or_world s1 = w1" "or_meta s1 = m1" using s1 by (auto simp: delete_routes_def)
  have P1: "P (or_world s1) = P (or_world s)"
    using keeps_api_deleteRoutes [of P "ae_api E", OF _ del] ind unfolding independent_def s1eq by blast
  have m1: "om_finalizers (or_meta s1) = om_finalizers (or_meta s)" "annotation (or_meta s1) apiPolicyIDAnnotation = ?i"
    using api_deleteRoutes_annotations [OF del ks(2)] unfolding s1eq by simp_all
  have changed1: "or_changed s1 \<longleftrightarrow> or_changed s \<or> dom (route_ids (or_meta s)) \<noteq> {}"
  proof -
    have "?ks = [] \<longleftrightarrow> dom (route_ids (or_meta s)) = {}" unfolding ks(3) [symmetric] by simp
    then show ?thesis using D by metis
  qed
  have V1: "fst (V (or_world s1)) = (\<lambda>x. if x \<in> rid (or_meta s) ` dom (route_ids (or_meta s)) then None else fst (V (or_world s)) x)"
    using D ks(3) by simp
  show ?thesis
  proof (cases "?i = []")
    case True
    then have "s' = s1" using rest m1(2)
      by (simp add: act_bind_def deletePolicyForObject_def get_meta_def act_return_def note_changed_def)
    moreover have "(\<lambda>x. if x = ?i \<and> x \<noteq> [] then None else fst (P (or_world s)) x) = fst (P (or_world s))" using True by auto
    ultimately show ?thesis using V1 P1 m1 changed1 True by simp
  next
    case False
    obtain w2 r where r: "deletePolicy (ae_api E) ?i (or_world s1) = (w2, r)" by (cases "deletePolicy (ae_api E) ?i (or_world s1)")
    obtain y where y: "r = Inr y" and s': "s' = s1\<lparr>or_world := w2, or_meta := delete_annotation (or_meta s1) apiPolicyIDAnnotation, or_changed := True\<rparr>"
      using rest r False m1(2)
      by (cases r) (auto simp: act_bind_def deletePolicyForObject_def get_meta_def act_return_def note_changed_def in_world_def change_meta_def)
    have "P w2 = ((fst (P (or_world s1)))(?i := None), snd (P (or_world s1)))"
      using pk.delete_by_id_ok [OF LP, of ?i "or_world s1" w2 y] r y by (simp add: deletePolicy_def)
    moreover have "V w2 = V (or_world s1)"
      using keepsD [OF keeps_deletePolicy r] ind unfolding independent_def separate_routes_def by blast
    ultimately show ?thesis using V1 P1 m1 False unfolding s' by (auto simp: delete_annotation_def fun_eq_iff)
  qed
qed

lemma delete_ingress_ok:
  assumes L: "lawful_routes V (ae_api E)" and LP: "lawful_policies P (ae_api E)" and ind: "independent V P E"
    and d: "delete_ingress E tls k s = (tls', s', Inr u)" and ch: "\<not> or_changed s"
  shows "fst (V (or_world s')) = (\<lambda>x. if x \<in> rid (or_meta s) ` dom (route_ids (or_meta s)) then None else fst (V (or_world s)) x) \<and>
    fst (P (or_world s')) = (\<lambda>x. if x = annotation (or_meta s) apiPolicyIDAnnotation \<and> x \<noteq> [] then None else fst (P (or_world s)) x) \<and>
    tls' = fst (RemoveEntity tls k) \<and>
    om_finalizers (or_meta s') =
      (if route_ids (or_meta s) = Map.empty \<and> annotation (or_meta s) apiPolicyIDAnnotation = [] \<and> snd (RemoveEntity tls k) = []
       then filter (\<lambda>x. x \<noteq> apiFinalizer) (om_finalizers (or_meta s)) else om_finalizers (or_meta s))"
proof -
  obtain s1 r1 where s1: "delete_resources E s = (s1, r1)" by (cases "delete_resources E s")
  obtain u1 where r1: "r1 = Inr u1" using d s1 by (cases r1) (auto simp: delete_ingress_def)
  obtain t unref where R: "RemoveEntity tls k = (t, unref)" by (cases "RemoveEntity tls k")
  obtain w c err where kp: "deleteKeyPairsForSecrets E unref (or_world s1) = (w, c, err)"
    by (cases "deleteKeyPairsForSecrets E unref (or_world s1)")
  have err: "err = None" and s': "tls' = t"
    "s' = remove_finalizer_unless_changed (s1\<lparr>or_world := w, or_changed := (or_changed s1 \<or> c)\<rparr>)"
    using d s1 r1 R kp by (cases err; auto simp: delete_ingress_def)+
  note D = delete_resources_ok [OF L LP ind s1 [unfolded r1]]
  have keep1: "keeps V (deleteKeyPairForSecret E n)" "keeps P (deleteKeyPairForSecret E n)" for n
    using ind unfolding independent_def separate_routes_def by (auto intro!: keeps_deleteKeyPairForSecret)
  have keep: "V w = V (or_world s1)" "P w = P (or_world s1)"
    by (rule keeps_deleteKeyPairs [OF keep1(1) kp], rule keeps_deleteKeyPairs [OF keep1(2) kp])
  have c: "c \<longleftrightarrow> unref \<noteq> []" using deleteKeyPairsForSecrets_changed [of E unref "or_world s1" w c] kp err by simp
  have world: "or_world s' = w" unfolding s' by (simp add: remove_finalizer_unless_changed_def)
  have "om_finalizers (or_meta s') = (if or_changed s1 \<or> c then om_finalizers (or_meta s1) else filter (\<lambda>x. x \<noteq> apiFinalizer) (om_finalizers (or_meta s1)))"
    unfolding s' by (simp add: remove_finalizer_unless_changed_def RemoveFinalizer_def)
  then show ?thesis using D keep c ch R unfolding world s'(1) by (simp add: dom_eq_empty_conv)
qed

end
