(* ===== verification/Api_Table.thy ===== *)
theory Api_Table
  imports Api_Ingress Settings_Sync
begin

text \<open>
  A service with the behaviour that \<open>lawful\<close> asks for: each kind of resource is a numbered table in which names are
  unique, and the cluster is a table of objects. It shows that the hypotheses of the properties about the unified API
  can hold together, and their witnesses run on it.
\<close>

type_synonym 'r table = "nat \<times> (string, 'r) gomap"

definition table_id :: "nat \<Rightarrow> string" where
  "table_id i = ''r'' @ show_nat i"

definition table_get :: "('r \<Rightarrow> string option) \<Rightarrow> 'r table \<Rightarrow> string \<Rightarrow> 'r option" where
  "table_get id_of t j =
     (case map_of (snd t) j of
        None \<Rightarrow> None
      | Some s \<Rightarrow> if id_of s = Some j \<and> list_ex (\<lambda>i. j = table_id i) [0..<fst t] then Some s else None)"

definition table_view :: "('r \<Rightarrow> string option) \<Rightarrow> 'r table \<Rightarrow> 'r view" where
  "table_view id_of t = (table_get id_of t, table_id ` {0..<fst t})"

definition name_taken :: "('r \<Rightarrow> string option) \<Rightarrow> ('r \<Rightarrow> string option) \<Rightarrow> 'r table \<Rightarrow> 'r \<Rightarrow> bool" where
  "name_taken id_of name_of t r \<longleftrightarrow>
     name_of r \<noteq> None \<and> list_ex (\<lambda>(k, s). table_get id_of t k = Some s \<and> name_of s = name_of r \<and> id_of r \<noteq> Some k) (snd t)"

definition table_ops ::
  "('r \<Rightarrow> string option) \<Rightarrow> (string option \<Rightarrow> 'r \<Rightarrow> 'r) \<Rightarrow> ('r \<Rightarrow> string option) \<Rightarrow> ('w \<Rightarrow> 'r table) \<Rightarrow> ('r table \<Rightarrow> 'w \<Rightarrow> 'w)
     \<Rightarrow> ('w, 'r) res_ops" where
  "table_ops id_of set_id name_of get put =
     \<lparr>ro_Get = (\<lambda>j w. (w, case table_get id_of (get w) j of None \<Rightarrow> Inl (RpcError CodeNotFound []) | Some s \<Rightarrow> Inr s)),
      ro_Create = (\<lambda>r w.
        if name_taken id_of name_of (get w) r then (w, Inl (RpcError CodeAlreadyExists []))
        else let j = table_id (fst (get w)); s = set_id (Some j) r
             in (put (Suc (fst (get w)), AList.update j s (snd (get w))) w, Inr s)),
      ro_Update = (\<lambda>r w.
        case id_of r of
          None \<Rightarrow> (w, Inl (RpcError CodeUnknown []))
        | Some j \<Rightarrow>
            if table_get id_of (get w) j = None then (w, Inl (RpcError CodeNotFound []))
            else if name_taken id_of name_of (get w) r then (w, Inl (RpcError CodeAlreadyExists []))
            else (put (fst (get w), AList.update j r (snd (get w))) w, Inr ())),
      ro_Delete = (\<lambda>j w.
        if table_get id_of (get w) j = None then (w, Inl (RpcError CodeNotFound []))
        else (put (fst (get w), AList.delete j (snd (get w))) w, Inr ())),
      ro_List = (\<lambda>_ n w. (w, Inr (map snd (filter (\<lambda>(k, s). table_get id_of (get w) k = Some s \<and> name_of s = Some n) (snd (get w))))))\<rparr>"

lemma table_id_inj: "table_id i = table_id j \<longleftrightarrow> i = j"
  unfolding table_id_def by (metis decimal_show_nat option.inject same_append_eq)

lemma table_get_Some: "table_get id_of t j = Some s \<Longrightarrow> id_of s = Some j \<and> j \<noteq> [] \<and> j \<in> table_id ` {0..<fst t}"
  by (auto simp: table_get_def table_id_def list_ex_iff split: option.splits if_splits)

lemma table_get_update:
  assumes "id_of s = Some j" "j \<in> table_id ` {0..<n}"
  shows "table_get id_of (n, AList.update j s t) = (table_get id_of (n, t))(j \<mapsto> s)"
  using assms by (auto simp: table_get_def gomap_simps fun_eq_iff list_ex_iff split: option.split)

lemma table_get_create:
  assumes "id_of s = Some (table_id n)"
  shows "table_get id_of (Suc n, AList.update (table_id n) s t) = (table_get id_of (n, t))(table_id n \<mapsto> s)"
proof
  fix k
  show "table_get id_of (Suc n, AList.update (table_id n) s t) k = ((table_get id_of (n, t))(table_id n \<mapsto> s)) k"
    using assms by (auto simp: table_get_def gomap_simps list_ex_iff less_Suc_eq split: option.split)
qed

lemma table_lawful:
  assumes put: "\<And>t w. get (put t w) = t" and id: "\<And>i r. id_of (set_id i r) = i"
    and set: "\<And>i j r. set_id i (set_id j r) = set_id i r" and ag: "\<And>r. ag r r"
  shows "lawful id_of set_id name_of ag (\<lambda>w. table_view id_of (get w)) (table_ops id_of set_id name_of get put)"
  unfolding lawful_def
proof (intro conjI allI impI)
  show "id_of s = Some j" "j \<noteq> []" "j \<in> snd (table_view id_of (get w))"
    if "fst (table_view id_of (get w)) j = Some s" for w j s
    using table_get_Some [of id_of "get w" j s] that by (simp_all add: table_view_def)
next
  fix w w' r s assume c: "ro_Create (table_ops id_of set_id name_of get put) r w = (w', Inr s)"
  obtain n t where nt: "get w = (n, t)" by (cases "get w")
  show "\<exists>j. id_of s = Some j \<and> j \<notin> snd (table_view id_of (get w)) \<and>
      table_view id_of (get w') = ((fst (table_view id_of (get w)))(j \<mapsto> s), insert j (snd (table_view id_of (get w)))) \<and>
      ag s (set_id (Some j) r)"
    using c nt by (intro exI [of _ "table_id n"])
      (auto simp: table_ops_def table_view_def Let_def put id ag table_id_inj table_get_create atLeast0_lessThan_Suc split: if_splits)
next
  fix w w' r j u assume u: "ro_Update (table_ops id_of set_id name_of get put) r w = (w', Inr u)" and j: "id_of r = Some j"
  obtain n t where nt: "get w = (n, t)" by (cases "get w")
  have "j \<in> table_id ` {0..<n}"
    using u j nt table_get_Some [of id_of "(n, t)" j] by (auto simp: table_ops_def split: if_splits)
  then show "\<exists>s. table_view id_of (get w') = ((fst (table_view id_of (get w)))(j \<mapsto> s), snd (table_view id_of (get w))) \<and> ag s r"
    using u j nt by (intro exI [of _ r]) (auto simp: table_ops_def table_view_def put ag table_get_update split: if_splits)
next
  fix w w' j u assume d: "ro_Delete (table_ops id_of set_id name_of get put) j w = (w', Inr u)"
  obtain n t where nt: "get w = (n, t)" by (cases "get w")
  have "table_get id_of (n, AList.delete j t) = (table_get id_of (n, t))(j := None)"
    by (auto simp: table_get_def gomap_simps fun_eq_iff split: option.split)
  then show "table_view id_of (get w') = ((fst (table_view id_of (get w)))(j := None), snd (table_view id_of (get w)))"
    using d nt by (auto simp: table_ops_def table_view_def put split: if_splits)
qed (auto simp: table_ops_def table_view_def put Let_def split: option.splits if_splits)

subsection \<open>An environment\<close>

record table_world =
  tw_routes :: "api_route table"
  tw_policies :: "api_policy table"
  tw_keypairs :: "api_keypair table"
  tw_objects :: "(string \<times> namespaced_name, object_meta) gomap"

definition table_api :: "table_world pom_api" where
  "table_api =
     \<lparr>api_routes = table_ops ar_Id ar_set_Id ar_Name tw_routes (\<lambda>t w. w\<lparr>tw_routes := t\<rparr>),
      api_policies = table_ops ap_Id ap_set_Id ap_Name tw_policies (\<lambda>t w. w\<lparr>tw_policies := t\<rparr>),
      api_keypairs = table_ops kp_Id kp_set_Id kp_Name tw_keypairs (\<lambda>t w. w\<lparr>tw_keypairs := t\<rparr>)\<rparr>"

definition table_k8s :: "table_world k8s_client" where
  "table_k8s =
     \<lparr>kc_Get = (\<lambda>k n w. (w, case map_of (tw_objects w) (k, n) of None \<Rightarrow> Inl NotFound | Some m \<Rightarrow> Inr m)),
      kc_Patch = (\<lambda>k m m' w. (w\<lparr>tw_objects := AList.update (k, GetNamespacedName m') m' (tw_objects w)\<rparr>, Inr m'))\<rparr>"

definition table_ppl :: ppl_env where
  "table_ppl = \<lparr>pp_flatten_claims = (\<lambda>c. c), pp_yaml = (\<lambda>_. Inr \<lparr>pp_Rules = []\<rparr>),
     pp_ToPPL = (\<lambda>c. \<lparr>pp_Rules = [\<lparr>pr_And = [],
       pr_Or = (if cp_AllowPublicUnauthenticatedAccess c then [''accept''] else []) @
         (if cp_AllowAnyAuthenticatedUser c then [''authenticated_user''] else []) @ cp_AllowedDomains c @ cp_AllowedUsers c,
       pr_Not = [], pr_Nor = []\<rparr>]\<rparr>),
     pp_MarshalJSON = (\<lambda>p. Inr ''ppl'')\<rparr>"

definition table_env :: "table_world api_env" where
  "table_env = \<lparr>ae_api = table_api, ae_k8s = table_k8s,
     ae_GetSettings = (\<lambda>_ w. (w, Inl (RpcError CodeUnknown []))), ae_UpdateSettings = (\<lambda>_ w. (w, Inr ())),
     ae_namespaceID = None, ae_ann = ex_env, ae_ppl = table_ppl, ae_slug = (\<lambda>s. s), ae_order = (\<lambda>n. [0..<n]),
     ae_marshal_route = (\<lambda>_. None), ae_marshal_policy = (\<lambda>_. None), ae_settings = ex_settings_env,
     ae_merge_settings = (\<lambda>_. Inl [])\<rparr>"

definition empty_world :: table_world where
  "empty_world = \<lparr>tw_routes = (0, []), tw_policies = (0, []), tw_keypairs = (0, []), tw_objects = []\<rparr>"

abbreviation route_table :: "table_world \<Rightarrow> api_route view" where
  "route_table \<equiv> (\<lambda>w. table_view ar_Id (tw_routes w))"

abbreviation policy_table :: "table_world \<Rightarrow> api_policy view" where
  "policy_table \<equiv> (\<lambda>w. table_view ap_Id (tw_policies w))"

abbreviation keypair_table :: "table_world \<Rightarrow> api_keypair view" where
  "keypair_table \<equiv> (\<lambda>w. table_view kp_Id (tw_keypairs w))"

lemma table_env_lawful:
  "lawful_routes route_table (ae_api table_env)" "lawful_policies policy_table (ae_api table_env)"
  "lawful_keypairs keypair_table (ae_api table_env)"
proof -
  have "route_agrees r r" "policy_agrees p p" "keypair_agrees k k" for r p k
    by (simp_all add: agrees_def route_Equal_def policy_Equal_def keypair_Equal_def)
  then show "lawful_routes route_table (ae_api table_env)" "lawful_policies policy_table (ae_api table_env)"
    "lawful_keypairs keypair_table (ae_api table_env)"
    by (simp_all add: table_env_def table_api_def table_lawful rk.id_set rk.set_set pk.id_set pk.set_set kk.id_set kk.set_set)
qed

lemma table_ops_keep: "(\<And>t w. V (put t w) = V w) \<Longrightarrow> ops_keep V (table_ops id_of set_id name_of get put)"
  by (auto simp: ops_keep_def keeps_def table_ops_def Let_def split: option.split)

lemma table_env_independent: "independent route_table policy_table table_env" "patch_echoes table_env"
  by (auto simp: independent_def separate_routes_def table_env_def table_api_def table_k8s_def table_ops_keep keeps_def patch_echoes_def)

end
