(* ===== verification/Api_Spec.thy ===== *)
theory Api_Spec
  imports Api_Table
begin

text \<open>
  The properties of the reconciler for the unified API: what it leaves in the service after a route, an ingress and
  a deletion, and where it loses track of what it created.
\<close>

subsection \<open>One route\<close>

definition retry_ok :: "('w \<Rightarrow> api_route view) \<Rightarrow> 'w pom_api \<Rightarrow> (api_route \<Rightarrow> string option) \<Rightarrow> string option \<Rightarrow> api_route \<Rightarrow> 'w \<Rightarrow> string option \<Rightarrow> bool" where
  "retry_ok V A marshalError ns route w i \<longleftrightarrow>
     (\<exists>w'. upsertOneRoute A marshalError ns (ar_set_Id i route) w = (w', Inr (False, i)) \<and> V w' = V w)"

text \<open>C12: After a successful upsert the route is stored under the returned id as requested, nothing else is touched but the route with the remembered id, and upserting again under that id finds nothing to change, as long as the service can be read.\<close>

theorem upsertOneRoute_idempotent:
  assumes "lawful_routes V A"
    and "upsertOneRoute A marshalError ns route w = (w', Inr (ch, i))"
    and "route_mask ns (api_request ns route) = api_request ns route"
    and "\<forall>j. marshalError (ar_set_Id (Some j) route) = None"
    and "\<forall>j s. fst (V w') j = Some s \<longrightarrow> (\<exists>w'' s'. ro_Get (api_routes A) j w' = (w'', Inr s'))"
  shows "upserted ar_Name route_agrees (\<lambda>j. ar_set_Id (Some j) (api_request ns route)) (deref_str (ar_Name route))
      (deref_str (ar_Id route)) ch i (V w) (V w') \<and> retry_ok V A marshalError ns route w' i"
proof -
  have up: "upserted ar_Name route_agrees (\<lambda>j. ar_set_Id (Some j) (api_request ns route)) (deref_str (ar_Name route))
      (deref_str (ar_Id route)) ch i (V w) (V w')" by (rule upsertOneRoute_ok [OF assms(1,2)])
  then obtain j s where j: "i = Some j" "fst (V w') j = Some s" "route_agrees s (ar_set_Id (Some j) (api_request ns route))"
    unfolding upserted_def by blast
  obtain w'' s' where "ro_Get (api_routes A) j w' = (w'', Inr s')" using assms(5) j(2) by blast
  then show ?thesis
    using up upsertOneRoute_again [OF assms(1,3) j(2,3)] assms(4) j(1) unfolding retry_ok_def by blast
qed

text \<open>A route of an example, and the service with one route in it.\<close>

definition ex_api_route :: api_route where
  "ex_api_route = api_of_route (new_route\<lparr>r_Name := Some ''web'', r_From := ''https://a.example.com''\<rparr>)"

theorem upsertOneRoute_idempotent_witness:
  "\<exists>w. upsertOneRoute table_api (\<lambda>_. None) None ex_api_route empty_world = (w, Inr (True, Some ''r0'')) \<and>
     retry_ok route_table table_api (\<lambda>_. None) None ex_api_route w (Some ''r0'')"
proof -
  let ?run = "upsertOneRoute table_api (\<lambda>_. None) None ex_api_route empty_world"
  have "snd ?run = Inr (True, Some ''r0'')" by code_simp
  then obtain w where w: "?run = (w, Inr (True, Some ''r0''))" by (cases ?run) auto
  have "lawful_routes route_table table_api" using table_env_lawful(1) by (simp add: table_env_def)
  moreover have "route_mask None (api_request None ex_api_route) = api_request None ex_api_route" by code_simp
  moreover have "\<exists>w'' s'. ro_Get (api_routes table_api) j w = (w'', Inr s')" if "fst (route_table w) j = Some s" for j s
    using that by (simp add: table_api_def table_ops_def table_view_def)
  ultimately have "retry_ok route_table table_api (\<lambda>_. None) None ex_api_route w (Some ''r0'')"
    using upsertOneRoute_idempotent [OF _ w, of route_table] by blast
  then show ?thesis using w by blast
qed

subsection \<open>An ingress\<close>



subsection \<open>Deletion\<close>

text \<open>C13: After an ingress has been deleted without an error, exactly the routes and the policy it remembered are gone from the API, and its references to secrets are removed.\<close>

theorem api_Delete_spec:
  assumes "lawful_routes V (ae_api E)" "lawful_policies P (ae_api E)" "independent V P E"
    and "kc_Get (ae_k8s E) IngressKind name w = (w0, Inr m)"
    and "api_Delete E (w, tls) name = ((w', tls'), ch, None)"
  shows "fst (V w') = (\<lambda>x. if x \<in> rid m ` dom (route_ids m) then None else fst (V w) x) \<and>
    fst (P w') = (\<lambda>x. if x = annotation m apiPolicyIDAnnotation \<and> x \<noteq> [] then None else fst (P w) x) \<and>
    tls' = fst (RemoveEntity tls (Key (om_kind m) name))"
proof -
  let ?s = "\<lparr>or_world = w0, or_meta = m, or_changed = False\<rparr>"
  obtain t s r where d: "delete_ingress E tls (Key (om_kind m) name) ?s = (t, s, r)"
    by (cases "delete_ingress E tls (Key (om_kind m) name) ?s") auto
  obtain w2 m2 where p: "patch_if_changed E IngressKind m (s, r) = (w2, m2, ch, None)" and eqs: "w' = w2" "tls' = t"
    using assms(4,5) d by (cases "patch_if_changed E IngressKind m (s, r)") (auto simp: api_Delete_def)
  have "\<exists>u. r = Inr u"
    using p by (cases r) (auto simp: patch_if_changed_def Let_def split: if_splits prod.splits sum.splits)
  then obtain u where u: "r = Inr u" by blast
  have keep: "keeps V (kc_Get (ae_k8s E) IngressKind name)" "keeps P (kc_Get (ae_k8s E) IngressKind name)"
    "keeps V (kc_Patch (ae_k8s E) IngressKind m (or_meta s))" "keeps P (kc_Patch (ae_k8s E) IngressKind m (or_meta s))"
    using assms(3) unfolding independent_def separate_routes_def by blast+
  have world: "V w2 = V (or_world s)" "P w2 = P (or_world s)"
    using patch_if_changed_keeps [OF keep(3) p] patch_if_changed_keeps [OF keep(4) p] by blast+
  have "V w0 = V w" "P w0 = P w" using keepsD [OF keep(1) assms(4)] keepsD [OF keep(2) assms(4)] by blast+
  then show ?thesis using delete_ingress_ok [OF assms(1-3) d [unfolded u]] world eqs by (simp cong: if_cong)
qed

text \<open>The service and the cluster after the example ingress has been processed.\<close>

definition ex_synced_world :: table_world where
  "ex_synced_world = fst (upsertOneIngress table_env ex_plain_ic empty_world)"

definition ex_ingress_name :: namespaced_name where
  "ex_ingress_name = NamespacedName ''ns'' ''web''"

theorem api_Delete_spec_witness:
  "\<exists>w' tls'. api_Delete table_env (ex_synced_world, NewTLSSecretsMap) ex_ingress_name = ((w', tls'), True, None) \<and>
     fst (route_table ex_synced_world) ''r0'' \<noteq> None \<and> fst (route_table w') ''r0'' = None"
proof -
  let ?run = "api_Delete table_env (ex_synced_world, NewTLSSecretsMap) ex_ingress_name"
  let ?get = "kc_Get (ae_k8s table_env) IngressKind ex_ingress_name ex_synced_world"
  have "snd ?run = (True, None)" by code_simp
  then obtain w' tls' where run: "?run = ((w', tls'), True, None)" by (cases ?run) auto
  have "case snd ?get of Inr m \<Rightarrow> routeIDAnnotationForIndex 0 \<in> dom (route_ids m) \<and> rid m (routeIDAnnotationForIndex 0) = ''r0'' | Inl _ \<Rightarrow> False"
    unfolding dom_def by code_simp
  then obtain w0 m where get: "?get = (w0, Inr m)" and "''r0'' \<in> rid m ` dom (route_ids m)"
    by (cases ?get) (force split: sum.splits)
  moreover have "fst (route_table ex_synced_world) ''r0'' \<noteq> None" by code_simp
  ultimately show ?thesis
    using api_Delete_spec [OF table_env_lawful(1,2) table_env_independent(1) get run] run by simp
qed

text \<open>A deletion takes the finalizer off an ingress exactly when there was nothing to delete in the API: when routes, a policy or key pairs have been deleted the finalizer stays, and a further deletion is needed to release the ingress.\<close>

theorem delete_ingress_finalizer:
  assumes "lawful_routes V (ae_api E)" "lawful_policies P (ae_api E)" "independent V P E"
    and "delete_ingress E tls k \<lparr>or_world = w, or_meta = m, or_changed = False\<rparr> = (tls', s', Inr u)"
    and "apiFinalizer \<in> set (om_finalizers m)"
  shows "apiFinalizer \<notin> set (om_finalizers (or_meta s')) \<longleftrightarrow>
    route_ids m = Map.empty \<and> annotation m apiPolicyIDAnnotation = [] \<and> snd (RemoveEntity tls k) = []"
  using delete_ingress_ok [OF assms(1-4)] assms(5) by simp

definition ex_synced_meta :: object_meta where
  "ex_synced_meta = fst (snd (upsertOneIngress table_env ex_plain_ic empty_world))"

theorem delete_ingress_finalizer_witness:
  "\<exists>tls' s'. delete_ingress table_env NewTLSSecretsMap (Key IngressKind ex_ingress_name)
       \<lparr>or_world = ex_synced_world, or_meta = ex_synced_meta, or_changed = False\<rparr> = (tls', s', Inr ()) \<and>
     apiFinalizer \<in> set (om_finalizers (or_meta s'))"
proof -
  let ?run = "delete_ingress table_env NewTLSSecretsMap (Key IngressKind ex_ingress_name)
       \<lparr>or_world = ex_synced_world, or_meta = ex_synced_meta, or_changed = False\<rparr>"
  have "snd (snd ?run) = Inr ()" by code_simp
  then obtain tls' s' where run: "?run = (tls', s', Inr ())" by (cases ?run) auto
  have "apiFinalizer \<in> set (om_finalizers ex_synced_meta)" by code_simp
  moreover have "route_ids ex_synced_meta (routeIDAnnotationForIndex 0) \<noteq> None" by code_simp
  then have "route_ids ex_synced_meta \<noteq> Map.empty" by auto
  ultimately show ?thesis
    using delete_ingress_finalizer [OF table_env_lawful(1,2) table_env_independent(1) run] run by blast
qed

subsection \<open>Where track is lost\<close>

text \<open>
  A route that was created before its id could be saved is found again by its name. When it needs no update, the code
  notes no change: the id is put into the ingress in memory and never into the cluster.
\<close>

definition ex_forgotten_ic :: ingress_config where
  "ex_forgotten_ic = ex_plain_ic\<lparr>ic_Ingress := (ic_Ingress ex_plain_ic)\<lparr>ing_meta :=
     (ic_meta ex_plain_ic)\<lparr>om_finalizers := [apiFinalizer]\<rparr>\<rparr>\<rparr>"

definition ex_forgotten_world :: table_world where
  "ex_forgotten_world = ex_synced_world\<lparr>tw_objects := [((IngressKind, ex_ingress_name), ic_meta ex_forgotten_ic)]\<rparr>"

text \<open>An ingress whose route is in the API but whose annotation was not saved is processed without an error and without a change, so that the annotation is not saved this time either; deleting the ingress then leaves the route in the API.\<close>

theorem adopted_route_forgotten:
  "\<exists>m. upsertOneIngress table_env ex_forgotten_ic ex_forgotten_world = (ex_forgotten_world, m, False, None) \<and>
     annotation m (routeIDAnnotationForIndex 0) = ''r0'' \<and>
     fst (route_table (fst (fst (api_Delete table_env (ex_forgotten_world, NewTLSSecretsMap) ex_ingress_name)))) ''r0'' \<noteq> None \<and>
     snd (api_Delete table_env (ex_forgotten_world, NewTLSSecretsMap) ex_ingress_name) = (True, None)"
proof -
  let ?run = "upsertOneIngress table_env ex_forgotten_ic ex_forgotten_world"
  have "fst ?run = ex_forgotten_world" by code_simp
  moreover have "snd (snd ?run) = (False, None)" by code_simp
  moreover have "annotation (fst (snd ?run)) (routeIDAnnotationForIndex 0) = ''r0''" by code_simp
  moreover have "fst (route_table (fst (fst (api_Delete table_env (ex_forgotten_world, NewTLSSecretsMap) ex_ingress_name)))) ''r0'' \<noteq> None"
    by code_simp
  moreover have "snd (api_Delete table_env (ex_forgotten_world, NewTLSSecretsMap) ex_ingress_name) = (True, None)" by code_simp
  ultimately show ?thesis by (cases ?run) auto
qed

text \<open>
  The id of a route belongs to its index. When the first of two paths is removed, the route of the first index is to
  become that of the second path while the route of the second index still has this name, and a service in which
  names are unique refuses the update.
\<close>

definition ex_paths_ic :: "object_meta \<Rightarrow> string list \<Rightarrow> ingress_config" where
  "ex_paths_ic m paths = ex_plain_ic\<lparr>ic_Ingress := (ic_Ingress ex_plain_ic)\<lparr>ing_meta := m, ing_rules :=
     [\<lparr>ir_host = ''a.example.com'', ir_http = Some (map (\<lambda>p. \<lparr>ip_path = p, ip_type = Some PathTypePrefix,
         ip_service = Some \<lparr>sb_name = ''svc'', sb_port = \<lparr>bp_name = ''http'', bp_number = 0\<rparr>\<rparr>\<rparr>) paths)\<rparr>]\<rparr>\<rparr>"

definition ex_two_paths :: "table_world \<times> object_meta \<times> bool \<times> api_sync_error option" where
  "ex_two_paths = upsertOneIngress table_env (ex_paths_ic (ic_meta ex_plain_ic) [''/a'', ''/b'']) empty_world"

text \<open>With names unique in the service, an ingress whose first path is removed cannot be synchronised any more: the update is refused and the routes of both paths stay as they are, however often it is tried.\<close>

theorem removed_path_stuck:
  "snd (snd ex_two_paths) = (True, None) \<and>
   (let ic = ex_paths_ic (fst (snd ex_two_paths)) [''/b''] in
    \<exists>m. upsertOneIngress table_env ic (fst ex_two_paths) =
      (fst ex_two_paths, m, False, Some (ErrRpc (RpcError CodeAlreadyExists []))) \<and> m = ic_meta ic)"
proof -
  let ?ic = "ex_paths_ic (fst (snd ex_two_paths)) [''/b'']"
  let ?run = "upsertOneIngress table_env ?ic (fst ex_two_paths)"
  have "fst ?run = fst ex_two_paths" by code_simp
  moreover have "fst (snd ?run) = ic_meta ?ic" by code_simp
  moreover have "snd (snd ?run) = (False, Some (ErrRpc (RpcError CodeAlreadyExists [])))" by code_simp
  moreover have "snd (snd ex_two_paths) = (True, None)" by code_simp
  ultimately show ?thesis unfolding Let_def by (cases ?run) auto
qed

text \<open>
  Two ingresses that refer to one TLS secret: each has its own copy of the secret, and only the copy of the last one
  gets the id of the key pair that is created for it.
\<close>

definition ex_client_ic :: "string \<Rightarrow> ingress_config" where
  "ex_client_ic name = ex_plain_ic\<lparr>ic_Ingress := (ic_Ingress ex_plain_ic)\<lparr>ing_meta := (new_meta ''Ingress'' ''ns'' name)\<lparr>om_annotations :=
       [(''p/tls_client_secret'', ''tls'')]\<rparr>,
     ing_rules := [\<lparr>ir_host = name @ ''.example.com'', ir_http = Some [\<lparr>ip_path = ''/'', ip_type = Some PathTypePrefix,
       ip_service = Some \<lparr>sb_name = ''svc'', sb_port = \<lparr>bp_name = ''http'', bp_number = 0\<rparr>\<rparr>\<rparr>]\<rparr>]\<rparr>\<rparr>"

text \<open>The first synchronisation of two ingresses that refer to one new TLS secret fails for the first of them, which finds no key pair id in its copy of the secret; only the routes of the last one are created.\<close>

theorem shared_secret_fails:
  "\<exists>st. api_Set table_env (empty_world, NewTLSSecretsMap) [ex_client_ic ''one'', ex_client_ic ''two''] =
     (st, True, Some (ErrJoined [ErrJoined [ErrJoined [ErrKeyPairIDMissing ''tls'']]])) \<and>
     map (r_From \<circ> ar_route \<circ> snd) (snd (tw_routes (fst st))) = [''https://two.example.com'']"
proof -
  let ?run = "api_Set table_env (empty_world, NewTLSSecretsMap) [ex_client_ic ''one'', ex_client_ic ''two'']"
  have "snd ?run = (True, Some (ErrJoined [ErrJoined [ErrJoined [ErrKeyPairIDMissing ''tls'']]]))" by code_simp
  moreover have "map (r_From \<circ> ar_route \<circ> snd) (snd (tw_routes (fst (fst ?run)))) = [''https://two.example.com'']" by code_simp
  ultimately show ?thesis by (cases ?run) auto
qed

end
