(* ===== verification/Api_Gateway.thy ===== *)
theory Api_Gateway
  imports Api_Table Gateway_Translate
begin

text \<open>
  \<^verbatim>\<open>SetGatewayConfig\<close> of \<^verbatim>\<open>pomerium/sync_api.go\<close>: the certificates, policies and routes of the Gateway API objects as
  resources of the unified API, with the ids in the annotations of the policy filters and the routes.
\<close>

subsection \<open>Policies\<close>

definition HTTPRouteKind :: string where "HTTPRouteKind = ''HTTPRoute''"
definition PolicyFilterKind :: string where "PolicyFilterKind = ''PolicyFilter''"

definition with_filter_meta :: "policy_filter \<Rightarrow> object_meta \<Rightarrow> policy_filter" where
  "with_filter_meta pf m = pf\<lparr>plf_obj := (plf_obj pf)\<lparr>pf_meta := m\<rparr>\<rparr>"

definition filter_policy_request :: "'w api_env \<Rightarrow> object_meta \<Rightarrow> api_policy \<Rightarrow> api_policy" where
  "filter_policy_request E m p =
     p\<lparr>ap_OriginatorId := Some originatorID,
       ap_policy := (ap_policy p)\<lparr>p_Rego := [], p_Name := Some (ae_slug E (om_namespace m @ '' '' @ om_name m))\<rparr>,
       ap_NamespaceId := ae_namespaceID E,
       ap_Id := (let i = annotation m apiPolicyIDAnnotation in if i \<noteq> [] then Some i else ap_Id p)\<rparr>"

text \<open>One policy filter: whether anything changed, and the source and id of its policy with the filter as left in memory.
  The patch is sent in any case.\<close>

definition sync_filter_policy ::
  "'w api_env \<Rightarrow> policy_filter \<Rightarrow> 'w \<Rightarrow> 'w \<times> bool \<times> (api_sync_error + (string \<times> string) \<times> policy_filter)" where
  "sync_filter_policy E pf w =
     (let m = pf_meta (plf_obj pf) in
      case ApplyToRoute (PolicyFilterPtr (Some pf)) new_route of
        (_, Some e) \<Rightarrow> (w, False, Inl (ErrExtractPolicy e))
      | (route, None) \<Rightarrow>
          (case act_bind (convertProto (ae_marshal_policy E) (api_of_policy (hd (r_Policies route)))) (\<lambda>p.
                  act_bind (upsertPolicy (ae_api E) (ae_namespaceID E) (filter_policy_request E m p)) (\<lambda>(changed, i).
                    act_return (changed, deref_str (p_SourcePpl (ap_policy p)), deref_str i))) w of
             (w1, Inl e) \<Rightarrow> (w1, False, Inl e)
           | (w1, Inr (changed, ppl, i)) \<Rightarrow>
               let m' = (if changed then fst (AddFinalizer (set_annotation m apiPolicyIDAnnotation i) apiFinalizer) else m) in
               (case kc_Patch (ae_k8s E) PolicyFilterKind m m' w1 of
                  (w2, Inl e) \<Rightarrow> (w2, changed, Inl (ErrK8s e))
                | (w2, Inr m2) \<Rightarrow> (w2, changed, Inr ((ppl, i), with_filter_meta pf m2)))))"

text \<open>The filters that are not being deleted, up to the first error; a nil filter panics.\<close>

fun syncGatewayPolicies ::
  "'w api_env \<Rightarrow> (extension_filter_key \<times> extension_filter) list \<Rightarrow> (string, string) gomap \<Rightarrow> 'w
     \<Rightarrow> 'w \<times> bool \<times> (extension_filter_key \<times> extension_filter) list \<times> (api_sync_error + (string, string) gomap)" where
  "syncGatewayPolicies E [] policyIDs w = (w, False, [], Inr policyIDs)"
| "syncGatewayPolicies E ((k, PolicyFilterPtr None) # efs) policyIDs w =
     (w, False, (k, PolicyFilterPtr None) # efs, Inl ErrNilPointer)"
| "syncGatewayPolicies E ((k, PolicyFilterPtr (Some pf)) # efs) policyIDs w =
     (if om_deletion (pf_meta (plf_obj pf)) \<noteq> None
      then (case syncGatewayPolicies E efs policyIDs w of (w', c, efs', r) \<Rightarrow> (w', c, (k, PolicyFilterPtr (Some pf)) # efs', r))
      else (case sync_filter_policy E pf w of
              (w1, c1, Inl e) \<Rightarrow> (w1, c1, (k, PolicyFilterPtr (Some pf)) # efs, Inl e)
            | (w1, c1, Inr ((ppl, i), pf')) \<Rightarrow>
                (case syncGatewayPolicies E efs (AList.update ppl i policyIDs) w1 of
                   (w2, c2, efs', r) \<Rightarrow> (w2, c1 \<or> c2, (k, PolicyFilterPtr (Some pf')) # efs', r))))"

text \<open>
  The filters that are being deleted. The original is copied after the annotation has been removed in memory, so the
  patch takes off the finalizer only.
\<close>

definition remove_filter_policy :: "'w api_env \<Rightarrow> object_meta \<Rightarrow> 'w \<Rightarrow> 'w \<times> bool \<times> (api_sync_error + object_meta)" where
  "remove_filter_policy E m w =
     (case deletePolicyForObject (ae_api E) \<lparr>or_world = w, or_meta = m, or_changed = False\<rparr> of
        (s, Inl e) \<Rightarrow> (or_world s, False, Inl e)
      | (s, Inr deleted) \<Rightarrow>
          let original = or_meta s in
          (case kc_Patch (ae_k8s E) PolicyFilterKind original (fst (RemoveFinalizer original apiFinalizer)) (or_world s) of
             (w1, Inl e) \<Rightarrow> (w1, deleted, Inl (ErrK8s e))
           | (w1, Inr m1) \<Rightarrow> (w1, deleted, Inr m1)))"

fun removeDeletedGatewayPolicies ::
  "'w api_env \<Rightarrow> (extension_filter_key \<times> extension_filter) list \<Rightarrow> 'w \<Rightarrow> 'w \<times> bool \<times> api_sync_error option" where
  "removeDeletedGatewayPolicies E [] w = (w, False, None)"
| "removeDeletedGatewayPolicies E ((k, PolicyFilterPtr None) # efs) w = (w, False, Some ErrNilPointer)"
| "removeDeletedGatewayPolicies E ((k, PolicyFilterPtr (Some pf)) # efs) w =
     (if om_deletion (pf_meta (plf_obj pf)) = None then removeDeletedGatewayPolicies E efs w
      else (case remove_filter_policy E (pf_meta (plf_obj pf)) w of
              (w1, c1, Inl e) \<Rightarrow> (w1, c1, Some e)
            | (w1, c1, Inr _) \<Rightarrow> (case removeDeletedGatewayPolicies E efs w1 of (w2, c2, err) \<Rightarrow> (w2, c1 \<or> c2, err))))"

subsection \<open>Routes\<close>

definition replaceInlinePolicies :: "(string, string) gomap \<Rightarrow> pb_route \<Rightarrow> api_sync_error + api_route" where
  "replaceInlinePolicies policyIDs route =
     ebind (efold (\<lambda>ids (i, p).
         case p_SourcePpl p of
           None \<Rightarrow> Inl (ErrInlinePolicySource i (deref_str (r_Name route)))
         | Some ppl \<Rightarrow>
             (case map_of policyIDs ppl of
                None \<Rightarrow> Inl (ErrInlinePolicyID i (deref_str (r_Name route)))
              | Some j \<Rightarrow> Inr (ids @ [j]))) [] (enumerate 0 (r_Policies route))) (\<lambda>ids.
       Inr ((api_of_route (route\<lparr>r_Policies := []\<rparr>))\<lparr>ar_PolicyIds := ids\<rparr>))"

definition api_gateway_route :: "(string, string) gomap \<Rightarrow> string option \<Rightarrow> pb_route \<Rightarrow> api_route" where
  "api_gateway_route policyIDs i route =
     ar_set_Id i (case replaceInlinePolicies policyIDs route of Inr r \<Rightarrow> r | Inl _ \<Rightarrow> api_of_route route)"

definition upsert_gateway_route :: "'w api_env \<Rightarrow> (string, string) gomap \<Rightarrow> nat \<times> pb_route \<Rightarrow> ('w, unit) obj_action" where
  "upsert_gateway_route E policyIDs ir =
     act_bind (act_lift (replaceInlinePolicies policyIDs (snd ir))) (\<lambda>_.
       upsert_indexed_route E (api_gateway_route policyIDs) ir)"

text \<open>One route object: upserted route by route, or all its routes deleted when it is being deleted.\<close>

definition sync_gateway_route ::
  "'w api_env \<Rightarrow> gateway_env \<Rightarrow> gateway_config \<Rightarrow> (string, string) gomap \<Rightarrow> gateway_http_route_config \<Rightarrow> ('w, unit) obj_action" where
  "sync_gateway_route E G config policyIDs gr =
     (if om_deletion (rt_meta (ghc_HTTPRoute gr)) = None
      then act_bind (act_lift (case TranslateRoutes G config gr of Inl e \<Rightarrow> Inl (ErrTranslateRoutes e) | Inr rs \<Rightarrow> Inr rs)) (\<lambda>routes.
           act_bind (act_each (upsert_gateway_route E policyIDs) (enumerate 0 routes)) (\<lambda>_.
             change_meta (\<lambda>m. fst (AddFinalizer m apiFinalizer))))
      else act_bind get_meta (\<lambda>m.
           act_bind (delete_routes (ae_api E) False (allRouteIDAnnotations (om_annotations m))) (\<lambda>_.
             change_meta (\<lambda>m. fst (RemoveFinalizer m apiFinalizer)))))"

text \<open>The routes in order; each object is patched at its end, unless an error has come before.\<close>

fun sync_gateway_routes ::
  "'w api_env \<Rightarrow> gateway_env \<Rightarrow> gateway_config \<Rightarrow> (string, string) gomap \<Rightarrow> gateway_http_route_config list \<Rightarrow> 'w
     \<Rightarrow> 'w \<times> bool \<times> api_sync_error option" where
  "sync_gateway_routes E G config policyIDs [] w = (w, False, None)"
| "sync_gateway_routes E G config policyIDs (gr # grs) w =
     (let m = rt_meta (ghc_HTTPRoute gr) in
      case sync_gateway_route E G config policyIDs gr \<lparr>or_world = w, or_meta = m, or_changed = False\<rparr> of
        (s, Inl e) \<Rightarrow> (or_world s, or_changed s, Some e)
      | (s, Inr _) \<Rightarrow>
          (case kc_Patch (ae_k8s E) HTTPRouteKind m (or_meta s) (or_world s) of
             (w1, Inl e) \<Rightarrow> (w1, or_changed s, Some (ErrK8s e))
           | (w1, Inr _) \<Rightarrow>
               (case sync_gateway_routes E G config policyIDs grs w1 of (w2, c, err) \<Rightarrow> (w2, or_changed s \<or> c, err))))"

subsection \<open>The configuration\<close>

definition api_SetGatewayConfig :: "'w api_env \<Rightarrow> gateway_env \<Rightarrow> 'w api_state \<Rightarrow> gateway_config \<Rightarrow> 'w api_result" where
  "api_SetGatewayConfig E G st config =
     (case st of (w0, tls0) \<Rightarrow>
      case UpdateGatewayConfig tls0 (gcf_Certificates config) of (tls, unreferenced) \<Rightarrow>
      case deleteKeyPairsForSecrets E unreferenced w0 of
        (w1, _, Some e) \<Rightarrow> ((w1, tls), False, Some e)
      | (w1, c1, None) \<Rightarrow>
          (case syncSecrets E (gcf_Certificates config) w1 of
             (w2, _, Inl e) \<Rightarrow> ((w2, tls), c1, Some e)
           | (w2, c2, Inr _) \<Rightarrow>
               (case syncGatewayPolicies E (visit (ae_order E) (gcf_ExtensionFilters config)) [] w2 of
                  (w3, _, _, Inl e) \<Rightarrow> ((w3, tls), c1 \<or> c2, Some e)
                | (w3, c3, efs, Inr policyIDs) \<Rightarrow>
                    (case sync_gateway_routes E G config policyIDs (gcf_Routes config) w3 of
                       (w4, c4, Some e) \<Rightarrow> ((w4, tls), c1 \<or> c2 \<or> c3 \<or> c4, Some e)
                     | (w4, c4, None) \<Rightarrow>
                         (case removeDeletedGatewayPolicies E (visit (ae_order E) efs) w4 of
                            (w5, _, Some e) \<Rightarrow> ((w5, tls), c1 \<or> c2 \<or> c3 \<or> c4, Some e)
                          | (w5, c5, None) \<Rightarrow> ((w5, tls), c1 \<or> c2 \<or> c3 \<or> c4 \<or> c5, None))))))"

subsection \<open>What becomes of a route object\<close>

lemma replaceInlinePolicies_shape:
  "replaceInlinePolicies policyIDs route = Inr r \<Longrightarrow> \<exists>ids. r = (api_of_route (route\<lparr>r_Policies := []\<rparr>))\<lparr>ar_PolicyIds := ids\<rparr>"
  by (auto simp: replaceInlinePolicies_def ebind_Inr_iff)

lemma builds_gateway: "builds (api_gateway_route policyIDs)"
proof -
  have "ar_Name (case replaceInlinePolicies policyIDs r of Inr a \<Rightarrow> a | Inl _ \<Rightarrow> api_of_route r) = r_Name r" for r
    by (cases "replaceInlinePolicies policyIDs r") (auto dest!: replaceInlinePolicies_shape simp: ar_Name_def api_of_route_def)
  then show ?thesis by (simp add: builds_def api_gateway_route_def rk.set_set rk.id_set rk.name_set)
qed

lemma act_each_lift:
  "act_each (\<lambda>x. act_bind (act_lift (g x)) (\<lambda>_. f x)) xs s = (s', Inr u) \<Longrightarrow>
   act_each f xs s = (s', Inr u) \<and> (\<forall>x \<in> set xs. \<exists>y. g x = Inr y)"
proof (induction xs arbitrary: s)
  case (Cons x xs)
  obtain z s1 where z: "act_bind (act_lift (g x)) (\<lambda>_. f x) s = (s1, Inr z)"
    and rest: "act_each (\<lambda>x. act_bind (act_lift (g x)) (\<lambda>_. f x)) xs s1 = (s', Inr u)"
    using Cons.prems by (auto elim: act_bind_InrE)
  from z obtain y where "g x = Inr y" "f x s = (s1, Inr z)" by (auto simp: act_bind_def act_lift_def split: sum.splits)
  then show ?case using Cons.IH [OF rest] by (simp add: act_bind_def)
qed simp

text \<open>The upserted routes are held; what the object remembers for other indices stays, in the object and in the API.\<close>

lemma sync_gateway_route_ok:
  assumes L: "lawful_routes V (ae_api E)" and live: "om_deletion (rt_meta (ghc_HTTPRoute gr)) = None"
    and tr: "TranslateRoutes G config gr = Inr routes"
    and d: "distinct (map (\<lambda>r. deref_str (r_Name r)) routes)"
    and c: "coherent (V (or_world s)) (id_keys (or_meta s) (length routes)) (map (\<lambda>r. deref_str (r_Name r)) routes) (rid (or_meta s))"
    and u: "sync_gateway_route E G config policyIDs gr s = (s', Inr u)"
  shows "(\<forall>i < length routes. held V E (api_gateway_route policyIDs) (or_world s') (or_meta s') i (routes ! i)) \<and>
    (\<forall>r \<in> set routes. \<exists>a. replaceInlinePolicies policyIDs r = Inr a) \<and>
    (\<forall>k \<in> dom (route_ids (or_meta s)) - routeIDAnnotationForIndex ` {0..<length routes}.
       route_ids (or_meta s') k = route_ids (or_meta s) k \<and>
       fst (V (or_world s')) (rid (or_meta s) k) = fst (V (or_world s)) (rid (or_meta s) k))"
proof -
  let ?used = "routeIDAnnotationForIndex ` {0..<length routes}"
  have "act_bind (act_each (upsert_gateway_route E policyIDs) (enumerate 0 routes)) (\<lambda>_. change_meta (\<lambda>m. fst (AddFinalizer m apiFinalizer))) s = (s', Inr u)"
    using u live tr by (simp add: sync_gateway_route_def act_bind_def act_lift_def)
  then obtain x s1 where loop: "act_each (upsert_gateway_route E policyIDs) (enumerate 0 routes) s = (s1, Inr x)"
    and fin: "change_meta (\<lambda>m. fst (AddFinalizer m apiFinalizer)) s1 = (s', Inr u)" by (rule act_bind_InrE)
  note lift = act_each_lift [OF loop [unfolded upsert_gateway_route_def [abs_def]]]
  have eqs: "or_world s' = or_world s1" "route_ids (or_meta s') = route_ids (or_meta s1)"
    using fin by (auto simp: change_meta_def route_ids_simps)
  have R: "(\<forall>i < length routes. held V E (api_gateway_route policyIDs) (or_world s1) (or_meta s1) i (routes ! i)) \<and>
    route_ids (or_meta s1) = (\<lambda>k. if k \<in> ?used then Some (rid (or_meta s1) k) else route_ids (or_meta s) k) \<and>
    (\<forall>k \<in> id_keys (or_meta s) (length routes) - ?used. fst (V (or_world s1)) (rid (or_meta s) k) = fst (V (or_world s)) (rid (or_meta s) k))"
  proof -
    have "routeIDAnnotationForIndex i \<in> id_keys (or_meta s) (length routes)" if "i < length routes" for i
      using that by (simp add: id_keys_def)
    then show ?thesis using upsert_routes_loop [OF L builds_gateway [of policyIDs] d _ _ _ _ c, of 0 routes s1] lift by simp
  qed
  have "\<exists>a. replaceInlinePolicies policyIDs r = Inr a" if r: "r \<in> set routes" for r
  proof -
    obtain i where "i < length routes" "r = routes ! i" using r by (auto simp: in_set_conv_nth)
    then have "(i, r) \<in> set (enumerate 0 routes)" by (simp add: in_set_enumerate_eq)
    then show ?thesis using lift by fastforce
  qed
  moreover have "route_ids (or_meta s') k = route_ids (or_meta s) k \<and> fst (V (or_world s')) (rid (or_meta s) k) = fst (V (or_world s)) (rid (or_meta s) k)"
    if "k \<in> dom (route_ids (or_meta s)) - ?used" for k
    using that R fun_cong [of _ _ k] unfolding eqs id_keys_def by auto
  ultimately show ?thesis using R unfolding held_def rid_def eqs by auto
qed

text \<open>A route object of the Gateway API that is synchronised without an error has each of its routes in the API under the id it remembers, with policy ids in place of inline policies; but routes of indices it no longer has are left in the API and stay remembered, unlike those of an ingress.\<close>

theorem gateway_route_leftovers:
  assumes "lawful_routes V (ae_api E)" "om_deletion (rt_meta (ghc_HTTPRoute gr)) = None"
    and "TranslateRoutes G config gr = Inr routes" "distinct (map (\<lambda>r. deref_str (r_Name r)) routes)"
    and "coherent (V w) (id_keys m (length routes)) (map (\<lambda>r. deref_str (r_Name r)) routes) (rid m)"
    and "sync_gateway_route E G config policyIDs gr \<lparr>or_world = w, or_meta = m, or_changed = False\<rparr> = (s', Inr u)"
  shows "(\<forall>i < length routes. held V E (api_gateway_route policyIDs) (or_world s') (or_meta s') i (routes ! i)) \<and>
    (\<forall>k \<in> dom (route_ids m) - routeIDAnnotationForIndex ` {0..<length routes}.
       route_ids (or_meta s') k = route_ids m k \<and> fst (V (or_world s')) (rid m k) = fst (V w) (rid m k))"
  using sync_gateway_route_ok [OF assms(1-4) _ assms(6)] assms(5) by simp

text \<open>The coherence of remembered ids, as a check over lists.\<close>

lemma coherent_list:
  "coherent v (set ks) names ids \<longleftrightarrow>
     list_all (\<lambda>k. ids k = [] \<or> ids k \<in> snd v) ks \<and>
     list_all (\<lambda>k. list_all (\<lambda>k'. k = k' \<or> ids k \<noteq> ids k' \<or> ids k = []) ks) ks \<and>
     list_all (\<lambda>i. list_all (\<lambda>k. k = routeIDAnnotationForIndex i \<or>
       (case fst v (ids k) of None \<Rightarrow> True | Some x \<Rightarrow> ar_Name x \<noteq> Some (names ! i))) ks) [0..<length names]"
  unfolding coherent_def list_all_iff set_upt by (simp add: Ball_def split: option.split) blast

lemma id_keys_list: "id_keys m n = set (allRouteIDAnnotations (om_annotations m) @ map routeIDAnnotationForIndex [0..<n])"
  by (simp add: id_keys_def set_allRouteIDAnnotations)

text \<open>A route object with two host names, synchronised, and the same object with the first name only.\<close>

definition ex_hosts_rc :: "string list \<Rightarrow> gateway_http_route_config" where
  "ex_hosts_rc hosts = ex_rc\<lparr>ghc_Hostnames := hosts\<rparr>"

definition ex_gateway_run :: "string list \<Rightarrow> table_world obj_run \<Rightarrow> table_world obj_run \<times> (api_sync_error + unit)" where
  "ex_gateway_run hosts s = sync_gateway_route table_env ex_gateway_env (ex_gw_config ''allow'') [(''allow'', ''p0'')] (ex_hosts_rc hosts) s"

definition ex_two_hosts :: "table_world obj_run" where
  "ex_two_hosts = (fst (ex_gateway_run [''a.example.com'', ''b.example.com'']
     \<lparr>or_world = empty_world, or_meta = rt_meta (ghc_HTTPRoute ex_rc), or_changed = False\<rparr>))\<lparr>or_changed := False\<rparr>"

theorem gateway_route_leftovers_witness:
  "\<exists>s'. ex_gateway_run [''a.example.com''] ex_two_hosts = (s', Inr ()) \<and>
     held route_table table_env (api_gateway_route [(''allow'', ''p0'')]) (or_world s') (or_meta s') 0
       (hd (projr (TranslateRoutes ex_gateway_env (ex_gw_config ''allow'') (ex_hosts_rc [''a.example.com''])))) \<and>
     map_option (r_From \<circ> ar_route) (fst (route_table (or_world s')) ''r1'') = Some ''https://b.example.com''"
proof -
  let ?run = "ex_gateway_run [''a.example.com''] ex_two_hosts" and ?w = "or_world ex_two_hosts" and ?m = "or_meta ex_two_hosts"
  let ?tr = "TranslateRoutes ex_gateway_env (ex_gw_config ''allow'') (ex_hosts_rc [''a.example.com''])"
  let ?routes = "projr ?tr"
  have "snd ?run = Inr ()" by code_simp
  then obtain s' where run: "?run = (s', Inr ())" by (cases ?run) auto
  have two: "ex_two_hosts = \<lparr>or_world = ?w, or_meta = ?m, or_changed = False\<rparr>" by (simp add: ex_two_hosts_def)
  have "\<not> isl ?tr" by code_simp
  then have tr: "?tr = Inr ?routes" by (cases ?tr) auto
  have len: "length ?routes = 1" by code_simp
  have d: "distinct (map (\<lambda>r. deref_str (r_Name r)) ?routes)" by code_simp
  have c: "coherent (route_table ?w) (id_keys ?m (length ?routes)) (map (\<lambda>r. deref_str (r_Name r)) ?routes) (rid ?m)"
    unfolding id_keys_list coherent_list by code_simp
  have live: "om_deletion (rt_meta (ghc_HTTPRoute (ex_hosts_rc [''a.example.com'']))) = None" by code_simp
  have "sync_gateway_route table_env ex_gateway_env (ex_gw_config ''allow'') [(''allow'', ''p0'')] (ex_hosts_rc [''a.example.com''])
      \<lparr>or_world = ?w, or_meta = ?m, or_changed = False\<rparr> = (s', Inr ())"
    using run unfolding ex_gateway_run_def by (subst two [symmetric])
  note G = gateway_route_leftovers [OF table_env_lawful(1) live tr d c this]
  have k: "routeIDAnnotationForIndex 1 \<in> dom (route_ids ?m) - routeIDAnnotationForIndex ` {0..<length ?routes}" "rid ?m (routeIDAnnotationForIndex 1) = ''r1''"
    unfolding set_allRouteIDAnnotations [symmetric] by code_simp+
  have "map_option (r_From \<circ> ar_route) (fst (route_table ?w) ''r1'') = Some ''https://b.example.com''" by code_simp
  moreover have "held route_table table_env (api_gateway_route [(''allow'', ''p0'')]) (or_world s') (or_meta s') 0 (?routes ! 0)"
    using G len by simp
  moreover have "?routes ! 0 = hd ?routes" using len by (cases ?routes) simp_all
  moreover have "fst (route_table (or_world s')) ''r1'' = fst (route_table ?w) ''r1''"
    using bspec [OF conjunct2 [OF G] k(1)] unfolding k(2) by blast
  ultimately show ?thesis using run by metis
qed

end
