(* ===== verification/Go_Base64.thy ===== *)
theory Go_Base64
  imports Ingress_Annotations
begin

text \<open>
  \<^verbatim>\<open>encoding/base64\<close>: \<^verbatim>\<open>StdEncoding.DecodeString\<close>, beside \<^verbatim>\<open>EncodeToString\<close> of \<open>Ingress_Annotations\<close>. Line breaks in the
  input are ignored, padding is required, and the unused bits of the last group are not checked. The bootstrap
  configuration carries keys in this encoding, which the start of the controllers decodes again.
\<close>

definition b64_value :: "char \<Rightarrow> nat option" where
  "b64_value c =
     (let n = (of_char c :: nat) in
      if 65 \<le> n \<and> n \<le> 90 then Some (n - 65)
      else if 97 \<le> n \<and> n \<le> 122 then Some (n - 71)
      else if 48 \<le> n \<and> n \<le> 57 then Some (n + 4)
      else if n = 43 then Some 62
      else if n = 47 then Some 63
      else None)"

definition b64_bytes :: "nat \<Rightarrow> string" where
  "b64_bytes x = [char_of (x div 65536), char_of (x div 256 mod 256), char_of (x mod 256)]"

fun decode_quads :: "string \<Rightarrow> string option" where
  "decode_quads [] = Some []"
| "decode_quads (a # b # c # d # rest) =
     (case (b64_value a, b64_value b) of
        (Some u, Some v) \<Rightarrow>
          if rest = [] \<and> c = CHR ''='' \<and> d = CHR ''='' then Some (take 1 (b64_bytes (u * 262144 + v * 4096)))
          else (case b64_value c of
                  None \<Rightarrow> None
                | Some w \<Rightarrow>
                    if rest = [] \<and> d = CHR ''='' then Some (take 2 (b64_bytes (u * 262144 + v * 4096 + w * 64)))
                    else (case (b64_value d, decode_quads rest) of
                            (Some x, Some bs) \<Rightarrow> Some (b64_bytes (u * 262144 + v * 4096 + w * 64 + x) @ bs)
                          | _ \<Rightarrow> None))
      | _ \<Rightarrow> None)"
| "decode_quads _ = None"

definition DecodeString :: "string \<Rightarrow> string option" where
  "DecodeString s = decode_quads (filter (\<lambda>c. c \<noteq> char_of (10::nat) \<and> c \<noteq> char_of (13::nat)) s)"

text \<open>The bytes that \<^verbatim>\<open>DecodeString\<close> returns beside an error: the groups before the faulty one, and a padded group that is
  followed by garbage.\<close>

fun decode_partial :: "string \<Rightarrow> string" where
  "decode_partial (a # b # c # d # rest) =
     (case (b64_value a, b64_value b) of
        (Some u, Some v) \<Rightarrow>
          if c = CHR ''='' \<and> d = CHR ''='' then take 1 (b64_bytes (u * 262144 + v * 4096))
          else (case b64_value c of
                  None \<Rightarrow> []
                | Some w \<Rightarrow>
                    if d = CHR ''='' then take 2 (b64_bytes (u * 262144 + v * 4096 + w * 64))
                    else (case b64_value d of
                            None \<Rightarrow> []
                          | Some x \<Rightarrow> b64_bytes (u * 262144 + v * 4096 + w * 64 + x) @ decode_partial rest))
      | _ \<Rightarrow> [])"
| "decode_partial _ = []"

definition DecodeString_bytes :: "string \<Rightarrow> string" where
  "DecodeString_bytes s = decode_partial (filter (\<lambda>c. c \<noteq> char_of (10::nat) \<and> c \<noteq> char_of (13::nat)) s)"

lemma b64_value_pad: "b64_value (CHR ''='') = None"
  by (simp add: b64_value_def Let_def)

lemma decode_partial_quads: "decode_quads s = Some x \<Longrightarrow> decode_partial s = x"
  by (induction s arbitrary: x rule: decode_quads.induct) (auto split: option.splits if_splits simp: b64_value_pad)

lemma DecodeString_bytes: "DecodeString s = Some x \<Longrightarrow> DecodeString_bytes s = x"
  by (simp add: DecodeString_def DecodeString_bytes_def decode_partial_quads)

subsection \<open>The round trip\<close>

lemma b64_chars:
  assumes "n < 64"
  shows "b64_value (b64_char n) = Some n" "b64_char n \<noteq> char_of (10::nat)" "b64_char n \<noteq> char_of (13::nat)" "b64_char n \<noteq> CHR ''=''"
proof -
  let ?A = "''ABCDEFGHIJKLMNOPQRSTUVWXYZabcdefghijklmnopqrstuvwxyz0123456789+/''"
  have "map b64_value ?A = map Some [0..<64]" by (simp add: b64_value_def Let_def) code_simp
  then have "map b64_value ?A ! n = Some n" using assms by simp
  then have "b64_value (b64_char n) = Some n" using assms nth_map [of n ?A b64_value] by (simp add: b64_char_def)
  moreover have "b64_value (char_of (10::nat)) = None" "b64_value (char_of (13::nat)) = None" "b64_value (CHR ''='') = None"
    by (simp_all add: b64_value_def Let_def)
  ultimately show "b64_value (b64_char n) = Some n" "b64_char n \<noteq> char_of (10::nat)" "b64_char n \<noteq> char_of (13::nat)" "b64_char n \<noteq> CHR ''=''"
    by auto
qed

lemma sextets: "(x::nat) < 16777216 \<Longrightarrow> x div 262144 < 64 \<and> x div 4096 mod 64 < 64 \<and> x div 64 mod 64 < 64 \<and> x mod 64 < 64"
  by (simp add: div_less_iff_less_mult)

lemma sextets_sum: "(x div 262144) * 262144 + (x div 4096 mod 64) * 4096 + (x div 64 mod 64) * 64 + x mod 64 = (x::nat)"
proof -
  define y where "y = x div 64"
  define m where "m = x mod 64"
  define z where "z = y div 64"
  define k where "k = y mod 64"
  define u where "u = z div 64"
  define j where "j = z mod 64"
  have e: "x = 64 * y + m" "y = 64 * z + k" "z = 64 * u + j" by (simp_all add: y_def m_def z_def k_def u_def j_def)
  have d: "x div 4096 = z" "x div 262144 = u" by (simp_all add: y_def z_def u_def flip: div_mult2_eq)
  have "u * 262144 + j * 4096 + k * 64 + m = x" using e by linarith
  then show ?thesis unfolding d y_def [symmetric] m_def [symmetric] k_def [symmetric] j_def [symmetric] .
qed

lemma bytes_bound: "(of_char a :: nat) * 65536 + of_char b * 256 + of_char c < 16777216"
  using nat_of_char_less_256 [of a] nat_of_char_less_256 [of b] nat_of_char_less_256 [of c] by linarith

lemma b64_bytes_join: "b64_bytes (of_char a * 65536 + of_char b * 256 + of_char c) = [a, b, c]"
proof -
  let ?x = "(of_char a :: nat) * 65536 + of_char b * 256 + of_char c"
  have r: "(of_char b :: nat) * 256 + of_char c < 65536" "(of_char c :: nat) < 256"
    using nat_of_char_less_256 [of b] nat_of_char_less_256 [of c] by linarith+
  have "?x div 65536 = of_char a" by (rule div_nat_eqI) (use r in simp_all)
  moreover have d: "?x div 256 = of_char a * 256 + of_char b" by (rule div_nat_eqI) (use r in simp_all)
  moreover have "?x mod 256 = of_char c" using mult_div_mod_eq [of 256 ?x] unfolding d by (simp add: distrib_left)
  moreover have "(of_char a * 256 + of_char b) mod 256 = (of_char b :: nat)" by simp
  ultimately show ?thesis unfolding b64_bytes_def by simp
qed

lemma pad_plain [simp]: "CHR ''='' \<noteq> char_of (10::nat)" "CHR ''='' \<noteq> char_of (13::nat)"
  by (auto dest: arg_cong [where f = "of_char :: char \<Rightarrow> nat"])

lemma encode_plain: "c \<in> set (EncodeToString s) \<Longrightarrow> c \<noteq> char_of (10::nat) \<and> c \<noteq> char_of (13::nat)"
proof (induction s rule: EncodeToString.induct)
  case (1 a b c rest)
  then show ?case using b64_chars sextets [OF bytes_bound [of a b c]] by (auto simp: Let_def)
next
  case (2 a b)
  then show ?case using b64_chars sextets [of "of_char a * 65536 + of_char b * 256"] bytes_bound [of a b "char_of (0::nat)"]
    by (auto simp: Let_def)
next
  case (3 a)
  then show ?case using b64_chars sextets [of "of_char a * 65536"] bytes_bound [of a "char_of (0::nat)" "char_of (0::nat)"]
    by (auto simp: Let_def)
qed simp

lemma decode_group:
  assumes "u < 64" "v < 64" "w < 64" "y < 64"
  shows "decode_quads (b64_char u # b64_char v # b64_char w # b64_char y # rest) =
    map_option ((@) (b64_bytes (u * 262144 + v * 4096 + w * 64 + y))) (decode_quads rest)"
  using b64_chars [OF assms(1)] b64_chars [OF assms(2)] b64_chars [OF assms(3)] b64_chars [OF assms(4)]
  by (simp split: option.split)

lemma decode_pad1:
  assumes "u < 64" "v < 64" "w < 64"
  shows "decode_quads [b64_char u, b64_char v, b64_char w, CHR ''=''] = Some (take 2 (b64_bytes (u * 262144 + v * 4096 + w * 64)))"
  using b64_chars [OF assms(1)] b64_chars [OF assms(2)] b64_chars [OF assms(3)] by simp

lemma decode_pad2:
  assumes "u < 64" "v < 64"
  shows "decode_quads [b64_char u, b64_char v, CHR ''='', CHR ''=''] = Some (take 1 (b64_bytes (u * 262144 + v * 4096)))"
  using b64_chars [OF assms(1)] b64_chars [OF assms(2)] by simp

lemma decode_encode: "decode_quads (EncodeToString s) = Some s"
proof (induction s rule: EncodeToString.induct)
  case (1 a b c rest)
  define x where "x = (of_char a * 65536 + of_char b * 256 + of_char c :: nat)"
  have "x < 16777216" using bytes_bound [of a b c] by (simp add: x_def)
  note v = sextets [OF this]
  have "decode_quads (EncodeToString (a # b # c # rest)) = map_option ((@) (b64_bytes x)) (decode_quads (EncodeToString rest))"
    using decode_group [of "x div 262144" "x div 4096 mod 64" "x div 64 mod 64" "x mod 64"] v
    unfolding sextets_sum by (simp add: Let_def flip: x_def)
  then show ?case using 1 b64_bytes_join [of a b c] by (simp add: x_def)
next
  case (2 a b)
  define x where "x = (of_char a * 65536 + of_char b * 256 :: nat)"
  have "x < 16777216" using bytes_bound [of a b "char_of (0::nat)"] by (simp add: x_def)
  note v = sextets [OF this]
  have "x mod 64 = 0" by (simp add: x_def mod_add_eq [symmetric])
  then have "(x div 262144) * 262144 + (x div 4096 mod 64) * 4096 + (x div 64 mod 64) * 64 = x" using sextets_sum [of x] by simp
  then have "decode_quads (EncodeToString [a, b]) = Some (take 2 (b64_bytes x))"
    using decode_pad1 [of "x div 262144" "x div 4096 mod 64" "x div 64 mod 64"] v by (simp add: Let_def flip: x_def)
  then show ?case using b64_bytes_join [of a b "char_of (0::nat)"] by (simp add: x_def)
next
  case (3 a)
  define x where "x = (of_char a * 65536 :: nat)"
  have "x < 16777216" using bytes_bound [of a "char_of (0::nat)" "char_of (0::nat)"] by (simp add: x_def)
  note v = sextets [OF this]
  have "x mod 64 = 0" by (simp add: x_def)
  moreover have "x div 64 mod 64 = 0" by (simp add: x_def)
  ultimately have "(x div 262144) * 262144 + (x div 4096 mod 64) * 4096 = x" using sextets_sum [of x] by simp
  then have "decode_quads (EncodeToString [a]) = Some (take 1 (b64_bytes x))"
    using decode_pad2 [of "x div 262144" "x div 4096 mod 64"] v by (simp add: Let_def flip: x_def)
  then show ?case using b64_bytes_join [of a "char_of (0::nat)" "char_of (0::nat)"] by (simp add: x_def)
qed simp

lemma DecodeString_EncodeToString [simp]: "DecodeString (EncodeToString s) = Some s"
proof -
  have "filter (\<lambda>c. c \<noteq> char_of (10::nat) \<and> c \<noteq> char_of (13::nat)) (EncodeToString s) = EncodeToString s"
    by (rule filter_True) (use encode_plain in blast)
  then show ?thesis by (simp add: DecodeString_def decode_encode)
qed

end
