(* ===== verification/Bootstrap.thy ===== *)
theory Bootstrap
  imports Go_Base64 Go_Url Go_Json Api_Client Settings_Sync
begin

text \<open>
  \<^verbatim>\<open>pomerium/ctrl/bootstrap.go\<close>, \<^verbatim>\<open>internal/filemgr/filemgr.go\<close> and \<^verbatim>\<open>util/secrets.go\<close>: the options with which the
  embedded Pomerium starts, made from the settings and their secrets. Certificates for the storage are written to
  files named after their content; the files are the state of the actions. The options type of Pomerium is a record
  of the fields this repository sets; parsing and printing of connection strings, the hash, the default flags,
  Pomerium's own validation and \<^verbatim>\<open>ApplySettings\<close>, and the failures of the file system are parameters.
\<close>

subsection \<open>Host and port\<close>

fun split_last :: "char \<Rightarrow> string \<Rightarrow> (string \<times> string) option" where
  "split_last c [] = None"
| "split_last c (x # xs) =
     (case split_last c xs of
        Some (a, b) \<Rightarrow> Some (x # a, b)
      | None \<Rightarrow> if x = c then Some ([], xs) else None)"

datatype host_port_error = MissingPort | TooManyColons | MissingBracket | UnexpectedBracket

text \<open>\<^verbatim>\<open>net.SplitHostPort\<close>.\<close>

definition SplitHostPort :: "string \<Rightarrow> host_port_error + string \<times> string" where
  "SplitHostPort s =
     (case split_last (CHR '':'') s of
        None \<Rightarrow> Inl MissingPort
      | Some (before, port) \<Rightarrow>
          if s \<noteq> [] \<and> hd s = CHR ''[''
          then (case Cut (tl s) (CHR '']'') of
                  (host, rest, found) \<Rightarrow>
                    if \<not> found then Inl MissingBracket
                    else if rest = [] then Inl MissingPort
                    else if rest \<noteq> CHR '':'' # port then Inl (if hd rest = CHR '':'' then TooManyColons else MissingPort)
                    else if CHR ''['' \<in> set (tl s) \<or> CHR '']'' \<in> set rest then Inl UnexpectedBracket
                    else Inr (host, port))
          else if CHR '':'' \<in> set before then Inl TooManyColons
          else if CHR ''['' \<in> set s \<or> CHR '']'' \<in> set s then Inl UnexpectedBracket
          else Inr (before, port))"

subsection \<open>The options\<close>

record pom_options =
  bo_Addr :: string
  bo_AuthenticateInternalURLString :: string
  bo_ClusterLeaderID :: "string option"
  bo_ClusterNodeID :: "string option"
  bo_ClusterNodes :: "string list"
  bo_RaftBindAddress :: "string option"
  bo_ServiceURLs :: "string list"
  bo_ServiceURL :: string
  bo_StorageType :: string
  bo_StorageConnectionString :: string
  bo_RuntimeFlags :: "(string, bool) gomap"
  bo_SharedKey :: string
  bo_CookieSecret :: string
  bo_SigningKey :: string
  bo_Services :: string
  bo_GRPCAddr :: string
  bo_HTTPRedirectAddr :: string
  bo_DeriveInternalDomainCert :: "string option"
  bo_GRPCInsecure :: "bool option"
  bo_MetricsAddr :: string
  bo_HealthCheckAddr :: string
  bo_LogLevel :: string
  bo_ProxyLogLevel :: string
  bo_EnvoyAdminAddress :: string
  bo_HTTP3AdvertisePort :: "32 word option"
  bo_SSHAddr :: string
  bo_Policies :: "pb_route list"
  bo_Settings :: "pb_settings option"

text \<open>\<open>bo_Settings\<close> stands for the options that \<^verbatim>\<open>ApplySettings\<close> derives from a settings message.\<close>

subsection \<open>Managed files\<close>

type_synonym files = "(string, string) gomap"

record fs_env =
  fe_cacheDir :: string
  fe_hash :: "string \<Rightarrow> string"
  fe_mkdir :: "string option"
  fe_write :: "string \<Rightarrow> (string \<times> string option) option"
  fe_chmod :: "string \<Rightarrow> string option"
  fe_remove :: "string \<Rightarrow> bool"
  fe_open :: "string option option"
  fe_readdir :: "string option"
  fe_removeall :: "string \<Rightarrow> bool"

text \<open>\<open>fe_write\<close> is the error of a write and what it left in the file; \<open>fe_open\<close> is \<open>Some None\<close> when the directory does not
  exist; \<open>fe_remove\<close> and \<open>fe_removeall\<close> say whether a file can be removed.\<close>

datatype file_error = FmMkdir string | FmWrite string | FmChmod string | FmDir string

definition Ext :: "string \<Rightarrow> string" where
  "Ext name = (case split_last (CHR ''.'') name of None \<Rightarrow> [] | Some (_, e) \<Rightarrow> if CHR ''/'' \<in> set e then [] else CHR ''.'' # e)"

text \<open>The verb \<^verbatim>\<open>%x\<close> on a string.\<close>

definition hex_string :: "string \<Rightarrow> string" where
  "hex_string s = concat (map (\<lambda>c. [hex_digit (of_char c div 16), hex_digit (of_char c mod 16)]) s)"

definition file_path :: "fs_env \<Rightarrow> string \<Rightarrow> string \<Rightarrow> string" where
  "file_path F fileName data =
     fe_cacheDir F @ ''/'' @ take (length fileName - length (Ext fileName)) fileName @ ''-'' @ hex_string (fe_hash F data) @ Ext fileName"

definition remove_file :: "fs_env \<Rightarrow> string \<Rightarrow> files \<Rightarrow> files" where
  "remove_file F p fs = (if fe_remove F p then AList.delete p fs else fs)"

definition CreateFile :: "fs_env \<Rightarrow> string \<Rightarrow> string \<Rightarrow> (files, file_error, string) action" where
  "CreateFile F fileName data fs =
     (let filePath = file_path F fileName data in
      case fe_mkdir F of
        Some e \<Rightarrow> (fs, Inl (FmMkdir e))
      | None \<Rightarrow>
          if map_of fs filePath \<noteq> None then (fs, Inr filePath)
          else (case fe_write F filePath of
                  Some (e, partial) \<Rightarrow>
                    (remove_file F filePath (case partial of None \<Rightarrow> fs | Some x \<Rightarrow> AList.update filePath x fs), Inl (FmWrite e))
                | None \<Rightarrow>
                    let fs1 = AList.update filePath data fs in
                    (case fe_chmod F filePath of
                       Some e \<Rightarrow> (remove_file F filePath fs1, Inl (FmChmod e))
                     | None \<Rightarrow> (fs1, Inr filePath))))"

text \<open>The loop of \<^verbatim>\<open>DeleteFiles\<close> stops, without an error, at the first file that cannot be removed.\<close>

fun delete_loop :: "fs_env \<Rightarrow> string list \<Rightarrow> files \<Rightarrow> files" where
  "delete_loop F [] fs = fs"
| "delete_loop F (p # ps) fs = (if \<not> fe_removeall F p then fs else delete_loop F ps (AList.delete p fs))"

definition DeleteFiles :: "fs_env \<Rightarrow> files \<Rightarrow> files \<times> file_error option" where
  "DeleteFiles F fs =
     (case fe_open F of
        Some None \<Rightarrow> (fs, None)
      | Some (Some e) \<Rightarrow> (fs, Some (FmDir e))
      | None \<Rightarrow>
          (case fe_readdir F of
             Some e \<Rightarrow> (fs, Some (FmDir e))
           | None \<Rightarrow> (delete_loop F (sort_Strings (map fst fs)) fs, None)))"

subsection \<open>The steps\<close>

record boot_env =
  be_files :: fs_env
  be_parse_url :: "string \<Rightarrow> (string \<times> (string, string list) gomap) option"
  be_url_string :: "string \<Rightarrow> (string, string list) gomap \<Rightarrow> string"
  be_default_flags :: "(string, bool) gomap"
  be_validate :: "pom_options \<Rightarrow> string + pom_options"
  be_apply_settings :: "pom_options \<Rightarrow> pb_settings option \<Rightarrow> pom_options"
  be_settings :: settings_env

text \<open>A parsed URL is the URL without its query and the decoded query. \<^verbatim>\<open>Validate\<close> may also fill in options; it and
  \<^verbatim>\<open>ApplySettings\<close>, for settings without a shared secret, do not change the options below.\<close>

definition keeps_options :: "boot_env \<Rightarrow> bool" where
  "keeps_options E \<longleftrightarrow>
     (\<forall>d d'. be_validate E d = Inr d' \<longrightarrow> bo_StorageType d' = bo_StorageType d \<and> bo_StorageConnectionString d' = bo_StorageConnectionString d \<and>
        (bo_SharedKey d \<noteq> [] \<longrightarrow> bo_SharedKey d' = bo_SharedKey d)) \<and>
     (\<forall>d s. bo_SharedKey (be_apply_settings E d s) = bo_SharedKey d)"

datatype boot_error =
    ErrServerAddr host_port_error
  | ErrSecretsMissing
  | ErrSecretMissingKey string
  | ErrSecretLength string nat nat
  | ErrStorageSecrets secret_error
  | ErrStorageKind
  | ErrStorageKey
  | ErrConnString
  | ErrSslMode
  | ErrSslRootCertSet
  | ErrSslCertSet
  | ErrStorageFile string file_error
  | ErrStoragePanic
  | ErrValidate string
  | ErrAdditional string settings_error

type_synonym boot_step = "pom_options \<Rightarrow> pom_config \<Rightarrow> (files, boot_error, pom_options) action"

definition boot_applyAuthenticate :: "pom_options \<Rightarrow> pom_config \<Rightarrow> boot_error + pom_options" where
  "boot_applyAuthenticate dst src =
     (case ps_IdentityProvider (pc_Spec src) of
        None \<Rightarrow> Inr dst
      | Some _ \<Rightarrow>
          (case SplitHostPort (bo_Addr dst) of
             Inl e \<Rightarrow> Inl (ErrServerAddr e)
           | Inr (host, port) \<Rightarrow>
               Inr (dst\<lparr>bo_AuthenticateInternalURLString :=
                 URL_String ''https'' (JoinHostPort (if host = [] then ''localhost'' else host) port)\<rparr>)))"

definition applyDataBroker :: "pom_options \<Rightarrow> pom_config \<Rightarrow> boot_error + pom_options" where
  "applyDataBroker dst src =
     (case ps_DataBroker (pc_Spec src) of
        None \<Rightarrow> Inr dst
      | Some None \<Rightarrow> Inr dst
      | Some (Some l) \<Rightarrow> Inr (dst\<lparr>bo_ClusterLeaderID := Some l\<rparr>))"

definition applyRuntimeFlags :: "boot_env \<Rightarrow> pom_options \<Rightarrow> pom_config \<Rightarrow> boot_error + pom_options" where
  "applyRuntimeFlags E dst src =
     Inr (dst\<lparr>bo_RuntimeFlags := foldl (\<lambda>m (k, v). AList.update k v m) (be_default_flags E) (ps_RuntimeFlags (pc_Spec src))\<rparr>)"

definition secret_fields :: "(string \<times> int \<times> (string \<Rightarrow> pom_options \<Rightarrow> pom_options)) list" where
  "secret_fields =
     [(''shared_secret'', 32, \<lambda>txt dst. dst\<lparr>bo_SharedKey := txt\<rparr>),
      (''cookie_secret'', 32, \<lambda>txt dst. dst\<lparr>bo_CookieSecret := txt\<rparr>),
      (''signing_key'', -1, \<lambda>txt dst. dst\<lparr>bo_SigningKey := txt\<rparr>)]"

definition secret_step ::
  "secret \<Rightarrow> pom_options \<Rightarrow> string \<times> int \<times> (string \<Rightarrow> pom_options \<Rightarrow> pom_options) \<Rightarrow> boot_error + pom_options" where
  "secret_step s dst f =
     (case f of (key, len, sp) \<Rightarrow>
        let data = secret_get s key in
        if map_of (sec_data s) key = None \<and> len > 0 then Inl (ErrSecretMissingKey key)
        else if len > 0 \<and> int (length data) \<noteq> len then Inl (ErrSecretLength key (nat len) (length data))
        else Inr (sp (EncodeToString data) dst))"

definition applySecrets :: "pom_options \<Rightarrow> pom_config \<Rightarrow> boot_error + pom_options" where
  "applySecrets dst src =
     (case pc_Secrets src of
        None \<Rightarrow> Inl ErrSecretsMissing
      | Some s \<Rightarrow> efold (secret_step s) dst secret_fields)"

definition applyStorageFile :: "string \<Rightarrow> pom_options \<Rightarrow> pom_options" where
  "applyStorageFile path dst = dst\<lparr>bo_StorageType := ''file'', bo_StorageConnectionString := ''file://'' @ path\<rparr>"

text \<open>One certificate file: \<^verbatim>\<open>param.Set\<close> with the path of the new file.\<close>

definition create_param ::
  "boot_env \<Rightarrow> string \<Rightarrow> string \<Rightarrow> string \<Rightarrow> (files, boot_error, string) action" where
  "create_param E what name data fs =
     (case CreateFile (be_files E) name data fs of
        (fs', Inl e) \<Rightarrow> (fs', Inl (ErrStorageFile what e))
      | (fs', Inr p) \<Rightarrow> (fs', Inr p))"

definition storage_ca ::
  "boot_env \<Rightarrow> StorageSecrets \<Rightarrow> (string, string list) gomap \<Rightarrow> (files, boot_error, (string, string list) gomap) action" where
  "storage_ca E ss param =
     (case ss_CA ss of
        None \<Rightarrow> act_return param
      | Some ca \<Rightarrow>
          if map_of param ''sslrootcert'' \<noteq> None then act_fail ErrSslRootCertSet
          else act_bind (create_param E ''ca'' ''sslrootcert'' (secret_get ca CAKey)) (\<lambda>f.
            act_return (AList.update ''sslrootcert'' [f] param)))"

definition storage_tls ::
  "boot_env \<Rightarrow> StorageSecrets \<Rightarrow> (string, string list) gomap \<Rightarrow> (files, boot_error, (string, string list) gomap) action" where
  "storage_tls E ss param =
     (case ss_TLS ss of
        None \<Rightarrow> act_return param
      | Some tls \<Rightarrow>
          if map_of param ''sslcert'' \<noteq> None \<or> map_of param ''sslkey'' \<noteq> None then act_fail ErrSslCertSet
          else act_bind (create_param E ''tls cert'' ''sslcert'' (secret_get tls TLSCertKey)) (\<lambda>cert.
               act_bind (create_param E ''tls key'' ''sslkey'' (secret_get tls TLSPrivateKeyKey)) (\<lambda>key.
                 act_return (AList.update ''sslkey'' [key] (AList.update ''sslcert'' [cert] param)))))"

definition applyStoragePostgres :: "boot_env \<Rightarrow> boot_step" where
  "applyStoragePostgres E dst src =
     (let ss = pc_StorageSecrets src in
      case ss_Secret ss of
        None \<Rightarrow> act_fail ErrStoragePanic
      | Some s \<Rightarrow>
          (case map_of (sec_data s) StorageConnectionStringKey of
             None \<Rightarrow> act_fail ErrStorageKey
           | Some conn \<Rightarrow>
               let dst1 = dst\<lparr>bo_StorageType := ''postgres''\<rparr> in
               if ss_CA ss = None \<and> ss_TLS ss = None then act_return (dst1\<lparr>bo_StorageConnectionString := conn\<rparr>)
               else (case be_parse_url E conn of
                       None \<Rightarrow> act_fail ErrConnString
                     | Some (u, param) \<Rightarrow>
                         if map_of param ''sslmode'' = None then act_fail ErrSslMode
                         else act_bind (storage_ca E ss param) (\<lambda>param1.
                              act_bind (storage_tls E ss param1) (\<lambda>param2.
                                act_return (dst1\<lparr>bo_StorageConnectionString := be_url_string E u param2\<rparr>))))))"

text \<open>Existing files are deleted first; an error of that is only logged.\<close>

definition applyStorage :: "boot_env \<Rightarrow> boot_step" where
  "applyStorage E dst src fs =
     (let fs1 = fst (DeleteFiles (be_files E) fs) in
      case ps_Storage (pc_Spec src) of
        None \<Rightarrow> (fs1, Inr dst)
      | Some st \<Rightarrow>
          (case sg_File st of
             Some path \<Rightarrow> (fs1, Inr (applyStorageFile path dst))
           | None \<Rightarrow>
               (case storage_Validate (pc_StorageSecrets src) of
                  Inl e \<Rightarrow> (fs1, Inl (ErrStorageSecrets e))
                | Inr _ \<Rightarrow>
                    if sg_Postgres st \<noteq> None then applyStoragePostgres E dst src fs1
                    else (fs1, Inl ErrStorageKind))))"

definition boot_lift :: "boot_error + pom_options \<Rightarrow> (files, boot_error, pom_options) action" where
  "boot_lift r fs = (fs, r)"

text \<open>\<^verbatim>\<open>Apply\<close>: the five steps in order, then Pomerium's validation.\<close>

definition Apply :: "boot_env \<Rightarrow> boot_step" where
  "Apply E dst src =
     act_bind (boot_lift (boot_applyAuthenticate dst src)) (\<lambda>d1.
     act_bind (boot_lift (applyDataBroker d1 src)) (\<lambda>d2.
     act_bind (boot_lift (applySecrets d2 src)) (\<lambda>d3.
     act_bind (applyStorage E d3 src) (\<lambda>d4.
     act_bind (boot_lift (applyRuntimeFlags E d4 src)) (\<lambda>d5.
       case be_validate E d5 of Inl e \<Rightarrow> act_fail (ErrValidate e) | Inr d6 \<Rightarrow> act_return d6)))))"

definition ApplyAdditional :: "boot_env \<Rightarrow> pom_options \<Rightarrow> pom_config \<Rightarrow> boot_error + pom_options" where
  "ApplyAdditional E dst src =
     (case ApplyConfig (be_settings E) None new_config (Some src) of
        Inl (step, e) \<Rightarrow> Inl (ErrAdditional step e)
      | Inr (_, pb) \<Rightarrow> Inr (be_apply_settings E dst (cfg_Settings pb)))"

text \<open>\<^verbatim>\<open>NewBootstrapSecrets\<close>: the generation of keys is an argument.\<close>

record 'k key_env =
  ke_NewSigningKey :: "string + 'k"
  ke_EncodePrivateKey :: "'k \<Rightarrow> string + string"
  ke_shared :: string
  ke_cookie :: string

datatype gen_error = GenKey string | GenPem string

definition NewBootstrapSecrets :: "'k key_env \<Rightarrow> namespaced_name \<Rightarrow> gen_error + secret" where
  "NewBootstrapSecrets K name =
     (case ke_NewSigningKey K of
        Inl e \<Rightarrow> Inl (GenKey e)
      | Inr key \<Rightarrow>
          (case ke_EncodePrivateKey K key of
             Inl e \<Rightarrow> Inl (GenPem e)
           | Inr signingKey \<Rightarrow>
               Inr \<lparr>sec_meta = new_meta [] (Namespace name) (Name name), sec_type = SecretTypeOpaque,
                 sec_data = [(''shared_secret'', ke_shared K), (''cookie_secret'', ke_cookie K), (''signing_key'', signingKey)]\<rparr>))"

subsection \<open>Secrets\<close>

text \<open>The bootstrap accepts the secrets exactly when both mandatory keys are present with 32 bytes; the options then hold the
  base64 text of the three keys, and nothing else changes.\<close>

theorem applySecrets_iff:
  "applySecrets dst src = Inr d \<longleftrightarrow>
     (\<exists>s shared cookie. pc_Secrets src = Some s \<and>
        map_of (sec_data s) ''shared_secret'' = Some shared \<and> length shared = 32 \<and>
        map_of (sec_data s) ''cookie_secret'' = Some cookie \<and> length cookie = 32 \<and>
        d = dst\<lparr>bo_SharedKey := EncodeToString shared, bo_CookieSecret := EncodeToString cookie,
          bo_SigningKey := EncodeToString (secret_get s ''signing_key'')\<rparr>)"
proof (cases "pc_Secrets src")
  case None
  then show ?thesis by (simp add: applySecrets_def)
next
  case (Some s)
  then show ?thesis
    by (auto simp: applySecrets_def secret_fields_def secret_step_def ebind_Inr_iff secret_get_def mget_str_def deref_str_def Let_def
        split: option.splits if_splits)
qed

subsection \<open>Files named after their content\<close>

lemma hex_digit_inj: "hex_digit a = hex_digit b \<Longrightarrow> a < 16 \<Longrightarrow> b < 16 \<Longrightarrow> a = b"
  by (metis hex_value_digit option.inject)

lemma hex_string_inj: "hex_string s = hex_string t \<longleftrightarrow> s = t"
proof
  show "hex_string s = hex_string t \<Longrightarrow> s = t"
  proof (induction s arbitrary: t)
    case Nil
    then show ?case by (cases t) (simp_all add: hex_string_def)
  next
    case (Cons c s)
    then obtain d t' where t: "t = d # t'" by (cases t) (simp_all add: hex_string_def)
    have lt: "(of_char x :: nat) div 16 < 16" for x by (simp add: less_mult_imp_div_less)
    have "(of_char c :: nat) div 16 = of_char d div 16" "(of_char c :: nat) mod 16 = of_char d mod 16"
      using Cons.prems lt by (auto simp: t hex_string_def intro: hex_digit_inj)
    then have "(of_char c :: nat) = of_char d" by (metis div_mult_mod_eq)
    then show ?case using Cons by (simp add: t hex_string_def)
  qed
qed simp

definition storage_names :: "string list" where
  "storage_names = [''sslrootcert'', ''sslcert'', ''sslkey'']"

text \<open>Every file in the directory is named after its content.\<close>

definition content_named :: "fs_env \<Rightarrow> files \<Rightarrow> bool" where
  "content_named F fs \<longleftrightarrow> (\<forall>p y. map_of fs p = Some y \<longrightarrow> (\<exists>n \<in> set storage_names. p = file_path F n y))"

lemma Ext_storage: "n \<in> set storage_names \<Longrightarrow> Ext n = []"
  by (auto simp: storage_names_def Ext_def)

lemma file_path_storage: "n \<in> set storage_names \<Longrightarrow> file_path F n x = fe_cacheDir F @ ''/'' @ n @ ''-'' @ hex_string (fe_hash F x)"
  by (simp add: file_path_def Ext_storage)

lemma file_path_inj:
  assumes "n \<in> set storage_names" "m \<in> set storage_names" "file_path F n x = file_path F m y"
  shows "n = m \<and> fe_hash F x = fe_hash F y"
  using assms by (auto simp: file_path_storage hex_string_inj) (auto simp: storage_names_def hex_string_inj)

text \<open>The contents in \<open>D\<close> are told apart by the hash, and no other content is stored.\<close>

definition store_ok :: "fs_env \<Rightarrow> string set \<Rightarrow> files \<Rightarrow> bool" where
  "store_ok F D fs \<longleftrightarrow> content_named F fs \<and> ran (map_of fs) \<subseteq> D \<and> inj_on (fe_hash F) D"

lemma CreateFile_Inr:
  assumes "CreateFile F n x fs = (fs', Inr p)"
  shows "p = file_path F n x \<and> fs' = (if map_of fs p = None then AList.update p x fs else fs)"
  using assms by (auto simp: CreateFile_def Let_def split: option.splits if_splits)

lemma CreateFile_stored:
  assumes "CreateFile F n x fs = (fs', Inr p)" "store_ok F D fs" "x \<in> D" "n \<in> set storage_names"
  shows "store_ok F D fs'" "map_of fs' p = Some x" "\<And>q. q \<in> dom (map_of fs) \<Longrightarrow> map_of fs' q = map_of fs q"
proof -
  have p: "p = file_path F n x" and fs': "fs' = (if map_of fs p = None then AList.update p x fs else fs)"
    using CreateFile_Inr [OF assms(1)] by auto
  have "y = x" if "map_of fs p = Some y" for y
  proof -
    have "y \<in> D" using assms(2) that by (auto simp: store_ok_def ran_def)
    obtain m where "m \<in> set storage_names" "p = file_path F m y" using assms(2) \<open>map_of fs p = Some y\<close> by (auto simp: store_ok_def content_named_def)
    then have "fe_hash F x = fe_hash F y" using file_path_inj [of n m F x y] assms(4) p by metis
    then show ?thesis using assms(2,3) \<open>y \<in> D\<close> by (auto simp: store_ok_def dest: inj_onD)
  qed
  then show "map_of fs' p = Some x" using fs' by (cases "map_of fs p") (auto simp: update_conv')
  show "store_ok F D fs'"
    using assms(2,3,4) p fs' by (auto simp: store_ok_def content_named_def update_conv' ran_def split: if_splits)
  show "map_of fs' q = map_of fs q" if "q \<in> dom (map_of fs)" for q
    using that fs' by (auto simp: update_conv')
qed

text \<open>What the translation of the storage settings relies on: a created file holds its content, and files that exist keep theirs.\<close>

locale content_store =
  fixes create :: "string \<Rightarrow> string \<Rightarrow> (files, 'e, string) action"
    and ok :: "string set \<Rightarrow> files \<Rightarrow> bool"
    and names :: "string set"
  assumes create_ok: "create n x fs = (fs', Inr p) \<Longrightarrow> ok D fs \<Longrightarrow> x \<in> D \<Longrightarrow> n \<in> names \<Longrightarrow> ok D fs'"
    and create_holds: "create n x fs = (fs', Inr p) \<Longrightarrow> ok D fs \<Longrightarrow> x \<in> D \<Longrightarrow> n \<in> names \<Longrightarrow> map_of fs' p = Some x"
    and create_frame: "create n x fs = (fs', Inr p) \<Longrightarrow> ok D fs \<Longrightarrow> x \<in> D \<Longrightarrow> n \<in> names \<Longrightarrow> q \<in> dom (map_of fs) \<Longrightarrow> map_of fs' q = map_of fs q"
begin

lemma create_two:
  assumes "create n x fs = (fs1, Inr p)" "create m y fs1 = (fs2, Inr q)" "ok D fs" "x \<in> D" "y \<in> D" "n \<in> names" "m \<in> names"
  shows "ok D fs2 \<and> map_of fs2 p = Some x \<and> map_of fs2 q = Some y \<and> (\<forall>r \<in> dom (map_of fs). map_of fs2 r = map_of fs r)"
proof -
  have 1: "ok D fs1" "map_of fs1 p = Some x" using create_ok create_holds assms by blast+
  then have "map_of fs2 p = Some x" using create_frame [OF assms(2) 1(1) assms(5,7), of p] by auto
  moreover have "map_of fs2 r = map_of fs r" if "r \<in> dom (map_of fs)" for r
  proof -
    have "map_of fs1 r = map_of fs r" by (rule create_frame [OF assms(1,3,4,6) that])
    then show ?thesis using create_frame [OF assms(2) 1(1) assms(5,7), of r] that by (auto simp: dom_def)
  qed
  ultimately show ?thesis using create_ok [OF assms(2) 1(1) assms(5,7)] create_holds [OF assms(2) 1(1) assms(5,7)] by blast
qed

end

interpretation fm: content_store "CreateFile F" "store_ok F" "set storage_names" for F
  by unfold_locales (erule (3) CreateFile_stored(1), erule (3) CreateFile_stored(2), erule (4) CreateFile_stored(3))

lemma delete_loop_sub: "map_of (delete_loop F ps fs) q = Some y \<Longrightarrow> map_of fs q = Some y"
proof (induction F ps fs rule: delete_loop.induct)
  case (2 F p ps fs)
  then show ?case by (auto simp: delete_conv' split: if_splits)
qed simp

lemma stored_mono: "store_ok F D fs \<Longrightarrow> (\<And>q y. map_of fs' q = Some y \<Longrightarrow> map_of fs q = Some y) \<Longrightarrow> store_ok F D fs'"
  unfolding store_ok_def content_named_def ran_def by blast

lemma DeleteFiles_stored: "store_ok F D fs \<Longrightarrow> store_ok F D (fst (DeleteFiles F fs))"
  by (rule stored_mono [of F D fs]) (auto simp: DeleteFiles_def dest: delete_loop_sub split: option.splits)

subsection \<open>The connection string names files with the secrets\<close>

definition file_param :: "(string, string list) gomap \<Rightarrow> files \<Rightarrow> string \<Rightarrow> string \<Rightarrow> bool" where
  "file_param param fs k x \<longleftrightarrow> (\<exists>p. map_of param k = Some [p] \<and> map_of fs p = Some x)"

lemma create_param_Inr: "create_param E what n x fs = (fs', Inr p) \<Longrightarrow> CreateFile (be_files E) n x fs = (fs', Inr p)"
  by (auto simp: create_param_def split: prod.splits sum.splits)

definition storage_contents :: "StorageSecrets \<Rightarrow> string set" where
  "storage_contents ss = (\<lambda>s. secret_get s CAKey) ` set_option (ss_CA ss) \<union>
     (\<lambda>s. secret_get s TLSCertKey) ` set_option (ss_TLS ss) \<union> (\<lambda>s. secret_get s TLSPrivateKeyKey) ` set_option (ss_TLS ss)"

lemma storage_ca_stored:
  assumes "storage_ca E ss param fs = (fs', Inr param')" "store_ok (be_files E) D fs" "storage_contents ss \<subseteq> D"
  shows "store_ok (be_files E) D fs' \<and> (\<forall>s. ss_CA ss = Some s \<longrightarrow> file_param param' fs' ''sslrootcert'' (secret_get s CAKey)) \<and>
    (\<forall>k. k \<noteq> ''sslrootcert'' \<longrightarrow> map_of param' k = map_of param k)"
proof (cases "ss_CA ss")
  case None
  then show ?thesis using assms by (auto simp: storage_ca_def act_return_def)
next
  case (Some s)
  then obtain p where p: "create_param E ''ca'' ''sslrootcert'' (secret_get s CAKey) fs = (fs', Inr p)"
      "param' = AList.update ''sslrootcert'' [p] param"
    using assms(1) by (auto simp: storage_ca_def act_return_def act_fail_def split: if_splits elim!: act_bind_InrE)
  have "secret_get s CAKey \<in> D" using assms(3) Some by (auto simp: storage_contents_def)
  then have "store_ok (be_files E) D fs'" "map_of fs' p = Some (secret_get s CAKey)"
    using fm.create_ok [OF create_param_Inr [OF p(1)] assms(2)] fm.create_holds [OF create_param_Inr [OF p(1)] assms(2)]
    by (simp_all add: storage_names_def)
  then show ?thesis using Some p(2) by (auto simp: file_param_def update_conv')
qed

lemma storage_tls_stored:
  assumes "storage_tls E ss param fs = (fs', Inr param')" "store_ok (be_files E) D fs" "storage_contents ss \<subseteq> D"
  shows "store_ok (be_files E) D fs' \<and> (\<forall>q \<in> dom (map_of fs). map_of fs' q = map_of fs q) \<and>
    (\<forall>s. ss_TLS ss = Some s \<longrightarrow> file_param param' fs' ''sslcert'' (secret_get s TLSCertKey) \<and>
       file_param param' fs' ''sslkey'' (secret_get s TLSPrivateKeyKey)) \<and>
    (\<forall>k. k \<noteq> ''sslcert'' \<and> k \<noteq> ''sslkey'' \<longrightarrow> map_of param' k = map_of param k)"
proof (cases "ss_TLS ss")
  case None
  then show ?thesis using assms by (auto simp: storage_tls_def act_return_def)
next
  case (Some s)
  let ?cert = "secret_get s TLSCertKey" and ?key = "secret_get s TLSPrivateKeyKey"
  obtain fs1 cert key where c: "create_param E ''tls cert'' ''sslcert'' ?cert fs = (fs1, Inr cert)"
      and k: "create_param E ''tls key'' ''sslkey'' ?key fs1 = (fs', Inr key)"
      and param': "param' = AList.update ''sslkey'' [key] (AList.update ''sslcert'' [cert] param)"
    using assms(1) Some by (auto simp: storage_tls_def act_return_def act_fail_def split: if_splits elim!: act_bind_InrE)
  have D: "?cert \<in> D" "?key \<in> D" using assms(3) Some by (auto simp: storage_contents_def)
  have "store_ok (be_files E) D fs' \<and> map_of fs' cert = Some ?cert \<and> map_of fs' key = Some ?key \<and> (\<forall>q \<in> dom (map_of fs). map_of fs' q = map_of fs q)"
    by (rule fm.create_two [OF create_param_Inr [OF c] create_param_Inr [OF k] assms(2) D]) (simp_all add: storage_names_def)
  then show ?thesis using Some by (simp add: param' file_param_def update_conv')
qed

definition postgres_options :: "boot_env \<Rightarrow> StorageSecrets \<Rightarrow> files \<Rightarrow> pom_options \<Rightarrow> bool" where
  "postgres_options E ss fs d \<longleftrightarrow>
     (\<exists>s conn. ss_Secret ss = Some s \<and> map_of (sec_data s) StorageConnectionStringKey = Some conn \<and> bo_StorageType d = ''postgres'' \<and>
        (if ss_CA ss = None \<and> ss_TLS ss = None then bo_StorageConnectionString d = conn
         else \<exists>u param param'. be_parse_url E conn = Some (u, param) \<and> bo_StorageConnectionString d = be_url_string E u param' \<and>
           map_of param' ''sslmode'' \<noteq> None \<and>
           (\<forall>k. k \<notin> set storage_names \<longrightarrow> map_of param' k = map_of param k) \<and>
           (\<forall>ca. ss_CA ss = Some ca \<longrightarrow> file_param param' fs ''sslrootcert'' (secret_get ca CAKey)) \<and>
           (\<forall>tls. ss_TLS ss = Some tls \<longrightarrow> file_param param' fs ''sslcert'' (secret_get tls TLSCertKey) \<and>
              file_param param' fs ''sslkey'' (secret_get tls TLSPrivateKeyKey))))"

lemma postgres_options_cong:
  "bo_StorageType d = bo_StorageType d' \<Longrightarrow> bo_StorageConnectionString d = bo_StorageConnectionString d' \<Longrightarrow>
   postgres_options E ss fs d = postgres_options E ss fs d'"
  by (simp add: postgres_options_def)

lemma applyStoragePostgres_options:
  assumes "applyStoragePostgres E dst src fs = (fs', Inr d)" "store_ok (be_files E) D fs"
    "storage_contents (pc_StorageSecrets src) \<subseteq> D"
  shows "store_ok (be_files E) D fs' \<and> postgres_options E (pc_StorageSecrets src) fs' d"
proof -
  let ?ss = "pc_StorageSecrets src"
  obtain s conn where s: "ss_Secret ?ss = Some s" "map_of (sec_data s) StorageConnectionStringKey = Some conn"
    using assms(1) by (auto simp: applyStoragePostgres_def Let_def act_fail_def split: option.splits)
  show ?thesis
  proof (cases "ss_CA ?ss = None \<and> ss_TLS ?ss = None")
    case True
    then show ?thesis using assms s by (auto simp: applyStoragePostgres_def Let_def act_return_def postgres_options_def)
  next
    case False
    then obtain u param where u: "be_parse_url E conn = Some (u, param)" and mode: "map_of param ''sslmode'' \<noteq> None"
      using assms(1) s by (auto simp: applyStoragePostgres_def Let_def act_fail_def split: option.splits if_splits)
    have "act_bind (storage_ca E ?ss param) (\<lambda>param1. act_bind (storage_tls E ?ss param1) (\<lambda>param2.
        act_return (dst\<lparr>bo_StorageType := ''postgres'', bo_StorageConnectionString := be_url_string E u param2\<rparr>))) fs = (fs', Inr d)"
      using assms(1) s u mode False by (simp add: applyStoragePostgres_def Let_def)
    then obtain fs1 param1 param2 where ca: "storage_ca E ?ss param fs = (fs1, Inr param1)" and tls: "storage_tls E ?ss param1 fs1 = (fs', Inr param2)"
        and d: "d = dst\<lparr>bo_StorageType := ''postgres'', bo_StorageConnectionString := be_url_string E u param2\<rparr>"
      by (auto simp: act_return_def elim!: act_bind_InrE)
    note c = storage_ca_stored [OF ca assms(2,3)]
    note t = storage_tls_stored [OF tls _ assms(3)]
    have "file_param param2 fs' ''sslrootcert'' x" if "file_param param1 fs1 ''sslrootcert'' x" for x
      using that t c by (auto simp: file_param_def dom_def)
    then show ?thesis
      unfolding postgres_options_def using s u mode False c t by (auto simp: d storage_names_def intro!: exI)
  qed
qed

lemma Apply_InrE:
  assumes "Apply E dst src fs = (fs', Inr d)"
  obtains d1 d2 d3 d4 d5 where "boot_applyAuthenticate dst src = Inr d1" "applyDataBroker d1 src = Inr d2" "applySecrets d2 src = Inr d3"
    "applyStorage E d3 src fs = (fs', Inr d4)" "applyRuntimeFlags E d4 src = Inr d5" "be_validate E d5 = Inr d"
  using assms by (auto simp: Apply_def boot_lift_def act_return_def act_fail_def split: sum.splits elim!: act_bind_InrE)


lemma delete_loop_all:
  "(\<And>p. fe_removeall F p) \<Longrightarrow> map_of (delete_loop F ps fs) q = (if q \<in> set ps then None else map_of fs q)"
  by (induction F ps fs rule: delete_loop.induct) (auto simp: delete_conv')

lemma DeleteFiles_all:
  "(\<And>p. fe_removeall F p) \<Longrightarrow> fe_open F = None \<Longrightarrow> fe_readdir F = None \<Longrightarrow> map_of (fst (DeleteFiles F fs)) q = None"
  by (auto simp: DeleteFiles_def delete_loop_all map_of_eq_None_iff)

text \<open>The files are deleted before the new settings are looked at: when these are refused, the files that the running
  configuration names are gone.\<close>

theorem refused_settings_delete_files:
  assumes "boot_applyAuthenticate dst src = Inr d1" "applyDataBroker d1 src = Inr d2" "applySecrets d2 src = Inr d3"
    "ps_Storage (pc_Spec src) = Some st" "sg_File st = None" "storage_Validate (pc_StorageSecrets src) = Inl e"
    "\<And>p. fe_removeall (be_files E) p" "fe_open (be_files E) = None" "fe_readdir (be_files E) = None"
  shows "\<exists>fs'. Apply E dst src fs = (fs', Inl (ErrStorageSecrets e)) \<and> (\<forall>p. map_of fs' p = None)"
  using assms DeleteFiles_all [of "be_files E"]
  by (auto simp: Apply_def boot_lift_def act_bind_def applyStorage_def Let_def)

definition ex_storage_secret :: secret where
  "ex_storage_secret = \<lparr>sec_meta = new_meta [] ''pomerium'' ''storage'', sec_type = SecretTypeTLS,
     sec_data = [(StorageConnectionStringKey, ''postgres://db?sslmode=verify''), (CAKey, ''ca''), (TLSCertKey, ''cert''), (TLSPrivateKeyKey, ''key'')]\<rparr>"

definition ex_boot_secret :: secret where
  "ex_boot_secret = \<lparr>sec_meta = new_meta [] ''pomerium'' ''bootstrap'', sec_type = SecretTypeOpaque,
     sec_data = [(''shared_secret'', replicate 32 CHR ''s''), (''cookie_secret'', replicate 32 CHR ''c''), (''signing_key'', ''k'')]\<rparr>"

definition ex_boot_pom :: pom_config where
  "ex_boot_pom = ex_pom\<lparr>pc_Pomerium := pom_of_spec (ex_spec\<lparr>ps_Storage := Some \<lparr>sg_File = None,
       sg_Postgres = Some \<lparr>pg_Secret = ''pomerium/storage'', pg_TLSSecret = Some ''pomerium/storage'', pg_CASecret = Some ''pomerium/storage''\<rparr>\<rparr>\<rparr>),
     pc_Secrets := Some ex_boot_secret,
     pc_StorageSecrets := \<lparr>ss_Secret = Some ex_storage_secret, ss_TLS = Some ex_storage_secret, ss_CA = Some ex_storage_secret\<rparr>\<rparr>"

definition ex_fs_env :: fs_env where
  "ex_fs_env = \<lparr>fe_cacheDir = ''/tmp/pomerium-storage-files'', fe_hash = id, fe_mkdir = None, fe_write = (\<lambda>_. None), fe_chmod = (\<lambda>_. None),
     fe_remove = (\<lambda>_. True), fe_open = None, fe_readdir = None, fe_removeall = (\<lambda>p. p \<noteq> ''/tmp/pomerium-storage-files/sslkey-6b6579'')\<rparr>"

definition ex_boot_env :: boot_env where
  "ex_boot_env = \<lparr>be_files = ex_fs_env,
     be_parse_url = (\<lambda>s. if s = ''postgres://db?sslmode=verify'' then Some (''postgres://db'', [(''sslmode'', [''verify''])]) else None),
     be_url_string = (\<lambda>u ps. u @ CHR ''?'' # concat (map (\<lambda>(k, vs). k @ ''='' @ concat vs @ ''&'') ps)),
     be_default_flags = [(''f'', True)], be_validate = Inr, be_apply_settings = (\<lambda>d s. d\<lparr>bo_Settings := s\<rparr>),
     be_settings = ex_settings_env\<rparr>"

definition ex_boot_options :: pom_options where
  "ex_boot_options = \<lparr>bo_Addr = '':8443'', bo_AuthenticateInternalURLString = [], bo_ClusterLeaderID = None, bo_ClusterNodeID = None,
     bo_ClusterNodes = [], bo_RaftBindAddress = None, bo_ServiceURLs = [], bo_ServiceURL = [], bo_StorageType = ''memory'',
     bo_StorageConnectionString = [], bo_RuntimeFlags = [], bo_SharedKey = [], bo_CookieSecret = [], bo_SigningKey = [],
     bo_Services = ''all'', bo_GRPCAddr = '':5443'', bo_HTTPRedirectAddr = '':8080'', bo_DeriveInternalDomainCert = None,
     bo_GRPCInsecure = None, bo_MetricsAddr = [], bo_HealthCheckAddr = [], bo_LogLevel = ''info'', bo_ProxyLogLevel = ''info'',
     bo_EnvoyAdminAddress = [], bo_HTTP3AdvertisePort = Some 443, bo_SSHAddr = [], bo_Policies = [], bo_Settings = None\<rparr>"

text \<open>The key file of an earlier configuration cannot be removed and is used again.\<close>

definition ex_boot_files :: files where
  "ex_boot_files = [(''/tmp/pomerium-storage-files/sslkey-6b6579'', ''key''), (''/tmp/pomerium-storage-files/sslcert-6f6c64'', ''old'')]"


end
