(* ===== verification/Restart.thy ===== *)
theory Restart
  imports Go_Prelude "HOL-Library.Sublist"
begin

text \<open>
  \<^verbatim>\<open>util/restart.go\<close>: a task that is restarted when its configuration changes. One goroutine receives updates and
  forwards those that differ from the last one (\<^verbatim>\<open>filterChanges\<close>), a second one cancels the running task, waits for it
  to finish and starts the next (\<^verbatim>\<open>runTasks\<close>), and each task runs in a goroutine of its own. The channels are
  unbuffered, so a send and its receive are one step. The list \<open>rs_accepted\<close> of all updates received is kept only to
  state the properties; so are the configurations that a stopped goroutine did not get to use.
\<close>

datatype 'c filter_state = Receiving | Sending 'c | FilterStopped "'c list"

datatype 'e restart_error = TaskQuit 'e | WaitTimeout | WaitCancelled

datatype ('c, 'e) runner_state = Selecting | Waiting 'c | RunnerStopped "'e restart_error option" "'c list"

text \<open>A task executes its function, then offers the result on its \<^verbatim>\<open>done\<close> channel until somebody receives it.\<close>

datatype 'e task_state = TaskRuns | TaskOffers 'e | TaskGone

record ('c, 'e) task =
  tk_cfg :: 'c
  tk_cancelled :: bool
  tk_state :: "'e task_state"

record ('c, 'e) restart =
  rs_cfg :: "'c option"
  rs_filter :: "'c filter_state"
  rs_runner :: "('c, 'e) runner_state"
  rs_tasks :: "('c, 'e) task list"
  rs_done :: "nat option"
  rs_ctx :: bool
  rs_accepted :: "'c list"

definition NewRestartOnChange :: "('c, 'e) restart" where
  "NewRestartOnChange = \<lparr>rs_cfg = None, rs_filter = Receiving, rs_runner = Selecting, rs_tasks = [], rs_done = None,
     rs_ctx = False, rs_accepted = []\<rparr>"

subsection \<open>The pieces of the goroutines\<close>

text \<open>\<^verbatim>\<open>OnConfigUpdated\<close> meets the first \<^verbatim>\<open>select\<close> of \<^verbatim>\<open>filterChanges\<close>.\<close>

definition filter_receive :: "('c option \<Rightarrow> 'c \<Rightarrow> bool) \<Rightarrow> 'c \<Rightarrow> ('c, 'e) restart \<Rightarrow> ('c, 'e) restart" where
  "filter_receive equal next s =
     (let s1 = s\<lparr>rs_accepted := rs_accepted s @ [next]\<rparr> in
      if equal (rs_cfg s) next then s1 else s1\<lparr>rs_cfg := Some next, rs_filter := Sending next\<rparr>)"

definition set_task :: "nat \<Rightarrow> (('c, 'e) task \<Rightarrow> ('c, 'e) task) \<Rightarrow> ('c, 'e) restart \<Rightarrow> ('c, 'e) restart" where
  "set_task i f s = s\<lparr>rs_tasks := (rs_tasks s)[i := f (rs_tasks s ! i)]\<rparr>"

text \<open>The function that \<^verbatim>\<open>cancel\<close> holds: nothing before the first task.\<close>

definition cancel_task :: "('c, 'e) restart \<Rightarrow> ('c, 'e) restart" where
  "cancel_task s = (case rs_done s of None \<Rightarrow> s | Some i \<Rightarrow> set_task i (\<lambda>t. t\<lparr>tk_cancelled := True\<rparr>) s)"

definition receive_update :: "'c \<Rightarrow> ('c, 'e) restart \<Rightarrow> ('c, 'e) restart" where
  "receive_update c s = (cancel_task s)\<lparr>rs_filter := Receiving, rs_runner := Waiting c\<rparr>"

definition goRunTask :: "'c \<Rightarrow> ('c, 'e) restart \<Rightarrow> ('c, 'e) restart" where
  "goRunTask c s = s\<lparr>rs_done := Some (length (rs_tasks s)), rs_runner := Selecting,
     rs_tasks := rs_tasks s @ [\<lparr>tk_cfg = c, tk_cancelled = False, tk_state = TaskRuns\<rparr>]\<rparr>"

text \<open>Receiving from the \<^verbatim>\<open>done\<close> channel of a task.\<close>

definition receive_done :: "nat \<Rightarrow> ('c, 'e) restart \<Rightarrow> ('c, 'e) restart" where
  "receive_done i s = set_task i (\<lambda>t. t\<lparr>tk_state := TaskGone\<rparr>) s"

definition filter_rest :: "'c filter_state \<Rightarrow> 'c list" where
  "filter_rest f = (case f of Receiving \<Rightarrow> [] | Sending c \<Rightarrow> [c] | FilterStopped cs \<Rightarrow> cs)"

definition runner_rest :: "('c, 'e) runner_state \<Rightarrow> 'c list" where
  "runner_rest r = (case r of Selecting \<Rightarrow> [] | Waiting c \<Rightarrow> [c] | RunnerStopped _ cs \<Rightarrow> cs)"

definition stop_runner :: "'e restart_error option \<Rightarrow> ('c, 'e) restart \<Rightarrow> ('c, 'e) restart" where
  "stop_runner e s = s\<lparr>rs_runner := RunnerStopped e (runner_rest (rs_runner s)), rs_ctx := rs_ctx s \<or> e \<noteq> None\<rparr>"

text \<open>The deferred call of \<^verbatim>\<open>runTasks\<close> is the initial empty function, so returning does not cancel the task; the error
  group cancels the context of both goroutines when one of them returns an error.\<close>

definition task_at :: "('c, 'e) restart \<Rightarrow> nat \<Rightarrow> 'e task_state \<Rightarrow> bool" where
  "task_at s i x \<longleftrightarrow> i < length (rs_tasks s) \<and> tk_state (rs_tasks s ! i) = x"

inductive restart_step :: "('c option \<Rightarrow> 'c \<Rightarrow> bool) \<Rightarrow> ('c, 'e) restart \<Rightarrow> ('c, 'e) restart \<Rightarrow> bool" for equal where
  update: "rs_filter s = Receiving \<Longrightarrow> restart_step equal s (filter_receive equal c s)"
| forward: "rs_filter s = Sending c \<Longrightarrow> rs_runner s = Selecting \<Longrightarrow> restart_step equal s (receive_update c s)"
| first_task: "rs_runner s = Waiting c \<Longrightarrow> rs_done s = None \<Longrightarrow> restart_step equal s (goRunTask c s)"
| next_task: "rs_runner s = Waiting c \<Longrightarrow> rs_done s = Some i \<Longrightarrow> task_at s i (TaskOffers e) \<Longrightarrow>
    restart_step equal s (goRunTask c (receive_done i s))"
| wait_timeout: "rs_runner s = Waiting c \<Longrightarrow> rs_done s = Some i \<Longrightarrow> restart_step equal s (stop_runner (Some WaitTimeout) s)"
| wait_cancelled: "rs_runner s = Waiting c \<Longrightarrow> rs_done s = Some i \<Longrightarrow> rs_ctx s \<Longrightarrow>
    restart_step equal s (stop_runner (Some WaitCancelled) s)"
| task_quit: "rs_runner s = Selecting \<Longrightarrow> rs_done s = Some i \<Longrightarrow> task_at s i (TaskOffers e) \<Longrightarrow>
    restart_step equal s (stop_runner (Some (TaskQuit e)) (receive_done i s))"
| task_returns: "task_at s i TaskRuns \<Longrightarrow> restart_step equal s (set_task i (\<lambda>t. t\<lparr>tk_state := TaskOffers e\<rparr>) s)"
| cancelled: "restart_step equal s (s\<lparr>rs_ctx := True\<rparr>)"
| runner_quits: "rs_ctx s \<Longrightarrow> rs_runner s = Selecting \<Longrightarrow> restart_step equal s (stop_runner None s)"
| filter_quits: "rs_ctx s \<Longrightarrow> restart_step equal s (s\<lparr>rs_filter := FilterStopped (filter_rest (rs_filter s))\<rparr>)"

inductive restart_reachable :: "('c option \<Rightarrow> 'c \<Rightarrow> bool) \<Rightarrow> ('c, 'e) restart \<Rightarrow> bool" for equal where
  init: "restart_reachable equal NewRestartOnChange"
| step: "restart_reachable equal s \<Longrightarrow> restart_step equal s s' \<Longrightarrow> restart_reachable equal s'"

subsection \<open>Specification\<close>

text \<open>The updates that differ from the last different one.\<close>

fun changes_of :: "('c option \<Rightarrow> 'c \<Rightarrow> bool) \<Rightarrow> 'c option \<Rightarrow> 'c list \<Rightarrow> 'c list" where
  "changes_of equal prev [] = []"
| "changes_of equal prev (c # cs) = (if equal prev c then changes_of equal prev cs else c # changes_of equal (Some c) cs)"

definition last_of :: "'c option \<Rightarrow> 'c list \<Rightarrow> 'c option" where
  "last_of prev cs = (if cs = [] then prev else Some (last cs))"

lemma changes_of_snoc:
  "changes_of equal prev (cs @ [c]) =
     changes_of equal prev cs @ (if equal (last_of prev (changes_of equal prev cs)) c then [] else [c])"
  by (induction cs arbitrary: prev) (auto simp: last_of_def)

text \<open>A task that has been started and has not been received from.\<close>

definition task_active :: "('c, 'e) restart \<Rightarrow> nat \<Rightarrow> bool" where
  "task_active s i \<longleftrightarrow> i < length (rs_tasks s) \<and> tk_state (rs_tasks s ! i) \<noteq> TaskGone"

definition cfg_inv :: "('c option \<Rightarrow> 'c \<Rightarrow> bool) \<Rightarrow> ('c, 'e) restart \<Rightarrow> bool" where
  "cfg_inv equal s \<longleftrightarrow>
     map tk_cfg (rs_tasks s) @ runner_rest (rs_runner s) @ filter_rest (rs_filter s) = changes_of equal None (rs_accepted s) \<and>
     rs_cfg s = last_of None (changes_of equal None (rs_accepted s))"

definition tasks_inv :: "('c, 'e) restart \<Rightarrow> bool" where
  "tasks_inv s \<longleftrightarrow>
     (\<forall>i. rs_done s \<noteq> Some i \<longrightarrow> \<not> task_active s i) \<and>
     (\<forall>i. rs_done s = Some i \<longrightarrow> length (rs_tasks s) = Suc i) \<and>
     (rs_done s = None \<longrightarrow> rs_tasks s = []) \<and>
     (\<forall>c i. rs_runner s = Waiting c \<longrightarrow> rs_done s = Some i \<longrightarrow> tk_cancelled (rs_tasks s ! i)) \<and>
     (\<forall>c i. rs_runner s = Selecting \<or> rs_runner s = Waiting c \<longrightarrow> rs_done s = Some i \<longrightarrow> task_active s i)"

subsection \<open>Invariant\<close>

lemma set_task_simps [simp]:
  "rs_cfg (set_task i f s) = rs_cfg s" "rs_filter (set_task i f s) = rs_filter s" "rs_runner (set_task i f s) = rs_runner s"
  "rs_done (set_task i f s) = rs_done s" "rs_ctx (set_task i f s) = rs_ctx s" "rs_accepted (set_task i f s) = rs_accepted s"
  "length (rs_tasks (set_task i f s)) = length (rs_tasks s)"
  by (simp_all add: set_task_def)

lemma nth_set_task: "j < length (rs_tasks s) \<Longrightarrow> rs_tasks (set_task i f s) ! j = (if j = i then f (rs_tasks s ! i) else rs_tasks s ! j)"
  by (simp add: set_task_def nth_list_update)

lemma set_task_cfg: "(\<And>t. tk_cfg (f t) = tk_cfg t) \<Longrightarrow> map tk_cfg (rs_tasks (set_task i f s)) = map tk_cfg (rs_tasks s)"
  by (rule nth_equalityI) (simp_all add: nth_set_task)

lemma set_task_Nil [simp]: "rs_tasks (set_task i f s) = [] \<longleftrightarrow> rs_tasks s = []"
  by (simp add: set_task_def)

lemma set_task_active:
  "(\<And>t. tk_state (f t) \<noteq> TaskGone \<longleftrightarrow> tk_state t \<noteq> TaskGone) \<Longrightarrow> task_active (set_task i f s) j = task_active s j"
  by (cases "j = i") (simp_all add: task_active_def nth_set_task cong: conj_cong)

lemma receive_done_simps [simp]:
  "rs_cfg (receive_done i s) = rs_cfg s" "rs_filter (receive_done i s) = rs_filter s" "rs_runner (receive_done i s) = rs_runner s"
  "rs_done (receive_done i s) = rs_done s" "rs_ctx (receive_done i s) = rs_ctx s" "rs_accepted (receive_done i s) = rs_accepted s"
  "length (rs_tasks (receive_done i s)) = length (rs_tasks s)" "map tk_cfg (rs_tasks (receive_done i s)) = map tk_cfg (rs_tasks s)"
  by (simp_all add: receive_done_def set_task_cfg)

lemma receive_done_Nil [simp]: "rs_tasks (receive_done i s) = [] \<longleftrightarrow> rs_tasks s = []"
  by (simp add: receive_done_def set_task_def)

lemma receive_done_active: "task_active (receive_done i s) j \<longleftrightarrow> task_active s j \<and> j \<noteq> i"
  by (cases "j = i") (simp_all add: task_active_def receive_done_def nth_set_task cong: conj_cong)

lemma cancel_task_simps [simp]:
  "rs_cfg (cancel_task s) = rs_cfg s" "rs_done (cancel_task s) = rs_done s" "rs_accepted (cancel_task s) = rs_accepted s"
  "length (rs_tasks (cancel_task s)) = length (rs_tasks s)" "map tk_cfg (rs_tasks (cancel_task s)) = map tk_cfg (rs_tasks s)"
  "task_active (cancel_task s) j = task_active s j"
  by (simp_all add: cancel_task_def set_task_cfg set_task_active split: option.split)

lemma cancel_task_Nil [simp]: "rs_tasks (cancel_task s) = [] \<longleftrightarrow> rs_tasks s = []"
  by (simp add: cancel_task_def split: option.split)

lemma idle_task: "tasks_inv s \<Longrightarrow> rs_done s = None \<Longrightarrow> \<not> task_active s i"
  by (simp add: tasks_inv_def)

lemma received_task: "tasks_inv s \<Longrightarrow> rs_done s = Some i \<Longrightarrow> \<not> task_active (receive_done i s) j"
  by (auto simp: tasks_inv_def receive_done_active)

lemma task_active_cong: "rs_tasks s' = rs_tasks s \<Longrightarrow> task_active s' i = task_active s i"
  by (simp add: task_active_def)

lemma goRunTask_active:
  "task_active (goRunTask c s) i \<longleftrightarrow> i = length (rs_tasks s) \<or> task_active s i"
  by (auto simp: task_active_def goRunTask_def nth_append)

lemma tasks_inv_cong:
  "tasks_inv s \<Longrightarrow> rs_tasks s' = rs_tasks s \<Longrightarrow> rs_done s' = rs_done s \<Longrightarrow> rs_runner s' = rs_runner s \<Longrightarrow> tasks_inv s'"
  by (simp add: tasks_inv_def task_active_def)

lemma cfg_inv_cong:
  "cfg_inv equal s \<Longrightarrow> map tk_cfg (rs_tasks s') = map tk_cfg (rs_tasks s) \<Longrightarrow> rs_accepted s' = rs_accepted s \<Longrightarrow> rs_cfg s' = rs_cfg s \<Longrightarrow>
   runner_rest (rs_runner s') @ filter_rest (rs_filter s') = runner_rest (rs_runner s) @ filter_rest (rs_filter s) \<Longrightarrow> cfg_inv equal s'"
  by (simp add: cfg_inv_def)

lemma goRunTask_cfg: "cfg_inv equal s \<Longrightarrow> rs_runner s = Waiting c \<Longrightarrow> cfg_inv equal (goRunTask c s)"
  by (simp add: cfg_inv_def goRunTask_def runner_rest_def)

lemma goRunTask_tasks: "(\<And>i. \<not> task_active s i) \<Longrightarrow> tasks_inv (goRunTask c s)"
  unfolding tasks_inv_def goRunTask_active by (simp add: goRunTask_def)

lemma stopped_tasks:
  "tasks_inv s \<Longrightarrow> tasks_inv (stop_runner e s)" "tasks_inv s \<Longrightarrow> tasks_inv (stop_runner e (receive_done i s))"
  by (auto simp: tasks_inv_def stop_runner_def task_active_cong [of "stop_runner e s" s for e s] receive_done_active receive_done_Nil
      task_active_cong [of "s\<lparr>rs_runner := x, rs_ctx := y\<rparr>" s for s x y])

lemma stopped_cfg:
  "cfg_inv equal s \<Longrightarrow> cfg_inv equal (stop_runner e s)" "cfg_inv equal s \<Longrightarrow> cfg_inv equal (stop_runner e (receive_done i s))"
  by (simp_all add: cfg_inv_def stop_runner_def runner_rest_def)

lemma filter_receive_cfg:
  assumes "cfg_inv equal s" "rs_filter s = Receiving"
  shows "cfg_inv equal (filter_receive equal c s)"
proof (cases "equal (rs_cfg s) c")
  case True
  then have "equal (last_of None (changes_of equal None (rs_accepted s))) c" using assms(1) by (simp add: cfg_inv_def)
  then show ?thesis using assms True by (simp add: cfg_inv_def filter_receive_def Let_def changes_of_snoc)
next
  case False
  then have "\<not> equal (last_of None (changes_of equal None (rs_accepted s))) c" using assms(1) by (simp add: cfg_inv_def)
  moreover have "last_of None (xs @ [c]) = Some c" for xs by (simp add: last_of_def)
  ultimately show ?thesis
    using assms False unfolding cfg_inv_def by (simp add: filter_receive_def Let_def changes_of_snoc filter_rest_def flip: append_assoc)
qed

lemma receive_update_tasks:
  assumes "tasks_inv s" "rs_runner s = Selecting"
  shows "tasks_inv (receive_update c s)"
proof -
  have "tk_cancelled (rs_tasks (cancel_task s) ! i)" if "rs_done s = Some i" "task_active s i" for i
    using that by (simp add: cancel_task_def nth_set_task task_active_def)
  moreover have "task_active (receive_update c s) i = task_active s i" for i
    using task_active_cong [of "receive_update c s" "cancel_task s" i] by (simp add: receive_update_def)
  ultimately show ?thesis using assms by (simp add: tasks_inv_def receive_update_def)
qed

lemma task_returns_tasks:
  assumes "tasks_inv s" "task_at s i TaskRuns"
  shows "tasks_inv (set_task i (\<lambda>t. t\<lparr>tk_state := TaskOffers e\<rparr>) s)"
proof -
  let ?s = "set_task i (\<lambda>t. t\<lparr>tk_state := TaskOffers e\<rparr>) s"
  have act: "task_active ?s j = task_active s j" for j
    using assms(2) by (cases "j = i") (simp_all add: task_active_def task_at_def nth_set_task cong: conj_cong)
  have "tk_cancelled (rs_tasks ?s ! j) = tk_cancelled (rs_tasks s ! j)" if "task_active s j" for j
    using that by (cases "j = i") (simp_all add: task_active_def nth_set_task)
  then show ?thesis using assms(1) unfolding tasks_inv_def act by auto
qed

lemma restart_inv_step: "restart_step equal s s' \<Longrightarrow> cfg_inv equal s \<Longrightarrow> tasks_inv s \<Longrightarrow> cfg_inv equal s' \<and> tasks_inv s'"
proof (induction rule: restart_step.induct)
  case (update s c)
  then show ?case
    using filter_receive_cfg [of equal s c] tasks_inv_cong [of s "filter_receive equal c s"] by (simp add: filter_receive_def Let_def)
next
  case (forward s c)
  then show ?case
    using receive_update_tasks [of s c] cfg_inv_cong [of equal s "receive_update c s"]
    by (simp add: receive_update_def runner_rest_def filter_rest_def)
next
  case (first_task s c)
  then show ?case by (simp add: goRunTask_tasks goRunTask_cfg idle_task)
next
  case (next_task s c i e)
  have "cfg_inv equal (receive_done i s)" by (rule cfg_inv_cong [OF next_task(4)]) simp_all
  then show ?case
    using next_task by (simp add: goRunTask_tasks goRunTask_cfg received_task)
next
  case (wait_timeout s c i)
  then show ?case by (simp add: stopped_tasks stopped_cfg)
next
  case (wait_cancelled s c i)
  then show ?case by (simp add: stopped_tasks stopped_cfg)
next
  case (task_quit s i e)
  then show ?case by (simp add: stopped_tasks stopped_cfg)
next
  case (task_returns s i e)
  then show ?case by (auto intro!: task_returns_tasks elim!: cfg_inv_cong simp: set_task_cfg)
next
  case (cancelled s)
  then show ?case by (auto elim!: cfg_inv_cong tasks_inv_cong)
next
  case (runner_quits s)
  then show ?case by (simp add: stopped_tasks stopped_cfg)
next
  case (filter_quits s)
  then show ?case by (auto elim!: cfg_inv_cong tasks_inv_cong simp: filter_rest_def)
qed

lemma restart_invs: "restart_reachable equal s \<Longrightarrow> cfg_inv equal s \<and> tasks_inv s"
proof (induction rule: restart_reachable.induct)
  case init
  show ?case
    by (simp add: cfg_inv_def tasks_inv_def NewRestartOnChange_def runner_rest_def filter_rest_def last_of_def task_active_def)
qed (auto dest: restart_inv_step)

lemma restart_quiet:
  assumes "restart_reachable equal s" "rs_filter s = Receiving" "rs_runner s = Selecting"
  shows "map tk_cfg (rs_tasks s) = changes_of equal None (rs_accepted s) \<and>
    (\<forall>i. i < length (rs_tasks s) \<longrightarrow> task_active s i = (Suc i = length (rs_tasks s)))"
proof -
  have c: "cfg_inv equal s" and t: "tasks_inv s" using restart_invs [OF assms(1)] by auto
  have "task_active s i = (Suc i = length (rs_tasks s))" if "i < length (rs_tasks s)" for i
    using t that assms(3) by (cases "rs_done s") (simp_all add: tasks_inv_def, metis)
  then show ?thesis using c assms(2,3) by (simp add: cfg_inv_def runner_rest_def filter_rest_def)
qed

subsection \<open>Properties\<close>

text \<open>C35: However updates, cancellations and tasks interleave, at most one task is in progress at any time, because the next
  one starts only after the previous one has returned; and the tasks were started for the changes among the updates,
  in their order, without leaving one out. When both goroutines wait for input, every change has been served.\<close>

theorem restart_sequential:
  assumes "restart_reachable equal s"
  shows "(\<forall>i j. task_active s i \<longrightarrow> task_active s j \<longrightarrow> i = j) \<and>
    prefix (map tk_cfg (rs_tasks s)) (changes_of equal None (rs_accepted s)) \<and>
    (rs_filter s = Receiving \<longrightarrow> rs_runner s = Selecting \<longrightarrow>
       map tk_cfg (rs_tasks s) = changes_of equal None (rs_accepted s) \<and>
       (\<forall>i. i < length (rs_tasks s) \<longrightarrow> task_active s i = (Suc i = length (rs_tasks s))))"
proof -
  have c: "map tk_cfg (rs_tasks s) @ runner_rest (rs_runner s) @ filter_rest (rs_filter s) = changes_of equal None (rs_accepted s)"
    and t: "tasks_inv s"
    using restart_invs [OF assms] by (simp_all add: cfg_inv_def)
  have "rs_done s = Some i" if "task_active s i" for i using t that unfolding tasks_inv_def by blast
  then have "i = j" if "task_active s i" "task_active s j" for i j using that by (metis option.inject)
  moreover have "prefix (map tk_cfg (rs_tasks s)) (changes_of equal None (rs_accepted s))" using c by (metis prefixI)
  ultimately show ?thesis using restart_quiet [OF assms] by auto
qed

text \<open>An example run: two updates with different values, the second one after the first task has started.\<close>

definition ex_equal :: "nat option \<Rightarrow> nat \<Rightarrow> bool" where
  "ex_equal prev next = (prev = Some next)"

definition ex_restart :: "(nat, string) restart" where
  "ex_restart = \<lparr>rs_cfg = Some 2, rs_filter = Receiving, rs_runner = Selecting,
     rs_tasks = [\<lparr>tk_cfg = 1, tk_cancelled = True, tk_state = TaskGone\<rparr>, \<lparr>tk_cfg = 2, tk_cancelled = False, tk_state = TaskRuns\<rparr>],
     rs_done = Some 1, rs_ctx = False, rs_accepted = [1, 1, 2]\<rparr>"

lemma ex_restart_reachable: "restart_reachable ex_equal ex_restart"
proof -
  let ?s0 = "NewRestartOnChange :: (nat, string) restart"
  let ?s1 = "filter_receive ex_equal 1 ?s0"
  let ?s2 = "goRunTask 1 (receive_update 1 ?s1)"
  let ?s3 = "filter_receive ex_equal 2 (filter_receive ex_equal 1 ?s2)"
  let ?s4 = "set_task 0 (\<lambda>t. t\<lparr>tk_state := TaskOffers ''canceled''\<rparr>) (receive_update 2 ?s3)"
  let ?s5 = "goRunTask 2 (receive_done 0 ?s4)"
  note simps = NewRestartOnChange_def filter_receive_def Let_def ex_equal_def goRunTask_def receive_update_def cancel_task_def
    set_task_def task_at_def
  note step = restart_reachable.step [where equal = ex_equal]
  have "restart_reachable ex_equal ?s1" by (rule step [OF restart_reachable.init restart_step.update]) (simp add: simps)
  then have "restart_reachable ex_equal (receive_update 1 ?s1)" by (rule step [OF _ restart_step.forward]) (simp_all add: simps)
  then have "restart_reachable ex_equal ?s2" by (rule step [OF _ restart_step.first_task]) (simp_all add: simps)
  then have "restart_reachable ex_equal (filter_receive ex_equal 1 ?s2)" by (rule step [OF _ restart_step.update]) (simp add: simps)
  then have "restart_reachable ex_equal ?s3" by (rule step [OF _ restart_step.update]) (simp add: simps)
  then have "restart_reachable ex_equal (receive_update 2 ?s3)" by (rule step [OF _ restart_step.forward]) (simp_all add: simps)
  then have "restart_reachable ex_equal ?s4" by (rule step [OF _ restart_step.task_returns]) (simp add: simps)
  then have "restart_reachable ex_equal ?s5"
    by (rule step [OF _ restart_step.next_task [where i = 0 and e = "''canceled''"]]) (simp_all add: simps)
  moreover have "?s5 = ex_restart" by code_simp
  ultimately show ?thesis by simp
qed

theorem restart_sequential_witness:
  "restart_reachable ex_equal ex_restart \<and> changes_of ex_equal None (rs_accepted ex_restart) = [1, 2] \<and>
   prefix (map tk_cfg (rs_tasks ex_restart)) [1, 2] \<and> task_active ex_restart 1"
proof -
  have "changes_of ex_equal None (rs_accepted ex_restart) = [1, 2]" by code_simp
  moreover have "task_active ex_restart 1" by (simp add: task_active_def ex_restart_def)
  ultimately show ?thesis using restart_sequential [OF ex_restart_reachable] ex_restart_reachable by metis
qed

end
