(* ===== verification/Runner.thy ===== *)
theory Runner
  imports Bootstrap Restart
begin

text \<open>
  The all-in-one service: \<^verbatim>\<open>pomerium/ctrl/config.go\<close> and \<^verbatim>\<open>pomerium/ctrl/run.go\<close> (the source of Pomerium's configuration and
  the reconciler that sets it), with the parts of \<^verbatim>\<open>cmd/all_in_one.go\<close> and \<^verbatim>\<open>cmd/databroker_options.go\<close> that restart the
  ingress and settings controllers when the shared secret changes. A call of \<^verbatim>\<open>SetConfig\<close> tells the listeners one
  after the other while it holds the mutex of the source, and telling the restarter blocks until its goroutine
  receives; both happen in a step relation together with the goroutines of \<open>Restart\<close>.
\<close>

subsection \<open>The source of the configuration\<close>

text \<open>The restarter is the listener given to \<^verbatim>\<open>NewPomeriumRunner\<close>; others are added by Pomerium itself.\<close>

datatype listener = ConfigRestarter | OtherListener nat

record config_source =
  sc_cfg :: "pom_options option"
  sc_listeners :: "listener list"

text \<open>The comparison \<open>eq\<close> stands for \<^verbatim>\<open>cmp.Equal\<close>. The result has the listeners to call, in order.\<close>

definition source_SetConfig ::
  "(pom_options \<Rightarrow> pom_options \<Rightarrow> bool) \<Rightarrow> pom_options \<Rightarrow> config_source \<Rightarrow> config_source \<times> (listener \<times> pom_options) list \<times> bool" where
  "source_SetConfig eq cfg src =
     (if (case sc_cfg src of None \<Rightarrow> False | Some c \<Rightarrow> eq cfg c) then (src, [], False)
      else (src\<lparr>sc_cfg := Some cfg\<rparr>, map (\<lambda>l. (l, cfg)) (sc_listeners src), True))"

definition source_GetConfig :: "config_source \<Rightarrow> pom_options option" where
  "source_GetConfig src = sc_cfg src"

definition OnConfigChange :: "listener \<Rightarrow> config_source \<Rightarrow> config_source" where
  "OnConfigChange l src = src\<lparr>sc_listeners := sc_listeners src @ [l]\<rparr>"

subsection \<open>The runner\<close>

record runner =
  rn_src :: config_source
  rn_base :: pom_options
  rn_syncAPIBootstrap :: bool
  rn_ready :: bool
  rn_files :: files

definition NewPomeriumRunner :: "pom_options \<Rightarrow> listener \<Rightarrow> bool \<Rightarrow> files \<Rightarrow> runner" where
  "NewPomeriumRunner base l sync fs = \<lparr>rn_src = \<lparr>sc_cfg = None, sc_listeners = [l]\<rparr>, rn_base = base,
     rn_syncAPIBootstrap = sync, rn_ready = False, rn_files = fs\<rparr>"

text \<open>The first half of the runner's \<^verbatim>\<open>SetConfig\<close>: the new options, made from a copy of the base.\<close>

definition runner_transform :: "boot_env \<Rightarrow> runner \<Rightarrow> pom_config \<Rightarrow> files \<times> (boot_error + pom_options)" where
  "runner_transform E r src =
     act_bind (Apply E (rn_base r) src) (\<lambda>dst.
       if rn_syncAPIBootstrap r then boot_lift (ApplyAdditional E dst src) else act_return dst) (rn_files r)"

definition readyToRun :: "runner \<Rightarrow> runner" where
  "readyToRun r = r\<lparr>rn_ready := True\<rparr>"

datatype run_outcome = RunBlocks | RunCancelled | RunPanics | RunStarts pom_options

text \<open>\<^verbatim>\<open>waitForConfig\<close>: \<open>None\<close> while it blocks, and else whether the configuration is there; \<open>pick\<close> is the choice of \<^verbatim>\<open>select\<close> when
  both channels are ready.\<close>

definition waitForConfig :: "bool \<Rightarrow> bool \<Rightarrow> runner \<Rightarrow> bool option" where
  "waitForConfig pick cancelled r =
     (if rn_ready r \<and> (pick \<or> \<not> cancelled) then Some True else if cancelled then Some False else None)"

definition runner_Run :: "bool \<Rightarrow> bool \<Rightarrow> runner \<Rightarrow> run_outcome" where
  "runner_Run pick cancelled r =
     (case waitForConfig pick cancelled r of
        None \<Rightarrow> RunBlocks
      | Some False \<Rightarrow> RunCancelled
      | Some True \<Rightarrow> (case source_GetConfig (rn_src r) of None \<Rightarrow> RunPanics | Some cfg \<Rightarrow> RunStarts cfg))"

subsection \<open>The controllers of the all-in-one service\<close>

definition isBootstrapEqual :: "pom_options option \<Rightarrow> pom_options \<Rightarrow> bool" where
  "isBootstrapEqual prev next = (case prev of None \<Rightarrow> False | Some p \<Rightarrow> bo_SharedKey p = bo_SharedKey next)"

record conn_options =
  gc_Address :: string
  gc_ServiceName :: string
  gc_SignedJWTKey :: string
  gc_CA :: string
  gc_CAFile :: string
  gc_OverrideCertificateName :: string
  gc_InsecureSkipVerify :: bool

definition getDataBrokerConnection :: "string \<Rightarrow> string \<Rightarrow> pom_options \<Rightarrow> conn_options option" where
  "getDataBrokerConnection grpcPort outboundPort cfg =
     (case DecodeString (bo_SharedKey cfg) of
        None \<Rightarrow> None
      | Some sharedSecret \<Rightarrow>
          Some \<lparr>gc_Address = URL_String ''http'' (JoinHostPort ''127.0.0.1''
                  (if bo_ServiceURLs cfg \<noteq> [] \<or> bo_ServiceURL cfg \<noteq> [] then outboundPort else grpcPort)),
                gc_ServiceName = ''databroker'', gc_SignedJWTKey = sharedSecret, gc_CA = [], gc_CAFile = [],
                gc_OverrideCertificateName = [], gc_InsecureSkipVerify = False\<rparr>)"

subsection \<open>Interleaving\<close>

text \<open>\<open>ao_call\<close> holds the notifications that a call of \<^verbatim>\<open>SetConfig\<close> still has to send; \<open>ao_latest\<close>, kept for the
  properties, the last settings that were accepted.\<close>

record 'e all_in_one =
  ao_runner :: runner
  ao_restart :: "(pom_options, 'e) restart"
  ao_call :: "(listener \<times> pom_options) list option"
  ao_latest :: "pom_config option"

definition set_begins :: "(pom_options \<Rightarrow> pom_options \<Rightarrow> bool) \<Rightarrow> pom_config \<Rightarrow> files \<Rightarrow> pom_options \<Rightarrow> 'e all_in_one \<Rightarrow> 'e all_in_one" where
  "set_begins eq src fs d s =
     (case source_SetConfig eq d (rn_src (ao_runner s)) of
        (source, ns, _) \<Rightarrow> s\<lparr>ao_runner := (ao_runner s)\<lparr>rn_files := fs, rn_src := source\<rparr>, ao_call := Some ns, ao_latest := Some src\<rparr>)"

definition ao_init :: "pom_options \<Rightarrow> bool \<Rightarrow> files \<Rightarrow> 'e all_in_one" where
  "ao_init base sync fs = \<lparr>ao_runner = NewPomeriumRunner base ConfigRestarter sync fs, ao_restart = NewRestartOnChange,
     ao_call = None, ao_latest = None\<rparr>"

inductive ao_step :: "boot_env \<Rightarrow> (pom_options \<Rightarrow> pom_options \<Rightarrow> bool) \<Rightarrow> 'e all_in_one \<Rightarrow> 'e all_in_one \<Rightarrow> bool" for E eq where
  set_fails: "ao_call s = None \<Longrightarrow> runner_transform E (ao_runner s) src = (fs, Inl e) \<Longrightarrow>
    ao_step E eq s (s\<lparr>ao_runner := (ao_runner s)\<lparr>rn_files := fs\<rparr>\<rparr>)"
| set_config: "ao_call s = None \<Longrightarrow> runner_transform E (ao_runner s) src = (fs, Inr d) \<Longrightarrow> ao_step E eq s (set_begins eq src fs d s)"
| notify_restarter: "ao_call s = Some ((ConfigRestarter, d) # ns) \<Longrightarrow> rs_filter (ao_restart s) = Receiving \<Longrightarrow>
    ao_step E eq s (s\<lparr>ao_call := Some ns, ao_restart := filter_receive isBootstrapEqual d (ao_restart s)\<rparr>)"
| notify_cancelled: "ao_call s = Some ((ConfigRestarter, d) # ns) \<Longrightarrow> rs_ctx (ao_restart s) \<Longrightarrow> ao_step E eq s (s\<lparr>ao_call := Some ns\<rparr>)"
| notify_other: "ao_call s = Some ((OtherListener n, d) # ns) \<Longrightarrow> ao_step E eq s (s\<lparr>ao_call := Some ns\<rparr>)"
| set_returns: "ao_call s = Some [] \<Longrightarrow> ao_step E eq s (s\<lparr>ao_call := None, ao_runner := readyToRun (ao_runner s)\<rparr>)"
| listen: "ao_call s = None \<or> ao_call s = Some [] \<Longrightarrow>
    ao_step E eq s (s\<lparr>ao_runner := (ao_runner s)\<lparr>rn_src := OnConfigChange (OtherListener n) (rn_src (ao_runner s))\<rparr>\<rparr>)"
| restarter: "restart_step isBootstrapEqual (ao_restart s) t \<Longrightarrow> rs_accepted t = rs_accepted (ao_restart s) \<Longrightarrow>
    ao_step E eq s (s\<lparr>ao_restart := t\<rparr>)"

text \<open>The last rule are the steps of the restarter other than receiving an update, which is \<open>notify_restarter\<close>.\<close>

inductive ao_reachable :: "boot_env \<Rightarrow> (pom_options \<Rightarrow> pom_options \<Rightarrow> bool) \<Rightarrow> 'e all_in_one \<Rightarrow> bool" for E eq where
  init: "ao_reachable E eq (ao_init base sync fs)"
| step: "ao_reachable E eq s \<Longrightarrow> ao_step E eq s s' \<Longrightarrow> ao_reachable E eq s'"

subsection \<open>Invariant\<close>

definition restarter_updates :: "(listener \<times> pom_options) list option \<Rightarrow> pom_options list" where
  "restarter_updates call = (case call of None \<Rightarrow> [] | Some ns \<Rightarrow> map snd (filter (\<lambda>n. fst n = ConfigRestarter) ns))"

lemma restarter_updates_simps [simp]:
  "restarter_updates None = []" "restarter_updates (Some []) = []"
  "restarter_updates (Some ((ConfigRestarter, d) # ns)) = d # restarter_updates (Some ns)"
  "restarter_updates (Some ((OtherListener n, d) # ns)) = restarter_updates (Some ns)"
  by (simp_all add: restarter_updates_def)

text \<open>What the restarter was told, and is still to be told, ends with the current configuration.\<close>

definition told_inv :: "'e all_in_one \<Rightarrow> bool" where
  "told_inv s \<longleftrightarrow> rs_ctx (ao_restart s) \<or>
     last_of None (rs_accepted (ao_restart s) @ restarter_updates (ao_call s)) = sc_cfg (rn_src (ao_runner s))"

definition key_of :: "pom_config \<Rightarrow> pom_options \<Rightarrow> bool" where
  "key_of src d \<longleftrightarrow> (\<exists>s key. pc_Secrets src = Some s \<and> map_of (sec_data s) ''shared_secret'' = Some key \<and> length key = 32 \<and>
     bo_SharedKey d = EncodeToString key)"

definition source_inv :: "'e all_in_one \<Rightarrow> bool" where
  "source_inv s \<longleftrightarrow>
     (\<exists>ls. sc_listeners (rn_src (ao_runner s)) = ConfigRestarter # map OtherListener ls) \<and>
     (case ao_latest s of
        None \<Rightarrow> sc_cfg (rn_src (ao_runner s)) = None \<and> \<not> rn_ready (ao_runner s) \<and> ao_call s = None
      | Some src \<Rightarrow> \<exists>d. sc_cfg (rn_src (ao_runner s)) = Some d \<and> key_of src d)"

lemma EncodeToString_Nil_iff: "EncodeToString s = [] \<longleftrightarrow> s = []"
  using DecodeString_EncodeToString [of s] by (cases s) (force simp: DecodeString_def)+

lemma applyStorage_key:
  assumes "applyStorage E d src fs = (fs', Inr d')"
  shows "bo_SharedKey d' = bo_SharedKey d"
proof -
  have "bo_SharedKey d' = bo_SharedKey d" if "applyStoragePostgres E d src fs1 = (fs', Inr d')" for fs1
    using that by (auto simp: applyStoragePostgres_def Let_def act_fail_def act_return_def
        split: option.splits if_splits elim!: act_bind_InrE)
  then show ?thesis
    using assms by (auto simp: applyStorage_def Let_def applyStorageFile_def split: option.splits sum.splits if_splits)
qed

lemma runner_transform_key:
  assumes "runner_transform E r src = (fs, Inr d)" "keeps_options E"
  shows "key_of src d"
proof -
  from assms(1) obtain d' where d': "Apply E (rn_base r) src (rn_files r) = (fs, Inr d')" and d: "bo_SharedKey d = bo_SharedKey d'"
    using assms(2)
    by (auto simp: runner_transform_def boot_lift_def act_return_def ApplyAdditional_def keeps_options_def
        split: if_splits sum.splits prod.splits elim!: act_bind_InrE)
  from d' obtain d2 d3 d4 d5 where d3: "applySecrets d2 src = Inr d3" and d4: "applyStorage E d3 src (rn_files r) = (fs, Inr d4)"
    and d5: "applyRuntimeFlags E d4 src = Inr d5" "be_validate E d5 = Inr d'" by (rule Apply_InrE)
  have "bo_SharedKey d4 = bo_SharedKey d3" by (rule applyStorage_key [OF d4])
  moreover have "bo_SharedKey d' = bo_SharedKey d5" if "bo_SharedKey d5 \<noteq> []"
    using assms(2) d5(2) that by (auto simp: keeps_options_def)
  moreover have "key_of src d3" "bo_SharedKey d3 \<noteq> []" using d3 by (auto simp: applySecrets_iff key_of_def EncodeToString_Nil_iff)
  moreover have "bo_SharedKey d5 = bo_SharedKey d4" using d5(1) by (auto simp: applyRuntimeFlags_def)
  ultimately show ?thesis using d by (simp add: key_of_def)
qed

lemma rs_ctx_step: "restart_step equal s t \<Longrightarrow> rs_ctx s \<Longrightarrow> rs_ctx t"
  by (induction rule: restart_step.induct)
    (auto simp: filter_receive_def Let_def receive_update_def cancel_task_def goRunTask_def stop_runner_def split: option.split)

lemma filter_receive_accepted [simp]:
  "rs_accepted (filter_receive equal c s) = rs_accepted s @ [c]" "rs_ctx (filter_receive equal c s) = rs_ctx s"
  by (simp_all add: filter_receive_def Let_def)

lemma told_inv_step:
  assumes "ao_step E eq s s'" "told_inv s" "source_inv s"
  shows "told_inv s'"
  using assms
proof (induction rule: ao_step.induct)
  case (set_config s src fs d)
  obtain ls where ls: "sc_listeners (rn_src (ao_runner s)) = ConfigRestarter # map OtherListener ls"
    using set_config.prems by (auto simp: source_inv_def)
  have "restarter_updates (Some (map (\<lambda>l. (l, d)) (sc_listeners (rn_src (ao_runner s))))) = [d]"
    by (simp add: restarter_updates_def ls filter_map o_def)
  then show ?case
    using set_config by (auto simp: told_inv_def set_begins_def source_SetConfig_def last_of_def split: option.splits)
next
  case (restarter s t)
  then show ?case using rs_ctx_step [OF restarter.hyps(1)] by (auto simp: told_inv_def)
qed (auto simp: told_inv_def OnConfigChange_def readyToRun_def)

lemma source_inv_step:
  assumes "ao_step E eq s s'" "source_inv s" "keeps_options E" "\<And>d c. eq d c \<Longrightarrow> bo_SharedKey d = bo_SharedKey c"
  shows "source_inv s'"
  using assms
proof (induction rule: ao_step.induct)
  case (set_config s src fs d)
  have "key_of src d" by (rule runner_transform_key [OF set_config(2,4)])
  moreover have "key_of src c" if "eq d c" for c using set_config(5) [OF that] \<open>key_of src d\<close> by (simp add: key_of_def)
  ultimately show ?case
    using set_config(3) by (auto simp: source_inv_def set_begins_def source_SetConfig_def split: option.splits)
next
  case (listen s n)
  obtain ls where "sc_listeners (rn_src (ao_runner s)) = ConfigRestarter # map OtherListener ls"
    using listen by (auto simp: source_inv_def)
  then have "\<exists>ls. sc_listeners (rn_src (ao_runner s)) @ [OtherListener n] = ConfigRestarter # map OtherListener ls"
    by (intro exI [of _ "ls @ [n]"]) simp
  then show ?case using listen unfolding source_inv_def by (cases "ao_latest s") (simp_all add: OnConfigChange_def)
qed (auto simp: source_inv_def readyToRun_def split: option.splits)

lemma ao_invs:
  assumes "ao_reachable E eq s" "keeps_options E" "\<And>d c. eq d c \<Longrightarrow> bo_SharedKey d = bo_SharedKey c"
  shows "told_inv s \<and> source_inv s"
  using assms(1)
proof (induction rule: ao_reachable.induct)
  case (init base sync fs)
  show ?case by (simp add: told_inv_def source_inv_def ao_init_def NewPomeriumRunner_def NewRestartOnChange_def last_of_def)
next
  case (step s s')
  then show ?case using told_inv_step [OF step(2)] source_inv_step [OF step(2) _ assms(2,3)] by blast
qed

lemma ao_restart_reachable: "ao_reachable E eq s \<Longrightarrow> restart_reachable isBootstrapEqual (ao_restart s)"
proof (induction rule: ao_reachable.induct)
  case (init base sync fs)
  show ?case by (simp add: ao_init_def restart_reachable.init)
next
  case (step s s')
  from step(2,3) show ?case
    by (induction rule: ao_step.induct)
      (auto simp: set_begins_def split: prod.splits intro: restart_reachable.step restart_step.update)
qed

lemma last_change_key:
  "cs \<noteq> [] \<Longrightarrow> changes_of isBootstrapEqual None cs \<noteq> [] \<and>
     bo_SharedKey (last (changes_of isBootstrapEqual None cs)) = bo_SharedKey (last cs)"
proof (induction cs rule: rev_induct)
  case (snoc c cs)
  then show ?case
    by (cases "cs = []") (auto simp: changes_of_snoc isBootstrapEqual_def last_of_def)
qed simp

subsection \<open>Properties\<close>

text \<open>C33: However calls and goroutines interleave, once the service is at rest the one running set of controllers talks
  to the databroker with the shared secret of the latest accepted settings, and Pomerium itself never starts before
  it has a configuration. Settings that were refused in between change nothing of this. Comparing configurations is
  assumed to notice a different key, and Pomerium's validation to keep a key that is set.\<close>

theorem controllers_use_current_secret:
  assumes "ao_reachable E eq s" "keeps_options E" "\<And>d c. eq d c \<Longrightarrow> bo_SharedKey d = bo_SharedKey c"
  shows "runner_Run pick cancelled (ao_runner s) \<noteq> RunPanics \<and>
    (\<forall>src. ao_latest s = Some src \<and> ao_call s = None \<and> \<not> rs_ctx (ao_restart s) \<and>
       rs_filter (ao_restart s) = Receiving \<and> rs_runner (ao_restart s) = Selecting \<longrightarrow>
       (\<exists>i secret key conn. (\<forall>j. task_active (ao_restart s) j \<longleftrightarrow> j = i) \<and>
          pc_Secrets src = Some secret \<and> map_of (sec_data secret) ''shared_secret'' = Some key \<and> length key = 32 \<and>
          getDataBrokerConnection grpcPort outboundPort (tk_cfg (rs_tasks (ao_restart s) ! i)) = Some conn \<and> gc_SignedJWTKey conn = key))"
proof (intro conjI allI impI; (elim conjE)?)
  have inv: "told_inv s" "source_inv s" using ao_invs [OF assms] by auto
  show "runner_Run pick cancelled (ao_runner s) \<noteq> RunPanics"
    using inv(2) by (auto simp: source_inv_def runner_Run_def waitForConfig_def source_GetConfig_def split: option.splits)
  fix src
  assume idle: "ao_latest s = Some src" "ao_call s = None" "\<not> rs_ctx (ao_restart s)"
    "rs_filter (ao_restart s) = Receiving" "rs_runner (ao_restart s) = Selecting"
  let ?t = "ao_restart s" and ?n = "length (rs_tasks (ao_restart s)) - 1"
  have tasks: "map tk_cfg (rs_tasks ?t) = changes_of isBootstrapEqual None (rs_accepted ?t)"
      "\<And>i. i < length (rs_tasks ?t) \<Longrightarrow> task_active ?t i = (Suc i = length (rs_tasks ?t))"
    using restart_quiet [OF ao_restart_reachable [OF assms(1)] idle(4,5)] by auto
  obtain d where d: "last_of None (rs_accepted ?t) = Some d" and "key_of src d"
    using inv idle by (auto simp: told_inv_def source_inv_def)
  then have acc: "rs_accepted ?t \<noteq> []" "last (rs_accepted ?t) = d" by (auto simp: last_of_def split: if_splits)
  then have ne: "rs_tasks ?t \<noteq> []" and "bo_SharedKey (last (map tk_cfg (rs_tasks ?t))) = bo_SharedKey d"
    using last_change_key [OF acc(1)] tasks(1) by auto
  then have key: "bo_SharedKey (tk_cfg (rs_tasks ?t ! ?n)) = bo_SharedKey d" by (simp add: last_map last_conv_nth)
  have "task_active ?t j \<longleftrightarrow> j = ?n" for j
    using tasks(2) [of j] ne by (cases "j < length (rs_tasks ?t)") (auto simp: task_active_def)
  then show "\<exists>i secret key conn. (\<forall>j. task_active ?t j \<longleftrightarrow> j = i) \<and>
      pc_Secrets src = Some secret \<and> map_of (sec_data secret) ''shared_secret'' = Some key \<and> length key = 32 \<and>
      getDataBrokerConnection grpcPort outboundPort (tk_cfg (rs_tasks ?t ! i)) = Some conn \<and> gc_SignedJWTKey conn = key"
    using \<open>key_of src d\<close> by (intro exI [of _ ?n]) (auto simp: key_of_def getDataBrokerConnection_def key [simplified])
qed

definition ex_ao :: "string all_in_one" where
  "ex_ao = ao_init ex_boot_options False []"

theorem controllers_use_current_secret_witness:
  "\<exists>s :: string all_in_one. ao_reachable ex_boot_env (=) s \<and> ao_latest s = Some ex_boot_pom \<and>
     (\<exists>conn. getDataBrokerConnection ''5443'' ''1'' (tk_cfg (rs_tasks (ao_restart s) ! 0)) = Some conn \<and>
        gc_SignedJWTKey conn = replicate 32 CHR ''s'')"
proof -
  have "\<not> isl (snd (runner_transform ex_boot_env (ao_runner ex_ao) ex_boot_pom))" by code_simp
  then obtain fs d where d: "runner_transform ex_boot_env (ao_runner ex_ao) ex_boot_pom = (fs, Inr d)"
    by (cases "runner_transform ex_boot_env (ao_runner ex_ao) ex_boot_pom"; cases "snd (runner_transform ex_boot_env (ao_runner ex_ao) ex_boot_pom)") auto
  let ?s1 = "set_begins (=) ex_boot_pom fs d ex_ao"
  let ?s2 = "?s1\<lparr>ao_call := Some [], ao_restart := filter_receive isBootstrapEqual d (ao_restart ?s1)\<rparr>"
  let ?s3 = "?s2\<lparr>ao_call := None, ao_runner := readyToRun (ao_runner ?s2)\<rparr>"
  let ?s4 = "?s3\<lparr>ao_restart := receive_update d (ao_restart ?s3)\<rparr>"
  let ?s5 = "?s4\<lparr>ao_restart := goRunTask d (ao_restart ?s4)\<rparr>"
  note simps = set_begins_def source_SetConfig_def ex_ao_def ao_init_def NewPomeriumRunner_def NewRestartOnChange_def filter_receive_def
    isBootstrapEqual_def receive_update_def cancel_task_def goRunTask_def
  note step = ao_reachable.step [where E = ex_boot_env and eq = "(=)"]
  have "ao_reachable ex_boot_env (=) ex_ao" unfolding ex_ao_def by (rule ao_reachable.init)
  then have "ao_reachable ex_boot_env (=) ?s1" by (rule step [OF _ ao_step.set_config [OF _ d]]) (simp add: simps)
  then have "ao_reachable ex_boot_env (=) ?s2" by (rule step [OF _ ao_step.notify_restarter]) (simp_all add: simps)
  then have "ao_reachable ex_boot_env (=) ?s3" by (rule step [OF _ ao_step.set_returns]) (simp add: simps)
  then have "ao_reachable ex_boot_env (=) ?s4"
    by (rule step [OF _ ao_step.restarter [OF restart_step.forward]]) (simp_all add: simps)
  then have r: "ao_reachable ex_boot_env (=) ?s5"
    by (rule step [OF _ ao_step.restarter [OF restart_step.first_task]]) (simp_all add: simps)
  have "keeps_options ex_boot_env" by (simp add: keeps_options_def ex_boot_env_def)
  note p = controllers_use_current_secret [OF r this, of True False "''5443''" "''1''"]
  have "task_active (ao_restart ?s5) 0" by (simp add: simps task_active_def)
  moreover have l: "ao_latest ?s5 = Some ex_boot_pom" by (simp add: simps)
  moreover have "ao_call ?s5 = None \<and> \<not> rs_ctx (ao_restart ?s5) \<and> rs_filter (ao_restart ?s5) = Receiving \<and> rs_runner (ao_restart ?s5) = Selecting"
    by (simp add: simps)
  ultimately obtain secret key conn where k: "pc_Secrets ex_boot_pom = Some secret" "map_of (sec_data secret) ''shared_secret'' = Some key"
      and c: "getDataBrokerConnection ''5443'' ''1'' (tk_cfg (rs_tasks (ao_restart ?s5) ! 0)) = Some conn" "gc_SignedJWTKey conn = key"
    using p by metis
  have "secret = ex_boot_secret" using k(1) by (simp add: ex_boot_pom_def)
  then have "key = replicate 32 CHR ''s''" using k(2) by (simp add: ex_boot_secret_def)
  then show ?thesis using r l c by blast
qed

end
