(* ===== verification/Command.thy ===== *)
theory Command
  imports Runner Ingress_Controller Gateway_Controller Cert_Controller
begin

text \<open>
  The commands (\<^verbatim>\<open>cmd\<close>) and \<^verbatim>\<open>controllers/config_controller.go\<close>: from the command line to the controllers that run. Flags are
  parsed into records by a library and start as these; the checks of the validation library, port allocation, the
  Kubernetes client and its configuration, and the manager that runs the controllers are parameters.
\<close>

subsection \<open>Options of both commands\<close>

definition gateway_DefaultClassControllerName :: string where
  "gateway_DefaultClassControllerName = ''pomerium.io/gateway-controller''"

record ingressControllerOpts =
  io_ClassName :: string
  io_GatewayAPIEnabled :: bool
  io_GatewayClassName :: string
  io_AnnotationPrefix :: string
  io_Namespaces :: "string list"
  io_UpdateStatusFromService :: string
  io_GlobalSettings :: string
  io_SyncAPIURL :: string
  io_SyncAPINamespaceID :: string
  io_SyncAPIToken :: string

text \<open>The defaults that \<^verbatim>\<open>setupFlags\<close> gives.\<close>

definition default_ingress_opts :: ingressControllerOpts where
  "default_ingress_opts =
     \<lparr>io_ClassName = DefaultClassControllerName, io_GatewayAPIEnabled = False, io_GatewayClassName = gateway_DefaultClassControllerName,
      io_AnnotationPrefix = DefaultAnnotationPrefix, io_Namespaces = [], io_UpdateStatusFromService = [], io_GlobalSettings = [],
      io_SyncAPIURL = [], io_SyncAPINamespaceID = [], io_SyncAPIToken = []\<rparr>"

datatype cmd_error =
    ErrGlobalSettings nn_error
  | ErrStatusService nn_error
  | ErrArgs string
  | ErrPorts string
  | ErrDebugPort string
  | ErrIngressName string
  | ErrCluster string
  | ErrBootstrapGet api_error
  | ErrBootstrapFetch fetch_error
  | ErrBootstrapRoutes ing_error
  | ErrBootstrapNoRules
  | ErrSharedSecret
  | ErrServerPort host_port_error
  | ErrApiURL
  | ErrLeaderElection
  | ErrServiceURL
  | ErrController string

definition getGlobalSettings :: "ingressControllerOpts \<Rightarrow> cmd_error + namespaced_name option" where
  "getGlobalSettings s =
     (if io_GlobalSettings s = [] then Inr None
      else (case ParseNamespacedName (io_GlobalSettings s) [WithClusterScope] of
              Inl e \<Rightarrow> Inl (ErrGlobalSettings e)
            | Inr name \<Rightarrow> Inr (Some name)))"

type_synonym ingress_option = "ingress_controller \<Rightarrow> ingress_controller"

definition getIngressControllerOptions :: "ingressControllerOpts \<Rightarrow> cmd_error + ingress_option list" where
  "getIngressControllerOptions s =
     (let opts = [WithNamespaces (io_Namespaces s), WithAnnotationPrefix (io_AnnotationPrefix s), WithControllerName (io_ClassName s)] in
      ebind (getGlobalSettings s) (\<lambda>name.
        let opts1 = (case name of None \<Rightarrow> opts | Some n \<Rightarrow> opts @ [WithGlobalSettings n]) in
        if io_UpdateStatusFromService s = [] then Inr opts1
        else (case ParseNamespacedName (io_UpdateStatusFromService s) [] of
                Inl e \<Rightarrow> Inl (ErrStatusService e)
              | Inr n \<Rightarrow> Inr (opts1 @ [WithUpdateIngressStatusFromService n]))))"

definition getGatewayControllerConfig :: "ingressControllerOpts \<Rightarrow> cmd_error + gateway_controller option" where
  "getGatewayControllerConfig s =
     (if \<not> io_GatewayAPIEnabled s then Inr None
      else let cfg = \<lparr>gct_ControllerName = io_GatewayClassName s, gct_ServiceName = NamespacedName [] []\<rparr> in
        if io_UpdateStatusFromService s = [] then Inr (Some cfg)
        else (case ParseNamespacedName (io_UpdateStatusFromService s) [] of
                Inl e \<Rightarrow> Inl (ErrStatusService e)
              | Inr n \<Rightarrow> Inr (Some (cfg\<lparr>gct_ServiceName := n\<rparr>))))"

subsection \<open>The controllers\<close>

text \<open>The connections of the reconciler: to the databroker, or to the API with an address to dial instead of its own.\<close>

datatype reconciler_backend =
    DataBrokerBackend conn_options
  | APIBackend (api_url: string) (api_namespace: "string option") (api_token: string) (api_dial: string)

record controller =
  cn_Reconciler :: reconciler_backend
  cn_DataBrokerServiceClient :: "conn_options option"
  cn_metrics :: string
  cn_LeaderElection :: "(string \<times> string) option"
  cn_IngressCtrlOpts :: "ingress_option list"
  cn_GatewayControllerConfig :: "gateway_controller option"
  cn_GlobalSettings :: "namespaced_name option"
  cn_CertificateControllerName :: string
  cn_running :: bool

text \<open>\<^verbatim>\<open>NewAPIReconciler\<close>; the URL is parsed only when the address is overridden.\<close>

definition NewAPIReconciler :: "(string \<Rightarrow> bool) \<Rightarrow> string \<Rightarrow> string \<Rightarrow> string \<Rightarrow> string \<Rightarrow> cmd_error + reconciler_backend" where
  "NewAPIReconciler url_ok apiURL namespaceID apiToken dialAddressOverride =
     (if dialAddressOverride \<noteq> [] \<and> \<not> url_ok apiURL then Inl ErrApiURL
      else Inr (APIBackend apiURL (if namespaceID = [] then None else Some namespaceID) apiToken dialAddressOverride))"

datatype reporter_option = IngressSettingsReporter namespaced_name | IngressSettingsEventReporter namespaced_name

definition getIngressOpts :: "controller \<Rightarrow> ingress_option list \<times> reporter_option list" where
  "getIngressOpts c =
     (case cn_GlobalSettings c of
        None \<Rightarrow> (cn_IngressCtrlOpts c, [])
      | Some name \<Rightarrow> (cn_IngressCtrlOpts c, [IngressSettingsReporter name, IngressSettingsEventReporter name]))"

datatype started =
    StartedIngress ingress_controller "reporter_option list"
  | StartedSettings namespaced_name
  | StartedCertificate "conn_options option" controllerConfig
  | StartedGateway gateway_controller

text \<open>The manager: the error of each step, if any.\<close>

record manager_env =
  mg_config :: "string option"
  mg_new :: "string option"
  mg_ingress :: "string option"
  mg_settings :: "string option"
  mg_gateway :: "string option"
  mg_start :: "string option"

definition setRunning :: "bool \<Rightarrow> controller \<Rightarrow> controller" where
  "setRunning r c = c\<lparr>cn_running := r\<rparr>"

definition ReadyzCheck :: "controller \<Rightarrow> bool" where
  "ReadyzCheck c = cn_running c"

text \<open>The controllers that \<^verbatim>\<open>RunLeased\<close> registers, and the controller as it is while the manager runs; \<^verbatim>\<open>setRunning(false)\<close>
  is deferred.\<close>

definition fail_if :: "string option \<Rightarrow> 'a \<Rightarrow> cmd_error + 'a" where
  "fail_if e x = (case e of Some m \<Rightarrow> Inl (ErrController m) | None \<Rightarrow> Inr x)"

definition settings_controllers :: "manager_env \<Rightarrow> controller \<Rightarrow> cmd_error + started list" where
  "settings_controllers M c =
     (case cn_GlobalSettings c of
        None \<Rightarrow> Inr []
      | Some name \<Rightarrow>
          fail_if (mg_settings M) [StartedSettings name,
            StartedCertificate (cn_DataBrokerServiceClient c)
              (getControllerConfig [WithControllerName_cert (cn_CertificateControllerName c), WithGlobalSettingsName name])])"

definition gateway_controllers :: "manager_env \<Rightarrow> controller \<Rightarrow> cmd_error + started list" where
  "gateway_controllers M c =
     (case cn_GatewayControllerConfig c of None \<Rightarrow> Inr [] | Some g \<Rightarrow> fail_if (mg_gateway M) [StartedGateway g])"

definition RunLeased_register :: "manager_env \<Rightarrow> controller \<Rightarrow> cmd_error + (controller \<times> started list)" where
  "RunLeased_register M c =
     ebind (fail_if (mg_config M) ()) (\<lambda>_.
     ebind (fail_if (mg_new M) ()) (\<lambda>_.
     ebind (fail_if (mg_ingress M) (StartedIngress (NewIngressController (fst (getIngressOpts c))) (snd (getIngressOpts c)))) (\<lambda>i.
     ebind (settings_controllers M c) (\<lambda>ss.
     ebind (gateway_controllers M c) (\<lambda>gs. Inr (setRunning True c, i # ss @ gs))))))"

definition RunLeased :: "manager_env \<Rightarrow> controller \<Rightarrow> controller \<times> (cmd_error + started list)" where
  "RunLeased M c =
     (setRunning False c,
      ebind (RunLeased_register M c) (\<lambda>(_, started). fail_if (mg_start M) started))"

text \<open>\<^verbatim>\<open>Run\<close>; \<open>lease\<close> is the error of the databroker lease, which is not needed with leader election.\<close>

definition controller_Run :: "manager_env \<Rightarrow> string option \<Rightarrow> controller \<Rightarrow> controller \<times> (cmd_error + started list)" where
  "controller_Run M lease c =
     (if cn_LeaderElection c \<noteq> None then RunLeased M c
      else (case lease of Some e \<Rightarrow> (c, Inl (ErrController e)) | None \<Rightarrow> RunLeased M c))"

subsection \<open>The configuration of the all-in-one service\<close>

text \<open>\<^verbatim>\<open>config.Config\<close>: the options and the ports that this repository reads. A policy of the options is represented by the
  route it is made from.\<close>

record scrape_endpoint =
  se_Name :: string
  se_URL :: string
  se_Labels :: "(string, string) gomap"

record all_config =
  ac_Options :: pom_options
  ac_GRPCPort :: string
  ac_OutboundPort :: string
  ac_DebugPort :: string
  ac_MetricsScrapeEndpoints :: "scrape_endpoint list"

record dataBrokerOptions =
  do_ClusterNodeID :: string
  do_ClusterNodes :: "string list"
  do_RaftBindAddress :: string
  do_ServiceURLs :: "string list"

definition dataBrokerOptions_apply :: "dataBrokerOptions \<Rightarrow> pom_options \<Rightarrow> pom_options" where
  "dataBrokerOptions_apply d dst =
     (let dst1 = (if do_ClusterNodeID d \<noteq> [] then dst\<lparr>bo_ClusterNodeID := Some (do_ClusterNodeID d)\<rparr> else dst);
          dst2 = dst1\<lparr>bo_ClusterNodes := do_ClusterNodes d\<rparr>;
          dst3 = (if do_RaftBindAddress d \<noteq> [] then dst2\<lparr>bo_RaftBindAddress := Some (do_RaftBindAddress d)\<rparr> else dst2)
      in dst3\<lparr>bo_ServiceURLs := do_ServiceURLs d\<rparr>)"

record allCmdOptions =
  al_ingress :: ingressControllerOpts
  al_debug :: bool
  al_debugDumpConfigDiff :: bool
  al_debugPomerium :: bool
  al_debugEnvoy :: bool
  al_adminBindAddr :: string
  al_debugPort :: string
  al_configControllerShutdownTimeout :: int
  al_healthProbeBindAddress :: string
  al_metricsBindAddress :: string
  al_serverAddr :: string
  al_sshAddr :: string
  al_httpRedirectAddr :: string
  al_deriveTLS :: string
  al_grpcAddr :: string
  al_services :: "string list"
  al_syncAPIIngress :: string
  al_certificateName :: string
  al_dataBroker :: dataBrokerOptions

definition default_all_opts :: allCmdOptions where
  "default_all_opts =
     \<lparr>al_ingress = default_ingress_opts, al_debug = False, al_debugDumpConfigDiff = False, al_debugPomerium = False, al_debugEnvoy = False,
      al_adminBindAddr = [], al_debugPort = [], al_configControllerShutdownTimeout = 30000000000, al_healthProbeBindAddress = ''127.0.0.1:28080'', al_metricsBindAddress = [],
      al_serverAddr = '':8443'', al_sshAddr = [], al_httpRedirectAddr = '':8080'', al_deriveTLS = [], al_grpcAddr = '':5443'',
      al_services = [''all''], al_syncAPIIngress = [], al_certificateName = DefaultControllerName,
      al_dataBroker = \<lparr>do_ClusterNodeID = [], do_ClusterNodes = [], do_RaftBindAddress = [], do_ServiceURLs = []\<rparr>\<rparr>"

record allCmdParam =
  pm_settings :: namespaced_name
  pm_ingressOpts :: "ingress_option list"
  pm_gatewayConfig :: "gateway_controller option"
  pm_updateStatusFromService :: string
  pm_dumpConfigDiff :: bool
  pm_syncAPIURL :: string
  pm_syncAPINamespaceID :: string
  pm_syncAPIToken :: string
  pm_syncAPIBootstrap :: bool
  pm_bootstrapMetricsAddr :: string
  pm_ingressMetricsAddr :: string
  pm_configControllerShutdownTimeout :: int
  pm_certificateControllerName :: string
  pm_cfg :: all_config

record cmd_env =
  ce_validate :: "allCmdOptions \<Rightarrow> string option"
  ce_new_config :: all_config
  ce_ports :: "string + string list"
  ce_allocate :: "string list \<Rightarrow> all_config \<Rightarrow> all_config"
  ce_cluster :: "string option"
  ce_order :: "nat \<Rightarrow> nat list"
  ce_ann :: ann_env
  ce_slug :: "string \<Rightarrow> string"
  ce_policy :: "pb_route \<Rightarrow> pb_route option"
  ce_url_ok :: "string \<Rightarrow> bool"

text \<open>\<open>ce_ports\<close> is the result of \<^verbatim>\<open>netutil.AllocatePorts(9)\<close>; \<open>ce_cluster\<close> the error of making the scheme, the configuration or the
  client of the Kubernetes API; \<open>ce_policy\<close> is \<^verbatim>\<open>NewPolicyFromProto\<close>.\<close>

definition set_options :: "(pom_options \<Rightarrow> pom_options) \<Rightarrow> allCmdParam \<Rightarrow> allCmdParam" where
  "set_options f p = p\<lparr>pm_cfg := (pm_cfg p)\<lparr>ac_Options := f (ac_Options (pm_cfg p))\<rparr>\<rparr>"

definition annotate_ingress :: "string \<Rightarrow> string \<Rightarrow> ingress \<Rightarrow> ingress" where
  "annotate_ingress k v ing = ing\<lparr>ing_meta := (ing_meta ing)\<lparr>om_annotations :=
     (case SetAnnotation (Some (om_annotations (ing_meta ing))) k v of Some m \<Rightarrow> m | None \<Rightarrow> [])\<rparr>\<rparr>"

definition bootstrap_routes :: "cmd_env \<Rightarrow> api_server \<Rightarrow> namespaced_name \<Rightarrow> string \<Rightarrow> cmd_error + pb_route list" where
  "bootstrap_routes C A nn pfx =
     ebind (case as_ingress A nn of Inl e \<Rightarrow> Inl (ErrBootstrapGet e) | Inr ing \<Rightarrow> Inr ing) (\<lambda>ing.
     ebind (case snd (FetchIngress (ce_order C) A (ingress_key ing) ing pfx NewRegistry) of
              Inl e \<Rightarrow> Inl (ErrBootstrapFetch e)
            | Inr ic \<Rightarrow> Inr ic) (\<lambda>ic.
       case IngressToRoutes (ce_policy C) (ce_ann C) (ce_slug C)
              (ic\<lparr>ic_Ingress := annotate_ingress (pfx @ ''/'' @ UseServiceProxyKey) ''true'' (ic_Ingress ic)\<rparr>) of
         Inl e \<Rightarrow> Inl (ErrBootstrapRoutes e)
       | Inr rs \<Rightarrow> if rs = [] then Inl ErrBootstrapNoRules else Inr rs))"

text \<open>The tracking client reads what a plain client reads; the registry it fills is dropped.\<close>

definition applyBootstrapIngress :: "cmd_env \<Rightarrow> api_server \<Rightarrow> string \<Rightarrow> string \<Rightarrow> allCmdParam \<Rightarrow> cmd_error + allCmdParam" where
  "applyBootstrapIngress C A name pfx s =
     (if name = [] then Inr s
      else (case Cut name (CHR ''/'') of
              (ns, n, found) \<Rightarrow>
                if \<not> found then Inl (ErrIngressName name)
                else (case ce_cluster C of
                        Some e \<Rightarrow> Inl (ErrCluster e)
                      | None \<Rightarrow>
                          ebind (bootstrap_routes C A (NamespacedName ns n) pfx) (\<lambda>rs.
                            Inr ((set_options (\<lambda>d. d\<lparr>bo_Policies := bo_Policies d @ rs\<rparr>) s)\<lparr>pm_syncAPIURL := r_From (hd rs)\<rparr>)))))"

text \<open>\<^verbatim>\<open>strconv.ParseUint(s, 10, 16)\<close>.\<close>

definition ParseUint16 :: "string \<Rightarrow> 16 word option" where
  "ParseUint16 v = (case decimal v of None \<Rightarrow> None | Some n \<Rightarrow> if n < 2 ^ 16 then Some (of_nat n) else None)"

definition log_levels :: "allCmdOptions \<Rightarrow> string \<times> string" where
  "log_levels opt =
     (if al_debugEnvoy opt then (''debug'', ''debug'')
      else (if al_debugPomerium opt then ''debug'' else ''info'', ''info''))"

definition command_options :: "allCmdOptions \<Rightarrow> pom_options \<Rightarrow> pom_options" where
  "command_options opt d =
     d\<lparr>bo_DeriveInternalDomainCert := (if al_deriveTLS opt \<noteq> [] then Some (al_deriveTLS opt) else bo_DeriveInternalDomainCert d),
       bo_GRPCInsecure := (if al_deriveTLS opt \<noteq> [] then Some False else bo_GRPCInsecure d),
       bo_MetricsAddr := al_metricsBindAddress opt, bo_HealthCheckAddr := al_healthProbeBindAddress opt,
       bo_LogLevel := fst (log_levels opt), bo_ProxyLogLevel := snd (log_levels opt),
       bo_EnvoyAdminAddress := al_adminBindAddr opt, bo_HTTP3AdvertisePort := Some 443, bo_SSHAddr := al_sshAddr opt\<rparr>"

definition metrics_endpoint :: "string \<Rightarrow> string \<Rightarrow> string \<Rightarrow> scrape_endpoint" where
  "metrics_endpoint name addr service =
     \<lparr>se_Name = name, se_URL = URL_String ''http'' addr @ ''/metrics'', se_Labels = [(''service'', service)]\<rparr>"

definition makeBootstrapConfig :: "cmd_env \<Rightarrow> api_server \<Rightarrow> allCmdOptions \<Rightarrow> allCmdParam \<Rightarrow> cmd_error + allCmdParam" where
  "makeBootstrapConfig C A opt s =
     (let s1 = set_options (\<lambda>d. d\<lparr>bo_Services := Join (al_services opt) '','', bo_Addr := al_serverAddr opt, bo_GRPCAddr := al_grpcAddr opt,
                 bo_HTTPRedirectAddr := al_httpRedirectAddr opt\<rparr>) (s\<lparr>pm_cfg := ce_new_config C\<rparr>) in
      ebind (case ce_ports C of Inl e \<Rightarrow> Inl (ErrPorts e) | Inr ports \<Rightarrow> Inr ports) (\<lambda>ports.
        let cfg2 = ce_allocate C (take 7 ports) (pm_cfg s1) in
        ebind (if al_debugPort opt = [] then Inr cfg2
               else if ParseUint16 (al_debugPort opt) = None then Inl (ErrDebugPort (al_debugPort opt))
               else Inr (cfg2\<lparr>ac_DebugPort := al_debugPort opt\<rparr>)) (\<lambda>cfg3.
          let bootstrap = ''localhost:'' @ ports ! 7; ingress = ''localhost:'' @ ports ! 8;
              cfg4 = cfg3\<lparr>ac_Options := dataBrokerOptions_apply (al_dataBroker opt) (command_options opt (ac_Options cfg3)),
                ac_MetricsScrapeEndpoints := [metrics_endpoint ''bootstrap'' bootstrap ''bootstrap-controller'',
                                              metrics_endpoint ''ingress'' ingress ''ingress-controller'']\<rparr> in
          applyBootstrapIngress C A (al_syncAPIIngress opt) (io_AnnotationPrefix (al_ingress opt))
            (s1\<lparr>pm_cfg := cfg4, pm_bootstrapMetricsAddr := bootstrap, pm_ingressMetricsAddr := ingress\<rparr>))))"

definition getParam :: "cmd_env \<Rightarrow> api_server \<Rightarrow> allCmdOptions \<Rightarrow> cmd_error + allCmdParam" where
  "getParam C A s =
     (case ParseNamespacedName (io_GlobalSettings (al_ingress s)) [WithClusterScope] of
        Inl e \<Rightarrow> Inl (ErrGlobalSettings e)
      | Inr settings \<Rightarrow>
          (case ce_validate C s of
             Some e \<Rightarrow> Inl (ErrArgs e)
           | None \<Rightarrow>
               ebind (getIngressControllerOptions (al_ingress s)) (\<lambda>opts.
               ebind (getGatewayControllerConfig (al_ingress s)) (\<lambda>gatewayConfig.
                 makeBootstrapConfig C A s
                   \<lparr>pm_settings = settings, pm_ingressOpts = opts, pm_gatewayConfig = gatewayConfig,
                    pm_updateStatusFromService = io_UpdateStatusFromService (al_ingress s),
                    pm_dumpConfigDiff = al_debugDumpConfigDiff s, pm_syncAPIURL = io_SyncAPIURL (al_ingress s),
                    pm_syncAPINamespaceID = io_SyncAPINamespaceID (al_ingress s), pm_syncAPIToken = io_SyncAPIToken (al_ingress s),
                    pm_syncAPIBootstrap = (al_syncAPIIngress s \<noteq> []), pm_bootstrapMetricsAddr = [], pm_ingressMetricsAddr = [],
                    pm_configControllerShutdownTimeout = al_configControllerShutdownTimeout s,
                    pm_certificateControllerName = al_certificateName s, pm_cfg = ce_new_config C\<rparr>))))"

text \<open>The controllers of the all-in-one service, for the configuration \<open>cfg\<close> that the restarter hands over; the ports are
  those of the base configuration.\<close>

definition buildController :: "cmd_env \<Rightarrow> allCmdParam \<Rightarrow> pom_options \<Rightarrow> cmd_error + controller" where
  "buildController C s cfg =
     (case ce_cluster C of
        Some e \<Rightarrow> Inl (ErrCluster e)
      | None \<Rightarrow>
          (case getDataBrokerConnection (ac_GRPCPort (pm_cfg s)) (ac_OutboundPort (pm_cfg s)) cfg of
             None \<Rightarrow> Inl ErrSharedSecret
           | Some conn \<Rightarrow>
               ebind (if pm_syncAPIURL s \<noteq> []
                      then ebind (if pm_syncAPIBootstrap s
                                  then (case SplitHostPort (bo_Addr (ac_Options (pm_cfg s))) of
                                          Inl e \<Rightarrow> Inl (ErrServerPort e)
                                        | Inr (_, port) \<Rightarrow> Inr (JoinHostPort ''localhost'' port))
                                  else Inr [])
                             (NewAPIReconciler (ce_url_ok C) (pm_syncAPIURL s) (pm_syncAPINamespaceID s) (pm_syncAPIToken s))
                      else Inr (DataBrokerBackend conn)) (\<lambda>reconciler.
                 Inr \<lparr>cn_Reconciler = reconciler, cn_DataBrokerServiceClient = Some conn, cn_metrics = pm_ingressMetricsAddr s,
                      cn_LeaderElection = None, cn_IngressCtrlOpts = pm_ingressOpts s, cn_GatewayControllerConfig = pm_gatewayConfig s,
                      cn_GlobalSettings = Some (pm_settings s), cn_CertificateControllerName = pm_certificateControllerName s,
                      cn_running = False\<rparr>)))"

subsection \<open>The standalone controller\<close>

record controllerCmd =
  sc_ingress :: ingressControllerOpts
  sc_metricsAddr :: string
  sc_probeAddr :: string
  sc_databrokerServiceURL :: string
  sc_tlsCAFile :: string
  sc_tlsCA :: string
  sc_tlsInsecureSkipVerify :: bool
  sc_tlsOverrideCertificateName :: string
  sc_leaderElectionID :: string
  sc_leaderElectionNamespace :: string
  sc_leaderElectionChanged :: bool
  sc_sharedSecret :: string

definition default_controller_opts :: controllerCmd where
  "default_controller_opts = \<lparr>sc_ingress = default_ingress_opts, sc_metricsAddr = '':9090'', sc_probeAddr = '':8081'', sc_databrokerServiceURL = ''http://localhost:5443'',
     sc_tlsCAFile = [], sc_tlsCA = [], sc_tlsInsecureSkipVerify = False, sc_tlsOverrideCertificateName = [],
     sc_leaderElectionID = ''pomerium-ingress-controller'', sc_leaderElectionNamespace = [], sc_leaderElectionChanged = False, sc_sharedSecret = []\<rparr>"

text \<open>The connection of the standalone controller: the error of decoding the shared secret is ignored.\<close>

definition standalone_connection :: "(string \<Rightarrow> bool) \<Rightarrow> controllerCmd \<Rightarrow> cmd_error + conn_options" where
  "standalone_connection url_ok s =
     (if \<not> url_ok (sc_databrokerServiceURL s) then Inl ErrServiceURL
      else Inr \<lparr>gc_Address = sc_databrokerServiceURL s, gc_ServiceName = ''databroker'',
        gc_SignedJWTKey = DecodeString_bytes (sc_sharedSecret s), gc_CA = EncodeToString (sc_tlsCA s), gc_CAFile = sc_tlsCAFile s,
        gc_OverrideCertificateName = sc_tlsOverrideCertificateName s, gc_InsecureSkipVerify = sc_tlsInsecureSkipVerify s\<rparr>)"

definition standalone_buildController :: "cmd_env \<Rightarrow> controllerCmd \<Rightarrow> cmd_error + controller" where
  "standalone_buildController C s =
     ebind (getIngressControllerOptions (sc_ingress s)) (\<lambda>opts.
     ebind (getGatewayControllerConfig (sc_ingress s)) (\<lambda>gatewayConfig.
     ebind (case ce_cluster C of Some e \<Rightarrow> Inl (ErrCluster e) | None \<Rightarrow> Inr ()) (\<lambda>_.
     ebind (getGlobalSettings (sc_ingress s)) (\<lambda>globalSettings.
       let c = (\<lambda>reconciler client leader.
             \<lparr>cn_Reconciler = reconciler, cn_DataBrokerServiceClient = client, cn_metrics = sc_metricsAddr s, cn_LeaderElection = leader,
              cn_IngressCtrlOpts = opts, cn_GatewayControllerConfig = gatewayConfig, cn_GlobalSettings = globalSettings,
              cn_CertificateControllerName = [], cn_running = False\<rparr>) in
       if io_SyncAPIURL (sc_ingress s) \<noteq> []
       then ebind (NewAPIReconciler (ce_url_ok C) (io_SyncAPIURL (sc_ingress s)) (io_SyncAPINamespaceID (sc_ingress s))
                     (io_SyncAPIToken (sc_ingress s)) []) (\<lambda>reconciler.
              Inr (c reconciler None (Some (sc_leaderElectionID s, sc_leaderElectionNamespace s))))
       else if sc_leaderElectionChanged s then Inl ErrLeaderElection
       else ebind (standalone_connection (ce_url_ok C) s) (\<lambda>conn. Inr (c (DataBrokerBackend conn) (Some conn) None))))))"

subsection \<open>Generating the secrets\<close>

datatype gen_secrets_error = GsName nn_error | GsCluster string | GsGet api_error | GsGenerate gen_error | GsCreate string

text \<open>The secrets of the cluster are a map; \<open>create\<close> is the error of \<^verbatim>\<open>Create\<close>, if any, and \<open>read\<close> of \<^verbatim>\<open>Get\<close>.\<close>

definition gen_secrets ::
  "'k key_env \<Rightarrow> string option \<Rightarrow> (namespaced_name \<Rightarrow> api_error option) \<Rightarrow> string option \<Rightarrow> string \<Rightarrow>
     (namespaced_name \<rightharpoonup> secret) \<Rightarrow> (namespaced_name \<rightharpoonup> secret) \<times> gen_secrets_error option" where
  "gen_secrets K cluster read create secrets m =
     (case ParseNamespacedName secrets [] of
        Inl e \<Rightarrow> (m, Some (GsName e))
      | Inr name \<Rightarrow>
          (case cluster of
             Some e \<Rightarrow> (m, Some (GsCluster e))
           | None \<Rightarrow>
               (case (case read name of Some e \<Rightarrow> Inl e | None \<Rightarrow> (case m name of None \<Rightarrow> Inl NotFound | Some s \<Rightarrow> Inr s)) of
                  Inr _ \<Rightarrow> (m, None)
                | Inl e \<Rightarrow>
                    if \<not> IsNotFound e then (m, Some (GsGet e))
                    else (case NewBootstrapSecrets K name of
                            Inl e \<Rightarrow> (m, Some (GsGenerate e))
                          | Inr secret \<Rightarrow>
                              (case create of
                                 Some e \<Rightarrow> (m, Some (GsCreate e))
                               | None \<Rightarrow> if m name \<noteq> None then (m, Some (GsCreate ''already exists'')) else (m(name \<mapsto> secret), None))))))"

end
