(* ===== verification/Command_Spec.thy ===== *)
theory Command_Spec
  imports Command
begin

text \<open>
  Properties of the commands: the bootstrap ingress of the all-in-one service, the controllers that both commands start, and the
  secrets that \<^verbatim>\<open>gen-secrets\<close> makes for the bootstrap.
\<close>

subsection \<open>The bootstrap ingress does not depend on endpoints\<close>

lemma UseServiceProxy_annotated:
  "UseServiceProxy (ic\<lparr>ic_Ingress := annotate_ingress (AnnotationPrefix ic @ ''/'' @ UseServiceProxyKey) ''true'' ing\<rparr>)"
  by (simp add: UseServiceProxy_def IsAnnotationSet_def annotate_ingress_def SetAnnotation_def mget_str_def deref_str_def update_conv')
    code_simp

lemma endpoints_frame:
  "IsAnnotationSet (ic\<lparr>ic_Endpoints := eps\<rparr>) name = IsAnnotationSet ic name"
  "getServiceFromPath p (ic\<lparr>ic_Endpoints := eps\<rparr>) = getServiceFromPath p ic"
  "ic_GetNamespacedName (ic\<lparr>ic_Endpoints := eps\<rparr>) n = ic_GetNamespacedName ic n"
  "route_template E (ic\<lparr>ic_Endpoints := eps\<rparr>) = route_template E ic"
  by (simp_all add: IsAnnotationSet_def getServiceFromPath_def GetServicePortByName_def ic_GetNamespacedName_def
      route_template_def applyAnnotations_def cong: option.case_cong sum.case_cong if_cong)

lemmas endpoints_flags = endpoints_frame(1) IsSecureUpstream_def IsSSHUpstream_def IsTCPUpstream_def IsUDPUpstream_def IsPathRegex_def

lemma pathToRoute_endpoints:
  assumes "UseServiceProxy ic"
  shows "pathToRoute slug r host p (ic\<lparr>ic_Endpoints := eps\<rparr>) = pathToRoute slug r host p ic"
proof -
  let ?ic = "ic\<lparr>ic_Endpoints := eps\<rparr>"
  have "setRouteFrom r host p ?ic = setRouteFrom r host p ic" for r
    by (simp add: setRouteFrom_def add_port_def endpoints_frame(2) endpoints_flags cong: if_cong)
  moreover have "setRoutePath r p ?ic = setRoutePath r p ic" for r
    by (simp add: setRoutePath_def endpoints_flags cong: option.case_cong if_cong)
  moreover have "UseServiceProxy ?ic" using assms by (simp add: UseServiceProxy_def endpoints_frame(1))
  then have "getPathServiceHosts r p ?ic = getPathServiceHosts r p ic" for r
    using assms by (simp add: getPathServiceHosts_def endpoints_frame(2) Let_def cong: if_cong)
  then have "setServiceURLs r p ?ic = setServiceURLs r p ic" for r
    by (simp add: setServiceURLs_def getUpstreamScheme_def endpoints_flags)
  ultimately show ?thesis by (simp add: pathToRoute_def endpoints_frame(3))
qed

lemma IngressToRoutes_endpoints:
  assumes "UseServiceProxy ic"
  shows "IngressToRoutes f E slug (ic\<lparr>ic_Endpoints := eps\<rparr>) = IngressToRoutes f E slug ic"
proof -
  have rule: "ruleToRoute slug rule tmpl (ic\<lparr>ic_Endpoints := eps\<rparr>) = ruleToRoute slug rule tmpl ic" for rule tmpl
    by (simp add: ruleToRoute_def pathToRoute_endpoints [OF assms] endpoints_frame(1) cong: option.case_cong if_cong)
  then have "defaultBackend slug tmpl (ic\<lparr>ic_Endpoints := eps\<rparr>) b = defaultBackend slug tmpl ic b" for tmpl b
    by (simp add: defaultBackend_def)
  with rule show ?thesis by (simp add: IngressToRoutes_def ingressToRoutes_def endpoints_frame(4) cong: option.case_cong)
qed

lemma fetchIngressService_endpoints:
  assumes "snd (fetchIngressService A self a name r) = Inr a'" "snd (fetchIngressService (A\<lparr>as_endpoints := f\<rparr>) self b name r') = Inr b'" "fst a = fst b"
  shows "fst a' = fst b'"
  using assms by (auto simp: fetchIngressService_def act_bind_Inr tracked_Get_result ServiceKind_def EndpointsKind_def Let_def split: if_splits sum.splits)

lemma fetch_fold_endpoints:
  "snd (act_fold (fetch_path A self ing) a ps r) = Inr a' \<Longrightarrow>
   snd (act_fold (fetch_path (A\<lparr>as_endpoints := f\<rparr>) self ing) b ps r') = Inr b' \<Longrightarrow> fst a = fst b \<Longrightarrow> fst a' = fst b'"
proof (induction ps arbitrary: a b r r')
  case (Cons p ps)
  then obtain a1 b1 where
      a: "snd (fetch_path A self ing a p r) = Inr a1" "snd (act_fold (fetch_path A self ing) a1 ps (fst (fetch_path A self ing a p r))) = Inr a'"
    and b: "snd (fetch_path (A\<lparr>as_endpoints := f\<rparr>) self ing b p r') = Inr b1"
      "snd (act_fold (fetch_path (A\<lparr>as_endpoints := f\<rparr>) self ing) b1 ps (fst (fetch_path (A\<lparr>as_endpoints := f\<rparr>) self ing b p r'))) = Inr b'"
    by (auto simp: act_bind_Inr)
  have "fst a1 = fst b1"
    using a(1) b(1) Cons.prems(3) by (auto simp: fetch_path_def dest: fetchIngressService_endpoints split: option.splits)
  then show ?case by (rule Cons.IH [OF a(2) b(2)])
qed simp

lemma FetchIngress_endpoints:
  assumes "snd (FetchIngress order A self ing p r) = Inr ic" "snd (FetchIngress order (A\<lparr>as_endpoints := f\<rparr>) self ing p r) = Inr ic'"
  shows "ic' = ic\<lparr>ic_Endpoints := ic_Endpoints ic'\<rparr> \<and> AnnotationPrefix ic = p"
proof -
  have "fetchIngressSecrets order (A\<lparr>as_endpoints := f\<rparr>) self ing p = fetchIngressSecrets order A self ing p"
    by (simp add: fetchIngressSecrets_def)
  moreover have "fst x = fst y"
    if "snd (fetchIngressServices A self ing r1) = Inr x" "snd (fetchIngressServices (A\<lparr>as_endpoints := f\<rparr>) self ing r1) = Inr y" for x y r1
    using that by (auto simp: fetchIngressServices_def act_bind_Inr split: option.splits
        dest: fetch_fold_endpoints fetchIngressService_endpoints)
  ultimately show ?thesis using assms unfolding FetchIngress_def act_bind_Inr by (fastforce simp: act_bind_Inr)
qed

lemma bootstrap_routes_Inr:
  "bootstrap_routes C A nn pfx = Inr rs \<longleftrightarrow> rs \<noteq> [] \<and>
     (\<exists>ing ic. as_ingress A nn = Inr ing \<and> snd (FetchIngress (ce_order C) A (ingress_key ing) ing pfx NewRegistry) = Inr ic \<and>
        IngressToRoutes (ce_policy C) (ce_ann C) (ce_slug C)
          (ic\<lparr>ic_Ingress := annotate_ingress (pfx @ ''/'' @ UseServiceProxyKey) ''true'' (ic_Ingress ic)\<rparr>) = Inr rs)"
proof (cases "as_ingress A nn")
  case (Inr ing)
  then show ?thesis
    unfolding bootstrap_routes_def
    by (cases "snd (FetchIngress (ce_order C) A (ingress_key ing) ing pfx NewRegistry)") (auto split: sum.splits)
qed (simp add: bootstrap_routes_def)

lemma bootstrap_routes_endpoints:
  assumes "bootstrap_routes C A nn pfx = Inr rs" "bootstrap_routes C (A\<lparr>as_endpoints := f\<rparr>) nn pfx = Inr rs'"
  shows "rs' = rs"
proof -
  let ?A = "A\<lparr>as_endpoints := f\<rparr>" and ?ing = "annotate_ingress (pfx @ ''/'' @ UseServiceProxyKey) ''true''"
  obtain ing ic where ing: "as_ingress A nn = Inr ing" and ic: "snd (FetchIngress (ce_order C) A (ingress_key ing) ing pfx NewRegistry) = Inr ic"
    and rs: "IngressToRoutes (ce_policy C) (ce_ann C) (ce_slug C) (ic\<lparr>ic_Ingress := ?ing (ic_Ingress ic)\<rparr>) = Inr rs"
    using assms(1) unfolding bootstrap_routes_Inr by blast
  obtain ic' where ic': "snd (FetchIngress (ce_order C) ?A (ingress_key ing) ing pfx NewRegistry) = Inr ic'"
    and rs': "IngressToRoutes (ce_policy C) (ce_ann C) (ce_slug C) (ic'\<lparr>ic_Ingress := ?ing (ic_Ingress ic')\<rparr>) = Inr rs'"
    using assms(2) ing unfolding bootstrap_routes_Inr by auto
  let ?ic = "ic\<lparr>ic_Ingress := ?ing (ic_Ingress ic)\<rparr>"
  obtain eps where eq: "ic' = ic\<lparr>ic_Endpoints := eps\<rparr>" "AnnotationPrefix ic = pfx" using FetchIngress_endpoints [OF ic ic'] by blast
  then have "UseServiceProxy ?ic" using UseServiceProxy_annotated [of ic "ic_Ingress ic"] by simp
  moreover have "ic'\<lparr>ic_Ingress := ?ing (ic_Ingress ic')\<rparr> = ?ic\<lparr>ic_Endpoints := eps\<rparr>" by (simp add: eq(1))
  ultimately have "IngressToRoutes (ce_policy C) (ce_ann C) (ce_slug C) (ic'\<lparr>ic_Ingress := ?ing (ic_Ingress ic')\<rparr>) =
      IngressToRoutes (ce_policy C) (ce_ann C) (ce_slug C) ?ic" using IngressToRoutes_endpoints [of ?ic] by metis
  then show ?thesis using rs rs' by simp
qed


definition ex_cmd_env :: cmd_env where
  "ex_cmd_env = \<lparr>ce_validate = (\<lambda>_. None),
     ce_new_config = \<lparr>ac_Options = ex_boot_options, ac_GRPCPort = [], ac_OutboundPort = [], ac_DebugPort = [], ac_MetricsScrapeEndpoints = []\<rparr>,
     ce_ports = Inr [''1'', ''2'', ''3'', ''4'', ''5'', ''6'', ''7'', ''8'', ''9''],
     ce_allocate = (\<lambda>ps c. c\<lparr>ac_GRPCPort := ps ! 0, ac_OutboundPort := ps ! 2, ac_DebugPort := ps ! 4\<rparr>), ce_cluster = None,
     ce_order = (\<lambda>n. [0..<n]), ce_ann = ex_env, ce_slug = id, ce_policy = Some, ce_url_ok = (\<lambda>_. True)\<rparr>"

definition ex_all_opts :: allCmdOptions where
  "ex_all_opts = default_all_opts\<lparr>al_ingress := default_ingress_opts\<lparr>io_GlobalSettings := ''global''\<rparr>, al_syncAPIIngress := ''ns/web''\<rparr>"

definition ex_param :: allCmdParam where
  "ex_param = \<lparr>pm_settings = NamespacedName [] ''global'', pm_ingressOpts = [], pm_gatewayConfig = None, pm_updateStatusFromService = [], pm_dumpConfigDiff = False, pm_syncAPIURL = [],
     pm_syncAPINamespaceID = [], pm_syncAPIToken = [], pm_syncAPIBootstrap = True, pm_bootstrapMetricsAddr = [], pm_ingressMetricsAddr = [], pm_configControllerShutdownTimeout = 0,
     pm_certificateControllerName = DefaultControllerName, pm_cfg = ce_new_config ex_cmd_env\<rparr>"


subsection \<open>The controllers that run\<close>

text \<open>In the all-in-one service every controller of the configuration is started for the one settings object, and the certificate
  controller has a connection with the shared key.\<close>

lemma fail_if_Inr [simp]: "fail_if e x = Inr y \<longleftrightarrow> e = None \<and> y = x"
  by (auto simp: fail_if_def split: option.splits)

lemma RunLeased_register_Inr:
  "RunLeased_register M c = Inr (c', st) \<Longrightarrow> StartedCertificate client cfg \<in> set st \<Longrightarrow>
   client = cn_DataBrokerServiceClient c \<and> cn_GlobalSettings c = Some (cc_globalSettingsName cfg) \<and>
   cc_controllerName cfg = cn_CertificateControllerName c"
  by (auto simp: RunLeased_register_def settings_controllers_def gateway_controllers_def ebind_Inr_iff getControllerConfig_def
      WithControllerName_cert_def WithGlobalSettingsName_def split: option.splits)

theorem all_in_one_certificate_client:
  assumes "buildController C s d = Inr c" "RunLeased_register M c = Inr (c', st)" "StartedCertificate client cfg \<in> set st"
  shows "\<exists>conn. client = Some conn \<and> DecodeString (bo_SharedKey d) = Some (gc_SignedJWTKey conn) \<and>
    cc_globalSettingsName cfg = pm_settings s \<and> cc_controllerName cfg = pm_certificateControllerName s"
  using assms(1) RunLeased_register_Inr [OF assms(2,3)]
  by (auto simp: buildController_def getDataBrokerConnection_def ebind_Inr_iff split: option.splits)

text \<open>The standalone controller with API synchronisation and a settings object starts the certificate controller without a client.\<close>

theorem standalone_sync_without_client:
  assumes "standalone_buildController C s = Inr c" "io_SyncAPIURL (sc_ingress s) \<noteq> []" "io_GlobalSettings (sc_ingress s) \<noteq> []"
    "RunLeased_register M c = Inr (c', st)"
  shows "\<exists>cfg. StartedCertificate None cfg \<in> set st \<and> cc_controllerName cfg = []"
proof -
  have "cn_DataBrokerServiceClient c = None" "cn_CertificateControllerName c = []" "cn_GlobalSettings c \<noteq> None"
    using assms(1-3) by (auto simp: standalone_buildController_def Let_def ebind_Inr_iff getGlobalSettings_def split: option.splits sum.splits)
  then show ?thesis
    using assms(4) by (auto simp: RunLeased_register_def settings_controllers_def ebind_Inr_iff getControllerConfig_def
      WithControllerName_cert_def WithGlobalSettingsName_def)
qed

text \<open>A shared secret that is not base64 stops the all-in-one service but not the standalone controller, which then signs with what
  could be decoded.\<close>

theorem standalone_accepts_any_secret:
  assumes "standalone_buildController C s = Inr c" "io_SyncAPIURL (sc_ingress s) = []"
  shows "\<exists>conn. standalone_buildController C (s\<lparr>sc_sharedSecret := txt\<rparr>) =
      Inr (c\<lparr>cn_Reconciler := DataBrokerBackend conn, cn_DataBrokerServiceClient := Some conn\<rparr>) \<and>
    gc_SignedJWTKey conn = DecodeString_bytes txt"
  using assms by (auto simp: standalone_buildController_def standalone_connection_def Let_def ebind_Inr_iff split: if_splits option.splits)

subsection \<open>Generated secrets\<close>


definition ex_keys :: "unit key_env" where
  "ex_keys = \<lparr>ke_NewSigningKey = Inr (), ke_EncodePrivateKey = (\<lambda>_. Inr ''pem''), ke_shared = replicate 32 CHR ''s'', ke_cookie = replicate 32 CHR ''c''\<rparr>"


end
