(* ===== verification/Annotation_Proto.thy ===== *)
theory Annotation_Proto
  imports Go_Prelude
begin

text \<open>
  \<^verbatim>\<open>pomerium/proto.go\<close>: annotations are read as YAML and brought into the form that \<^verbatim>\<open>protojson\<close> expects. The values are those
  that YAML decoding gives, with the two typed maps that the code itself makes; message descriptors are a table from
  message names to their fields, so that messages may contain each other. YAML, JSON and \<^verbatim>\<open>protojson\<close>, the duration
  formats and the printing of values are parameters.
\<close>

datatype 'f any =
    VNil
  | VBool bool
  | VInt int
  | VFloat 'f
  | VStr string
  | VList "'f any list"
  | VMap "(string \<times> 'f any) list"
  | VStrMap "(string, string) gomap"
  | VFloatMap "(string, 'f) gomap"
  | VOther string

text \<open>\<open>fd_map\<close> says whether keys and values of a map field are strings; \<open>fd_message\<close> is the message type of a message field.\<close>

record field_desc =
  fd_name :: string
  fd_enum :: "string option"
  fd_list :: bool
  fd_map :: "(bool \<times> bool) option"
  fd_message :: "string option"

record 'f proto_env =
  pj_fields :: "string \<Rightarrow> field_desc list"
  pj_parse_duration :: "string \<Rightarrow> int option"
  pj_marshal_duration :: "int \<Rightarrow> string option"
  pj_sprint :: "'f any \<Rightarrow> string"
  pj_yaml :: "string \<Rightarrow> string + 'f any"
  pj_json :: "'f any \<Rightarrow> string + string"

definition trim_quotes :: "string \<Rightarrow> string" where
  "trim_quotes s = (let q = (\<lambda>c. c = char_of (34::nat)) in rev (dropWhile q (rev (dropWhile q s))))"

definition goDurationStringToProtoJSONDurationString :: "'f proto_env \<Rightarrow> string \<Rightarrow> string" where
  "goDurationStringToProtoJSONDurationString E s =
     (case pj_parse_duration E s of
        None \<Rightarrow> s
      | Some dur \<Rightarrow> (case pj_marshal_duration E dur of None \<Rightarrow> s | Some bs \<Rightarrow> trim_quotes bs))"

definition load_balancing_policies :: "(string \<times> string) list" where
  "load_balancing_policies =
     [(''unspecified'', ''LOAD_BALANCING_POLICY_UNSPECIFIED''), (''round_robin'', ''LOAD_BALANCING_POLICY_ROUND_ROBIN''),
      (''maglev'', ''LOAD_BALANCING_POLICY_MAGLEV''), (''random'', ''LOAD_BALANCING_POLICY_RANDOM''),
      (''ring_hash'', ''LOAD_BALANCING_POLICY_RING_HASH''), (''least_request'', ''LOAD_BALANCING_POLICY_LEAST_REQUEST'')]"

text \<open>The first switch: each policy is known by its short name and with its prefix, in any case; an empty string is unspecified.\<close>

definition load_balancing_policy :: "string \<Rightarrow> string option" where
  "load_balancing_policy v =
     (let l = ToLower v in
      if l = [] then Some ''LOAD_BALANCING_POLICY_UNSPECIFIED''
      else map_of (concat (map (\<lambda>(k, c). [(''load_balancing_policy_'' @ k, c), (k, c)]) load_balancing_policies)) l)"

definition bearer_token_format :: "string \<Rightarrow> string option" where
  "bearer_token_format v = map_of [([], ''BEARER_TOKEN_FORMAT_UNKNOWN''), (''default'', ''BEARER_TOKEN_FORMAT_DEFAULT''),
     (''idp_access_token'', ''BEARER_TOKEN_FORMAT_IDP_ACCESS_TOKEN''), (''idp_identity_token'', ''BEARER_TOKEN_FORMAT_IDP_IDENTITY_TOKEN'')] v"

definition enum_text :: "field_desc \<Rightarrow> string \<Rightarrow> string option" where
  "enum_text fd v =
     (if fd_enum fd = Some ''pomerium.config.LoadBalancingPolicy'' then load_balancing_policy v
      else if fd_enum fd = Some ''pomerium.config.BearerTokenFormat'' then bearer_token_format v
      else None)"

definition string_map :: "field_desc \<Rightarrow> bool" where
  "string_map fd = (fd_map fd = Some (True, True))"

function (sequential) preprocessAnnotationMessage :: "'f proto_env \<Rightarrow> string \<Rightarrow> 'f any \<Rightarrow> 'f any"
  and preprocessAnnotationField :: "'f proto_env \<Rightarrow> field_desc \<Rightarrow> 'f any \<Rightarrow> 'f any"
  and preprocessAnnotationFieldValue :: "'f proto_env \<Rightarrow> field_desc \<Rightarrow> 'f any \<Rightarrow> 'f any"
where
  "preprocessAnnotationMessage E name data =
     (if name = ''google.protobuf.Duration'' then
        (case data of VStr v \<Rightarrow> VStr (goDurationStringToProtoJSONDurationString E v) | _ \<Rightarrow> data)
      else if name = ''pomerium.config.Route.StringList'' then
        (case data of VList v \<Rightarrow> VMap [(''values'', VList v)] | _ \<Rightarrow> data)
      else (case data of
              VFloat v \<Rightarrow> if name = ''envoy.type.v3.Percent'' then VFloatMap [(''value'', v)] else data
            | VMap kvs \<Rightarrow>
                VMap (map (\<lambda>(k, vv). (k, case List.find (\<lambda>fd. fd_name fd = k) (pj_fields E name) of
                                            None \<Rightarrow> vv
                                          | Some fd \<Rightarrow> preprocessAnnotationField E fd vv)) kvs)
            | _ \<Rightarrow> data))"
| "preprocessAnnotationField E fd data =
     (case (case data of VStr v \<Rightarrow> enum_text fd v | _ \<Rightarrow> None) of
        Some c \<Rightarrow> VStr c
      | None \<Rightarrow>
          (case data of
             VList vs \<Rightarrow>
               if fd_list fd then VList (map (preprocessAnnotationFieldValue E fd) vs)
               else preprocessAnnotationFieldValue E fd data
           | _ \<Rightarrow> preprocessAnnotationFieldValue E fd data))"
| "preprocessAnnotationFieldValue E fd data =
     (case data of
        VMap kvs \<Rightarrow>
          if string_map fd then VStrMap (map (\<lambda>(k, vv). (k, pj_sprint E vv)) kvs)
          else (case fd_message fd of None \<Rightarrow> data | Some name \<Rightarrow> preprocessAnnotationMessage E name data)
      | _ \<Rightarrow> (case fd_message fd of None \<Rightarrow> data | Some name \<Rightarrow> preprocessAnnotationMessage E name data))"
  by pat_completeness auto

lemma size_map_value: "(k, v) \<in> set kvs \<Longrightarrow> size v < size (VMap kvs)"
  by (induction kvs) auto

lemma size_list_value: "v \<in> set vs \<Longrightarrow> size v < size (VList vs)"
  by (induction vs) auto

termination preprocessAnnotationMessage
  by (relation "measures [\<lambda>x. case x of Inl (_, _, d) \<Rightarrow> size d | Inr (Inl (_, _, d)) \<Rightarrow> size d | Inr (Inr (_, _, d)) \<Rightarrow> size d,
      \<lambda>x. case x of Inl _ \<Rightarrow> 0 | Inr (Inl _) \<Rightarrow> 2 | Inr (Inr _) \<Rightarrow> 1]")
    (auto dest!: size_map_value size_list_value)

declare preprocessAnnotationMessage.simps [simp del] preprocessAnnotationField.simps [simp del] preprocessAnnotationFieldValue.simps [simp del]

text \<open>\<^verbatim>\<open>unmarshalAnnotations\<close>, with the annotations in the order of iteration; \<open>unmarshal\<close> is \<^verbatim>\<open>protojson.Unmarshal\<close> into the
  message.\<close>

datatype annotation_error = ErrYaml string string | ErrJson string | ErrProtoJson string

definition unmarshalAnnotations ::
  "'f proto_env \<Rightarrow> string \<Rightarrow> (string \<Rightarrow> string + 'm) \<Rightarrow> (string, string) gomap \<Rightarrow> annotation_error + 'm" where
  "unmarshalAnnotations E name unmarshal kvs =
     ebind (efold (\<lambda>src (k, v). case pj_yaml E v of Inl e \<Rightarrow> Inl (ErrYaml k e) | Inr out \<Rightarrow> Inr (AList.update k out src)) [] kvs) (\<lambda>src.
     case pj_json E (preprocessAnnotationMessage E name (VMap src)) of
       Inl e \<Rightarrow> Inl (ErrJson e)
     | Inr data \<Rightarrow> (case unmarshal data of Inl e \<Rightarrow> Inl (ErrProtoJson e) | Inr m \<Rightarrow> Inr m))"

subsection \<open>Values in their final form stay as they are\<close>

definition special_messages :: "string list" where
  "special_messages = [''google.protobuf.Duration'', ''pomerium.config.Route.StringList'', ''envoy.type.v3.Percent'']"

text \<open>A map field has an entry message of its own, and an enum field no message.\<close>

definition field_ok :: "field_desc \<Rightarrow> bool" where
  "field_ok fd \<longleftrightarrow> (fd_map fd \<noteq> None \<longrightarrow> fd_message fd \<notin> Some ` set special_messages) \<and> (fd_enum fd \<noteq> None \<longrightarrow> fd_message fd = None)"

lemma load_balancing_canonical: "load_balancing_policy v = Some c \<Longrightarrow> load_balancing_policy c = Some c"
proof -
  assume a: "load_balancing_policy v = Some c"
  have "c \<in> set (map snd load_balancing_policies)"
    using a by (auto simp: load_balancing_policy_def Let_def load_balancing_policies_def split: if_splits)
  moreover have "\<forall>c \<in> set (map snd load_balancing_policies). load_balancing_policy c = Some c" by code_simp
  ultimately show ?thesis by blast
qed

lemma bearer_canonical: "bearer_token_format v = Some c \<Longrightarrow> bearer_token_format c = None"
  by (auto simp: bearer_token_format_def split: if_splits)

lemma enum_text_canonical: "enum_text fd v = Some c \<Longrightarrow> enum_text fd c = Some c \<or> enum_text fd c = None \<and> fd_enum fd \<noteq> None"
  by (auto simp: enum_text_def dest: load_balancing_canonical bearer_canonical split: if_splits)

definition enum_match :: "field_desc \<Rightarrow> 'f any \<Rightarrow> string option" where
  "enum_match fd data = (case data of VStr v \<Rightarrow> enum_text fd v | _ \<Rightarrow> None)"

lemma enum_match_FieldValue:
  "field_ok fd \<Longrightarrow> enum_match fd data = None \<Longrightarrow> enum_match fd (preprocessAnnotationFieldValue E fd data) = None"
  by (cases "fd_enum fd")
    (auto simp: enum_match_def enum_text_def field_ok_def preprocessAnnotationFieldValue.simps split: any.splits)

lemma FieldValue_no_list:
  "(\<And>vs. data \<noteq> VList vs) \<Longrightarrow> preprocessAnnotationFieldValue E fd data \<noteq> VList vs"
  by (cases data)
    (auto simp: preprocessAnnotationFieldValue.simps preprocessAnnotationMessage.simps split: option.splits if_splits)

lemma Field_value:
  "enum_match fd data = None \<Longrightarrow> \<not> (fd_list fd \<and> (\<exists>vs. data = VList vs)) \<Longrightarrow>
   preprocessAnnotationField E fd data = preprocessAnnotationFieldValue E fd data"
  by (cases data) (auto simp: preprocessAnnotationField.simps enum_match_def)

lemma preprocess_idempotent_aux:
  fixes E :: "'f proto_env"
  assumes fields: "\<And>n. list_all field_ok (pj_fields E n)"
    and dur: "\<And>s. goDurationStringToProtoJSONDurationString E (goDurationStringToProtoJSONDurationString E s) =
      goDurationStringToProtoJSONDurationString E s"
  shows "E' = E \<Longrightarrow> preprocessAnnotationMessage E name (preprocessAnnotationMessage E' name d) = preprocessAnnotationMessage E name d"
    and "E' = E \<Longrightarrow> field_ok fd \<Longrightarrow> preprocessAnnotationField E fd (preprocessAnnotationField E' fd d) = preprocessAnnotationField E fd d"
    and "E' = E \<Longrightarrow> field_ok fd \<Longrightarrow> preprocessAnnotationFieldValue E fd (preprocessAnnotationFieldValue E' fd d) = preprocessAnnotationFieldValue E fd d"
proof (induction E' name d and E' fd d and E' fd d rule:
    preprocessAnnotationMessage_preprocessAnnotationField_preprocessAnnotationFieldValue.induct)
  case (1 E' name data)
  note def = preprocessAnnotationMessage.simps
  show ?case
  proof (cases "\<exists>kvs. data = VMap kvs \<and> name \<noteq> ''google.protobuf.Duration'' \<and> name \<noteq> ''pomerium.config.Route.StringList''")
    case False
    then show ?thesis using dur \<open>E' = E\<close> by (cases data) (auto simp: def)
  next
    case True
    then obtain kvs where d: "data = VMap kvs" and n: "name \<noteq> ''google.protobuf.Duration''" "name \<noteq> ''pomerium.config.Route.StringList''" by blast
    let ?f = "\<lambda>k vv. case List.find (\<lambda>fd. fd_name fd = k) (pj_fields E name) of None \<Rightarrow> vv | Some fd \<Rightarrow> preprocessAnnotationField E fd vv"
    have "?f k (?f k v) = ?f k v" if "(k, v) \<in> set kvs" for k v
    proof (cases "List.find (\<lambda>fd. fd_name fd = k) (pj_fields E name)")
      case (Some fd)
      then have "field_ok fd" using fields [of name] by (auto simp: list_all_iff find_Some_iff)
      then show ?thesis using "1.IH" [OF n d that refl] Some \<open>E' = E\<close> by simp
    qed simp
    then show ?thesis using \<open>E' = E\<close> n by (auto simp: d def)
  qed
next
  case (2 E' fd data)
  note def = preprocessAnnotationField.simps
  show ?case
  proof (cases "enum_match fd data")
    case (Some c)
    then obtain v where v: "data = VStr v" "enum_text fd v = Some c" by (cases data) (auto simp: enum_match_def)
    moreover have "fd_message fd = None" if "fd_enum fd \<noteq> None" using "2.prems" that by (auto simp: field_ok_def)
    ultimately show ?thesis
      using enum_text_canonical [OF v(2)] \<open>E' = E\<close> by (auto simp: def preprocessAnnotationFieldValue.simps)
  next
    case None
    then have e: "(case data of VStr v \<Rightarrow> enum_text fd v | _ \<Rightarrow> None) = None" by (simp add: enum_match_def)
    show ?thesis
    proof (cases "fd_list fd \<and> (\<exists>vs. data = VList vs)")
      case True
      then obtain vs where vs: "data = VList vs" "fd_list fd" by blast
      then show ?thesis using "2.IH" e "2.prems" by (simp add: def)
    next
      case False
      have ih: "preprocessAnnotationFieldValue E fd (preprocessAnnotationFieldValue E fd data) = preprocessAnnotationFieldValue E fd data"
        using "2.IH" e False "2.prems" by (cases data) auto
      have "preprocessAnnotationField E fd (preprocessAnnotationFieldValue E fd data) =
          preprocessAnnotationFieldValue E fd (preprocessAnnotationFieldValue E fd data)"
        using False FieldValue_no_list [of data E fd] "2.prems"(2) None
        by (intro Field_value enum_match_FieldValue) auto
      then show ?thesis using ih Field_value [OF None False, of E] \<open>E' = E\<close> by simp
    qed
  qed
next
  case (3 E' fd data)
  note def = preprocessAnnotationFieldValue.simps
  show ?case
  proof (cases "\<exists>kvs. data = VMap kvs \<and> string_map fd")
    case True
    then show ?thesis using \<open>E' = E\<close> by (auto simp: def preprocessAnnotationMessage.simps split: option.split)
  next
    case False
    show ?thesis
    proof (cases "fd_message fd")
      case None
      then show ?thesis using False \<open>E' = E\<close> by (cases data) (auto simp: def)
    next
      case (Some name)
      let ?m = "preprocessAnnotationMessage E name"
      have v: "preprocessAnnotationFieldValue E fd x = ?m x" if "\<not> (\<exists>kvs. x = VMap kvs \<and> string_map fd)" for x
        using that Some by (cases x) (auto simp: def)
      have "?m (?m data) = ?m data" using "3.IH" False Some "3.prems" by (cases data) auto
      moreover have "\<not> (\<exists>kvs. ?m data = VMap kvs \<and> string_map fd)"
        using False "3.prems"(2) Some
        by (cases data) (auto simp: preprocessAnnotationMessage.simps field_ok_def string_map_def special_messages_def split: if_splits)
      ultimately show ?thesis using v [OF False] v [of "?m data"] \<open>E' = E\<close> by simp
    qed
  qed
qed


definition ex_proto_env :: "int proto_env" where
  "ex_proto_env = \<lparr>pj_fields = (\<lambda>n. if n = ''pomerium.config.Route''
       then [\<lparr>fd_name = ''timeout'', fd_enum = None, fd_list = False, fd_map = None, fd_message = Some ''google.protobuf.Duration''\<rparr>,
             \<lparr>fd_name = ''set_request_headers'', fd_enum = None, fd_list = False, fd_map = Some (True, True), fd_message = Some ''pomerium.config.Route.SetRequestHeadersEntry''\<rparr>,
             \<lparr>fd_name = ''load_balancing_policy'', fd_enum = Some ''pomerium.config.LoadBalancingPolicy'', fd_list = False, fd_map = None, fd_message = None\<rparr>]
       else []),
     pj_parse_duration = (\<lambda>s. if s = ''1m'' \<or> s = ''60s'' then Some 60000000000 else None),
     pj_marshal_duration = (\<lambda>_. Some ([char_of (34::nat)] @ ''60s'' @ [char_of (34::nat)])), pj_sprint = (\<lambda>_. ''1''), pj_yaml = (\<lambda>s. Inr (VStr s)),
     pj_json = (\<lambda>_. Inr [])\<rparr>"

definition ex_any :: "int any" where
  "ex_any = VMap [(''timeout'', VStr ''1m''), (''set_request_headers'', VMap [(''X'', VInt 1)]), (''load_balancing_policy'', VStr ''Maglev'')]"


end
