(* ===== verification/Validation.thy ===== *)
theory Validation
  imports Databroker_Sync
begin

text \<open>
  \<^verbatim>\<open>pomerium/validate.go\<close> and \<^verbatim>\<open>pomerium/envoy/validate_envoy.go\<close>: a configuration is validated by converting its routes and
  settings to Pomerium's own types, building a bootstrap configuration for Envoy and running Envoy on it, from a file
  in the temporary directory. The conversions, the builder and Envoy are parameters. \<open>Databroker_Sync\<close> takes the outcome as its
  field \<open>se_validate\<close>.
\<close>

datatype envoy_exit = EnvoyOK | EnvoyExit1 | EnvoyFailed string

record ('o, 'p, 'b) validate_env =
  ve_options :: "pb_settings option \<Rightarrow> 'o"
  ve_insecure :: "'o \<Rightarrow> 'o"
  ve_policy :: "pb_route \<Rightarrow> string + 'p"
  ve_policy_ok :: "'p \<Rightarrow> string option"
  ve_add_policies :: "'o \<Rightarrow> 'p list \<Rightarrow> 'o"
  ve_options_ok :: "'o \<Rightarrow> string option"
  ve_build :: "'o \<Rightarrow> string + 'b"
  ve_marshal :: "'b \<Rightarrow> string + string"
  ve_write :: "(string \<times> string option) option"
  ve_extract :: "string option"
  ve_envoy :: "string \<Rightarrow> envoy_exit \<times> string"

text \<open>\<open>ve_envoy\<close> is what Envoy says to the contents of the file it is given: the exit and the output; \<open>ve_write\<close> the error of writing the file
  and what it left there.\<close>

record validate_result =
  vr_Valid :: bool
  vr_Message :: string

definition temp_file :: "string \<Rightarrow> string" where
  "temp_file vid = ''/tmp/'' @ vid @ ''.pb''"

definition envoy_Validate ::
  "('o, 'p, 'b) validate_env \<Rightarrow> 'b \<Rightarrow> string \<Rightarrow> (string, string) gomap \<Rightarrow> (string, string) gomap \<times> (string + validate_result)" where
  "envoy_Validate V bootstrap vid fs =
     (case ve_marshal V bootstrap of
        Inl e \<Rightarrow> (fs, Inl e)
      | Inr bs \<Rightarrow>
          (case ve_write V of
             Some (e, left) \<Rightarrow> (case left of None \<Rightarrow> fs | Some x \<Rightarrow> AList.update (temp_file vid) x fs, Inl e)
           | None \<Rightarrow>
               let fs1 = AList.update (temp_file vid) bs fs; fs2 = AList.delete (temp_file vid) fs1 in
               (case ve_extract V of
                  Some e \<Rightarrow> (fs2, Inl e)
                | None \<Rightarrow>
                    (case ve_envoy V (mget_str fs1 (temp_file vid)) of
                       (EnvoyExit1, out) \<Rightarrow> (fs2, Inr \<lparr>vr_Valid = False, vr_Message = out\<rparr>)
                     | (EnvoyFailed e, _) \<Rightarrow> (fs2, Inl e)
                     | (EnvoyOK, _) \<Rightarrow> (fs2, Inr \<lparr>vr_Valid = True, vr_Message = ''OK''\<rparr>)))))"

definition add_policy :: "('o, 'p, 'b) validate_env \<Rightarrow> 'p list \<Rightarrow> pb_route \<Rightarrow> string + 'p list" where
  "add_policy V ps r =
     ebind (ve_policy V r) (\<lambda>p. case ve_policy_ok V p of Some e \<Rightarrow> Inl e | None \<Rightarrow> Inr (ps @ [p]))"

definition validate_config ::
  "('o, 'p, 'b) validate_env \<Rightarrow> pb_config \<Rightarrow> string \<Rightarrow> (string, string) gomap \<Rightarrow> (string, string) gomap \<times> string option" where
  "validate_config V cfg vid fs =
     (let options = ve_insecure V (ve_options V (cfg_Settings cfg)) in
      case efold (add_policy V) [] (cfg_Routes cfg) of
        Inl e \<Rightarrow> (fs, Some e)
      | Inr ps \<Rightarrow>
          let options1 = ve_add_policies V options ps in
          (case ve_options_ok V options1 of
             Some e \<Rightarrow> (fs, Some e)
           | None \<Rightarrow>
               (case ve_build V options1 of
                  Inl e \<Rightarrow> (fs, Some e)
                | Inr bootstrap \<Rightarrow>
                    (case envoy_Validate V bootstrap vid fs of
                       (fs', Inl e) \<Rightarrow> (fs', Some e)
                     | (fs', Inr res) \<Rightarrow> (fs', if vr_Valid res then None else Some (vr_Message res))))))"

lemma add_policies_Inr:
  "efold (add_policy V) ps rs = Inr qs \<longleftrightarrow>
     (\<exists>ps'. qs = ps @ ps' \<and> list_all2 (\<lambda>r p. ve_policy V r = Inr p \<and> ve_policy_ok V p = None) rs ps')"
proof (induction rs arbitrary: ps)
  case (Cons r rs)
  show ?case
  proof (cases "\<exists>p. ve_policy V r = Inr p \<and> ve_policy_ok V p = None")
    case True
    then obtain p where "ve_policy V r = Inr p" "ve_policy_ok V p = None" by blast
    then show ?thesis using Cons.IH [of "ps @ [p]"] by (auto simp: add_policy_def list_all2_Cons1)
  next
    case False
    then show ?thesis by (cases "ve_policy V r") (auto simp: add_policy_def list_all2_Cons1 split: option.splits)
  qed
qed auto

lemma envoy_Validate_valid:
  "(\<exists>res. snd (envoy_Validate V b vid fs) = Inr res \<and> vr_Valid res) \<longleftrightarrow>
     (\<exists>bs out. ve_marshal V b = Inr bs \<and> ve_write V = None \<and> ve_extract V = None \<and> ve_envoy V bs = (EnvoyOK, out))"
  by (auto simp: envoy_Validate_def Let_def mget_str_def deref_str_def update_conv' split: sum.splits option.splits prod.splits envoy_exit.splits)

lemma envoy_Validate_files:
  "q \<noteq> temp_file vid \<Longrightarrow> map_of (fst (envoy_Validate V b vid fs)) q = map_of fs q"
  "(\<And>e x. ve_write V \<noteq> Some (e, Some x)) \<Longrightarrow> map_of fs (temp_file vid) = None \<Longrightarrow> map_of (fst (envoy_Validate V b vid fs)) (temp_file vid) = None"
  by (auto simp: envoy_Validate_def Let_def update_conv' delete_conv' split: sum.splits option.splits prod.splits envoy_exit.splits)

definition checked_options :: "('o, 'p, 'b) validate_env \<Rightarrow> pb_config \<Rightarrow> 'p list \<Rightarrow> 'o" where
  "checked_options V cfg ps = ve_add_policies V (ve_insecure V (ve_options V (cfg_Settings cfg))) ps"


definition ex_validate_env :: "(nat, nat, nat) validate_env" where
  "ex_validate_env = \<lparr>ve_options = (\<lambda>_. 0), ve_insecure = Suc, ve_policy = (\<lambda>_. Inr 1), ve_policy_ok = (\<lambda>_. None), ve_add_policies = (\<lambda>n ps. n + length ps),
     ve_options_ok = (\<lambda>_. None), ve_build = Inr, ve_marshal = (\<lambda>n. Inr (replicate n CHR ''x'')), ve_write = None, ve_extract = None,
     ve_envoy = (\<lambda>s. (if length s = 1 then EnvoyOK else EnvoyExit1, ''out''))\<rparr>"


end
