(* ===== verification/Spec2Isabelle.thy ===== *)
theory Spec2Isabelle
  imports Cert_Provision Gateway_Sync Reporter_Events Once Api_Spec Api_Gateway Command_Spec Annotation_Proto Validation
begin

text \<open>
  Verification library of the Pomerium ingress controller.

  \<^bold>\<open>The program.\<close> The controller watches Kubernetes objects and keeps the configuration of Pomerium in step with them.
  Ingresses, the Pomerium settings resource and Gateway API objects each have a controller that fetches an object
  with everything it refers to, translates it into a configuration message and stores that message in the
  databroker, or keeps each route, policy and key pair as a resource of Pomerium's unified API. A dependency registry
  maps a changed secret or service back to the objects that were built from it. A further controller asks cert-manager
  for certificates that routes lack. The all-in-one command also runs Pomerium itself: a bootstrap controller makes its
  options from the settings, and the other controllers are restarted when the shared secret changes.

  \<^bold>\<open>The theories\<close>, by part of the source under \<^verbatim>\<open>src/\<close>:

  \<^item> \<open>Go_Prelude\<close>, \<open>Go_Json\<close>, \<open>Go_Sort\<close>, \<open>Go_Url\<close>, \<open>Go_Base64\<close>: what the code uses of Go and its standard library. A map is an
    association list with distinct keys (\<open>gomap\<close>); where the code ranges over a map the order is an argument
    (\<open>visit\<close>, \<open>permuting\<close>). Errors are values of a sum type, loops that stop at an error are \<open>efold\<close> and \<open>emap\<close>.
    The JSON decoder runs with fuel \<open>2 * length + 1\<close>, which every nested value of a string stays below.
  \<^item> \<open>Util\<close> (\<^verbatim>\<open>util\<close>), \<open>Registry\<close> (\<^verbatim>\<open>model/registry.go\<close>, \<^verbatim>\<open>controllers/deps\<close>), \<open>Secrets_Map\<close> (\<^verbatim>\<open>model/secrets_map.go\<close>),
    \<open>K8s_Types\<close>, \<open>Pb_Types\<close> and \<open>Pomerium_Crd\<close> (the objects and messages the code reads and writes).
  \<^item> \<open>Name_Index\<close> and \<open>Cert_Matcher\<close> (\<^verbatim>\<open>internal/certificate\<close>): which route names have no certificate.
  \<^item> \<open>Ingress_Config\<close> (\<^verbatim>\<open>model/ingress_config.go\<close>), \<open>Policy_Language\<close> (\<^verbatim>\<open>internal/policy\<close>), \<open>Ingress_Annotations\<close>,
    \<open>Ingress_To_Route\<close>, \<open>Route_List\<close>, \<open>Cert_Map\<close> (\<^verbatim>\<open>pomerium/ingress_annotations.go\<close>, \<^verbatim>\<open>ingress_to_route.go\<close>,
    \<^verbatim>\<open>route_list.go\<close>, \<^verbatim>\<open>routes.go\<close>, \<^verbatim>\<open>deterministic.go\<close>, \<^verbatim>\<open>cert_map.go\<close>, \<^verbatim>\<open>certs.go\<close>): the translation of an ingress.
    \<open>Annotation_Proto\<close> (\<^verbatim>\<open>pomerium/proto.go\<close>) is the preparation of annotation values for \<^verbatim>\<open>protojson\<close>; its recursion over
    message types that contain each other ends because the values get smaller.
  \<^item> \<open>Databroker_Sync\<close> (\<^verbatim>\<open>pomerium/sync_databroker.go\<close>): reading, changing, validating and writing the record. \<open>Validation\<close>
    (\<^verbatim>\<open>pomerium/validate.go\<close>, \<^verbatim>\<open>pomerium/envoy\<close>): the validation itself.
  \<^item> \<open>Settings\<close>, \<open>Settings_Sync\<close> (\<^verbatim>\<open>pomerium/config.go\<close>), \<open>Settings_Controller\<close> (\<^verbatim>\<open>controllers/settings\<close>) and \<open>Deprecation\<close>
    (\<^verbatim>\<open>apis/ingress/v1/deprecation.go\<close>, the search for deprecated fields by reflection).
  \<^item> \<open>Api_Client\<close>, \<open>Ingress_Fetch\<close>, \<open>Once\<close>, \<open>Ingress_Controller\<close> (\<^verbatim>\<open>controllers/ingress\<close>), \<open>Reporter\<close> and \<open>Reporter_Events\<close>
    (\<^verbatim>\<open>controllers/reporter\<close>).
  \<^item> \<open>Gateway_Types\<close>, \<open>Reference_Grants\<close>, \<open>Gateway_Conditions\<close>, \<open>Gateway_Hostnames\<close>, \<open>Gateway_Routes\<close>,
    \<open>Gateway_Listeners\<close>, \<open>Gateway_Controller\<close> (\<^verbatim>\<open>controllers/gateway\<close>), \<open>Gateway_Translate\<close> (\<^verbatim>\<open>pomerium/gateway\<close>) and
    \<open>Gateway_Sync\<close>, which joins them.
  \<^item> \<open>Ingress_To_Policy\<close> (\<^verbatim>\<open>pomerium/ingress_to_policy.go\<close>), \<open>Api_Resources\<close> (creating, finding and updating one resource),
    \<open>Api_Sync\<close> (secrets, ingresses, settings and deletion) and \<open>Api_Gateway\<close>: the reconciler of \<^verbatim>\<open>pomerium/sync_api.go\<close>.
    \<open>Api_Ingress\<close> proves what the API holds afterwards, \<open>Api_Table\<close> is a service that keeps the assumed laws and
    \<open>Api_Spec\<close> has the properties.
  \<^item> \<open>Cert_Names\<close>, \<open>Operation\<close>, \<open>Cert_Collector\<close>, \<open>Cert_Controller\<close> and \<open>Cert_Provision\<close> (\<^verbatim>\<open>controllers/certificate\<close>,
    \<^verbatim>\<open>internal/certificate\<close>): names and certificates read from records, an operation in the background that can be
    replaced, the collector that follows the databroker with one goroutine for each kind of record, and the
    reconciliation of certificates and of the secrets that they fill.
  \<^item> \<open>Bootstrap\<close> (\<^verbatim>\<open>pomerium/ctrl/bootstrap.go\<close>, \<^verbatim>\<open>internal/filemgr\<close>, \<^verbatim>\<open>util/secrets.go\<close>), \<open>Restart\<close> (\<^verbatim>\<open>util/restart.go\<close>),
    \<open>Runner\<close> (\<^verbatim>\<open>pomerium/ctrl/config.go\<close>, \<^verbatim>\<open>run.go\<close>), \<open>Command\<close> and \<open>Command_Spec\<close> (\<^verbatim>\<open>cmd\<close>, \<^verbatim>\<open>controllers/config_controller.go\<close>):
    the all-in-one service and the commands. The goroutines are step relations: a task and its successor in \<open>Restart\<close>,
    and a call of \<^verbatim>\<open>SetConfig\<close> with its listeners beside them in \<open>Runner\<close>.

  \<^bold>\<open>Interfaces.\<close> The contracts between the parts are locales, each interpreted on the model: \<open>dep_registry\<close> (the registry),
  \<open>ingress_reconciler\<close> and \<open>ingress_controller_backend\<close> (what the ingress controller needs of the databroker),
  \<open>resource_kind\<close> (what routes, policies and key pairs of the API share), \<open>backend_ref_checker\<close> (the valid backends of a gateway
  route), \<open>gateway_reconciler\<close> and \<open>content_store\<close> (the files of the bootstrap).

  \<^bold>\<open>Parameters.\<close> Code outside the repository is an argument: decoding of annotations, YAML and policies (\<open>ann_env\<close>,
  \<open>policy_env\<close>), certificates and URLs (\<open>cert_env\<close>), the outcome of remote calls and the validation of a configuration
  (\<open>sync_env\<close>), label selectors, key pairs and times (\<open>gateway_env\<close>), number and URL parsing (\<open>settings_env\<close>), and the
  answers of the API server (\<open>api_server\<close>). The unified API and the cluster that its reconciler patches are actions on an
  arbitrary state (\<open>api_env\<close>); what is assumed of them is \<open>lawful\<close>, \<open>separate_routes\<close> and \<open>patch_echoes\<close>.
  The file system, the hash of file names and the embedded Pomerium are \<open>fs_env\<close> and \<open>boot_env\<close>, with \<open>keeps_options\<close> assumed of
  the latter; the Kubernetes client, ports and validation of the commands are \<open>cmd_env\<close> and \<open>manager_env\<close>.

  \<^bold>\<open>What is shown.\<close> Each translation succeeds exactly on the inputs it should and produces what they say, with the access
  control of the source object; stored configurations are validated and in matching order; after any history the
  databroker holds the routes of the last operation on each ingress; a reconciliation converges or is queued again;
  changes of referenced objects request the right object; gateway routes reach only permitted backends and
  certificates; after a synchronisation the unified API has each route of an ingress under the id that the ingress
  remembers, and after a deletion none of them; after a reconciliation of certificates there is one for each name that
  needs one. Of the all-in-one service: tasks are restarted one at a time and in order, the controllers use the shared
  secret of the latest accepted settings, and the connection string of the storage names files with its secrets. Where the code does not do what it means to, the theorem states what it does.

  \<^bold>\<open>Not modelled.\<close> Metrics and the log lines outside the reporters; the registration of controllers with the manager of
  controller-runtime, which only passes the functions modelled here; parsing of flags and environment variables, health
  endpoints and signal handling, which are calls of libraries; generated deep copies and mocks; the stress tool and the
  documentation generator, which are not part of the controller.
\<close>

end
